(* ===== verification/Prelude.thy ===== *)
theory Prelude
  imports Main "HOL-Library.Word" "HOL-Library.Product_Lexorder" "HOL-Library.Option_ord"
    "HOL-Library.Sublist"
begin

text \<open>
  Shared ground of the development: the types of Go values the components use, the
  statement-level operations on database tables, and the generic lemmas and collections
  the component theories rely on.

  Instants are integers: nanoseconds since Go's zero time (year 1, UTC), so \<open>IsZero\<close> is
  equality with 0, \<open>Truncate\<close> is division as Go documents it (multiples of the unit since
  the zero time), and the location of a \<open>time.Time\<close>, which never changes the instant, is
  left out. Durations are integers of nanoseconds.
\<close>

named_theorems table_simps \<open>rewrite rules of the table operations\<close>
named_theorems query_defs \<open>definitions of the SQL statements\<close>
named_theorems store_defs \<open>definitions of the store operations\<close>

section \<open>Quoted strings\<close>

text \<open>
  \<open>%q\<close> of \<^verbatim>\<open>fmt\<close>: the text between double quotes, with Go's escapes of quotes, backslashes and control
  bytes. Bytes beyond ASCII are kept, as they are for printable runes.
\<close>

definition escaped_byte :: "char \<Rightarrow> string" where
  "escaped_byte c =
     (let n = of_char c :: nat; bs = CHR 0x5C; hex = (\<lambda>d. if d < 10 then char_of (48 + d) else char_of (87 + d :: nat))
      in case map_of [(0x22, CHR 0x22), (0x5C, CHR 0x5C), (7, CHR ''a''), (8, CHR ''b''), (9, CHR ''t''), (10, CHR ''n''),
             (11, CHR ''v''), (12, CHR ''f''), (13, CHR ''r'')] n of
           Some e \<Rightarrow> [bs, e]
         | None \<Rightarrow> if n < 32 \<or> n = 127 then [bs, CHR ''x'', hex (n div 16), hex (n mod 16)] else [c])"

definition quoted :: "string \<Rightarrow> string" where
  "quoted s = [CHR 0x22] @ concat (map escaped_byte s) @ [CHR 0x22]"

section \<open>Go values\<close>

type_synonym uuid = "128 word"
type_synonym time = int
type_synonym duration = int

abbreviation uuid_Nil :: uuid where
  "uuid_Nil \<equiv> 0"

abbreviation Nanosecond :: duration where
  "Nanosecond \<equiv> 1"

abbreviation Microsecond :: duration where
  "Microsecond \<equiv> 1000"

abbreviation Millisecond :: duration where
  "Millisecond \<equiv> 1000000"

abbreviation Second :: duration where
  "Second \<equiv> 1000000000"

abbreviation Minute :: duration where
  "Minute \<equiv> 60000000000"

abbreviation Hour :: duration where
  "Hour \<equiv> 3600000000000"

abbreviation IsZero :: "time \<Rightarrow> bool" where
  "IsZero t \<equiv> t = 0"

definition Truncate :: "time \<Rightarrow> duration \<Rightarrow> time" where
  "Truncate t d = (if d \<le> 0 then t else t - t mod d)"

text \<open>Integer division of Go truncates towards zero.\<close>

definition go_div :: "int \<Rightarrow> int \<Rightarrow> int" where
  "go_div a b = sgn a * sgn b * (\<bar>a\<bar> div \<bar>b\<bar>)"

lemma Truncate_le: "Truncate t d \<le> t"
  by (simp add: Truncate_def)

lemma Truncate_gt: "0 < d \<Longrightarrow> t - d < Truncate t d"
  using pos_mod_bound [of d t] by (simp add: Truncate_def)

lemma Truncate_dvd: "0 < d \<Longrightarrow> d dvd Truncate t d"
  by (simp add: Truncate_def minus_mod_eq_mult_div)

lemma Truncate_id: "0 < d \<Longrightarrow> d dvd t \<Longrightarrow> Truncate t d = t"
  by (simp add: Truncate_def dvd_imp_mod_0)

lemma Truncate_mono: "s \<le> t \<Longrightarrow> Truncate s d \<le> Truncate t d"
proof (cases "0 < d")
  case True
  assume "s \<le> t"
  with True have "d * (s div d) \<le> d * (t div d)"
    by (intro mult_left_mono zdiv_mono1) auto
  with True show ?thesis
    by (simp add: Truncate_def minus_mod_eq_mult_div)
qed (simp add: Truncate_def)

section \<open>Tables\<close>

text \<open>
  A table is the list of its rows. Statements read and write it with a condition, as
  \<open>UPDATE ... WHERE\<close> and \<open>DELETE ... WHERE\<close> do; the number of rows a statement affects is
  \<open>count_where\<close>.
\<close>

definition upd_where :: "('r \<Rightarrow> bool) \<Rightarrow> ('r \<Rightarrow> 'r) \<Rightarrow> 'r list \<Rightarrow> 'r list" where
  "upd_where P f rows = map (\<lambda>r. if P r then f r else r) rows"

definition del_where :: "('r \<Rightarrow> bool) \<Rightarrow> 'r list \<Rightarrow> 'r list" where
  "del_where P rows = filter (\<lambda>r. \<not> P r) rows"

definition count_where :: "('r \<Rightarrow> bool) \<Rightarrow> 'r list \<Rightarrow> nat" where
  "count_where P rows = length (filter P rows)"

definition select_row :: "('r \<Rightarrow> bool) \<Rightarrow> 'r list \<Rightarrow> 'r option" where
  "select_row P rows = find P rows"

lemma upd_where_Nil [simp]: "upd_where P f [] = []"
  by (simp add: upd_where_def)

lemma upd_where_Cons [simp]:
  "upd_where P f (r # rows) = (if P r then f r else r) # upd_where P f rows"
  by (simp add: upd_where_def)

lemma length_upd_where [simp]: "length (upd_where P f rows) = length rows"
  by (simp add: upd_where_def)

lemma map_upd_where: "(\<And>r. P r \<Longrightarrow> k (f r) = k r) \<Longrightarrow> map k (upd_where P f rows) = map k rows"
  by (induction rows) auto

lemma set_upd_where: "set (upd_where P f rows) = f ` {r \<in> set rows. P r} \<union> {r \<in> set rows. \<not> P r}"
  by (induction rows) auto

lemma upd_where_none: "(\<And>r. r \<in> set rows \<Longrightarrow> \<not> P r) \<Longrightarrow> upd_where P f rows = rows"
  by (induction rows) auto

lemma in_upd_whereE:
  assumes "r \<in> set (upd_where P f rows)"
  obtains (upd) r0 where "r0 \<in> set rows" "P r0" "r = f r0" | (keep) "r \<in> set rows" "\<not> P r"
  using assms by (auto simp: set_upd_where)

lemma upd_where_mem: "r \<in> set rows \<Longrightarrow> P r \<Longrightarrow> f r \<in> set (upd_where P f rows)"
  by (auto simp: set_upd_where)

lemma upd_where_keep: "r \<in> set rows \<Longrightarrow> \<not> P r \<Longrightarrow> r \<in> set (upd_where P f rows)"
  by (auto simp: set_upd_where)

lemma filter_upd_where_other:
  "(\<And>r. P r \<Longrightarrow> \<not> Q r) \<Longrightarrow> (\<And>r. P r \<Longrightarrow> \<not> Q (f r)) \<Longrightarrow> filter Q (upd_where P f rows) = filter Q rows"
  by (induction rows) auto

lemma set_del_where [simp]: "set (del_where P rows) = {r \<in> set rows. \<not> P r}"
  by (simp add: del_where_def)

lemma del_where_none: "(\<And>r. r \<in> set rows \<Longrightarrow> \<not> P r) \<Longrightarrow> del_where P rows = rows"
  by (simp add: del_where_def filter_id_conv)

lemma filter_del_where_other: "(\<And>r. P r \<Longrightarrow> \<not> Q r) \<Longrightarrow> filter Q (del_where P rows) = filter Q rows"
  by (induction rows) (auto simp: del_where_def)

lemma distinct_map_del_where: "distinct (map k rows) \<Longrightarrow> distinct (map k (del_where P rows))"
  by (simp add: del_where_def distinct_map_filter)

lemma count_where_0: "count_where P rows = 0 \<longleftrightarrow> (\<forall>r \<in> set rows. \<not> P r)"
  by (auto simp: count_where_def filter_empty_conv)

lemma count_where_le_1:
  assumes "distinct (map k rows)" and "\<And>r. P r \<Longrightarrow> k r = i"
  shows "count_where P rows \<le> 1"
  using assms(1)
proof (induction rows)
  case (Cons r rows)
  have "count_where P rows = 0" if "P r"
  proof -
    have "k r = i" by (rule assms(2)) (rule that)
    have "\<not> P r'" if "r' \<in> set rows" for r'
    proof
      assume "P r'"
      then have "k r' = k r" using assms(2) \<open>k r = i\<close> by simp
      then show False using Cons.prems that by (metis distinct.simps(2) image_eqI list.set_map list.simps(9))
    qed
    then show ?thesis by (simp add: count_where_0)
  qed
  with Cons show ?case by (auto simp: count_where_def)
qed (simp add: count_where_def)

lemma select_row_SomeD: "select_row P rows = Some r \<Longrightarrow> r \<in> set rows \<and> P r"
  by (auto simp: select_row_def find_Some_iff)

lemma select_row_None_iff: "select_row P rows = None \<longleftrightarrow> (\<forall>r \<in> set rows. \<not> P r)"
  by (auto simp: select_row_def find_None_iff)

lemma select_row_ex: "r \<in> set rows \<Longrightarrow> P r \<Longrightarrow> \<exists>r'. select_row P rows = Some r'"
  by (metis option.exhaust select_row_None_iff)

lemma distinct_key_eq: "distinct (map k rows) \<Longrightarrow> r \<in> set rows \<Longrightarrow> r' \<in> set rows \<Longrightarrow> k r = k r' \<Longrightarrow> r = r'"
  by (induction rows) (auto simp: rev_image_eqI)

lemma select_row_key:
  assumes "distinct (map k rows)" "r \<in> set rows"
    and "P r" "\<And>r'. r' \<in> set rows \<Longrightarrow> P r' \<Longrightarrow> k r' = k r"
  shows "select_row P rows = Some r"
proof -
  obtain r' where r': "select_row P rows = Some r'"
    using select_row_ex [where P = P, OF assms(2,3)] by blast
  with select_row_SomeD [OF r'] assms(4) have "r' \<in> set rows" "k r' = k r" by auto
  then have "r' = r" using distinct_key_eq [OF assms(1)] assms(2) by blast
  with r' show ?thesis by simp
qed

lemmas table_facts = map_upd_where set_upd_where filter_upd_where_other filter_del_where_other
  distinct_map_del_where

section \<open>Ordered selections\<close>

text \<open>\<open>ORDER BY key LIMIT n\<close>: a stable sort, cut to a length. A negative limit is an error in
  PostgreSQL and never reaches a query here.\<close>

definition order_limit :: "('r \<Rightarrow> 'k::linorder) \<Rightarrow> int \<Rightarrow> 'r list \<Rightarrow> 'r list" where
  "order_limit k n rows = take (nat n) (sort_key k rows)"

definition limit_offset :: "int \<Rightarrow> int \<Rightarrow> 'r list \<Rightarrow> 'r list" where
  "limit_offset n m rows = take (nat n) (drop (nat m) rows)"

lemma length_order_limit: "length (order_limit k n rows) \<le> nat n"
  by (simp add: order_limit_def)

lemma set_order_limit: "set (order_limit k n rows) \<subseteq> set rows"
  by (metis order_limit_def set_sort set_take_subset)

lemma sorted_order_limit: "sorted (map k (order_limit k n rows))"
  by (simp add: order_limit_def take_map [symmetric] sorted_wrt_take)

lemma distinct_order_limit: "distinct rows \<Longrightarrow> distinct (order_limit k n rows)"
  by (simp add: order_limit_def)

lemma order_limit_smallest:
  assumes "r \<in> set rows" "r \<notin> set (order_limit k n rows)" "r' \<in> set (order_limit k n rows)"
  shows "k r' \<le> k r"
proof -
  let ?s = "sort_key k rows"
  have s: "?s = take (nat n) ?s @ drop (nat n) ?s" by simp
  have "sorted (map k (take (nat n) ?s) @ map k (drop (nat n) ?s))"
    by (metis append_take_drop_id map_append sorted_sort_key)
  then have "\<forall>x \<in> set (take (nat n) ?s). \<forall>y \<in> set (drop (nat n) ?s). k x \<le> k y"
    by (simp add: sorted_append)
  moreover have "r \<in> set (drop (nat n) ?s)"
    using assms(1,2) by (metis Un_iff order_limit_def s set_append set_sort)
  ultimately show ?thesis using assms(3) by (simp add: order_limit_def)
qed

lemma set_limit_offset: "set (limit_offset n m rows) \<subseteq> set rows"
  by (metis limit_offset_def order_trans set_drop_subset set_take_subset)

lemma length_limit_offset: "length (limit_offset n m rows) \<le> nat n"
  by (simp add: limit_offset_def)

section \<open>Runs of a step function\<close>

text \<open>
  The machines of the development are step functions over events; a run is a fold. An
  invariant kept by each step holds along every run.
\<close>

locale step_machine =
  fixes step :: "'e \<Rightarrow> 's \<Rightarrow> 's"
    and inv :: "'s \<Rightarrow> bool"
  assumes step_inv: "inv s \<Longrightarrow> inv (step e s)"
begin

lemma run_inv: "inv s \<Longrightarrow> inv (fold step es s)"
  by (induction es arbitrary: s) (auto intro: step_inv)

lemma run_inv_prefix: "inv s \<Longrightarrow> inv (fold step (take n es) s)"
  by (rule run_inv)

end

text \<open>A quantity that no step decreases does not decrease along a run.\<close>

locale monotone_machine = step_machine step inv
  for step :: "'e \<Rightarrow> 's \<Rightarrow> 's" and inv +
  fixes rel :: "'s \<Rightarrow> 's \<Rightarrow> bool"
  assumes rel_refl: "rel s s"
    and rel_trans: "rel s t \<Longrightarrow> rel t u \<Longrightarrow> rel s u"
    and step_rel: "inv s \<Longrightarrow> rel s (step e s)"
begin

lemma run_rel: "inv s \<Longrightarrow> rel s (fold step es s)"
proof (induction es arbitrary: s)
  case Nil
  show ?case by (simp add: rel_refl)
next
  case (Cons e es)
  then have "rel s (step e s)" "rel (step e s) (fold step es (step e s))"
    by (auto intro: step_rel step_inv)
  then show ?case by (auto intro: rel_trans)
qed

end

end
