(* ===== verification/Domain.thy ===== *)
theory Domain
  imports Prelude
begin

text \<open>
  The data model of \<^verbatim>\<open>internal/domain\<close>: one record per Go struct, one datatype per set of
  string constants, one constructor per sentinel error. Field names carry a short prefix of
  their struct because record fields share one name space. A pointer field that may be nil
  is an option.
\<close>

section \<open>Errors\<close>

text \<open>
  The sentinel errors of \<^verbatim>\<open>errors.go\<close>, \<^verbatim>\<open>control.go\<close> and \<^verbatim>\<open>execution.go\<close>, the ones of the
  packages that use the domain (\<open>ErrStatusTransitionDenied\<close>, \<open>ErrBufferFull\<close>,
  \<open>ErrCircuitOpen\<close>, \<open>ErrDestinationBlocked\<close>, \<open>sql.ErrNoRows\<close>, the context errors), a failed database call
  with its SQLSTATE code (\<open>PQError\<close>), ad-hoc errors made from a message, and \<open>fmt.Errorf\<close>
  with \<open>%w\<close> as \<open>Wrapped\<close> (text before the cause) or \<open>Annotated\<close> (text after it).
\<close>

datatype err =
    ErrJobNotFound | ErrExecutionNotFound | ErrAPIKeyNotFound
  | ErrNamespaceRequired | ErrNamespaceMismatch
  | ErrInvalidCronExpression | ErrInvalidTimezone
  | ErrInvalidWebhookURL | ErrWebhookHostNotAllowed
  | ErrJobDisabled | ErrDuplicateExecution | ErrDuplicateAPIKey
  | ErrBootstrapAlreadyCompleted | ErrAdminSessionNotFound | ErrScheduleParseFailure
  | ErrInvalidControlInput | ErrBulkNotFound | ErrSavedViewLimit
  | ErrExecutionClaimLost | ErrStatusTransitionDenied
  | ErrBufferFull | ErrCircuitOpen | ErrNoRows | ErrDestinationBlocked
  | Canceled | DeadlineExceeded
  | PQError string string
  | ErrorMsg string
  | BlockedError string "string option" string
  | Wrapped string err
  | Annotated err string

text \<open>\<open>errors.Is\<close> follows the chain of wrapped errors; a \<open>BlockedError\<close> says itself that it is
  \<open>ErrDestinationBlocked\<close>.\<close>

fun errors_Is :: "err \<Rightarrow> err \<Rightarrow> bool" where
  "errors_Is (Wrapped msg e) target = (Wrapped msg e = target \<or> errors_Is e target)"
| "errors_Is (BlockedError h i r) target = (BlockedError h i r = target \<or> target = ErrDestinationBlocked)"
| "errors_Is (Annotated e msg) target = (Annotated e msg = target \<or> errors_Is e target)"
| "errors_Is e target = (e = target)"

text \<open>The text of an error, as \<open>Error()\<close> returns it.\<close>

fun error_string :: "err \<Rightarrow> string" where
  "error_string ErrJobNotFound = ''job not found''"
| "error_string ErrExecutionNotFound = ''execution not found''"
| "error_string ErrAPIKeyNotFound = ''api key not found''"
| "error_string ErrNamespaceRequired = ''namespace required''"
| "error_string ErrNamespaceMismatch = ''namespace mismatch''"
| "error_string ErrInvalidCronExpression = ''invalid cron expression''"
| "error_string ErrInvalidTimezone = ''invalid timezone''"
| "error_string ErrInvalidWebhookURL = ''invalid webhook URL''"
| "error_string ErrWebhookHostNotAllowed = ''webhook host not allowed for this namespace''"
| "error_string ErrJobDisabled = ''job is disabled''"
| "error_string ErrDuplicateExecution = ''execution already exists''"
| "error_string ErrDuplicateAPIKey = ''api key already exists''"
| "error_string ErrBootstrapAlreadyCompleted = ''admin bootstrap already completed''"
| "error_string ErrAdminSessionNotFound = ''admin session not found''"
| "error_string ErrScheduleParseFailure = ''could not parse schedule description''"
| "error_string ErrInvalidControlInput = ''invalid control center input''"
| "error_string ErrBulkNotFound = ''bulk preview not found or expired''"
| "error_string ErrSavedViewLimit = ''saved view limit reached''"
| "error_string ErrExecutionClaimLost = ''execution claim lost or expired''"
| "error_string ErrStatusTransitionDenied =
     ''status transition denied: execution already in terminal state''"
| "error_string ErrBufferFull = ''event buffer full''"
| "error_string ErrCircuitOpen = ''circuit breaker is open''"
| "error_string ErrNoRows = ''sql: no rows in result set''"
| "error_string ErrDestinationBlocked = ''destination blocked''"
| "error_string Canceled = ''context canceled''"
| "error_string DeadlineExceeded = ''context deadline exceeded''"
| "error_string (PQError code msg) = ''pq: '' @ msg"
| "error_string (ErrorMsg msg) = msg"
| "error_string (BlockedError host ip reason) =
     ''destination blocked: host '' @ quoted host
       @ (case ip of None \<Rightarrow> '''' | Some i \<Rightarrow> '' resolved to '' @ i) @ '': '' @ reason"
| "error_string (Wrapped msg e) = msg @ '': '' @ error_string e"
| "error_string (Annotated e msg) = error_string e @ '': '' @ msg"

type_synonym 'a result = "err + 'a"

section \<open>Enumerations\<close>

text \<open>
  The Go types are strings with named constants; a string that is none of the constants is
  carried by the last constructor.
\<close>

datatype ExecutionStatus = Emitted | InProgress | Delivered | Failed | OtherStatus string

datatype TriggerType = Scheduled | Manual | OtherTrigger string

datatype DeliveryType = Webhook | OtherDelivery string

fun status_string :: "ExecutionStatus \<Rightarrow> string" where
  "status_string Emitted = ''emitted''"
| "status_string InProgress = ''in_progress''"
| "status_string Delivered = ''delivered''"
| "status_string Failed = ''failed''"
| "status_string (OtherStatus s) = s"

definition status_of_string :: "string \<Rightarrow> ExecutionStatus" where
  "status_of_string s =
     (if s = ''emitted'' then Emitted else if s = ''in_progress'' then InProgress
      else if s = ''delivered'' then Delivered else if s = ''failed'' then Failed
      else OtherStatus s)"

abbreviation terminal :: "ExecutionStatus \<Rightarrow> bool" where
  "terminal st \<equiv> st = Delivered \<or> st = Failed"

section \<open>Structs\<close>

type_synonym Namespace = string

definition ns_IsZero :: "Namespace \<Rightarrow> bool" where
  "ns_IsZero n \<longleftrightarrow> n = ''''"

text \<open>The only value the code puts into a request context is the namespace.\<close>

type_synonym ctx = "Namespace option"

definition NamespaceFromContext :: "ctx \<Rightarrow> Namespace" where
  "NamespaceFromContext c = (case c of None \<Rightarrow> '''' | Some ns \<Rightarrow> ns)"

definition NamespaceToContext :: "ctx \<Rightarrow> Namespace \<Rightarrow> ctx" where
  "NamespaceToContext c ns = Some ns"

record DeliveryConfig =
  dc_Type :: DeliveryType
  dc_WebhookURL :: string
  dc_Secret :: string
  dc_Timeout :: duration

record AnalyticsConfig =
  an_Enabled :: bool
  an_RetentionSeconds :: int

definition DefaultRetentionSeconds :: int where
  "DefaultRetentionSeconds = 86400"

record Job =
  job_ID :: uuid
  job_Namespace :: Namespace
  job_Name :: string
  job_Enabled :: bool
  job_ScheduleID :: uuid
  job_Delivery :: DeliveryConfig
  job_Analytics :: AnalyticsConfig
  job_CreatedAt :: time
  job_UpdatedAt :: time

record Schedule =
  sch_ID :: uuid
  sch_CronExpression :: string
  sch_Timezone :: string
  sch_CreatedAt :: time
  sch_UpdatedAt :: time

type_synonym JobWithSchedule = "Job \<times> Schedule"

record Execution =
  ex_ID :: uuid
  ex_JobID :: uuid
  ex_Namespace :: Namespace
  ex_TriggerType :: TriggerType
  ex_ScheduledAt :: time
  ex_FiredAt :: time
  ex_Status :: ExecutionStatus
  ex_AcknowledgedAt :: "time option"
  ex_CreatedAt :: time
  ex_ClaimedAt :: "time option"
  ex_ClaimGeneration :: int
  ex_LeaseUntil :: "time option"

definition DefaultExecutionLease :: duration where
  "DefaultExecutionLease = 2 * Minute"

definition OwnershipOperationTimeout :: duration where
  "OwnershipOperationTimeout = 5 * Second"

record DeliveryAttempt =
  da_ID :: uuid
  da_ExecutionID :: uuid
  da_Attempt :: int
  da_ClaimGeneration :: int
  da_StatusCode :: int
  da_Error :: string
  da_StartedAt :: time
  da_FinishedAt :: time

record Tag =
  tag_Key :: string
  tag_Value :: string

record TriggerEvent =
  te_ExecutionID :: uuid
  te_JobID :: uuid
  te_Namespace :: Namespace
  te_ScheduledAt :: time
  te_FiredAt :: time
  te_CreatedAt :: time

record APIKey =
  key_ID :: uuid
  key_Namespace :: Namespace
  key_TokenHash :: string
  key_Label :: string
  key_Enabled :: bool
  key_CreatedAt :: time
  key_LastUsedAt :: "time option"
  key_TailnetLogin :: string

record AdminSession =
  ses_TokenHash :: string
  ses_APIKeyID :: uuid
  ses_CSRFToken :: string
  ses_CreatedAt :: time
  ses_LastSeenAt :: time
  ses_ExpiresAt :: time
  ses_AbsoluteExpiresAt :: time

record SavedView =
  view_ID :: uuid
  view_Name :: string
  view_Query :: string
  view_CreatedAt :: time

record BulkItem =
  item_ID :: uuid
  item_Name :: string
  item_Enabled :: bool
  item_UpdatedAt :: time
  item_Result :: string

record BulkBatch =
  bulk_ID :: uuid
  bulk_Action :: string
  bulk_Items :: "BulkItem list"
  bulk_CreatedAt :: time
  bulk_ExpiresAt :: time
  bulk_ConfirmedAt :: "time option"

record Fleet =
  fleet_Jobs :: "JobWithSchedule list"
  fleet_Total :: int
  fleet_Active :: int
  fleet_Paused :: int
  fleet_Matched :: int

record RunEvidence =
  run_Execution :: Execution
  run_JobName :: string
  run_Attempts :: int
  run_LastStatusCode :: int
  run_LastError :: string
  run_LastFinishedAt :: time

record RunsPage =
  runs_Runs :: "RunEvidence list"
  runs_Total :: int

definition MaxBulkJobs :: nat where
  "MaxBulkJobs = 100"

section \<open>Filters\<close>

record ListParams =
  lp_Limit :: int
  lp_Offset :: int

definition WithDefaults :: "ListParams \<Rightarrow> ListParams" where
  "WithDefaults p =
     (let p = (if lp_Limit p \<le> 0 then p\<lparr>lp_Limit := 100\<rparr> else p);
          p = (if lp_Limit p > 1000 then p\<lparr>lp_Limit := 1000\<rparr> else p)
      in if lp_Offset p < 0 then p\<lparr>lp_Offset := 0\<rparr> else p)"

record JobFilter =
  jf_Namespace :: Namespace
  jf_Tags :: "Tag list"
  jf_Enabled :: "bool option"
  jf_Name :: string
  jf_ListParams :: ListParams

record ExecutionFilter =
  ef_JobID :: uuid
  ef_Namespace :: Namespace
  ef_Status :: "ExecutionStatus option"
  ef_TriggerType :: "TriggerType option"
  ef_Since :: "time option"
  ef_Until :: "time option"
  ef_ListParams :: ListParams

section \<open>Lemmas\<close>

lemma errors_Is_refl [simp]: "errors_Is e e"
  by (cases e) auto

lemma status_string_inverse: "status_of_string (status_string st) = st \<or> (\<exists>s. st = OtherStatus s)"
  by (cases st) (auto simp: status_of_string_def)

lemma status_of_string_inverse: "status_string (status_of_string s) = s"
  by (simp add: status_of_string_def)

lemma WithDefaults_limit: "1 \<le> lp_Limit (WithDefaults p) \<and> lp_Limit (WithDefaults p) \<le> 1000"
  by (simp add: WithDefaults_def Let_def)

lemma WithDefaults_offset: "0 \<le> lp_Offset (WithDefaults p)"
  by (simp add: WithDefaults_def Let_def)

lemma WithDefaults_id:
  "1 \<le> lp_Limit p \<Longrightarrow> lp_Limit p \<le> 1000 \<Longrightarrow> 0 \<le> lp_Offset p \<Longrightarrow> WithDefaults p = p"
  by (simp add: WithDefaults_def)

lemma WithDefaults_idem: "WithDefaults (WithDefaults p) = WithDefaults p"
  using WithDefaults_limit [of p] WithDefaults_offset [of p] by (simp add: WithDefaults_id)

end
