(* ===== verification/Queries.thy ===== *)
theory Queries
  imports Domain
begin

text \<open>
  The database and the SQL statements of \<^verbatim>\<open>internal/store/postgres/queries.go\<close>. A table is the
  list of its rows in an arbitrary order, which is also how ties of an ORDER BY are resolved;
  the theorems hold for every order. A statement is a function of the database that returns
  its rows (or the number of rows it affects) and the new database, or the PostgreSQL error of
  the constraint it violates (code 23505 for a unique or primary key, 23503 for a foreign key).

  One statement runs atomically: its snapshot and row locks are PostgreSQL's. What the rest of
  the system can do to a statement is a parameter: \<open>clk\<close> is the reading of the database clock
  (\<open>clock_timestamp()\<close>, \<open>NOW()\<close>) and \<open>locked\<close> the rows other transactions hold locked, which
  SKIP LOCKED leaves out. Timestamps are stored at the precision they are given.
\<close>

record saved_view_row =
  sv_APIKeyID :: uuid
  sv_Namespace :: Namespace
  sv_View :: SavedView

record bulk_row =
  bb_APIKeyID :: uuid
  bb_Namespace :: Namespace
  bb_Batch :: BulkBatch

record db =
  t_schedules :: "Schedule list"
  t_jobs :: "Job list"
  t_executions :: "Execution list"
  t_delivery_attempts :: "DeliveryAttempt list"
  t_tags :: "(uuid \<times> Tag) list"
  t_api_keys :: "APIKey list"
  t_admin_sessions :: "AdminSession list"
  t_saved_views :: "saved_view_row list"
  t_bulk_batches :: "bulk_row list"

type_synonym 'a stmt = "db \<Rightarrow> 'a result \<times> db"

definition empty_db :: db where
  "empty_db = \<lparr>t_schedules = [], t_jobs = [], t_executions = [], t_delivery_attempts = [],
     t_tags = [], t_api_keys = [], t_admin_sessions = [], t_saved_views = [], t_bulk_batches = []\<rparr>"

abbreviation unique_violation :: err where
  "unique_violation \<equiv> PQError ''23505'' ''duplicate key value violates unique constraint''"

abbreviation foreign_key_violation :: err where
  "foreign_key_violation \<equiv> PQError ''23503'' ''violates foreign key constraint''"

abbreviation check_violation :: err where
  "check_violation \<equiv> PQError ''23514'' ''violates check constraint''"

section \<open>Schedules and jobs\<close>

definition schedule_of :: "db \<Rightarrow> Job \<Rightarrow> Schedule option" where
  "schedule_of db j = select_row (\<lambda>s. sch_ID s = job_ScheduleID j) (t_schedules db)"

text \<open>\<open>jobs j JOIN schedules s ON j.schedule_id = s.id\<close>\<close>

definition jobs_join_schedules :: "db \<Rightarrow> JobWithSchedule list" where
  "jobs_join_schedules db =
     concat (map (\<lambda>j. map (Pair j) (filter (\<lambda>s. sch_ID s = job_ScheduleID j) (t_schedules db))) (t_jobs db))"

definition queryGetEnabledJobs :: "int \<Rightarrow> uuid \<Rightarrow> db \<Rightarrow> JobWithSchedule list" where
  "queryGetEnabledJobs limit afterID db =
     order_limit (\<lambda>(j, s). job_ID j) limit
       (filter (\<lambda>(j, s). job_Enabled j \<and> (afterID = uuid_Nil \<or> afterID < job_ID j)) (jobs_join_schedules db))"

text \<open>The column \<open>timeout_ms\<close> holds whole milliseconds.\<close>

definition timeout_column :: "duration \<Rightarrow> duration" where
  "timeout_column d = go_div d Millisecond * Millisecond"

definition job_row :: "Job \<Rightarrow> Job" where
  "job_row j = j\<lparr>job_Delivery := (job_Delivery j)\<lparr>dc_Timeout := timeout_column (dc_Timeout (job_Delivery j))\<rparr>\<rparr>"

definition queryInsertSchedule :: "Schedule \<Rightarrow> unit stmt" where
  "queryInsertSchedule s db =
     (if sch_ID s \<in> sch_ID ` set (t_schedules db) then (Inl unique_violation, db)
      else (Inr (), db\<lparr>t_schedules := t_schedules db @ [s]\<rparr>))"

definition queryInsertJob :: "Job \<Rightarrow> unit stmt" where
  "queryInsertJob j db =
     (if job_ID j \<in> job_ID ` set (t_jobs db) then (Inl unique_violation, db)
      else if job_ScheduleID j \<notin> sch_ID ` set (t_schedules db) then (Inl foreign_key_violation, db)
      else (Inr (), db\<lparr>t_jobs := t_jobs db @ [job_row j]\<rparr>))"

definition queryGetJobByID :: "uuid \<Rightarrow> db \<Rightarrow> Job option" where
  "queryGetJobByID i db = select_row (\<lambda>j. job_ID j = i) (t_jobs db)"

definition queryGetJobWithSchedule :: "uuid \<Rightarrow> db \<Rightarrow> JobWithSchedule option" where
  "queryGetJobWithSchedule i db = select_row (\<lambda>(j, s). job_ID j = i) (jobs_join_schedules db)"

definition queryGetJobWithScheduleScoped :: "uuid \<Rightarrow> Namespace \<Rightarrow> db \<Rightarrow> JobWithSchedule option" where
  "queryGetJobWithScheduleScoped i ns db =
     select_row (\<lambda>(j, s). job_ID j = i \<and> job_Namespace j = ns) (jobs_join_schedules db)"

text \<open>The configuration columns an update writes; the identity, namespace, schedule and creation
  time stay.\<close>

definition set_configuration :: "Job \<Rightarrow> Job \<Rightarrow> Job" where
  "set_configuration new old =
     old\<lparr>job_Name := job_Name new,
         job_Delivery := job_Delivery (job_row new),
         job_Analytics := job_Analytics new,
         job_UpdatedAt := job_UpdatedAt new\<rparr>"

definition queryUpdateJob :: "Job \<Rightarrow> db \<Rightarrow> nat \<times> db" where
  "queryUpdateJob j db =
     (let P = (\<lambda>r. job_ID r = job_ID j \<and> job_Namespace r = job_Namespace j)
      in (count_where P (t_jobs db),
          db\<lparr>t_jobs := upd_where P (\<lambda>r. (set_configuration j r)\<lparr>job_Enabled := job_Enabled j\<rparr>) (t_jobs db)\<rparr>))"

definition queryUpdateJobConfiguration :: "Job \<Rightarrow> db \<Rightarrow> nat \<times> db" where
  "queryUpdateJobConfiguration j db =
     (let P = (\<lambda>r. job_ID r = job_ID j \<and> job_Namespace r = job_Namespace j)
      in (count_where P (t_jobs db), db\<lparr>t_jobs := upd_where P (set_configuration j) (t_jobs db)\<rparr>))"

text \<open>
  One statement deletes the job and everything that hangs off it. The foreign keys are checked
  at its end: only a schedule that another job still uses can refuse it.
\<close>

definition queryDeleteJob :: "uuid \<Rightarrow> Namespace \<Rightarrow> (uuid option) stmt" where
  "queryDeleteJob i ns db =
     (let auth = filter (\<lambda>j. job_ID j = i \<and> job_Namespace j = ns) (t_jobs db);
          ids = job_ID ` set auth;
          execs = ex_ID ` {e \<in> set (t_executions db). ex_JobID e \<in> ids};
          scheds = job_ScheduleID ` set auth
      in if \<exists>j \<in> set (t_jobs db). job_ID j \<notin> ids \<and> job_ScheduleID j \<in> scheds
         then (Inl foreign_key_violation, db)
         else (Inr (case auth of [] \<Rightarrow> None | j # _ \<Rightarrow> Some (job_ID j)),
               db\<lparr>t_delivery_attempts := del_where (\<lambda>a. da_ExecutionID a \<in> execs) (t_delivery_attempts db),
                  t_executions := del_where (\<lambda>e. ex_JobID e \<in> ids) (t_executions db),
                  t_tags := del_where (\<lambda>(k, t). k \<in> ids) (t_tags db),
                  t_schedules := del_where (\<lambda>s. sch_ID s \<in> scheds) (t_schedules db),
                  t_jobs := del_where (\<lambda>j. job_ID j \<in> ids) (t_jobs db)\<rparr>))"

definition queryGetSchedule :: "uuid \<Rightarrow> db \<Rightarrow> Schedule option" where
  "queryGetSchedule i db = select_row (\<lambda>s. sch_ID s = i) (t_schedules db)"

definition queryUpdateSchedule :: "Schedule \<Rightarrow> db \<Rightarrow> db" where
  "queryUpdateSchedule s db =
     db\<lparr>t_schedules := upd_where (\<lambda>r. sch_ID r = sch_ID s)
          (\<lambda>r. r\<lparr>sch_CronExpression := sch_CronExpression s, sch_Timezone := sch_Timezone s,
                 sch_UpdatedAt := sch_UpdatedAt s\<rparr>) (t_schedules db)\<rparr>"

section \<open>Executions\<close>

text \<open>The columns an INSERT leaves out take their defaults.\<close>

definition execution_row :: "Execution \<Rightarrow> Execution" where
  "execution_row e = e\<lparr>ex_AcknowledgedAt := None, ex_ClaimedAt := None, ex_ClaimGeneration := 0,
     ex_LeaseUntil := None\<rparr>"

definition queryInsertExecution :: "Execution \<Rightarrow> unit stmt" where
  "queryInsertExecution e db =
     (if ex_ID e \<in> ex_ID ` set (t_executions db)
         \<or> (ex_JobID e, ex_ScheduledAt e) \<in> (\<lambda>r. (ex_JobID r, ex_ScheduledAt r)) ` set (t_executions db)
      then (Inl unique_violation, db)
      else if ex_JobID e \<notin> job_ID ` set (t_jobs db) then (Inl foreign_key_violation, db)
      else (Inr (), db\<lparr>t_executions := t_executions db @ [execution_row e]\<rparr>))"

definition queryGetLastScheduledExecution :: "uuid \<Rightarrow> db \<Rightarrow> time option" where
  "queryGetLastScheduledExecution jobID db =
     (case order_limit (\<lambda>e. - ex_ScheduledAt e) 1
             (filter (\<lambda>e. ex_JobID e = jobID \<and> (ex_TriggerType e = Scheduled \<or> ex_TriggerType e = OtherTrigger ''''))
               (t_executions db))
      of [] \<Rightarrow> None | e # _ \<Rightarrow> Some (ex_ScheduledAt e))"

text \<open>The columns a plain SELECT of an execution reads: the claim columns are not among them.\<close>

definition unclaimed_columns :: "Execution \<Rightarrow> Execution" where
  "unclaimed_columns e = e\<lparr>ex_ClaimedAt := None, ex_ClaimGeneration := 0, ex_LeaseUntil := None\<rparr>"

definition queryGetExecution :: "uuid \<Rightarrow> db \<Rightarrow> Execution option" where
  "queryGetExecution i db = map_option unclaimed_columns (select_row (\<lambda>e. ex_ID e = i) (t_executions db))"

definition queryGetExecutionScoped :: "uuid \<Rightarrow> Namespace \<Rightarrow> db \<Rightarrow> Execution option" where
  "queryGetExecutionScoped i ns db =
     map_option unclaimed_columns (select_row (\<lambda>e. ex_ID e = i \<and> ex_Namespace e = ns) (t_executions db))"

definition queryGetRecentExecutions :: "uuid \<Rightarrow> int \<Rightarrow> db \<Rightarrow> Execution list" where
  "queryGetRecentExecutions jobID limit db =
     map unclaimed_columns
       (order_limit (\<lambda>e. - ex_CreatedAt e) limit (filter (\<lambda>e. ex_JobID e = jobID) (t_executions db)))"

definition queryAckExecution :: "time \<Rightarrow> uuid \<Rightarrow> Namespace \<Rightarrow> db \<Rightarrow> nat \<times> db" where
  "queryAckExecution clk i ns db =
     (let P = (\<lambda>e. ex_ID e = i \<and> ex_Namespace e = ns \<and> ex_AcknowledgedAt e = None \<and> terminal (ex_Status e))
      in (count_where P (t_executions db),
          db\<lparr>t_executions := upd_where P (\<lambda>e. e\<lparr>ex_AcknowledgedAt := Some clk\<rparr>) (t_executions db)\<rparr>))"

definition queryGetExecutionStatus :: "uuid \<Rightarrow> db \<Rightarrow> ExecutionStatus option" where
  "queryGetExecutionStatus i db = map_option ex_Status (select_row (\<lambda>e. ex_ID e = i) (t_executions db))"

definition queryUpdateExecutionStatus :: "ExecutionStatus \<Rightarrow> uuid \<Rightarrow> db \<Rightarrow> nat \<times> db" where
  "queryUpdateExecutionStatus st i db =
     (let P = (\<lambda>e. ex_ID e = i \<and> \<not> terminal (ex_Status e) \<and> ex_ClaimGeneration e = 0)
      in (count_where P (t_executions db),
          db\<lparr>t_executions := upd_where P (\<lambda>e. e\<lparr>ex_Status := st\<rparr>) (t_executions db)\<rparr>))"

definition queryGetOrphanedExecutions :: "time \<Rightarrow> int \<Rightarrow> db \<Rightarrow> Execution list" where
  "queryGetOrphanedExecutions olderThan limit db =
     map unclaimed_columns
       (order_limit ex_CreatedAt limit
         (filter (\<lambda>e. ex_Status e = Emitted \<and> (ex_CreatedAt e < olderThan \<or> ex_ClaimGeneration e > 0))
           (t_executions db)))"

text \<open>What a claim writes into a row.\<close>

definition claim_row :: "time \<Rightarrow> int \<Rightarrow> Execution \<Rightarrow> Execution" where
  "claim_row clk ms e =
     e\<lparr>ex_Status := InProgress, ex_ClaimedAt := Some clk, ex_ClaimGeneration := ex_ClaimGeneration e + 1,
       ex_LeaseUntil := Some (clk + ms * Millisecond)\<rparr>"

definition queryDequeueExecution :: "uuid set \<Rightarrow> time \<Rightarrow> int \<Rightarrow> db \<Rightarrow> Execution option \<times> db" where
  "queryDequeueExecution locked clk ms db =
     (case order_limit ex_CreatedAt 1
             (filter (\<lambda>e. ex_Status e = Emitted \<and> ex_ID e \<notin> locked) (t_executions db))
      of [] \<Rightarrow> (None, db)
       | n # _ \<Rightarrow> (Some (claim_row clk ms n),
                  db\<lparr>t_executions := upd_where (\<lambda>e. ex_ID e = ex_ID n) (claim_row clk ms) (t_executions db)\<rparr>))"

definition queryDequeueExecutions :: "uuid set \<Rightarrow> time \<Rightarrow> int \<Rightarrow> int \<Rightarrow> db \<Rightarrow> Execution list \<times> db" where
  "queryDequeueExecutions locked clk limit ms db =
     (let next = order_limit (\<lambda>e. (ex_CreatedAt e, ex_ID e)) limit
                   (filter (\<lambda>e. ex_Status e = Emitted \<and> ex_ID e \<notin> locked) (t_executions db))
      in (map (claim_row clk ms) next,
          db\<lparr>t_executions := upd_where (\<lambda>e. ex_ID e \<in> ex_ID ` set next) (claim_row clk ms) (t_executions db)\<rparr>))"

definition queryClaimExecution :: "time \<Rightarrow> uuid \<Rightarrow> Namespace \<Rightarrow> int \<Rightarrow> db \<Rightarrow> Execution option \<times> db" where
  "queryClaimExecution clk i ns ms db =
     (let P = (\<lambda>e. ex_ID e = i \<and> ex_Namespace e = ns \<and> ex_Status e = Emitted)
      in (map_option (claim_row clk ms) (select_row P (t_executions db)),
          db\<lparr>t_executions := upd_where P (claim_row clk ms) (t_executions db)\<rparr>))"

text \<open>The row still belongs to the claim of generation \<open>g\<close>: the condition of renewal and completion.\<close>

definition owned_row :: "time \<Rightarrow> uuid \<Rightarrow> Namespace \<Rightarrow> int \<Rightarrow> Execution \<Rightarrow> bool" where
  "owned_row clk i ns g e \<longleftrightarrow>
     ex_ID e = i \<and> ex_Namespace e = ns \<and> ex_Status e = InProgress \<and> ex_ClaimGeneration e = g
     \<and> (case ex_LeaseUntil e of None \<Rightarrow> False | Some l \<Rightarrow> clk < l)"

definition queryRenewExecutionClaim :: "time \<Rightarrow> uuid \<Rightarrow> Namespace \<Rightarrow> int \<Rightarrow> int \<Rightarrow> db \<Rightarrow> nat \<times> db" where
  "queryRenewExecutionClaim clk i ns g ms db =
     (let P = owned_row clk i ns g
      in (count_where P (t_executions db),
          db\<lparr>t_executions := upd_where P (\<lambda>e. e\<lparr>ex_LeaseUntil := Some (clk + ms * Millisecond)\<rparr>) (t_executions db)\<rparr>))"

definition queryCompleteExecution :: "time \<Rightarrow> uuid \<Rightarrow> Namespace \<Rightarrow> int \<Rightarrow> ExecutionStatus \<Rightarrow> db \<Rightarrow> nat \<times> db" where
  "queryCompleteExecution clk i ns g st db =
     (let P = owned_row clk i ns g
      in (count_where P (t_executions db),
          db\<lparr>t_executions := upd_where P (\<lambda>e. e\<lparr>ex_Status := st, ex_LeaseUntil := None\<rparr>) (t_executions db)\<rparr>))"

definition stale_row :: "time \<Rightarrow> Execution \<Rightarrow> bool" where
  "stale_row clk e \<longleftrightarrow> ex_Status e = InProgress
     \<and> (case ex_LeaseUntil e of Some l \<Rightarrow> l \<le> clk | None \<Rightarrow> ex_ClaimGeneration e = 0)"

definition requeue_row :: "Execution \<Rightarrow> Execution" where
  "requeue_row e = e\<lparr>ex_Status := Emitted, ex_ClaimedAt := None, ex_LeaseUntil := None,
     ex_ClaimGeneration := max (ex_ClaimGeneration e) 1\<rparr>"

definition queryRequeueStaleExecutions :: "uuid set \<Rightarrow> time \<Rightarrow> int \<Rightarrow> db \<Rightarrow> nat \<times> db" where
  "queryRequeueStaleExecutions locked clk limit db =
     (let stale = order_limit (\<lambda>e. (ex_LeaseUntil e, ex_ID e)) limit
                    (filter (\<lambda>e. stale_row clk e \<and> ex_ID e \<notin> locked) (t_executions db));
          P = (\<lambda>e. ex_ID e \<in> ex_ID ` set stale)
      in (count_where P (t_executions db), db\<lparr>t_executions := upd_where P requeue_row (t_executions db)\<rparr>))"

section \<open>Delivery attempts and tags\<close>

definition queryInsertDeliveryAttempt :: "DeliveryAttempt \<Rightarrow> unit stmt" where
  "queryInsertDeliveryAttempt a db =
     (if da_ID a \<in> da_ID ` set (t_delivery_attempts db) then (Inl unique_violation, db)
      else if da_ExecutionID a \<notin> ex_ID ` set (t_executions db) then (Inl foreign_key_violation, db)
      else (Inr (), db\<lparr>t_delivery_attempts := t_delivery_attempts db @ [a]\<rparr>))"

definition queryGetDeliveryAttempts :: "uuid \<Rightarrow> db \<Rightarrow> DeliveryAttempt list" where
  "queryGetDeliveryAttempts i db =
     sort_key da_Attempt (filter (\<lambda>a. da_ExecutionID a = i) (t_delivery_attempts db))"

definition queryUpsertTag :: "uuid \<Rightarrow> Tag \<Rightarrow> unit stmt" where
  "queryUpsertTag i t db =
     (if (i, tag_Key t) \<in> (\<lambda>(k, u). (k, tag_Key u)) ` set (t_tags db)
      then (Inr (), db\<lparr>t_tags := upd_where (\<lambda>(k, u). k = i \<and> tag_Key u = tag_Key t)
                                  (\<lambda>(k, u). (k, u\<lparr>tag_Value := tag_Value t\<rparr>)) (t_tags db)\<rparr>)
      else if i \<notin> job_ID ` set (t_jobs db) then (Inl foreign_key_violation, db)
      else (Inr (), db\<lparr>t_tags := t_tags db @ [(i, t)]\<rparr>))"

text \<open>Text is ordered by the collation of the database, given as a sort key.\<close>

definition queryGetTags :: "(string \<Rightarrow> 'k::linorder) \<Rightarrow> uuid \<Rightarrow> db \<Rightarrow> Tag list" where
  "queryGetTags coll i db =
     sort_key (coll \<circ> tag_Key) (map snd (filter (\<lambda>(k, t). k = i) (t_tags db)))"

definition queryDeleteTags :: "uuid \<Rightarrow> db \<Rightarrow> db" where
  "queryDeleteTags i db = db\<lparr>t_tags := del_where (\<lambda>(k, t). k = i) (t_tags db)\<rparr>"

section \<open>API keys\<close>

text \<open>
  The column \<open>tailnet_login\<close> is NULL for an ordinary key and read back as the empty string; a
  plain INSERT leaves it NULL. The partial unique index covers the keys that have a login.
\<close>

definition api_key_row :: "APIKey \<Rightarrow> APIKey" where
  "api_key_row k = k\<lparr>key_LastUsedAt := None, key_TailnetLogin := ''''\<rparr>"

definition queryInsertAPIKey :: "APIKey \<Rightarrow> unit stmt" where
  "queryInsertAPIKey k db =
     (if key_ID k \<in> key_ID ` set (t_api_keys db) \<or> key_TokenHash k \<in> key_TokenHash ` set (t_api_keys db)
      then (Inl unique_violation, db)
      else (Inr (), db\<lparr>t_api_keys := t_api_keys db @ [api_key_row k]\<rparr>))"

definition queryGetKeyByTokenHash :: "string \<Rightarrow> db \<Rightarrow> APIKey option" where
  "queryGetKeyByTokenHash h db = select_row (\<lambda>k. key_TokenHash k = h \<and> key_Enabled k) (t_api_keys db)"

definition queryListKeys :: "Namespace \<Rightarrow> int \<Rightarrow> int \<Rightarrow> db \<Rightarrow> APIKey list" where
  "queryListKeys ns limit offset db =
     limit_offset limit offset
       (sort_key (\<lambda>k. - key_CreatedAt k) (filter (\<lambda>k. key_Namespace k = ns) (t_api_keys db)))"

text \<open>
  The statement inserts unless the pair (namespace, login) is taken and returns the stored row.
  A conflict on another unique column is an error.
\<close>

definition queryGetOrCreateTailnetKey :: "APIKey \<Rightarrow> APIKey option stmt" where
  "queryGetOrCreateTailnetKey k db =
     (let P = (\<lambda>r. key_Namespace r = key_Namespace k \<and> key_TailnetLogin r = key_TailnetLogin k)
      in if \<exists>r \<in> set (t_api_keys db). P r then (Inr (select_row P (t_api_keys db)), db)
         else if key_ID k \<in> key_ID ` set (t_api_keys db) \<or> key_TokenHash k \<in> key_TokenHash ` set (t_api_keys db)
         then (Inl unique_violation, db)
         else (let row = k\<lparr>key_LastUsedAt := None\<rparr>
               in (Inr (Some row), db\<lparr>t_api_keys := t_api_keys db @ [row]\<rparr>)))"

text \<open>Deleting a key cascades to its sessions and its saved views.\<close>

definition queryDeleteKey :: "uuid \<Rightarrow> Namespace \<Rightarrow> db \<Rightarrow> nat \<times> db" where
  "queryDeleteKey i ns db =
     (let P = (\<lambda>k. key_ID k = i \<and> key_Namespace k = ns);
          ids = key_ID ` {k \<in> set (t_api_keys db). P k}
      in (count_where P (t_api_keys db),
          db\<lparr>t_api_keys := del_where P (t_api_keys db),
             t_admin_sessions := del_where (\<lambda>s. ses_APIKeyID s \<in> ids) (t_admin_sessions db),
             t_saved_views := del_where (\<lambda>v. sv_APIKeyID v \<in> ids) (t_saved_views db)\<rparr>))"

definition queryUpdateLastUsedAt :: "time \<Rightarrow> uuid list \<Rightarrow> db \<Rightarrow> db" where
  "queryUpdateLastUsedAt clk ids db =
     db\<lparr>t_api_keys := upd_where (\<lambda>k. key_ID k \<in> set ids) (\<lambda>k. k\<lparr>key_LastUsedAt := Some clk\<rparr>) (t_api_keys db)\<rparr>"

definition queryHasAnyAPIKeys :: "db \<Rightarrow> bool" where
  "queryHasAnyAPIKeys db \<longleftrightarrow> t_api_keys db \<noteq> []"

section \<open>Admin sessions\<close>

text \<open>
  The clean-up and the insert are one statement over one snapshot: a token that is still stored
  conflicts in the model even if its session has expired.
\<close>

definition queryInsertAdminSession :: "time \<Rightarrow> AdminSession \<Rightarrow> unit stmt" where
  "queryInsertAdminSession now s db =
     (if ses_ExpiresAt s > ses_AbsoluteExpiresAt s then (Inl check_violation, db)
      else if ses_TokenHash s \<in> ses_TokenHash ` set (t_admin_sessions db) then (Inl unique_violation, db)
      else if ses_APIKeyID s \<notin> key_ID ` set (t_api_keys db) then (Inl foreign_key_violation, db)
      else (Inr (), db\<lparr>t_admin_sessions :=
              del_where (\<lambda>r. ses_ExpiresAt r \<le> now \<or> ses_AbsoluteExpiresAt r \<le> now) (t_admin_sessions db) @ [s]\<rparr>))"

definition queryGetAdminSession :: "string \<Rightarrow> time \<Rightarrow> db \<Rightarrow> (AdminSession \<times> APIKey) option" where
  "queryGetAdminSession h now db =
     select_row (\<lambda>(s, k). ses_TokenHash s = h \<and> now < ses_ExpiresAt s \<and> now < ses_AbsoluteExpiresAt s \<and> key_Enabled k)
       (concat (map (\<lambda>s. map (Pair s) (filter (\<lambda>k. key_ID k = ses_APIKeyID s) (t_api_keys db))) (t_admin_sessions db)))"

definition queryRefreshAdminSession :: "time \<Rightarrow> time \<Rightarrow> string \<Rightarrow> db \<Rightarrow> nat \<times> db" where
  "queryRefreshAdminSession lastSeen expires h db =
     (let P = (\<lambda>s. ses_TokenHash s = h \<and> lastSeen < ses_ExpiresAt s \<and> lastSeen < ses_AbsoluteExpiresAt s)
      in (count_where P (t_admin_sessions db),
          db\<lparr>t_admin_sessions := upd_where P
               (\<lambda>s. s\<lparr>ses_LastSeenAt := lastSeen, ses_ExpiresAt := min expires (ses_AbsoluteExpiresAt s)\<rparr>)
               (t_admin_sessions db)\<rparr>))"

definition queryDeleteAdminSession :: "string \<Rightarrow> db \<Rightarrow> db" where
  "queryDeleteAdminSession h db =
     db\<lparr>t_admin_sessions := del_where (\<lambda>s. ses_TokenHash s = h) (t_admin_sessions db)\<rparr>"

end
