(* ===== verification/Store.thy ===== *)
theory Store
  imports Queries
begin

text \<open>
  The PostgreSQL store of \<^verbatim>\<open>internal/store/postgres/store.go\<close>: one definition per method over the
  statements of theory Queries. A method returns its Go result and the database it leaves.

  Whatever the driver, the network or a context deadline does to a call is its \<open>fault\<close>: nothing,
  an error before the statement took effect, or an error after it did (the response was lost).
  A transaction that fails in the middle is rolled back, so at this level its faults are the same
  three.
\<close>

datatype fault = NoFault | FaultBefore err | FaultAfter err

text \<open>The database's side of one call.\<close>

record dbenv =
  de_clk :: time
  de_locked :: "uuid set"
  de_fault :: fault

definition run_stmt :: "fault \<Rightarrow> 'a stmt \<Rightarrow> 'a stmt" where
  "run_stmt f q db =
     (case f of NoFault \<Rightarrow> q db | FaultBefore e \<Rightarrow> (Inl e, db) | FaultAfter e \<Rightarrow> (Inl e, snd (q db)))"

definition run_query :: "fault \<Rightarrow> (db \<Rightarrow> 'a) \<Rightarrow> db \<Rightarrow> 'a result" where
  "run_query f q db = (case f of NoFault \<Rightarrow> Inr (q db) | FaultBefore e \<Rightarrow> Inl e | FaultAfter e \<Rightarrow> Inl e)"

definition ok_stmt :: "(db \<Rightarrow> 'a \<times> db) \<Rightarrow> 'a stmt" where
  "ok_stmt q db = (Inr (fst (q db)), snd (q db))"

definition seq_stmt :: "'a stmt \<Rightarrow> ('a \<Rightarrow> 'b stmt) \<Rightarrow> 'b stmt" where
  "seq_stmt p q db = (case p db of (Inl e, db') \<Rightarrow> (Inl e, db') | (Inr x, db') \<Rightarrow> q x db')"

text \<open>\<open>BeginTx\<close>, the deferred \<open>Rollback\<close> and \<open>Commit\<close>.\<close>

definition in_tx :: "'a stmt \<Rightarrow> 'a stmt" where
  "in_tx body db = (case body db of (Inl e, _) \<Rightarrow> (Inl e, db) | (Inr x, db') \<Rightarrow> (Inr x, db'))"

definition row_or :: "err \<Rightarrow> 'a option result \<Rightarrow> 'a result" where
  "row_or notFound r =
     (case r of Inl e \<Rightarrow> Inl e | Inr None \<Rightarrow> Inl notFound | Inr (Some x) \<Rightarrow> Inr x)"

definition affected_or :: "err \<Rightarrow> nat result \<times> db \<Rightarrow> unit result \<times> db" where
  "affected_or notFound r =
     (case r of (Inl e, db) \<Rightarrow> (Inl e, db)
      | (Inr n, db) \<Rightarrow> (if n = 0 then (Inl notFound, db) else (Inr (), db)))"

section \<open>Configuration\<close>

record Store =
  st_opTimeout :: duration
  st_leaseDuration :: duration

definition Store_New :: "duration \<Rightarrow> Store" where
  "Store_New opTimeout = \<lparr>st_opTimeout = opTimeout, st_leaseDuration = DefaultExecutionLease\<rparr>"

text \<open>A lease below one millisecond panics.\<close>

definition WithExecutionLease :: "Store \<Rightarrow> duration \<Rightarrow> Store option" where
  "WithExecutionLease s d =
     (if d < Millisecond then None else Some (s\<lparr>st_leaseDuration := d - d mod Millisecond\<rparr>))"

definition ExecutionLeaseDuration :: "Store \<Rightarrow> duration" where
  "ExecutionLeaseDuration s = st_leaseDuration s"

definition lease_ms :: "Store \<Rightarrow> int" where
  "lease_ms s = go_div (st_leaseDuration s) Millisecond"

text \<open>The deadlines the store puts on a call, from the instant it starts.\<close>

definition withOwnershipTimeout :: "Store \<Rightarrow> time \<Rightarrow> time" where
  "withOwnershipTimeout s start =
     (let timeout = OwnershipOperationTimeout;
          timeout = (if st_opTimeout s > 0 \<and> st_opTimeout s < timeout then st_opTimeout s else timeout)
      in start + timeout)"

definition withTimeout :: "Store \<Rightarrow> time \<Rightarrow> time option" where
  "withTimeout s start = (if st_opTimeout s \<le> 0 then None else Some (start + st_opTimeout s))"

section \<open>Jobs\<close>

definition GetEnabledJobs :: "dbenv \<Rightarrow> int \<Rightarrow> uuid \<Rightarrow> db \<Rightarrow> JobWithSchedule list result" where
  "GetEnabledJobs ev limit afterID db = run_query (de_fault ev) (queryGetEnabledJobs limit afterID) db"

fun upsert_tags :: "uuid \<Rightarrow> Tag list \<Rightarrow> unit stmt" where
  "upsert_tags i [] db = (Inr (), db)"
| "upsert_tags i (t # ts) db =
     (case queryUpsertTag i t db of (Inl e, db') \<Rightarrow> (Inl e, db') | (Inr _, db') \<Rightarrow> upsert_tags i ts db')"

definition CreateJobAggregate :: "dbenv \<Rightarrow> Job \<Rightarrow> Schedule \<Rightarrow> Tag list \<Rightarrow> unit stmt" where
  "CreateJobAggregate ev job sch ts =
     run_stmt (de_fault ev) (in_tx
       (seq_stmt (queryInsertSchedule sch) (\<lambda>_.
        seq_stmt (queryInsertJob job) (\<lambda>_.
        upsert_tags (job_ID job) ts))))"

definition InsertJob :: "dbenv \<Rightarrow> Job \<Rightarrow> Schedule \<Rightarrow> unit stmt" where
  "InsertJob ev job sch = CreateJobAggregate ev job sch []"

definition CreateJob :: "dbenv \<Rightarrow> Job \<Rightarrow> Schedule \<Rightarrow> unit stmt" where
  "CreateJob ev job sch = CreateJobAggregate ev job sch []"

definition GetJobByID :: "dbenv \<Rightarrow> uuid \<Rightarrow> db \<Rightarrow> Job result" where
  "GetJobByID ev i db = row_or ErrJobNotFound (run_query (de_fault ev) (queryGetJobByID i) db)"

definition GetJob :: "dbenv \<Rightarrow> uuid \<Rightarrow> db \<Rightarrow> Job result" where
  "GetJob ev i db = GetJobByID ev i db"

definition GetJobWithSchedule :: "dbenv \<Rightarrow> uuid \<Rightarrow> db \<Rightarrow> JobWithSchedule result" where
  "GetJobWithSchedule ev i db = row_or ErrJobNotFound (run_query (de_fault ev) (queryGetJobWithSchedule i) db)"

definition GetJobWithScheduleScoped :: "dbenv \<Rightarrow> uuid \<Rightarrow> Namespace \<Rightarrow> db \<Rightarrow> JobWithSchedule result" where
  "GetJobWithScheduleScoped ev i ns db =
     row_or ErrJobNotFound (run_query (de_fault ev) (queryGetJobWithScheduleScoped i ns) db)"

text \<open>
  The dynamic WHERE clause of the list queries. \<open>ilike\<close> is PostgreSQL's case-insensitive pattern
  match under the database's collation, a parameter.
\<close>

definition job_matches :: "(string \<Rightarrow> string \<Rightarrow> bool) \<Rightarrow> JobFilter \<Rightarrow> db \<Rightarrow> Job \<Rightarrow> bool" where
  "job_matches ilike f db j \<longleftrightarrow>
     job_Namespace j = jf_Namespace f
     \<and> (case jf_Enabled f of None \<Rightarrow> True | Some b \<Rightarrow> job_Enabled j = b)
     \<and> (jf_Name f \<noteq> '''' \<longrightarrow> ilike (job_Name j) (''%'' @ jf_Name f @ ''%''))
     \<and> (\<forall>t \<in> set (jf_Tags f). (job_ID j, t) \<in> set (t_tags db))"

definition ListJobs :: "dbenv \<Rightarrow> (string \<Rightarrow> string \<Rightarrow> bool) \<Rightarrow> JobFilter \<Rightarrow> db \<Rightarrow> Job list result" where
  "ListJobs ev ilike f db =
     (let lp = WithDefaults (jf_ListParams f)
      in run_query (de_fault ev) (\<lambda>db. limit_offset (lp_Limit lp) (lp_Offset lp)
           (sort_key (\<lambda>j. - job_CreatedAt j) (filter (job_matches ilike f db) (t_jobs db)))) db)"

definition ListJobsWithSchedules ::
    "dbenv \<Rightarrow> (string \<Rightarrow> string \<Rightarrow> bool) \<Rightarrow> JobFilter \<Rightarrow> db \<Rightarrow> JobWithSchedule list result" where
  "ListJobsWithSchedules ev ilike f db =
     (let lp = WithDefaults (jf_ListParams f)
      in run_query (de_fault ev) (\<lambda>db. limit_offset (lp_Limit lp) (lp_Offset lp)
           (sort_key (\<lambda>(j, s). - job_CreatedAt j)
             (filter (\<lambda>(j, s). job_matches ilike f db j) (jobs_join_schedules db)))) db)"

definition UpdateJob :: "dbenv \<Rightarrow> Job \<Rightarrow> unit stmt" where
  "UpdateJob ev job db = affected_or ErrJobNotFound (run_stmt (de_fault ev) (ok_stmt (queryUpdateJob job)) db)"

definition UpdateJobAggregate :: "dbenv \<Rightarrow> Job \<Rightarrow> Schedule \<Rightarrow> Tag list option \<Rightarrow> unit stmt" where
  "UpdateJobAggregate ev job sch ts =
     run_stmt (de_fault ev) (in_tx
       (\<lambda>db. seq_stmt (\<lambda>db. affected_or ErrJobNotFound (ok_stmt (queryUpdateJobConfiguration job) db)) (\<lambda>_ db.
          (case ts of None \<Rightarrow> (Inr (), db)
           | Some ts \<Rightarrow> upsert_tags (job_ID job) ts (queryDeleteTags (job_ID job) db)))
        (queryUpdateSchedule sch db)))"

definition DeleteJob :: "dbenv \<Rightarrow> uuid \<Rightarrow> Namespace \<Rightarrow> unit stmt" where
  "DeleteJob ev i ns db =
     (case run_stmt (de_fault ev) (queryDeleteJob i ns) db of
        (Inl e, db') \<Rightarrow> (Inl e, db')
      | (Inr None, db') \<Rightarrow> (Inl ErrJobNotFound, db')
      | (Inr (Some _), db') \<Rightarrow> (Inr (), db'))"

definition InsertSchedule :: "dbenv \<Rightarrow> Schedule \<Rightarrow> unit stmt" where
  "InsertSchedule ev s db = run_stmt (de_fault ev) (queryInsertSchedule s) db"

definition GetSchedule :: "dbenv \<Rightarrow> uuid \<Rightarrow> db \<Rightarrow> Schedule result" where
  "GetSchedule ev i db = row_or ErrNoRows (run_query (de_fault ev) (queryGetSchedule i) db)"

definition UpdateSchedule :: "dbenv \<Rightarrow> Schedule \<Rightarrow> unit stmt" where
  "UpdateSchedule ev s db = run_stmt (de_fault ev) (\<lambda>db. (Inr (), queryUpdateSchedule s db)) db"

section \<open>Executions\<close>

text \<open>\<open>isDuplicateKeyError\<close>: a \<open>pq.Error\<close> anywhere in the chain decides by its code; otherwise
  the text of the error does.\<close>

fun pq_code :: "err \<Rightarrow> string option" where
  "pq_code (PQError code msg) = Some code"
| "pq_code (Wrapped msg e) = pq_code e"
| "pq_code (Annotated e msg) = pq_code e"
| "pq_code e = None"

definition isDuplicateKeyError :: "err \<Rightarrow> bool" where
  "isDuplicateKeyError e =
     (case pq_code e of Some code \<Rightarrow> code = ''23505''
      | None \<Rightarrow> sublist ''23505'' (error_string e) \<or> sublist ''unique constraint'' (error_string e)
               \<or> sublist ''duplicate key'' (error_string e))"

definition InsertExecution :: "dbenv \<Rightarrow> Execution \<Rightarrow> unit stmt" where
  "InsertExecution ev e db =
     (case run_stmt (de_fault ev) (queryInsertExecution e) db of
        (Inl er, db') \<Rightarrow> (Inl (if isDuplicateKeyError er then ErrDuplicateExecution else er), db')
      | (Inr _, db') \<Rightarrow> (Inr (), db'))"

text \<open>The Go result is the time, whether there is one, and the error.\<close>

definition GetLastScheduledExecution :: "dbenv \<Rightarrow> uuid \<Rightarrow> db \<Rightarrow> time option result" where
  "GetLastScheduledExecution ev jobID db = run_query (de_fault ev) (queryGetLastScheduledExecution jobID) db"

definition GetExecution :: "dbenv \<Rightarrow> uuid \<Rightarrow> db \<Rightarrow> Execution result" where
  "GetExecution ev i db = row_or ErrExecutionNotFound (run_query (de_fault ev) (queryGetExecution i) db)"

definition GetExecutionScoped :: "dbenv \<Rightarrow> uuid \<Rightarrow> Namespace \<Rightarrow> db \<Rightarrow> Execution result" where
  "GetExecutionScoped ev i ns db =
     row_or ErrExecutionNotFound (run_query (de_fault ev) (queryGetExecutionScoped i ns) db)"

definition GetRecentExecutions :: "dbenv \<Rightarrow> uuid \<Rightarrow> int \<Rightarrow> db \<Rightarrow> Execution list result" where
  "GetRecentExecutions ev jobID limit db = run_query (de_fault ev) (queryGetRecentExecutions jobID limit) db"

definition execution_matches :: "ExecutionFilter \<Rightarrow> Execution \<Rightarrow> bool" where
  "execution_matches f e \<longleftrightarrow>
     (ef_JobID f \<noteq> uuid_Nil \<longrightarrow> ex_JobID e = ef_JobID f)
     \<and> (\<not> ns_IsZero (ef_Namespace f) \<longrightarrow> ex_Namespace e = ef_Namespace f)
     \<and> (case ef_Status f of None \<Rightarrow> True | Some st \<Rightarrow> ex_Status e = st)
     \<and> (case ef_TriggerType f of None \<Rightarrow> True | Some t \<Rightarrow> ex_TriggerType e = t)
     \<and> (case ef_Since f of None \<Rightarrow> True | Some t \<Rightarrow> t \<le> ex_CreatedAt e)
     \<and> (case ef_Until f of None \<Rightarrow> True | Some t \<Rightarrow> ex_CreatedAt e \<le> t)"

definition ListExecutions :: "dbenv \<Rightarrow> ExecutionFilter \<Rightarrow> db \<Rightarrow> Execution list result" where
  "ListExecutions ev f db =
     (let lp = WithDefaults (ef_ListParams f)
      in run_query (de_fault ev) (\<lambda>db. map unclaimed_columns (limit_offset (lp_Limit lp) (lp_Offset lp)
           (sort_key (\<lambda>e. - ex_CreatedAt e) (filter (execution_matches f) (t_executions db))))) db)"

definition ListPendingAck :: "dbenv \<Rightarrow> Namespace \<Rightarrow> uuid option \<Rightarrow> int \<Rightarrow> db \<Rightarrow> Execution list result" where
  "ListPendingAck ev ns jobID limit db =
     (let lp = WithDefaults \<lparr>lp_Limit = limit, lp_Offset = 0\<rparr>
      in run_query (de_fault ev) (\<lambda>db. map unclaimed_columns (order_limit (\<lambda>e. - ex_CreatedAt e) (lp_Limit lp)
           (filter (\<lambda>e. ex_Namespace e = ns \<and> ex_AcknowledgedAt e = None \<and> terminal (ex_Status e)
                      \<and> (case jobID of None \<Rightarrow> True | Some j \<Rightarrow> j \<noteq> uuid_Nil \<longrightarrow> ex_JobID e = j))
             (t_executions db)))) db)"

definition AckExecution :: "dbenv \<Rightarrow> uuid \<Rightarrow> Namespace \<Rightarrow> unit stmt" where
  "AckExecution ev i ns db =
     affected_or ErrExecutionNotFound (run_stmt (de_fault ev) (ok_stmt (queryAckExecution (de_clk ev) i ns)) db)"

text \<open>The second query, which tells why no row was updated, may fail by itself.\<close>

definition UpdateExecutionStatus :: "dbenv \<Rightarrow> fault \<Rightarrow> uuid \<Rightarrow> ExecutionStatus \<Rightarrow> unit stmt" where
  "UpdateExecutionStatus ev f2 i st db =
     (case run_stmt (de_fault ev) (ok_stmt (queryUpdateExecutionStatus st i)) db of
        (Inl e, db') \<Rightarrow> (Inl e, db')
      | (Inr n, db') \<Rightarrow>
          if n = 0 then
            (case run_query f2 (queryGetExecutionStatus i) db' of
               Inl e \<Rightarrow> (Inl e, db')
             | Inr None \<Rightarrow> (Inl ErrNoRows, db')
             | Inr (Some cur) \<Rightarrow>
                 (if terminal cur then (Inl ErrStatusTransitionDenied, db') else (Inl ErrExecutionClaimLost, db')))
          else (Inr (), db'))"

definition DequeueExecution :: "Store \<Rightarrow> dbenv \<Rightarrow> Execution option stmt" where
  "DequeueExecution s ev db =
     run_stmt (de_fault ev) (ok_stmt (queryDequeueExecution (de_locked ev) (de_clk ev) (lease_ms s))) db"

definition DequeueExecutions :: "Store \<Rightarrow> dbenv \<Rightarrow> int \<Rightarrow> Execution list stmt" where
  "DequeueExecutions s ev limit db =
     (if limit < 1 then (Inr [], db)
      else run_stmt (de_fault ev)
             (ok_stmt (queryDequeueExecutions (de_locked ev) (de_clk ev) limit (lease_ms s))) db)"

definition ClaimExecution :: "Store \<Rightarrow> dbenv \<Rightarrow> uuid \<Rightarrow> Namespace \<Rightarrow> Execution option stmt" where
  "ClaimExecution s ev i ns db =
     run_stmt (de_fault ev) (ok_stmt (queryClaimExecution (de_clk ev) i ns (lease_ms s))) db"

definition claimMutationResult :: "nat result \<times> db \<Rightarrow> unit result \<times> db" where
  "claimMutationResult r =
     (case r of (Inl e, db) \<Rightarrow> (Inl e, db)
      | (Inr n, db) \<Rightarrow> (if n \<noteq> 1 then (Inl ErrExecutionClaimLost, db) else (Inr (), db)))"

definition RenewExecutionClaim :: "Store \<Rightarrow> dbenv \<Rightarrow> Execution \<Rightarrow> unit stmt" where
  "RenewExecutionClaim s ev e db =
     claimMutationResult (run_stmt (de_fault ev)
       (ok_stmt (queryRenewExecutionClaim (de_clk ev) (ex_ID e) (ex_Namespace e) (ex_ClaimGeneration e) (lease_ms s))) db)"

definition CompleteExecution :: "dbenv \<Rightarrow> Execution \<Rightarrow> ExecutionStatus \<Rightarrow> unit stmt" where
  "CompleteExecution ev e st db =
     (if st \<noteq> Delivered \<and> st \<noteq> Failed
      then (Inl (ErrorMsg (''invalid execution completion: '' @ status_string st)), db)
      else claimMutationResult (run_stmt (de_fault ev)
             (ok_stmt (queryCompleteExecution (de_clk ev) (ex_ID e) (ex_Namespace e) (ex_ClaimGeneration e) st)) db))"

definition GetOrphanedExecutions :: "dbenv \<Rightarrow> time \<Rightarrow> int \<Rightarrow> db \<Rightarrow> Execution list result" where
  "GetOrphanedExecutions ev olderThan maxResults db =
     run_query (de_fault ev) (queryGetOrphanedExecutions olderThan maxResults) db"

definition RequeueExpiredExecutions :: "dbenv \<Rightarrow> int \<Rightarrow> nat stmt" where
  "RequeueExpiredExecutions ev limit db =
     run_stmt (de_fault ev) (ok_stmt (queryRequeueStaleExecutions (de_locked ev) (de_clk ev) limit)) db"

definition RequeueStaleExecutions :: "dbenv \<Rightarrow> time \<Rightarrow> int \<Rightarrow> nat stmt" where
  "RequeueStaleExecutions ev olderThan limit = RequeueExpiredExecutions ev limit"

section \<open>Tags\<close>

definition UpsertTags :: "dbenv \<Rightarrow> uuid \<Rightarrow> Tag list \<Rightarrow> unit stmt" where
  "UpsertTags ev i ts = run_stmt (de_fault ev) (in_tx (upsert_tags i ts))"

definition GetTags :: "dbenv \<Rightarrow> (string \<Rightarrow> 'k::linorder) \<Rightarrow> uuid \<Rightarrow> db \<Rightarrow> Tag list result" where
  "GetTags ev coll i db = run_query (de_fault ev) (queryGetTags coll i) db"

definition DeleteTags :: "dbenv \<Rightarrow> uuid \<Rightarrow> unit stmt" where
  "DeleteTags ev i = run_stmt (de_fault ev) (\<lambda>db. (Inr (), queryDeleteTags i db))"

section \<open>API keys\<close>

definition InsertAPIKey :: "dbenv \<Rightarrow> APIKey \<Rightarrow> unit stmt" where
  "InsertAPIKey ev k db =
     (case run_stmt (de_fault ev) (queryInsertAPIKey k) db of
        (Inl e, db') \<Rightarrow> (Inl (if isDuplicateKeyError e then ErrDuplicateAPIKey else e), db')
      | (Inr _, db') \<Rightarrow> (Inr (), db'))"

text \<open>The advisory lock serializes the transactions that look whether a key exists.\<close>

definition InsertFirstAPIKey :: "dbenv \<Rightarrow> APIKey \<Rightarrow> unit stmt" where
  "InsertFirstAPIKey ev k =
     run_stmt (de_fault ev) (in_tx (\<lambda>db.
       if queryHasAnyAPIKeys db then (Inl ErrBootstrapAlreadyCompleted, db) else queryInsertAPIKey k db))"

definition HasAnyAPIKeys :: "dbenv \<Rightarrow> db \<Rightarrow> bool result" where
  "HasAnyAPIKeys ev db = run_query (de_fault ev) queryHasAnyAPIKeys db"

definition GetKeyByTokenHash :: "dbenv \<Rightarrow> string \<Rightarrow> db \<Rightarrow> APIKey result" where
  "GetKeyByTokenHash ev h db = row_or ErrAPIKeyNotFound (run_query (de_fault ev) (queryGetKeyByTokenHash h) db)"

text \<open>
  One round trip of the loop. \<open>missed\<close> is the race the code retries: a concurrent insert of the
  same pair left the statement's snapshot without either row.
\<close>

definition tailnet_key_attempt :: "fault \<Rightarrow> bool \<Rightarrow> APIKey \<Rightarrow> APIKey stmt" where
  "tailnet_key_attempt f missed k db =
     (case run_stmt f (if missed then (\<lambda>db. (Inr None, db)) else queryGetOrCreateTailnetKey k) db of
        (Inl e, db') \<Rightarrow> (Inl e, db')
      | (Inr None, db') \<Rightarrow> (Inl ErrNoRows, db')
      | (Inr (Some r), db') \<Rightarrow> (Inr r, db'))"

definition GetOrCreateTailnetKey :: "dbenv \<Rightarrow> bool \<Rightarrow> fault \<Rightarrow> bool \<Rightarrow> APIKey \<Rightarrow> APIKey stmt" where
  "GetOrCreateTailnetKey ev missed f2 missed2 k db =
     (if key_TailnetLogin k = '''' then (Inl (ErrorMsg ''get or create tailnet key: empty login''), db)
      else (case tailnet_key_attempt (de_fault ev) missed k db of
              (Inr r, db') \<Rightarrow> (Inr r, db')
            | (Inl e, db') \<Rightarrow>
                (if errors_Is e ErrNoRows then tailnet_key_attempt f2 missed2 k db' else (Inl e, db'))))"

definition ListKeys :: "dbenv \<Rightarrow> Namespace \<Rightarrow> ListParams \<Rightarrow> db \<Rightarrow> APIKey list result" where
  "ListKeys ev ns params db =
     (let lp = WithDefaults params
      in run_query (de_fault ev) (queryListKeys ns (lp_Limit lp) (lp_Offset lp)) db)"

definition DeleteKey :: "dbenv \<Rightarrow> uuid \<Rightarrow> Namespace \<Rightarrow> unit stmt" where
  "DeleteKey ev i ns db =
     affected_or ErrAPIKeyNotFound (run_stmt (de_fault ev) (ok_stmt (queryDeleteKey i ns)) db)"

definition UpdateLastUsedAt :: "dbenv \<Rightarrow> uuid list \<Rightarrow> unit stmt" where
  "UpdateLastUsedAt ev ids db =
     (if ids = [] then (Inr (), db)
      else run_stmt (de_fault ev) (\<lambda>db. (Inr (), queryUpdateLastUsedAt (de_clk ev) ids db)) db)"

section \<open>Admin sessions\<close>

definition CreateAdminSession :: "dbenv \<Rightarrow> AdminSession \<Rightarrow> unit stmt" where
  "CreateAdminSession ev s = run_stmt (de_fault ev) (queryInsertAdminSession (ses_CreatedAt s) s)"

definition GetAdminSession :: "dbenv \<Rightarrow> string \<Rightarrow> time \<Rightarrow> db \<Rightarrow> (AdminSession \<times> APIKey) result" where
  "GetAdminSession ev h now db =
     row_or ErrAdminSessionNotFound (run_query (de_fault ev) (queryGetAdminSession h now) db)"

definition RefreshAdminSession :: "dbenv \<Rightarrow> string \<Rightarrow> time \<Rightarrow> time \<Rightarrow> unit stmt" where
  "RefreshAdminSession ev h lastSeen expires db =
     affected_or ErrAdminSessionNotFound
       (run_stmt (de_fault ev) (ok_stmt (queryRefreshAdminSession lastSeen expires h)) db)"

definition DeleteAdminSession :: "dbenv \<Rightarrow> string \<Rightarrow> unit stmt" where
  "DeleteAdminSession ev h = run_stmt (de_fault ev) (\<lambda>db. (Inr (), queryDeleteAdminSession h db))"

section \<open>Delivery attempts\<close>

definition InsertDeliveryAttempt :: "dbenv \<Rightarrow> DeliveryAttempt \<Rightarrow> unit stmt" where
  "InsertDeliveryAttempt ev a = run_stmt (de_fault ev) (queryInsertDeliveryAttempt a)"

definition GetAttempts :: "dbenv \<Rightarrow> uuid \<Rightarrow> db \<Rightarrow> DeliveryAttempt list result" where
  "GetAttempts ev i db = run_query (de_fault ev) (queryGetDeliveryAttempts i) db"

end
