(* ===== verification/ControlStore.thy ===== *)
theory ControlStore
  imports Store
begin

text \<open>
  The job control center's part of the store, \<^verbatim>\<open>internal/store/postgres/control.go\<close>: fleet and run
  pages, saved views, and bulk pause/resume with a stored preview and an idempotent confirmation.
\<close>

section \<open>Fleet and runs\<close>

text \<open>\<open>escapeLike\<close>: the replacer scans the text once, left to right.\<close>

fun escapeLike :: "string \<Rightarrow> string" where
  "escapeLike [] = []"
| "escapeLike (c # cs) =
     (if c = CHR 0x5C then [CHR 0x5C, CHR 0x5C] @ escapeLike cs
      else if c = CHR ''%'' then CHR 0x5C # CHR ''%'' # escapeLike cs
      else if c = CHR ''_'' then CHR 0x5C # CHR ''_'' # escapeLike cs
      else c # escapeLike cs)"

definition fleetWhere :: "(string \<Rightarrow> string \<Rightarrow> bool) \<Rightarrow> JobFilter \<Rightarrow> db \<Rightarrow> Job \<Rightarrow> bool" where
  "fleetWhere ilike f db j \<longleftrightarrow>
     job_Namespace j = jf_Namespace f
     \<and> (case jf_Enabled f of None \<Rightarrow> True | Some b \<Rightarrow> job_Enabled j = b)
     \<and> (jf_Name f \<noteq> '''' \<longrightarrow> ilike (job_Name j) (''%'' @ escapeLike (jf_Name f) @ ''%''))
     \<and> (\<forall>t \<in> set (jf_Tags f). (job_ID j, t) \<in> set (t_tags db))"

definition Fleet :: "dbenv \<Rightarrow> (string \<Rightarrow> string \<Rightarrow> bool) \<Rightarrow> JobFilter \<Rightarrow> db \<Rightarrow> Fleet result" where
  "Fleet ev ilike f db =
     (let mine = filter (\<lambda>j. job_Namespace j = jf_Namespace f) (t_jobs db);
          lp = WithDefaults (jf_ListParams f)
      in run_query (de_fault ev) (\<lambda>db.
           \<lparr>fleet_Jobs = limit_offset (lp_Limit lp) (lp_Offset lp)
               (rev (sort_key (\<lambda>(j, s). (job_CreatedAt j, job_ID j))
                  (filter (\<lambda>(j, s). fleetWhere ilike f db j) (jobs_join_schedules db)))),
             fleet_Total = int (length mine),
             fleet_Active = int (count_where job_Enabled mine),
             fleet_Paused = int (count_where (\<lambda>j. \<not> job_Enabled j) mine),
             fleet_Matched = int (count_where (fleetWhere ilike f db) mine)\<rparr>) db)"

text \<open>The caller always passes a window: \<open>since\<close> and \<open>until\<close> are the values of the pointers.\<close>

definition run_matches :: "ExecutionFilter \<Rightarrow> time \<Rightarrow> time \<Rightarrow> Execution \<times> Job \<Rightarrow> bool" where
  "run_matches f since until ej \<longleftrightarrow>
     (let e = fst ej; j = snd ej
      in ex_Namespace e = ef_Namespace f \<and> job_Namespace j = ef_Namespace f
         \<and> since \<le> ex_CreatedAt e \<and> ex_CreatedAt e \<le> until
         \<and> (case ef_Status f of None \<Rightarrow> True | Some st \<Rightarrow> ex_Status e = st)
         \<and> (case ef_TriggerType f of None \<Rightarrow> True | Some t \<Rightarrow> ex_TriggerType e = t)
         \<and> (ef_JobID f \<noteq> uuid_Nil \<longrightarrow> ex_JobID e = ef_JobID f))"

definition executions_join_jobs :: "db \<Rightarrow> (Execution \<times> Job) list" where
  "executions_join_jobs db =
     concat (map (\<lambda>e. map (Pair e) (filter (\<lambda>j. job_ID j = ex_JobID e) (t_jobs db))) (t_executions db))"

definition run_evidence :: "db \<Rightarrow> Execution \<times> Job \<Rightarrow> RunEvidence" where
  "run_evidence db ej =
     (let e = fst ej;
          as = filter (\<lambda>a. da_ExecutionID a = ex_ID e) (t_delivery_attempts db);
          latest = rev (sort_key (\<lambda>a. (da_FinishedAt a, da_ID a)) as)
      in \<lparr>run_Execution = e\<lparr>ex_ClaimGeneration := 0, ex_LeaseUntil := None\<rparr>,
          run_JobName = job_Name (snd ej),
          run_Attempts = int (length as),
          run_LastStatusCode = (case latest of [] \<Rightarrow> 0 | a # _ \<Rightarrow> da_StatusCode a),
          run_LastError = (case latest of [] \<Rightarrow> '''' | a # _ \<Rightarrow> da_Error a),
          run_LastFinishedAt = (case latest of [] \<Rightarrow> 0 | a # _ \<Rightarrow> da_FinishedAt a)\<rparr>)"

definition Runs :: "dbenv \<Rightarrow> ExecutionFilter \<Rightarrow> time \<Rightarrow> time \<Rightarrow> db \<Rightarrow> RunsPage result" where
  "Runs ev f since until db =
     (let lp = WithDefaults (ef_ListParams f)
      in run_query (de_fault ev) (\<lambda>db.
           let hits = filter (run_matches f since until) (executions_join_jobs db)
           in \<lparr>runs_Runs = map (run_evidence db) (limit_offset (lp_Limit lp) (lp_Offset lp)
                  (rev (sort_key (\<lambda>(e, j). (ex_CreatedAt e, ex_ID e)) hits))),
               runs_Total = int (length hits)\<rparr>) db)"

section \<open>Saved views\<close>

definition actor_enabled :: "Namespace \<Rightarrow> uuid \<Rightarrow> db \<Rightarrow> bool" where
  "actor_enabled ns actor db \<longleftrightarrow>
     (\<exists>k \<in> set (t_api_keys db). key_ID k = actor \<and> key_Namespace k = ns \<and> key_Enabled k)"

definition authorizedActor :: "Namespace \<Rightarrow> uuid \<Rightarrow> unit stmt" where
  "authorizedActor ns actor db =
     (if actor_enabled ns actor db then (Inr (), db) else (Inl ErrAPIKeyNotFound, db))"

definition views_of :: "Namespace \<Rightarrow> uuid \<Rightarrow> db \<Rightarrow> saved_view_row list" where
  "views_of ns actor db = filter (\<lambda>v. sv_APIKeyID v = actor \<and> sv_Namespace v = ns) (t_saved_views db)"

definition ListSavedViews :: "dbenv \<Rightarrow> (string \<Rightarrow> 'k::linorder) \<Rightarrow> Namespace \<Rightarrow> uuid \<Rightarrow> db \<Rightarrow> SavedView list result" where
  "ListSavedViews ev coll ns actor db =
     run_query (de_fault ev) (\<lambda>db.
       order_limit (coll \<circ> view_Name) 20
         (if actor_enabled ns actor db then map sv_View (views_of ns actor db) else [])) db"

text \<open>\<open>newID\<close> is the identifier \<open>uuid.New()\<close> returns.\<close>

definition upsert_view :: "time \<Rightarrow> uuid \<Rightarrow> Namespace \<Rightarrow> uuid \<Rightarrow> string \<Rightarrow> string \<Rightarrow> unit stmt" where
  "upsert_view clk newID ns actor name query db =
     (if \<not> (1 \<le> length name \<and> length name \<le> 80 \<and> length query \<le> 2000) then (Inl check_violation, db)
      else if \<exists>v \<in> set (views_of ns actor db). view_Name (sv_View v) = name
      then (Inr (), db\<lparr>t_saved_views := upd_where
              (\<lambda>v. sv_APIKeyID v = actor \<and> sv_Namespace v = ns \<and> view_Name (sv_View v) = name)
              (\<lambda>v. v\<lparr>sv_View := (sv_View v)\<lparr>view_Query := query\<rparr>\<rparr>) (t_saved_views db)\<rparr>)
      else if newID \<in> (\<lambda>v. view_ID (sv_View v)) ` set (t_saved_views db) then (Inl unique_violation, db)
      else if actor \<notin> key_ID ` set (t_api_keys db) then (Inl foreign_key_violation, db)
      else (Inr (), db\<lparr>t_saved_views := t_saved_views db @
              [\<lparr>sv_APIKeyID = actor, sv_Namespace = ns,
                sv_View = \<lparr>view_ID = newID, view_Name = name, view_Query = query, view_CreatedAt = clk\<rparr>\<rparr>]\<rparr>))"

definition SaveView :: "dbenv \<Rightarrow> uuid \<Rightarrow> Namespace \<Rightarrow> uuid \<Rightarrow> string \<Rightarrow> string \<Rightarrow> unit stmt" where
  "SaveView ev newID ns actor name query =
     run_stmt (de_fault ev) (in_tx (seq_stmt (authorizedActor ns actor) (\<lambda>_ db.
       if length (views_of ns actor db) \<ge> 20 \<and> \<not> (\<exists>v \<in> set (views_of ns actor db). view_Name (sv_View v) = name)
       then (Inl ErrSavedViewLimit, db)
       else upsert_view (de_clk ev) newID ns actor name query db)))"

definition DeleteView :: "dbenv \<Rightarrow> Namespace \<Rightarrow> uuid \<Rightarrow> uuid \<Rightarrow> unit stmt" where
  "DeleteView ev ns actor i db =
     affected_or ErrBulkNotFound (run_stmt (de_fault ev) (ok_stmt (\<lambda>db.
       let P = (\<lambda>v. view_ID (sv_View v) = i \<and> sv_APIKeyID v = actor \<and> sv_Namespace v = ns \<and> actor_enabled ns actor db)
       in (count_where P (t_saved_views db), db\<lparr>t_saved_views := del_where P (t_saved_views db)\<rparr>))) db)"

section \<open>Bulk operations\<close>

text \<open>Identifiers are compared as text; the canonical form is fixed-width lowercase hexadecimal, so
  that order is the numeric one.\<close>

fun bulk_items :: "Namespace \<Rightarrow> uuid list \<Rightarrow> db \<Rightarrow> BulkItem list result" where
  "bulk_items ns [] db = Inr []"
| "bulk_items ns (i # is) db =
     (case select_row (\<lambda>j. job_ID j = i \<and> job_Namespace j = ns) (t_jobs db) of
        None \<Rightarrow> Inl ErrJobNotFound
      | Some j \<Rightarrow>
          (case bulk_items ns is db of Inl e \<Rightarrow> Inl e
           | Inr items \<Rightarrow> Inr (\<lparr>item_ID = i, item_Name = job_Name j, item_Enabled = job_Enabled j,
                              item_UpdatedAt = job_UpdatedAt j, item_Result = ''''\<rparr> # items)))"

definition pending_row :: "Namespace \<Rightarrow> uuid \<Rightarrow> bulk_row \<Rightarrow> bool" where
  "pending_row ns actor b \<longleftrightarrow> bb_APIKeyID b = actor \<and> bb_Namespace b = ns \<and> bulk_ConfirmedAt (bb_Batch b) = None"

definition insert_batch :: "time \<Rightarrow> uuid \<Rightarrow> Namespace \<Rightarrow> uuid \<Rightarrow> string \<Rightarrow> BulkItem list \<Rightarrow> BulkBatch stmt" where
  "insert_batch clk newID ns actor action items db =
     (if \<not> (action \<in> {''pause'', ''resume''} \<and> 1 \<le> length items \<and> length items \<le> 100)
      then (Inl check_violation, db)
      else if newID \<in> (\<lambda>b. bulk_ID (bb_Batch b)) ` set (t_bulk_batches db) then (Inl unique_violation, db)
      else (let batch = \<lparr>bulk_ID = newID, bulk_Action = action, bulk_Items = items, bulk_CreatedAt = clk,
                         bulk_ExpiresAt = clk + 10 * Minute, bulk_ConfirmedAt = None\<rparr>
            in (Inr batch, db\<lparr>t_bulk_batches := t_bulk_batches db @
                  [\<lparr>bb_APIKeyID = actor, bb_Namespace = ns, bb_Batch = batch\<rparr>]\<rparr>)))"

definition PreviewBulk :: "dbenv \<Rightarrow> uuid \<Rightarrow> Namespace \<Rightarrow> uuid \<Rightarrow> string \<Rightarrow> uuid list \<Rightarrow> BulkBatch stmt" where
  "PreviewBulk ev newID ns actor action ids =
     run_stmt (de_fault ev) (in_tx (seq_stmt (authorizedActor ns actor) (\<lambda>_ db.
       let db = db\<lparr>t_bulk_batches := del_where
                  (\<lambda>b. pending_row ns actor b \<and> bulk_ExpiresAt (bb_Batch b) \<le> de_clk ev) (t_bulk_batches db)\<rparr>
       in if count_where (pending_row ns actor) (t_bulk_batches db) \<ge> 20 then (Inl ErrInvalidControlInput, db)
          else (case bulk_items ns (sort ids) db of
                  Inl e \<Rightarrow> (Inl e, db)
                | Inr items \<Rightarrow> insert_batch (de_clk ev) newID ns actor action items db))))"

definition visible_batch :: "time \<Rightarrow> Namespace \<Rightarrow> uuid \<Rightarrow> uuid \<Rightarrow> bulk_row \<Rightarrow> bool" where
  "visible_batch clk ns actor i b \<longleftrightarrow>
     bulk_ID (bb_Batch b) = i \<and> bb_APIKeyID b = actor \<and> bb_Namespace b = ns
     \<and> (bulk_ConfirmedAt (bb_Batch b) \<noteq> None \<or> clk < bulk_ExpiresAt (bb_Batch b))"

definition GetBulk :: "dbenv \<Rightarrow> Namespace \<Rightarrow> uuid \<Rightarrow> uuid \<Rightarrow> db \<Rightarrow> BulkBatch result" where
  "GetBulk ev ns actor i db =
     row_or ErrBulkNotFound (run_query (de_fault ev) (\<lambda>db.
       if actor_enabled ns actor db
       then map_option bb_Batch (select_row (visible_batch (de_clk ev) ns actor i) (t_bulk_batches db)) else None) db)"

definition ListBulk :: "dbenv \<Rightarrow> Namespace \<Rightarrow> uuid \<Rightarrow> db \<Rightarrow> BulkBatch list result" where
  "ListBulk ev ns actor db =
     run_query (de_fault ev) (\<lambda>db.
       if actor_enabled ns actor db
       then take 20 (rev (sort_key (\<lambda>b. (bulk_CreatedAt b, bulk_ID b))
              (map bb_Batch (filter (\<lambda>b. bb_APIKeyID b = actor \<and> bb_Namespace b = ns
                                       \<and> bulk_ConfirmedAt (bb_Batch b) \<noteq> None) (t_bulk_batches db)))))
       else []) db"

text \<open>
  One item under its savepoint. \<open>selErr\<close> and \<open>updErr\<close> say for which jobs the SELECT and the UPDATE
  fail; a failed item leaves the job alone and does not abort the batch.
\<close>

definition confirm_item ::
    "time \<Rightarrow> (uuid \<Rightarrow> bool) \<Rightarrow> (uuid \<Rightarrow> bool) \<Rightarrow> Namespace \<Rightarrow> string \<Rightarrow> BulkItem \<Rightarrow> db \<Rightarrow> BulkItem \<times> db" where
  "confirm_item clk selErr updErr ns action item db =
     (if selErr (item_ID item) then (item\<lparr>item_Result := ''failed''\<rparr>, db)
      else (case select_row (\<lambda>j. job_ID j = item_ID item \<and> job_Namespace j = ns) (t_jobs db) of
          None \<Rightarrow> (item\<lparr>item_Result := ''unavailable''\<rparr>, db)
        | Some j \<Rightarrow>
            if job_UpdatedAt j \<noteq> item_UpdatedAt item \<or> job_Enabled j \<noteq> item_Enabled item
            then (item\<lparr>item_Result := ''conflict''\<rparr>, db)
            else if job_Enabled j = (action = ''resume'') then (item\<lparr>item_Result := ''unchanged''\<rparr>, db)
            else if updErr (item_ID item) then (item\<lparr>item_Result := ''failed''\<rparr>, db)
            else (item\<lparr>item_Result := ''applied''\<rparr>,
                  db\<lparr>t_jobs := upd_where (\<lambda>j. job_ID j = item_ID item \<and> job_Namespace j = ns)
                       (\<lambda>j. j\<lparr>job_Enabled := (action = ''resume''), job_UpdatedAt := clk\<rparr>) (t_jobs db)\<rparr>)))"

fun confirm_items ::
    "time \<Rightarrow> (uuid \<Rightarrow> bool) \<Rightarrow> (uuid \<Rightarrow> bool) \<Rightarrow> Namespace \<Rightarrow> string \<Rightarrow> BulkItem list \<Rightarrow> db \<Rightarrow> BulkItem list \<times> db" where
  "confirm_items clk selErr updErr ns action [] db = ([], db)"
| "confirm_items clk selErr updErr ns action (it # its) db =
     (let (it', db1) = confirm_item clk selErr updErr ns action it db;
          (its', db2) = confirm_items clk selErr updErr ns action its db1
      in (it' # its', db2))"

definition ConfirmBulk ::
    "dbenv \<Rightarrow> (uuid \<Rightarrow> bool) \<Rightarrow> (uuid \<Rightarrow> bool) \<Rightarrow> Namespace \<Rightarrow> uuid \<Rightarrow> uuid \<Rightarrow> BulkBatch stmt" where
  "ConfirmBulk ev selErr updErr ns actor i =
     run_stmt (de_fault ev) (in_tx (seq_stmt (authorizedActor ns actor) (\<lambda>_ db.
       case select_row (visible_batch (de_clk ev) ns actor i) (t_bulk_batches db) of
         None \<Rightarrow> (Inl ErrBulkNotFound, db)
       | Some row \<Rightarrow>
           (let batch = bb_Batch row
            in if bulk_ConfirmedAt batch \<noteq> None then (Inr batch, db)
               else (let (items, db1) = confirm_items (de_clk ev) selErr updErr ns (bulk_Action batch) (bulk_Items batch) db;
                         batch' = batch\<lparr>bulk_Items := items, bulk_ConfirmedAt := Some (de_clk ev)\<rparr>
                     in (Inr batch', db1\<lparr>t_bulk_batches := upd_where (\<lambda>b. bulk_ID (bb_Batch b) = i)
                           (\<lambda>b. b\<lparr>bb_Batch := (bb_Batch b)\<lparr>bulk_Items := items, bulk_ConfirmedAt := Some (de_clk ev)\<rparr>\<rparr>)
                           (t_bulk_batches db1)\<rparr>))))))"

definition SetJobEnabled :: "dbenv \<Rightarrow> uuid \<Rightarrow> Namespace \<Rightarrow> bool \<Rightarrow> Job stmt" where
  "SetJobEnabled ev i ns enabled db =
     (let P = (\<lambda>j. job_ID j = i \<and> job_Namespace j = ns);
          f = (\<lambda>j. j\<lparr>job_Enabled := enabled, job_UpdatedAt := de_clk ev\<rparr>)
      in case run_stmt (de_fault ev) (\<lambda>db.
                (Inr (map_option f (select_row P (t_jobs db))), db\<lparr>t_jobs := upd_where P f (t_jobs db)\<rparr>)) db of
           (Inl e, db') \<Rightarrow> (Inl e, db')
         | (Inr None, db') \<Rightarrow> (Inl ErrJobNotFound, db')
         | (Inr (Some j), db') \<Rightarrow> (Inr j, db'))"

end
