(* ===== verification/StoreInvariant.thy ===== *)
theory StoreInvariant
  imports ControlStore
begin

text \<open>
  What the database keeps true: keys are unique, references resolve, and the claim columns of an
  execution agree with its status. Every operation of the store preserves it, whatever faults,
  locks and clock readings the calls meet, so it holds along every sequence of operations.
\<close>

section \<open>Columns\<close>

definition col :: "('r \<Rightarrow> 'k) \<Rightarrow> 'r list \<Rightarrow> 'k list" where
  "col k rows = map k rows"

lemma col_Nil [simp]: "col k [] = []"
  by (simp add: col_def)

lemma col_append [simp]: "col k (xs @ ys) = col k xs @ col k ys"
  by (simp add: col_def)

lemma col_Cons [simp]: "col k (x # xs) = k x # col k xs"
  by (simp add: col_def)

lemma set_col: "set (col k rows) = k ` set rows"
  by (simp add: col_def)

lemma col_upd_where [simp]: "(\<And>r. P r \<Longrightarrow> k (f r) = k r) \<Longrightarrow> col k (upd_where P f rows) = col k rows"
  by (simp add: col_def map_upd_where)

lemma distinct_col_del_where [simp]: "distinct (col k rows) \<Longrightarrow> distinct (col k (del_where P rows))"
  by (simp add: col_def distinct_map_del_where)

lemma set_col_del_where: "set (col k (del_where P rows)) \<subseteq> set (col k rows)"
  by (auto simp: set_col)

lemma all_upd_where:
  "\<forall>r \<in> set rows. Q r \<Longrightarrow> (\<And>r. P r \<Longrightarrow> Q r \<Longrightarrow> Q (f r)) \<Longrightarrow> \<forall>r \<in> set (upd_where P f rows). Q r"
  by (auto simp: set_upd_where)

section \<open>The invariant\<close>

text \<open>
  The claim columns: a row that was never claimed has no lease; a row that was has one of the four
  statuses; only a row in progress has a lease; a claimed row in progress has one.
\<close>

definition exec_ok :: "Execution \<Rightarrow> bool" where
  "exec_ok e \<longleftrightarrow>
     0 \<le> ex_ClaimGeneration e
     \<and> (ex_ClaimGeneration e = 0 \<longrightarrow> ex_LeaseUntil e = None \<and> ex_ClaimedAt e = None)
     \<and> (0 < ex_ClaimGeneration e \<longrightarrow> ex_Status e = Emitted \<or> ex_Status e = InProgress \<or> terminal (ex_Status e))
     \<and> (ex_LeaseUntil e \<noteq> None \<longrightarrow> ex_Status e = InProgress)
     \<and> (ex_Status e = InProgress \<and> 0 < ex_ClaimGeneration e \<longrightarrow> ex_LeaseUntil e \<noteq> None)"

abbreviation slot :: "Execution \<Rightarrow> uuid \<times> time" where
  "slot e \<equiv> (ex_JobID e, ex_ScheduledAt e)"

definition schedules_ok :: "db \<Rightarrow> bool" where
  "schedules_ok db \<longleftrightarrow> distinct (col sch_ID (t_schedules db))"

definition jobs_ok :: "db \<Rightarrow> bool" where
  "jobs_ok db \<longleftrightarrow> distinct (col job_ID (t_jobs db))
     \<and> set (col job_ScheduleID (t_jobs db)) \<subseteq> set (col sch_ID (t_schedules db))"

definition executions_ok :: "db \<Rightarrow> bool" where
  "executions_ok db \<longleftrightarrow> distinct (col ex_ID (t_executions db)) \<and> distinct (col slot (t_executions db))
     \<and> set (col ex_JobID (t_executions db)) \<subseteq> set (col job_ID (t_jobs db))
     \<and> (\<forall>e \<in> set (t_executions db). exec_ok e)"

definition attempts_ok :: "db \<Rightarrow> bool" where
  "attempts_ok db \<longleftrightarrow> distinct (col da_ID (t_delivery_attempts db))
     \<and> set (col da_ExecutionID (t_delivery_attempts db)) \<subseteq> set (col ex_ID (t_executions db))"

definition tags_ok :: "db \<Rightarrow> bool" where
  "tags_ok db \<longleftrightarrow> distinct (col (\<lambda>r. (fst r, tag_Key (snd r))) (t_tags db))
     \<and> set (col fst (t_tags db)) \<subseteq> set (col job_ID (t_jobs db))"

definition keys_ok :: "db \<Rightarrow> bool" where
  "keys_ok db \<longleftrightarrow> distinct (col key_ID (t_api_keys db)) \<and> distinct (col key_TokenHash (t_api_keys db))
     \<and> distinct (col (\<lambda>k. (key_Namespace k, key_TailnetLogin k))
          (filter (\<lambda>k. key_TailnetLogin k \<noteq> '''') (t_api_keys db)))"

definition sessions_ok :: "db \<Rightarrow> bool" where
  "sessions_ok db \<longleftrightarrow> distinct (col ses_TokenHash (t_admin_sessions db))
     \<and> set (col ses_APIKeyID (t_admin_sessions db)) \<subseteq> set (col key_ID (t_api_keys db))
     \<and> (\<forall>s \<in> set (t_admin_sessions db). ses_ExpiresAt s \<le> ses_AbsoluteExpiresAt s)"

abbreviation view_slot :: "saved_view_row \<Rightarrow> uuid \<times> Namespace \<times> string" where
  "view_slot v \<equiv> (sv_APIKeyID v, sv_Namespace v, view_Name (sv_View v))"

definition views_ok :: "db \<Rightarrow> bool" where
  "views_ok db \<longleftrightarrow> distinct (col (\<lambda>v. view_ID (sv_View v)) (t_saved_views db))
     \<and> distinct (col view_slot (t_saved_views db))
     \<and> set (col sv_APIKeyID (t_saved_views db)) \<subseteq> set (col key_ID (t_api_keys db))"

definition batches_ok :: "db \<Rightarrow> bool" where
  "batches_ok db \<longleftrightarrow> distinct (col (\<lambda>b. bulk_ID (bb_Batch b)) (t_bulk_batches db))"

definition db_ok :: "db \<Rightarrow> bool" where
  "db_ok db \<longleftrightarrow> schedules_ok db \<and> jobs_ok db \<and> executions_ok db \<and> attempts_ok db \<and> tags_ok db
     \<and> keys_ok db \<and> sessions_ok db \<and> views_ok db \<and> batches_ok db"

lemmas ok_defs = schedules_ok_def jobs_ok_def executions_ok_def attempts_ok_def tags_ok_def
  keys_ok_def sessions_ok_def views_ok_def batches_ok_def

lemma db_ok_empty: "db_ok empty_db"
  by (simp add: db_ok_def ok_defs empty_db_def)

section \<open>Executions\<close>

lemma exec_ok_row: "exec_ok (execution_row e)"
  by (simp add: exec_ok_def execution_row_def)

lemma exec_ok_claim: "exec_ok e \<Longrightarrow> exec_ok (claim_row clk ms e)"
  by (simp add: exec_ok_def claim_row_def)

lemma exec_ok_requeue: "exec_ok e \<Longrightarrow> exec_ok (requeue_row e)"
  by (simp add: exec_ok_def requeue_row_def)

lemma exec_ok_ack: "exec_ok e \<Longrightarrow> exec_ok (e\<lparr>ex_AcknowledgedAt := t\<rparr>)"
  by (simp add: exec_ok_def)

lemma exec_ok_renew: "exec_ok e \<Longrightarrow> owned_row clk i ns g e \<Longrightarrow> exec_ok (e\<lparr>ex_LeaseUntil := Some l\<rparr>)"
  by (auto simp: exec_ok_def owned_row_def)

lemma exec_ok_complete:
  "exec_ok e \<Longrightarrow> terminal st \<Longrightarrow> exec_ok (e\<lparr>ex_Status := st, ex_LeaseUntil := None\<rparr>)"
  by (auto simp: exec_ok_def)

lemma exec_ok_status: "exec_ok e \<Longrightarrow> ex_ClaimGeneration e = 0 \<Longrightarrow> exec_ok (e\<lparr>ex_Status := st\<rparr>)"
  by (auto simp: exec_ok_def)

text \<open>A statement that rewrites execution rows without touching their identity.\<close>

lemma db_ok_upd_executions:
  assumes ok: "db_ok db"
    and keep: "\<And>e. P e \<Longrightarrow> ex_ID (f e) = ex_ID e \<and> ex_JobID (f e) = ex_JobID e \<and> ex_ScheduledAt (f e) = ex_ScheduledAt e"
    and exec: "\<And>e. P e \<Longrightarrow> exec_ok e \<Longrightarrow> exec_ok (f e)"
  shows "db_ok (db\<lparr>t_executions := upd_where P f (t_executions db)\<rparr>)"
proof -
  have "\<forall>e \<in> set (upd_where P f (t_executions db)). exec_ok e"
    using ok exec by (intro all_upd_where) (auto simp: db_ok_def executions_ok_def)
  then show ?thesis using ok keep by (simp add: db_ok_def ok_defs)
qed

lemma claim_row_keeps [simp]:
  "ex_ID (claim_row clk ms e) = ex_ID e" "ex_JobID (claim_row clk ms e) = ex_JobID e"
  "ex_ScheduledAt (claim_row clk ms e) = ex_ScheduledAt e" "ex_Namespace (claim_row clk ms e) = ex_Namespace e"
  "ex_Status (claim_row clk ms e) = InProgress" "ex_ClaimGeneration (claim_row clk ms e) = ex_ClaimGeneration e + 1"
  "ex_LeaseUntil (claim_row clk ms e) = Some (clk + ms * Millisecond)" "ex_CreatedAt (claim_row clk ms e) = ex_CreatedAt e"
  by (simp_all add: claim_row_def)

lemma requeue_row_keeps [simp]:
  "ex_ID (requeue_row e) = ex_ID e" "ex_JobID (requeue_row e) = ex_JobID e"
  "ex_ScheduledAt (requeue_row e) = ex_ScheduledAt e" "ex_Namespace (requeue_row e) = ex_Namespace e"
  "ex_Status (requeue_row e) = Emitted" "ex_ClaimGeneration (requeue_row e) = max (ex_ClaimGeneration e) 1"
  by (simp_all add: requeue_row_def)

lemma execution_row_keeps [simp]:
  "ex_ID (execution_row e) = ex_ID e" "ex_JobID (execution_row e) = ex_JobID e"
  "ex_ScheduledAt (execution_row e) = ex_ScheduledAt e" "ex_Namespace (execution_row e) = ex_Namespace e"
  "ex_Status (execution_row e) = ex_Status e" "ex_ClaimGeneration (execution_row e) = 0"
  "ex_LeaseUntil (execution_row e) = None"
  by (simp_all add: execution_row_def)

lemma queryInsertExecution_ok: "db_ok db \<Longrightarrow> db_ok (snd (queryInsertExecution e db))"
  by (auto simp: queryInsertExecution_def db_ok_def ok_defs set_col exec_ok_row)

lemma queryAckExecution_ok: "db_ok db \<Longrightarrow> db_ok (snd (queryAckExecution clk i ns db))"
  by (simp add: queryAckExecution_def Let_def db_ok_upd_executions exec_ok_ack)

lemma queryUpdateExecutionStatus_ok: "db_ok db \<Longrightarrow> db_ok (snd (queryUpdateExecutionStatus st i db))"
  unfolding queryUpdateExecutionStatus_def Let_def snd_conv
  by (rule db_ok_upd_executions) (simp_all add: exec_ok_status)

lemma queryDequeueExecution_ok: "db_ok db \<Longrightarrow> db_ok (snd (queryDequeueExecution locked clk ms db))"
  by (auto simp: queryDequeueExecution_def db_ok_upd_executions exec_ok_claim split: list.split)

lemma queryDequeueExecutions_ok: "db_ok db \<Longrightarrow> db_ok (snd (queryDequeueExecutions locked clk limit ms db))"
  by (simp add: queryDequeueExecutions_def Let_def db_ok_upd_executions exec_ok_claim)

lemma queryClaimExecution_ok: "db_ok db \<Longrightarrow> db_ok (snd (queryClaimExecution clk i ns ms db))"
  by (simp add: queryClaimExecution_def Let_def db_ok_upd_executions exec_ok_claim)

lemma queryRenewExecutionClaim_ok: "db_ok db \<Longrightarrow> db_ok (snd (queryRenewExecutionClaim clk i ns g ms db))"
  by (simp add: queryRenewExecutionClaim_def Let_def db_ok_upd_executions exec_ok_renew)

lemma queryCompleteExecution_ok:
  "db_ok db \<Longrightarrow> terminal st \<Longrightarrow> db_ok (snd (queryCompleteExecution clk i ns g st db))"
  by (simp add: queryCompleteExecution_def Let_def db_ok_upd_executions exec_ok_complete)

lemma queryRequeueStaleExecutions_ok: "db_ok db \<Longrightarrow> db_ok (snd (queryRequeueStaleExecutions locked clk limit db))"
  by (simp add: queryRequeueStaleExecutions_def Let_def db_ok_upd_executions exec_ok_requeue)

lemma queryInsertDeliveryAttempt_ok: "db_ok db \<Longrightarrow> db_ok (snd (queryInsertDeliveryAttempt a db))"
  by (auto simp: queryInsertDeliveryAttempt_def db_ok_def ok_defs set_col)

section \<open>Jobs, schedules and tags\<close>

lemma queryInsertSchedule_ok: "db_ok db \<Longrightarrow> db_ok (snd (queryInsertSchedule s db))"
  by (auto simp: queryInsertSchedule_def db_ok_def ok_defs set_col)

lemma queryInsertJob_ok: "db_ok db \<Longrightarrow> db_ok (snd (queryInsertJob j db))"
  by (auto simp: queryInsertJob_def db_ok_def ok_defs set_col job_row_def)

lemma db_ok_upd_jobs:
  assumes "db_ok db" and "\<And>j. P j \<Longrightarrow> job_ID (f j) = job_ID j \<and> job_ScheduleID (f j) = job_ScheduleID j"
  shows "db_ok (db\<lparr>t_jobs := upd_where P f (t_jobs db)\<rparr>)"
  using assms by (simp add: db_ok_def ok_defs)

lemma set_configuration_keeps [simp]:
  "job_ID (set_configuration n j) = job_ID j" "job_ScheduleID (set_configuration n j) = job_ScheduleID j"
  "job_Namespace (set_configuration n j) = job_Namespace j" "job_Enabled (set_configuration n j) = job_Enabled j"
  "job_CreatedAt (set_configuration n j) = job_CreatedAt j"
  by (simp_all add: set_configuration_def)

lemma queryUpdateJob_ok: "db_ok db \<Longrightarrow> db_ok (snd (queryUpdateJob j db))"
  by (simp add: queryUpdateJob_def Let_def db_ok_upd_jobs)

lemma queryUpdateJobConfiguration_ok: "db_ok db \<Longrightarrow> db_ok (snd (queryUpdateJobConfiguration j db))"
  by (simp add: queryUpdateJobConfiguration_def Let_def db_ok_upd_jobs)

lemma queryUpdateSchedule_ok: "db_ok db \<Longrightarrow> db_ok (queryUpdateSchedule s db)"
  by (simp add: queryUpdateSchedule_def db_ok_def ok_defs)

lemma tags_ok_append:
  "tags_ok db \<Longrightarrow> (i, tag_Key t) \<notin> (\<lambda>(k, u). (k, tag_Key u)) ` set (t_tags db) \<Longrightarrow> i \<in> job_ID ` set (t_jobs db)
   \<Longrightarrow> tags_ok (db\<lparr>t_tags := t_tags db @ [(i, t)]\<rparr>)"
  by (auto simp: tags_ok_def set_col case_prod_unfold)

lemma tags_ok_upd:
  "tags_ok db \<Longrightarrow> tags_ok (db\<lparr>t_tags := upd_where (\<lambda>(k, u). k = i \<and> tag_Key u = tag_Key t)
     (\<lambda>(k, u). (k, u\<lparr>tag_Value := v\<rparr>)) (t_tags db)\<rparr>)"
  by (simp add: tags_ok_def case_prod_unfold)

lemma db_ok_tags: "db_ok db \<Longrightarrow> tags_ok (db\<lparr>t_tags := ts\<rparr>) \<Longrightarrow> db_ok (db\<lparr>t_tags := ts\<rparr>)"
  by (simp add: db_ok_def schedules_ok_def jobs_ok_def executions_ok_def attempts_ok_def
    keys_ok_def sessions_ok_def views_ok_def batches_ok_def)

lemma queryUpsertTag_ok: "db_ok db \<Longrightarrow> db_ok (snd (queryUpsertTag i t db))"
proof -
  assume ok: "db_ok db"
  then have "tags_ok db" by (simp add: db_ok_def)
  with ok show ?thesis
    by (simp add: queryUpsertTag_def db_ok_tags tags_ok_append tags_ok_upd)
qed

lemma queryDeleteTags_ok: "db_ok db \<Longrightarrow> db_ok (queryDeleteTags i db)"
proof -
  assume ok: "db_ok db"
  then have "tags_ok (queryDeleteTags i db)"
    by (simp add: queryDeleteTags_def db_ok_def tags_ok_def subset_trans [OF set_col_del_where])
  with ok show ?thesis by (simp add: queryDeleteTags_def db_ok_tags)
qed

lemma upsert_tags_ok: "db_ok db \<Longrightarrow> db_ok (snd (upsert_tags i ts db))"
proof (induction ts arbitrary: db)
  case (Cons t ts)
  then show ?case using queryUpsertTag_ok [of db i t] by (auto split: prod.split sum.split)
qed simp

text \<open>Deleting referenced rows together with the rows that refer to them leaves no reference hanging.\<close>

lemma del_where_refs:
  assumes "set (col k rows) \<subseteq> set (col i refs)"
    and "\<And>r. r \<in> set refs \<Longrightarrow> Q r \<Longrightarrow> i r \<in> X"
    and "\<And>s. s \<in> set rows \<Longrightarrow> k s \<in> X \<Longrightarrow> P s"
  shows "set (col k (del_where P rows)) \<subseteq> set (col i (del_where Q refs))"
proof
  fix x assume "x \<in> set (col k (del_where P rows))"
  then obtain s where s: "s \<in> set rows" "\<not> P s" "x = k s" by (auto simp: set_col)
  then have "x \<in> set (col i refs)" using assms(1) by (auto simp: set_col)
  then obtain r where r: "r \<in> set refs" "x = i r" by (auto simp: set_col)
  with s assms(2,3) have "\<not> Q r" by metis
  with r show "x \<in> set (col i (del_where Q refs))" by (auto simp: set_col)
qed

lemma queryDeleteJob_ok:
  assumes ok: "db_ok db"
  shows "db_ok (snd (queryDeleteJob i ns db))"
proof -
  define auth where "auth = filter (\<lambda>j. job_ID j = i \<and> job_Namespace j = ns) (t_jobs db)"
  define ids where "ids = job_ID ` set auth"
  define execs where "execs = ex_ID ` {e \<in> set (t_executions db). ex_JobID e \<in> ids}"
  define scheds where "scheds = job_ScheduleID ` set auth"
  define db' where "db' = db\<lparr>
      t_delivery_attempts := del_where (\<lambda>a. da_ExecutionID a \<in> execs) (t_delivery_attempts db),
      t_executions := del_where (\<lambda>e. ex_JobID e \<in> ids) (t_executions db),
      t_tags := del_where (\<lambda>(k, t). k \<in> ids) (t_tags db),
      t_schedules := del_where (\<lambda>s. sch_ID s \<in> scheds) (t_schedules db),
      t_jobs := del_where (\<lambda>j. job_ID j \<in> ids) (t_jobs db)\<rparr>"
  have q: "snd (queryDeleteJob i ns db) = (if \<exists>j \<in> set (t_jobs db). job_ID j \<notin> ids \<and> job_ScheduleID j \<in> scheds
      then db else db')"
    unfolding queryDeleteJob_def Let_def auth_def [symmetric] ids_def [symmetric] execs_def [symmetric]
      scheds_def [symmetric] by (auto simp: db'_def)
  have "db_ok db'" if free: "\<not> (\<exists>j \<in> set (t_jobs db). job_ID j \<notin> ids \<and> job_ScheduleID j \<in> scheds)"
  proof -
    have "schedules_ok db'" using ok by (simp add: db_ok_def schedules_ok_def db'_def)
    moreover have "jobs_ok db'"
    proof -
      have "set (col job_ScheduleID (t_jobs db')) \<subseteq> set (col sch_ID (t_schedules db'))"
        unfolding db'_def using ok free by (simp, intro del_where_refs [where X = scheds]) (auto simp: db_ok_def jobs_ok_def)
      then show ?thesis using ok by (simp add: db_ok_def jobs_ok_def db'_def)
    qed
    moreover have "executions_ok db'"
    proof -
      have "set (col ex_JobID (t_executions db')) \<subseteq> set (col job_ID (t_jobs db'))"
        unfolding db'_def using ok by (simp, intro del_where_refs [where X = ids]) (auto simp: db_ok_def executions_ok_def)
      then show ?thesis using ok by (simp add: db_ok_def executions_ok_def db'_def)
    qed
    moreover have "attempts_ok db'"
    proof -
      have "set (col da_ExecutionID (t_delivery_attempts db')) \<subseteq> set (col ex_ID (t_executions db'))"
        unfolding db'_def using ok
        by (simp, intro del_where_refs [where X = execs]) (auto simp: db_ok_def attempts_ok_def execs_def)
      then show ?thesis using ok by (simp add: db_ok_def attempts_ok_def db'_def)
    qed
    moreover have "tags_ok db'"
    proof -
      have "set (col fst (t_tags db')) \<subseteq> set (col job_ID (t_jobs db'))"
        unfolding db'_def using ok by (simp, intro del_where_refs [where X = ids]) (auto simp: db_ok_def tags_ok_def)
      then show ?thesis using ok by (simp add: db_ok_def tags_ok_def db'_def)
    qed
    ultimately show ?thesis
      using ok by (simp add: db_ok_def keys_ok_def sessions_ok_def views_ok_def batches_ok_def db'_def)
  qed
  with ok q show ?thesis by simp
qed

section \<open>Keys, sessions, views and batches\<close>

lemma keys_ok_append:
  assumes "keys_ok db" "key_ID k \<notin> key_ID ` set (t_api_keys db)" "key_TokenHash k \<notin> key_TokenHash ` set (t_api_keys db)"
    and "key_TailnetLogin k \<noteq> '''' \<Longrightarrow> \<forall>r \<in> set (t_api_keys db). \<not> (key_Namespace r = key_Namespace k \<and> key_TailnetLogin r = key_TailnetLogin k)"
  shows "keys_ok (db\<lparr>t_api_keys := t_api_keys db @ [k]\<rparr>)"
  using assms by (auto simp: keys_ok_def set_col)

lemma db_ok_keys_append:
  "db_ok db \<Longrightarrow> keys_ok (db\<lparr>t_api_keys := t_api_keys db @ [k]\<rparr>) \<Longrightarrow> db_ok (db\<lparr>t_api_keys := t_api_keys db @ [k]\<rparr>)"
  by (auto simp: db_ok_def schedules_ok_def jobs_ok_def executions_ok_def attempts_ok_def tags_ok_def
    sessions_ok_def views_ok_def batches_ok_def)

lemma queryInsertAPIKey_ok: "db_ok db \<Longrightarrow> db_ok (snd (queryInsertAPIKey k db))"
proof -
  assume ok: "db_ok db"
  then have "keys_ok db" by (simp add: db_ok_def)
  then have "keys_ok (db\<lparr>t_api_keys := t_api_keys db @ [api_key_row k]\<rparr>)"
    if "key_ID k \<notin> key_ID ` set (t_api_keys db)" "key_TokenHash k \<notin> key_TokenHash ` set (t_api_keys db)"
    using that by (intro keys_ok_append) (simp_all add: api_key_row_def)
  with ok show ?thesis by (simp add: queryInsertAPIKey_def db_ok_keys_append)
qed

lemma queryGetOrCreateTailnetKey_ok: "db_ok db \<Longrightarrow> db_ok (snd (queryGetOrCreateTailnetKey k db))"
proof -
  assume ok: "db_ok db"
  then have "keys_ok db" by (simp add: db_ok_def)
  then have "keys_ok (db\<lparr>t_api_keys := t_api_keys db @ [k\<lparr>key_LastUsedAt := None\<rparr>]\<rparr>)"
    if "key_ID k \<notin> key_ID ` set (t_api_keys db)" "key_TokenHash k \<notin> key_TokenHash ` set (t_api_keys db)"
      "\<not> (\<exists>r \<in> set (t_api_keys db). key_Namespace r = key_Namespace k \<and> key_TailnetLogin r = key_TailnetLogin k)"
    using that by (intro keys_ok_append) simp_all
  with ok show ?thesis
    unfolding queryGetOrCreateTailnetKey_def Let_def by (simp add: db_ok_keys_append)
qed

lemma filter_upd_where_same:
  "(\<And>r. P r \<Longrightarrow> Q (f r) = Q r) \<Longrightarrow> filter Q (upd_where P f rows) = upd_where P f (filter Q rows)"
  by (induction rows) auto

lemma queryUpdateLastUsedAt_ok: "db_ok db \<Longrightarrow> db_ok (queryUpdateLastUsedAt clk ids db)"
  by (simp add: queryUpdateLastUsedAt_def db_ok_def ok_defs filter_upd_where_same)

lemma filter_del_where: "filter Q (del_where P rows) = del_where P (filter Q rows)"
  by (simp add: del_where_def conj_commute)

lemma queryDeleteKey_ok:
  assumes ok: "db_ok db"
  shows "db_ok (snd (queryDeleteKey i ns db))"
proof -
  define P where "P = (\<lambda>k :: APIKey. key_ID k = i \<and> key_Namespace k = ns)"
  define ids where "ids = key_ID ` {k \<in> set (t_api_keys db). P k}"
  define db' where "db' = db\<lparr>t_api_keys := del_where P (t_api_keys db),
       t_admin_sessions := del_where (\<lambda>s. ses_APIKeyID s \<in> ids) (t_admin_sessions db),
       t_saved_views := del_where (\<lambda>v. sv_APIKeyID v \<in> ids) (t_saved_views db)\<rparr>"
  have q: "snd (queryDeleteKey i ns db) = db'"
    unfolding queryDeleteKey_def Let_def P_def [symmetric] ids_def [symmetric] by (simp add: db'_def)
  have "keys_ok db'" using ok by (simp add: db_ok_def keys_ok_def db'_def filter_del_where)
  moreover have "sessions_ok db'"
  proof -
    have "set (col ses_APIKeyID (t_admin_sessions db')) \<subseteq> set (col key_ID (t_api_keys db'))"
      unfolding db'_def using ok
      by (simp, intro del_where_refs [where X = ids]) (auto simp: db_ok_def sessions_ok_def ids_def)
    then show ?thesis using ok by (simp add: db_ok_def sessions_ok_def db'_def)
  qed
  moreover have "views_ok db'"
  proof -
    have "set (col sv_APIKeyID (t_saved_views db')) \<subseteq> set (col key_ID (t_api_keys db'))"
      unfolding db'_def using ok
      by (simp, intro del_where_refs [where X = ids]) (auto simp: db_ok_def views_ok_def ids_def)
    then show ?thesis using ok by (simp add: db_ok_def views_ok_def db'_def)
  qed
  ultimately show ?thesis
    using ok q by (simp add: db_ok_def schedules_ok_def jobs_ok_def executions_ok_def attempts_ok_def
      tags_ok_def batches_ok_def db'_def)
qed

lemma db_ok_sessions: "db_ok db \<Longrightarrow> sessions_ok (db\<lparr>t_admin_sessions := ss\<rparr>) \<Longrightarrow> db_ok (db\<lparr>t_admin_sessions := ss\<rparr>)"
  by (simp add: db_ok_def schedules_ok_def jobs_ok_def executions_ok_def attempts_ok_def tags_ok_def
    keys_ok_def views_ok_def batches_ok_def)

lemma sessions_ok_del: "sessions_ok db \<Longrightarrow> sessions_ok (db\<lparr>t_admin_sessions := del_where P (t_admin_sessions db)\<rparr>)"
  by (simp add: sessions_ok_def subset_trans [OF set_col_del_where])

lemma queryInsertAdminSession_ok: "db_ok db \<Longrightarrow> db_ok (snd (queryInsertAdminSession now s db))"
proof -
  assume ok: "db_ok db"
  let ?old = "del_where (\<lambda>r. ses_ExpiresAt r \<le> now \<or> ses_AbsoluteExpiresAt r \<le> now) (t_admin_sessions db)"
  from ok have "sessions_ok (db\<lparr>t_admin_sessions := ?old\<rparr>)" by (simp add: db_ok_def sessions_ok_del)
  then have "sessions_ok (db\<lparr>t_admin_sessions := ?old @ [s]\<rparr>)"
    if "ses_ExpiresAt s \<le> ses_AbsoluteExpiresAt s" "ses_TokenHash s \<notin> ses_TokenHash ` set (t_admin_sessions db)"
      "ses_APIKeyID s \<in> key_ID ` set (t_api_keys db)"
    using that by (auto simp: sessions_ok_def set_col)
  with ok show ?thesis by (simp add: queryInsertAdminSession_def db_ok_sessions)
qed

lemma queryRefreshAdminSession_ok: "db_ok db \<Longrightarrow> db_ok (snd (queryRefreshAdminSession seen expires h db))"
proof -
  assume ok: "db_ok db"
  then have "\<forall>s \<in> set (t_admin_sessions (snd (queryRefreshAdminSession seen expires h db))).
      ses_ExpiresAt s \<le> ses_AbsoluteExpiresAt s"
    by (auto simp: queryRefreshAdminSession_def Let_def db_ok_def sessions_ok_def elim!: in_upd_whereE)
  with ok show ?thesis
    by (simp add: queryRefreshAdminSession_def Let_def db_ok_def ok_defs)
qed

lemma queryDeleteAdminSession_ok: "db_ok db \<Longrightarrow> db_ok (queryDeleteAdminSession h db)"
  by (simp add: queryDeleteAdminSession_def db_ok_sessions sessions_ok_del db_ok_def [of db])

lemma db_ok_views: "db_ok db \<Longrightarrow> views_ok (db\<lparr>t_saved_views := vs\<rparr>) \<Longrightarrow> db_ok (db\<lparr>t_saved_views := vs\<rparr>)"
  by (simp add: db_ok_def schedules_ok_def jobs_ok_def executions_ok_def attempts_ok_def tags_ok_def
    keys_ok_def sessions_ok_def batches_ok_def)

lemma db_ok_batches: "db_ok db \<Longrightarrow> batches_ok (db\<lparr>t_bulk_batches := bs\<rparr>) \<Longrightarrow> db_ok (db\<lparr>t_bulk_batches := bs\<rparr>)"
  by (simp add: db_ok_def schedules_ok_def jobs_ok_def executions_ok_def attempts_ok_def tags_ok_def
    keys_ok_def sessions_ok_def views_ok_def)

lemma upsert_view_ok: "db_ok db \<Longrightarrow> db_ok (snd (upsert_view clk newID ns actor name query db))"
proof -
  assume ok: "db_ok db"
  then have v: "views_ok db" by (simp add: db_ok_def)
  then have "views_ok (db\<lparr>t_saved_views := upd_where
      (\<lambda>v. sv_APIKeyID v = actor \<and> sv_Namespace v = ns \<and> view_Name (sv_View v) = name)
      (\<lambda>v. v\<lparr>sv_View := (sv_View v)\<lparr>view_Query := query\<rparr>\<rparr>) (t_saved_views db)\<rparr>)"
    by (simp add: views_ok_def)
  moreover have "views_ok (db\<lparr>t_saved_views := t_saved_views db @
      [\<lparr>sv_APIKeyID = actor, sv_Namespace = ns,
        sv_View = \<lparr>view_ID = newID, view_Name = name, view_Query = query, view_CreatedAt = clk\<rparr>\<rparr>]\<rparr>)"
    if "\<not> (\<exists>v \<in> set (views_of ns actor db). view_Name (sv_View v) = name)"
      "newID \<notin> (\<lambda>v. view_ID (sv_View v)) ` set (t_saved_views db)" "actor \<in> key_ID ` set (t_api_keys db)"
    using v that by (auto simp: views_ok_def set_col views_of_def)
  ultimately show ?thesis using ok by (simp add: upsert_view_def db_ok_views)
qed

end
