(* ===== verification/StoreMachine.thy ===== *)
theory StoreMachine
  imports StoreInvariant
begin

text \<open>
  The store as a machine: every state-changing method of \<^verbatim>\<open>store.go\<close> and \<^verbatim>\<open>control.go\<close> is an
  operation, and a history is a list of operations, each with the database's side of the call
  (clock, locked rows, fault). Sessions, workers and replicas interleave freely: any list is a
  history. The theory shows what holds along all of them: the invariant of theory StoreInvariant,
  and that the claim generation and the status of an execution only move forward, which is what
  fences a worker whose claim was taken over.
\<close>

lemma snd_affected_or [simp]: "snd (affected_or e r) = snd r"
  by (auto simp: affected_or_def split: prod.split sum.split)

lemma snd_claimMutationResult [simp]: "snd (claimMutationResult r) = snd r"
  by (auto simp: claimMutationResult_def split: prod.split sum.split)

lemma authorizedActor_id [simp]: "snd (authorizedActor ns actor db) = db"
  by (simp add: authorizedActor_def)

lemma snd_InsertExecution: "snd (InsertExecution ev e db) = snd (run_stmt (de_fault ev) (queryInsertExecution e) db)"
  by (auto simp: InsertExecution_def split: prod.split sum.split)

lemma snd_InsertAPIKey: "snd (InsertAPIKey ev k db) = snd (run_stmt (de_fault ev) (queryInsertAPIKey k) db)"
  by (auto simp: InsertAPIKey_def split: prod.split sum.split)

lemma snd_DeleteJob: "snd (DeleteJob ev i ns db) = snd (run_stmt (de_fault ev) (queryDeleteJob i ns) db)"
  by (auto simp: DeleteJob_def split: prod.split sum.split option.split)

lemma snd_UpdateExecutionStatus:
  "snd (UpdateExecutionStatus ev f2 i st db) = snd (run_stmt (de_fault ev) (ok_stmt (queryUpdateExecutionStatus st i)) db)"
  by (auto simp: UpdateExecutionStatus_def split: prod.split sum.split option.split if_split)

definition set_enabled :: "time \<Rightarrow> uuid \<Rightarrow> Namespace \<Rightarrow> bool \<Rightarrow> db \<Rightarrow> db" where
  "set_enabled clk i ns enabled db =
     db\<lparr>t_jobs := upd_where (\<lambda>j. job_ID j = i \<and> job_Namespace j = ns)
          (\<lambda>j. j\<lparr>job_Enabled := enabled, job_UpdatedAt := clk\<rparr>) (t_jobs db)\<rparr>"

lemma set_enabled_ok: "db_ok db \<Longrightarrow> db_ok (set_enabled clk i ns b db)"
  by (simp add: set_enabled_def db_ok_upd_jobs)

lemma snd_SetJobEnabled:
  "snd (SetJobEnabled ev i ns b db) = (case de_fault ev of FaultBefore e \<Rightarrow> db | _ \<Rightarrow> set_enabled (de_clk ev) i ns b db)"
  by (auto simp: SetJobEnabled_def Let_def run_stmt_def set_enabled_def split: fault.split option.split)

lemma confirm_item_db:
  "snd (confirm_item clk se ue ns act it db) \<in> {db, set_enabled clk (item_ID it) ns (act = ''resume'') db}"
  by (auto simp: confirm_item_def set_enabled_def split: option.split)

lemma confirm_items_inv:
  assumes "\<And>i db. Q db \<Longrightarrow> Q (set_enabled clk i ns (act = ''resume'') db)"
  shows "Q db \<Longrightarrow> Q (snd (confirm_items clk se ue ns act its db))"
proof (induction its arbitrary: db)
  case (Cons it its)
  have "Q (snd (confirm_item clk se ue ns act it db))"
    using confirm_item_db [of clk se ue ns act it db] Cons.prems assms by auto
  from Cons.IH [OF this] show ?case by (simp add: case_prod_unfold Let_def)
qed simp

section \<open>Relations the statements respect\<close>

text \<open>
  A reflexive and transitive relation between the database before and after a call: if every
  statement respects it, so do the combinators of theory Store.
\<close>

locale statement_relation =
  fixes R :: "db \<Rightarrow> db \<Rightarrow> bool"
  assumes refl: "R db db"
    and trans: "R a b \<Longrightarrow> R b c \<Longrightarrow> R a c"
begin

lemma run_stmt: "(\<And>db. R db (snd (q db))) \<Longrightarrow> R db (snd (run_stmt f q db))"
  by (simp add: run_stmt_def refl split: fault.split)

lemma ok_stmt: "R db (snd (q db)) \<Longrightarrow> R db (snd (ok_stmt q db))"
  by (simp add: ok_stmt_def)

lemma in_tx: "R db (snd (body db)) \<Longrightarrow> R db (snd (in_tx body db))"
  by (auto simp: in_tx_def refl split: prod.split sum.split)

lemma seq_stmt: "R db (snd (p db)) \<Longrightarrow> (\<And>x db. R db (snd (q x db))) \<Longrightarrow> R db (snd (seq_stmt p q db))"
  by (auto simp: seq_stmt_def split: prod.split sum.split intro: trans)

lemma upsert_tags: "(\<And>t db. R db (snd (queryUpsertTag i t db))) \<Longrightarrow> R db (snd (upsert_tags i ts db))"
proof (induction ts arbitrary: db)
  case Nil
  show ?case by (simp add: refl)
next
  case (Cons t ts)
  then show ?case
    by (auto split: prod.split sum.split) (metis snd_conv trans)+
qed

lemma UpdateJobAggregate:
  assumes "\<And>db. R db (queryUpdateSchedule s db)" "\<And>db. R db (snd (queryUpdateJobConfiguration j db))"
    "\<And>db. R db (queryDeleteTags (job_ID j) db)" "\<And>t db. R db (snd (queryUpsertTag (job_ID j) t db))"
  shows "R db (snd (UpdateJobAggregate ev j s ts db))"
  unfolding UpdateJobAggregate_def
proof (intro run_stmt in_tx, rule trans [OF assms(1) seq_stmt])
  fix db x
  show "R db (snd (affected_or ErrJobNotFound (Store.ok_stmt (queryUpdateJobConfiguration j) db)))"
    by (simp add: ok_stmt assms(2))
  show "R db (snd (case ts of None \<Rightarrow> (Inr (), db)
      | Some ts \<Rightarrow> Store.upsert_tags (job_ID j) ts (queryDeleteTags (job_ID j) db)))"
    by (auto simp: refl split: option.split intro!: trans [OF assms(3)] upsert_tags assms(4))
qed

lemma GetOrCreateTailnetKey:
  assumes "\<And>db. R db (snd (queryGetOrCreateTailnetKey k db))"
  shows "R db (snd (GetOrCreateTailnetKey ev m f2 m2 k db))"
proof -
  have t: "R db (snd (tailnet_key_attempt f m k db))" for f m db
  proof -
    have "snd (tailnet_key_attempt f m k db) =
        snd (Store.run_stmt f (if m then (\<lambda>db. (Inr None, db)) else queryGetOrCreateTailnetKey k) db)"
      by (auto simp: tailnet_key_attempt_def split: prod.split sum.split option.split)
    then show ?thesis using run_stmt [of "if m then (\<lambda>db. (Inr None, db)) else queryGetOrCreateTailnetKey k"]
      by (simp add: assms refl)
  qed
  show ?thesis
    using t [of db "de_fault ev" m] t [of _ f2 m2]
    by (auto simp: GetOrCreateTailnetKey_def refl split: prod.split sum.split) (metis snd_conv trans)+
qed

lemma PreviewBulk:
  assumes "\<And>db P. R db (db\<lparr>t_bulk_batches := del_where P (t_bulk_batches db)\<rparr>)"
    "\<And>db items. R db (snd (insert_batch (de_clk ev) i ns ac act items db))"
  shows "R db (snd (PreviewBulk ev i ns ac act ids db))"
  unfolding PreviewBulk_def
  by (intro run_stmt in_tx seq_stmt)
    (auto simp: Let_def refl assms(1) split: sum.split intro: trans [OF assms(1) assms(2)])

lemma ConfirmBulk:
  assumes "\<And>i b db. R db (set_enabled (de_clk ev) i ns b db)"
    "\<And>P f db. (\<And>b. P b \<Longrightarrow> bulk_ID (bb_Batch (f b)) = bulk_ID (bb_Batch b)) \<Longrightarrow> R db (db\<lparr>t_bulk_batches := upd_where P f (t_bulk_batches db)\<rparr>)"
  shows "R db (snd (ConfirmBulk ev se ue ns ac i db))"
  unfolding ConfirmBulk_def
proof (intro run_stmt in_tx seq_stmt, goal_cases)
  case (2 db x db1)
  have c: "R db1 (snd (confirm_items (de_clk ev) se ue ns act its db1))" for act its
    by (rule confirm_items_inv [where Q = "R db1"]) (auto intro: trans refl assms(1))
  show ?case
    by (auto simp: Let_def case_prod_unfold refl split: option.split intro!: trans [OF c] assms(2))
qed (simp add: refl)

end

section \<open>Operations\<close>

datatype store_op =
    OpCreateJobAggregate Job Schedule "Tag list"
  | OpUpdateJob Job
  | OpUpdateJobAggregate Job Schedule "Tag list option"
  | OpDeleteJob uuid Namespace
  | OpInsertSchedule Schedule
  | OpUpdateSchedule Schedule
  | OpInsertExecution Execution
  | OpAckExecution uuid Namespace
  | OpUpdateExecutionStatus fault uuid ExecutionStatus
  | OpDequeueExecution Store
  | OpDequeueExecutions Store int
  | OpClaimExecution Store uuid Namespace
  | OpRenewExecutionClaim Store Execution
  | OpCompleteExecution Execution ExecutionStatus
  | OpRequeueExpiredExecutions int
  | OpUpsertTags uuid "Tag list"
  | OpDeleteTags uuid
  | OpInsertAPIKey APIKey
  | OpInsertFirstAPIKey APIKey
  | OpGetOrCreateTailnetKey bool fault bool APIKey
  | OpDeleteKey uuid Namespace
  | OpUpdateLastUsedAt "uuid list"
  | OpCreateAdminSession AdminSession
  | OpRefreshAdminSession string time time
  | OpDeleteAdminSession string
  | OpInsertDeliveryAttempt DeliveryAttempt
  | OpSaveView uuid Namespace uuid string string
  | OpDeleteView Namespace uuid uuid
  | OpPreviewBulk uuid Namespace uuid string "uuid list"
  | OpConfirmBulk "uuid \<Rightarrow> bool" "uuid \<Rightarrow> bool" Namespace uuid uuid
  | OpSetJobEnabled uuid Namespace bool

fun exec_op :: "dbenv \<times> store_op \<Rightarrow> db \<Rightarrow> db" where
  "exec_op (ev, OpCreateJobAggregate j s ts) db = snd (CreateJobAggregate ev j s ts db)"
| "exec_op (ev, OpUpdateJob j) db = snd (UpdateJob ev j db)"
| "exec_op (ev, OpUpdateJobAggregate j s ts) db = snd (UpdateJobAggregate ev j s ts db)"
| "exec_op (ev, OpDeleteJob i ns) db = snd (DeleteJob ev i ns db)"
| "exec_op (ev, OpInsertSchedule s) db = snd (InsertSchedule ev s db)"
| "exec_op (ev, OpUpdateSchedule s) db = snd (UpdateSchedule ev s db)"
| "exec_op (ev, OpInsertExecution e) db = snd (InsertExecution ev e db)"
| "exec_op (ev, OpAckExecution i ns) db = snd (AckExecution ev i ns db)"
| "exec_op (ev, OpUpdateExecutionStatus f2 i st) db = snd (UpdateExecutionStatus ev f2 i st db)"
| "exec_op (ev, OpDequeueExecution s) db = snd (DequeueExecution s ev db)"
| "exec_op (ev, OpDequeueExecutions s n) db = snd (DequeueExecutions s ev n db)"
| "exec_op (ev, OpClaimExecution s i ns) db = snd (ClaimExecution s ev i ns db)"
| "exec_op (ev, OpRenewExecutionClaim s e) db = snd (RenewExecutionClaim s ev e db)"
| "exec_op (ev, OpCompleteExecution e st) db = snd (CompleteExecution ev e st db)"
| "exec_op (ev, OpRequeueExpiredExecutions n) db = snd (RequeueExpiredExecutions ev n db)"
| "exec_op (ev, OpUpsertTags i ts) db = snd (UpsertTags ev i ts db)"
| "exec_op (ev, OpDeleteTags i) db = snd (DeleteTags ev i db)"
| "exec_op (ev, OpInsertAPIKey k) db = snd (InsertAPIKey ev k db)"
| "exec_op (ev, OpInsertFirstAPIKey k) db = snd (InsertFirstAPIKey ev k db)"
| "exec_op (ev, OpGetOrCreateTailnetKey m f2 m2 k) db = snd (GetOrCreateTailnetKey ev m f2 m2 k db)"
| "exec_op (ev, OpDeleteKey i ns) db = snd (DeleteKey ev i ns db)"
| "exec_op (ev, OpUpdateLastUsedAt ids) db = snd (UpdateLastUsedAt ev ids db)"
| "exec_op (ev, OpCreateAdminSession s) db = snd (CreateAdminSession ev s db)"
| "exec_op (ev, OpRefreshAdminSession h seen ex) db = snd (RefreshAdminSession ev h seen ex db)"
| "exec_op (ev, OpDeleteAdminSession h) db = snd (DeleteAdminSession ev h db)"
| "exec_op (ev, OpInsertDeliveryAttempt a) db = snd (InsertDeliveryAttempt ev a db)"
| "exec_op (ev, OpSaveView i ns ac nm q) db = snd (SaveView ev i ns ac nm q db)"
| "exec_op (ev, OpDeleteView ns ac i) db = snd (DeleteView ev ns ac i db)"
| "exec_op (ev, OpPreviewBulk i ns ac act ids) db = snd (PreviewBulk ev i ns ac act ids db)"
| "exec_op (ev, OpConfirmBulk se ue ns ac i) db = snd (ConfirmBulk ev se ue ns ac i db)"
| "exec_op (ev, OpSetJobEnabled i ns b) db = snd (SetJobEnabled ev i ns b db)"

section \<open>The invariant\<close>

abbreviation keeps_ok :: "db \<Rightarrow> db \<Rightarrow> bool" where
  "keeps_ok a b \<equiv> (db_ok a \<longrightarrow> db_ok b)"

interpretation ok: statement_relation keeps_ok
  by unfold_locales auto

lemmas query_oks = queryInsertExecution_ok queryAckExecution_ok queryUpdateExecutionStatus_ok
  queryDequeueExecution_ok queryDequeueExecutions_ok queryClaimExecution_ok queryRenewExecutionClaim_ok
  queryRequeueStaleExecutions_ok queryInsertDeliveryAttempt_ok queryInsertSchedule_ok queryInsertJob_ok
  queryUpdateJob_ok queryUpdateJobConfiguration_ok queryUpdateSchedule_ok queryUpsertTag_ok queryDeleteTags_ok
  upsert_tags_ok queryDeleteJob_ok queryInsertAPIKey_ok queryGetOrCreateTailnetKey_ok queryUpdateLastUsedAt_ok
  queryDeleteKey_ok queryInsertAdminSession_ok queryRefreshAdminSession_ok queryDeleteAdminSession_ok upsert_view_ok

lemma CreateJobAggregate_ok: "keeps_ok db (snd (CreateJobAggregate ev j s ts db))"
  unfolding CreateJobAggregate_def by (intro ok.run_stmt ok.in_tx ok.seq_stmt) (simp_all add: query_oks)

lemma UpdateJobAggregate_ok: "keeps_ok db (snd (UpdateJobAggregate ev j s ts db))"
  by (rule ok.UpdateJobAggregate) (simp_all add: query_oks)

lemma CompleteExecution_ok: "keeps_ok db (snd (CompleteExecution ev e st db))"
  by (auto simp: CompleteExecution_def run_stmt_def ok_stmt_def queryCompleteExecution_ok split: fault.split)

lemma GetOrCreateTailnetKey_ok: "keeps_ok db (snd (GetOrCreateTailnetKey ev m f2 m2 k db))"
  by (rule ok.GetOrCreateTailnetKey) (simp add: query_oks)

lemma SaveView_ok: "keeps_ok db (snd (SaveView ev i ns ac nm q db))"
  unfolding SaveView_def by (intro ok.run_stmt ok.in_tx ok.seq_stmt) (simp_all add: query_oks)

lemma db_ok_del_views: "db_ok db \<Longrightarrow> db_ok (db\<lparr>t_saved_views := del_where P (t_saved_views db)\<rparr>)"
  by (rule db_ok_views) (simp_all add: db_ok_def views_ok_def subset_trans [OF set_col_del_where])

lemma db_ok_del_batches: "db_ok db \<Longrightarrow> db_ok (db\<lparr>t_bulk_batches := del_where P (t_bulk_batches db)\<rparr>)"
  by (rule db_ok_batches) (simp_all add: db_ok_def batches_ok_def)

lemma db_ok_upd_batches:
  "db_ok db \<Longrightarrow> (\<And>b. P b \<Longrightarrow> bulk_ID (bb_Batch (f b)) = bulk_ID (bb_Batch b))
   \<Longrightarrow> db_ok (db\<lparr>t_bulk_batches := upd_where P f (t_bulk_batches db)\<rparr>)"
  by (rule db_ok_batches) (simp_all add: db_ok_def batches_ok_def)

lemma insert_batch_ok: "db_ok db \<Longrightarrow> db_ok (snd (insert_batch clk i ns ac act items db))"
  by (auto simp: insert_batch_def Let_def db_ok_def [of db] batches_ok_def set_col intro!: db_ok_batches)

lemma DeleteView_ok: "keeps_ok db (snd (DeleteView ev ns ac i db))"
  unfolding DeleteView_def snd_affected_or
  by (intro ok.run_stmt ok.ok_stmt) (simp add: Let_def db_ok_del_views)

lemma PreviewBulk_ok: "keeps_ok db (snd (PreviewBulk ev i ns ac act ids db))"
  by (rule ok.PreviewBulk) (simp_all add: db_ok_del_batches insert_batch_ok)

lemma ConfirmBulk_ok: "keeps_ok db (snd (ConfirmBulk ev se ue ns ac i db))"
  by (rule ok.ConfirmBulk) (simp_all add: set_enabled_ok db_ok_upd_batches)

lemma UpdateLastUsedAt_ok: "keeps_ok db (snd (UpdateLastUsedAt ev ids db))"
  by (simp add: UpdateLastUsedAt_def run_stmt_def query_oks split: fault.split)

lemma DequeueExecutions_ok: "keeps_ok db (snd (DequeueExecutions s ev n db))"
  by (simp add: DequeueExecutions_def run_stmt_def ok_stmt_def query_oks split: fault.split)

lemma UpsertTags_ok: "keeps_ok db (snd (UpsertTags ev i ts db))"
  unfolding UpsertTags_def by (intro ok.run_stmt ok.in_tx) (simp add: query_oks)

lemma InsertFirstAPIKey_ok: "keeps_ok db (snd (InsertFirstAPIKey ev k db))"
  unfolding InsertFirstAPIKey_def by (intro ok.run_stmt ok.in_tx) (simp add: query_oks)

lemmas method_oks = CreateJobAggregate_ok UpdateJobAggregate_ok CompleteExecution_ok GetOrCreateTailnetKey_ok
  SaveView_ok DeleteView_ok PreviewBulk_ok ConfirmBulk_ok UpdateLastUsedAt_ok DequeueExecutions_ok
  UpsertTags_ok InsertFirstAPIKey_ok

lemmas method_defs = UpdateJob_def snd_DeleteJob InsertSchedule_def UpdateSchedule_def snd_InsertExecution
  AckExecution_def snd_UpdateExecutionStatus DequeueExecution_def ClaimExecution_def RenewExecutionClaim_def
  RequeueExpiredExecutions_def DeleteTags_def snd_InsertAPIKey
  DeleteKey_def CreateAdminSession_def RefreshAdminSession_def DeleteAdminSession_def InsertDeliveryAttempt_def

lemma exec_op_ok: "db_ok db \<Longrightarrow> db_ok (exec_op x db)"
proof (cases x)
  case (Pair ev op)
  assume "db_ok db"
  then show ?thesis
    by (cases op) (auto simp: Pair method_oks [rule_format] method_defs snd_SetJobEnabled set_enabled_ok query_oks
        run_stmt_def ok_stmt_def split: fault.split)
qed

interpretation store: step_machine exec_op db_ok
  by unfold_locales (rule exec_op_ok)

section \<open>Executions move forward\<close>

text \<open>
  Within one claim generation a row goes from claimed to requeued or to a terminal status; only a
  new claim goes back to in progress, and it takes the next generation. Rows of generation 0 are
  the ones the claimless status update may still write.
\<close>

definition phase :: "Execution \<Rightarrow> nat" where
  "phase e = (if ex_ClaimGeneration e = 0 then (if terminal (ex_Status e) then 1 else 0)
     else (case ex_Status e of InProgress \<Rightarrow> 0 | Emitted \<Rightarrow> 1 | _ \<Rightarrow> 2))"

definition same_execution :: "Execution \<Rightarrow> Execution \<Rightarrow> bool" where
  "same_execution e e' \<longleftrightarrow> ex_ID e' = ex_ID e \<and> ex_JobID e' = ex_JobID e \<and> ex_Namespace e' = ex_Namespace e
     \<and> ex_TriggerType e' = ex_TriggerType e \<and> ex_ScheduledAt e' = ex_ScheduledAt e
     \<and> ex_FiredAt e' = ex_FiredAt e \<and> ex_CreatedAt e' = ex_CreatedAt e"

definition advances :: "Execution \<Rightarrow> Execution \<Rightarrow> bool" where
  "advances e e' \<longleftrightarrow> same_execution e e'
     \<and> (ex_ClaimGeneration e < ex_ClaimGeneration e' \<and> \<not> terminal (ex_Status e)
        \<or> ex_ClaimGeneration e = ex_ClaimGeneration e' \<and> phase e \<le> phase e'
          \<and> (terminal (ex_Status e) \<longrightarrow> ex_Status e' = ex_Status e))"

lemma advances_refl [simp]: "advances e e"
  by (simp add: advances_def same_execution_def)

lemma advances_trans: "advances a b \<Longrightarrow> advances b c \<Longrightarrow> advances a c"
  unfolding advances_def same_execution_def by force

lemma advances_ack: "advances e (e\<lparr>ex_AcknowledgedAt := t\<rparr>)"
  by (simp add: advances_def same_execution_def phase_def)

lemma advances_status: "ex_ClaimGeneration e = 0 \<Longrightarrow> \<not> terminal (ex_Status e) \<Longrightarrow> advances e (e\<lparr>ex_Status := st\<rparr>)"
  by (simp add: advances_def same_execution_def phase_def)

lemma advances_claim: "ex_Status e = Emitted \<Longrightarrow> advances e (claim_row clk ms e)"
  by (simp add: advances_def same_execution_def claim_row_def)

lemma advances_renew: "advances e (e\<lparr>ex_LeaseUntil := l\<rparr>)"
  by (simp add: advances_def same_execution_def phase_def)

lemma advances_complete:
  "ex_Status e = InProgress \<Longrightarrow> terminal st \<Longrightarrow> advances e (e\<lparr>ex_Status := st, ex_LeaseUntil := None\<rparr>)"
  by (auto simp: advances_def same_execution_def phase_def)

lemma advances_requeue: "ex_Status e = InProgress \<Longrightarrow> 0 \<le> ex_ClaimGeneration e \<Longrightarrow> advances e (requeue_row e)"
  by (auto simp: advances_def same_execution_def phase_def requeue_row_def)

text \<open>Every execution of job \<open>j\<close> is still there and has moved forward, if at all.\<close>

definition progress :: "uuid \<Rightarrow> db \<Rightarrow> db \<Rightarrow> bool" where
  "progress j db db' \<longleftrightarrow>
     (\<forall>e \<in> set (t_executions db). ex_JobID e = j \<longrightarrow> (\<exists>e' \<in> set (t_executions db'). advances e e'))"

lemma progress_keep:
  "(\<And>e. e \<in> set (t_executions db) \<Longrightarrow> ex_JobID e = j \<Longrightarrow> e \<in> set (t_executions db')) \<Longrightarrow> progress j db db'"
  using advances_refl unfolding progress_def by blast

lemma progress_refl: "progress j db db"
  by (rule progress_keep)

lemma progress_same: "t_executions db' = t_executions db \<Longrightarrow> progress j db db'"
  by (rule progress_keep) simp

lemma progress_trans: "progress j a b \<Longrightarrow> progress j b c \<Longrightarrow> progress j a c"
  unfolding progress_def by (metis advances_def advances_trans same_execution_def)

lemma progress_append: "t_executions db' = t_executions db @ es \<Longrightarrow> progress j db db'"
  by (rule progress_keep) simp

lemma progress_upd:
  assumes "t_executions db' = upd_where P f (t_executions db)"
    and "\<And>e. e \<in> set (t_executions db) \<Longrightarrow> P e \<Longrightarrow> advances e (f e)"
  shows "progress j db db'"
  unfolding progress_def
proof (intro ballI impI)
  fix e assume "e \<in> set (t_executions db)"
  then show "\<exists>e' \<in> set (t_executions db'). advances e e'"
    using assms upd_where_mem [of e _ P f] upd_where_keep [of e _ P f] advances_refl by metis
qed

lemma execution_by_id:
  assumes "db_ok db" "e \<in> set (t_executions db)" "e' \<in> set (t_executions db)" "ex_ID e = ex_ID e'"
  shows "e = e'"
  using assms distinct_key_eq [of ex_ID "t_executions db"] by (auto simp: db_ok_def executions_ok_def col_def)

lemma row_exec_ok: "db_ok db \<Longrightarrow> e \<in> set (t_executions db) \<Longrightarrow> exec_ok e"
  by (simp add: db_ok_def executions_ok_def)

lemma in_order_limit: "e \<in> set (order_limit k n (filter P rows)) \<Longrightarrow> e \<in> set rows \<and> P e"
  using set_order_limit by fastforce

text \<open>The rows a batch statement picks by identifier are the ones its subquery selected.\<close>

lemma picked_by_id:
  assumes "db_ok db" "e \<in> set (t_executions db)"
    and "ex_ID e \<in> ex_ID ` set (order_limit k n (filter P (t_executions db)))"
  shows "P e"
  using assms by (auto dest!: in_order_limit dest: execution_by_id)

lemma queryInsertExecution_progress: "progress j db (snd (queryInsertExecution e db))"
  by (auto simp: queryInsertExecution_def progress_refl intro: progress_append)

lemma queryAckExecution_progress: "progress j db (snd (queryAckExecution clk i ns db))"
  unfolding queryAckExecution_def Let_def snd_conv
  by (rule progress_upd, simp) (auto intro: advances_ack)

lemma queryUpdateExecutionStatus_progress: "progress j db (snd (queryUpdateExecutionStatus st i db))"
  unfolding queryUpdateExecutionStatus_def Let_def snd_conv
  by (rule progress_upd, simp) (auto intro: advances_status)

lemma queryDequeueExecution_progress: "db_ok db \<Longrightarrow> progress j db (snd (queryDequeueExecution l clk ms db))"
proof (cases "order_limit ex_CreatedAt 1 (filter (\<lambda>e. ex_Status e = Emitted \<and> ex_ID e \<notin> l) (t_executions db))")
  case (Cons n ns)
  assume ok: "db_ok db"
  from Cons have n: "n \<in> set (t_executions db)" "ex_Status n = Emitted"
    using in_order_limit [of n] by (metis (lifting) list.set_intros(1))+
  have "advances e (claim_row clk ms e)" if "e \<in> set (t_executions db)" "ex_ID e = ex_ID n" for e
    using execution_by_id [OF ok that(1) n(1) that(2)] n(2) by (simp add: advances_claim)
  then show ?thesis
    by (intro progress_upd [where P = "\<lambda>e. ex_ID e = ex_ID n" and f = "claim_row clk ms"])
      (simp_all add: queryDequeueExecution_def Cons)
qed (simp add: queryDequeueExecution_def progress_refl)

lemma queryDequeueExecutions_progress: "db_ok db \<Longrightarrow> progress j db (snd (queryDequeueExecutions l clk n ms db))"
  unfolding queryDequeueExecutions_def Let_def snd_conv
  by (rule progress_upd, simp) (auto dest!: picked_by_id simp: advances_claim)

lemma queryClaimExecution_progress: "progress j db (snd (queryClaimExecution clk i ns ms db))"
  unfolding queryClaimExecution_def Let_def snd_conv
  by (rule progress_upd, simp) (auto intro: advances_claim)

lemma queryRenewExecutionClaim_progress: "progress j db (snd (queryRenewExecutionClaim clk i ns g ms db))"
  unfolding queryRenewExecutionClaim_def Let_def snd_conv
  by (rule progress_upd, simp) (auto intro: advances_renew)

lemma queryCompleteExecution_progress:
  "terminal st \<Longrightarrow> progress j db (snd (queryCompleteExecution clk i ns g st db))"
  unfolding queryCompleteExecution_def Let_def snd_conv
  by (rule progress_upd, simp) (auto simp: owned_row_def intro!: advances_complete)

lemma queryRequeueStaleExecutions_progress: "db_ok db \<Longrightarrow> progress j db (snd (queryRequeueStaleExecutions l clk n db))"
proof -
  assume ok: "db_ok db"
  let ?stale = "order_limit (\<lambda>e. (ex_LeaseUntil e, ex_ID e)) n
    (filter (\<lambda>e. stale_row clk e \<and> ex_ID e \<notin> l) (t_executions db))"
  have "advances e (requeue_row e)" if "e \<in> set (t_executions db)" "ex_ID e \<in> ex_ID ` set ?stale" for e
    using picked_by_id [OF ok that] row_exec_ok [OF ok that(1)]
    by (intro advances_requeue) (auto simp: stale_row_def exec_ok_def)
  then show ?thesis
    unfolding queryRequeueStaleExecutions_def Let_def snd_conv by (intro progress_upd, simp) blast
qed

lemma queryDeleteJob_progress: "i \<noteq> j \<Longrightarrow> progress j db (snd (queryDeleteJob i ns db))"
  by (rule progress_keep) (auto simp: queryDeleteJob_def Let_def)

section \<open>Operations that leave the executions alone\<close>

abbreviation same_executions :: "db \<Rightarrow> db \<Rightarrow> bool" where
  "same_executions a b \<equiv> t_executions b = t_executions a"

interpretation frame: statement_relation same_executions
  by unfold_locales auto

lemma queryUpsertTag_frame: "same_executions db (snd (queryUpsertTag i t db))"
  by (simp add: queryUpsertTag_def)

lemma query_frames:
  "same_executions db (snd (queryInsertSchedule s db))" "same_executions db (snd (queryInsertJob j db))"
  "same_executions db (snd (queryUpdateJob j db))" "same_executions db (snd (queryUpdateJobConfiguration j db))"
  "same_executions db (queryUpdateSchedule s db)" "same_executions db (queryDeleteTags i db)"
  "same_executions db (snd (queryInsertAPIKey k db))" "same_executions db (snd (queryGetOrCreateTailnetKey k db))"
  "same_executions db (queryUpdateLastUsedAt clk ids db)" "same_executions db (snd (queryDeleteKey i ns db))"
  "same_executions db (snd (queryInsertAdminSession now se db))"
  "same_executions db (snd (queryRefreshAdminSession seen expires h db))"
  "same_executions db (queryDeleteAdminSession h db)" "same_executions db (snd (queryInsertDeliveryAttempt a db))"
  "same_executions db (snd (upsert_view clk newID ns actor name query db))"
  "same_executions db (snd (insert_batch clk newID ns actor action items db))"
  "same_executions db (set_enabled clk i ns b db)"
  by (simp_all add: queryInsertSchedule_def queryInsertJob_def queryUpdateJob_def queryUpdateJobConfiguration_def
    queryUpdateSchedule_def queryDeleteTags_def queryInsertAPIKey_def queryGetOrCreateTailnetKey_def Let_def
    queryUpdateLastUsedAt_def queryDeleteKey_def queryInsertAdminSession_def queryRefreshAdminSession_def
    queryDeleteAdminSession_def queryInsertDeliveryAttempt_def upsert_view_def insert_batch_def set_enabled_def)

lemma CreateJobAggregate_frame: "same_executions db (snd (CreateJobAggregate ev j s ts db))"
  unfolding CreateJobAggregate_def
  by (intro frame.run_stmt frame.in_tx frame.seq_stmt frame.upsert_tags) (simp_all add: query_frames queryUpsertTag_frame)

lemma UpdateJobAggregate_frame: "same_executions db (snd (UpdateJobAggregate ev j s ts db))"
  by (rule frame.UpdateJobAggregate) (simp_all add: query_frames queryUpsertTag_frame)

lemma GetOrCreateTailnetKey_frame: "same_executions db (snd (GetOrCreateTailnetKey ev m f2 m2 k db))"
  by (rule frame.GetOrCreateTailnetKey) (simp add: query_frames)

lemma SaveView_frame: "same_executions db (snd (SaveView ev i ns ac nm q db))"
  unfolding SaveView_def by (intro frame.run_stmt frame.in_tx frame.seq_stmt) (simp_all add: query_frames)

lemma DeleteView_frame: "same_executions db (snd (DeleteView ev ns ac i db))"
  unfolding DeleteView_def snd_affected_or by (intro frame.run_stmt frame.ok_stmt) (simp add: Let_def)

lemma PreviewBulk_frame: "same_executions db (snd (PreviewBulk ev i ns ac act ids db))"
  by (rule frame.PreviewBulk) (simp_all add: query_frames)

lemma ConfirmBulk_frame: "same_executions db (snd (ConfirmBulk ev se ue ns ac i db))"
  by (rule frame.ConfirmBulk) (simp_all add: query_frames)

lemma UpsertTags_frame: "same_executions db (snd (UpsertTags ev i ts db))"
  unfolding UpsertTags_def by (intro frame.run_stmt frame.in_tx frame.upsert_tags) (simp add: queryUpsertTag_frame)

lemma InsertFirstAPIKey_frame: "same_executions db (snd (InsertFirstAPIKey ev k db))"
  unfolding InsertFirstAPIKey_def by (intro frame.run_stmt frame.in_tx) (simp add: query_frames)

lemma UpdateLastUsedAt_frame: "same_executions db (snd (UpdateLastUsedAt ev ids db))"
  by (simp add: UpdateLastUsedAt_def run_stmt_def query_frames split: fault.split)

lemmas method_frames = CreateJobAggregate_frame UpdateJobAggregate_frame GetOrCreateTailnetKey_frame SaveView_frame
  DeleteView_frame PreviewBulk_frame ConfirmBulk_frame UpsertTags_frame InsertFirstAPIKey_frame UpdateLastUsedAt_frame

section \<open>Progress of every operation\<close>

abbreviation keeps_progress :: "uuid \<Rightarrow> db \<Rightarrow> db \<Rightarrow> bool" where
  "keeps_progress j a b \<equiv> (db_ok a \<longrightarrow> db_ok b \<and> progress j a b)"

interpretation prog: statement_relation "keeps_progress j" for j
  by unfold_locales (auto simp: progress_refl intro: progress_trans)

lemmas query_progress = queryInsertExecution_progress queryAckExecution_progress queryUpdateExecutionStatus_progress
  queryDequeueExecution_progress queryDequeueExecutions_progress queryClaimExecution_progress
  queryRenewExecutionClaim_progress queryRequeueStaleExecutions_progress queryDeleteJob_progress

fun deletes :: "uuid \<Rightarrow> store_op \<Rightarrow> bool" where
  "deletes j (OpDeleteJob i ns) = (i = j)"
| "deletes j _ = False"

lemma CompleteExecution_progress: "db_ok db \<Longrightarrow> progress j db (snd (CompleteExecution ev e st db))"
  by (auto simp: CompleteExecution_def run_stmt_def ok_stmt_def queryCompleteExecution_progress progress_refl
    split: fault.split)

lemma DequeueExecutions_progress: "db_ok db \<Longrightarrow> progress j db (snd (DequeueExecutions s ev n db))"
  by (simp add: DequeueExecutions_def run_stmt_def ok_stmt_def query_progress progress_refl split: fault.split)

lemma exec_op_progress: "db_ok db \<Longrightarrow> \<not> deletes j op \<Longrightarrow> progress j db (exec_op (ev, op) db)"
  by (cases op) (auto simp: method_frames progress_same method_defs snd_SetJobEnabled query_frames
      run_stmt_def ok_stmt_def query_progress CompleteExecution_progress DequeueExecutions_progress progress_refl
      split: fault.split)

text \<open>The machine that skips the deletion of one job.\<close>

definition step_without_delete :: "uuid \<Rightarrow> dbenv \<times> store_op \<Rightarrow> db \<Rightarrow> db" where
  "step_without_delete j x db = (if deletes j (snd x) then db else exec_op x db)"

interpretation history: monotone_machine "step_without_delete j" db_ok "progress j" for j
  by unfold_locales
    (auto simp: step_without_delete_def exec_op_ok exec_op_progress progress_refl
      intro: progress_trans split: prod.splits)

lemma fold_without_delete:
  "\<forall>x \<in> set ops. \<not> deletes j (snd x) \<Longrightarrow> fold (step_without_delete j) ops db = fold exec_op ops db"
  by (induction ops arbitrary: db) (auto simp: step_without_delete_def)

lemma history_progress:
  "db_ok db \<Longrightarrow> \<forall>x \<in> set ops. \<not> deletes j (snd x) \<Longrightarrow> progress j db (fold exec_op ops db)"
  using history.run_rel [of db j ops] by (simp add: fold_without_delete)

end
