(* ===== verification/ClaimProtocol.thy ===== *)
theory ClaimProtocol
  imports StoreMachine
begin

text \<open>
  The claim protocol on execution rows: what a claim, a renewal, a completion and a requeue do to
  a row, and what their combination guarantees along every history of the store. The properties
  of the store are stated here.
\<close>

section \<open>One row\<close>

lemma count_where_upto_1: "count_where P rows = length (filter P rows)"
  by (simp add: count_where_def)

lemma owned_row_unique:
  assumes "db_ok db"
  shows "count_where (owned_row clk i ns g) (t_executions db) = (if \<exists>r \<in> set (t_executions db). owned_row clk i ns g r then 1 else 0)"
proof -
  have "count_where (owned_row clk i ns g) (t_executions db) \<le> 1"
    using assms by (intro count_where_le_1 [where k = ex_ID and i = i])
      (auto simp: db_ok_def executions_ok_def col_def owned_row_def)
  moreover have "count_where (owned_row clk i ns g) (t_executions db) = 0
      \<longleftrightarrow> \<not> (\<exists>r \<in> set (t_executions db). owned_row clk i ns g r)"
    by (simp add: count_where_0)
  ultimately show ?thesis by auto
qed

lemma upd_where_cong_on:
  "(\<And>r. r \<in> set rows \<Longrightarrow> P r = Q r) \<Longrightarrow> upd_where P f rows = upd_where Q f rows"
  by (induction rows) auto

lemma upd_owned_by_id:
  assumes "db_ok db" "r \<in> set (t_executions db)" "owned_row clk i ns g r"
  shows "upd_where (owned_row clk i ns g) f (t_executions db) = upd_where (\<lambda>e. ex_ID e = i) f (t_executions db)"
proof (rule upd_where_cong_on)
  fix e assume e: "e \<in> set (t_executions db)"
  have "ex_ID r = i" using assms(3) by (simp add: owned_row_def)
  then show "owned_row clk i ns g e = (ex_ID e = i)"
    using execution_by_id [OF assms(1,2) e] assms(3) by (metis owned_row_def)
qed

text \<open>A claim that is no longer the newest, or no longer in progress, can never own a row again.\<close>

definition superseded :: "uuid \<Rightarrow> int \<Rightarrow> Execution \<Rightarrow> bool" where
  "superseded i g r \<longleftrightarrow> ex_ID r = i
     \<and> (g < ex_ClaimGeneration r \<or> ex_ClaimGeneration r = g \<and> 0 < g \<and> ex_Status r \<noteq> InProgress)"

lemma superseded_not_owned: "superseded i g r \<Longrightarrow> \<not> owned_row clk i ns g r"
  by (auto simp: superseded_def owned_row_def)

lemma phase_InProgress: "0 < ex_ClaimGeneration e \<Longrightarrow> phase e = 0 \<longleftrightarrow> ex_Status e = InProgress"
  by (cases "ex_Status e") (auto simp: phase_def)

lemma superseded_advances: "superseded i g r \<Longrightarrow> advances r r' \<Longrightarrow> superseded i g r'"
proof -
  assume s: "superseded i g r" and a: "advances r r'"
  from a consider "ex_ClaimGeneration r < ex_ClaimGeneration r'"
    | "ex_ClaimGeneration r = ex_ClaimGeneration r'" "phase r \<le> phase r'"
    by (auto simp: advances_def)
  then show ?thesis
  proof cases
    case 1
    with s a show ?thesis by (auto simp: superseded_def advances_def same_execution_def)
  next
    case 2
    with s a show ?thesis
      using phase_InProgress [of r] phase_InProgress [of r']
      by (auto simp: superseded_def advances_def same_execution_def)
  qed
qed

lemma history_execution:
  assumes "db_ok db" "r \<in> set (t_executions db)" "\<forall>x \<in> set ops. \<not> deletes (ex_JobID r) (snd x)"
  obtains r' where "r' \<in> set (t_executions (fold exec_op ops db))" "advances r r'"
  using history_progress [OF assms(1,3)] assms(2) by (auto simp: progress_def)

lemma not_owned_result:
  assumes "db_ok db" "r \<in> set (t_executions db)" "superseded (ex_ID e) (ex_ClaimGeneration e) r"
  shows "\<not> (\<exists>r \<in> set (t_executions db). owned_row clk (ex_ID e) ns (ex_ClaimGeneration e) r)"
  using assms execution_by_id [OF assms(1,2)] superseded_not_owned
  by (metis owned_row_def superseded_def)

lemma upd_where_not_owned:
  "\<not> (\<exists>r \<in> set rows. P r) \<Longrightarrow> upd_where P f rows = rows"
  by (rule upd_where_none) blast

lemma RenewExecutionClaim_not_owned:
  assumes "db_ok db" "\<not> (\<exists>r \<in> set (t_executions db). owned_row (de_clk ev) (ex_ID e) (ex_Namespace e) (ex_ClaimGeneration e) r)"
  shows "RenewExecutionClaim s ev e db =
    (Inl (case de_fault ev of NoFault \<Rightarrow> ErrExecutionClaimLost | FaultBefore er \<Rightarrow> er | FaultAfter er \<Rightarrow> er), db)"
  using assms(2) owned_row_unique [OF assms(1)]
  by (simp add: RenewExecutionClaim_def claimMutationResult_def run_stmt_def ok_stmt_def
    queryRenewExecutionClaim_def Let_def upd_where_not_owned split: fault.split)

lemma CompleteExecution_not_owned:
  assumes "db_ok db" "\<not> (\<exists>r \<in> set (t_executions db). owned_row (de_clk ev) (ex_ID e) (ex_Namespace e) (ex_ClaimGeneration e) r)"
  shows "\<exists>er. CompleteExecution ev e st db = (Inl er, db)"
  using assms(2) owned_row_unique [OF assms(1)]
  by (simp add: CompleteExecution_def claimMutationResult_def run_stmt_def ok_stmt_def
    queryCompleteExecution_def Let_def upd_where_not_owned split: fault.split)

section \<open>Sample data\<close>

text \<open>A small database for the witnesses: one job with one claimed and one pending execution.\<close>

definition sample_schedule :: Schedule where
  "sample_schedule = \<lparr>sch_ID = 1, sch_CronExpression = ''* * * * *'', sch_Timezone = ''UTC'',
     sch_CreatedAt = 5, sch_UpdatedAt = 5\<rparr>"

definition sample_job :: Job where
  "sample_job = \<lparr>job_ID = 2, job_Namespace = ''acme'', job_Name = ''nightly'', job_Enabled = True, job_ScheduleID = 1,
     job_Delivery = \<lparr>dc_Type = Webhook, dc_WebhookURL = ''https://example.com'', dc_Secret = ''s'', dc_Timeout = 30 * Second\<rparr>,
     job_Analytics = \<lparr>an_Enabled = False, an_RetentionSeconds = 0\<rparr>, job_CreatedAt = 5, job_UpdatedAt = 5\<rparr>"

definition sample_execution :: Execution where
  "sample_execution = \<lparr>ex_ID = 3, ex_JobID = 2, ex_Namespace = ''acme'', ex_TriggerType = Scheduled,
     ex_ScheduledAt = 60, ex_FiredAt = 61, ex_Status = InProgress, ex_AcknowledgedAt = None, ex_CreatedAt = 61,
     ex_ClaimedAt = Some 70, ex_ClaimGeneration = 1, ex_LeaseUntil = Some 170\<rparr>"

definition sample_pending :: Execution where
  "sample_pending = sample_execution\<lparr>ex_ID := 4, ex_ScheduledAt := 120, ex_Status := Emitted,
     ex_ClaimedAt := None, ex_ClaimGeneration := 0, ex_LeaseUntil := None, ex_CreatedAt := 121\<rparr>"

definition sample_db :: db where
  "sample_db = empty_db\<lparr>t_schedules := [sample_schedule], t_jobs := [sample_job],
     t_executions := [sample_execution, sample_pending]\<rparr>"

definition calm :: "time \<Rightarrow> dbenv" where
  "calm clk = \<lparr>de_clk = clk, de_locked = {}, de_fault = NoFault\<rparr>"

lemmas sample_defs = sample_schedule_def sample_job_def sample_execution_def sample_pending_def sample_db_def
  calm_def empty_db_def

lemma sample_db_ok: "db_ok sample_db"
  by (simp add: sample_defs db_ok_def ok_defs exec_ok_def)

section \<open>Properties\<close>

text \<open>
  C13: along every history of the store, with any interleaving, faults, locks and clock readings,
  every table keeps its invariant: keys are unique, references resolve, at most one execution
  exists per job and scheduled time, and the lease columns agree with the status.
\<close>

theorem store_invariant: "db_ok (fold exec_op ops empty_db)"
  by (rule store.run_inv [OF db_ok_empty])

text \<open>
  C18: a terminal status is final. Once an execution is delivered or failed, no history that keeps
  its job can change the status or the claim generation.
\<close>

theorem terminal_absorbing:
  assumes "db_ok db" "r \<in> set (t_executions db)" "terminal (ex_Status r)"
    and "\<forall>x \<in> set ops. \<not> deletes (ex_JobID r) (snd x)"
  shows "\<exists>r' \<in> set (t_executions (fold exec_op ops db)).
    ex_ID r' = ex_ID r \<and> ex_Status r' = ex_Status r \<and> ex_ClaimGeneration r' = ex_ClaimGeneration r"
proof -
  obtain r' where "r' \<in> set (t_executions (fold exec_op ops db))" "advances r r'"
    using history_execution [OF assms(1,2,4)] .
  then show ?thesis using assms(3) by (auto simp: advances_def same_execution_def)
qed

theorem terminal_absorbing_witness:
  "\<exists>r' \<in> set (t_executions (fold exec_op
      [(calm 80, OpCompleteExecution sample_execution Failed), (calm 999, OpRequeueExpiredExecutions 10)]
      (fold exec_op [(calm 80, OpCompleteExecution sample_execution Delivered)] sample_db))).
    ex_ID r' = 3 \<and> ex_Status r' = Delivered \<and> ex_ClaimGeneration r' = 1"
proof -
  let ?db = "fold exec_op [(calm 80, OpCompleteExecution sample_execution Delivered)] sample_db"
  let ?r = "sample_execution\<lparr>ex_Status := Delivered, ex_LeaseUntil := None\<rparr>"
  have ok: "db_ok ?db" by (rule store.run_inv [OF sample_db_ok])
  have r: "?r \<in> set (t_executions ?db)"
    by (simp add: sample_defs CompleteExecution_def run_stmt_def ok_stmt_def queryCompleteExecution_def
      claimMutationResult_def Let_def count_where_def owned_row_def)
  from terminal_absorbing [OF ok r, of "[(calm 80, OpCompleteExecution sample_execution Failed),
      (calm 999, OpRequeueExpiredExecutions 10)]"]
  show ?thesis by (simp add: sample_execution_def)
qed

text \<open>
  C17: fencing. As soon as a claim is superseded (the row has a newer generation, or the claim's own
  generation left the in-progress status), then after every later history that keeps the job both a
  renewal and a completion under that claim fail and change nothing, whatever its clock says.
\<close>

theorem stale_claim_fenced:
  assumes "db_ok db" "r \<in> set (t_executions db)" "superseded (ex_ID claim) (ex_ClaimGeneration claim) r"
    and "\<forall>x \<in> set ops. \<not> deletes (ex_JobID r) (snd x)"
    and "db' = fold exec_op ops db"
  shows "(\<exists>er. RenewExecutionClaim s ev claim db' = (Inl er, db'))
    \<and> (\<exists>er. CompleteExecution ev claim st db' = (Inl er, db'))"
proof -
  have ok: "db_ok db'" using assms(1,5) by (simp add: store.run_inv)
  obtain r' where r': "r' \<in> set (t_executions db')" "advances r r'"
    using history_execution [OF assms(1,2,4)] assms(5) by metis
  have "superseded (ex_ID claim) (ex_ClaimGeneration claim) r'"
    by (rule superseded_advances [OF assms(3) r'(2)])
  note lost = not_owned_result [OF ok r'(1) this, where clk = "de_clk ev" and ns = "ex_Namespace claim"]
  show ?thesis
    using RenewExecutionClaim_not_owned [OF ok lost] CompleteExecution_not_owned [OF ok lost] by simp
qed

theorem stale_claim_fenced_witness:
  "\<exists>er. CompleteExecution (calm 201) sample_execution Delivered
      (fold exec_op [(calm 200, OpRequeueExpiredExecutions 10)] sample_db)
    = (Inl er, fold exec_op [(calm 200, OpRequeueExpiredExecutions 10)] sample_db)"
proof -
  let ?db = "fold exec_op [(calm 200, OpRequeueExpiredExecutions 10)] sample_db"
  have ok: "db_ok ?db" by (rule store.run_inv [OF sample_db_ok])
  have r: "requeue_row sample_execution \<in> set (t_executions ?db)"
    by (simp add: sample_defs RequeueExpiredExecutions_def run_stmt_def ok_stmt_def queryRequeueStaleExecutions_def
      Let_def stale_row_def order_limit_def)
  have s: "superseded (ex_ID sample_execution) (ex_ClaimGeneration sample_execution) (requeue_row sample_execution)"
    by (simp add: sample_execution_def superseded_def requeue_row_def)
  show ?thesis using stale_claim_fenced [OF ok r s, of "[]" _ _ "calm 201" Delivered] by simp
qed

text \<open>
  completion. Without a fault, completing a claim succeeds exactly when the row still belongs to it
  (same identifier, namespace and generation, in progress, lease not over); then exactly that row
  gets the terminal status and loses its lease. Otherwise the call reports the lost claim and
  nothing changes.
\<close>

theorem CompleteExecution_correct:
  assumes "db_ok db" "de_fault ev = NoFault" "terminal st"
  shows "CompleteExecution ev e st db =
    (if \<exists>r \<in> set (t_executions db). owned_row (de_clk ev) (ex_ID e) (ex_Namespace e) (ex_ClaimGeneration e) r
     then (Inr (), db\<lparr>t_executions := upd_where (\<lambda>r. ex_ID r = ex_ID e)
             (\<lambda>r. r\<lparr>ex_Status := st, ex_LeaseUntil := None\<rparr>) (t_executions db)\<rparr>)
     else (Inl ErrExecutionClaimLost, db))"
proof (cases "\<exists>r \<in> set (t_executions db). owned_row (de_clk ev) (ex_ID e) (ex_Namespace e) (ex_ClaimGeneration e) r")
  case True
  then obtain r where "r \<in> set (t_executions db)" "owned_row (de_clk ev) (ex_ID e) (ex_Namespace e) (ex_ClaimGeneration e) r"
    by blast
  note upd = upd_owned_by_id [OF assms(1) this]
  from True show ?thesis using assms(2,3) owned_row_unique [OF assms(1)] upd
    by (auto simp: CompleteExecution_def claimMutationResult_def run_stmt_def ok_stmt_def
      queryCompleteExecution_def Let_def)
next
  case False
  then show ?thesis using assms(2,3) owned_row_unique [OF assms(1)]
    by (auto simp: CompleteExecution_def claimMutationResult_def run_stmt_def ok_stmt_def
      queryCompleteExecution_def Let_def upd_where_not_owned)
qed

theorem CompleteExecution_correct_witness:
  "fst (CompleteExecution (calm 169) sample_execution Delivered sample_db) = Inr ()
   \<and> CompleteExecution (calm 170) sample_execution Delivered sample_db = (Inl ErrExecutionClaimLost, sample_db)"
  using CompleteExecution_correct [OF sample_db_ok, of "calm 169" Delivered sample_execution]
    CompleteExecution_correct [OF sample_db_ok, of "calm 170" Delivered sample_execution]
  by (simp add: calm_def sample_db_def owned_row_def) (simp add: sample_defs)

lemma order_limit_ConsD: "order_limit k n (filter P rows) = r # rs \<Longrightarrow> r \<in> set rows \<and> P r"
  using in_order_limit [of r k n P rows] by simp

text \<open>The claims the store can grant: by identifier, one at a time, or a batch.\<close>

definition claims :: "Store \<Rightarrow> dbenv \<Rightarrow> db \<Rightarrow> Execution \<Rightarrow> db \<Rightarrow> bool" where
  "claims s ev db c db' \<longleftrightarrow>
     (\<exists>i ns. ClaimExecution s ev i ns db = (Inr (Some c), db'))
     \<or> DequeueExecution s ev db = (Inr (Some c), db')
     \<or> (\<exists>n cs. DequeueExecutions s ev n db = (Inr cs, db') \<and> c \<in> set cs)"

lemma run_stmt_Inr: "run_stmt f q db = (Inr x, db') \<longleftrightarrow> f = NoFault \<and> q db = (Inr x, db')"
  by (auto simp: run_stmt_def split: fault.split)

lemma claimsD:
  assumes "claims s ev db c db'"
  obtains r where "r \<in> set (t_executions db)" "ex_Status r = Emitted"
    "c = claim_row (de_clk ev) (lease_ms s) r" "c \<in> set (t_executions db')"
proof -
  let ?f = "claim_row (de_clk ev) (lease_ms s)"
  consider (one) i ns where "ClaimExecution s ev i ns db = (Inr (Some c), db')"
    | (oldest) "DequeueExecution s ev db = (Inr (Some c), db')"
    | (batch) n cs where "DequeueExecutions s ev n db = (Inr cs, db')" "c \<in> set cs"
    using assms unfolding claims_def by blast
  then show ?thesis
  proof cases
    case one
    then obtain r where "select_row (\<lambda>e. ex_ID e = i \<and> ex_Namespace e = ns \<and> ex_Status e = Emitted) (t_executions db) = Some r"
      "c = ?f r" "t_executions db' = upd_where (\<lambda>e. ex_ID e = i \<and> ex_Namespace e = ns \<and> ex_Status e = Emitted) ?f (t_executions db)"
      by (auto simp: ClaimExecution_def run_stmt_Inr ok_stmt_def queryClaimExecution_def Let_def)
    then show ?thesis using that [of r] by (auto dest!: select_row_SomeD simp: upd_where_mem)
  next
    case oldest
    then obtain r rs where r: "order_limit ex_CreatedAt 1 (filter (\<lambda>e. ex_Status e = Emitted \<and> ex_ID e \<notin> de_locked ev) (t_executions db)) = r # rs"
      "c = ?f r" "t_executions db' = upd_where (\<lambda>e. ex_ID e = ex_ID r) ?f (t_executions db)"
      by (auto simp: DequeueExecution_def run_stmt_Inr ok_stmt_def queryDequeueExecution_def split: list.splits)
    then have "r \<in> set (t_executions db) \<and> ex_Status r = Emitted \<and> ex_ID r \<notin> de_locked ev"
      using order_limit_ConsD by fast
    with r that [of r] show ?thesis by (auto simp: upd_where_mem)
  next
    case batch
    let ?next = "order_limit (\<lambda>e. (ex_CreatedAt e, ex_ID e)) n (filter (\<lambda>e. ex_Status e = Emitted \<and> ex_ID e \<notin> de_locked ev) (t_executions db))"
    have "cs = map ?f ?next"
        and rows: "t_executions db' = upd_where (\<lambda>e. ex_ID e \<in> ex_ID ` set ?next) ?f (t_executions db)"
      using batch by (auto simp: DequeueExecutions_def run_stmt_Inr ok_stmt_def queryDequeueExecutions_def Let_def split: if_splits)
    with batch(2) obtain r where r: "r \<in> set ?next" "c = ?f r" by auto
    from in_order_limit [OF r(1)] have "r \<in> set (t_executions db)" "ex_Status r = Emitted" by simp_all
    moreover have "?f r \<in> set (t_executions db')"
      unfolding rows by (rule upd_where_mem) (use r(1) calculation in auto)
    ultimately show ?thesis using r(2) that by blast
  qed
qed

lemma claims_ok: "claims s ev db c db' \<Longrightarrow> db_ok db \<Longrightarrow> db_ok db'"
  using exec_op_ok [of db "(ev, OpClaimExecution s i ns)" for i ns]
    exec_op_ok [of db "(ev, OpDequeueExecution s)"] exec_op_ok [of db "(ev, OpDequeueExecutions s n)" for n]
  unfolding claims_def by (metis exec_op.simps(10-12) snd_conv)

text \<open>
  C15: claims exclude each other. If a claim on an execution is granted, and after any history that
  keeps the job another claim on the same execution is granted, then the second one has a larger
  generation and at that moment the first one was already superseded.
\<close>

theorem claims_exclusive:
  assumes "db_ok db" "claims s ev db c db1"
    and "\<forall>x \<in> set ops. \<not> deletes (ex_JobID c) (snd x)"
    and "claims s' ev' (fold exec_op ops db1) c' db2" "ex_ID c' = ex_ID c"
  shows "ex_ClaimGeneration c < ex_ClaimGeneration c'
    \<and> (\<exists>r \<in> set (t_executions (fold exec_op ops db1)). superseded (ex_ID c) (ex_ClaimGeneration c) r)"
proof -
  have ok1: "db_ok db1" by (rule claims_ok [OF assms(2,1)])
  obtain r0 where r0: "r0 \<in> set (t_executions db)" "c = claim_row (de_clk ev) (lease_ms s) r0" "c \<in> set (t_executions db1)"
    using claimsD [OF assms(2)] by metis
  have gen: "0 < ex_ClaimGeneration c" using row_exec_ok [OF assms(1) r0(1)] r0(2) by (simp add: exec_ok_def)
  obtain r where r: "r \<in> set (t_executions (fold exec_op ops db1))" "advances c r"
    using history_execution [OF ok1 r0(3) assms(3)] .
  obtain r2 where r2: "r2 \<in> set (t_executions (fold exec_op ops db1))" "ex_Status r2 = Emitted"
      "c' = claim_row (de_clk ev') (lease_ms s') r2"
    using claimsD [OF assms(4)] by metis
  have "ex_ID r2 = ex_ID r" using r2(3) r(2) assms(5) by (simp add: advances_def same_execution_def)
  then have "r2 = r" using execution_by_id [OF store.run_inv [OF ok1] r2(1) r(1)] by simp
  with r r2 gen have "ex_ClaimGeneration c < ex_ClaimGeneration c'" "superseded (ex_ID c) (ex_ClaimGeneration c) r"
    by (auto simp: superseded_def advances_def same_execution_def)
  with r(1) show ?thesis by blast
qed

theorem claims_exclusive_witness:
  "let s = Store_New 0; c = claim_row 200 (lease_ms s) sample_pending;
       db1 = snd (DequeueExecution s (calm 200) sample_db);
       ops = [(calm (10 ^ 15), OpRequeueExpiredExecutions 10)];
       c' = claim_row (10 ^ 15) (lease_ms s) (requeue_row c)
   in ex_ClaimGeneration c < ex_ClaimGeneration c'"
proof -
  let ?s = "Store_New 0" and ?c = "claim_row 200 (lease_ms (Store_New 0)) sample_pending"
  let ?db1 = "snd (DequeueExecution ?s (calm 200) sample_db)"
  let ?ops = "[(calm (10 ^ 15), OpRequeueExpiredExecutions 10)]"
  let ?c' = "claim_row (10 ^ 15) (lease_ms ?s) (requeue_row ?c)"
  note evals = claims_def sample_defs run_stmt_def ok_stmt_def DequeueExecution_def queryDequeueExecution_def
    order_limit_def claim_row_def requeue_row_def lease_ms_def Store_New_def go_div_def DefaultExecutionLease_def
    ClaimExecution_def queryClaimExecution_def Let_def select_row_def RequeueExpiredExecutions_def
    queryRequeueStaleExecutions_def stale_row_def
  have 1: "claims ?s (calm 200) sample_db ?c ?db1" by (simp add: evals)
  have "ClaimExecution ?s (calm (10 ^ 15)) 4 ''acme'' (fold exec_op ?ops ?db1)
      = (Inr (Some ?c'), snd (ClaimExecution ?s (calm (10 ^ 15)) 4 ''acme'' (fold exec_op ?ops ?db1)))"
    by (simp add: evals)
  then have 2: "claims ?s (calm (10 ^ 15)) (fold exec_op ?ops ?db1) ?c'
      (snd (ClaimExecution ?s (calm (10 ^ 15)) 4 ''acme'' (fold exec_op ?ops ?db1)))"
    unfolding claims_def by blast
  from claims_exclusive [OF sample_db_ok 1 _ 2] show ?thesis by (simp add: Let_def)
qed

lemma order_limit_map_ids: "distinct (map ex_ID rows) \<Longrightarrow> distinct (map ex_ID (order_limit k n (filter P rows)))"
proof -
  assume "distinct (map ex_ID rows)"
  then have d: "distinct rows" "inj_on ex_ID (set rows)" by (simp_all add: distinct_map)
  have "set (order_limit k n (filter P rows)) \<subseteq> set rows" using in_order_limit [of _ k n P rows] by blast
  with d show ?thesis by (simp add: distinct_map distinct_order_limit inj_on_subset)
qed

lemma length_order_limit_exact: "0 \<le> n \<Longrightarrow> length (order_limit k n rows) = min (nat n) (length rows)"
  by (simp add: order_limit_def)

lemma DequeueExecutions_facts:
  fixes db :: db and ev :: dbenv and s :: Store
  defines "avail \<equiv> filter (\<lambda>e. ex_Status e = Emitted \<and> ex_ID e \<notin> de_locked ev) (t_executions db)"
    and "age \<equiv> (\<lambda>e :: Execution. (ex_CreatedAt e, ex_ID e))"
  assumes ok: "db_ok db" and limit: "1 \<le> limit" and call: "DequeueExecutions s ev limit db = (Inr cs, db')"
  shows "length cs = min (nat limit) (length avail)"
    and "distinct (map ex_ID cs)"
    and "sorted (map age cs)"
    and "\<forall>c \<in> set cs. c \<in> set (t_executions db') \<and> (\<exists>r \<in> set avail. c = claim_row (de_clk ev) (lease_ms s) r)"
    and "\<forall>r \<in> set avail. ex_ID r \<notin> ex_ID ` set cs \<longrightarrow> r \<in> set (t_executions db') \<and> (\<forall>c \<in> set cs. age c \<le> age r)"
proof -
  let ?next = "order_limit age limit avail" and ?f = "claim_row (de_clk ev) (lease_ms s)"
  from call limit have cs: "cs = map ?f ?next"
      and rows: "t_executions db' = upd_where (\<lambda>e. ex_ID e \<in> ex_ID ` set ?next) ?f (t_executions db)"
    by (auto simp: DequeueExecutions_def run_stmt_Inr ok_stmt_def queryDequeueExecutions_def Let_def avail_def age_def)
  have age: "age (?f r) = age r" for r by (simp add: age_def)
  have ids: "distinct (map ex_ID (t_executions db))" using ok by (simp add: db_ok_def executions_ok_def col_def)
  have mem: "r \<in> set avail" if "r \<in> set ?next" for r using subsetD [OF set_order_limit that] .
  show "length cs = min (nat limit) (length avail)"
    using limit by (simp add: cs length_order_limit_exact)
  show "distinct (map ex_ID cs)"
    using order_limit_map_ids [OF ids] by (simp add: cs comp_def avail_def)
  show "sorted (map age cs)"
    using sorted_order_limit [of age limit avail] by (simp add: cs comp_def age)
  show "\<forall>c \<in> set cs. c \<in> set (t_executions db') \<and> (\<exists>r \<in> set avail. c = ?f r)"
  proof
    fix c assume "c \<in> set cs"
    then obtain r where r: "r \<in> set ?next" "c = ?f r" by (auto simp: cs)
    have "r \<in> set (t_executions db)" using mem [OF r(1)] by (simp add: avail_def)
    then have "c \<in> set (t_executions db')"
      unfolding rows r(2) by (rule upd_where_mem) (use r(1) in auto)
    with mem [OF r(1)] r(2) show "c \<in> set (t_executions db') \<and> (\<exists>r \<in> set avail. c = ?f r)" by blast
  qed
  show "\<forall>r \<in> set avail. ex_ID r \<notin> ex_ID ` set cs \<longrightarrow> r \<in> set (t_executions db') \<and> (\<forall>c \<in> set cs. age c \<le> age r)"
  proof (intro ballI impI)
    fix r assume r: "r \<in> set avail" "ex_ID r \<notin> ex_ID ` set cs"
    then have out: "ex_ID r \<notin> ex_ID ` set ?next" by (simp add: cs image_image)
    have "r \<in> set (t_executions db')"
      unfolding rows using r(1) out by (intro upd_where_keep) (auto simp: avail_def)
    moreover have "age c \<le> age r" if "c \<in> set cs" for c
    proof -
      from that obtain x where "x \<in> set ?next" "c = ?f x" by (auto simp: cs)
      moreover have "r \<notin> set ?next" using out by blast
      ultimately show ?thesis using order_limit_smallest [OF r(1)] by (simp add: age)
    qed
    ultimately show "r \<in> set (t_executions db') \<and> (\<forall>c \<in> set cs. age c \<le> age r)" by blast
  qed
qed

text \<open>
  the dispatcher's batch claim. Without a fault a positive limit claims the oldest available
  executions (emitted and not locked by another transaction), as many as the limit allows, in the
  order of creation, each once; each claimed row is stored in progress with the next generation
  and a lease from the database clock, and every other available row is left as it was and is
  not older than any claimed one.
\<close>

theorem DequeueExecutions_correct:
  assumes "db_ok db" "1 \<le> limit" "DequeueExecutions s ev limit db = (Inr cs, db')"
  shows "let avail = filter (\<lambda>e. ex_Status e = Emitted \<and> ex_ID e \<notin> de_locked ev) (t_executions db);
             age = (\<lambda>e. (ex_CreatedAt e, ex_ID e))
         in length cs = min (nat limit) (length avail) \<and> distinct (map ex_ID cs) \<and> sorted (map age cs)
            \<and> (\<forall>c \<in> set cs. c \<in> set (t_executions db') \<and> (\<exists>r \<in> set avail. c = claim_row (de_clk ev) (lease_ms s) r))
            \<and> (\<forall>r \<in> set avail. ex_ID r \<notin> ex_ID ` set cs \<longrightarrow> r \<in> set (t_executions db') \<and> (\<forall>c \<in> set cs. age c \<le> age r))"
  unfolding Let_def by (intro conjI; rule DequeueExecutions_facts [OF assms])

theorem DequeueExecutions_correct_witness:
  "length (projr (fst (DequeueExecutions (Store_New 0) (calm 300) 5 sample_db))) = 1"
proof -
  let ?r = "DequeueExecutions (Store_New 0) (calm 300) 5 sample_db"
  have "?r = (Inr (projr (fst ?r)), snd ?r)"
    by (simp add: DequeueExecutions_def run_stmt_def ok_stmt_def calm_def)
  from DequeueExecutions_correct [OF sample_db_ok _ this] show ?thesis
    by (simp add: Let_def sample_defs)
qed

text \<open>
  recovery touches only what has expired. A requeue changes a row only if it is in progress with
  its lease over (or from before leases existed) and not locked, puts it back to emitted, and never
  more rows than its limit; all other rows stay.
\<close>

theorem requeue_only_expired:
  assumes "db_ok db" "0 \<le> limit" "RequeueExpiredExecutions ev limit db = (Inr n, db')"
  shows "n \<le> nat limit \<and> (\<forall>r \<in> set (t_executions db). r \<in> set (t_executions db')
    \<or> stale_row (de_clk ev) r \<and> ex_ID r \<notin> de_locked ev \<and> requeue_row r \<in> set (t_executions db'))"
proof -
  let ?stale = "order_limit (\<lambda>e. (ex_LeaseUntil e, ex_ID e)) limit
    (filter (\<lambda>e. stale_row (de_clk ev) e \<and> ex_ID e \<notin> de_locked ev) (t_executions db))"
  let ?P = "\<lambda>e. ex_ID e \<in> ex_ID ` set ?stale"
  from assms(3) have n: "n = count_where ?P (t_executions db)"
      and rows: "t_executions db' = upd_where ?P requeue_row (t_executions db)"
    by (auto simp: RequeueExpiredExecutions_def run_stmt_Inr ok_stmt_def queryRequeueStaleExecutions_def Let_def)
  have ids: "distinct (map ex_ID (t_executions db))" using assms(1) by (simp add: db_ok_def executions_ok_def col_def)
  have "n = card (ex_ID ` set (filter ?P (t_executions db)))"
    using n distinct_card [OF distinct_map_filter [OF ids, of ?P]] by (simp add: count_where_def)
  also have "\<dots> \<le> card (ex_ID ` set ?stale)" by (rule card_mono) auto
  also have "\<dots> \<le> length ?stale" using card_length [of "map ex_ID ?stale"] by simp
  also have "\<dots> \<le> nat limit" by (rule length_order_limit)
  finally have "n \<le> nat limit" .
  moreover have "r \<in> set (t_executions db') \<or> stale_row (de_clk ev) r \<and> ex_ID r \<notin> de_locked ev
      \<and> requeue_row r \<in> set (t_executions db')" if r: "r \<in> set (t_executions db)" for r
  proof (cases "?P r")
    case True
    have "stale_row (de_clk ev) r \<and> ex_ID r \<notin> de_locked ev" by (rule picked_by_id [OF assms(1) r True])
    moreover have "requeue_row r \<in> set (t_executions db')" unfolding rows by (rule upd_where_mem [where P = ?P, OF r True])
    ultimately show ?thesis by blast
  next
    case False
    with r show ?thesis by (simp add: rows upd_where_keep)
  qed
  ultimately show ?thesis by blast
qed

theorem requeue_only_expired_witness:
  "sample_execution \<in> set (t_executions (snd (RequeueExpiredExecutions (calm 169) 10 sample_db)))"
proof -
  let ?r = "RequeueExpiredExecutions (calm 169) 10 sample_db"
  have "?r = (Inr (projr (fst ?r)), snd ?r)"
    by (simp add: RequeueExpiredExecutions_def run_stmt_def ok_stmt_def calm_def)
  from requeue_only_expired [OF sample_db_ok _ this] show ?thesis
    by (simp add: sample_db_def) (simp add: sample_defs stale_row_def)
qed

text \<open>
  C19: no execution is stranded. In every database the store can reach, an execution in progress can be
  recovered: as soon as the database clock reaches its lease (at once when it has none), a requeue
  that is not locked out of the row and whose limit covers the table makes it available again.
\<close>

theorem in_progress_recoverable:
  assumes "db = fold exec_op ops empty_db" "r \<in> set (t_executions db)" "ex_Status r = InProgress"
    and "\<forall>l. ex_LeaseUntil r = Some l \<longrightarrow> l \<le> de_clk ev"
    and "de_fault ev = NoFault" "ex_ID r \<notin> de_locked ev" "int (length (t_executions db)) \<le> limit"
  shows "requeue_row r \<in> set (t_executions (snd (RequeueExpiredExecutions ev limit db)))"
proof -
  have ok: "db_ok db" using assms(1) store.run_inv [OF db_ok_empty] by simp
  have "stale_row (de_clk ev) r"
    using row_exec_ok [OF ok assms(2)] assms(3,4) by (auto simp: stale_row_def exec_ok_def split: option.split)
  moreover have "order_limit k limit (filter P (t_executions db)) = sort_key k (filter P (t_executions db))"
    for P and k :: "Execution \<Rightarrow> time option \<times> uuid"
    using assms(7) length_filter_le [of P "t_executions db"] by (simp add: order_limit_def del: length_filter_le)
  ultimately show ?thesis
    using assms(2,5,6) by (auto simp: RequeueExpiredExecutions_def run_stmt_def ok_stmt_def
      queryRequeueStaleExecutions_def Let_def intro!: upd_where_mem)
qed

definition sample_history :: "(dbenv \<times> store_op) list" where
  "sample_history = [(calm 1, OpCreateJobAggregate sample_job sample_schedule []),
     (calm 60, OpInsertExecution sample_pending), (calm 200, OpDequeueExecution (Store_New 0))]"

lemma sample_history_rows: "t_executions (fold exec_op sample_history empty_db) = [claim_row 200 120000 sample_pending]"
  by (simp add: sample_history_def sample_defs CreateJobAggregate_def run_stmt_def in_tx_def seq_stmt_def
    queryInsertSchedule_def queryInsertJob_def job_row_def timeout_column_def go_div_def InsertExecution_def
    queryInsertExecution_def execution_row_def DequeueExecution_def ok_stmt_def queryDequeueExecution_def
    order_limit_def claim_row_def lease_ms_def Store_New_def DefaultExecutionLease_def)

theorem in_progress_recoverable_witness:
  "requeue_row (claim_row 200 120000 sample_pending)
     \<in> set (t_executions (snd (RequeueExpiredExecutions (calm (10 ^ 15)) 10 (fold exec_op sample_history empty_db))))"
  by (rule in_progress_recoverable [OF refl]) (simp_all add: sample_history_rows calm_def claim_row_def)

end
