(* ===== verification/Scheduler.thy ===== *)
theory Scheduler
  imports ClaimProtocol
begin

text \<open>
  The event bus (\<^verbatim>\<open>internal/transport/channel/bus.go\<close>), the scheduler (\<^verbatim>\<open>internal/scheduler/scheduler.go\<close>)
  and the reconciler (\<^verbatim>\<open>internal/reconciler/reconciler.go\<close>).

  A scheduler tick runs against the store of theory Store. The cron library is a parameter: parsing an
  expression gives the \<open>Next\<close> function of its schedule. So are the time zone database, \<open>uuid.New\<close>,
  the faults of the store's calls and the answers of the emitter.
\<close>

section \<open>The event bus\<close>

record EventBus =
  bus_ch :: "TriggerEvent list"
  bus_cap :: nat
  bus_emitTimeout :: duration

definition DefaultEmitTimeout :: duration where
  "DefaultEmitTimeout = 5 * Second"

definition NewEventBus :: "nat \<Rightarrow> EventBus" where
  "NewEventBus buffer = \<lparr>bus_ch = [], bus_cap = buffer, bus_emitTimeout = DefaultEmitTimeout\<rparr>"

text \<open>The branch \<open>select\<close> takes: there is room, the context is done, or the timer fired.\<close>

inductive Emit :: "EventBus \<Rightarrow> TriggerEvent \<Rightarrow> unit result \<Rightarrow> EventBus \<Rightarrow> bool" where
  sent: "length (bus_ch b) < bus_cap b \<Longrightarrow> Emit b event (Inr ()) (b\<lparr>bus_ch := bus_ch b @ [event]\<rparr>)"
| ctx_done: "Emit b event (Inl ctxErr) b"
| buffer_full: "Emit b event (Inl ErrBufferFull) b"

definition NopEmitter_Emit :: "TriggerEvent \<Rightarrow> unit result" where
  "NopEmitter_Emit event = Inr ()"

text \<open>The bus in use, with what was accepted and what the dispatcher received.\<close>

inductive bus_step :: "EventBus \<times> TriggerEvent list \<times> TriggerEvent list \<Rightarrow> EventBus \<times> TriggerEvent list \<times> TriggerEvent list \<Rightarrow> bool" where
  emit: "Emit b event res b' \<Longrightarrow> bus_step (b, acc, got) (b', if res = Inr () then acc @ [event] else acc, got)"
| receive: "bus_ch b = event # rest \<Longrightarrow> bus_step (b, acc, got) (b\<lparr>bus_ch := rest\<rparr>, acc, got @ [event])"

inductive_cases EmitE: "Emit b event res b'"

lemma bus_step_inv:
  assumes "bus_step (b, acc, got) (b', acc', got')" "acc = got @ bus_ch b" "length (bus_ch b) \<le> bus_cap b"
  shows "acc' = got' @ bus_ch b' \<and> length (bus_ch b') \<le> bus_cap b' \<and> bus_cap b' = bus_cap b"
  using assms by (cases rule: bus_step.cases) (auto elim!: EmitE)

section \<open>The scheduler\<close>

definition DefaultJobPageSize :: int where
  "DefaultJobPageSize = 100"

record sched_config =
  cfg_TickInterval :: duration
  cfg_MaxFiresPerTick :: int

record Scheduler =
  sc_config :: sched_config
  sc_lastTick :: time
  sc_deferredCursor :: bool

record processJobResult =
  pj_triggered :: nat
  pj_capped :: bool
  pj_cursor :: time

definition Scheduler_New :: "sched_config \<Rightarrow> Scheduler" where
  "Scheduler_New config = \<lparr>sc_config = config, sc_lastTick = 0, sc_deferredCursor = False\<rparr>"

text \<open>What the tick meets: \<open>sw_parse\<close> and \<open>sw_loadLocation\<close> are the cron library and the zone database,
  \<open>sw_newID\<close> the identifiers \<open>uuid.New\<close> gives, and the rest the faults of the calls.\<close>

record sched_world =
  sw_loadLocation :: "string \<Rightarrow> unit result"
  sw_parse :: "string \<Rightarrow> string \<Rightarrow> (time \<Rightarrow> time) result"
  sw_newID :: "uuid \<Rightarrow> time \<Rightarrow> uuid"
  sw_insert :: "uuid \<Rightarrow> time \<Rightarrow> dbenv"
  sw_emit :: "TriggerEvent \<Rightarrow> unit result"
  sw_page :: "uuid \<Rightarrow> dbenv"
  sw_last :: "uuid \<Rightarrow> dbenv"

definition tickInterval :: "Scheduler \<Rightarrow> duration" where
  "tickInterval s = (if cfg_TickInterval (sc_config s) > 0 then cfg_TickInterval (sc_config s) else Minute)"

definition windowStart :: "sched_world \<Rightarrow> Scheduler \<Rightarrow> JobWithSchedule \<Rightarrow> time \<Rightarrow> time \<Rightarrow> db \<Rightarrow> time" where
  "windowStart w s jws lastTick now db =
     (let job = fst jws;
          cursor = (if \<not> IsZero lastTick
                    then (if lastTick < job_CreatedAt job \<and> \<not> now < job_CreatedAt job then job_CreatedAt job else lastTick)
                    else (if IsZero (job_CreatedAt job) \<or> now < job_CreatedAt job then now - tickInterval s else job_CreatedAt job))
      in if \<not> IsZero lastTick \<and> \<not> sc_deferredCursor s then cursor
         else (case GetLastScheduledExecution (sw_last w (job_ID job)) (job_ID job) db of
                 Inl e \<Rightarrow> cursor
               | Inr None \<Rightarrow> cursor
               | Inr (Some lastScheduledAt) \<Rightarrow> if cursor < lastScheduledAt then lastScheduledAt else cursor))"

definition scheduled_execution :: "sched_world \<Rightarrow> Job \<Rightarrow> time \<Rightarrow> time \<Rightarrow> Execution" where
  "scheduled_execution w job scheduledAt now =
     \<lparr>ex_ID = sw_newID w (job_ID job) scheduledAt, ex_JobID = job_ID job, ex_Namespace = job_Namespace job,
      ex_TriggerType = Scheduled, ex_ScheduledAt = scheduledAt, ex_FiredAt = now, ex_Status = Emitted,
      ex_AcknowledgedAt = None, ex_CreatedAt = now, ex_ClaimedAt = None, ex_ClaimGeneration = 0, ex_LeaseUntil = None\<rparr>"

definition scheduled_event :: "Execution \<Rightarrow> TriggerEvent" where
  "scheduled_event e =
     \<lparr>te_ExecutionID = ex_ID e, te_JobID = ex_JobID e, te_Namespace = ex_Namespace e,
      te_ScheduledAt = ex_ScheduledAt e, te_FiredAt = ex_FiredAt e, te_CreatedAt = ex_CreatedAt e\<rparr>"

text \<open>Whether the slot is stored, and the error.\<close>

definition emitExecution :: "sched_world \<Rightarrow> Job \<Rightarrow> time \<Rightarrow> time \<Rightarrow> db \<Rightarrow> (bool \<times> err option) \<times> db" where
  "emitExecution w job scheduledAt now db =
     (case InsertExecution (sw_insert w (job_ID job) scheduledAt) (scheduled_execution w job scheduledAt now) db of
        (Inl e, db') \<Rightarrow>
          (if errors_Is e ErrDuplicateExecution then (True, None) else (False, Some (Wrapped ''insert execution'' e)), db')
      | (Inr _, db') \<Rightarrow>
          (case sw_emit w (scheduled_event (scheduled_execution w job scheduledAt now)) of
             Inl e \<Rightarrow> ((True, Some (Wrapped ''emit'' e)), db')
           | Inr _ \<Rightarrow> ((True, None), db')))"

text \<open>The loop over the due times, with the iterations that are left; after it the cap is noted.\<close>

fun fire_loop :: "sched_world \<Rightarrow> (time \<Rightarrow> time) \<Rightarrow> Job \<Rightarrow> time \<Rightarrow> nat \<Rightarrow> time \<Rightarrow> processJobResult \<Rightarrow> db
    \<Rightarrow> (processJobResult \<times> err option) \<times> db" where
  "fire_loop w nxt job now 0 t result db = ((if \<not> now < t then result\<lparr>pj_capped := True\<rparr> else result, None), db)"
| "fire_loop w nxt job now (Suc i) t result db =
     (if now < t then ((result, None), db)
      else (let scheduledAt = Truncate t Minute
            in case emitExecution w job scheduledAt now db of
                 ((False, e), db') \<Rightarrow> ((result, e), db')
               | ((True, e), db') \<Rightarrow>
                   (let result = result\<lparr>pj_cursor := scheduledAt\<rparr>;
                        result = (if e = None then result\<lparr>pj_triggered := pj_triggered result + 1\<rparr> else result);
                        next = nxt t
                    in if IsZero next \<or> \<not> t < next then ((result, None), db')
                       else fire_loop w nxt job now i next result db')))"

definition processJobWithProgress :: "sched_world \<Rightarrow> Scheduler \<Rightarrow> JobWithSchedule \<Rightarrow> time \<Rightarrow> time \<Rightarrow> db
    \<Rightarrow> (processJobResult \<times> err option) \<times> db" where
  "processJobWithProgress w s jws lastTick now db =
     (let job = fst jws; schedule = snd jws;
          start = windowStart w s jws lastTick now db;
          none = \<lparr>pj_triggered = 0, pj_capped = False, pj_cursor = 0\<rparr>;
          tz = (if sch_Timezone schedule = '''' then ''UTC'' else sch_Timezone schedule)
      in case sw_loadLocation w tz of
           Inl e \<Rightarrow> ((none, Some (Wrapped (''load tz '' @ tz) e)), db)
         | Inr _ \<Rightarrow>
             (case sw_parse w (sch_CronExpression schedule) tz of
                Inl e \<Rightarrow> ((none, Some (Wrapped ''parse cron'' e)), db)
              | Inr nxt \<Rightarrow>
                  (let maxIterations = cfg_MaxFiresPerTick (sc_config s);
                       maxIterations = (if maxIterations \<le> 0 then 1000 else maxIterations);
                       t = nxt start;
                       result = none\<lparr>pj_cursor := start\<rparr>
                   in if IsZero t \<or> \<not> start < t then ((result, None), db)
                      else fire_loop w nxt job now (nat maxIterations) t result db)))"

text \<open>The jobs of one page, with the tick's cursor and count.\<close>

fun process_jobs :: "sched_world \<Rightarrow> Scheduler \<Rightarrow> time \<Rightarrow> JobWithSchedule list \<Rightarrow> time \<times> nat \<Rightarrow> db \<Rightarrow> (time \<times> nat) \<times> db" where
  "process_jobs w s now [] acc db = (acc, db)"
| "process_jobs w s now (jws # rest) (nextLastTick, jobsTriggered) db =
     (let ((result, jobErr), db') = processJobWithProgress w s jws (sc_lastTick s) now db;
          jobsTriggered = jobsTriggered + pj_triggered result;
          nextLastTick = (if (pj_capped result \<or> jobErr \<noteq> None) \<and> \<not> IsZero (pj_cursor result) \<and> pj_cursor result < nextLastTick
                          then pj_cursor result else nextLastTick)
      in process_jobs w s now rest (nextLastTick, jobsTriggered) db')"

text \<open>The keyset pagination; not returning is \<open>None\<close>.\<close>

partial_function (option) tick_pages :: "sched_world \<Rightarrow> Scheduler \<Rightarrow> time \<Rightarrow> uuid \<Rightarrow> time \<times> nat \<Rightarrow> db
    \<Rightarrow> ((time \<times> nat) result \<times> db) option" where
  "tick_pages w s now afterID acc db =
     (case GetEnabledJobs (sw_page w afterID) DefaultJobPageSize afterID db of
        Inl e \<Rightarrow> Some (Inl (Wrapped ''get jobs'' e), db)
      | Inr jobs \<Rightarrow>
          (let (acc', db') = process_jobs w s now jobs acc db
           in if int (length jobs) < DefaultJobPageSize then Some (Inr acc', db')
              else tick_pages w s now (job_ID (fst (last jobs))) acc' db'))"

definition processTick :: "sched_world \<Rightarrow> time \<Rightarrow> Scheduler \<Rightarrow> db \<Rightarrow> (unit result \<times> Scheduler \<times> db) option" where
  "processTick w now s db =
     (case tick_pages w s now uuid_Nil (now, 0) db of
        None \<Rightarrow> None
      | Some (Inl e, db') \<Rightarrow> Some (Inl e, s\<lparr>sc_deferredCursor := True\<rparr>, db')
      | Some (Inr (nextLastTick, _), db') \<Rightarrow>
          Some (Inr (), s\<lparr>sc_lastTick := nextLastTick, sc_deferredCursor := (nextLastTick < now)\<rparr>, db'))"

section \<open>The reconciler\<close>

record rec_config =
  rc_Interval :: duration
  rc_Threshold :: duration
  rc_BatchSize :: int

definition SafetyMargin :: duration where
  "SafetyMargin = 150 * Second"

definition DefaultConfig :: "duration \<Rightarrow> rec_config" where
  "DefaultConfig maxRetryDuration =
     \<lparr>rc_Interval = 5 * Minute, rc_Threshold = maxRetryDuration + SafetyMargin, rc_BatchSize = 100\<rparr>"

definition reconcile_event :: "time \<Rightarrow> Execution \<Rightarrow> TriggerEvent" where
  "reconcile_event now e =
     \<lparr>te_ExecutionID = ex_ID e, te_JobID = ex_JobID e, te_Namespace = ex_Namespace e,
      te_ScheduledAt = ex_ScheduledAt e, te_FiredAt = ex_FiredAt e, te_CreatedAt = now\<rparr>"

text \<open>The loop over the orphans: the events handed to the emitter and whether it took them. \<open>stop\<close> says
  before which orphan the context is done.\<close>

fun reemit :: "time \<Rightarrow> (uuid \<Rightarrow> bool) \<Rightarrow> (TriggerEvent \<Rightarrow> unit result) \<Rightarrow> Execution list \<Rightarrow> (TriggerEvent \<times> bool) list" where
  "reemit now stop emit [] = []"
| "reemit now stop emit (e # es) =
     (if stop (ex_ID e) then []
      else (reconcile_event now e, emit (reconcile_event now e) = Inr ()) # reemit now stop emit es)"

definition runCycle :: "rec_config \<Rightarrow> dbenv \<Rightarrow> dbenv \<Rightarrow> time \<Rightarrow> (uuid \<Rightarrow> bool) \<Rightarrow> (TriggerEvent \<Rightarrow> unit result) \<Rightarrow> db
    \<Rightarrow> (TriggerEvent \<times> bool) list \<times> db" where
  "runCycle config ev ev2 now stop emit db =
     (let orphanCutoff = now - rc_Threshold config;
          db' = snd (RequeueExpiredExecutions ev (rc_BatchSize config) db)
      in case GetOrphanedExecutions ev2 orphanCutoff (rc_BatchSize config) db' of
           Inl e \<Rightarrow> ([], db')
         | Inr orphans \<Rightarrow> (reemit now stop emit orphans, db'))"

section \<open>One slot\<close>

text \<open>An execution is stored for a job and a scheduled time.\<close>

definition stored :: "db \<Rightarrow> uuid \<Rightarrow> time \<Rightarrow> bool" where
  "stored db j t \<longleftrightarrow> (\<exists>e \<in> set (t_executions db). ex_JobID e = j \<and> ex_ScheduledAt e = t)"

text \<open>Hypotheses on the surroundings: a fault of the insert does not pretend to be a duplicate key, and
  the identifiers given to the slots up to now are new and differ from each other.\<close>

definition honest :: "fault \<Rightarrow> bool" where
  "honest f \<longleftrightarrow> (\<forall>e. f = FaultBefore e \<or> f = FaultAfter e \<longrightarrow> \<not> isDuplicateKeyError e \<and> \<not> errors_Is e ErrDuplicateExecution)"

definition slot_time :: "time \<Rightarrow> time \<Rightarrow> bool" where
  "slot_time now t \<longleftrightarrow> 0 < t \<and> t \<le> now \<and> Minute dvd t"

definition unused :: "sched_world \<Rightarrow> time \<Rightarrow> uuid set \<Rightarrow> db \<Rightarrow> bool" where
  "unused w now js db \<longleftrightarrow> (\<forall>j \<in> js. \<forall>t. slot_time now t \<longrightarrow> sw_newID w j t \<notin> ex_ID ` set (t_executions db))"

definition good_world :: "sched_world \<Rightarrow> time \<Rightarrow> uuid set \<Rightarrow> bool" where
  "good_world w now js \<longleftrightarrow> (\<forall>j t. honest (de_fault (sw_insert w j t)))
     \<and> (\<forall>j \<in> js. \<forall>j' \<in> js. \<forall>t t'. slot_time now t \<longrightarrow> slot_time now t' \<longrightarrow> sw_newID w j t = sw_newID w j' t' \<longrightarrow> j = j' \<and> t = t')"

definition fresh_ids :: "sched_world \<Rightarrow> time \<Rightarrow> db \<Rightarrow> Job \<Rightarrow> time \<Rightarrow> bool" where
  "fresh_ids w now db job t \<longleftrightarrow> (\<forall>t' > t. slot_time now t' \<longrightarrow> sw_newID w (job_ID job) t' \<notin> ex_ID ` set (t_executions db))"

text \<open>What one call of \<open>emitExecution\<close> does: it appends the row of its slot or nothing, and it reports the
  slot as stored only if it is.\<close>

definition slot_row :: "sched_world \<Rightarrow> Job \<Rightarrow> time \<Rightarrow> Execution \<Rightarrow> bool" where
  "slot_row w job t row \<longleftrightarrow> ex_JobID row = job_ID job \<and> ex_ScheduledAt row = t \<and> ex_ID row = sw_newID w (job_ID job) t
     \<and> ex_Status row = Emitted \<and> ex_TriggerType row = Scheduled \<and> ex_Namespace row = job_Namespace job"

lemma emitExecution_effect:
  assumes "emitExecution w job t now db = ((p, e), db')"
  shows "db' = db \<or> (\<exists>row. db' = db\<lparr>t_executions := t_executions db @ [row]\<rparr> \<and> slot_row w job t row)"
  using assms
  by (auto simp: emitExecution_def InsertExecution_def run_stmt_def queryInsertExecution_def execution_row_def scheduled_execution_def
    slot_row_def split: prod.splits sum.splits fault.splits if_splits)

lemma emitExecution_stored:
  assumes "emitExecution w job t now db = ((True, e), db')"
    and "honest (de_fault (sw_insert w (job_ID job) t))"
    and "sw_newID w (job_ID job) t \<notin> ex_ID ` set (t_executions db)"
  shows "stored db' (job_ID job) t"
  using assms
  by (force simp: emitExecution_def InsertExecution_def run_stmt_def queryInsertExecution_def execution_row_def scheduled_execution_def
    stored_def honest_def isDuplicateKeyError_def split: prod.splits sum.splits fault.splits if_splits)

section \<open>One job\<close>

text \<open>
  The schedule as its set of slots: whole minutes after the zero time. \<open>Next\<close> gives the first slot after
  an instant, or the zero time when there is none.
\<close>

definition cron_next :: "time set \<Rightarrow> (time \<Rightarrow> time) \<Rightarrow> bool" where
  "cron_next S nxt \<longleftrightarrow> (\<forall>s \<in> S. 0 < s \<and> Minute dvd s)
     \<and> (\<forall>t. if \<exists>s \<in> S. t < s then nxt t \<in> S \<and> t < nxt t \<and> (\<forall>s \<in> S. t < s \<longrightarrow> nxt t \<le> s) else nxt t = 0)"

lemma cron_next_Some: "cron_next S nxt \<Longrightarrow> nxt t \<noteq> 0 \<Longrightarrow> nxt t \<in> S \<and> t < nxt t \<and> (\<forall>s \<in> S. t < s \<longrightarrow> nxt t \<le> s)"
  unfolding cron_next_def by metis

lemma cron_next_None: "cron_next S nxt \<Longrightarrow> nxt t = 0 \<or> nxt t \<le> t \<Longrightarrow> s \<in> S \<Longrightarrow> s \<le> t"
  unfolding cron_next_def by (metis linorder_not_le less_irrefl)

lemma stored_append: "t_executions db' = t_executions db @ new \<Longrightarrow> stored db j t \<Longrightarrow> stored db' j t"
  by (auto simp: stored_def)

text \<open>Only executions of the job were added, for slots of its schedule in the window.\<close>

definition added :: "sched_world \<Rightarrow> Job \<Rightarrow> time set \<Rightarrow> db \<Rightarrow> db \<Rightarrow> bool" where
  "added w job slots db db' \<longleftrightarrow>
     (\<exists>new. db' = db\<lparr>t_executions := t_executions db @ new\<rparr> \<and> (\<forall>e \<in> set new. \<exists>t \<in> slots. slot_row w job t e))"

lemma added_refl: "added w job slots db db"
  unfolding added_def by (intro exI [of _ "[]"]) simp

lemma added_trans: "added w job A db db1 \<Longrightarrow> added w job B db1 db2 \<Longrightarrow> A \<subseteq> C \<Longrightarrow> B \<subseteq> C \<Longrightarrow> added w job C db db2"
  unfolding added_def by (elim exE conjE, rule_tac x = "new @ newa" in exI) (auto, blast+)

lemma added_stored: "added w job A db db' \<Longrightarrow> stored db j t \<Longrightarrow> stored db' j t"
  by (auto simp: added_def stored_def)

lemma fresh_ids_step:
  assumes "fresh_ids w now db job prev" "good_world w now {job_ID job}" "prev < t" "slot_time now t" "added w job {t} db db'"
  shows "fresh_ids w now db' job t"
proof -
  have ids: "ex_ID ` set (t_executions db') \<subseteq> insert (sw_newID w (job_ID job) t) (ex_ID ` set (t_executions db))"
    using assms(5) by (auto simp: added_def slot_row_def)
  have "sw_newID w (job_ID job) t' \<notin> ex_ID ` set (t_executions db')" if "t < t'" "slot_time now t'" for t'
  proof -
    have "sw_newID w (job_ID job) t' \<notin> ex_ID ` set (t_executions db)" using assms(1,3) that by (simp add: fresh_ids_def)
    moreover have "sw_newID w (job_ID job) t' \<noteq> sw_newID w (job_ID job) t" using assms(2,4) that by (auto simp: good_world_def)
    ultimately show ?thesis using ids by blast
  qed
  then show ?thesis by (simp add: fresh_ids_def)
qed

lemma emitExecution_added: "emitExecution w job t now db = ((p, e), db') \<Longrightarrow> added w job {t} db db'"
  using emitExecution_effect [of w job t now db p e db'] added_refl unfolding added_def by fastforce

lemma added_mono: "added w job A db db' \<Longrightarrow> A \<subseteq> B \<Longrightarrow> added w job B db db'"
  unfolding added_def by blast

lemma fire_loop_added: "fire_loop w nxt job now i t result db = ((res, err), db') \<Longrightarrow> added w job UNIV db db'"
proof (induction i arbitrary: t result db)
  case (Suc i)
  obtain p e db1 where emit: "emitExecution w job (Truncate t Minute) now db = ((p, e), db1)" by (metis prod.collapse)
  have one: "added w job UNIV db db1" by (rule added_mono [OF emitExecution_added [OF emit]]) simp
  from Suc.prems emit consider "db' = db" | "db' = db1" | r t' where "fire_loop w nxt job now i t' r db1 = ((res, err), db')"
    by (auto simp: Let_def split: if_splits bool.splits)
  then show ?case
  proof cases
    case 3
    from added_trans [OF one Suc.IH [OF this]] show ?thesis by simp
  qed (use one added_refl in auto)
qed (auto simp: added_refl split: if_splits)

lemma fire_loop_spec:
  assumes cron: "cron_next S nxt" and good: "good_world w now {job_ID job}"
  shows "t \<in> S \<Longrightarrow> prev < t \<Longrightarrow> \<forall>s \<in> S. prev < s \<longrightarrow> t \<le> s \<Longrightarrow> fresh_ids w now db job prev \<Longrightarrow> pj_cursor result = prev
    \<Longrightarrow> \<not> pj_capped result \<Longrightarrow> fire_loop w nxt job now i t result db = ((res, err), db')
    \<Longrightarrow> added w job {s \<in> S. prev < s \<and> s \<le> now} db db' \<and> prev \<le> pj_cursor res \<and> pj_cursor res \<le> max prev now
      \<and> (\<forall>s \<in> S. prev < s \<and> s \<le> pj_cursor res \<longrightarrow> stored db' (job_ID job) s)
      \<and> (err = None \<and> \<not> pj_capped res \<longrightarrow> (\<forall>s \<in> S. prev < s \<and> s \<le> now \<longrightarrow> stored db' (job_ID job) s))"
proof (induction i arbitrary: t prev result db)
  case 0
  then show ?case by (fastforce simp: added_refl split: if_splits)
next
  case (Suc i)
  show ?case
  proof (cases "now < t")
    case True
    with Suc.prems show ?thesis by (fastforce simp: added_refl)
  next
    case due: False
    have t: "Truncate t Minute = t" using cron Suc.prems(1) by (simp add: cron_next_def Truncate_id)
    obtain p e db1 where emit: "emitExecution w job t now db = ((p, e), db1)" by (metis prod.collapse)
    have add1: "added w job {t} db db1" by (rule emitExecution_added [OF emit])
    have st_t: "slot_time now t" using cron Suc.prems(1) due by (simp add: cron_next_def slot_time_def)
    have sub: "{t} \<subseteq> {s \<in> S. prev < s \<and> s \<le> now}" using Suc.prems(1,2) due by simp
    note win = added_trans [OF add1 added_refl sub empty_subsetI]
    show ?thesis
    proof (cases p)
      case False
      with Suc.prems(7) due emit t have res: "res = result" "db' = db1" "err = e"
        by (simp_all add: Let_def)
      have "e \<noteq> None" using emit False by (auto simp: emitExecution_def split: prod.splits sum.splits if_splits)
      with res Suc.prems(5) win show ?thesis by auto
    next
      case True
      have st: "stored db1 (job_ID job) t"
        using emitExecution_stored emit True good Suc.prems(2,4) st_t by (auto simp: good_world_def fresh_ids_def)
      define r1 where "r1 = (let r = result\<lparr>pj_cursor := t\<rparr> in if e = None then r\<lparr>pj_triggered := pj_triggered r + 1\<rparr> else r)"
      have r1: "pj_cursor r1 = t" "\<not> pj_capped r1" using Suc.prems(6) by (simp_all add: r1_def Let_def)
      have step: "(if nxt t = 0 \<or> \<not> t < nxt t then ((r1, None), db1) else fire_loop w nxt job now i (nxt t) r1 db1) = ((res, err), db')"
        using Suc.prems(7) due emit t True by (auto simp: Let_def r1_def split: if_splits)
      have upto: "s = t" if "s \<in> S" "prev < s" "s \<le> t" for s using that Suc.prems(3) by fastforce
      show ?thesis
      proof (cases "nxt t = 0 \<or> \<not> t < nxt t")
        case True
        with step have res: "res = r1" "err = None" "db' = db1" by simp_all
        have "s = t" if "s \<in> S" "prev < s" for s
          using upto [OF that] cron_next_None [OF cron _ that(1), of t] True by fastforce
        with res r1 st win due Suc.prems(2) show ?thesis by auto
      next
        case False
        then have nx: "nxt t \<in> S" "t < nxt t" "\<forall>s \<in> S. t < s \<longrightarrow> nxt t \<le> s" using cron_next_Some [OF cron] by blast+
        have fr: "fresh_ids w now db1 job t" by (rule fresh_ids_step [OF Suc.prems(4) good Suc.prems(2) st_t add1])
        have run: "fire_loop w nxt job now i (nxt t) r1 db1 = ((res, err), db')" using step False by simp
        note IH = Suc.IH [OF nx fr r1 run]
        have "added w job {s \<in> S. prev < s \<and> s \<le> now} db db'"
          by (rule added_trans [OF add1 conjunct1 [OF IH] sub]) (use Suc.prems(2) in auto)
        moreover have st': "stored db' (job_ID job) t" using added_stored [OF conjunct1 [OF IH] st] .
        have "stored db' (job_ID job) s" if "s \<in> S" "prev < s" "s \<le> pj_cursor res \<or> err = None \<and> \<not> pj_capped res \<and> s \<le> now" for s
        proof (cases "s \<le> t")
          case True
          with upto that st' show ?thesis by blast
        next
          case False
          with IH that show ?thesis by auto
        qed
        moreover have "prev \<le> pj_cursor res" "pj_cursor res \<le> max prev now" using IH Suc.prems(2) due by auto
        ultimately show ?thesis by blast
      qed
    qed
  qed
qed

lemma fire_loop_gap_free:
  assumes cron: "cron_next S nxt" and good: "good_world w now {job_ID job}"
  shows "t \<in> S \<Longrightarrow> prev < t \<Longrightarrow> \<forall>s \<in> S. prev < s \<longrightarrow> t \<le> s \<Longrightarrow> fresh_ids w now db job prev
    \<Longrightarrow> fire_loop w nxt job now i t result db = ((res, err), db') \<Longrightarrow> stored db' (job_ID job) x \<Longrightarrow> \<not> stored db (job_ID job) x
    \<Longrightarrow> s \<in> S \<Longrightarrow> prev < s \<Longrightarrow> s \<le> x \<Longrightarrow> stored db' (job_ID job) s"
proof (induction i arbitrary: t prev result db)
  case 0
  then show ?case by (simp split: if_splits)
next
  case (Suc i)
  have t: "Truncate t Minute = t" using cron Suc.prems(1) by (simp add: cron_next_def Truncate_id)
  obtain p e db1 where emit: "emitExecution w job t now db = ((p, e), db1)" by (metis prod.collapse)
  have add1: "added w job {t} db db1"
    by (rule emitExecution_added [OF emit])
  have one: "stored db1 (job_ID job) y \<Longrightarrow> stored db (job_ID job) y \<or> y = t" for y
    using add1 by (auto simp: added_def stored_def slot_row_def)
  have upto: "y = t" if "y \<in> S" "prev < y" "y \<le> t" for y using that Suc.prems(3) by fastforce
  show ?case
  proof (cases "now < t \<or> \<not> p \<or> nxt t = 0 \<or> \<not> t < nxt t")
    case True
    with Suc.prems(5) emit t have "db' = db \<or> db' = db1" by (auto simp: Let_def split: if_splits bool.splits)
    with Suc.prems one upto show ?thesis by blast
  next
    case False
    then have p: p and nx: "nxt t \<in> S" "t < nxt t" "\<forall>y \<in> S. t < y \<longrightarrow> nxt t \<le> y" using cron_next_Some [OF cron, of t] by blast+
    have st_t: "slot_time now t" using cron Suc.prems(1) False by (simp add: cron_next_def slot_time_def)
    have fr: "fresh_ids w now db1 job t" by (rule fresh_ids_step [OF Suc.prems(4) good Suc.prems(2) st_t add1])
    obtain r1 where run: "fire_loop w nxt job now i (nxt t) r1 db1 = ((res, err), db')"
      using Suc.prems(5) emit t False by (auto simp: Let_def split: if_splits)
    have st: "stored db1 (job_ID job) t"
      using emitExecution_stored emit p good Suc.prems(2,4) st_t by (auto simp: good_world_def fresh_ids_def)
    have keep: "stored db' (job_ID job) y" if "stored db1 (job_ID job) y" for y
    proof -
      have "added w job (UNIV :: time set) db1 db'" using fire_loop_added [OF run] .
      then show ?thesis using that by (rule added_stored)
    qed
    show ?thesis
    proof (cases "s \<le> t")
      case True
      with upto Suc.prems(8,9) have "s = t" by blast
      then show ?thesis using keep [OF st] by simp
    next
      case False
      show ?thesis
      proof (cases "stored db1 (job_ID job) x")
        case True
        with one Suc.prems(7) have "x = t" by blast
        with False Suc.prems(10) show ?thesis by simp
      next
        case new: False
        show ?thesis by (rule Suc.IH [OF nx(1,2,3) fr run Suc.prems(6) new Suc.prems(8)]) (use False Suc.prems(10) in auto)
      qed
    qed
  qed
qed

section \<open>One tick\<close>

lemma process_job_added: "processJobWithProgress w s jws lastTick now db = ((res, err), db') \<Longrightarrow> added w (fst jws) UNIV db db'"
  by (auto simp: processJobWithProgress_def Let_def added_refl split: sum.splits if_splits dest: fire_loop_added)

lemma added_frame: "added w job A db db' \<Longrightarrow> t_jobs db' = t_jobs db \<and> t_schedules db' = t_schedules db"
  by (auto simp: added_def)

lemma process_jobs_frame:
  "process_jobs w s now jobs acc db = (acc', db') \<Longrightarrow> t_jobs db' = t_jobs db \<and> t_schedules db' = t_schedules db"
proof (induction jobs arbitrary: acc db)
  case (Cons jws jobs)
  obtain nlt n where acc: "acc = (nlt, n)" by fastforce
  obtain res err db1 where one: "processJobWithProgress w s jws (sc_lastTick s) now db = ((res, err), db1)" by (metis prod.collapse)
  with Cons.prems acc obtain acc1 where "process_jobs w s now jobs acc1 db1 = (acc', db')" by (auto simp: Let_def)
  from Cons.IH [OF this] added_frame [OF process_job_added [OF one]] show ?case by simp
qed simp

lemma process_jobs_append:
  "process_jobs w s now (xs @ ys) acc db =
     (case process_jobs w s now xs acc db of (acc', db') \<Rightarrow> process_jobs w s now ys acc' db')"
proof (induction xs arbitrary: acc db)
  case (Cons jws xs)
  then show ?case by (cases acc) (simp add: Let_def case_prod_unfold)
qed simp

text \<open>The enabled jobs in the order of their identifiers: what the tick would load without pages.\<close>

definition enabled_jobs :: "db \<Rightarrow> JobWithSchedule list" where
  "enabled_jobs db = sort_key (\<lambda>(j, s). job_ID j) (filter (\<lambda>(j, s). job_Enabled j) (jobs_join_schedules db))"

abbreviation jws_id :: "JobWithSchedule \<Rightarrow> uuid" where
  "jws_id jws \<equiv> job_ID (fst jws)"

lemma join_ids: "db_ok db \<Longrightarrow> distinct (map jws_id (jobs_join_schedules db))"
proof -
  assume ok: "db_ok db"
  have one: "length (filter (\<lambda>s. sch_ID s = i) (t_schedules db)) \<le> 1" for i
    using ok count_where_le_1 [of sch_ID "t_schedules db" "\<lambda>s. sch_ID s = i" i]
    by (simp add: db_ok_def schedules_ok_def col_def count_where_def)
  have "distinct (map jws_id (concat (map (\<lambda>j. map (Pair j) (filter (\<lambda>s. sch_ID s = job_ScheduleID j) (t_schedules db))) js)))"
    if "distinct (map job_ID js)" for js
    using that
  proof (induction js)
    case (Cons j js)
    have "distinct (map jws_id (map (Pair j) (filter (\<lambda>s. sch_ID s = job_ScheduleID j) (t_schedules db))))"
      using one [of "job_ScheduleID j"] by (cases "filter (\<lambda>s. sch_ID s = job_ScheduleID j) (t_schedules db)") (auto simp: comp_def)
    with Cons show ?case by (fastforce simp: distinct_append)
  qed simp
  then show ?thesis using ok by (simp add: jobs_join_schedules_def db_ok_def jobs_ok_def col_def)
qed

lemma enabled_jobs_sorted: "db_ok db \<Longrightarrow> sorted_wrt (\<lambda>x y. jws_id x < jws_id y) (enabled_jobs db)"
proof -
  assume "db_ok db"
  then have "distinct (map jws_id (enabled_jobs db))"
    using distinct_map_filter [OF join_ids] by (simp add: enabled_jobs_def distinct_map)
  moreover have "sorted (map jws_id (enabled_jobs db))"
    using sorted_sort_key [of "\<lambda>(j, s). job_ID j"] by (simp add: enabled_jobs_def case_prod_unfold)
  ultimately have "sorted_wrt (<) (map jws_id (enabled_jobs db))" by (simp only: strict_sorted_iff)
  then show ?thesis by (simp only: sorted_wrt_map)
qed

text \<open>The pages: after the jobs up to \<open>afterID\<close>, the next page is the head of the rest.\<close>

lemma page_of_rest:
  assumes "enabled_jobs db = pre @ rest" "\<forall>x \<in> set pre. \<not> afterID < jws_id x" "afterID \<noteq> uuid_Nil \<longrightarrow> (\<forall>x \<in> set rest. afterID < jws_id x)"
    and "afterID = uuid_Nil \<longrightarrow> pre = []"
  shows "queryGetEnabledJobs n afterID db = take (nat n) rest"
proof (cases "afterID = uuid_Nil")
  case True
  then show ?thesis using assms(1,4)
    by (simp add: queryGetEnabledJobs_def order_limit_def enabled_jobs_def)
next
  case False
  let ?k = "\<lambda>(j :: Job, s :: Schedule). job_ID j"
  have "sort_key ?k (filter (\<lambda>(j, s). job_Enabled j \<and> afterID < job_ID j) (jobs_join_schedules db))
      = filter (\<lambda>x. afterID < jws_id x) (enabled_jobs db)"
    by (simp add: enabled_jobs_def filter_sort [symmetric] case_prod_unfold conj_commute)
  also have "\<dots> = rest" using assms(1-3) False by (simp add: filter_id_conv filter_empty_conv)
  finally show ?thesis using False by (simp add: queryGetEnabledJobs_def order_limit_def)
qed

lemma enabled_jobs_cong: "t_jobs db' = t_jobs db \<Longrightarrow> t_schedules db' = t_schedules db \<Longrightarrow> enabled_jobs db' = enabled_jobs db"
  by (simp add: enabled_jobs_def jobs_join_schedules_def)

lemma GetEnabledJobs_page:
  "GetEnabledJobs ev n a db = Inr (queryGetEnabledJobs n a db) \<or> de_fault ev \<noteq> NoFault \<and> (\<exists>e. GetEnabledJobs ev n a db = Inl e)"
  by (simp add: GetEnabledJobs_def run_query_def split: fault.split)

text \<open>
  The pagination ends. It processes the enabled jobs in the order of their identifiers, all of them unless
  the query of a page fails; then it stops with the pages before.
\<close>

definition paged :: "sched_world \<Rightarrow> Scheduler \<Rightarrow> time \<Rightarrow> JobWithSchedule list \<Rightarrow> time \<times> nat \<Rightarrow> db \<Rightarrow> (time \<times> nat) result \<times> db \<Rightarrow> bool" where
  "paged w s now jobs acc db = (\<lambda>(r, db'). (\<exists>done todo acc'. jobs = done @ todo \<and> process_jobs w s now done acc db = (acc', db')
     \<and> (case r of Inr a \<Rightarrow> a = acc' \<and> todo = [] | Inl e \<Rightarrow> \<exists>a. de_fault (sw_page w a) \<noteq> NoFault)))"

lemma paged_append:
  assumes "process_jobs w s now page acc db = (acc1, db1)" "paged w s now rest acc1 db1 out"
  shows "paged w s now (page @ rest) acc db out"
proof -
  obtain r db' where out: "out = (r, db')" by fastforce
  from assms(2) obtain dn todo acc' where d: "rest = dn @ todo" "process_jobs w s now dn acc1 db1 = (acc', db')"
      "case r of Inr a \<Rightarrow> a = acc' \<and> todo = [] | Inl e \<Rightarrow> \<exists>a. de_fault (sw_page w a) \<noteq> NoFault"
    by (auto simp: paged_def out)
  then show ?thesis unfolding out paged_def prod.case
    by (intro exI [of _ "page @ dn"] exI [of _ todo] exI [of _ acc']) (simp add: process_jobs_append assms(1))
qed

lemma paged_fault: "de_fault (sw_page w a) \<noteq> NoFault \<Longrightarrow> paged w s now jobs acc db (Inl e, db)"
  unfolding paged_def by (simp, intro exI [of _ "[]"] exI [of _ jobs]) auto

lemma paged_all: "process_jobs w s now jobs acc db = (acc', db') \<Longrightarrow> paged w s now jobs acc db (Inr acc', db')"
  unfolding paged_def by (simp, intro exI [of _ jobs] exI [of _ "[]"]) (cases acc', simp)

lemma tick_pages_rest:
  assumes sorted: "sorted_wrt (\<lambda>x y. jws_id x < jws_id y) (pre @ rest)"
  shows "enabled_jobs db = pre @ rest \<Longrightarrow> \<forall>x \<in> set pre. \<not> afterID < jws_id x
    \<Longrightarrow> (afterID \<noteq> uuid_Nil \<longrightarrow> (\<forall>x \<in> set rest. afterID < jws_id x)) \<Longrightarrow> (afterID = uuid_Nil \<longrightarrow> pre = [])
    \<Longrightarrow> \<exists>out. tick_pages w s now afterID acc db = Some out \<and> paged w s now rest acc db out"
  using sorted
proof (induction "length rest" arbitrary: pre rest afterID acc db rule: less_induct)
  case less
  consider (fault) e where "de_fault (sw_page w afterID) \<noteq> NoFault" "GetEnabledJobs (sw_page w afterID) DefaultJobPageSize afterID db = Inl e"
    | (page) "GetEnabledJobs (sw_page w afterID) DefaultJobPageSize afterID db = Inr (take 100 rest)"
    using GetEnabledJobs_page [of "sw_page w afterID" DefaultJobPageSize afterID db] page_of_rest [OF less.prems(1-4)]
    by (auto simp: DefaultJobPageSize_def)
  then show ?case
  proof cases
    case fault
    then show ?thesis by (subst tick_pages.simps) (auto intro: paged_fault)
  next
    case page
    obtain acc1 db1 where one: "process_jobs w s now (take 100 rest) acc db = (acc1, db1)" by fastforce
    show ?thesis
    proof (cases "length rest < 100")
      case True
      then have "take 100 rest = rest" by simp
      with page one True show ?thesis
        by (subst tick_pages.simps) (simp add: DefaultJobPageSize_def paged_all)
    next
      case False
      define page rest' where "page = take 100 rest" and "rest' = drop 100 rest"
      have split: "rest = page @ rest'" by (simp add: page_def rest'_def)
      have len: "length page = 100" using False by (simp add: page_def)
      obtain xs z where z: "page = xs @ [z]" using len by (cases page rule: rev_cases) auto
      have s: "sorted_wrt (\<lambda>x y. jws_id x < jws_id y) (pre @ xs @ [z] @ rest')" using less.prems(5) split z by simp
      have before: "jws_id x < jws_id z" if "x \<in> set pre \<union> set xs" for x using s that by (auto simp: sorted_wrt_append)
      have after: "jws_id z < jws_id x" if "x \<in> set rest'" for x using s that by (auto simp: sorted_wrt_append)
      have "xs \<noteq> []" using len z by auto
      then have nonzero: "jws_id z \<noteq> uuid_Nil" using before [of "hd xs"] by auto
      have jobs: "t_jobs db1 = t_jobs db" "t_schedules db1 = t_schedules db" using process_jobs_frame [OF one] by simp_all
      have "\<exists>out. tick_pages w s now (jws_id z) acc1 db1 = Some out \<and> paged w s now rest' acc1 db1 out"
      proof (rule less.hyps)
        show "length rest' < length rest" using False by (simp add: rest'_def)
        show "enabled_jobs db1 = (pre @ page) @ rest'" using less.prems(1) split enabled_jobs_cong [OF jobs] by simp
        show "\<forall>x \<in> set (pre @ page). \<not> jws_id z < jws_id x" using before unfolding z by (auto simp: not_less_iff_gr_or_eq)
        show "sorted_wrt (\<lambda>x y. jws_id x < jws_id y) ((pre @ page) @ rest')" using s z by simp
      qed (use after nonzero in auto)
      then obtain out where out: "tick_pages w s now (jws_id z) acc1 db1 = Some out" "paged w s now rest' acc1 db1 out" by blast
      have "tick_pages w s now afterID acc db = Some out" using page one out(1) len z unfolding page_def [symmetric]
        by (subst tick_pages.simps) (simp add: DefaultJobPageSize_def)
      moreover have "paged w s now rest acc db out"
        by (subst split, rule paged_append [OF one [folded page_def] out(2)])
      ultimately show ?thesis by blast
    qed
  qed
qed

lemma tick_pages_paged:
  assumes "db_ok db"
  obtains out where "tick_pages w s now uuid_Nil acc db = Some out" "paged w s now (enabled_jobs db) acc db out"
  using tick_pages_rest [of "[]" "enabled_jobs db" db uuid_Nil w s now acc] enabled_jobs_sorted [OF assms] by auto

section \<open>Slots of a job\<close>

text \<open>The schedule of a job is understood: its zone loads and its expression parses to the slots \<open>S\<close>.\<close>

definition scheduled_by :: "sched_world \<Rightarrow> JobWithSchedule \<Rightarrow> time set \<Rightarrow> bool" where
  "scheduled_by w jws S \<longleftrightarrow>
     (let tz = (if sch_Timezone (snd jws) = '''' then ''UTC'' else sch_Timezone (snd jws))
      in sw_loadLocation w tz = Inr () \<and> (\<exists>nxt. sw_parse w (sch_CronExpression (snd jws)) tz = Inr nxt \<and> cron_next S nxt))"

lemma process_job_spec:
  assumes "scheduled_by w jws S" "good_world w now {jws_id jws}" "fresh_ids w now db (fst jws) start"
    and "start = windowStart w s jws lastTick now db"
    and "processJobWithProgress w s jws lastTick now db = ((res, err), db')"
  shows "added w (fst jws) {t \<in> S. start < t \<and> t \<le> now} db db' \<and> start \<le> pj_cursor res \<and> pj_cursor res \<le> max start now
    \<and> (\<forall>t \<in> S. start < t \<and> t \<le> pj_cursor res \<longrightarrow> stored db' (jws_id jws) t)
    \<and> (err = None \<and> \<not> pj_capped res \<longrightarrow> (\<forall>t \<in> S. start < t \<and> t \<le> now \<longrightarrow> stored db' (jws_id jws) t))
    \<and> (\<forall>x. stored db' (jws_id jws) x \<and> \<not> stored db (jws_id jws) x \<longrightarrow> (\<forall>t \<in> S. start < t \<and> t \<le> x \<longrightarrow> stored db' (jws_id jws) t))"
proof -
  obtain nxt where nxt: "cron_next S nxt" and "sw_parse w (sch_CronExpression (snd jws))
      (if sch_Timezone (snd jws) = '''' then ''UTC'' else sch_Timezone (snd jws)) = Inr nxt"
    using assms(1) by (auto simp: scheduled_by_def Let_def)
  then have run: "(if nxt start = 0 \<or> \<not> start < nxt start
      then ((\<lparr>pj_triggered = 0, pj_capped = False, pj_cursor = start\<rparr>, None), db)
      else fire_loop w nxt (fst jws) now (nat (if cfg_MaxFiresPerTick (sc_config s) \<le> 0 then 1000 else cfg_MaxFiresPerTick (sc_config s)))
        (nxt start) \<lparr>pj_triggered = 0, pj_capped = False, pj_cursor = start\<rparr> db) = ((res, err), db')"
    using assms(1,5) by (simp add: processJobWithProgress_def Let_def scheduled_by_def assms(4) [symmetric])
  show ?thesis
  proof (cases "nxt start = 0 \<or> \<not> start < nxt start")
    case True
    then have "t \<le> start" if "t \<in> S" for t using cron_next_None [OF nxt _ that, of start] by auto
    with run True show ?thesis by (force simp: added_refl)
  next
    case False
    then have n: "nxt start \<in> S" "start < nxt start" "\<forall>s \<in> S. start < s \<longrightarrow> nxt start \<le> s" using cron_next_Some [OF nxt] by blast+
    from run False obtain i where loop: "fire_loop w nxt (fst jws) now i (nxt start)
        \<lparr>pj_triggered = 0, pj_capped = False, pj_cursor = start\<rparr> db = ((res, err), db')" by auto
    have "pj_cursor \<lparr>pj_triggered = 0, pj_capped = False, pj_cursor = start\<rparr> = start"
      "\<not> pj_capped \<lparr>pj_triggered = 0, pj_capped = False, pj_cursor = start\<rparr>" by simp_all
    from fire_loop_spec [OF nxt assms(2) n assms(3) this loop] fire_loop_gap_free [OF nxt assms(2) n assms(3) loop]
    show ?thesis by blast
  qed
qed

section \<open>Slots of a tick\<close>

text \<open>A job whose schedule is not understood: its zone does not load or its expression does not parse.\<close>

definition not_understood :: "sched_world \<Rightarrow> JobWithSchedule \<Rightarrow> bool" where
  "not_understood w jws \<longleftrightarrow>
     (let tz = (if sch_Timezone (snd jws) = '''' then ''UTC'' else sch_Timezone (snd jws))
      in (\<exists>e. sw_loadLocation w tz = Inl e) \<or> (\<exists>e. sw_parse w (sch_CronExpression (snd jws)) tz = Inl e))"

lemma process_not_understood:
  "not_understood w jws \<Longrightarrow> processJobWithProgress w s jws lastTick now db = ((res, err), db') \<Longrightarrow> db' = db \<and> pj_cursor res = 0"
  by (auto simp: not_understood_def processJobWithProgress_def Let_def split: sum.splits)

lemma added_other:
  "added w job A db db' \<Longrightarrow> j \<noteq> job_ID job \<Longrightarrow> filter (\<lambda>e. ex_JobID e = j) (t_executions db') = filter (\<lambda>e. ex_JobID e = j) (t_executions db)"
  by (auto simp: added_def slot_row_def filter_empty_conv)

lemma windowStart_cong:
  assumes "filter (\<lambda>e. ex_JobID e = jws_id jws) (t_executions db') = filter (\<lambda>e. ex_JobID e = jws_id jws) (t_executions db)"
  shows "windowStart w s jws lastTick now db' = windowStart w s jws lastTick now db"
proof -
  have "filter (\<lambda>e. ex_JobID e = jws_id jws \<and> Q e) (t_executions db') = filter (\<lambda>e. ex_JobID e = jws_id jws \<and> Q e) (t_executions db)" for Q
    using arg_cong [OF assms, of "filter Q"] by (simp only: filter_filter)
  then have "queryGetLastScheduledExecution (jws_id jws) db' = queryGetLastScheduledExecution (jws_id jws) db"
    by (simp add: queryGetLastScheduledExecution_def)
  then have "GetLastScheduledExecution ev (jws_id jws) db' = GetLastScheduledExecution ev (jws_id jws) db" for ev
    by (simp add: GetLastScheduledExecution_def run_query_def split: fault.split)
  then show ?thesis by (simp only: windowStart_def Let_def)
qed

lemma process_jobs_stored: "process_jobs w s now jobs acc db = (acc', db') \<Longrightarrow> stored db j t \<Longrightarrow> stored db' j t"
proof (induction jobs arbitrary: acc db)
  case (Cons jws jobs)
  obtain nlt n where acc: "acc = (nlt, n)" by fastforce
  obtain res err db1 where one: "processJobWithProgress w s jws (sc_lastTick s) now db = ((res, err), db1)" by (metis prod.collapse)
  with Cons.prems acc obtain acc1 where "process_jobs w s now jobs acc1 db1 = (acc', db')" by (auto simp: Let_def)
  from Cons.IH [OF this] added_stored [OF process_job_added [OF one] Cons.prems(2)] show ?case .
qed simp

lemma unused_step:
  assumes "unused w now js db" "good_world w now (insert (job_ID job) js)" "job_ID job \<notin> js"
    and "added w job {t \<in> S. slot_time now t} db db'"
  shows "unused w now js db'"
proof -
  obtain new where new: "db' = db\<lparr>t_executions := t_executions db @ new\<rparr>"
      "\<And>e. e \<in> set new \<Longrightarrow> \<exists>t. slot_time now t \<and> ex_ID e = sw_newID w (job_ID job) t"
    using assms(4) unfolding added_def slot_row_def by blast
  have "sw_newID w j t \<notin> ex_ID ` set new" if "j \<in> js" "slot_time now t" for j t
  proof
    assume "sw_newID w j t \<in> ex_ID ` set new"
    then obtain t' where "slot_time now t'" "sw_newID w j t = sw_newID w (job_ID job) t'" using new(2) by fastforce
    with assms(2) that have "j = job_ID job" unfolding good_world_def by blast
    with that assms(3) show False by simp
  qed
  with assms(1) new(1) show ?thesis by (simp add: unused_def image_Un)
qed

lemma good_world_subset: "good_world w now js \<Longrightarrow> js' \<subseteq> js \<Longrightarrow> good_world w now js'"
  unfolding good_world_def by blast

section \<open>Properties\<close>

text \<open>
  the event bus. Whatever is emitted and received, the dispatcher receives the accepted events in
  order, each once, and the buffer never exceeds its capacity; a rejected event leaves no trace.
\<close>

theorem bus_fifo:
  assumes "bus_step\<^sup>*\<^sup>* (NewEventBus n, [], []) (b, accepted, received)"
  shows "accepted = received @ bus_ch b \<and> length (bus_ch b) \<le> n"
proof -
  have "case st of (b, acc, got) \<Rightarrow> acc = got @ bus_ch b \<and> length (bus_ch b) \<le> bus_cap b \<and> bus_cap b = n"
    if "bus_step\<^sup>*\<^sup>* (NewEventBus n, [], []) st" for st
    using that
  proof (induction rule: rtranclp_induct)
    case base
    show ?case by (simp add: NewEventBus_def)
  next
    case (step y z)
    obtain b acc got where y: "y = (b, acc, got)" by (cases y)
    obtain b' acc' got' where z: "z = (b', acc', got')" by (cases z)
    from bus_step_inv [OF step.hyps(2) [unfolded y z]] step.IH show ?case by (simp add: y z)
  qed
  from this [OF assms] show ?thesis by simp
qed

definition sample_event :: TriggerEvent where
  "sample_event = \<lparr>te_ExecutionID = 3, te_JobID = 2, te_Namespace = ''acme'', te_ScheduledAt = 60, te_FiredAt = 61, te_CreatedAt = 61\<rparr>"

theorem bus_fifo_witness: "[sample_event] = [] @ bus_ch (NewEventBus 1\<lparr>bus_ch := [sample_event]\<rparr>)"
proof -
  have "Emit (NewEventBus 1) sample_event (Inr ()) (NewEventBus 1\<lparr>bus_ch := [sample_event]\<rparr>)"
    using Emit.sent [of "NewEventBus 1" sample_event] by (simp add: NewEventBus_def)
  from bus_step.emit [OF this, of "[]" "[]"]
  have "bus_step\<^sup>*\<^sup>* (NewEventBus 1, [], []) (NewEventBus 1\<lparr>bus_ch := [sample_event]\<rparr>, [sample_event], [])"
    by (simp add: r_into_rtranclp)
  from bus_fifo [OF this] show ?thesis by blast
qed

end
