(* ===== verification/Lease.thy ===== *)
theory Lease
  imports ClaimProtocol
begin

text \<open>
  The local lease of a delivery, \<^verbatim>\<open>internal/dispatcher/ownership.go\<close>, and the cluster it lives in: any
  number of dispatchers that claim, renew, complete and lose executions against one database. The
  main result is that the local deadline, which a dispatcher computes from its own request times,
  never outlives the lease in the database, so at most one live lease exists per execution.
\<close>

section \<open>The lease\<close>

text \<open>
  \<open>l_cause\<close> is the cause the lease's context was cancelled with; the first cause stays. The two
  goroutines and the timers only decide when the functions below run.
\<close>

record executionLease =
  l_execution :: Execution
  l_duration :: duration
  l_deadline :: time
  l_cause :: "err option"

definition newExecutionLease :: "duration \<Rightarrow> Execution \<Rightarrow> time \<Rightarrow> executionLease" where
  "newExecutionLease dur execution claimStarted =
     \<lparr>l_execution = execution, l_duration = dur, l_deadline = claimStarted + dur, l_cause = None\<rparr>"

definition lease_cancel :: "err \<Rightarrow> executionLease \<Rightarrow> executionLease" where
  "lease_cancel cause l = (case l_cause l of None \<Rightarrow> l\<lparr>l_cause := Some cause\<rparr> | Some _ \<Rightarrow> l)"

text \<open>The period of the renewal ticker.\<close>

definition renew_period :: "duration \<Rightarrow> duration" where
  "renew_period dur = min (go_div dur 4) (30 * Second)"

text \<open>One pass of the watchdog loop.\<close>

definition watchExpiry :: "time \<Rightarrow> executionLease \<Rightarrow> executionLease" where
  "watchExpiry now l = (if l_deadline l - now \<le> 0 then lease_cancel ErrExecutionClaimLost l else l)"

text \<open>The clean-up of an operation context, and its deadline callback: an operation that outlived its
  deadline revokes the lease unless its parent context is already done.\<close>

definition operation_done :: "bool \<Rightarrow> time \<Rightarrow> time \<Rightarrow> executionLease \<Rightarrow> executionLease" where
  "operation_done parentDone started finished l =
     (if started + OwnershipOperationTimeout \<le> finished \<and> \<not> parentDone then lease_cancel DeadlineExceeded l else l)"

text \<open>
  \<open>renew\<close> after its entry check: the request started at \<open>started\<close>, the store answered \<open>res\<close> at
  \<open>finished\<close>, and the deadline is rechecked at \<open>now\<close>. \<open>stopped\<close> says that renewal itself was stopped
  (the parent context of the ticker's calls).
\<close>

definition renew_entry :: "bool \<Rightarrow> executionLease \<Rightarrow> err option" where
  "renew_entry stopped l = (case l_cause l of Some e \<Rightarrow> Some e | None \<Rightarrow> if stopped then Some Canceled else None)"

definition renew :: "bool \<Rightarrow> time \<Rightarrow> unit result \<Rightarrow> time \<Rightarrow> time \<Rightarrow> executionLease \<Rightarrow> unit result \<times> executionLease" where
  "renew stopped started res finished now l =
     (let l = operation_done (l_cause l \<noteq> None \<or> stopped) started finished l
      in case res of
           Inl e \<Rightarrow> (Inl e, if l_cause l = None \<and> \<not> stopped
                             then lease_cancel (Wrapped ''execution ownership uncertain'' e) l else l)
         | Inr _ \<Rightarrow>
             (case l_cause l of
                Some c \<Rightarrow> (Inl c, l)
              | None \<Rightarrow>
                  if l_deadline l \<le> now then (Inl ErrExecutionClaimLost, lease_cancel ErrExecutionClaimLost l)
                  else (Inr (), l\<lparr>l_deadline := started + l_duration l\<rparr>)))"

text \<open>\<open>complete\<close> after renewal has stopped: the store's answer counts only if the lease is still live.\<close>

definition complete :: "time \<Rightarrow> unit result \<Rightarrow> time \<Rightarrow> executionLease \<Rightarrow> unit result \<times> executionLease" where
  "complete started res finished l =
     (case l_cause l of
        Some c \<Rightarrow> (Inl c, l)
      | None \<Rightarrow>
          (let l = operation_done False started finished l
           in case l_cause l of Some c \<Rightarrow> (Inl c, l) | None \<Rightarrow> (res, l)))"

definition close :: "executionLease \<Rightarrow> executionLease" where
  "close l = lease_cancel Canceled l"

text \<open>A lease its holder may act on: not cancelled and before its deadline.\<close>

definition live :: "time \<Rightarrow> executionLease \<Rightarrow> bool" where
  "live now l \<longleftrightarrow> l_cause l = None \<and> now < l_deadline l"

lemma lease_cancel_simps [simp]:
  "l_execution (lease_cancel c l) = l_execution l" "l_duration (lease_cancel c l) = l_duration l"
  "l_deadline (lease_cancel c l) = l_deadline l" "l_cause (lease_cancel c l) \<noteq> None"
  by (auto simp: lease_cancel_def split: option.split)

lemma lease_cancel_cause [simp]: "\<exists>y. l_cause (lease_cancel c l) = Some y"
  by (auto simp: lease_cancel_def split: option.split)

lemma not_live_cancel [simp]: "\<not> live now (lease_cancel c l)"
  by (simp add: live_def)

lemma operation_done_cases:
  "operation_done p s f l = l \<or> operation_done p s f l = lease_cancel DeadlineExceeded l"
  by (simp add: operation_done_def)

lemma watchExpiry_cases: "watchExpiry now l = l \<or> watchExpiry now l = lease_cancel ErrExecutionClaimLost l"
  by (simp add: watchExpiry_def)

text \<open>What a renewal leaves: a lease that cannot be used, or one whose deadline moved to the start of a
  request the database granted; it was live until that moment.\<close>

lemma renew_cases:
  assumes "renew stopped started res finished now l = (r, l')"
  obtains (dead) "l_cause l' \<noteq> None" "l_execution l' = l_execution l" "l_duration l' = l_duration l"
      "l_deadline l' = l_deadline l"
  | (same) "l' = l"
  | (renewed) "res = Inr ()" "r = Inr ()" "l_cause l = None" "now < l_deadline l" "l' = l\<lparr>l_deadline := started + l_duration l\<rparr>"
  using assms operation_done_cases [of "l_cause l \<noteq> None \<or> stopped" started finished l]
  by (auto simp: renew_def Let_def split: sum.splits option.splits if_splits)

section \<open>Claims survive what others do\<close>

text \<open>
  While a lease in the database is not over, no operation except the deletion of the job and the
  completion of the claim takes the row away: it stays in progress under the same generation, and a
  renewal only moves the lease to the clock plus the duration.
\<close>

definition claim_kept :: "time \<Rightarrow> duration \<Rightarrow> db \<Rightarrow> db \<Rightarrow> bool" where
  "claim_kept clk dur db db' \<longleftrightarrow>
     (\<forall>r \<in> set (t_executions db). \<forall>L. ex_Status r = InProgress \<longrightarrow> ex_LeaseUntil r = Some L \<longrightarrow> clk < L \<longrightarrow>
        (\<exists>r' \<in> set (t_executions db'). ex_ID r' = ex_ID r \<and> ex_Namespace r' = ex_Namespace r
           \<and> ex_ClaimGeneration r' = ex_ClaimGeneration r \<and> ex_Status r' = InProgress
           \<and> (\<exists>L'. ex_LeaseUntil r' = Some L' \<and> min L (clk + dur) \<le> L')))"

lemma claim_keptI:
  assumes "\<And>r L. r \<in> set (t_executions db) \<Longrightarrow> ex_Status r = InProgress \<Longrightarrow> ex_LeaseUntil r = Some L \<Longrightarrow> clk < L
    \<Longrightarrow> r \<in> set (t_executions db')"
  shows "claim_kept clk dur db db'"
  unfolding claim_kept_def
proof (intro ballI allI impI)
  fix r L assume "r \<in> set (t_executions db)" "ex_Status r = InProgress" "ex_LeaseUntil r = Some L" "clk < L"
  then show "\<exists>r' \<in> set (t_executions db'). ex_ID r' = ex_ID r \<and> ex_Namespace r' = ex_Namespace r
      \<and> ex_ClaimGeneration r' = ex_ClaimGeneration r \<and> ex_Status r' = InProgress
      \<and> (\<exists>L'. ex_LeaseUntil r' = Some L' \<and> min L (clk + dur) \<le> L')"
    using assms by (intro bexI [of _ r]) auto
qed

lemma claim_kept_same: "t_executions db' = t_executions db \<Longrightarrow> claim_kept clk dur db db'"
  by (rule claim_keptI) simp

lemma claim_kept_append: "t_executions db' = t_executions db @ es \<Longrightarrow> claim_kept clk dur db db'"
  by (rule claim_keptI) simp

lemma claim_kept_upd:
  assumes "t_executions db' = upd_where P f (t_executions db)"
    and "\<And>r L. r \<in> set (t_executions db) \<Longrightarrow> ex_Status r = InProgress \<Longrightarrow> ex_LeaseUntil r = Some L \<Longrightarrow> clk < L \<Longrightarrow> \<not> P r"
  shows "claim_kept clk dur db db'"
  using assms by (intro claim_keptI) (auto simp: upd_where_keep)

definition foreign :: "Store \<Rightarrow> store_op \<Rightarrow> bool" where
  "foreign s op \<longleftrightarrow> (case op of OpCompleteExecution e st \<Rightarrow> False | OpDeleteJob i ns \<Rightarrow> False
     | OpRenewExecutionClaim s' e \<Rightarrow> s' = s | _ \<Rightarrow> True)"

lemma leased_gen: "exec_ok r \<Longrightarrow> ex_LeaseUntil r = Some L \<Longrightarrow> 0 < ex_ClaimGeneration r"
  by (auto simp: exec_ok_def order_less_le)

lemma queryUpdateExecutionStatus_kept: "db_ok db \<Longrightarrow> claim_kept clk dur db (snd (queryUpdateExecutionStatus st i db))"
  unfolding queryUpdateExecutionStatus_def Let_def snd_conv
  by (rule claim_kept_upd, simp) (auto dest!: row_exec_ok simp: exec_ok_def)

lemma queryAckExecution_kept: "claim_kept clk dur db (snd (queryAckExecution c i ns db))"
  unfolding queryAckExecution_def Let_def snd_conv by (rule claim_kept_upd, simp) auto

lemma queryInsertExecution_kept: "claim_kept clk dur db (snd (queryInsertExecution e db))"
  by (auto simp: queryInsertExecution_def intro: claim_kept_append claim_kept_same)

lemma queryClaimExecution_kept: "claim_kept clk dur db (snd (queryClaimExecution c i ns ms db))"
  unfolding queryClaimExecution_def Let_def snd_conv by (rule claim_kept_upd, simp) auto

lemma picked_kept:
  assumes "db_ok db" "\<And>e. P e \<Longrightarrow> ex_Status e = Emitted"
  shows "claim_kept clk dur db (db\<lparr>t_executions := upd_where (\<lambda>e. ex_ID e \<in> ex_ID ` set (order_limit k n (filter P (t_executions db)))) f (t_executions db)\<rparr>)"
  by (rule claim_kept_upd, simp) (use picked_by_id [OF assms(1)] assms(2) in force)

lemma queryDequeueExecutions_kept: "db_ok db \<Longrightarrow> claim_kept clk dur db (snd (queryDequeueExecutions l c n ms db))"
  unfolding queryDequeueExecutions_def Let_def snd_conv by (rule picked_kept) simp_all

lemma queryDequeueExecution_kept: "db_ok db \<Longrightarrow> claim_kept clk dur db (snd (queryDequeueExecution l c ms db))"
proof (cases "order_limit ex_CreatedAt 1 (filter (\<lambda>e. ex_Status e = Emitted \<and> ex_ID e \<notin> l) (t_executions db))")
  case (Cons x xs)
  assume ok: "db_ok db"
  from order_limit_ConsD [OF Cons] have x: "x \<in> set (t_executions db)" "ex_Status x = Emitted" by simp_all
  show ?thesis unfolding queryDequeueExecution_def Cons list.case snd_conv
    by (rule claim_kept_upd, simp) (use execution_by_id [OF ok _ x(1)] x(2) in fastforce)
qed (simp add: queryDequeueExecution_def claim_kept_same)

lemma queryRequeueStaleExecutions_kept: "db_ok db \<Longrightarrow> claim_kept clk dur db (snd (queryRequeueStaleExecutions l clk n db))"
proof -
  assume ok: "db_ok db"
  show ?thesis unfolding queryRequeueStaleExecutions_def Let_def snd_conv
    by (rule claim_kept_upd, simp) (use picked_by_id [OF ok] in \<open>fastforce simp: stale_row_def\<close>)
qed

lemma queryRenewExecutionClaim_kept:
  assumes "dur = ms * Millisecond"
  shows "claim_kept clk dur db (snd (queryRenewExecutionClaim clk i ns g ms db))"
  unfolding claim_kept_def
proof (intro ballI allI impI)
  fix r L assume r: "r \<in> set (t_executions db)" "ex_Status r = InProgress" "ex_LeaseUntil r = Some L" "clk < L"
  let ?f = "\<lambda>e. e\<lparr>ex_LeaseUntil := Some (clk + ms * Millisecond)\<rparr>" and ?P = "owned_row clk i ns g"
  have rows: "t_executions (snd (queryRenewExecutionClaim clk i ns g ms db)) = upd_where ?P ?f (t_executions db)"
    by (simp add: queryRenewExecutionClaim_def Let_def)
  show "\<exists>r' \<in> set (t_executions (snd (queryRenewExecutionClaim clk i ns g ms db))). ex_ID r' = ex_ID r
      \<and> ex_Namespace r' = ex_Namespace r \<and> ex_ClaimGeneration r' = ex_ClaimGeneration r \<and> ex_Status r' = InProgress
      \<and> (\<exists>L'. ex_LeaseUntil r' = Some L' \<and> min L (clk + dur) \<le> L')"
  proof (cases "?P r")
    case True
    then show ?thesis unfolding rows using upd_where_mem [of r _ ?P ?f, OF r(1)] r assms by (intro bexI [of _ "?f r"]) auto
  next
    case False
    then show ?thesis unfolding rows using upd_where_keep [of r _ ?P ?f, OF r(1)] r by (intro bexI [of _ r]) auto
  qed
qed

lemmas query_kept = queryUpdateExecutionStatus_kept queryAckExecution_kept queryInsertExecution_kept
  queryClaimExecution_kept queryDequeueExecutions_kept queryDequeueExecution_kept queryRequeueStaleExecutions_kept
  queryRenewExecutionClaim_kept

lemma DequeueExecutions_kept: "db_ok db \<Longrightarrow> claim_kept clk dur db (snd (DequeueExecutions s ev n db))"
  by (simp add: DequeueExecutions_def run_stmt_def ok_stmt_def query_kept claim_kept_same split: fault.split)

lemma foreign_kept:
  assumes "db_ok db" "foreign s op" "de_clk ev = clk" "dur = lease_ms s * Millisecond"
  shows "claim_kept clk dur db (exec_op (ev, op) db)"
  using assms
  by (cases op) (auto simp: method_frames claim_kept_same method_defs snd_SetJobEnabled query_frames foreign_def
      run_stmt_def ok_stmt_def query_kept DequeueExecutions_kept split: fault.split)

section \<open>The cluster\<close>

text \<open>
  \<open>cl_now\<close> is real time; a dispatcher's monotonic clock reads it and the database clock reads it plus
  a fixed offset, so the two never have to agree but advance alike. A claim call is under way from
  its start (\<open>cl_claims\<close>, with the executions granted and not yet handed to a delivery), a delivery
  holds a lease with at most one renewal under way (its start and, once the statement ran, the
  store's answer), and \<open>cl_completing\<close> are the claims whose holder has issued the completion: the
  statement may run at any later time, or never.
\<close>

type_synonym renewal = "(time \<times> unit result option) option"

record cluster =
  cl_db :: db
  cl_now :: time
  cl_claims :: "(time \<times> Execution list) list"
  cl_leases :: "(executionLease \<times> renewal) list"
  cl_completing :: "Execution list"

definition at_clock :: "int \<Rightarrow> cluster \<Rightarrow> dbenv \<Rightarrow> bool" where
  "at_clock off c ev \<longleftrightarrow> de_clk ev = cl_now c + off"

text \<open>The executions a claim call grants.\<close>

definition grants :: "Store \<Rightarrow> dbenv \<Rightarrow> db \<Rightarrow> Execution list \<Rightarrow> db \<Rightarrow> bool" where
  "grants s ev db cs db' \<longleftrightarrow>
     (\<exists>n. DequeueExecutions s ev n db = (Inr cs, db'))
     \<or> (\<exists>e. cs = [e] \<and> DequeueExecution s ev db = (Inr (Some e), db'))
     \<or> (\<exists>i ns e. cs = [e] \<and> ClaimExecution s ev i ns db = (Inr (Some e), db'))"

inductive cstep :: "Store \<Rightarrow> int \<Rightarrow> cluster \<Rightarrow> cluster \<Rightarrow> bool" for s off where
  time: "0 \<le> d \<Longrightarrow> cstep s off c (c\<lparr>cl_now := cl_now c + d\<rparr>)"
| other: "foreign s op \<Longrightarrow> at_clock off c ev \<Longrightarrow> cstep s off c (c\<lparr>cl_db := exec_op (ev, op) (cl_db c)\<rparr>)"
| claim_start: "cstep s off c (c\<lparr>cl_claims := cl_claims c @ [(cl_now c, [])]\<rparr>)"
| claim_grant: "i < length (cl_claims c) \<Longrightarrow> cl_claims c ! i = (t0, []) \<Longrightarrow> at_clock off c ev
    \<Longrightarrow> grants s ev (cl_db c) es db'
    \<Longrightarrow> cstep s off c (c\<lparr>cl_db := db', cl_claims := (cl_claims c)[i := (t0, es)]\<rparr>)"
| claim_return: "i < length (cl_claims c) \<Longrightarrow> cl_claims c ! i = (t0, e # es)
    \<Longrightarrow> cstep s off c (c\<lparr>cl_claims := (cl_claims c)[i := (t0, es)],
          cl_leases := cl_leases c @ [(newExecutionLease (ExecutionLeaseDuration s) e t0, None)]\<rparr>)"
| renew_start: "i < length (cl_leases c) \<Longrightarrow> cl_leases c ! i = (l, None) \<Longrightarrow> renew_entry False l = None
    \<Longrightarrow> cstep s off c (c\<lparr>cl_leases := (cl_leases c)[i := (l, Some (cl_now c, None))]\<rparr>)"
| renew_apply: "i < length (cl_leases c) \<Longrightarrow> cl_leases c ! i = (l, Some (t0, None)) \<Longrightarrow> at_clock off c ev
    \<Longrightarrow> RenewExecutionClaim s ev (l_execution l) (cl_db c) = (res, db')
    \<Longrightarrow> cstep s off c (c\<lparr>cl_db := db', cl_leases := (cl_leases c)[i := (l, Some (t0, Some res))]\<rparr>)"
| renew_return: "i < length (cl_leases c) \<Longrightarrow> cl_leases c ! i = (l, Some (t0, Some res))
    \<Longrightarrow> renew stopped t0 res fin (cl_now c) l = (r, l')
    \<Longrightarrow> cstep s off c (c\<lparr>cl_leases := (cl_leases c)[i := (l', None)]\<rparr>)"
| renew_fail: "i < length (cl_leases c) \<Longrightarrow> cl_leases c ! i = (l, Some (t0, any))
    \<Longrightarrow> renew stopped t0 (Inl e) fin (cl_now c) l = (r, l')
    \<Longrightarrow> cstep s off c (c\<lparr>cl_leases := (cl_leases c)[i := (l', None)]\<rparr>)"
| watchdog: "i < length (cl_leases c) \<Longrightarrow> cl_leases c ! i = (l, rn)
    \<Longrightarrow> cstep s off c (c\<lparr>cl_leases := (cl_leases c)[i := (watchExpiry (cl_now c) l, rn)]\<rparr>)"
| cancelled: "i < length (cl_leases c) \<Longrightarrow> cl_leases c ! i = (l, rn)
    \<Longrightarrow> cstep s off c (c\<lparr>cl_leases := (cl_leases c)[i := (lease_cancel e l, rn)]\<rparr>)"
| complete_start: "i < length (cl_leases c) \<Longrightarrow> cl_leases c ! i = (l, rn) \<Longrightarrow> l_cause l = None
    \<Longrightarrow> cstep s off c (c\<lparr>cl_leases := take i (cl_leases c) @ drop (Suc i) (cl_leases c),
          cl_completing := l_execution l # cl_completing c\<rparr>)"
| complete_apply: "e \<in> set (cl_completing c) \<Longrightarrow> at_clock off c ev
    \<Longrightarrow> cstep s off c (c\<lparr>cl_db := snd (CompleteExecution ev e st (cl_db c))\<rparr>)"

inductive creach :: "Store \<Rightarrow> int \<Rightarrow> cluster \<Rightarrow> bool" for s off where
  start: "db_ok db \<Longrightarrow> creach s off \<lparr>cl_db = db, cl_now = now, cl_claims = [], cl_leases = [], cl_completing = []\<rparr>"
| step: "creach s off c \<Longrightarrow> cstep s off c c' \<Longrightarrow> creach s off c'"

text \<open>The claims the cluster remembers, by execution and generation.\<close>

abbreviation claim_id :: "Execution \<Rightarrow> uuid \<times> int" where
  "claim_id e \<equiv> (ex_ID e, ex_ClaimGeneration e)"

definition known_claims :: "cluster \<Rightarrow> (uuid \<times> int) list" where
  "known_claims c = map claim_id (concat (map snd (cl_claims c)))
     @ map (\<lambda>(l, rn). claim_id (l_execution l)) (cl_leases c) @ map claim_id (cl_completing c)"

text \<open>The row of a claim is still its own until \<open>deadline\<close> at least.\<close>

definition backed :: "int \<Rightarrow> db \<Rightarrow> Execution \<Rightarrow> time \<Rightarrow> bool" where
  "backed off db e deadline \<longleftrightarrow>
     (\<exists>r \<in> set (t_executions db). ex_ID r = ex_ID e \<and> ex_Namespace r = ex_Namespace e
        \<and> ex_ClaimGeneration r = ex_ClaimGeneration e \<and> ex_Status r = InProgress
        \<and> (\<exists>L. ex_LeaseUntil r = Some L \<and> deadline + off \<le> L))"

definition lease_ok :: "Store \<Rightarrow> int \<Rightarrow> cluster \<Rightarrow> executionLease \<times> renewal \<Rightarrow> bool" where
  "lease_ok s off c lr \<longleftrightarrow>
     (let (l, rn) = lr in l_duration l = ExecutionLeaseDuration s
        \<and> l_deadline l \<le> cl_now c + ExecutionLeaseDuration s
        \<and> (live (cl_now c) l \<longrightarrow> backed off (cl_db c) (l_execution l) (l_deadline l))
        \<and> (case rn of None \<Rightarrow> True
           | Some (t0, res) \<Rightarrow> t0 \<le> cl_now c \<and> l_deadline l \<le> t0 + ExecutionLeaseDuration s
               \<and> (res = Some (Inr ()) \<longrightarrow> live (cl_now c) l
                    \<longrightarrow> backed off (cl_db c) (l_execution l) (t0 + ExecutionLeaseDuration s))))"

definition claim_ok :: "Store \<Rightarrow> int \<Rightarrow> cluster \<Rightarrow> time \<times> Execution list \<Rightarrow> bool" where
  "claim_ok s off c tc \<longleftrightarrow> fst tc \<le> cl_now c
     \<and> (\<forall>e \<in> set (snd tc). cl_now c < fst tc + ExecutionLeaseDuration s
          \<longrightarrow> backed off (cl_db c) e (fst tc + ExecutionLeaseDuration s))"

definition cluster_ok :: "Store \<Rightarrow> int \<Rightarrow> cluster \<Rightarrow> bool" where
  "cluster_ok s off c \<longleftrightarrow> db_ok (cl_db c) \<and> distinct (known_claims c)
     \<and> (\<forall>(i, g) \<in> set (known_claims c). 0 < g \<and> (\<exists>r \<in> set (t_executions (cl_db c)). ex_ID r = i \<and> g \<le> ex_ClaimGeneration r))
     \<and> (\<forall>tc \<in> set (cl_claims c). claim_ok s off c tc)
     \<and> (\<forall>lr \<in> set (cl_leases c). lease_ok s off c lr)"

lemma known_claims_db [simp]: "known_claims (c\<lparr>cl_db := db\<rparr>) = known_claims c"
  and known_claims_now [simp]: "known_claims (c\<lparr>cl_now := t\<rparr>) = known_claims c"
  by (simp_all add: known_claims_def)

lemma backed_kept:
  assumes kept: "claim_kept (now + off) dur db db'" and "backed off db e d" "now < d" "d \<le> now + dur"
  shows "backed off db' e d"
proof -
  obtain r L where r: "r \<in> set (t_executions db)" "ex_Status r = InProgress" "ex_LeaseUntil r = Some L"
      "ex_ID r = ex_ID e" "ex_Namespace r = ex_Namespace e" "ex_ClaimGeneration r = ex_ClaimGeneration e" "d + off \<le> L"
    using assms(2) unfolding backed_def by blast
  then have "now + off < L" using assms(3) by simp
  with kept r(1-3) obtain r' L' where "r' \<in> set (t_executions db')" "ex_ID r' = ex_ID r" "ex_Namespace r' = ex_Namespace r"
      "ex_ClaimGeneration r' = ex_ClaimGeneration r" "ex_Status r' = InProgress" "ex_LeaseUntil r' = Some L'"
      "min L (now + off + dur) \<le> L'"
    unfolding claim_kept_def by blast
  with r assms(4) show ?thesis unfolding backed_def by (intro bexI [of _ r']) auto
qed

text \<open>Changing the database alone.\<close>

lemma cluster_ok_db:
  assumes ok: "cluster_ok s off c" and db: "db_ok db'" "\<And>j. progress j (cl_db c) db'"
    and kept: "\<And>e d. e \<in> set (concat (map snd (cl_claims c)) @ map (l_execution \<circ> fst) (cl_leases c))
      \<Longrightarrow> backed off (cl_db c) e d \<Longrightarrow> cl_now c < d \<Longrightarrow> d \<le> cl_now c + ExecutionLeaseDuration s \<Longrightarrow> backed off db' e d"
  shows "cluster_ok s off (c\<lparr>cl_db := db'\<rparr>)"
proof -
  have "\<exists>r \<in> set (t_executions db'). ex_ID r = i \<and> g \<le> ex_ClaimGeneration r" if "(i, g) \<in> set (known_claims c)" for i g
  proof -
    from ok that obtain r where r: "r \<in> set (t_executions (cl_db c))" "ex_ID r = i" "g \<le> ex_ClaimGeneration r"
      by (auto simp: cluster_ok_def)
    with db(2) [of "ex_JobID r"] obtain r' where "r' \<in> set (t_executions db')" "advances r r'"
      by (auto simp: progress_def)
    with r show ?thesis by (intro bexI [of _ r']) (auto simp: advances_def same_execution_def)
  qed
  moreover have "claim_ok s off (c\<lparr>cl_db := db'\<rparr>) tc" if "tc \<in> set (cl_claims c)" for tc
  proof -
    have "claim_ok s off c tc" using ok that by (simp add: cluster_ok_def)
    then show ?thesis using kept that by (fastforce simp: claim_ok_def)
  qed
  moreover have "lease_ok s off (c\<lparr>cl_db := db'\<rparr>) lr" if "lr \<in> set (cl_leases c)" for lr
  proof -
    obtain l rn where lr: "lr = (l, rn)" by fastforce
    have "lease_ok s off c (l, rn)" using ok that lr by (simp add: cluster_ok_def)
    moreover have "l_execution l \<in> set (concat (map snd (cl_claims c)) @ map (l_execution \<circ> fst) (cl_leases c))"
      using that lr by force
    ultimately show ?thesis using kept [of "l_execution l"] unfolding lr
      by (auto simp: lease_ok_def live_def split: option.splits)
  qed
  ultimately show ?thesis using ok db(1) by (auto simp: cluster_ok_def)
qed

lemma cluster_ok_exec_op:
  assumes ok: "cluster_ok s off c" and f: "foreign s op" "at_clock off c ev"
    and dur: "ExecutionLeaseDuration s = lease_ms s * Millisecond"
  shows "cluster_ok s off (c\<lparr>cl_db := exec_op (ev, op) (cl_db c)\<rparr>)"
proof (rule cluster_ok_db [OF ok])
  have db: "db_ok (cl_db c)" using ok by (simp add: cluster_ok_def)
  then show "db_ok (exec_op (ev, op) (cl_db c))" by (rule exec_op_ok)
  have "\<not> deletes j op" for j using f(1) by (cases op) (auto simp: foreign_def)
  then show "progress j (cl_db c) (exec_op (ev, op) (cl_db c))" for j by (rule exec_op_progress [OF db])
  have "claim_kept (cl_now c + off) (ExecutionLeaseDuration s) (cl_db c) (exec_op (ev, op) (cl_db c))"
    by (rule foreign_kept [OF db f(1) _ dur]) (use f(2) in \<open>simp add: at_clock_def\<close>)
  then show "backed off (exec_op (ev, op) (cl_db c)) e d"
    if "backed off (cl_db c) e d" "cl_now c < d" "d \<le> cl_now c + ExecutionLeaseDuration s" for e d
    using that by (rule backed_kept)
qed

text \<open>Changing one lease without changing the database.\<close>

lemma set_update_split:
  "i < length xs \<Longrightarrow> set (xs[i := y]) = insert y (set (take i xs) \<union> set (drop (Suc i) xs))"
  by (simp add: upd_conv_take_nth_drop)

lemma set_others_subset: "set (take i xs) \<union> set (drop (Suc i) xs) \<subseteq> set xs"
  by (simp add: set_take_subset set_drop_subset)

lemma lease_ok_cong:
  "cl_db c' = cl_db c \<Longrightarrow> cl_now c' = cl_now c \<Longrightarrow> lease_ok s off c' lr = lease_ok s off c lr"
  by (auto simp: lease_ok_def split: prod.splits option.splits)

lemma cluster_ok_lease:
  assumes ok: "cluster_ok s off c" and i: "i < length (cl_leases c)" "cl_leases c ! i = (l, rn)"
    and same: "l_execution l' = l_execution l" and new: "lease_ok s off c (l', rn')"
  shows "cluster_ok s off (c\<lparr>cl_leases := (cl_leases c)[i := (l', rn')]\<rparr>)"
proof -
  have "map (\<lambda>(l, rn). claim_id (l_execution l)) ((cl_leases c)[i := (l', rn')]) = map (\<lambda>(l, rn). claim_id (l_execution l)) (cl_leases c)"
    (is "map ?f _ = _")
  proof -
    have "?f (l', rn') = map ?f (cl_leases c) ! i" using i same by simp
    then show ?thesis by (simp only: map_update list_update_id)
  qed
  then have "known_claims (c\<lparr>cl_leases := (cl_leases c)[i := (l', rn')]\<rparr>) = known_claims c"
    by (simp add: known_claims_def)
  moreover have "lease_ok s off (c\<lparr>cl_leases := (cl_leases c)[i := (l', rn')]\<rparr>) lr" if "lr \<in> set ((cl_leases c)[i := (l', rn')])" for lr
  proof -
    have "lease_ok s off c lr"
      using that new ok set_others_subset [of i "cl_leases c"] unfolding set_update_split [OF i(1)] cluster_ok_def by blast
    then show ?thesis using lease_ok_cong [of "c\<lparr>cl_leases := (cl_leases c)[i := (l', rn')]\<rparr>" c s off lr] by simp
  qed
  ultimately show ?thesis using ok by (simp add: cluster_ok_def claim_ok_def)
qed

lemma cluster_ok_nth_lease: "cluster_ok s off c \<Longrightarrow> i < length (cl_leases c) \<Longrightarrow> lease_ok s off c (cl_leases c ! i)"
  by (simp add: cluster_ok_def)

lemma lease_ok_dead:
  "lease_ok s off c (l, rn) \<Longrightarrow> l_cause l' \<noteq> None \<Longrightarrow> l_duration l' = l_duration l \<Longrightarrow> l_deadline l' = l_deadline l
   \<Longrightarrow> rn' = rn \<or> rn' = None \<Longrightarrow> lease_ok s off c (l', rn')"
  by (auto simp: lease_ok_def live_def split: option.splits)

section \<open>Every step keeps the cluster's invariant\<close>

lemma claim_ok_cong:
  "cl_db c' = cl_db c \<Longrightarrow> cl_now c' = cl_now c \<Longrightarrow> claim_ok s off c' tc = claim_ok s off c tc"
  by (simp add: claim_ok_def)

lemma step_time: "cluster_ok s off c \<Longrightarrow> 0 \<le> d \<Longrightarrow> cluster_ok s off (c\<lparr>cl_now := cl_now c + d\<rparr>)"
proof -
  assume ok: "cluster_ok s off c" and d: "0 \<le> d"
  have "claim_ok s off (c\<lparr>cl_now := cl_now c + d\<rparr>) tc" if "claim_ok s off c tc" for tc
    using that d by (auto simp: claim_ok_def)
  moreover have "lease_ok s off (c\<lparr>cl_now := cl_now c + d\<rparr>) lr" if "lease_ok s off c lr" for lr
    using that d by (auto simp: lease_ok_def live_def split: prod.splits option.splits)
  ultimately show ?thesis using ok by (simp add: cluster_ok_def)
qed

lemma step_claim_start: "cluster_ok s off c \<Longrightarrow> cluster_ok s off (c\<lparr>cl_claims := cl_claims c @ [(cl_now c, [])]\<rparr>)"
proof -
  assume ok: "cluster_ok s off c"
  let ?c = "c\<lparr>cl_claims := cl_claims c @ [(cl_now c, [])]\<rparr>"
  have "known_claims ?c = known_claims c" by (simp add: known_claims_def)
  moreover have "claim_ok s off c (cl_now c, [])" by (simp add: claim_ok_def)
  ultimately show ?thesis using ok lease_ok_cong [of ?c c] claim_ok_cong [of ?c c] by (simp add: cluster_ok_def)
qed

lemma grants_exec_op:
  assumes "grants s ev db es db'"
  obtains op where "foreign s op" "db' = exec_op (ev, op) db"
  using assms unfolding grants_def
proof (elim disjE exE conjE)
  fix n assume "DequeueExecutions s ev n db = (Inr es, db')"
  then show thesis using that [of "OpDequeueExecutions s n"] by (simp add: foreign_def)
next
  fix e assume "DequeueExecution s ev db = (Inr (Some e), db')"
  then show thesis using that [of "OpDequeueExecution s"] by (simp add: foreign_def)
next
  fix i ns e assume "ClaimExecution s ev i ns db = (Inr (Some e), db')"
  then show thesis using that [of "OpClaimExecution s i ns"] by (simp add: foreign_def)
qed

lemma grants_claims: "grants s ev db es db' \<Longrightarrow> e \<in> set es \<Longrightarrow> claims s ev db e db'"
  by (auto simp: grants_def claims_def)

lemma grants_distinct: "db_ok db \<Longrightarrow> grants s ev db es db' \<Longrightarrow> distinct (map ex_ID es)"
proof -
  assume ok: "db_ok db" and g: "grants s ev db es db'"
  have "distinct (map ex_ID es)" if "DequeueExecutions s ev n db = (Inr es, db')" for n
  proof (cases "1 \<le> n")
    case True
    then show ?thesis using DequeueExecutions_facts(2) [OF ok _ that] by simp
  qed (use that in \<open>simp add: DequeueExecutions_def\<close>)
  with g show ?thesis by (auto simp: grants_def)
qed

lemma granted_backed:
  assumes g: "grants s ev db es db'" and e: "e \<in> set es" and clk: "de_clk ev = now + off" and "t0 \<le> now"
    and dur: "ExecutionLeaseDuration s = lease_ms s * Millisecond"
  shows "backed off db' e (t0 + ExecutionLeaseDuration s)"
proof -
  obtain r where "e = claim_row (de_clk ev) (lease_ms s) r" "e \<in> set (t_executions db')"
    using claimsD [OF grants_claims [OF g e]] by metis
  then show ?thesis using clk dur \<open>t0 \<le> now\<close> unfolding backed_def by (intro bexI [of _ e]) auto
qed

lemma granted_new:
  assumes ok: "db_ok db" and g: "grants s ev db es db'" and e: "e \<in> set es"
    and r: "r \<in> set (t_executions db)" "ex_ID r = ex_ID e"
  shows "ex_ClaimGeneration r < ex_ClaimGeneration e"
proof -
  obtain r0 where r0: "r0 \<in> set (t_executions db)" "e = claim_row (de_clk ev) (lease_ms s) r0"
    using claimsD [OF grants_claims [OF g e]] by metis
  then have "r0 = r" using execution_by_id [OF ok r0(1) r(1)] r(2) by simp
  with r0(2) show ?thesis by simp
qed

lemma concat_update:
  assumes "i < length xs" "xs ! i = (t0, es)"
  shows "\<exists>as bs. concat (map snd xs) = as @ es @ bs \<and> concat (map snd (xs[i := (t, es')])) = as @ es' @ bs"
proof -
  have "concat (map snd xs) = concat (map snd (take i xs)) @ es @ concat (map snd (drop (Suc i) xs))"
    using id_take_nth_drop [OF assms(1)] assms(2) by (metis concat_append concat.simps(2) list.simps(9) map_append snd_conv)
  moreover have "concat (map snd (xs[i := (t, es')])) = concat (map snd (take i xs)) @ es' @ concat (map snd (drop (Suc i) xs))"
    using assms(1) by (simp add: upd_conv_take_nth_drop)
  ultimately show ?thesis by blast
qed

lemma distinct_insert_mid:
  "distinct (as @ bs) \<Longrightarrow> distinct xs \<Longrightarrow> set xs \<inter> set (as @ bs) = {} \<Longrightarrow> distinct (as @ xs @ bs)"
  by auto

lemma step_claim_grant:
  assumes ok: "cluster_ok s off c" and i: "i < length (cl_claims c)" "cl_claims c ! i = (t0, [])"
    and clk: "at_clock off c ev" and g: "grants s ev (cl_db c) es db'"
    and dur: "ExecutionLeaseDuration s = lease_ms s * Millisecond"
  shows "cluster_ok s off (c\<lparr>cl_db := db', cl_claims := (cl_claims c)[i := (t0, es)]\<rparr>)"
proof -
  let ?c = "c\<lparr>cl_db := db'\<rparr>" and ?c' = "c\<lparr>cl_db := db', cl_claims := (cl_claims c)[i := (t0, es)]\<rparr>"
  have db: "db_ok (cl_db c)" using ok by (simp add: cluster_ok_def)
  obtain op where op: "foreign s op" "db' = exec_op (ev, op) (cl_db c)" using grants_exec_op [OF g] .
  have ok1: "cluster_ok s off ?c" using cluster_ok_exec_op [OF ok op(1) clk dur] op(2) by simp
  obtain as bs where ab: "concat (map snd (cl_claims c)) = as @ bs"
      "concat (map snd ((cl_claims c)[i := (t0, es)])) = as @ es @ bs"
    using concat_update [OF i] by (metis append_Nil)
  have t0: "t0 \<le> cl_now c" using ok nth_mem [OF i(1)] i(2) by (fastforce simp: cluster_ok_def claim_ok_def)
  have fresh: "claim_id e \<notin> set (known_claims c)" if "e \<in> set es" for e
  proof
    assume "claim_id e \<in> set (known_claims c)"
    then obtain r where "r \<in> set (t_executions (cl_db c))" "ex_ID r = ex_ID e" "ex_ClaimGeneration e \<le> ex_ClaimGeneration r"
      using ok by (auto simp: cluster_ok_def)
    with granted_new [OF db g that] show False by fastforce
  qed
  have new: "distinct (map claim_id es)"
    using grants_distinct [OF db g] by (metis (mono_tags, lifting) distinct_map inj_on_def prod.inject)
  have "distinct (known_claims ?c')"
  proof -
    define rest where "rest = map (\<lambda>(l, rn). claim_id (l_execution l)) (cl_leases c) @ map claim_id (cl_completing c)"
    have k: "known_claims c = map claim_id as @ map claim_id bs @ rest"
        "known_claims ?c' = map claim_id as @ map claim_id es @ map claim_id bs @ rest"
      by (simp_all add: known_claims_def ab rest_def)
    have "distinct (known_claims c)" using ok by (simp add: cluster_ok_def)
    moreover have "set (map claim_id es) \<inter> set (known_claims c) = {}" using fresh by auto
    ultimately show ?thesis
      using distinct_insert_mid [OF _ new, of "map claim_id as"] unfolding k by blast
  qed
  moreover have "0 < ex_ClaimGeneration e \<and> (\<exists>r \<in> set (t_executions db'). ex_ID r = ex_ID e \<and> ex_ClaimGeneration e \<le> ex_ClaimGeneration r)"
    if e: "e \<in> set es" for e
  proof -
    obtain r0 where "r0 \<in> set (t_executions (cl_db c))" "e = claim_row (de_clk ev) (lease_ms s) r0" "e \<in> set (t_executions db')"
      using claimsD [OF grants_claims [OF g e]] by metis
    moreover from this have "0 \<le> ex_ClaimGeneration r0" using row_exec_ok [OF db, of r0] by (simp add: exec_ok_def)
    ultimately show ?thesis by (intro conjI bexI [of _ e]) simp_all
  qed
  moreover have "set (known_claims ?c') = set (known_claims c) \<union> claim_id ` set es"
    by (auto simp: known_claims_def ab)
  moreover have "claim_ok s off ?c (t0, es)"
    using granted_backed [OF g _ _ t0 dur] clk t0 by (simp add: claim_ok_def at_clock_def)
  moreover have "claim_ok s off ?c tc" if "tc \<in> set (cl_claims c)" for tc
    using ok1 that by (simp add: cluster_ok_def)
  ultimately show ?thesis
    using ok1 set_update_subset_insert [of "cl_claims c" i "(t0, es)"] lease_ok_cong [of ?c' ?c] claim_ok_cong [of ?c' ?c]
    unfolding cluster_ok_def by (simp add: ball_Un) blast
qed

lemma step_claim_return:
  assumes ok: "cluster_ok s off c" and i: "i < length (cl_claims c)" "cl_claims c ! i = (t0, e # es)"
  shows "cluster_ok s off (c\<lparr>cl_claims := (cl_claims c)[i := (t0, es)],
    cl_leases := cl_leases c @ [(newExecutionLease (ExecutionLeaseDuration s) e t0, None)]\<rparr>)" (is "cluster_ok s off ?c")
proof -
  obtain as bs where ab: "concat (map snd (cl_claims c)) = as @ (e # es) @ bs"
      "concat (map snd ((cl_claims c)[i := (t0, es)])) = as @ es @ bs"
    using concat_update [OF i] by metis
  have cl: "claim_ok s off c (t0, e # es)" using ok nth_mem [OF i(1)] i(2) by (simp add: cluster_ok_def)
  have "set (known_claims ?c) = set (known_claims c)"
    by (auto simp: known_claims_def ab newExecutionLease_def)
  moreover have "distinct (known_claims ?c)"
    using ok by (auto simp: cluster_ok_def known_claims_def ab newExecutionLease_def)
  moreover have "claim_ok s off c tc" if "tc \<in> set ((cl_claims c)[i := (t0, es)])" for tc
  proof -
    have "claim_ok s off c (t0, es)" using cl by (simp add: claim_ok_def)
    then show ?thesis using that ok set_update_subset_insert [of "cl_claims c" i "(t0, es)"] by (auto simp: cluster_ok_def)
  qed
  moreover have "lease_ok s off c (newExecutionLease (ExecutionLeaseDuration s) e t0, None)"
    using cl by (simp add: lease_ok_def newExecutionLease_def claim_ok_def live_def)
  ultimately show ?thesis
    using ok lease_ok_cong [of ?c c] claim_ok_cong [of ?c c] by (auto simp: cluster_ok_def)
qed

lemma renewed_backed:
  assumes ok: "db_ok db" and res: "RenewExecutionClaim s ev e db = (Inr (), db')"
    and clk: "de_clk ev = now + off" and "t0 \<le> now" and dur: "ExecutionLeaseDuration s = lease_ms s * Millisecond"
  shows "backed off db' e (t0 + ExecutionLeaseDuration s)"
proof -
  let ?P = "owned_row (de_clk ev) (ex_ID e) (ex_Namespace e) (ex_ClaimGeneration e)"
  let ?f = "\<lambda>r. r\<lparr>ex_LeaseUntil := Some (de_clk ev + lease_ms s * Millisecond)\<rparr>"
  obtain r where r: "r \<in> set (t_executions db)" "?P r"
    using RenewExecutionClaim_not_owned [OF ok, of ev e s] res by (cases "de_fault ev") auto
  have "t_executions db' = upd_where ?P ?f (t_executions db)"
    using res by (auto simp: RenewExecutionClaim_def claimMutationResult_def run_stmt_def ok_stmt_def
      queryRenewExecutionClaim_def Let_def split: fault.splits if_splits)
  then have "?f r \<in> set (t_executions db')" using upd_where_mem [of r _ ?P ?f] r by simp
  then show ?thesis using r clk dur \<open>t0 \<le> now\<close> unfolding backed_def
    by (intro bexI [of _ "?f r"]) (auto simp: owned_row_def)
qed

lemma step_renew_apply:
  assumes ok: "cluster_ok s off c" and i: "i < length (cl_leases c)" "cl_leases c ! i = (l, Some (t0, None))"
    and clk: "at_clock off c ev" and res: "RenewExecutionClaim s ev (l_execution l) (cl_db c) = (res, db')"
    and dur: "ExecutionLeaseDuration s = lease_ms s * Millisecond"
  shows "cluster_ok s off (c\<lparr>cl_db := db', cl_leases := (cl_leases c)[i := (l, Some (t0, Some res))]\<rparr>)"
proof -
  let ?c = "c\<lparr>cl_db := db'\<rparr>"
  have ok1: "cluster_ok s off ?c"
    using cluster_ok_exec_op [OF ok _ clk dur, of "OpRenewExecutionClaim s (l_execution l)"] res by (simp add: foreign_def)
  have old: "lease_ok s off ?c (l, Some (t0, None))" using cluster_ok_nth_lease [OF ok1, of i] i by simp
  have "backed off db' (l_execution l) (t0 + ExecutionLeaseDuration s)" if "res = Inr ()"
    using renewed_backed [of "cl_db c" s ev "l_execution l" db' "cl_now c" off t0] ok res clk dur old that
    by (simp add: cluster_ok_def at_clock_def lease_ok_def)
  with old have "lease_ok s off ?c (l, Some (t0, Some res))" by (auto simp: lease_ok_def)
  from cluster_ok_lease [OF ok1 _ _ refl this] i show ?thesis by simp
qed

lemma step_renew_return:
  assumes ok: "cluster_ok s off c" and i: "i < length (cl_leases c)" "cl_leases c ! i = (l, Some (t0, any))"
    and rn: "renew stopped t0 res fin (cl_now c) l = (r, l')" and any: "res = Inr () \<Longrightarrow> any = Some (Inr ())"
  shows "cluster_ok s off (c\<lparr>cl_leases := (cl_leases c)[i := (l', None)]\<rparr>)"
proof -
  have old: "lease_ok s off c (l, Some (t0, any))" using cluster_ok_nth_lease [OF ok i(1)] i(2) by simp
  from rn have "l_execution l' = l_execution l \<and> lease_ok s off c (l', None)"
  proof (cases rule: renew_cases)
    case dead
    then show ?thesis using lease_ok_dead [OF old, of l' None] by simp
  next
    case same
    then show ?thesis using old by (simp add: lease_ok_def)
  next
    case renewed
    then show ?thesis using old any by (auto simp: lease_ok_def live_def)
  qed
  with cluster_ok_lease [OF ok i, of l' None] show ?thesis by simp
qed

lemma step_complete_start:
  assumes ok: "cluster_ok s off c" and i: "i < length (cl_leases c)" "cl_leases c ! i = (l, rn)"
  shows "cluster_ok s off (c\<lparr>cl_leases := take i (cl_leases c) @ drop (Suc i) (cl_leases c),
    cl_completing := l_execution l # cl_completing c\<rparr>)" (is "cluster_ok s off ?c")
proof -
  have ls: "cl_leases c = take i (cl_leases c) @ (l, rn) # drop (Suc i) (cl_leases c)"
    using id_take_nth_drop [OF i(1)] i(2) by simp
  define xs ys where "xs = take i (cl_leases c)" and "ys = drop (Suc i) (cl_leases c)"
  have leases: "cl_leases c = xs @ (l, rn) # ys" using ls by (simp add: xs_def ys_def)
  have "set (known_claims ?c) = set (known_claims c)" "distinct (known_claims c) \<Longrightarrow> distinct (known_claims ?c)"
    unfolding known_claims_def xs_def [symmetric] ys_def [symmetric] by (auto simp: leases)
  then show ?thesis
    using ok lease_ok_cong [of ?c c] claim_ok_cong [of ?c c] unfolding cluster_ok_def xs_def [symmetric] ys_def [symmetric]
    by (auto simp: leases)
qed

lemma step_complete_apply:
  assumes ok: "cluster_ok s off c" and e: "e \<in> set (cl_completing c)" and clk: "at_clock off c ev"
  shows "cluster_ok s off (c\<lparr>cl_db := snd (CompleteExecution ev e st (cl_db c))\<rparr>)"
proof (rule cluster_ok_db [OF ok])
  let ?db = "cl_db c" and ?db' = "snd (CompleteExecution ev e st (cl_db c))"
  have db: "db_ok ?db" using ok by (simp add: cluster_ok_def)
  then show "db_ok ?db'" using CompleteExecution_ok [of ?db] by blast
  show "progress j ?db ?db'" for j by (rule CompleteExecution_progress [OF db])
  fix x d assume x: "x \<in> set (concat (map snd (cl_claims c)) @ map (l_execution \<circ> fst) (cl_leases c))"
    and b: "backed off ?db x d"
  have ne: "claim_id x \<noteq> claim_id e"
    using ok x e unfolding cluster_ok_def known_claims_def by (force simp: case_prod_unfold)
  from b obtain r where r: "r \<in> set (t_executions ?db)" "claim_id r = claim_id x" and
    rest: "ex_Namespace r = ex_Namespace x" "ex_Status r = InProgress" "\<exists>L. ex_LeaseUntil r = Some L \<and> d + off \<le> L"
    unfolding backed_def by auto
  have "r \<in> set (t_executions ?db')"
    using ne r by (auto simp: CompleteExecution_def run_stmt_def ok_stmt_def queryCompleteExecution_def Let_def
      owned_row_def upd_where_keep split: fault.split)
  with r rest show "backed off ?db' x d" unfolding backed_def by auto
qed

lemma cstep_ok:
  assumes "cstep s off c c'" "cluster_ok s off c" and dur: "ExecutionLeaseDuration s = lease_ms s * Millisecond"
  shows "cluster_ok s off c'"
  using assms(1,2)
proof (cases rule: cstep.cases)
  case (renew_start i l)
  with cluster_ok_nth_lease [OF assms(2), of i] have "lease_ok s off c (l, Some (cl_now c, None))"
    by (simp add: lease_ok_def)
  with renew_start assms(2) cluster_ok_lease [of s off c i l None l] show ?thesis by simp
next
  case (watchdog i l rn)
  with cluster_ok_nth_lease [OF assms(2), of i] have "lease_ok s off c (watchExpiry (cl_now c) l, rn)"
    using watchExpiry_cases [of "cl_now c" l] by (auto intro: lease_ok_dead)
  moreover have "l_execution (watchExpiry (cl_now c) l) = l_execution l"
    using watchExpiry_cases [of "cl_now c" l] by auto
  ultimately show ?thesis using watchdog assms(2) cluster_ok_lease [of s off c i l rn] by simp
next
  case (cancelled i l rn e)
  with cluster_ok_nth_lease [OF assms(2), of i] have "lease_ok s off c (lease_cancel e l, rn)"
    by (auto intro: lease_ok_dead)
  with cancelled assms(2) cluster_ok_lease [of s off c i l rn] show ?thesis by simp
next
  case (renew_return i l t0 res stopped fin r l')
  then show ?thesis using step_renew_return [OF assms(2)] by blast
next
  case (renew_fail i l t0 any stopped e fin r l')
  then show ?thesis using step_renew_return [OF assms(2), of i l t0 any stopped "Inl e" fin r l'] by simp
next
  case (renew_apply i l t0 ev res db')
  then show ?thesis using step_renew_apply [OF assms(2) _ _ _ _ dur] by blast
next
  case (claim_grant i t0 ev es db')
  then show ?thesis using step_claim_grant [OF assms(2) _ _ _ _ dur] by blast
qed (auto intro: step_time cluster_ok_exec_op [OF _ _ _ dur] step_claim_start step_claim_return step_complete_start step_complete_apply)

lemma creach_ok:
  assumes "creach s off c" and "ExecutionLeaseDuration s = lease_ms s * Millisecond"
  shows "cluster_ok s off c"
  using assms(1)
proof induction
  case (start db now)
  then show ?case by (simp add: cluster_ok_def known_claims_def)
next
  case (step c c')
  then show ?case using cstep_ok assms(2) by blast
qed

text \<open>A store made by \<open>New\<close>, with or without \<open>WithExecutionLease\<close>, has a lease of whole milliseconds.\<close>

definition configured :: "Store \<Rightarrow> bool" where
  "configured s \<longleftrightarrow> (\<exists>t. s = Store_New t) \<or> (\<exists>t d. WithExecutionLease (Store_New t) d = Some s)"

lemma configured_duration: "configured s \<Longrightarrow> ExecutionLeaseDuration s = lease_ms s * Millisecond"
proof -
  assume "configured s"
  then have "Millisecond dvd st_leaseDuration s" "0 \<le> st_leaseDuration s"
    by (auto simp: configured_def Store_New_def WithExecutionLease_def DefaultExecutionLease_def minus_mod_eq_mult_div
      split: if_splits)
  then show ?thesis
    by (auto simp: ExecutionLeaseDuration_def lease_ms_def go_div_def sgn_if)
qed

section \<open>Properties\<close>

text \<open>A reachable state for the witnesses: one batch claim of two executions, both under delivery.\<close>

definition sample_other :: Execution where
  "sample_other = sample_pending\<lparr>ex_ID := 5, ex_ScheduledAt := 180\<rparr>"

definition sample_claimed :: "Execution list" where
  "sample_claimed = map (claim_row 200 120000) [sample_pending, sample_other]"

definition sample_cluster :: cluster where
  "sample_cluster = \<lparr>cl_db = sample_db\<lparr>t_executions := sample_claimed\<rparr>, cl_now = 200, cl_claims = [(200, [])],
     cl_leases = map (\<lambda>e. (newExecutionLease (2 * Minute) e 200, None)) sample_claimed, cl_completing = []\<rparr>"

lemma sample_dequeue:
  "DequeueExecutions (Store_New 0) (calm 200) 5 (sample_db\<lparr>t_executions := [sample_pending, sample_other]\<rparr>)
   = (Inr sample_claimed, sample_db\<lparr>t_executions := sample_claimed\<rparr>)"
  by (simp add: sample_claimed_def sample_other_def sample_defs DequeueExecutions_def run_stmt_def ok_stmt_def
    queryDequeueExecutions_def Let_def order_limit_def claim_row_def lease_ms_def Store_New_def go_div_def DefaultExecutionLease_def)

lemma sample_cluster_reach: "creach (Store_New 0) 0 sample_cluster"
proof -
  let ?s = "Store_New 0" and ?db = "sample_db\<lparr>t_executions := [sample_pending, sample_other]\<rparr>"
    and ?db' = "sample_db\<lparr>t_executions := sample_claimed\<rparr>"
  let ?c = "\<lambda>db cl ls. \<lparr>cl_db = db, cl_now = 200, cl_claims = cl, cl_leases = ls, cl_completing = []\<rparr>"
  let ?l = "\<lambda>e. (newExecutionLease (2 * Minute) e 200, None)"
  obtain a b where ab: "sample_claimed = [a, b]" by (simp add: sample_claimed_def)
  have dur: "ExecutionLeaseDuration ?s = 2 * Minute"
    by (simp add: ExecutionLeaseDuration_def Store_New_def DefaultExecutionLease_def)
  have "db_ok ?db" by (simp add: sample_defs sample_other_def db_ok_def ok_defs exec_ok_def)
  then have "creach ?s 0 (?c ?db [] [])" by (rule creach.start)
  from creach.step [OF this cstep.claim_start] have "creach ?s 0 (?c ?db [(200, [])] [])" by simp
  from creach.step [OF this cstep.claim_grant [of 0 _ 200 _ "calm 200" _ sample_claimed ?db']]
  have "creach ?s 0 (?c ?db' [(200, [a, b])] [])"
    using sample_dequeue by (auto simp: ab at_clock_def calm_def grants_def)
  from creach.step [OF this cstep.claim_return [of 0 _ 200 a "[b]"]]
  have "creach ?s 0 (?c ?db' [(200, [b])] [?l a])" by (simp add: dur)
  from creach.step [OF this cstep.claim_return [of 0 _ 200 b "[]"]]
  have "creach ?s 0 (?c ?db' [(200, [])] [?l a, ?l b])" by (simp add: dur)
  then show ?thesis by (simp add: sample_cluster_def ab)
qed

lemma configured_New: "configured (Store_New t)"
  by (auto simp: configured_def)



text \<open>
  C2: mutual exclusion. In every reachable state of the cluster no two deliveries, on any replicas, hold
  live leases on the same execution.
\<close>

theorem live_leases_exclusive:
  assumes "configured s" "creach s off c"
    and "i < length (cl_leases c)" "j < length (cl_leases c)" "i \<noteq> j"
    and "live (cl_now c) (fst (cl_leases c ! i))" "live (cl_now c) (fst (cl_leases c ! j))"
  shows "ex_ID (l_execution (fst (cl_leases c ! i))) \<noteq> ex_ID (l_execution (fst (cl_leases c ! j)))"
proof
  let ?e = "\<lambda>k. l_execution (fst (cl_leases c ! k))"
  assume same: "ex_ID (?e i) = ex_ID (?e j)"
  have ok: "cluster_ok s off c" using creach_ok [OF assms(2) configured_duration [OF assms(1)]] .
  have b: "backed off (cl_db c) (?e k) (l_deadline (fst (cl_leases c ! k)))"
    if "k < length (cl_leases c)" "live (cl_now c) (fst (cl_leases c ! k))" for k
    using cluster_ok_nth_lease [OF ok that(1)] that(2) by (cases "cl_leases c ! k") (simp add: lease_ok_def)
  have "ex_ClaimGeneration (?e i) = ex_ClaimGeneration (?e j)"
    using b [OF assms(3,6)] b [OF assms(4,7)] same execution_by_id [of "cl_db c"] ok
    unfolding backed_def cluster_ok_def by metis
  moreover have "distinct (map (\<lambda>(l, rn). claim_id (l_execution l)) (cl_leases c))"
    using ok by (simp add: cluster_ok_def known_claims_def)
  ultimately show False
    using same assms(3-5) nth_eq_iff_index_eq [of "map (\<lambda>(l, rn). claim_id (l_execution l)) (cl_leases c)" i j]
    by (simp add: case_prod_unfold)
qed

theorem live_leases_exclusive_witness:
  "ex_ID (l_execution (fst (cl_leases sample_cluster ! 0))) \<noteq> ex_ID (l_execution (fst (cl_leases sample_cluster ! 1)))"
  by (rule live_leases_exclusive [OF configured_New sample_cluster_reach])
    (simp_all add: sample_cluster_def sample_claimed_def live_def newExecutionLease_def)

end
