(* ===== verification/Breaker.thy ===== *)
theory Breaker
  imports Prelude
begin

text \<open>
  The circuit breaker of \<^verbatim>\<open>internal/circuitbreaker/breaker.go\<close>, one state per destination URL. A missing
  entry is the closed state. The cleanup closure of a half-open admission compares pointers, so an
  entry carries the address it was allocated at (a fresh number per allocation: memory a closure
  still refers to is not reused), and a closure is a permit with the address and the epoch it
  captured. The mutex makes every method atomic.
\<close>

section \<open>Definitions\<close>

datatype state = stateClosed | stateOpen | stateHalfOpen

record urlState =
  us_addr :: nat
  us_state :: state
  us_consecutiveFailures :: int
  us_openedAt :: time
  us_halfOpenProbes :: int
  us_probeEpoch :: "64 word"

record CircuitBreaker =
  cb_states :: "string \<rightharpoonup> urlState"
  cb_next :: nat
  cb_threshold :: int
  cb_cooldown :: duration
  cb_halfOpenProbes :: int

definition DefaultHalfOpenProbes :: int where
  "DefaultHalfOpenProbes = 3"

definition Breaker_New :: "int \<Rightarrow> duration \<Rightarrow> CircuitBreaker" where
  "Breaker_New threshold cooldown =
     \<lparr>cb_states = Map.empty, cb_next = 0, cb_threshold = threshold, cb_cooldown = cooldown,
      cb_halfOpenProbes = DefaultHalfOpenProbes\<rparr>"

definition WithHalfOpenProbes :: "int \<Rightarrow> CircuitBreaker \<Rightarrow> CircuitBreaker" where
  "WithHalfOpenProbes n cb = (let n = (if n < 1 then 1 else n) in cb\<lparr>cb_halfOpenProbes := n\<rparr>)"

text \<open>What \<open>AllowWithCancel\<close> returns: rejected, admitted, or admitted with the closure.\<close>

record permit =
  pm_url :: string
  pm_addr :: nat
  pm_epoch :: "64 word"

datatype admission = CircuitOpen | Admitted "permit option"

definition set_entry :: "string \<Rightarrow> urlState \<Rightarrow> CircuitBreaker \<Rightarrow> CircuitBreaker" where
  "set_entry url s cb = cb\<lparr>cb_states := (cb_states cb)(url \<mapsto> s)\<rparr>"

definition AllowWithCancel :: "time \<Rightarrow> string \<Rightarrow> CircuitBreaker \<Rightarrow> admission \<times> CircuitBreaker" where
  "AllowWithCancel now url cb =
     (case cb_states cb url of
        None \<Rightarrow> (Admitted None, cb)
      | Some s \<Rightarrow>
          (case us_state s of
             stateClosed \<Rightarrow> (Admitted None, cb)
           | stateOpen \<Rightarrow>
               if now - us_openedAt s \<ge> cb_cooldown cb
               then (let s' = s\<lparr>us_state := stateHalfOpen, us_halfOpenProbes := 1, us_probeEpoch := us_probeEpoch s + 1\<rparr>
                     in (Admitted (Some \<lparr>pm_url = url, pm_addr = us_addr s', pm_epoch = us_probeEpoch s'\<rparr>), set_entry url s' cb))
               else (CircuitOpen, cb)
           | stateHalfOpen \<Rightarrow>
               if us_halfOpenProbes s < cb_halfOpenProbes cb
               then (let s' = s\<lparr>us_halfOpenProbes := us_halfOpenProbes s + 1\<rparr>
                     in (Admitted (Some \<lparr>pm_url = url, pm_addr = us_addr s', pm_epoch = us_probeEpoch s'\<rparr>), set_entry url s' cb))
               else (CircuitOpen, cb)))"

definition Allow :: "time \<Rightarrow> string \<Rightarrow> CircuitBreaker \<Rightarrow> bool \<times> CircuitBreaker" where
  "Allow now url cb = (case AllowWithCancel now url cb of (a, cb') \<Rightarrow> (a \<noteq> CircuitOpen, cb'))"

text \<open>The body of the closure, which \<open>sync.Once\<close> runs once.\<close>

definition cancelProbe :: "permit \<Rightarrow> CircuitBreaker \<Rightarrow> CircuitBreaker" where
  "cancelProbe p cb =
     (case cb_states cb (pm_url p) of
        None \<Rightarrow> cb
      | Some s \<Rightarrow>
          if us_addr s = pm_addr p \<and> us_state s = stateHalfOpen \<and> us_probeEpoch s = pm_epoch p \<and> us_halfOpenProbes s > 0
          then set_entry (pm_url p) (s\<lparr>us_halfOpenProbes := us_halfOpenProbes s - 1\<rparr>) cb
          else cb)"

definition RecordSuccess :: "string \<Rightarrow> CircuitBreaker \<Rightarrow> CircuitBreaker" where
  "RecordSuccess url cb = cb\<lparr>cb_states := (cb_states cb)(url := None)\<rparr>"

definition RecordFailure :: "time \<Rightarrow> string \<Rightarrow> CircuitBreaker \<Rightarrow> CircuitBreaker" where
  "RecordFailure now url cb =
     (let (s, cb) = (case cb_states cb url of
            Some s \<Rightarrow> (s, cb)
          | None \<Rightarrow> (\<lparr>us_addr = cb_next cb, us_state = stateClosed, us_consecutiveFailures = 0, us_openedAt = 0,
                      us_halfOpenProbes = 0, us_probeEpoch = 0\<rparr>, cb\<lparr>cb_next := cb_next cb + 1\<rparr>));
          s = s\<lparr>us_consecutiveFailures := us_consecutiveFailures s + 1\<rparr>;
          s = (if us_consecutiveFailures s \<ge> cb_threshold cb
               then s\<lparr>us_state := stateOpen, us_openedAt := now\<rparr> else s)
      in set_entry url s cb)"

section \<open>The machine\<close>

text \<open>
  The breaker with the permits it has handed out and not yet taken back. A caller holds its permit
  until it runs the cleanup once; \<open>sync.Once\<close> makes later runs empty, which is the permit being
  gone from the list.
\<close>

record breaker_system =
  bs_cb :: CircuitBreaker
  bs_permits :: "permit list"

datatype breaker_event = EvAllow time string | EvCancel permit | EvSuccess string | EvFailure time string

fun breaker_step :: "breaker_event \<Rightarrow> breaker_system \<Rightarrow> breaker_system" where
  "breaker_step (EvAllow now url) bs =
     (case AllowWithCancel now url (bs_cb bs) of
        (Admitted (Some p), cb) \<Rightarrow> bs\<lparr>bs_cb := cb, bs_permits := p # bs_permits bs\<rparr>
      | (_, cb) \<Rightarrow> bs\<lparr>bs_cb := cb\<rparr>)"
| "breaker_step (EvCancel p) bs =
     (if p \<in> set (bs_permits bs)
      then bs\<lparr>bs_cb := cancelProbe p (bs_cb bs), bs_permits := remove1 p (bs_permits bs)\<rparr> else bs)"
| "breaker_step (EvSuccess url) bs = bs\<lparr>bs_cb := RecordSuccess url (bs_cb bs)\<rparr>"
| "breaker_step (EvFailure now url) bs = bs\<lparr>bs_cb := RecordFailure now url (bs_cb bs)\<rparr>"

section \<open>Lemmas\<close>

lemma set_entry_same [simp]: "cb_states (set_entry url s cb) url = Some s"
  by (simp add: set_entry_def)

lemma set_entry_other [simp]: "u \<noteq> url \<Longrightarrow> cb_states (set_entry url s cb) u = cb_states cb u"
  by (simp add: set_entry_def)

lemma set_entry_fields [simp]:
  "cb_next (set_entry url s cb) = cb_next cb" "cb_threshold (set_entry url s cb) = cb_threshold cb"
  "cb_cooldown (set_entry url s cb) = cb_cooldown cb" "cb_halfOpenProbes (set_entry url s cb) = cb_halfOpenProbes cb"
  by (simp_all add: set_entry_def)

text \<open>The permits that count against the half-open allowance of a destination.\<close>

definition outstanding :: "string \<Rightarrow> urlState \<Rightarrow> permit list \<Rightarrow> nat" where
  "outstanding url s ps = count_where (\<lambda>p. pm_url p = url \<and> pm_addr p = us_addr s \<and> pm_epoch p = us_probeEpoch s) ps"

text \<open>
  The invariant after \<open>n\<close> steps: addresses are fresh, permits are not from the future (the epoch has
  not wrapped around), an entry that left the closed state had enough failures, and in the half-open
  state the counter is the number of outstanding permits and within the allowance.
\<close>

definition entry_ok :: "CircuitBreaker \<Rightarrow> permit list \<Rightarrow> nat \<Rightarrow> string \<Rightarrow> urlState \<Rightarrow> bool" where
  "entry_ok cb ps n url s \<longleftrightarrow>
     us_addr s < cb_next cb \<and> unat (us_probeEpoch s) \<le> n
     \<and> (us_state s \<noteq> stateClosed \<longrightarrow> cb_threshold cb \<le> us_consecutiveFailures s)
     \<and> (\<forall>p \<in> set ps. pm_url p = url \<longrightarrow> pm_addr p = us_addr s \<longrightarrow> unat (pm_epoch p) \<le> unat (us_probeEpoch s))
     \<and> (us_state s = stateHalfOpen \<longrightarrow>
          us_halfOpenProbes s = int (outstanding url s ps) \<and> us_halfOpenProbes s \<le> cb_halfOpenProbes cb)"

definition breaker_ok :: "nat \<Rightarrow> breaker_system \<Rightarrow> bool" where
  "breaker_ok n bs \<longleftrightarrow> 1 \<le> cb_halfOpenProbes (bs_cb bs)
     \<and> (\<forall>p \<in> set (bs_permits bs). pm_addr p < cb_next (bs_cb bs))
     \<and> (\<forall>url s. cb_states (bs_cb bs) url = Some s \<longrightarrow> entry_ok (bs_cb bs) (bs_permits bs) n url s)"

lemma outstanding_Cons [simp]:
  "outstanding url s (p # ps) =
     outstanding url s ps + (if pm_url p = url \<and> pm_addr p = us_addr s \<and> pm_epoch p = us_probeEpoch s then 1 else 0)"
  by (simp add: outstanding_def count_where_def)

lemma outstanding_zero:
  "(\<And>p. p \<in> set ps \<Longrightarrow> pm_url p = url \<Longrightarrow> pm_addr p = us_addr s \<Longrightarrow> pm_epoch p \<noteq> us_probeEpoch s) \<Longrightarrow> outstanding url s ps = 0"
  unfolding outstanding_def by (auto simp: count_where_0)

lemma outstanding_update [simp]:
  "outstanding url (s\<lparr>us_halfOpenProbes := k\<rparr>) ps = outstanding url s ps"
  "outstanding url (s\<lparr>us_consecutiveFailures := f\<rparr>) ps = outstanding url s ps"
  "outstanding url (s\<lparr>us_state := st\<rparr>) ps = outstanding url s ps"
  "outstanding url (s\<lparr>us_openedAt := t\<rparr>) ps = outstanding url s ps"
  by (simp_all add: outstanding_def)

lemma outstanding_remove1:
  "p \<in> set ps \<Longrightarrow> outstanding url s (remove1 p ps) =
     outstanding url s ps - (if pm_url p = url \<and> pm_addr p = us_addr s \<and> pm_epoch p = us_probeEpoch s then 1 else 0)"
proof (induction ps)
  case (Cons q qs)
  show ?case
  proof (cases "p = q")
    case False
    with Cons have IH: "outstanding url s (remove1 p qs) =
        outstanding url s qs - (if pm_url p = url \<and> pm_addr p = us_addr s \<and> pm_epoch p = us_probeEpoch s then 1 else 0)"
      and "p \<in> set qs" by simp_all
    have "0 < outstanding url s qs" if "pm_url p = url \<and> pm_addr p = us_addr s \<and> pm_epoch p = us_probeEpoch s"
    proof -
      have "outstanding url s qs \<noteq> 0"
        unfolding outstanding_def count_where_0 using that \<open>p \<in> set qs\<close> by blast
      then show ?thesis by simp
    qed
    with False IH show ?thesis by simp
  qed simp
qed simp

lemma outstanding_pos:
  "p \<in> set ps \<Longrightarrow> pm_url p = url \<Longrightarrow> pm_addr p = us_addr s \<Longrightarrow> pm_epoch p = us_probeEpoch s \<Longrightarrow> 0 < outstanding url s ps"
  using count_where_0 [of "\<lambda>p. pm_url p = url \<and> pm_addr p = us_addr s \<and> pm_epoch p = us_probeEpoch s" ps]
  unfolding outstanding_def by auto

lemma unat_suc: "unat (e :: 64 word) \<le> n \<Longrightarrow> n + 1 < 2 ^ 64 \<Longrightarrow> unat (e + 1) = unat e + 1"
  using unat_add_lem [of e 1] by simp

lemma entry_ok_mono: "entry_ok cb ps n url s \<Longrightarrow> n \<le> m \<Longrightarrow> entry_ok cb ps m url s"
  by (auto simp: entry_ok_def)

lemma breaker_ok_mono: "breaker_ok n bs \<Longrightarrow> n \<le> m \<Longrightarrow> breaker_ok m bs"
  by (auto simp: breaker_ok_def intro: entry_ok_mono)

text \<open>A step that writes one entry and changes only permits of that destination.\<close>

lemma breaker_ok_set_entry:
  assumes ok: "breaker_ok n \<lparr>bs_cb = cb, bs_permits = ps\<rparr>" and "n \<le> m"
    and entry: "entry_ok cb ps' m url s" and addr: "\<forall>p \<in> set ps'. pm_addr p < cb_next cb"
    and mem: "\<And>p. p \<in> set ps' \<Longrightarrow> pm_url p \<noteq> url \<Longrightarrow> p \<in> set ps"
    and out: "\<And>u t. u \<noteq> url \<Longrightarrow> outstanding u t ps' = outstanding u t ps"
  shows "breaker_ok m \<lparr>bs_cb = set_entry url s cb, bs_permits = ps'\<rparr>"
proof -
  have "entry_ok (set_entry url s cb) ps' m u t" if "cb_states (set_entry url s cb) u = Some t" for u t
  proof (cases "u = url")
    case True
    with that entry show ?thesis by (auto simp: entry_ok_def)
  next
    case False
    with that ok have "entry_ok cb ps n u t" by (simp add: breaker_ok_def)
    then have "entry_ok cb ps m u t" using \<open>n \<le> m\<close> by (rule entry_ok_mono)
    with False mem out show ?thesis by (fastforce simp: entry_ok_def)
  qed
  with ok addr show ?thesis by (simp add: breaker_ok_def)
qed

lemma breaker_ok_entry:
  "breaker_ok n bs \<Longrightarrow> cb_states (bs_cb bs) url = Some s \<Longrightarrow> entry_ok (bs_cb bs) (bs_permits bs) n url s"
  by (simp add: breaker_ok_def)

lemma breaker_step_allow:
  assumes ok: "breaker_ok n bs" and n: "n + 1 < 2 ^ 64"
  shows "breaker_ok (n + 1) (breaker_step (EvAllow now url) bs)"
proof -
  let ?cb = "bs_cb bs" and ?ps = "bs_permits bs"
  have ok': "breaker_ok n \<lparr>bs_cb = ?cb, bs_permits = ?ps\<rparr>" using ok by (simp add: breaker_ok_def)
  have probes: "1 \<le> cb_halfOpenProbes ?cb" using ok by (simp add: breaker_ok_def)
  consider (same) "breaker_step (EvAllow now url) bs = bs"
    | (opens) s where "cb_states ?cb url = Some s" "us_state s = stateOpen"
        "breaker_step (EvAllow now url) bs =
           \<lparr>bs_cb = set_entry url (s\<lparr>us_state := stateHalfOpen, us_halfOpenProbes := 1, us_probeEpoch := us_probeEpoch s + 1\<rparr>) ?cb,
            bs_permits = \<lparr>pm_url = url, pm_addr = us_addr s, pm_epoch = us_probeEpoch s + 1\<rparr> # ?ps\<rparr>"
    | (joins) s where "cb_states ?cb url = Some s" "us_state s = stateHalfOpen" "us_halfOpenProbes s < cb_halfOpenProbes ?cb"
        "breaker_step (EvAllow now url) bs =
           \<lparr>bs_cb = set_entry url (s\<lparr>us_halfOpenProbes := us_halfOpenProbes s + 1\<rparr>) ?cb,
            bs_permits = \<lparr>pm_url = url, pm_addr = us_addr s, pm_epoch = us_probeEpoch s\<rparr> # ?ps\<rparr>"
    by (cases "cb_states ?cb url"; cases bs)
      (fastforce simp: AllowWithCancel_def Let_def split: state.splits if_splits)+
  then show ?thesis
  proof cases
    case same
    with ok show ?thesis by (simp add: breaker_ok_mono)
  next
    case opens
    note e = breaker_ok_entry [OF ok opens(1), unfolded entry_ok_def]
    let ?s = "s\<lparr>us_state := stateHalfOpen, us_halfOpenProbes := 1, us_probeEpoch := us_probeEpoch s + 1\<rparr>"
    have u: "unat (us_probeEpoch s + 1) = unat (us_probeEpoch s) + 1" using e n by (intro unat_suc) auto
    have "outstanding url ?s ?ps = 0" using e u by (intro outstanding_zero) fastforce
    with e u opens(2) probes show ?thesis
      unfolding opens(3) using ok
      by (intro breaker_ok_set_entry [OF ok']) (auto simp: entry_ok_def breaker_ok_def)
  next
    case joins
    note e = breaker_ok_entry [OF ok joins(1), unfolded entry_ok_def]
    with joins(2,3) show ?thesis
      unfolding joins(4) using ok
      by (intro breaker_ok_set_entry [OF ok']) (auto simp: entry_ok_def breaker_ok_def)
  qed
qed

lemma outstanding_other: "(\<And>p. p \<in> set ps \<Longrightarrow> pm_url p \<noteq> u) \<Longrightarrow> outstanding u t ps = 0"
  by (rule outstanding_zero) auto

lemma breaker_step_cancel:
  assumes ok: "breaker_ok n bs"
  shows "breaker_ok (n + 1) (breaker_step (EvCancel p) bs)"
proof (cases "p \<in> set (bs_permits bs)")
  case False
  with ok show ?thesis by (simp add: breaker_ok_mono)
next
  case True
  let ?cb = "bs_cb bs" and ?ps = "bs_permits bs"
  have ok': "breaker_ok n \<lparr>bs_cb = ?cb, bs_permits = ?ps\<rparr>" using ok by (simp add: breaker_ok_def)
  have sub: "q \<in> set ?ps" if "q \<in> set (remove1 p ?ps)" for q using that by (meson notin_set_remove1)
  have other: "outstanding u t (remove1 p ?ps) = outstanding u t ?ps" if "u \<noteq> pm_url p" for u t
    using that by (simp add: outstanding_remove1 [OF True])
  show ?thesis
  proof (cases "\<exists>s. cb_states ?cb (pm_url p) = Some s \<and> us_addr s = pm_addr p \<and> us_state s = stateHalfOpen
      \<and> us_probeEpoch s = pm_epoch p")
    case True
    then obtain s where s: "cb_states ?cb (pm_url p) = Some s" "us_addr s = pm_addr p" "us_state s = stateHalfOpen"
        "us_probeEpoch s = pm_epoch p" by blast
    note e = breaker_ok_entry [OF ok s(1), unfolded entry_ok_def]
    have pos: "0 < outstanding (pm_url p) s ?ps" using \<open>p \<in> set ?ps\<close> s by (intro outstanding_pos) auto
    have "breaker_ok (n + 1) \<lparr>bs_cb = set_entry (pm_url p) (s\<lparr>us_halfOpenProbes := us_halfOpenProbes s - 1\<rparr>) ?cb,
        bs_permits = remove1 p ?ps\<rparr>"
      using e s pos sub other ok
      by (intro breaker_ok_set_entry [OF ok'])
        (auto simp: entry_ok_def breaker_ok_def outstanding_remove1 [OF \<open>p \<in> set ?ps\<close>])
    then show ?thesis using \<open>p \<in> set ?ps\<close> s e pos by (cases bs) (simp add: cancelProbe_def)
  next
    case False
    then have c: "cancelProbe p ?cb = ?cb" by (auto simp: cancelProbe_def split: option.split)
    have "entry_ok ?cb (remove1 p ?ps) (n + 1) u t" if "cb_states ?cb u = Some t" for u t
    proof -
      have "outstanding u t (remove1 p ?ps) = outstanding u t ?ps" if "us_state t = stateHalfOpen"
        using False \<open>cb_states ?cb u = Some t\<close> that by (auto simp: outstanding_remove1 [OF \<open>p \<in> set ?ps\<close>])
      with breaker_ok_entry [OF ok that] sub show ?thesis by (auto simp: entry_ok_def)
    qed
    with ok sub c \<open>p \<in> set ?ps\<close> show ?thesis by (auto simp: breaker_ok_def)
  qed
qed

lemma entry_ok_cong:
  "entry_ok cb ps n url s \<Longrightarrow> cb_next cb \<le> cb_next cb' \<Longrightarrow> cb_threshold cb' = cb_threshold cb
   \<Longrightarrow> cb_halfOpenProbes cb' = cb_halfOpenProbes cb \<Longrightarrow> entry_ok cb' ps n url s"
  by (auto simp: entry_ok_def)

lemma breaker_step_success:
  assumes ok: "breaker_ok n bs"
  shows "breaker_ok (n + 1) (breaker_step (EvSuccess url) bs)"
proof -
  let ?cb = "RecordSuccess url (bs_cb bs)"
  have "entry_ok ?cb (bs_permits bs) (n + 1) u t" if "cb_states ?cb u = Some t" for u t
  proof -
    from that have "cb_states (bs_cb bs) u = Some t" by (simp add: RecordSuccess_def split: if_splits)
    from entry_ok_mono [OF breaker_ok_entry [OF ok this], of "n + 1"] show ?thesis
      by (rule entry_ok_cong) (simp_all add: RecordSuccess_def)
  qed
  with ok show ?thesis by (simp add: breaker_ok_def RecordSuccess_def)
qed

lemma breaker_step_failure:
  assumes ok: "breaker_ok n bs"
  shows "breaker_ok (n + 1) (breaker_step (EvFailure now url) bs)"
proof -
  let ?cb = "bs_cb bs" and ?ps = "bs_permits bs"
  show ?thesis
  proof (cases "cb_states ?cb url")
    case None
    let ?cb' = "?cb\<lparr>cb_next := cb_next ?cb + 1\<rparr>"
    have ok': "breaker_ok n \<lparr>bs_cb = ?cb', bs_permits = ?ps\<rparr>"
    proof -
      have "entry_ok ?cb' ?ps n u t" if "cb_states ?cb' u = Some t" for u t
        by (rule entry_ok_cong [OF breaker_ok_entry [OF ok]]) (use that in simp_all)
      with ok show ?thesis by (auto simp: breaker_ok_def less_SucI)
    qed
    have old: "\<forall>p \<in> set ?ps. pm_addr p < cb_next ?cb" using ok by (simp add: breaker_ok_def)
    obtain s where step: "breaker_step (EvFailure now url) bs = \<lparr>bs_cb = set_entry url s ?cb', bs_permits = ?ps\<rparr>"
        and s: "us_addr s = cb_next ?cb" "us_probeEpoch s = 0" "us_state s \<noteq> stateHalfOpen"
          "us_state s \<noteq> stateClosed \<longrightarrow> cb_threshold ?cb \<le> us_consecutiveFailures s"
      using None by (cases bs) (auto simp: RecordFailure_def Let_def)
    have "entry_ok ?cb' ?ps (n + 1) url s" using s old by (auto simp: entry_ok_def)
    then show ?thesis unfolding step
      using old by (intro breaker_ok_set_entry [OF ok']) auto
  next
    case (Some s0)
    have ok': "breaker_ok n \<lparr>bs_cb = ?cb, bs_permits = ?ps\<rparr>" using ok by (simp add: breaker_ok_def)
    note e = breaker_ok_entry [OF ok Some]
    obtain s where step: "breaker_step (EvFailure now url) bs = \<lparr>bs_cb = set_entry url s ?cb, bs_permits = ?ps\<rparr>"
        and s: "us_addr s = us_addr s0" "us_probeEpoch s = us_probeEpoch s0" "us_state s = us_state s0 \<or> us_state s = stateOpen"
          "us_state s = stateHalfOpen \<longrightarrow> us_halfOpenProbes s = us_halfOpenProbes s0"
          "us_state s = stateOpen \<and> us_state s0 \<noteq> stateOpen \<longrightarrow> cb_threshold ?cb \<le> us_consecutiveFailures s"
          "us_consecutiveFailures s0 \<le> us_consecutiveFailures s"
      using Some by (cases bs) (auto simp: RecordFailure_def Let_def)
    have "outstanding url s ?ps = outstanding url s0 ?ps" using s by (simp add: outstanding_def)
    then have "entry_ok ?cb ?ps (n + 1) url s" using e s by (auto simp: entry_ok_def)
    then show ?thesis unfolding step
      using ok by (intro breaker_ok_set_entry [OF ok']) (auto simp: breaker_ok_def)
  qed
qed

lemma breaker_step_ok: "breaker_ok n bs \<Longrightarrow> n + 1 < 2 ^ 64 \<Longrightarrow> breaker_ok (n + 1) (breaker_step ev bs)"
  by (cases ev) (simp_all only: breaker_step_allow breaker_step_cancel breaker_step_success breaker_step_failure)

lemma breaker_run_ok:
  "breaker_ok n bs \<Longrightarrow> n + length evs < 2 ^ 64 \<Longrightarrow> breaker_ok (n + length evs) (fold breaker_step evs bs)"
proof (induction evs arbitrary: n bs)
  case (Cons ev evs)
  then show ?case using breaker_step_ok [of n bs ev] Cons.IH [of "n + 1" "breaker_step ev bs"] by simp
qed simp

section \<open>Properties\<close>

fun event_url :: "breaker_event \<Rightarrow> string" where
  "event_url (EvAllow now url) = url"
| "event_url (EvCancel p) = pm_url p"
| "event_url (EvSuccess url) = url"
| "event_url (EvFailure now url) = url"

definition initial_breaker :: "int \<Rightarrow> duration \<Rightarrow> int \<Rightarrow> breaker_system" where
  "initial_breaker threshold cooldown probes =
     \<lparr>bs_cb = WithHalfOpenProbes probes (Breaker_New threshold cooldown), bs_permits = []\<rparr>"

lemma initial_breaker_ok: "breaker_ok 0 (initial_breaker threshold cooldown probes)"
  by (simp add: initial_breaker_def breaker_ok_def WithHalfOpenProbes_def Breaker_New_def Let_def)

lemma breaker_step_config:
  "cb_halfOpenProbes (bs_cb (breaker_step ev bs)) = cb_halfOpenProbes (bs_cb bs)"
  "cb_cooldown (bs_cb (breaker_step ev bs)) = cb_cooldown (bs_cb bs)"
  "cb_threshold (bs_cb (breaker_step ev bs)) = cb_threshold (bs_cb bs)"
  by (cases ev; force simp: AllowWithCancel_def cancelProbe_def RecordSuccess_def RecordFailure_def Let_def
      split: option.splits state.splits prod.splits admission.splits)+

lemma breaker_run_config: "cb_halfOpenProbes (bs_cb (fold breaker_step evs bs)) = cb_halfOpenProbes (bs_cb bs)"
  by (induction evs arbitrary: bs) (simp_all add: breaker_step_config)

text \<open>
  the half-open allowance. Along every run of fewer than \<open>2^64\<close> calls, with any interleaving of
  admissions, abandoned probes, successes and failures, the counter of a half-open destination is
  exactly the number of admissions of its current epoch that were not given back, and never more
  than the configured number of probes.
\<close>

theorem half_open_limited:
  assumes "length evs < 2 ^ 64" "bs = fold breaker_step evs (initial_breaker threshold cooldown probes)"
    and "cb_states (bs_cb bs) url = Some s" "us_state s = stateHalfOpen"
  shows "us_halfOpenProbes s = int (outstanding url s (bs_permits bs)) \<and> us_halfOpenProbes s \<le> max 1 probes"
proof -
  have "breaker_ok (0 + length evs) bs"
    unfolding assms(2) by (rule breaker_run_ok [OF initial_breaker_ok]) (use assms(1) in simp)
  from breaker_ok_entry [OF this assms(3)] assms(4) show ?thesis
    by (auto simp: entry_ok_def assms(2) breaker_run_config initial_breaker_def WithHalfOpenProbes_def Let_def)
qed

theorem half_open_limited_witness:
  "let bs = fold breaker_step [EvFailure 10 ''u'', EvAllow 30 ''u'', EvAllow 31 ''u'', EvAllow 32 ''u''] (initial_breaker 1 20 2)
   in \<exists>s. cb_states (bs_cb bs) ''u'' = Some s \<and> us_halfOpenProbes s = 2 \<and> outstanding ''u'' s (bs_permits bs) = 2"
proof -
  let ?bs = "fold breaker_step [EvFailure 10 ''u'', EvAllow 30 ''u'', EvAllow 31 ''u'', EvAllow 32 ''u''] (initial_breaker 1 20 2)"
  let ?s = "\<lparr>us_addr = 0, us_state = stateHalfOpen, us_consecutiveFailures = 1, us_openedAt = 10,
    us_halfOpenProbes = 2, us_probeEpoch = 1\<rparr>"
  have s: "cb_states (bs_cb ?bs) ''u'' = Some ?s"
    by (simp add: initial_breaker_def WithHalfOpenProbes_def Breaker_New_def Let_def RecordFailure_def
      AllowWithCancel_def set_entry_def)
  have "us_halfOpenProbes ?s = int (outstanding ''u'' ?s (bs_permits ?bs))"
    using half_open_limited [OF _ refl s] by (simp only: list.size) simp
  with s show ?thesis unfolding Let_def by (intro exI [of _ ?s] conjI) simp_all
qed

text \<open>
  an open circuit stays open for its cooldown. If a destination opened at \<open>t\<close>, then whatever
  calls follow, none of them a success for it, every admission before \<open>t + cooldown\<close> is rejected.
\<close>

definition within :: "time \<Rightarrow> time \<Rightarrow> string \<Rightarrow> breaker_event \<Rightarrow> bool" where
  "within t u url ev \<longleftrightarrow> ev \<noteq> EvSuccess url
     \<and> (case ev of EvAllow now _ \<Rightarrow> t \<le> now \<and> now < u | EvFailure now _ \<Rightarrow> t \<le> now \<and> now < u | _ \<Rightarrow> True)"

definition opened_since :: "time \<Rightarrow> string \<Rightarrow> CircuitBreaker \<Rightarrow> bool" where
  "opened_since t url cb \<longleftrightarrow> (\<exists>s. cb_states cb url = Some s \<and> us_state s = stateOpen \<and> t \<le> us_openedAt s)"

lemma breaker_step_other: "event_url ev \<noteq> url \<Longrightarrow> cb_states (bs_cb (breaker_step ev bs)) url = cb_states (bs_cb bs) url"
  by (cases ev; force simp: AllowWithCancel_def cancelProbe_def RecordSuccess_def RecordFailure_def Let_def
      split: option.splits state.splits prod.splits admission.splits)

lemma opened_since_step:
  assumes "opened_since t url (bs_cb bs)" "within t (t + cb_cooldown (bs_cb bs)) url ev"
  shows "opened_since t url (bs_cb (breaker_step ev bs))"
proof (cases "event_url ev = url")
  case False
  with assms(1) show ?thesis by (simp add: opened_since_def breaker_step_other)
next
  case True
  with assms show ?thesis
    by (cases ev) (auto simp: opened_since_def within_def AllowWithCancel_def cancelProbe_def RecordFailure_def Let_def)
qed

lemma opened_since_run:
  "opened_since t url (bs_cb bs) \<Longrightarrow> \<forall>ev \<in> set evs. within t (t + cb_cooldown (bs_cb bs)) url ev
   \<Longrightarrow> opened_since t url (bs_cb (fold breaker_step evs bs)) \<and> cb_cooldown (bs_cb (fold breaker_step evs bs)) = cb_cooldown (bs_cb bs)"
  by (induction evs arbitrary: bs) (simp_all add: opened_since_step breaker_step_config)

theorem open_until_cooldown:
  assumes "cb_states (bs_cb bs) url = Some s" "us_state s = stateOpen" "us_openedAt s = t"
    and "\<forall>ev \<in> set evs. within t (t + cb_cooldown (bs_cb bs)) url ev"
    and "now < t + cb_cooldown (bs_cb bs)"
  shows "fst (AllowWithCancel now url (bs_cb (fold breaker_step evs bs))) = CircuitOpen"
  using opened_since_run [of t url bs evs] assms by (auto simp: opened_since_def AllowWithCancel_def)

theorem open_until_cooldown_witness:
  "fst (AllowWithCancel 29 ''u'' (bs_cb (fold breaker_step [EvAllow 15 ''u'', EvFailure 16 ''u'', EvSuccess ''v'']
      (breaker_step (EvFailure 10 ''u'') (initial_breaker 1 20 2))))) = CircuitOpen"
  by (rule open_until_cooldown [where t = 10])
    (auto simp: initial_breaker_def WithHalfOpenProbes_def Breaker_New_def Let_def RecordFailure_def within_def)

text \<open>
  the circuit trips at the threshold. From the closed state, \<open>k\<close> failures in a row (with no
  success in between) open the circuit exactly when \<open>k\<close> has reached the threshold; before that every
  call is admitted.
\<close>

lemma failures_in_a_row:
  assumes "cb_states cb url = None" "1 \<le> cb_threshold cb"
  shows "ts \<noteq> [] \<Longrightarrow> \<exists>s. cb_states (fold (\<lambda>t. RecordFailure t url) ts cb) url = Some s
    \<and> us_consecutiveFailures s = int (length ts)
    \<and> us_state s = (if int (length ts) < cb_threshold cb then stateClosed else stateOpen)
    \<and> cb_threshold (fold (\<lambda>t. RecordFailure t url) ts cb) = cb_threshold cb"
proof (induction ts rule: rev_induct)
  case (snoc t ts)
  show ?case
  proof (cases "ts = []")
    case True
    with assms show ?thesis by (auto simp: RecordFailure_def Let_def)
  next
    case False
    with snoc.IH show ?thesis by (auto simp: RecordFailure_def Let_def)
  qed
qed simp

theorem trips_at_threshold:
  assumes "1 \<le> threshold" "ts \<noteq> []" "cb = fold (\<lambda>t. RecordFailure t url) ts (Breaker_New threshold cooldown)"
    and "now < last ts + cooldown"
  shows "fst (AllowWithCancel now url cb) = (if int (length ts) < threshold then Admitted None else CircuitOpen)"
proof -
  obtain us u where ts: "ts = us @ [u]" using assms(2) rev_exhaust by blast
  have "\<exists>s. cb_states cb url = Some s \<and> us_state s = (if int (length ts) < threshold then stateClosed else stateOpen)"
    using failures_in_a_row [of "Breaker_New threshold cooldown" url ts] assms(1-3) by (auto simp: Breaker_New_def)
  moreover have "us_openedAt s = u" if "cb_states cb url = Some s" "us_state s = stateOpen" for s
    using that assms(1) failures_in_a_row [of "Breaker_New threshold cooldown" url us]
    by (cases "us = []") (auto simp: assms(3) ts RecordFailure_def Let_def Breaker_New_def split: if_splits)
  moreover have "cb_cooldown cb = cooldown"
    unfolding assms(3) by (induction ts rule: rev_induct)
      (auto simp: Breaker_New_def RecordFailure_def Let_def split: option.split)
  ultimately show ?thesis using assms(4) by (auto simp: AllowWithCancel_def ts)
qed

theorem trips_at_threshold_witness:
  "fst (AllowWithCancel 5 ''u'' (fold (\<lambda>t. RecordFailure t ''u'') [1, 2, 3] (Breaker_New 3 60))) = CircuitOpen"
  using trips_at_threshold [of 3 "[1, 2, 3]" _ "''u''" 60 5] by simp

end
