(* ===== verification/Dispatcher.thy ===== *)
theory Dispatcher
  imports Lease Breaker
begin

text \<open>
  The dispatcher, \<^verbatim>\<open>internal/dispatcher/dispatcher.go\<close>. A delivery is modelled by its effects: the
  definition returns the Go result and the calls it makes, in order, as a function of what those
  calls answer (the \<open>answers\<close> record: the store, the sender, the breaker, and the state of the
  context wherever the code looks at it). Other deliveries, the watchdog and the database act
  between the calls; they are in the answers.
\<close>

section \<open>Requests, results and metrics\<close>

definition defaultBackoff :: "duration list" where
  "defaultBackoff = [0, 30 * Second, 2 * Minute, 10 * Minute]"

definition maxAttempts :: nat where
  "maxAttempts = 4"

definition maxWebhookAttemptTimeout :: duration where
  "maxWebhookAttemptTimeout = 60 * Second"

definition MaxRetryDuration :: duration where
  "MaxRetryDuration = foldl (+) (int maxAttempts * maxWebhookAttemptTimeout) defaultBackoff"

record WebhookPayload =
  wp_JobID :: string
  wp_JobName :: string
  wp_ExecutionID :: string
  wp_ScheduledAt :: string
  wp_FiredAt :: string

record WebhookRequest =
  wr_URL :: string
  wr_Secret :: string
  wr_Timeout :: duration
  wr_Payload :: WebhookPayload
  wr_AttemptID :: string
  wr_Namespace :: string

record WebhookResult =
  res_StatusCode :: int
  res_Error :: "err option"
  res_Duration :: duration

definition IsSuccess :: "WebhookResult \<Rightarrow> bool" where
  "IsSuccess r \<longleftrightarrow> res_Error r = None \<and> res_StatusCode r \<ge> 200 \<and> res_StatusCode r < 300"

definition IsRetryable :: "WebhookResult \<Rightarrow> bool" where
  "IsRetryable r =
     (case res_Error r of
        Some e \<Rightarrow> \<not> errors_Is e ErrDestinationBlocked
      | None \<Rightarrow> if res_StatusCode r = 429 then True else res_StatusCode r \<ge> 500)"

text \<open>Bytes of a string; the loops of \<open>containsInsensitive\<close>.\<close>

definition lower_byte :: "char \<Rightarrow> char" where
  "lower_byte c = (if (65 :: nat) \<le> of_char c \<and> of_char c \<le> (90 :: nat) then char_of (of_char c + (32 :: nat)) else c)"

fun match_at :: "string \<Rightarrow> string \<Rightarrow> bool" where
  "match_at s [] = True"
| "match_at [] (c2 # cs) = False"
| "match_at (c1 # s) (c2 # cs) = (if c1 \<noteq> c2 \<and> lower_byte c1 \<noteq> lower_byte c2 then False else match_at s cs)"

definition containsInsensitive :: "string \<Rightarrow> string \<Rightarrow> bool" where
  "containsInsensitive s substr =
     (if length s < length substr then False
      else list_ex (\<lambda>i. match_at (drop i s) substr) [0..<length s - length substr + 1])"

definition classifyStatusForMetrics :: "int \<Rightarrow> err option \<Rightarrow> string" where
  "classifyStatusForMetrics statusCode e =
     (case e of
        Some er \<Rightarrow>
          (let errStr = error_string er
           in if containsInsensitive errStr ''timeout'' \<or> containsInsensitive errStr ''deadline exceeded'' then ''timeout''
              else if containsInsensitive errStr ''connection refused'' \<or> containsInsensitive errStr ''no such host''
                \<or> containsInsensitive errStr ''network is unreachable'' \<or> containsInsensitive errStr ''dial''
              then ''connection_error'' else ''other_error'')
      | None \<Rightarrow>
          if statusCode \<ge> 200 \<and> statusCode < 300 then ''2xx''
          else if statusCode \<ge> 400 \<and> statusCode < 500 then ''4xx''
          else if statusCode \<ge> 500 then ''5xx'' else ''other_error'')"

section \<open>One delivery\<close>

datatype effect =
    FxInFlight int
  | FxGetJob uuid
  | FxAnalytics TriggerEvent
  | FxAllow string
  | FxOutcome string
  | FxRetry bool
  | FxWait duration
  | FxRenew
  | FxSend WebhookRequest
  | FxRecordSuccess string
  | FxAttemptMetric nat string
  | FxLatency duration
  | FxInsertAttempt DeliveryAttempt
  | FxComplete ExecutionStatus
  | FxRecordFailure string
  | FxCancelProbe permit
  | FxClose

text \<open>
  \<open>ans_breaker\<close> is \<open>None\<close> for a dispatcher without a breaker. The numbered answers are per attempt;
  \<open>None\<close> from a context check means the context is not done.
\<close>

record answers =
  ans_leaseDuration :: duration
  ans_backoff :: "duration list"
  ans_metrics :: bool
  ans_analytics :: bool
  ans_getJob :: "Job result"
  ans_breaker :: "admission option"
  ans_wait :: "nat \<Rightarrow> err option"
  ans_renew :: "nat \<Rightarrow> unit result"
  ans_afterRenew :: "nat \<Rightarrow> err option"
  ans_attemptID :: "nat \<Rightarrow> uuid"
  ans_startedAt :: "nat \<Rightarrow> time"
  ans_send :: "nat \<Rightarrow> WebhookResult"
  ans_finishedAt :: "nat \<Rightarrow> time"
  ans_afterInsert :: "nat \<Rightarrow> err option"
  ans_deliveredAt :: "nat \<Rightarrow> time"
  ans_complete :: "ExecutionStatus \<Rightarrow> unit result"

text \<open>How identifiers and times are printed: \<open>uuid.String\<close> and \<open>Format(time.RFC3339)\<close> of the UTC time.\<close>

record printing =
  pr_uuid :: "uuid \<Rightarrow> string"
  pr_time :: "time \<Rightarrow> string"

definition backoff_for :: "duration list \<Rightarrow> nat \<Rightarrow> duration" where
  "backoff_for bs attempt = (let idx = attempt - 1; idx = (if idx \<ge> length bs then length bs - 1 else idx) in bs ! idx)"

definition attempt_request :: "printing \<Rightarrow> answers \<Rightarrow> WebhookRequest \<Rightarrow> nat \<Rightarrow> WebhookRequest" where
  "attempt_request pr a req n = req\<lparr>wr_AttemptID := pr_uuid pr (ans_attemptID a n)\<rparr>"

definition attempt_record :: "answers \<Rightarrow> Execution \<Rightarrow> TriggerEvent \<Rightarrow> nat \<Rightarrow> DeliveryAttempt" where
  "attempt_record a execution event n =
     \<lparr>da_ID = ans_attemptID a n, da_ExecutionID = te_ExecutionID event, da_Attempt = int n,
      da_ClaimGeneration = ex_ClaimGeneration execution, da_StatusCode = res_StatusCode (ans_send a n),
      da_Error = (case res_Error (ans_send a n) of None \<Rightarrow> '''' | Some e \<Rightarrow> error_string e),
      da_StartedAt = ans_startedAt a n, da_FinishedAt = ans_finishedAt a n\<rparr>"

datatype loop_end = Returned "unit result" | GaveUp WebhookResult

text \<open>The attempt loop over the attempt numbers that are left.\<close>

fun attempts :: "printing \<Rightarrow> answers \<Rightarrow> WebhookRequest \<Rightarrow> Execution \<Rightarrow> TriggerEvent \<Rightarrow> nat list \<Rightarrow> WebhookResult \<Rightarrow> loop_end \<times> effect list" where
  "attempts pr a req execution event [] lastResult = (GaveUp lastResult, [])"
| "attempts pr a req execution event (n # ns) lastResult =
     (let pre = (if n > 1 then (if ans_metrics a then [FxRetry (IsRetryable lastResult)] else [])
                   @ [FxWait (backoff_for (ans_backoff a) n)] else [])
      in if n > 1 \<and> ans_wait a n \<noteq> None then (Returned (Inl (the (ans_wait a n))), pre)
         else (case ans_renew a n of
           Inl e \<Rightarrow> (Returned (Inl e), pre @ [FxRenew])
         | Inr _ \<Rightarrow>
             (case ans_afterRenew a n of
                Some c \<Rightarrow> (Returned (Inl c), pre @ [FxRenew])
              | None \<Rightarrow>
                  (let result = ans_send a n;
                       sent = pre @ [FxRenew, FxSend (attempt_request pr a req n)]
                         @ (if IsSuccess result \<and> ans_breaker a \<noteq> None then [FxRecordSuccess (wr_URL req)] else [])
                         @ (if ans_metrics a then [FxAttemptMetric n (classifyStatusForMetrics (res_StatusCode result) (res_Error result))] else [])
                         @ [FxInsertAttempt (attempt_record a execution event n)]
                   in (case ans_afterInsert a n of
                         Some c \<Rightarrow> (Returned (Inl c), sent)
                       | None \<Rightarrow>
                           if IsSuccess result
                           then (Returned (ans_complete a Delivered),
                                 sent @ (if ans_metrics a
                                         then [FxOutcome ''success'', FxLatency (ans_deliveredAt a n - te_ScheduledAt event)] else [])
                                   @ [FxComplete Delivered])
                           else if \<not> IsRetryable result then (GaveUp result, sent)
                           else (case attempts pr a req execution event ns result of (r, fx) \<Rightarrow> (r, sent @ fx)))))))"

definition writeAnalytics :: "answers \<Rightarrow> TriggerEvent \<Rightarrow> Job \<Rightarrow> effect list" where
  "writeAnalytics a event job =
     (if \<not> ans_analytics a then [] else if \<not> an_Enabled (job_Analytics job) then [] else [FxAnalytics event])"

definition no_result :: WebhookResult where
  "no_result = \<lparr>res_StatusCode = 0, res_Error = None, res_Duration = 0\<rparr>"

definition webhook_request :: "printing \<Rightarrow> Execution \<Rightarrow> TriggerEvent \<Rightarrow> Job \<Rightarrow> WebhookRequest" where
  "webhook_request pr execution event job =
     \<lparr>wr_URL = dc_WebhookURL (job_Delivery job), wr_Secret = dc_Secret (job_Delivery job),
      wr_Timeout = dc_Timeout (job_Delivery job),
      wr_Payload = \<lparr>wp_JobID = pr_uuid pr (te_JobID event), wp_JobName = job_Name job,
        wp_ExecutionID = pr_uuid pr (te_ExecutionID event), wp_ScheduledAt = pr_time pr (te_ScheduledAt event),
        wp_FiredAt = pr_time pr (te_FiredAt event)\<rparr>,
      wr_AttemptID = '''', wr_Namespace = ex_Namespace execution\<rparr>"

text \<open>From the admission by the breaker on: the loop and the outcome.\<close>

definition deliver :: "printing \<Rightarrow> answers \<Rightarrow> Execution \<Rightarrow> TriggerEvent \<Rightarrow> Job \<Rightarrow> unit result \<times> effect list" where
  "deliver pr a execution event job =
     (let url = dc_WebhookURL (job_Delivery job)
      in case attempts pr a (webhook_request pr execution event job) execution event [1..<maxAttempts + 1] no_result of
           (Returned r, fx) \<Rightarrow> (r, fx)
         | (GaveUp lastResult, fx) \<Rightarrow>
             (ans_complete a Failed,
              fx @ (if ans_breaker a \<noteq> None
                       \<and> \<not> (case res_Error lastResult of None \<Rightarrow> False | Some e \<Rightarrow> errors_Is e ErrDestinationBlocked)
                    then [FxRecordFailure url] else [])
                 @ (if ans_metrics a then [FxOutcome ''failed''] else [])
                 @ [FxComplete Failed]))"

text \<open>The deferred calls run last to first: the probe's cleanup, the gauge, the lease.\<close>

definition dispatchOwned :: "printing \<Rightarrow> answers \<Rightarrow> Execution \<Rightarrow> TriggerEvent \<Rightarrow> unit result \<times> effect list" where
  "dispatchOwned pr a execution event =
     (if ex_ClaimGeneration execution \<le> 0 \<or> ans_leaseDuration a < Millisecond then (Inl ErrExecutionClaimLost, [])
      else
        (let enter = (if ans_metrics a then [FxInFlight 1] else []) @ [FxGetJob (te_JobID event)];
             leave = (if ans_metrics a then [FxInFlight (-1)] else []) @ [FxClose]
         in case ans_getJob a of
              Inl e \<Rightarrow> (Inl (Wrapped ''get job'' e), enter @ leave)
            | Inr job \<Rightarrow>
                (let url = dc_WebhookURL (job_Delivery job); enter = enter @ writeAnalytics a event job
                 in if url = '''' then
                      (Inl (ErrorMsg (''job '' @ pr_uuid pr (te_JobID event) @ '': no webhook URL'')), enter @ leave)
                    else (case ans_breaker a of
                        None \<Rightarrow> (case deliver pr a execution event job of (r, fx) \<Rightarrow> (r, enter @ fx @ leave))
                      | Some CircuitOpen \<Rightarrow>
                          (Inr (), enter @ [FxAllow url] @ (if ans_metrics a then [FxOutcome ''circuit_open''] else []) @ leave)
                      | Some (Admitted p) \<Rightarrow>
                          (case deliver pr a execution event job of
                             (r, fx) \<Rightarrow> (r, enter @ [FxAllow url] @ fx
                                @ (case p of None \<Rightarrow> [] | Some p \<Rightarrow> [FxCancelProbe p]) @ leave))))))"

definition event_of :: "Execution \<Rightarrow> TriggerEvent" where
  "event_of e = \<lparr>te_ExecutionID = ex_ID e, te_JobID = ex_JobID e, te_Namespace = ex_Namespace e,
     te_ScheduledAt = ex_ScheduledAt e, te_FiredAt = ex_FiredAt e, te_CreatedAt = ex_CreatedAt e\<rparr>"

text \<open>\<open>claim\<close> is the answer of \<open>ClaimExecution\<close>; a duplicate notification finds nothing to claim.\<close>

definition Dispatch :: "printing \<Rightarrow> answers \<Rightarrow> Execution option result \<Rightarrow> unit result \<times> effect list" where
  "Dispatch pr a claim =
     (case claim of
        Inl e \<Rightarrow> (Inl (Wrapped ''claim execution'' e), [])
      | Inr None \<Rightarrow> (Inr (), [])
      | Inr (Some execution) \<Rightarrow> dispatchOwned pr a execution (event_of execution))"

section \<open>Reading a trace\<close>

definition sends :: "effect list \<Rightarrow> WebhookRequest list" where
  "sends fx = List.map_filter (\<lambda>e. case e of FxSend r \<Rightarrow> Some r | _ \<Rightarrow> None) fx"

definition inserts :: "effect list \<Rightarrow> DeliveryAttempt list" where
  "inserts fx = List.map_filter (\<lambda>e. case e of FxInsertAttempt r \<Rightarrow> Some r | _ \<Rightarrow> None) fx"

definition completions :: "effect list \<Rightarrow> ExecutionStatus list" where
  "completions fx = List.map_filter (\<lambda>e. case e of FxComplete st \<Rightarrow> Some st | _ \<Rightarrow> None) fx"

definition waits :: "effect list \<Rightarrow> duration list" where
  "waits fx = List.map_filter (\<lambda>e. case e of FxWait d \<Rightarrow> Some d | _ \<Rightarrow> None) fx"

text \<open>Every send comes directly after a renewal.\<close>

fun fenced :: "bool \<Rightarrow> effect list \<Rightarrow> bool" where
  "fenced b [] = True"
| "fenced b (e # es) = ((case e of FxSend q \<Rightarrow> b | _ \<Rightarrow> True) \<and> fenced (e = FxRenew) es)"

lemma fenced_append: "fenced b (xs @ ys) = (fenced b xs \<and> fenced (if xs = [] then b else last xs = FxRenew) ys)"
  by (induction xs arbitrary: b) auto

lemma reading_simps [simp]:
  "sends [] = []" "sends (e # fx) = (case e of FxSend r \<Rightarrow> r # sends fx | _ \<Rightarrow> sends fx)" "sends (fx @ gx) = sends fx @ sends gx"
  "inserts [] = []" "inserts (e # fx) = (case e of FxInsertAttempt r \<Rightarrow> r # inserts fx | _ \<Rightarrow> inserts fx)" "inserts (fx @ gx) = inserts fx @ inserts gx"
  "completions [] = []" "completions (e # fx) = (case e of FxComplete r \<Rightarrow> r # completions fx | _ \<Rightarrow> completions fx)"
  "completions (fx @ gx) = completions fx @ completions gx"
  "waits [] = []" "waits (e # fx) = (case e of FxWait r \<Rightarrow> r # waits fx | _ \<Rightarrow> waits fx)" "waits (fx @ gx) = waits fx @ waits gx"
  by (simp_all add: sends_def inserts_def completions_def waits_def List.map_filter_def split: effect.split)

section \<open>The attempt loop\<close>

text \<open>What the loop has done when it ends: \<open>k\<close> attempts were sent, each under a fresh renewal and each
  recorded; all but the last failed retryably; and the last one explains the end.\<close>

definition failed_retryably :: "answers \<Rightarrow> nat \<Rightarrow> bool" where
  "failed_retryably a n \<longleftrightarrow> IsRetryable (ans_send a n) \<and> \<not> IsSuccess (ans_send a n)"

definition loop_spec :: "printing \<Rightarrow> answers \<Rightarrow> WebhookRequest \<Rightarrow> Execution \<Rightarrow> TriggerEvent \<Rightarrow> nat list \<Rightarrow> WebhookResult
    \<Rightarrow> nat \<Rightarrow> loop_end \<Rightarrow> effect list \<Rightarrow> bool" where
  "loop_spec pr a req execution event ns lastResult k r fx \<longleftrightarrow> k \<le> length ns
     \<and> sends fx = map (attempt_request pr a req) (take k ns)
     \<and> inserts fx = map (attempt_record a execution event) (take k ns)
     \<and> fenced False fx
     \<and> (\<forall>n \<in> set (take k ns). ans_renew a n = Inr () \<and> ans_afterRenew a n = None)
     \<and> (\<forall>n \<in> set (butlast (take k ns)). failed_retryably a n)
     \<and> (completions fx = [] \<or> completions fx = [Delivered] \<and> 0 < k \<and> IsSuccess (ans_send a (ns ! (k - 1)))
          \<and> r = Returned (ans_complete a Delivered))
     \<and> (\<forall>x. r = GaveUp x \<longrightarrow> completions fx = []
          \<and> (k = length ns \<and> (\<forall>n \<in> set ns. failed_retryably a n) \<and> x = (if ns = [] then lastResult else ans_send a (last ns))
             \<or> 0 < k \<and> x = ans_send a (ns ! (k - 1)) \<and> \<not> IsSuccess x \<and> \<not> IsRetryable x))"

lemma loop_specI:
  assumes "loop_spec pr a req execution event ns (ans_send a n) k r fx" "failed_retryably a n"
    and "ans_renew a n = Inr ()" "ans_afterRenew a n = None"
    and "sends pre = [attempt_request pr a req n]" "inserts pre = [attempt_record a execution event n]"
      "completions pre = []" "fenced False pre" "pre \<noteq> []" "last pre \<noteq> FxRenew"
  shows "loop_spec pr a req execution event (n # ns) lastResult (Suc k) r (pre @ fx)"
proof -
  have "(n # ns) ! k = ns ! (k - 1)" if "0 < k" using that by (cases k) simp_all
  moreover have "butlast (take (Suc k) (n # ns)) = (if take k ns = [] then [] else n # butlast (take k ns))" by simp
  ultimately show ?thesis using assms by (auto simp: loop_spec_def fenced_append split: if_splits)
qed

lemma attempts_spec:
  assumes "attempts pr a req execution event ns lastResult = (r, fx)"
  shows "\<exists>k. loop_spec pr a req execution event ns lastResult k r fx"
  using assms
proof (induction ns arbitrary: lastResult r fx)
  case Nil
  then show ?case by (auto simp: loop_spec_def)
next
  case (Cons n ns)
  define pre where "pre = (if n > 1 then (if ans_metrics a then [FxRetry (IsRetryable lastResult)] else [])
    @ [FxWait (backoff_for (ans_backoff a) n)] else [])"
  have pre: "sends pre = []" "inserts pre = []" "completions pre = []" "fenced b pre" for b
    by (simp_all add: pre_def fenced_append)
  define sent where "sent = pre @ [FxRenew, FxSend (attempt_request pr a req n)]
    @ (if IsSuccess (ans_send a n) \<and> ans_breaker a \<noteq> None then [FxRecordSuccess (wr_URL req)] else [])
    @ (if ans_metrics a then [FxAttemptMetric n (classifyStatusForMetrics (res_StatusCode (ans_send a n)) (res_Error (ans_send a n)))] else [])
    @ [FxInsertAttempt (attempt_record a execution event n)]"
  have sent: "sends sent = [attempt_request pr a req n]" "inserts sent = [attempt_record a execution event n]"
      "completions sent = []" "fenced False sent" "sent \<noteq> []" "last sent \<noteq> FxRenew"
    by (simp_all add: sent_def pre fenced_append)
  note step = Cons.prems [unfolded attempts.simps Let_def, folded pre_def, folded sent_def]
  show ?case
  proof (cases "n > 1 \<and> ans_wait a n \<noteq> None")
    case True
    with step pre show ?thesis by (intro exI [of _ 0]) (auto simp: loop_spec_def)
  next
    case waited: False
    show ?thesis
    proof (cases "ans_renew a n = Inr () \<and> ans_afterRenew a n = None")
      case False
      with waited step show ?thesis
        by (intro exI [of _ 0]) (auto simp: loop_spec_def pre fenced_append split: sum.splits option.splits)
    next
      case renewed: True
      show ?thesis
      proof (cases "ans_afterInsert a n = None \<and> failed_retryably a n")
        case True
        obtain r' fx' where rec: "attempts pr a req execution event ns (ans_send a n) = (r', fx')" by fastforce
        from Cons.IH [OF this] obtain k where "loop_spec pr a req execution event ns (ans_send a n) k r' fx'" by blast
        from loop_specI [OF this _ _ _ sent] True renewed
        have "loop_spec pr a req execution event (n # ns) lastResult (Suc k) r' (sent @ fx')" by simp
        moreover have "r = r'" "fx = sent @ fx'"
          using step waited renewed True rec by (auto simp: failed_retryably_def split: if_splits)
        ultimately show ?thesis by blast
      next
        case False
        with step waited renewed sent show ?thesis
          by (intro exI [of _ 1]) (auto simp: loop_spec_def failed_retryably_def fenced_append split: option.splits if_splits)
      qed
    qed
  qed
qed

section \<open>A whole delivery\<close>

lemma attempt_numbers: "[1..<maxAttempts + 1] = [1, 2, 3, 4]"
  by (simp add: maxAttempts_def upt_rec)

lemma take_attempt_numbers: "k \<le> 4 \<Longrightarrow> take k [1, 2, 3, 4] = [1..<k + 1]"
  by (simp add: upt_rec take_Cons' eval_nat_numeral)

lemma deliver_spec:
  assumes "deliver pr a execution event job = (r, fx)"
  obtains k where "k \<le> 4"
      "sends fx = map (attempt_request pr a (webhook_request pr execution event job)) [1..<k + 1]"
      "inserts fx = map (attempt_record a execution event) [1..<k + 1]" "fenced False fx"
      "\<forall>n \<in> {1..k}. ans_renew a n = Inr () \<and> ans_afterRenew a n = None" "\<forall>n \<in> {1..<k}. failed_retryably a n"
      "completions fx = [] \<or> completions fx = [Delivered] \<and> 0 < k \<and> IsSuccess (ans_send a k) \<and> r = ans_complete a Delivered
       \<or> completions fx = [Failed] \<and> 0 < k \<and> r = ans_complete a Failed
          \<and> (k = 4 \<and> failed_retryably a k \<or> \<not> IsSuccess (ans_send a k) \<and> \<not> IsRetryable (ans_send a k))"
proof -
  let ?ns = "[1, 2, 3, 4] :: nat list" and ?req = "webhook_request pr execution event job"
  note deliver = deliver_def [unfolded attempt_numbers]
  obtain e fx' where loop: "attempts pr a ?req execution event ?ns no_result = (e, fx')" by fastforce
  from attempts_spec [OF this] obtain k where k: "loop_spec pr a ?req execution event ?ns no_result k e fx'" by blast
  then have k4: "k \<le> 4" by (simp add: loop_spec_def)
  note tk = take_attempt_numbers [OF this]
  have nth: "?ns ! (k - 1) = k" if "0 < k"
    using that k4 by (cases "k = 1"; cases "k = 2"; cases "k = 3"; cases "k = 4") simp_all
  have bl: "set (butlast (take k ?ns)) = {1..<k}" unfolding tk by (cases k) auto
  note k = k [unfolded loop_spec_def bl, unfolded tk]
  have rn: "\<forall>n \<in> {1..k}. ans_renew a n = Inr () \<and> ans_afterRenew a n = None"
    using k by (simp add: atLeastLessThanSuc_atLeastAtMost del: upt_Suc)
  show thesis
  proof (cases e)
    case (Returned x)
    with loop assms have "r = x" "fx = fx'" by (simp_all add: deliver)
    with k Returned k4 nth show thesis
      by (intro that [of k]) (auto simp: atLeastLessThanSuc_atLeastAtMost)
  next
    case (GaveUp x)
    define rest where "rest = (if ans_breaker a \<noteq> None
        \<and> \<not> (case res_Error x of None \<Rightarrow> False | Some e \<Rightarrow> errors_Is e ErrDestinationBlocked)
      then [FxRecordFailure (dc_WebhookURL (job_Delivery job))] else [])
      @ (if ans_metrics a then [FxOutcome ''failed''] else []) @ [FxComplete Failed]"
    from GaveUp loop assms have r: "r = ans_complete a Failed" "fx = fx' @ rest"
      by (simp_all add: deliver Let_def rest_def)
    have rest: "sends rest = []" "inserts rest = []" "completions rest = [Failed]" "fenced b rest" for b
      by (auto simp: rest_def)
    have end_k: "0 < k \<and> (k = 4 \<and> failed_retryably a k \<or> \<not> IsSuccess (ans_send a k) \<and> \<not> IsRetryable (ans_send a k))"
    proof -
      consider (all) "k = length ?ns" "\<forall>n \<in> set ?ns. failed_retryably a n"
        | (final) "0 < k" "x = ans_send a (?ns ! (k - 1))" "\<not> IsSuccess x" "\<not> IsRetryable x"
        using k GaveUp by blast
      then show ?thesis
      proof cases
        case all
        then have "k = 4" "failed_retryably a 4" by auto
        then show ?thesis by simp
      next
        case final
        then show ?thesis using nth [OF final(1)] by metis
      qed
    qed
    have c: "completions fx = [Failed]" and f: "fenced False fx" and io: "sends fx = sends fx'" "inserts fx = inserts fx'"
      using k GaveUp rest by (simp_all add: r fenced_append)
    show thesis
      by (rule that [of k]) (use k k4 end_k r(1) c f io rn in \<open>simp_all del: upt_Suc\<close>)
  qed
qed

lemma dispatchOwned_spec:
  assumes "dispatchOwned pr a execution event = (r, fx)"
  obtains (nothing) "sends fx = []" "inserts fx = []" "completions fx = []" "waits fx = []" "fenced False fx"
  | (delivered) job fx' where "ans_getJob a = Inr job" "deliver pr a execution event job = (r, fx')"
      "sends fx = sends fx'" "inserts fx = inserts fx'" "completions fx = completions fx'" "waits fx = waits fx'"
      "fenced False fx' \<Longrightarrow> fenced False fx"
proof (cases "\<exists>job. ans_getJob a = Inr job \<and> \<not> (ex_ClaimGeneration execution \<le> 0 \<or> ans_leaseDuration a < Millisecond)
    \<and> dc_WebhookURL (job_Delivery job) \<noteq> '''' \<and> ans_breaker a \<noteq> Some CircuitOpen")
  case True
  then obtain job where job: "ans_getJob a = Inr job" "dc_WebhookURL (job_Delivery job) \<noteq> ''''"
    "ans_breaker a \<noteq> Some CircuitOpen" "\<not> (ex_ClaimGeneration execution \<le> 0 \<or> ans_leaseDuration a < Millisecond)" by blast
  obtain r' fx' where d: "deliver pr a execution event job = (r', fx')" by fastforce
  from assms job d show thesis
    by (intro delivered [of job fx'])
      (auto simp: dispatchOwned_def Let_def writeAnalytics_def fenced_append split: option.splits admission.splits if_splits)
next
  case False
  with assms have none: "sends fx = [] \<and> inserts fx = [] \<and> completions fx = [] \<and> waits fx = [] \<and> fenced False fx"
    by (auto simp: dispatchOwned_def Let_def writeAnalytics_def fenced_append
      split: option.splits admission.splits if_splits sum.splits)
  show thesis by (rule nothing) (use none in auto)
qed

section \<open>Properties\<close>

text \<open>
  C14: the delivery protocol. Whatever its calls answer, a delivery sends at most four requests, each
  directly after a renewal of its claim that succeeded; every request but the last failed
  retryably; every request sent is recorded, in order, under its own number and the claim's
  generation; and it completes the execution at most once: as delivered only if the last request
  succeeded, as failed only if the last one failed for good or was the fourth.
\<close>

theorem delivery_protocol:
  "let (r, fx) = dispatchOwned pr a execution event; k = length (sends fx)
   in k \<le> 4 \<and> fenced False fx
      \<and> (\<forall>n \<in> {1..k}. ans_renew a n = Inr () \<and> ans_afterRenew a n = None)
      \<and> (\<forall>n \<in> {1..<k}. IsRetryable (ans_send a n) \<and> \<not> IsSuccess (ans_send a n))
      \<and> map wr_AttemptID (sends fx) = map (\<lambda>n. pr_uuid pr (ans_attemptID a n)) [1..<k + 1]
      \<and> inserts fx = map (attempt_record a execution event) [1..<k + 1]
      \<and> (completions fx = []
         \<or> completions fx = [Delivered] \<and> 0 < k \<and> IsSuccess (ans_send a k) \<and> r = ans_complete a Delivered
         \<or> completions fx = [Failed] \<and> 0 < k \<and> r = ans_complete a Failed \<and> \<not> IsSuccess (ans_send a k)
            \<and> (k = 4 \<or> \<not> IsRetryable (ans_send a k)))"
proof -
  obtain r fx where d: "dispatchOwned pr a execution event = (r, fx)" by fastforce
  then show ?thesis
  proof (cases rule: dispatchOwned_spec)
    case nothing
    with d show ?thesis by simp
  next
    case (delivered job fx')
    from delivered(2) show ?thesis
    proof (cases rule: deliver_spec)
      case (1 k)
      then have "length (sends fx) = k" using delivered by simp
      with 1 delivered d show ?thesis
        by (auto simp: Let_def failed_retryably_def attempt_request_def comp_def)
    qed
  qed
qed

definition sample_printing :: printing where
  "sample_printing = \<lparr>pr_uuid = (\<lambda>u. if u = 2 then ''j'' else ''x''), pr_time = (\<lambda>t. ''t'')\<rparr>"

definition sample_answers :: "WebhookResult list \<Rightarrow> answers" where
  "sample_answers results = \<lparr>ans_leaseDuration = 2 * Minute, ans_backoff = defaultBackoff, ans_metrics = True, ans_analytics = False,
     ans_getJob = Inr sample_job, ans_breaker = Some (Admitted None), ans_wait = (\<lambda>n. None), ans_renew = (\<lambda>n. Inr ()),
     ans_afterRenew = (\<lambda>n. None), ans_attemptID = (\<lambda>n. of_nat n), ans_startedAt = (\<lambda>n. 100), ans_send = (\<lambda>n. results ! (n - 1)),
     ans_finishedAt = (\<lambda>n. 200), ans_afterInsert = (\<lambda>n. None), ans_deliveredAt = (\<lambda>n. 0), ans_complete = (\<lambda>st. Inr ())\<rparr>"

definition http_status :: "int \<Rightarrow> WebhookResult" where
  "http_status code = \<lparr>res_StatusCode = code, res_Error = None, res_Duration = 5\<rparr>"

lemmas sample_dispatch_defs = dispatchOwned_def deliver_def attempt_numbers [simplified] sample_answers_def sample_execution_def sample_job_def
  event_of_def webhook_request_def writeAnalytics_def IsSuccess_def IsRetryable_def http_status_def Let_def
  classifyStatusForMetrics_def

theorem delivery_protocol_witness:
  "let fx = snd (dispatchOwned sample_printing (sample_answers (map http_status [503, 200])) sample_execution (event_of sample_execution))
   in length (sends fx) = 2 \<and> completions fx = [Delivered] \<and> map da_StatusCode (inserts fx) = [503, 200]"
proof -
  let ?a = "sample_answers (map http_status [503, 200])"
  obtain r fx where d: "dispatchOwned sample_printing ?a sample_execution (event_of sample_execution) = (r, fx)" by fastforce
  have k: "length (sends fx) = 2" and c: "completions fx = [Delivered]"
    using d by (auto simp: sample_dispatch_defs)
  have "inserts fx = map (attempt_record ?a sample_execution (event_of sample_execution)) [1..<2 + 1]"
    using delivery_protocol [of sample_printing ?a sample_execution "event_of sample_execution"] d unfolding Let_def
    by (simp only: prod.case k)
  with d k c show ?thesis by (simp add: attempt_record_def sample_answers_def http_status_def upt_rec)
qed

text \<open>The verdict on a list of results: the first success, or the first failure for good, decides.\<close>

fun verdict :: "WebhookResult list \<Rightarrow> ExecutionStatus" where
  "verdict [] = Failed"
| "verdict (r # rs) = (if IsSuccess r then Delivered else if IsRetryable r then verdict rs else Failed)"

fun needed :: "WebhookResult list \<Rightarrow> nat" where
  "needed [] = 0"
| "needed (r # rs) = (if \<not> IsSuccess r \<and> IsRetryable r then Suc (needed rs) else 1)"

definition undisturbed :: "answers \<Rightarrow> bool" where
  "undisturbed a \<longleftrightarrow> Millisecond \<le> ans_leaseDuration a
     \<and> (\<forall>n \<in> {1..4}. ans_wait a n = None \<and> ans_renew a n = Inr () \<and> ans_afterRenew a n = None \<and> ans_afterInsert a n = None)"

lemma attempts_undisturbed:
  assumes "\<forall>n \<in> set ns. ans_wait a n = None \<and> ans_renew a n = Inr () \<and> ans_afterRenew a n = None \<and> ans_afterInsert a n = None"
    and "attempts pr a req execution event ns lastResult = (r, fx)"
  shows "length (sends fx) = needed (map (ans_send a) ns)
    \<and> (case r of Returned x \<Rightarrow> verdict (map (ans_send a) ns) = Delivered \<and> completions fx = [Delivered] \<and> x = ans_complete a Delivered
       | GaveUp _ \<Rightarrow> verdict (map (ans_send a) ns) = Failed \<and> completions fx = [])"
  using assms
proof (induction ns arbitrary: lastResult r fx)
  case (Cons n ns)
  obtain r' fx' where rec: "attempts pr a req execution event ns (ans_send a n) = (r', fx')" by fastforce
  have IH: "length (sends fx') = needed (map (ans_send a) ns)
    \<and> (case r' of Returned x \<Rightarrow> verdict (map (ans_send a) ns) = Delivered \<and> completions fx' = [Delivered] \<and> x = ans_complete a Delivered
       | GaveUp _ \<Rightarrow> verdict (map (ans_send a) ns) = Failed \<and> completions fx' = [])"
    by (rule Cons.IH [OF _ rec]) (use Cons.prems(1) in simp)
  show ?case
    using Cons.prems IH rec by (cases "IsSuccess (ans_send a n)"; cases "IsRetryable (ans_send a n)"; cases r')
      (force simp: Let_def split: if_splits)+
qed auto

text \<open>
  the outcome of an undisturbed delivery. When the claim holds throughout, the delivery sends as many
  requests as the results require and completes the execution with their verdict: delivered when
  an attempt succeeds before one fails for good and within four, failed otherwise.
\<close>

theorem undisturbed_outcome:
  assumes "undisturbed a" "0 < ex_ClaimGeneration execution" "ans_getJob a = Inr job"
    and "dc_WebhookURL (job_Delivery job) \<noteq> ''''" "ans_breaker a \<noteq> Some CircuitOpen"
  shows "let (r, fx) = dispatchOwned pr a execution event; results = map (ans_send a) [1, 2, 3, 4]
         in completions fx = [verdict results] \<and> length (sends fx) = needed results \<and> r = ans_complete a (verdict results)"
proof -
  obtain e fx' where loop: "attempts pr a (webhook_request pr execution event job) execution event [1, 2, 3, 4] no_result = (e, fx')"
    by fastforce
  have calm: "\<forall>n \<in> set [1, 2, 3, 4]. ans_wait a n = None \<and> ans_renew a n = Inr () \<and> ans_afterRenew a n = None \<and> ans_afterInsert a n = None"
    using assms(1) by (simp add: undisturbed_def)
  define results where "results = map (ans_send a) [1, 2, 3, 4]"
  note spec = attempts_undisturbed [OF calm loop, folded results_def]
  obtain r fx where d: "deliver pr a execution event job = (r, fx)" by fastforce
  have deliver: "completions fx = [verdict results] \<and> length (sends fx) = needed results \<and> r = ans_complete a (verdict results)"
    using d spec unfolding deliver_def attempt_numbers loop by (auto simp: Let_def split: loop_end.splits)
  have enter: "\<not> (ex_ClaimGeneration execution \<le> 0 \<or> ans_leaseDuration a < Millisecond)"
    using assms(1,2) by (simp add: undisturbed_def)
  have "\<exists>pre post. dispatchOwned pr a execution event = (r, pre @ fx @ post) \<and> completions pre = [] \<and> sends pre = []
      \<and> completions post = [] \<and> sends post = []"
  proof (cases "ans_breaker a")
    case None
    with enter assms(3,4) d show ?thesis
      by (intro exI [of _ "(if ans_metrics a then [FxInFlight 1] else []) @ [FxGetJob (te_JobID event)] @ writeAnalytics a event job"]
        exI [of _ "(if ans_metrics a then [FxInFlight (-1)] else []) @ [FxClose]"])
        (simp add: dispatchOwned_def writeAnalytics_def)
  next
    case (Some adm)
    with assms(5) obtain p where "ans_breaker a = Some (Admitted p)" by (cases adm) auto
    with enter assms(3,4) d show ?thesis
      by (intro exI [of _ "(if ans_metrics a then [FxInFlight 1] else []) @ [FxGetJob (te_JobID event)] @ writeAnalytics a event job
          @ [FxAllow (dc_WebhookURL (job_Delivery job))]"]
        exI [of _ "(case p of None \<Rightarrow> [] | Some p \<Rightarrow> [FxCancelProbe p]) @ (if ans_metrics a then [FxInFlight (-1)] else []) @ [FxClose]"])
        (simp add: dispatchOwned_def writeAnalytics_def split: option.split)
  qed
  then obtain pre post where "dispatchOwned pr a execution event = (r, pre @ fx @ post)"
      "completions pre = []" "sends pre = []" "completions post = []" "sends post = []" by blast
  with deliver show ?thesis unfolding results_def [symmetric] Let_def by simp
qed

theorem undisturbed_outcome_witness:
  "let (r, fx) = dispatchOwned sample_printing (sample_answers (map http_status [500, 429, 404, 200])) sample_execution (event_of sample_execution)
   in completions fx = [Failed] \<and> length (sends fx) = 3"
proof -
  let ?a = "sample_answers (map http_status [500, 429, 404, 200])"
  have "undisturbed ?a" by (simp add: undisturbed_def sample_answers_def)
  from undisturbed_outcome [OF this, of sample_execution sample_job sample_printing "event_of sample_execution"]
  show ?thesis by (simp add: sample_answers_def sample_execution_def sample_job_def Let_def http_status_def
      IsSuccess_def IsRetryable_def case_prod_unfold)
qed

lemma MaxRetryDuration_value: "MaxRetryDuration = 990 * Second"
  by (simp add: MaxRetryDuration_def maxAttempts_def maxWebhookAttemptTimeout_def defaultBackoff_def)

lemma attempts_waits:
  assumes "attempts pr a req execution event ns lastResult = (r, fx)"
  shows "\<exists>k \<le> length ns. waits fx = map (backoff_for (ans_backoff a)) (filter (\<lambda>n. n > 1) (take k ns))"
  using assms
proof (induction ns arbitrary: lastResult r fx)
  case (Cons n ns)
  obtain r' fx' where rec: "attempts pr a req execution event ns (ans_send a n) = (r', fx')" by fastforce
  show ?case
  proof (cases "n > 1 \<and> ans_wait a n \<noteq> None \<or> ans_renew a n \<noteq> Inr () \<or> ans_afterRenew a n \<noteq> None \<or> ans_afterInsert a n \<noteq> None
      \<or> IsSuccess (ans_send a n) \<or> \<not> IsRetryable (ans_send a n)")
    case True
    then have "waits fx = map (backoff_for (ans_backoff a)) (filter (\<lambda>n. n > 1) [n])"
      using Cons.prems by (auto simp: Let_def split: if_splits option.splits sum.splits prod.splits)
    then show ?thesis by (intro exI [of _ 1]) auto
  next
    case False
    from Cons.IH [OF rec] obtain k where "k \<le> length ns" "waits fx' = map (backoff_for (ans_backoff a)) (filter (\<lambda>n. n > 1) (take k ns))"
      by blast
    with False Cons.prems rec show ?thesis by (intro exI [of _ "Suc k"]) (auto simp: Let_def split: if_splits)
  qed
qed auto

text \<open>
  the retry budget. With the default backoff, the pauses of a delivery plus one maximal webhook
  timeout per request it sends never exceed \<open>MaxRetryDuration\<close>, which is sixteen and a half minutes.
\<close>

theorem retry_budget:
  assumes "ans_backoff a = defaultBackoff"
  shows "let fx = snd (dispatchOwned pr a execution event)
         in sum_list (waits fx) + int (length (sends fx)) * maxWebhookAttemptTimeout \<le> MaxRetryDuration \<and> MaxRetryDuration = 990 * Second"
proof -
  obtain r fx where d: "dispatchOwned pr a execution event = (r, fx)" by fastforce
  have "sum_list (waits fx) \<le> 750 * Second"
    using d
  proof (cases rule: dispatchOwned_spec)
    case nothing
    then show ?thesis by simp
  next
    case (delivered job fx')
    obtain e fx2 where loop: "attempts pr a (webhook_request pr execution event job) execution event [1, 2, 3, 4] no_result = (e, fx2)"
      by fastforce
    have "waits fx' = waits fx2"
      using delivered(2) unfolding deliver_def attempt_numbers loop by (auto simp: Let_def split: loop_end.splits if_splits)
    moreover obtain k where "k \<le> length [1, 2, 3, 4 :: nat]"
        "waits fx2 = map (backoff_for (ans_backoff a)) (filter (\<lambda>n. n > 1) (take k [1, 2, 3, 4]))"
      using attempts_waits [OF loop] by blast
    ultimately show ?thesis using delivered(6) assms
      by (cases "k = 0"; cases "k = 1"; cases "k = 2"; cases "k = 3"; cases "k = 4")
        (simp_all add: backoff_for_def defaultBackoff_def Let_def)
  qed
  moreover have "length (sends fx) \<le> 4"
    using d
  proof (cases rule: dispatchOwned_spec)
    case (delivered job fx')
    from delivered(2) show ?thesis by (cases rule: deliver_spec) (use delivered in auto)
  qed simp
  ultimately show ?thesis using d by (simp add: MaxRetryDuration_value maxWebhookAttemptTimeout_def)
qed

theorem retry_budget_witness:
  "sum_list (waits (snd (dispatchOwned sample_printing (sample_answers (map http_status [500, 500, 500, 500])) sample_execution
      (event_of sample_execution)))) \<le> MaxRetryDuration"
  using retry_budget [of "sample_answers (map http_status [500, 500, 500, 500])" sample_printing sample_execution "event_of sample_execution"]
  by (simp add: Let_def sample_answers_def maxWebhookAttemptTimeout_def)

section \<open>Matching without case\<close>

lemma match_at_iff: "match_at s sub \<longleftrightarrow> prefix (map lower_byte sub) (map lower_byte s)"
  by (induction s sub rule: match_at.induct) auto

lemma sublist_iff_drop: "sublist ys xs \<longleftrightarrow> (\<exists>i \<le> length xs. prefix ys (drop i xs))"
proof
  assume "sublist ys xs"
  then obtain ps ss where "xs = ps @ ys @ ss" by (auto simp: sublist_def)
  then show "\<exists>i \<le> length xs. prefix ys (drop i xs)" by (intro exI [of _ "length ps"]) auto
next
  assume "\<exists>i \<le> length xs. prefix ys (drop i xs)"
  then obtain i zs where "drop i xs = ys @ zs" by (auto simp: prefix_def)
  then have "xs = take i xs @ ys @ zs" by (metis append_take_drop_id)
  then show "sublist ys xs" unfolding sublist_def by blast
qed

text \<open>
  \<open>containsInsensitive\<close> is substring search on the lower-cased texts.
\<close>

theorem containsInsensitive_correct: "containsInsensitive s sub \<longleftrightarrow> sublist (map lower_byte sub) (map lower_byte s)"
proof -
  have "(\<exists>i \<le> length s. prefix (map lower_byte sub) (drop i (map lower_byte s)))
      \<longleftrightarrow> length sub \<le> length s \<and> (\<exists>i < length s - length sub + 1. match_at (drop i s) sub)"
  proof safe
    fix i assume "i \<le> length s" and p: "prefix (map lower_byte sub) (drop i (map lower_byte s))"
    from prefix_length_le [OF p] have "length sub \<le> length s - i" by simp
    with \<open>i \<le> length s\<close> p show "length sub \<le> length s" "\<exists>i < length s - length sub + 1. match_at (drop i s) sub"
      by (auto simp: match_at_iff drop_map intro!: exI [of _ i])
  next
    fix i assume "i < length s - length sub + 1" "match_at (drop i s) sub"
    then show "\<exists>i \<le> length s. prefix (map lower_byte sub) (drop i (map lower_byte s))"
      by (intro exI [of _ i]) (auto simp: match_at_iff drop_map)
  qed
  then show ?thesis
    by (simp add: containsInsensitive_def sublist_iff_drop list_ex_iff Bex_def del: upt_Suc)
qed

section \<open>Polling the database\<close>

text \<open>
  The workers of \<open>RunDBPoll\<close> and \<open>dbPollWorker\<close> share one buffered channel of slots. A worker reserves a
  slot, takes more without waiting when the store can claim batches (at most sixteen), claims as
  many executions as it reserved, gives back what it did not use, and every claimed execution keeps
  its slot until its delivery ends.
\<close>

record poll_pool =
  pp_capacity :: nat
  pp_used :: nat
  pp_reserved :: "nat list"
  pp_deliveries :: nat

definition RunDBPoll_start :: "nat \<Rightarrow> poll_pool" where
  "RunDBPoll_start workers = \<lparr>pp_capacity = workers * 4, pp_used = 0, pp_reserved = replicate workers 0, pp_deliveries = 0\<rparr>"

inductive poll_step :: "bool \<Rightarrow> poll_pool \<Rightarrow> poll_pool \<Rightarrow> bool" for batching where
  reserve: "w < length (pp_reserved p) \<Longrightarrow> pp_reserved p ! w = 0 \<Longrightarrow> pp_used p < pp_capacity p
    \<Longrightarrow> poll_step batching p (p\<lparr>pp_used := pp_used p + 1, pp_reserved := (pp_reserved p)[w := 1]\<rparr>)"
| reserve_more: "batching \<Longrightarrow> w < length (pp_reserved p) \<Longrightarrow> 0 < pp_reserved p ! w
    \<Longrightarrow> pp_reserved p ! w < min 16 (pp_capacity p) \<Longrightarrow> pp_used p < pp_capacity p
    \<Longrightarrow> poll_step batching p (p\<lparr>pp_used := pp_used p + 1, pp_reserved := (pp_reserved p)[w := pp_reserved p ! w + 1]\<rparr>)"
| dequeue_error: "w < length (pp_reserved p)
    \<Longrightarrow> poll_step batching p (p\<lparr>pp_used := pp_used p - pp_reserved p ! w, pp_reserved := (pp_reserved p)[w := 0]\<rparr>)"
| dequeued: "w < length (pp_reserved p) \<Longrightarrow> k \<le> pp_reserved p ! w
    \<Longrightarrow> poll_step batching p (p\<lparr>pp_used := pp_used p - (pp_reserved p ! w - k), pp_reserved := (pp_reserved p)[w := 0],
          pp_deliveries := pp_deliveries p + k\<rparr>)"
| delivered: "0 < pp_deliveries p
    \<Longrightarrow> poll_step batching p (p\<lparr>pp_used := pp_used p - 1, pp_deliveries := pp_deliveries p - 1\<rparr>)"

definition pool_ok :: "nat \<Rightarrow> poll_pool \<Rightarrow> bool" where
  "pool_ok workers p \<longleftrightarrow> pp_capacity p = workers * 4 \<and> length (pp_reserved p) = workers
     \<and> pp_used p = sum_list (pp_reserved p) + pp_deliveries p \<and> pp_used p \<le> pp_capacity p
     \<and> (\<forall>n \<in> set (pp_reserved p). n \<le> 16)"

lemma sum_list_update_nat: "i < length xs \<Longrightarrow> sum_list (xs[i := v]) + xs ! i = sum_list xs + (v :: nat)"
proof (induction xs arbitrary: i)
  case (Cons x xs)
  show ?case
  proof (cases i)
    case (Suc n)
    then show ?thesis using Cons.IH [of n] Cons.prems by simp
  qed simp
qed simp

lemma nth_le_sum_list: "i < length xs \<Longrightarrow> xs ! i \<le> sum_list (xs :: nat list)"
  using elem_le_sum_list by blast

lemma poll_step_ok: "poll_step batching p q \<Longrightarrow> pool_ok workers p \<Longrightarrow> pool_ok workers q"
proof (induction rule: poll_step.induct)
  case (reserve w p)
  then show ?case using sum_list_update_nat [of w "pp_reserved p" 1]
    by (auto simp: pool_ok_def dest!: subsetD [OF set_update_subset_insert])
next
  case (reserve_more w p)
  then show ?case using sum_list_update_nat [of w "pp_reserved p" "pp_reserved p ! w + 1"]
    by (auto simp: pool_ok_def dest!: subsetD [OF set_update_subset_insert])
next
  case (dequeue_error w p)
  then show ?case using sum_list_update_nat [of w "pp_reserved p" 0] nth_le_sum_list [of w "pp_reserved p"]
    by (auto simp: pool_ok_def dest!: subsetD [OF set_update_subset_insert])
next
  case (dequeued w p k)
  then show ?case using sum_list_update_nat [of w "pp_reserved p" 0] nth_le_sum_list [of w "pp_reserved p"]
    by (auto simp: pool_ok_def dest!: subsetD [OF set_update_subset_insert])
next
  case (delivered p)
  then show ?case by (auto simp: pool_ok_def)
qed

text \<open>
  polling is bounded. However workers, claims and deliveries interleave, the deliveries under way
  together with the slots reserved for claims are the slots in use, at most four per worker, and no
  worker asks for more than sixteen executions at once.
\<close>

theorem poll_bounded:
  assumes "(poll_step batching)\<^sup>*\<^sup>* (RunDBPoll_start workers) p"
  shows "pp_deliveries p + sum_list (pp_reserved p) = pp_used p \<and> pp_used p \<le> 4 * workers \<and> (\<forall>n \<in> set (pp_reserved p). n \<le> 16)"
proof -
  have "pool_ok workers p"
    using assms
  proof (induction rule: rtranclp_induct)
    case base
    show ?case by (simp add: pool_ok_def RunDBPoll_start_def sum_list_replicate)
  next
    case (step q r)
    then show ?case by (blast intro: poll_step_ok)
  qed
  then show ?thesis by (auto simp: pool_ok_def)
qed

theorem poll_bounded_witness:
  "pp_used (RunDBPoll_start 2\<lparr>pp_used := 1, pp_reserved := [1, 0]\<rparr>) \<le> 4 * 2"
proof -
  have "poll_step True (RunDBPoll_start 2) (RunDBPoll_start 2\<lparr>pp_used := 1, pp_reserved := [1, 0]\<rparr>)"
    using poll_step.reserve [of 0 "RunDBPoll_start 2" True] by (simp add: RunDBPoll_start_def numeral_2_eq_2)
  from poll_bounded [OF r_into_rtranclp, OF this] show ?thesis by simp
qed

text \<open>The pause of an idle worker.\<close>

definition next_idle :: "duration \<Rightarrow> duration \<Rightarrow> duration" where
  "next_idle pollInterval idleDelay =
     (let maxIdleDelay = max pollInterval Second
      in if idleDelay < go_div maxIdleDelay 2 then idleDelay * 2 else maxIdleDelay)"

lemma next_idle_bounds:
  "0 < p \<Longrightarrow> p \<le> d \<Longrightarrow> d \<le> max p Second \<Longrightarrow> p \<le> next_idle p d \<and> next_idle p d \<le> max p Second"
  by (auto simp: next_idle_def Let_def go_div_def max_def split: if_splits)

end
