(* ===== verification/Ticks.thy ===== *)
theory Ticks
  imports Scheduler Dispatcher
begin

text \<open>
  What a scheduler tick and a reconciler cycle achieve on the store: the pagination visits every enabled
  job, a job fires exactly its due slots, the cursor of the scheduler never passes a slot that is not
  stored, and the reconciler hands over the executions that were left behind.
\<close>

section \<open>The jobs of a tick\<close>

text \<open>
  What the tick needs: identifiers that are new, windows that start after the zero time, and for every job
  the slots \<open>S\<close> of its schedule. A job whose schedule is not understood has none.
\<close>

definition tick_pre :: "(uuid \<Rightarrow> time set) \<Rightarrow> sched_world \<Rightarrow> time \<Rightarrow> Scheduler \<Rightarrow> JobWithSchedule list \<Rightarrow> db \<Rightarrow> bool" where
  "tick_pre S w now s jobs db \<longleftrightarrow> distinct (map jws_id jobs) \<and> good_world w now (jws_id ` set jobs) \<and> unused w now (jws_id ` set jobs) db
     \<and> (\<forall>jws \<in> set jobs. 0 < windowStart w s jws (sc_lastTick s) now db
          \<and> (not_understood w jws \<and> S (jws_id jws) = {} \<or> scheduled_by w jws (S (jws_id jws))))"

definition job_post :: "time set \<Rightarrow> time \<Rightarrow> time \<Rightarrow> uuid \<Rightarrow> db \<Rightarrow> processJobResult \<Rightarrow> err option \<Rightarrow> db \<Rightarrow> bool" where
  "job_post S start now j db res err db' \<longleftrightarrow> (S = {} \<and> pj_cursor res = 0 \<or> start \<le> pj_cursor res)
     \<and> (\<forall>t \<in> S. start < t \<and> t \<le> pj_cursor res \<longrightarrow> stored db' j t)
     \<and> (err = None \<and> \<not> pj_capped res \<longrightarrow> (\<forall>t \<in> S. start < t \<and> t \<le> now \<longrightarrow> stored db' j t))
     \<and> (\<forall>x. stored db' j x \<and> \<not> stored db j x \<longrightarrow> x \<le> now \<and> (\<forall>t \<in> S. start < t \<and> t \<le> x \<longrightarrow> stored db' j t))"

lemma process_job_post:
  assumes "tick_pre S w now s (jws # jobs) db" "processJobWithProgress w s jws (sc_lastTick s) now db = ((res, err), db1)"
  shows "job_post (S (jws_id jws)) (windowStart w s jws (sc_lastTick s) now db) now (jws_id jws) db res err db1
    \<and> added w (fst jws) {t. slot_time now t} db db1"
proof (cases "not_understood w jws \<and> S (jws_id jws) = {}")
  case True
  with process_not_understood [OF _ assms(2)] show ?thesis by (auto simp: job_post_def added_refl)
next
  case False
  let ?start = "windowStart w s jws (sc_lastTick s) now db"
  have g: "good_world w now {jws_id jws}" by (rule good_world_subset [of _ _ "jws_id ` set (jws # jobs)"]) (use assms(1) in \<open>auto simp: tick_pre_def\<close>)
  have sch: "scheduled_by w jws (S (jws_id jws))" using assms(1) False by (auto simp: tick_pre_def)
  have "fresh_ids w now db (fst jws) ?start" using assms(1) by (simp add: tick_pre_def unused_def fresh_ids_def)
  note spec = process_job_spec [OF sch g this refl assms(2)]
  have sub: "{t \<in> S (jws_id jws). ?start < t \<and> t \<le> now} \<subseteq> {t. slot_time now t}"
    using sch by (auto simp: scheduled_by_def Let_def cron_next_def slot_time_def)
  have a: "added w (fst jws) {t. slot_time now t} db db1" by (rule added_mono [OF conjunct1 [OF spec] sub])
  have "x \<le> now" if "stored db1 (jws_id jws) x" "\<not> stored db (jws_id jws) x" for x
    using a that by (auto simp: added_def stored_def slot_row_def slot_time_def)
  with a spec show ?thesis unfolding job_post_def by blast
qed

lemma tick_pre_rest:
  assumes pre: "tick_pre S w now s (jws # jobs) db" and add: "added w (fst jws) {t. slot_time now t} db db1"
  shows "tick_pre S w now s jobs db1 \<and> (\<forall>jws' \<in> set jobs. windowStart w s jws' (sc_lastTick s) now db1 = windowStart w s jws' (sc_lastTick s) now db)"
proof -
  have new: "jws_id jws \<notin> jws_id ` set jobs" using pre by (simp add: tick_pre_def)
  have "unused w now (jws_id ` set jobs) db1"
    by (rule unused_step [of w now _ db "fst jws" UNIV]) (use pre add in \<open>auto simp: tick_pre_def unused_def\<close>)
  moreover have "good_world w now (jws_id ` set jobs)"
    by (rule good_world_subset [of _ _ "jws_id ` set (jws # jobs)"]) (use pre in \<open>auto simp: tick_pre_def\<close>)
  moreover have "windowStart w s jws' (sc_lastTick s) now db1 = windowStart w s jws' (sc_lastTick s) now db" if "jws' \<in> set jobs" for jws'
    by (rule windowStart_cong, rule added_other [OF add], metis imageI new that)
  ultimately show ?thesis using pre by (auto simp: tick_pre_def)
qed

lemma process_jobs_complete:
  "process_jobs w s now jobs (nlt, n) db = ((nlt', n'), db') \<Longrightarrow> nlt \<le> now \<Longrightarrow> tick_pre S w now s jobs db
    \<Longrightarrow> nlt' \<le> nlt \<and> (0 < nlt \<longrightarrow> 0 < nlt') \<and> (\<forall>jws \<in> set jobs. \<forall>t \<in> S (jws_id jws).
          windowStart w s jws (sc_lastTick s) now db < t \<and> t \<le> nlt' \<longrightarrow> stored db' (jws_id jws) t)"
proof (induction jobs arbitrary: nlt n db)
  case (Cons jws jobs)
  obtain res err db1 where one: "processJobWithProgress w s jws (sc_lastTick s) now db = ((res, err), db1)" by (metis prod.collapse)
  define nlt1 where "nlt1 = (if (pj_capped res \<or> err \<noteq> None) \<and> \<not> IsZero (pj_cursor res) \<and> pj_cursor res < nlt then pj_cursor res else nlt)"
  let ?start = "windowStart w s jws (sc_lastTick s) now db"
  have rest: "process_jobs w s now jobs (nlt1, n + pj_triggered res) db1 = ((nlt', n'), db')"
    using Cons.prems(1) one by (simp add: Let_def nlt1_def)
  have le: "nlt1 \<le> nlt" by (simp add: nlt1_def)
  note post = process_job_post [OF Cons.prems(3) one]
  note pre = tick_pre_rest [OF Cons.prems(3) conjunct2 [OF post]]
  have IH: "nlt' \<le> nlt1 \<and> (0 < nlt1 \<longrightarrow> 0 < nlt') \<and> (\<forall>jws \<in> set jobs. \<forall>t \<in> S (jws_id jws).
      windowStart w s jws (sc_lastTick s) now db1 < t \<and> t \<le> nlt' \<longrightarrow> stored db' (jws_id jws) t)"
    by (rule Cons.IH [OF rest]) (use le Cons.prems(2) pre in auto)
  have start: "0 < ?start" using Cons.prems(3) by (simp add: tick_pre_def)
  have "pj_cursor res = 0 \<or> ?start \<le> pj_cursor res" using post unfolding job_post_def by blast
  with start have pos: "0 < nlt \<longrightarrow> 0 < nlt1" by (auto simp: nlt1_def)
  have "stored db' (jws_id jws) t" if t: "t \<in> S (jws_id jws)" "?start < t" "t \<le> nlt'" for t
  proof -
    have "t \<le> now" using t(3) IH le Cons.prems(2) by simp
    moreover have "t \<le> pj_cursor res" if "\<not> (err = None \<and> \<not> pj_capped res)"
    proof -
      have "?start \<le> pj_cursor res" using post t(1) unfolding job_post_def by blast
      with that start have "nlt1 \<le> pj_cursor res" by (auto simp: nlt1_def)
      with t(3) IH show ?thesis by simp
    qed
    ultimately have "stored db1 (jws_id jws) t" using post t unfolding job_post_def by blast
    then show ?thesis by (rule process_jobs_stored [OF rest])
  qed
  with IH le pre pos show ?case by (auto intro: order_trans)
qed simp

lemma stored_filter: "stored db j t \<longleftrightarrow> t \<in> ex_ScheduledAt ` set (filter (\<lambda>e. ex_JobID e = j) (t_executions db))"
  by (auto simp: stored_def)

lemma process_jobs_other:
  "process_jobs w s now jobs acc db = (acc', db') \<Longrightarrow> j \<notin> jws_id ` set jobs \<Longrightarrow> stored db' j t \<Longrightarrow> stored db j t"
proof (induction jobs arbitrary: acc db)
  case (Cons job jobs)
  obtain res err db1 where one: "processJobWithProgress w s job (sc_lastTick s) now db = ((res, err), db1)" by (metis prod.collapse)
  obtain acc1 where rest: "process_jobs w s now jobs acc1 db1 = (acc', db')"
    using Cons.prems(1) one by (cases acc) (auto simp: Let_def)
  from Cons.IH [OF rest] Cons.prems have "stored db1 j t" by simp
  with process_job_added [OF one] Cons.prems(2) show ?case by (auto simp: added_def stored_def slot_row_def)
qed simp

lemma process_jobs_gap_free:
  "process_jobs w s now jobs acc db = (acc', db') \<Longrightarrow> tick_pre S w now s jobs db \<Longrightarrow> jws \<in> set jobs
    \<Longrightarrow> stored db' (jws_id jws) x \<Longrightarrow> \<not> stored db (jws_id jws) x
    \<Longrightarrow> x \<le> now \<and> (\<forall>t \<in> S (jws_id jws). windowStart w s jws (sc_lastTick s) now db < t \<and> t \<le> x \<longrightarrow> stored db' (jws_id jws) t)"
proof (induction jobs arbitrary: acc db)
  case (Cons job jobs)
  obtain res err db1 where one: "processJobWithProgress w s job (sc_lastTick s) now db = ((res, err), db1)" by (metis prod.collapse)
  obtain acc1 where rest: "process_jobs w s now jobs acc1 db1 = (acc', db')"
    using Cons.prems(1) one by (cases acc) (auto simp: Let_def)
  note post = process_job_post [OF Cons.prems(2) one]
  note pre = tick_pre_rest [OF Cons.prems(2) conjunct2 [OF post]]
  note keep = process_jobs_stored [OF rest]
  show ?case
  proof (cases "jws \<in> set jobs")
    case True
    have ne: "jws_id job \<noteq> jws_id jws" using Cons.prems(2) True by (auto simp: tick_pre_def)
    have "filter (\<lambda>e. ex_JobID e = jws_id jws) (t_executions db1) = filter (\<lambda>e. ex_JobID e = jws_id jws) (t_executions db)"
      by (rule added_other [OF conjunct2 [OF post]]) (use ne in auto)
    then have "stored db1 (jws_id jws) x \<longleftrightarrow> stored db (jws_id jws) x"
      by (simp only: stored_filter)
    with Cons.IH [OF rest conjunct1 [OF pre] True Cons.prems(4)] Cons.prems(5) pre True show ?thesis by simp
  next
    case False
    then have jws: "jws = job" using Cons.prems(3) by simp
    have "jws_id jws \<notin> jws_id ` set jobs" using Cons.prems(2) unfolding jws by (simp add: tick_pre_def)
    from process_jobs_other [OF rest this Cons.prems(4)] have "stored db1 (jws_id jws) x" .
    with post Cons.prems(5) keep show ?thesis unfolding job_post_def jws by blast
  qed
qed simp

lemma process_jobs_ok: "process_jobs w s now jobs acc db = (acc', db') \<Longrightarrow> db_ok db \<Longrightarrow> db_ok db'"
proof (induction jobs arbitrary: acc db)
  case (Cons job jobs)
  obtain res err db1 where one: "processJobWithProgress w s job (sc_lastTick s) now db = ((res, err), db1)" by (metis prod.collapse)
  obtain acc1 where rest: "process_jobs w s now jobs acc1 db1 = (acc', db')"
    using Cons.prems(1) one by (cases acc) (auto simp: Let_def)
  have emit: "db_ok db2" if "emitExecution w (fst job) t now db = ((p, e), db2)" "db_ok db" for t p e db db2
  proof -
    have "db2 = snd (InsertExecution (sw_insert w (jws_id job) t) (scheduled_execution w (fst job) t now) db)"
      using that(1) by (auto simp: emitExecution_def split: prod.splits sum.splits if_splits)
    then show ?thesis using exec_op_ok [OF that(2), of "(sw_insert w (jws_id job) t, OpInsertExecution (scheduled_execution w (fst job) t now))"]
      by simp
  qed
  have "db_ok db2" if "fire_loop w nxt (fst job) now i t result db = ((res, err), db2)" "db_ok db" for nxt i t result db db2
    using that
  proof (induction i arbitrary: t result db)
    case (Suc i)
    then show ?case by (auto simp: Let_def dest: emit split: if_splits prod.splits bool.splits)
  qed (simp split: if_splits)
  with one Cons.prems(2) have "db_ok db1" by (auto simp: processJobWithProgress_def Let_def split: sum.splits if_splits)
  with Cons.IH [OF rest] show ?case by blast
qed simp

section \<open>Many ticks\<close>

text \<open>The scheduled times that the query for the last scheduled execution sees.\<close>

definition sched_slot :: "db \<Rightarrow> uuid \<Rightarrow> time \<Rightarrow> bool" where
  "sched_slot db j t \<longleftrightarrow> (\<exists>e \<in> set (t_executions db). ex_JobID e = j \<and> ex_ScheduledAt e = t
     \<and> (ex_TriggerType e = Scheduled \<or> ex_TriggerType e = OtherTrigger ''''))"

text \<open>
  The promise of the scheduler: after the creation of an enabled job, every slot up to the cursor and every
  slot before a scheduled execution is stored.
\<close>

definition covered :: "(uuid \<Rightarrow> time set) \<Rightarrow> time \<Rightarrow> db \<Rightarrow> bool" where
  "covered S lastTick db \<longleftrightarrow> (\<forall>jws \<in> set (enabled_jobs db). \<forall>t \<in> S (jws_id jws).
     job_CreatedAt (fst jws) < t \<and> (t \<le> lastTick \<or> (\<exists>x \<ge> t. sched_slot db (jws_id jws) x)) \<longrightarrow> stored db (jws_id jws) t)"

lemma last_scheduled_slot: "GetLastScheduledExecution ev j db = Inr (Some x) \<Longrightarrow> sched_slot db j x"
proof -
  assume "GetLastScheduledExecution ev j db = Inr (Some x)"
  then obtain e es where "order_limit (\<lambda>e. - ex_ScheduledAt e) 1
      (filter (\<lambda>e. ex_JobID e = j \<and> (ex_TriggerType e = Scheduled \<or> ex_TriggerType e = OtherTrigger '''')) (t_executions db)) = e # es"
      "x = ex_ScheduledAt e"
    by (auto simp: GetLastScheduledExecution_def run_query_def queryGetLastScheduledExecution_def split: fault.splits list.splits)
  then show ?thesis using in_order_limit [of e] unfolding sched_slot_def by (metis (lifting) list.set_intros(1))
qed

lemma windowStart_cases:
  assumes "0 < job_CreatedAt (fst jws)" "0 \<le> lastTick" "tickInterval s < now"
  shows "0 < windowStart w s jws lastTick now db \<and> (windowStart w s jws lastTick now db \<le> lastTick
    \<or> windowStart w s jws lastTick now db \<le> job_CreatedAt (fst jws) \<or> now < job_CreatedAt (fst jws)
    \<or> sched_slot db (jws_id jws) (windowStart w s jws lastTick now db))"
proof -
  define cursor where "cursor = (if \<not> IsZero lastTick
      then (if lastTick < job_CreatedAt (fst jws) \<and> \<not> now < job_CreatedAt (fst jws) then job_CreatedAt (fst jws) else lastTick)
      else (if IsZero (job_CreatedAt (fst jws)) \<or> now < job_CreatedAt (fst jws) then now - tickInterval s else job_CreatedAt (fst jws)))"
  have "0 < cursor \<and> (cursor \<le> lastTick \<or> cursor \<le> job_CreatedAt (fst jws) \<or> now < job_CreatedAt (fst jws))"
    using assms by (auto simp: cursor_def)
  moreover have "windowStart w s jws lastTick now db = cursor
      \<or> cursor < windowStart w s jws lastTick now db \<and> sched_slot db (jws_id jws) (windowStart w s jws lastTick now db)"
    unfolding windowStart_def cursor_def [symmetric] Let_def
    by (auto split: sum.split option.split dest: last_scheduled_slot)
  ultimately show ?thesis by auto
qed

lemma covered_before_window:
  assumes "covered S lastTick db" "jws \<in> set (enabled_jobs db)" "0 < job_CreatedAt (fst jws)" "0 \<le> lastTick" "tickInterval s < now"
    and t: "t \<in> S (jws_id jws)" "job_CreatedAt (fst jws) < t" "t \<le> now" "t \<le> windowStart w s jws lastTick now db"
  shows "stored db (jws_id jws) t"
proof -
  have "t \<le> lastTick \<or> (\<exists>x \<ge> t. sched_slot db (jws_id jws) x)"
    using windowStart_cases [OF assms(3-5), of w db] t by auto
  with assms(1,2) t show ?thesis unfolding covered_def by blast
qed

lemma process_jobs_rows: "process_jobs w s now jobs acc db = (acc', db') \<Longrightarrow> set (t_executions db) \<subseteq> set (t_executions db')"
proof (induction jobs arbitrary: acc db)
  case (Cons job jobs)
  obtain res err db1 where one: "processJobWithProgress w s job (sc_lastTick s) now db = ((res, err), db1)" by (metis prod.collapse)
  obtain acc1 where rest: "process_jobs w s now jobs acc1 db1 = (acc', db')"
    using Cons.prems(1) one by (cases acc) (auto simp: Let_def)
  from Cons.IH [OF rest] process_job_added [OF one] show ?case by (auto simp: added_def)
qed simp

lemma new_sched_slot:
  assumes "process_jobs w s now jobs acc db = (acc', db')" "db_ok db" "sched_slot db' j x" "stored db j x"
  shows "sched_slot db j x"
proof -
  obtain e where e: "e \<in> set (t_executions db')" "ex_JobID e = j" "ex_ScheduledAt e = x"
      "ex_TriggerType e = Scheduled \<or> ex_TriggerType e = OtherTrigger ''''" using assms(3) by (auto simp: sched_slot_def)
  obtain f where f: "f \<in> set (t_executions db)" "ex_JobID f = j" "ex_ScheduledAt f = x" using assms(4) by (auto simp: stored_def)
  have "inj_on slot (set (t_executions db'))"
    using process_jobs_ok [OF assms(1,2)] by (simp add: db_ok_def executions_ok_def col_def distinct_map)
  moreover have "f \<in> set (t_executions db')" using f(1) process_jobs_rows [OF assms(1)] by blast
  ultimately have "e = f" using e f by (auto simp: inj_on_def)
  with e f show ?thesis by (auto simp: sched_slot_def)
qed

text \<open>The surroundings of a tick.\<close>

definition tick_env :: "(uuid \<Rightarrow> time set) \<Rightarrow> sched_world \<Rightarrow> time \<Rightarrow> Scheduler \<Rightarrow> db \<Rightarrow> bool" where
  "tick_env S w now s db \<longleftrightarrow> tickInterval s < now
     \<and> good_world w now (jws_id ` set (enabled_jobs db)) \<and> unused w now (jws_id ` set (enabled_jobs db)) db
     \<and> (\<forall>jws \<in> set (enabled_jobs db). 0 < job_CreatedAt (fst jws)
          \<and> (not_understood w jws \<and> S (jws_id jws) = {} \<or> scheduled_by w jws (S (jws_id jws))))"

lemma tick_env_pre:
  assumes "tick_env S w now s db" "db_ok db" "0 \<le> sc_lastTick s" "enabled_jobs db = dn @ todo"
  shows "tick_pre S w now s dn db"
proof -
  have "distinct (map jws_id (enabled_jobs db))"
    using enabled_jobs_sorted [OF assms(2)] by (metis sorted_wrt_map strict_sorted_iff)
  moreover have "good_world w now (jws_id ` set dn)"
    by (rule good_world_subset [of _ _ "jws_id ` set (enabled_jobs db)"]) (use assms in \<open>auto simp: tick_env_def\<close>)
  moreover have "0 < windowStart w s jws (sc_lastTick s) now db" if "jws \<in> set dn" for jws
  proof (rule conjunct1 [OF windowStart_cases])
    show "0 < job_CreatedAt (fst jws)" "tickInterval s < now" using assms(1,4) that by (simp_all add: tick_env_def)
  qed (rule assms(3))
  moreover have "unused w now (jws_id ` set dn) db" using assms(1,4) by (simp add: tick_env_def unused_def)
  ultimately show ?thesis using assms(1,4) by (simp add: tick_pre_def tick_env_def)
qed

lemma process_covered:
  assumes cov: "covered S (sc_lastTick s) db" and env: "tick_env S w now s db" and ok: "db_ok db" and lt: "0 \<le> sc_lastTick s"
    and jobs: "enabled_jobs db = dn @ todo" and run: "process_jobs w s now dn (now, 0) db = ((nlt, n), db')"
    and lt': "lastTick' = sc_lastTick s \<or> todo = [] \<and> lastTick' = nlt"
  shows "covered S lastTick' db'"
  unfolding covered_def
proof (intro ballI impI)
  fix jws t
  assume "jws \<in> set (enabled_jobs db')" and t: "t \<in> S (jws_id jws)"
    and a: "job_CreatedAt (fst jws) < t \<and> (t \<le> lastTick' \<or> (\<exists>x \<ge> t. sched_slot db' (jws_id jws) x))"
  then have jws: "jws \<in> set (enabled_jobs db)" using enabled_jobs_cong process_jobs_frame [OF run] by metis
  note pre = tick_env_pre [OF env ok lt jobs]
  have keep: "stored db (jws_id jws) t \<Longrightarrow> stored db' (jws_id jws) t" by (rule process_jobs_stored [OF run])
  have before: "stored db' (jws_id jws) t" if "t \<le> now" "t \<le> windowStart w s jws (sc_lastTick s) now db"
    by (rule keep, rule covered_before_window [OF cov jws]) (use env jws lt t a that in \<open>auto simp: tick_env_def\<close>)
  from a consider "t \<le> sc_lastTick s" | "todo = []" "t \<le> nlt" | x where "t \<le> x" "sched_slot db' (jws_id jws) x" using lt' by auto
  then show "stored db' (jws_id jws) t"
  proof cases
    case 1
    with cov jws t a show ?thesis by (auto simp: covered_def intro: keep)
  next
    case 2
    with process_jobs_complete [OF run order_refl pre] before jws jobs t show ?thesis by (cases "t \<le> windowStart w s jws (sc_lastTick s) now db") auto
  next
    case x: 3
    show ?thesis
    proof (cases "sched_slot db (jws_id jws) x")
      case True
      with x cov jws t a have "stored db (jws_id jws) t" unfolding covered_def by blast
      then show ?thesis by (rule keep)
    next
      case False
      then have new: "\<not> stored db (jws_id jws) x" using new_sched_slot [OF run ok x(2)] by blast
      have st: "stored db' (jws_id jws) x" using x(2) by (auto simp: sched_slot_def stored_def)
      have "distinct (map jws_id (enabled_jobs db))"
        using enabled_jobs_sorted [OF ok] by (metis sorted_wrt_map strict_sorted_iff)
      then have inj: "inj_on jws_id (set (enabled_jobs db))" by (simp only: distinct_map)
      have "jws_id jws \<in> jws_id ` set dn" using process_jobs_other [OF run _ st] new by blast
      then obtain jws' where j: "jws' \<in> set dn" "jws_id jws = jws_id jws'" by (rule imageE)
      with inj_onD [OF inj j(2) jws] jobs have "jws \<in> set dn" by simp
      from process_jobs_gap_free [OF run pre this st new] before x(1) t show ?thesis
        by (cases "t \<le> windowStart w s jws (sc_lastTick s) now db") auto
    qed
  qed
qed

section \<open>Ticks, restarts and deliveries\<close>

text \<open>What the dispatcher, the reconciler and the service do to executions meanwhile: claims, renewals,
  completions, acknowledgements, attempts and manual triggers keep the stored slots.\<close>

fun delivery_op :: "store_op \<Rightarrow> bool" where
  "delivery_op (OpInsertExecution e) \<longleftrightarrow> ex_TriggerType e = Manual"
| "delivery_op (OpAckExecution i ns) \<longleftrightarrow> True"
| "delivery_op (OpUpdateExecutionStatus f i st) \<longleftrightarrow> True"
| "delivery_op (OpDequeueExecution st) \<longleftrightarrow> True"
| "delivery_op (OpDequeueExecutions st n) \<longleftrightarrow> True"
| "delivery_op (OpClaimExecution st i ns) \<longleftrightarrow> True"
| "delivery_op (OpRenewExecutionClaim st e) \<longleftrightarrow> True"
| "delivery_op (OpCompleteExecution e st) \<longleftrightarrow> True"
| "delivery_op (OpRequeueExpiredExecutions n) \<longleftrightarrow> True"
| "delivery_op (OpInsertDeliveryAttempt a) \<longleftrightarrow> True"
| "delivery_op op \<longleftrightarrow> False"

definition keeps_slots :: "db \<Rightarrow> db \<Rightarrow> bool" where
  "keeps_slots db db' \<longleftrightarrow> t_jobs db' = t_jobs db \<and> t_schedules db' = t_schedules db
     \<and> (\<forall>j t. stored db j t \<longrightarrow> stored db' j t) \<and> (\<forall>j t. sched_slot db' j t \<longrightarrow> sched_slot db j t)"

interpretation slots: statement_relation keeps_slots
  by unfold_locales (auto simp: keeps_slots_def)

lemma keeps_slots_upd:
  assumes "\<And>e. ex_JobID (f e) = ex_JobID e \<and> ex_ScheduledAt (f e) = ex_ScheduledAt e \<and> ex_TriggerType (f e) = ex_TriggerType e"
  shows "keeps_slots db (db\<lparr>t_executions := upd_where P f (t_executions db)\<rparr>)"
proof -
  define g where "g = (\<lambda>e. if P e then f e else e)"
  have g: "ex_JobID (g e) = ex_JobID e" "ex_ScheduledAt (g e) = ex_ScheduledAt e" "ex_TriggerType (g e) = ex_TriggerType e" for e
    using assms by (auto simp: g_def)
  have rows: "set (upd_where P f (t_executions db)) = g ` set (t_executions db)" by (simp add: upd_where_def g_def)
  have "stored (db\<lparr>t_executions := upd_where P f (t_executions db)\<rparr>) j t \<longleftrightarrow> stored db j t" for j t
    by (simp add: stored_def rows g)
  moreover have "sched_slot (db\<lparr>t_executions := upd_where P f (t_executions db)\<rparr>) j t \<longleftrightarrow> sched_slot db j t" for j t
    by (simp add: sched_slot_def rows g)
  ultimately show ?thesis by (simp add: keeps_slots_def)
qed

lemma keeps_slots_manual: "ex_TriggerType e = Manual \<Longrightarrow> keeps_slots db (snd (queryInsertExecution e db))"
  by (auto simp: queryInsertExecution_def slots.refl keeps_slots_def stored_def sched_slot_def execution_row_def)

lemma delivery_queries:
  "keeps_slots db (snd (queryAckExecution clk i ns db))" "keeps_slots db (snd (queryUpdateExecutionStatus st i db))"
  "keeps_slots db (snd (queryDequeueExecution l clk ms db))" "keeps_slots db (snd (queryDequeueExecutions l clk n ms db))"
  "keeps_slots db (snd (queryClaimExecution clk i ns ms db))" "keeps_slots db (snd (queryRenewExecutionClaim clk i ns g ms db))"
  "keeps_slots db (snd (queryCompleteExecution clk i ns g st db))" "keeps_slots db (snd (queryRequeueStaleExecutions l clk n db))"
  unfolding queryAckExecution_def queryUpdateExecutionStatus_def queryDequeueExecution_def queryDequeueExecutions_def
    queryClaimExecution_def queryRenewExecutionClaim_def queryCompleteExecution_def queryRequeueStaleExecutions_def Let_def
  by (auto simp: slots.refl claim_row_def requeue_row_def split: list.split intro!: keeps_slots_upd)

lemma delivery_attempt_slots: "keeps_slots db (snd (queryInsertDeliveryAttempt a db))"
  by (auto simp: queryInsertDeliveryAttempt_def keeps_slots_def stored_def sched_slot_def)

lemma delivery_keeps_slots: "delivery_op op \<Longrightarrow> keeps_slots db (exec_op (ev, op) db)"
  by (cases op) (auto simp: method_defs CompleteExecution_def DequeueExecutions_def delivery_queries delivery_attempt_slots
    keeps_slots_manual slots.refl run_stmt_def ok_stmt_def split: fault.split)

inductive sched_step :: "(uuid \<Rightarrow> time set) \<Rightarrow> Scheduler \<times> db \<Rightarrow> Scheduler \<times> db \<Rightarrow> bool" for S where
  tick: "tick_env S w now s db \<Longrightarrow> processTick w now s db = Some (r, s', db') \<Longrightarrow> sched_step S (s, db) (s', db')"
| restart: "sched_step S (s, db) (Scheduler_New (sc_config s), db)"
| delivery: "delivery_op op \<Longrightarrow> sched_step S (s, db) (s, exec_op (ev, op) db)"

definition sched_inv :: "(uuid \<Rightarrow> time set) \<Rightarrow> Scheduler \<times> db \<Rightarrow> bool" where
  "sched_inv S = (\<lambda>(s, db). db_ok db \<and> 0 \<le> sc_lastTick s \<and> covered S (sc_lastTick s) db)"

lemma covered_mono: "covered S l db \<Longrightarrow> l' \<le> l \<Longrightarrow> keeps_slots db db' \<Longrightarrow> covered S l' db'"
proof -
  assume a: "covered S l db" "l' \<le> l" "keeps_slots db db'"
  then have k: "enabled_jobs db' = enabled_jobs db" "\<And>j t. stored db j t \<Longrightarrow> stored db' j t" "\<And>j t. sched_slot db' j t \<Longrightarrow> sched_slot db j t"
    using enabled_jobs_cong [of db' db] by (simp_all add: keeps_slots_def)
  show "covered S l' db'" unfolding covered_def k(1)
  proof (intro ballI impI)
    fix jws t
    assume "jws \<in> set (enabled_jobs db)" "t \<in> S (jws_id jws)"
      "job_CreatedAt (fst jws) < t \<and> (t \<le> l' \<or> (\<exists>x \<ge> t. sched_slot db' (jws_id jws) x))"
    with a(1,2) k(3) have "stored db (jws_id jws) t" unfolding covered_def by (meson order_trans)
    then show "stored db' (jws_id jws) t" by (rule k(2))
  qed
qed

lemma tick_inv:
  assumes "sched_inv S (s, db)" "tick_env S w now s db" "processTick w now s db = Some (r, s', db')"
  shows "sched_inv S (s', db') \<and> sc_lastTick s' \<le> max now (sc_lastTick s)"
proof -
  have inv: "db_ok db" "0 \<le> sc_lastTick s" "covered S (sc_lastTick s) db" using assms(1) by (simp_all add: sched_inv_def)
  obtain res where pages: "tick_pages w s now uuid_Nil (now, 0) db = Some (res, db')"
    using assms(3) by (auto simp: processTick_def split: option.splits prod.splits sum.splits)
  with tick_pages_paged [OF inv(1), of w s now "(now, 0)"] have "paged w s now (enabled_jobs db) (now, 0) db (res, db')" by force
  then obtain dn todo nlt n where d: "enabled_jobs db = dn @ todo" "process_jobs w s now dn (now, 0) db = ((nlt, n), db')"
      "\<And>a. res = Inr a \<Longrightarrow> a = (nlt, n) \<and> todo = []"
    by (cases res) (auto simp: paged_def)
  have ok: "db_ok db'" by (rule process_jobs_ok [OF d(2) inv(1)])
  have now: "0 < now" using assms(2) by (auto simp: tick_env_def tickInterval_def split: if_splits)
  have nlt: "nlt \<le> now" "0 < nlt"
    using process_jobs_complete [OF d(2) order_refl tick_env_pre [OF assms(2) inv(1,2) d(1)]] now by simp_all
  note cov = process_covered [OF inv(3) assms(2) inv(1,2) d(1,2)]
  show ?thesis
  proof (cases res)
    case (Inl e)
    with assms(3) pages have "sc_lastTick s' = sc_lastTick s" by (auto simp: processTick_def)
    with cov ok inv show ?thesis by (simp add: sched_inv_def)
  next
    case (Inr a)
    with assms(3) pages d(3) have "sc_lastTick s' = nlt" "todo = []" by (auto simp: processTick_def)
    with cov ok nlt show ?thesis by (simp add: sched_inv_def)
  qed
qed

lemma sched_step_inv: "sched_step S x y \<Longrightarrow> sched_inv S x \<Longrightarrow> sched_inv S y"
proof (induction rule: sched_step.induct)
  case tick
  then show ?case using tick_inv by blast
next
  case (restart s db)
  then show ?case using covered_mono [OF _ _ slots.refl] by (auto simp: sched_inv_def Scheduler_New_def)
next
  case (delivery op s db ev)
  then show ?case using covered_mono [OF _ order_refl delivery_keeps_slots] exec_op_ok by (auto simp: sched_inv_def)
qed

section \<open>The reconciler\<close>

lemma reemit_take: "\<exists>n. map fst (reemit now stop emit es) = take n (map (reconcile_event now) es)"
proof (induction es)
  case (Cons e es)
  then obtain n where "map fst (reemit now stop emit es) = take n (map (reconcile_event now) es)" by blast
  then show ?case by (intro exI [of _ "if stop (ex_ID e) then 0 else Suc n"]) simp
qed simp

lemma reemit_all: "\<forall>i. \<not> stop i \<Longrightarrow> map fst (reemit now stop emit es) = map (reconcile_event now) es"
  by (induction es) auto

lemma runCycle_rows:
  assumes "runCycle config ev ev2 now stop emit db = (evs, db')"
  shows "db' = snd (RequeueExpiredExecutions ev (rc_BatchSize config) db) \<and> (evs = [] \<or>
    evs = reemit now stop emit (queryGetOrphanedExecutions (now - rc_Threshold config) (rc_BatchSize config) db'))"
  using assms by (auto simp: runCycle_def Let_def GetOrphanedExecutions_def run_query_def split: fault.splits)

definition orphaned :: "time \<Rightarrow> Execution \<Rightarrow> bool" where
  "orphaned cutoff e \<longleftrightarrow> ex_Status e = Emitted \<and> (ex_CreatedAt e < cutoff \<or> ex_ClaimGeneration e > 0)"

lemma requeued_orphaned: "orphaned cutoff (requeue_row e)"
  by (simp add: orphaned_def requeue_row_def less_max_iff_disj)

lemma expired_stale: "exec_ok r \<Longrightarrow> ex_Status r = InProgress \<Longrightarrow> \<forall>l. ex_LeaseUntil r = Some l \<longrightarrow> l \<le> clk \<Longrightarrow> stale_row clk r"
  by (cases "ex_LeaseUntil r") (simp_all add: stale_row_def exec_ok_def)

lemma requeue_leaves_orphan:
  assumes ok: "db_ok db" and r: "r \<in> set (t_executions db)" "ex_ID r \<notin> locked" "int (length (t_executions db)) \<le> limit"
    and st: "ex_Status r = InProgress \<and> (\<forall>l. ex_LeaseUntil r = Some l \<longrightarrow> l \<le> clk) \<or> orphaned cutoff r"
  shows "\<exists>r' \<in> set (t_executions (snd (queryRequeueStaleExecutions locked clk limit db))). ex_ID r' = ex_ID r \<and> orphaned cutoff r'"
proof -
  let ?stale = "order_limit (\<lambda>e. (ex_LeaseUntil e, ex_ID e)) limit
    (filter (\<lambda>e. stale_row clk e \<and> ex_ID e \<notin> locked) (t_executions db))"
  let ?P = "\<lambda>e. ex_ID e \<in> ex_ID ` set ?stale"
  have rows: "t_executions (snd (queryRequeueStaleExecutions locked clk limit db)) = upd_where ?P requeue_row (t_executions db)"
    by (simp add: queryRequeueStaleExecutions_def Let_def)
  show ?thesis
  proof (cases "?P r")
    case True
    then have "requeue_row r \<in> set (upd_where ?P requeue_row (t_executions db))" by (rule upd_where_mem [where P = ?P, OF r(1)])
    moreover have "ex_ID (requeue_row r) = ex_ID r" by (simp add: requeue_row_def)
    ultimately show ?thesis using requeued_orphaned unfolding rows by blast
  next
    case False
    have "\<not> stale_row clk r"
    proof
      assume "stale_row clk r"
      then have "r \<in> set ?stale"
        using r length_filter_le [of "\<lambda>e. stale_row clk e \<and> ex_ID e \<notin> locked" "t_executions db"]
        by (simp add: order_limit_def del: length_filter_le)
      with False show False by blast
    qed
    then have "orphaned cutoff r" using st expired_stale [OF row_exec_ok [OF ok r(1)]] by blast
    moreover have "r \<in> set (upd_where ?P requeue_row (t_executions db))" by (rule upd_where_keep [where P = ?P, OF r(1) False])
    ultimately show ?thesis unfolding rows by blast
  qed
qed

lemma orphans_all:
  assumes "int (length (t_executions db)) \<le> limit" "e \<in> set (t_executions db)" "orphaned cutoff e"
  shows "unclaimed_columns e \<in> set (queryGetOrphanedExecutions cutoff limit db)"
proof -
  have "order_limit ex_CreatedAt limit (filter (orphaned cutoff) (t_executions db))
      = sort_key ex_CreatedAt (filter (orphaned cutoff) (t_executions db))"
    using assms(1) length_filter_le [of "orphaned cutoff" "t_executions db"] by (simp add: order_limit_def del: length_filter_le)
  then show ?thesis using assms(2,3) by (simp add: queryGetOrphanedExecutions_def orphaned_def [abs_def])
qed

section \<open>A small world\<close>

text \<open>A schedule with two slots and nothing that fails, for the witnesses.\<close>

abbreviation TwoMinutes :: time where
  "TwoMinutes \<equiv> 120000000000"

definition sample_next :: "time \<Rightarrow> time" where
  "sample_next t = (if t < Minute then Minute else if t < TwoMinutes then TwoMinutes else 0)"

definition sample_world :: sched_world where
  "sample_world = \<lparr>sw_loadLocation = (\<lambda>tz. Inr ()), sw_parse = (\<lambda>e tz. Inr sample_next),
     sw_newID = (\<lambda>j t. if t = Minute then 7 else if t = TwoMinutes then 8 else 9),
     sw_insert = (\<lambda>j t. calm 0), sw_emit = (\<lambda>e. Inr ()), sw_page = (\<lambda>a. calm 0), sw_last = (\<lambda>j. calm 0)\<rparr>"

definition sample_scheduler :: Scheduler where
  "sample_scheduler = Scheduler_New \<lparr>cfg_TickInterval = Minute, cfg_MaxFiresPerTick = 3\<rparr>"

definition idle_db :: db where
  "idle_db = empty_db\<lparr>t_schedules := [sample_schedule], t_jobs := [sample_job]\<rparr>"

definition fired_row :: "uuid \<Rightarrow> time \<Rightarrow> Execution" where
  "fired_row i t = scheduled_execution sample_world sample_job t TwoMinutes\<lparr>ex_ID := i\<rparr>"

lemma sample_scheduled: "scheduled_by sample_world (sample_job, sample_schedule) {Minute, TwoMinutes}"
proof -
  have "cron_next {Minute, TwoMinutes} sample_next" by (auto simp: cron_next_def sample_next_def)
  then show ?thesis by (auto simp: scheduled_by_def sample_world_def)
qed

lemma small_slots: "slot_time TwoMinutes t \<longleftrightarrow> t = Minute \<or> t = TwoMinutes"
proof
  assume "slot_time TwoMinutes t"
  then obtain k where "t = Minute * k" "0 < t" "t \<le> TwoMinutes" by (auto simp: slot_time_def dvd_def)
  then have "0 < k" "k < 3" by linarith+
  then have "k = 1 \<or> k = 2" by linarith
  with \<open>t = Minute * k\<close> show "t = Minute \<or> t = TwoMinutes" by auto
qed (auto simp: slot_time_def)

lemma sample_good: "good_world sample_world TwoMinutes {2}"
  by (auto simp: good_world_def small_slots sample_world_def calm_def honest_def)

lemma idle_db_ok: "db_ok idle_db"
  by (simp add: idle_db_def sample_defs db_ok_def ok_defs)

lemma idle_unused: "unused sample_world TwoMinutes {2} idle_db"
  by (simp add: unused_def idle_db_def empty_db_def)

lemma sample_start: "windowStart sample_world sample_scheduler (sample_job, sample_schedule) 0 TwoMinutes idle_db = 5"
  by (simp add: windowStart_def sample_world_def sample_scheduler_def Scheduler_New_def idle_db_def sample_defs
    GetLastScheduledExecution_def run_query_def queryGetLastScheduledExecution_def order_limit_def)

lemma emit_first: "emitExecution sample_world sample_job Minute TwoMinutes idle_db
    = ((True, None), idle_db\<lparr>t_executions := [fired_row 7 Minute]\<rparr>)"
  by (simp add: emitExecution_def InsertExecution_def run_stmt_def queryInsertExecution_def execution_row_def
    scheduled_execution_def fired_row_def sample_world_def idle_db_def sample_defs)

lemma emit_second: "emitExecution sample_world sample_job TwoMinutes TwoMinutes (idle_db\<lparr>t_executions := [fired_row 7 Minute]\<rparr>)
    = ((True, None), idle_db\<lparr>t_executions := [fired_row 7 Minute, fired_row 8 TwoMinutes]\<rparr>)"
  by (simp add: emitExecution_def InsertExecution_def run_stmt_def queryInsertExecution_def execution_row_def
    scheduled_execution_def fired_row_def sample_world_def idle_db_def sample_defs)

abbreviation sample_result :: processJobResult where
  "sample_result \<equiv> \<lparr>pj_triggered = 2, pj_capped = False, pj_cursor = TwoMinutes\<rparr>"

abbreviation fired_db :: db where
  "fired_db \<equiv> idle_db\<lparr>t_executions := [fired_row 7 Minute, fired_row 8 TwoMinutes]\<rparr>"

lemma sample_run: "processJobWithProgress sample_world sample_scheduler (sample_job, sample_schedule) 0 TwoMinutes idle_db
    = ((sample_result, None), fired_db)"
proof -
  have three: "nat 3 = Suc (Suc (Suc 0))" by simp
  have "sw_loadLocation sample_world tz = Inr ()" "sw_parse sample_world e tz = Inr sample_next"
    "cfg_MaxFiresPerTick (sc_config sample_scheduler) = 3" for e tz
    by (simp_all add: sample_world_def sample_scheduler_def Scheduler_New_def)
  then show ?thesis using emit_first emit_second
    by (simp add: processJobWithProgress_def sample_start three Let_def sample_next_def Truncate_def del: nat_numeral)
qed

lemma idle_jobs: "enabled_jobs idle_db = [(sample_job, sample_schedule)]"
  by (simp add: enabled_jobs_def jobs_join_schedules_def idle_db_def sample_defs)

lemma sample_process: "process_jobs sample_world sample_scheduler TwoMinutes [(sample_job, sample_schedule)] (TwoMinutes, 0) idle_db
    = ((TwoMinutes, 2), fired_db)"
  using sample_run by (simp add: sample_scheduler_def Scheduler_New_def)

lemma sample_tick: "processTick sample_world TwoMinutes sample_scheduler idle_db
    = Some (Inr (), sample_scheduler\<lparr>sc_lastTick := TwoMinutes, sc_deferredCursor := False\<rparr>, fired_db)"
proof -
  have "GetEnabledJobs (sw_page sample_world uuid_Nil) DefaultJobPageSize uuid_Nil idle_db = Inr [(sample_job, sample_schedule)]"
    by (simp add: GetEnabledJobs_def run_query_def queryGetEnabledJobs_def order_limit_def sample_world_def calm_def
      jobs_join_schedules_def idle_db_def sample_job_def sample_schedule_def empty_db_def DefaultJobPageSize_def)
  then have "tick_pages sample_world sample_scheduler TwoMinutes uuid_Nil (TwoMinutes, 0) idle_db = Some (Inr (TwoMinutes, 2), fired_db)"
    by (subst tick_pages.simps) (simp add: sample_process DefaultJobPageSize_def del: process_jobs.simps)
  then show ?thesis by (simp add: processTick_def)
qed

abbreviation sample_slots :: "uuid \<Rightarrow> time set" where
  "sample_slots \<equiv> (\<lambda>j. {Minute, TwoMinutes})"

lemma sample_env: "tick_env sample_slots sample_world TwoMinutes sample_scheduler idle_db"
proof -
  have "job_ID sample_job = 2" "job_CreatedAt sample_job = 5" "tickInterval sample_scheduler = Minute"
    by (simp_all add: sample_job_def tickInterval_def sample_scheduler_def Scheduler_New_def)
  then show ?thesis using sample_good idle_unused sample_scheduled by (simp add: tick_env_def idle_jobs)
qed

section \<open>Properties of the scheduler\<close>

text \<open>
  C27: pagination visits every enabled job once. When no page query fails, the keyset pagination of a tick
  ends and does exactly what processing all enabled jobs in the order of their identifiers does, even
  though executions are inserted between the pages.
\<close>

theorem tick_visits_all:
  assumes "db_ok db" "\<forall>a. de_fault (sw_page w a) = NoFault"
  shows "tick_pages w s now uuid_Nil acc db =
    Some (case process_jobs w s now (enabled_jobs db) acc db of (acc', db') \<Rightarrow> (Inr acc', db'))"
proof -
  obtain r db' where "tick_pages w s now uuid_Nil acc db = Some (r, db')" "paged w s now (enabled_jobs db) acc db (r, db')"
    using tick_pages_paged [OF assms(1)] by (metis prod.collapse)
  with assms(2) show ?thesis by (cases r) (auto simp: paged_def)
qed

theorem tick_visits_all_witness:
  "tick_pages sample_world sample_scheduler TwoMinutes uuid_Nil (TwoMinutes, 0) idle_db = Some (Inr (TwoMinutes, 2), fired_db)"
proof -
  have "\<forall>a. de_fault (sw_page sample_world a) = NoFault" by (simp add: sample_world_def calm_def)
  from tick_visits_all [OF idle_db_ok this, of sample_scheduler TwoMinutes "(TwoMinutes, 0)"]
  show ?thesis unfolding idle_jobs sample_process by simp
qed

text \<open>
  C26: a job fires exactly its due slots. With an understood schedule, truthful faults and new identifiers, if
  processing a job ends without an error and below the cap, then the scheduled times stored for it
  afterwards are those stored before and the slots of its schedule in the window from its start to
  now: none missed, none invented.
\<close>

theorem job_fires_due_slots:
  assumes "scheduled_by w jws S" "good_world w now {jws_id jws}" "unused w now {jws_id jws} db"
    and "processJobWithProgress w s jws lastTick now db = ((res, None), db')" "\<not> pj_capped res"
  shows "{t. stored db' (jws_id jws) t} = {t. stored db (jws_id jws) t}
    \<union> {t \<in> S. windowStart w s jws lastTick now db < t \<and> t \<le> now}"
proof -
  let ?start = "windowStart w s jws lastTick now db"
  have "fresh_ids w now db (fst jws) ?start" using assms(3) by (simp add: unused_def fresh_ids_def)
  note spec = process_job_spec [OF assms(1,2) this refl assms(4)]
  have "stored db (jws_id jws) t \<or> t \<in> {t \<in> S. ?start < t \<and> t \<le> now}" if "stored db' (jws_id jws) t" for t
    using conjunct1 [OF spec] that by (auto simp: added_def stored_def slot_row_def)
  moreover have "stored db' (jws_id jws) t" if "stored db (jws_id jws) t" for t
    using added_stored [OF conjunct1 [OF spec] that] .
  ultimately show ?thesis using spec assms(5) by blast
qed

theorem job_fires_due_slots_witness: "{t. stored fired_db 2 t} = {Minute, TwoMinutes}"
proof -
  have id: "job_ID sample_job = 2" by (simp add: sample_job_def)
  have "{t. stored fired_db 2 t} = {t. stored idle_db 2 t} \<union> {t \<in> {Minute, TwoMinutes}. 5 < t \<and> t \<le> TwoMinutes}"
    using job_fires_due_slots [OF sample_scheduled _ _ sample_run] sample_good idle_unused unfolding sample_start fst_conv id by simp
  also have "{t. stored idle_db 2 t} = {}" by (simp add: stored_def idle_db_def empty_db_def)
  also have "{} \<union> {t \<in> {Minute, TwoMinutes}. 5 < t \<and> t \<le> TwoMinutes} = {Minute, TwoMinutes}" by auto
  finally show ?thesis .
qed

text \<open>
  C1: no slot is missed and none is passed over. Start with a database without scheduled executions and let
  the scheduler tick, crash and restart, or hand over to another instance, in any order, with store faults,
  emitter failures and caps per tick, while claims, completions, requeues and manual triggers go on. For
  every enabled job, each slot of its schedule between its creation and the cursor of the scheduler is stored
  as an execution. (The catalogue of jobs does not change meanwhile, and the identifiers are new.)
\<close>

theorem no_slot_missed:
  assumes "(sched_step S)\<^sup>*\<^sup>* (Scheduler_New config, db0) (s, db)" "db_ok db0"
    and "\<forall>j t. \<not> sched_slot db0 j t" "\<forall>j. \<forall>t \<in> S j. 0 < t"
  shows "\<forall>jws \<in> set (enabled_jobs db). \<forall>t \<in> S (jws_id jws).
    job_CreatedAt (fst jws) < t \<and> t \<le> sc_lastTick s \<longrightarrow> stored db (jws_id jws) t"
proof -
  have "0 < t" if "t \<in> S j" for j t using assms(4) that by blast
  then have "covered S 0 db0" using assms(3) by (auto simp: covered_def not_le [symmetric])
  then have "sched_inv S (Scheduler_New config, db0)"
    using assms(2) by (simp add: sched_inv_def Scheduler_New_def)
  with assms(1) have "sched_inv S (s, db)"
    by (induction rule: rtranclp_induct) (auto intro: sched_step_inv)
  then show ?thesis unfolding sched_inv_def covered_def by blast
qed

theorem no_slot_missed_witness: "stored fired_db 2 Minute \<and> stored fired_db 2 TwoMinutes"
proof -
  let ?s = "sample_scheduler\<lparr>sc_lastTick := TwoMinutes, sc_deferredCursor := False\<rparr>"
  have "(sched_step sample_slots)\<^sup>*\<^sup>* (Scheduler_New (sc_config sample_scheduler), idle_db) (?s, fired_db)"
    using sched_step.tick [OF sample_env sample_tick] by (simp add: sample_scheduler_def Scheduler_New_def r_into_rtranclp)
  from no_slot_missed [OF this idle_db_ok]
  have "\<forall>jws \<in> set (enabled_jobs fired_db). \<forall>t \<in> sample_slots (jws_id jws).
      job_CreatedAt (fst jws) < t \<and> t \<le> TwoMinutes \<longrightarrow> stored fired_db (jws_id jws) t"
    by (simp add: sched_slot_def idle_db_def empty_db_def)
  moreover have "enabled_jobs fired_db = [(sample_job, sample_schedule)]"
    using enabled_jobs_cong [of fired_db idle_db] idle_jobs by simp
  ultimately show ?thesis by (simp add: sample_job_def)
qed

section \<open>Properties of the reconciler\<close>

text \<open>
  the reconciler leaves running deliveries alone. With the configured threshold, each event it emits is
  for a stored execution that waits in the state emitted, and that was claimed before or was created more
  than 1140 seconds ago, longer than all attempts of a delivery together can take (990 seconds); it emits
  one event per execution and at most a batch of them.
\<close>

theorem reconciler_emits_orphans:
  assumes "db_ok db" "runCycle (DefaultConfig MaxRetryDuration) ev ev2 now stop emit db = (evs, db')"
  shows "length evs \<le> 100 \<and> distinct (map (te_ExecutionID \<circ> fst) evs) \<and> (\<forall>x \<in> set evs. \<exists>r \<in> set (t_executions db').
    te_ExecutionID (fst x) = ex_ID r \<and> te_JobID (fst x) = ex_JobID r \<and> te_ScheduledAt (fst x) = ex_ScheduledAt r
    \<and> ex_Status r = Emitted \<and> (ex_ClaimGeneration r > 0 \<or> ex_CreatedAt r < now - 1140 * Second \<and> MaxRetryDuration < 1140 * Second))"
proof -
  define rows where "rows = order_limit ex_CreatedAt 100 (filter (orphaned (now - 1140 * Second)) (t_executions db'))"
  have cfg: "rc_Threshold (DefaultConfig MaxRetryDuration) = 1140 * Second" "rc_BatchSize (DefaultConfig MaxRetryDuration) = 100"
    by (simp_all add: DefaultConfig_def SafetyMargin_def MaxRetryDuration_value)
  have orphans: "queryGetOrphanedExecutions (now - 1140 * Second) 100 db' = map unclaimed_columns rows"
    by (simp add: rows_def queryGetOrphanedExecutions_def orphaned_def [abs_def])
  have "db_ok db'" using runCycle_rows [OF assms(2)] exec_op_ok [OF assms(1), of "(ev, OpRequeueExpiredExecutions 100)"] by (simp add: cfg)
  then have "distinct (map ex_ID (filter (orphaned (now - 1140 * Second)) (t_executions db')))"
    by (intro distinct_map_filter) (simp add: db_ok_def executions_ok_def col_def)
  then have ids: "distinct (map ex_ID rows)"
    by (simp add: rows_def distinct_map distinct_order_limit inj_on_subset [OF _ set_order_limit])
  have len: "length rows \<le> 100" using length_order_limit [of ex_CreatedAt 100] by (simp add: rows_def)
  have "\<exists>n. map fst evs = take n (map (reconcile_event now \<circ> unclaimed_columns) rows)"
    using runCycle_rows [OF assms(2)] reemit_take [of now stop emit "map unclaimed_columns rows"] unfolding cfg orphans
    by (auto simp: exI [of _ 0])
  then obtain n where evs: "map fst evs = take n (map (reconcile_event now \<circ> unclaimed_columns) rows)" by blast
  have "length evs \<le> 100" using arg_cong [OF evs, of length] len by simp
  moreover have "map (te_ExecutionID \<circ> fst) evs = take n (map ex_ID rows)"
    using arg_cong [OF evs, of "map te_ExecutionID"] by (simp add: take_map reconcile_event_def unclaimed_columns_def comp_def)
  moreover have "\<exists>r \<in> set (t_executions db'). te_ExecutionID (fst x) = ex_ID r \<and> te_JobID (fst x) = ex_JobID r
      \<and> te_ScheduledAt (fst x) = ex_ScheduledAt r \<and> orphaned (now - 1140 * Second) r" if "x \<in> set evs" for x
  proof -
    have "fst x \<in> set (take n (map (reconcile_event now \<circ> unclaimed_columns) rows))"
      using that evs by (metis image_eqI list.set_map)
    from in_set_takeD [OF this] obtain r where "r \<in> set rows" "fst x = reconcile_event now (unclaimed_columns r)" by auto
    moreover from this(1) have "r \<in> set (t_executions db') \<and> orphaned (now - 1140 * Second) r"
      unfolding rows_def by (rule in_order_limit)
    ultimately show ?thesis by (intro bexI [of _ r]) (simp_all add: reconcile_event_def unclaimed_columns_def)
  qed
  ultimately show ?thesis using ids by (auto simp: orphaned_def MaxRetryDuration_value distinct_take)
qed

theorem reconciler_emits_orphans_witness:
  "length (fst (runCycle (DefaultConfig MaxRetryDuration) (calm 300) (calm 300) 300 (\<lambda>i. False) (\<lambda>i. Inr ()) sample_db)) \<le> 100"
proof -
  let ?r = "runCycle (DefaultConfig MaxRetryDuration) (calm 300) (calm 300) 300 (\<lambda>i. False) (\<lambda>i. Inr ()) sample_db"
  have "?r = (fst ?r, snd ?r)" by simp
  from reconciler_emits_orphans [OF sample_db_ok this] show ?thesis by blast
qed

text \<open>
  the reconciler leaves nothing behind. In every database the store can reach, a cycle without faults
  whose batch covers the table hands an event to the emitter for each execution that is in progress with
  its lease over (and not locked), and for each that waits in the state emitted and was claimed before or
  is older than the threshold; afterwards it is stored as emitted.
\<close>

theorem reconciler_recovers:
  assumes "db = fold exec_op ops empty_db" "r \<in> set (t_executions db)" "ex_ID r \<notin> de_locked ev"
    and "ex_Status r = InProgress \<and> (\<forall>l. ex_LeaseUntil r = Some l \<longrightarrow> l \<le> de_clk ev) \<or> orphaned (now - rc_Threshold config) r"
    and "de_fault ev = NoFault" "de_fault ev2 = NoFault" "\<forall>i. \<not> stop i" "int (length (t_executions db)) \<le> rc_BatchSize config"
    and "runCycle config ev ev2 now stop emit db = (evs, db')"
  shows "\<exists>x \<in> set evs. \<exists>r' \<in> set (t_executions db'). ex_ID r' = ex_ID r \<and> ex_Status r' = Emitted \<and> te_ExecutionID (fst x) = ex_ID r"
proof -
  let ?cut = "now - rc_Threshold config"
  have ok: "db_ok db" using assms(1) store.run_inv [OF db_ok_empty] by simp
  have db': "db' = snd (queryRequeueStaleExecutions (de_locked ev) (de_clk ev) (rc_BatchSize config) db)"
    using runCycle_rows [OF assms(9)] assms(5) by (simp add: RequeueExpiredExecutions_def run_stmt_def ok_stmt_def)
  obtain r' where r': "r' \<in> set (t_executions db')" "ex_ID r' = ex_ID r" "orphaned ?cut r'"
    using requeue_leaves_orphan [OF ok assms(2,3,8,4)] unfolding db' by blast
  have "int (length (t_executions db')) \<le> rc_BatchSize config"
    using assms(8) by (simp add: db' queryRequeueStaleExecutions_def Let_def upd_where_def)
  from orphans_all [OF this r'(1,3)]
  have o: "unclaimed_columns r' \<in> set (queryGetOrphanedExecutions ?cut (rc_BatchSize config) db')" .
  have "evs = reemit now stop emit (queryGetOrphanedExecutions ?cut (rc_BatchSize config) db')"
    using assms(5,6,9) db' by (simp add: runCycle_def Let_def RequeueExpiredExecutions_def run_stmt_def ok_stmt_def
      GetOrphanedExecutions_def run_query_def)
  from arg_cong [OF this, of "map fst"] have "set (map fst evs) = reconcile_event now ` set (queryGetOrphanedExecutions ?cut (rc_BatchSize config) db')"
    unfolding reemit_all [OF assms(7)] by simp
  with o obtain x where "x \<in> set evs" "fst x = reconcile_event now (unclaimed_columns r')" by (smt (verit) image_iff list.set_map)
  with r' show ?thesis by (intro bexI [of _ x] bexI [of _ r']) (auto simp: reconcile_event_def unclaimed_columns_def orphaned_def)
qed

theorem reconciler_recovers_witness:
  "\<exists>x \<in> set (fst (runCycle (DefaultConfig 0) (calm (10 ^ 15)) (calm 0) 300 (\<lambda>i. False) (\<lambda>i. Inr ()) (fold exec_op sample_history empty_db))).
     te_ExecutionID (fst x) = 4"
proof -
  let ?run = "runCycle (DefaultConfig 0) (calm (10 ^ 15)) (calm 0) 300 (\<lambda>i. False) (\<lambda>i. Inr ()) (fold exec_op sample_history empty_db)"
  have run: "?run = (fst ?run, snd ?run)" by simp
  have r: "claim_row 200 120000 sample_pending \<in> set (t_executions (fold exec_op sample_history empty_db))"
    by (simp add: sample_history_rows)
  have f: "de_fault (calm c) = NoFault" "de_locked (calm c) = {}" "de_clk (calm c) = c" for c by (simp_all add: calm_def)
  have l: "ex_Status (claim_row 200 120000 sample_pending) = InProgress
      \<and> (\<forall>l. ex_LeaseUntil (claim_row 200 120000 sample_pending) = Some l \<longrightarrow> l \<le> de_clk (calm (10 ^ 15)))"
    by (simp add: claim_row_def f)
  have b: "int (length (t_executions (fold exec_op sample_history empty_db))) \<le> rc_BatchSize (DefaultConfig 0)"
    by (simp add: sample_history_rows DefaultConfig_def)
  have id: "ex_ID (claim_row 200 120000 sample_pending) = 4" by (simp add: claim_row_def sample_defs)
  show ?thesis using reconciler_recovers [OF refl r _ disjI1 [OF l] f(1) f(1) _ b run] unfolding id f(2) by blast
qed

end
