(* ===== verification/GoText.thy ===== *)
theory GoText
  imports Prelude
begin

text \<open>
  The parts of Go's \<^verbatim>\<open>strings\<close>, \<^verbatim>\<open>strconv\<close> and \<^verbatim>\<open>fmt\<close> packages that the repository uses. A string is its
  list of bytes. Case mapping and white space of strings with bytes beyond ASCII follow the Unicode
  tables; these tables are an argument.
\<close>

section \<open>Characters\<close>

definition is_ascii :: "char \<Rightarrow> bool" where
  "is_ascii c \<longleftrightarrow> of_char c < (128 :: nat)"

definition isASCII :: "string \<Rightarrow> bool" where
  "isASCII s \<longleftrightarrow> (\<forall>c \<in> set s. is_ascii c)"

definition in_range :: "char \<Rightarrow> char \<Rightarrow> char \<Rightarrow> bool" where
  "in_range lo hi c \<longleftrightarrow> of_char lo \<le> (of_char c :: nat) \<and> (of_char c :: nat) \<le> of_char hi"

definition ascii_lower :: "char \<Rightarrow> char" where
  "ascii_lower c = (if in_range (CHR ''A'') (CHR ''Z'') c then char_of ((of_char c :: nat) + 32) else c)"

definition is_digit :: "char \<Rightarrow> bool" where
  "is_digit c \<longleftrightarrow> in_range (CHR ''0'') (CHR ''9'') c"

text \<open>The bytes of \<open>\\s\<close> in regular expressions: tab, line feed, form feed, carriage return, blank; \<open>TrimSpace\<close>
  also takes the vertical tab.\<close>

definition is_re_space :: "char \<Rightarrow> bool" where
  "is_re_space c \<longleftrightarrow> c \<in> set [CHR 0x20, CHR 0x09, CHR 0x0A, CHR 0x0C, CHR 0x0D]"

definition is_space :: "char \<Rightarrow> bool" where
  "is_space c \<longleftrightarrow> is_re_space c \<or> c = CHR 0x0B"

section \<open>Strings\<close>

record unicode =
  uc_lower :: "string \<Rightarrow> string"
  uc_trim :: "string \<Rightarrow> string"

definition trim_ascii :: "string \<Rightarrow> string" where
  "trim_ascii s = rev (dropWhile is_space (rev (dropWhile is_space s)))"

definition ToLower :: "unicode \<Rightarrow> string \<Rightarrow> string" where
  "ToLower u s = (if isASCII s then map ascii_lower s else uc_lower u s)"

definition TrimSpace :: "unicode \<Rightarrow> string \<Rightarrow> string" where
  "TrimSpace u s = (if isASCII s then trim_ascii s else uc_trim u s)"

definition HasPrefix :: "string \<Rightarrow> string \<Rightarrow> bool" where
  "HasPrefix s p \<longleftrightarrow> take (length p) s = p"

definition HasSuffix :: "string \<Rightarrow> string \<Rightarrow> bool" where
  "HasSuffix s x \<longleftrightarrow> length x \<le> length s \<and> drop (length s - length x) s = x"

definition TrimPrefix :: "string \<Rightarrow> string \<Rightarrow> string" where
  "TrimPrefix s p = (if HasPrefix s p then drop (length p) s else s)"

definition TrimSuffix :: "string \<Rightarrow> string \<Rightarrow> string" where
  "TrimSuffix s x = (if HasSuffix s x then take (length s - length x) s else s)"

text \<open>\<open>Split\<close> and \<open>Join\<close> with a separator of one byte and of any length; \<open>Cut\<close> at the first occurrence.\<close>

fun split_on :: "char \<Rightarrow> string \<Rightarrow> string list" where
  "split_on c [] = [[]]"
| "split_on c (x # xs) =
     (if x = c then [] # split_on c xs
      else (case split_on c xs of [] \<Rightarrow> [[x]] | p # ps \<Rightarrow> (x # p) # ps))"

fun join :: "string \<Rightarrow> string list \<Rightarrow> string" where
  "join sep [] = []"
| "join sep [p] = p"
| "join sep (p # ps) = p @ sep @ join sep ps"

definition Cut :: "char \<Rightarrow> string \<Rightarrow> string \<times> string \<times> bool" where
  "Cut c s = (if c \<in> set s then (takeWhile (\<lambda>x. x \<noteq> c) s, tl (dropWhile (\<lambda>x. x \<noteq> c) s), True) else (s, [], False))"

text \<open>The position of the first occurrence of a byte, or -1.\<close>

fun index_byte :: "char \<Rightarrow> int \<Rightarrow> string \<Rightarrow> int" where
  "index_byte c i [] = -1"
| "index_byte c i (x # xs) = (if x = c then i else index_byte c (i + 1) xs)"

definition IndexByte :: "string \<Rightarrow> char \<Rightarrow> int" where
  "IndexByte s c = index_byte c 0 s"

section \<open>Numbers\<close>

definition digit_char :: "nat \<Rightarrow> char" where
  "digit_char n = char_of (48 + n)"

definition digit_value :: "char \<Rightarrow> nat" where
  "digit_value c = of_char c - 48"

fun decimal :: "nat \<Rightarrow> string" where
  "decimal n = (if n < 10 then [digit_char n] else decimal (n div 10) @ [digit_char (n mod 10)])"

definition Itoa :: "int \<Rightarrow> string" where
  "Itoa i = (if i < 0 then CHR ''-'' # decimal (nat (- i)) else decimal (nat i))"

text \<open>\<open>%02d\<close> of a number that is not negative.\<close>

definition two_digits :: "nat \<Rightarrow> string" where
  "two_digits n = (if n < 10 then CHR ''0'' # decimal n else decimal n)"

text \<open>The value of a string of digits. \<open>Atoi\<close> answers the largest integer when the value does not fit;
  its callers compare with small bounds, so the exact value serves as well.\<close>

definition read_decimal :: "string \<Rightarrow> nat" where
  "read_decimal s = foldl (\<lambda>v c. 10 * v + digit_value c) 0 s"

text \<open>\<open>hex.EncodeToString\<close>.\<close>

definition hex_char :: "nat \<Rightarrow> char" where
  "hex_char d = (if d < 10 then char_of (48 + d) else char_of (87 + d))"

definition EncodeToString :: "8 word list \<Rightarrow> string" where
  "EncodeToString bs = concat (map (\<lambda>b. [hex_char (unat b div 16), hex_char (unat b mod 16)]) bs)"

declare decimal.simps [simp del]

section \<open>Lemmas\<close>

lemma isASCII_simps [simp]: "isASCII []" "isASCII (c # s) \<longleftrightarrow> is_ascii c \<and> isASCII s" "isASCII (s @ t) \<longleftrightarrow> isASCII s \<and> isASCII t"
  by (auto simp: isASCII_def)

lemma HasSuffix_iff: "HasSuffix s x \<longleftrightarrow> (\<exists>p. s = p @ x)"
proof
  assume "HasSuffix s x"
  then show "\<exists>p. s = p @ x" by (metis HasSuffix_def append_take_drop_id)
qed (auto simp: HasSuffix_def)

lemma HasPrefix_iff: "HasPrefix s p \<longleftrightarrow> (\<exists>x. s = p @ x)"
  by (metis HasPrefix_def append_eq_conv_conj append_take_drop_id)

lemma HasSuffix_append [simp]: "HasSuffix (p @ x) x"
  by (auto simp: HasSuffix_iff)

lemma TrimSuffix_append [simp]: "TrimSuffix (p @ x) x = p"
  by (simp add: TrimSuffix_def)

lemma TrimPrefix_append [simp]: "TrimPrefix (p @ x) p = x"
  by (simp add: TrimPrefix_def HasPrefix_def)

lemma TrimSuffix_cases: "s = TrimSuffix s x @ x \<or> TrimSuffix s x = s \<and> \<not> HasSuffix s x"
  by (auto simp: TrimSuffix_def HasSuffix_iff)

lemma split_on_not_Nil [simp]: "split_on c s \<noteq> []"
  by (induction s) (auto split: list.split)

lemma split_on_none: "c \<notin> set s \<Longrightarrow> split_on c s = [s]"
  by (induction s) auto

lemma split_on_append: "c \<notin> set s \<Longrightarrow> split_on c (s @ c # t) = s # split_on c t"
  by (induction s) auto

lemma split_on_join: "\<forall>p \<in> set ps. c \<notin> set p \<Longrightarrow> ps \<noteq> [] \<Longrightarrow> split_on c (join [c] ps) = ps"
  by (induction "[c]" ps rule: join.induct) (auto simp: split_on_none split_on_append)

lemma join_split_on: "join [c] (split_on c s) = s"
proof (induction s)
  case (Cons x s)
  then show ?case
    by (cases "split_on c s"; cases "tl (split_on c s)") (auto split: list.splits)
qed simp

lemma set_join: "set (join sep ps) \<subseteq> set sep \<union> (\<Union>p \<in> set ps. set p)"
  by (induction sep ps rule: join.induct) auto

lemma Cut_append: "c \<notin> set s \<Longrightarrow> Cut c (s @ c # t) = (s, t, True)"
  by (simp add: Cut_def takeWhile_append dropWhile_append)

lemma trim_ascii_id: "s = [] \<or> \<not> is_space (hd s) \<and> \<not> is_space (last s) \<Longrightarrow> trim_ascii s = s"
proof (cases "s = []")
  case False
  assume "s = [] \<or> \<not> is_space (hd s) \<and> \<not> is_space (last s)"
  with False have "dropWhile is_space s = s" "dropWhile is_space (rev s) = rev s"
    by (simp_all add: dropWhile_eq_self_iff hd_rev)
  then show ?thesis by (simp add: trim_ascii_def)
qed (simp add: trim_ascii_def)

lemma in_range_iff: "in_range lo hi c \<longleftrightarrow> of_char c \<in> {of_char lo..of_char hi :: nat}"
  by (simp add: in_range_def)

lemma ascii_lower_id: "\<not> in_range (CHR ''A'') (CHR ''Z'') c \<Longrightarrow> ascii_lower c = c"
  by (simp add: ascii_lower_def)

lemma ascii_lower_idem [simp]: "ascii_lower (ascii_lower c) = ascii_lower c"
  by (simp add: ascii_lower_def in_range_def)

lemma is_ascii_lower [simp]: "is_ascii c \<Longrightarrow> is_ascii (ascii_lower c)"
  by (simp add: ascii_lower_def is_ascii_def in_range_def)

lemma isASCII_lower [simp]: "isASCII s \<Longrightarrow> isASCII (map ascii_lower s)"
  by (auto simp: isASCII_def)

lemma ToLower_idem: "isASCII s \<Longrightarrow> ToLower u (ToLower u s) = ToLower u s"
  by (simp add: ToLower_def comp_def)

lemma digit_value_char: "n < 10 \<Longrightarrow> digit_value (digit_char n) = n"
  by (simp add: digit_value_def digit_char_def)

lemma digit_char_digit: "n < 10 \<Longrightarrow> is_digit (digit_char n)"
  by (simp add: is_digit_def in_range_def digit_char_def)

lemma read_decimal_snoc: "read_decimal (s @ [c]) = 10 * read_decimal s + digit_value c"
  by (simp add: read_decimal_def)

lemma read_decimal_decimal [simp]: "read_decimal (decimal n) = n"
proof (induction n rule: decimal.induct)
  case (1 n)
  then show ?case
    by (subst decimal.simps) (auto simp: read_decimal_snoc digit_value_char read_decimal_def [of "[_]"])
qed

lemma decimal_digits: "c \<in> set (decimal n) \<Longrightarrow> is_digit c"
proof (induction n rule: decimal.induct)
  case (1 n)
  from "1.prems" show ?case
    by (subst (asm) decimal.simps) (auto simp: digit_char_digit "1.IH" split: if_splits)
qed

lemma decimal_not_Nil [simp]: "decimal n \<noteq> []"
  by (subst decimal.simps) simp

lemma decimal_inj: "decimal m = decimal n \<longleftrightarrow> m = n"
  by (metis read_decimal_decimal)

lemma length_decimal_small: "n < 100 \<Longrightarrow> length (decimal n) \<le> 2"
  by (auto simp: decimal.simps [of n] decimal.simps [of "n div 10"])

lemma read_two_digits [simp]: "read_decimal (two_digits n) = n"
  using read_decimal_decimal [of n] by (simp add: two_digits_def read_decimal_def digit_value_def)

lemma length_two_digits: "n < 100 \<Longrightarrow> length (two_digits n) = 2"
  by (auto simp: two_digits_def decimal.simps [of n] decimal.simps [of "n div 10"])

lemma two_digits_digits: "c \<in> set (two_digits n) \<Longrightarrow> is_digit c"
  by (auto simp: two_digits_def is_digit_def in_range_def dest: decimal_digits split: if_splits)

lemma set_trim_ascii: "set (trim_ascii s) \<subseteq> set s"
  by (auto simp: trim_ascii_def dest!: set_dropWhileD)

lemma trim_ascii_ends: "trim_ascii s = [] \<or> \<not> is_space (hd (trim_ascii s)) \<and> \<not> is_space (last (trim_ascii s))"
proof (cases "trim_ascii s = []")
  case False
  let ?t = "dropWhile is_space s"
  obtain v where v: "?t = trim_ascii s @ v"
    by (metis trim_ascii_def rev_append rev_rev_ident takeWhile_dropWhile_id)
  have "\<not> is_space (hd ?t)" using False hd_dropWhile [of is_space s] dropWhile_eq_Nil_conv v by (metis append_is_Nil_conv)
  then have "\<not> is_space (hd (trim_ascii s))" using v False by (simp add: hd_append)
  moreover have "\<not> is_space (last (trim_ascii s))"
    using False by (metis hd_dropWhile dropWhile_eq_Nil_conv last_rev rev_is_Nil_conv trim_ascii_def)
  ultimately show ?thesis by blast
qed simp

lemma trim_ascii_idem [simp]: "trim_ascii (trim_ascii s) = trim_ascii s"
  by (rule trim_ascii_id [OF trim_ascii_ends])

lemma isASCII_subset: "isASCII s \<Longrightarrow> set t \<subseteq> set s \<Longrightarrow> isASCII t"
  by (auto simp: isASCII_def)

lemma set_split_on: "p \<in> set (split_on c s) \<Longrightarrow> set p \<subseteq> set s - {c}"
proof (induction s arbitrary: p)
  case (Cons x s)
  show ?case
  proof (cases "x = c")
    case True
    with Cons show ?thesis by auto
  next
    case False
    obtain q qs where "split_on c s = q # qs" by (cases "split_on c s") auto
    moreover have "set q \<subseteq> set s - {c}" "\<And>p. p \<in> set qs \<Longrightarrow> set p \<subseteq> set s - {c}" using Cons.IH calculation by auto
    ultimately show ?thesis using False Cons.prems by auto
  qed
qed simp

lemma Cut_parts: "Cut c s = (a, b, f) \<Longrightarrow> set a \<subseteq> set s \<and> set b \<subseteq> set s \<and> (f \<longrightarrow> c \<notin> set a)"
proof -
  have "set (tl (dropWhile P s)) \<subseteq> set s" for P
    using set_dropWhileD [of _ P s] list.set_sel(2) [of "dropWhile P s"] by (cases "dropWhile P s = []") (auto simp del: dropWhile_eq_Nil_conv)
  moreover assume "Cut c s = (a, b, f)"
  ultimately show ?thesis by (auto simp: Cut_def dest: set_takeWhileD split: if_splits)
qed

lemma of_hex_char: "d < 16 \<Longrightarrow> of_char (hex_char d) = (if d < 10 then 48 + d else 87 + d :: nat)"
  by (simp add: hex_char_def)

lemma hex_char_inj: "a < 16 \<Longrightarrow> b < 16 \<Longrightarrow> hex_char a = hex_char b \<longleftrightarrow> a = b"
proof -
  assume a: "a < 16" and b: "b < 16"
  have "a = b" if "hex_char a = hex_char b"
  proof -
    have "(if a < 10 then 48 + a else 87 + a) = (if b < 10 then 48 + b else 87 + b)"
      using of_hex_char [OF a] of_hex_char [OF b] that by metis
    then show ?thesis by presburger
  qed
  then show ?thesis by blast
qed

lemma EncodeToString_inj: "EncodeToString as = EncodeToString bs \<longleftrightarrow> as = bs"
proof (induction as arbitrary: bs)
  case Nil
  then show ?case by (cases bs) (auto simp: EncodeToString_def)
next
  case (Cons a as)
  then show ?case
  proof (cases bs)
    case (Cons b bs')
    have less: "unat x div 16 < 16" for x :: "8 word" using unsigned_less [of x, where ?'a = nat] by simp
    have "unat a div 16 = unat b div 16 \<and> unat a mod 16 = unat b mod 16 \<longleftrightarrow> a = b"
      by (metis div_mult_mod_eq word_unat_eq_iff)
    then show ?thesis using Cons.IH [of bs'] local.Cons less by (auto simp: EncodeToString_def hex_char_inj)
  qed (simp add: EncodeToString_def)
qed

end
