(* ===== verification/WebhookUrl.thy ===== *)
theory WebhookUrl
  imports Domain GoText "HOL-Library.Word"
begin

unbundle bit_operations_syntax

text \<open>
  The destination checks of \<^verbatim>\<open>internal/webhookurl\<close>: URL validation (\<^verbatim>\<open>validation.go\<close>), the guard that runs when a
  connection is dialled (\<^verbatim>\<open>guard.go\<close>), delivery over a tailnet (\<^verbatim>\<open>tailnet.go\<close>) and the policy of tailnet
  hosts (\<^verbatim>\<open>tailnet_policy.go\<close>).

  The text parsers of the standard library (\<^verbatim>\<open>url.Parse\<close>, \<^verbatim>\<open>net.ParseIP\<close>, \<^verbatim>\<open>netip.ParseAddr\<close>,
  \<^verbatim>\<open>net.SplitHostPort\<close>), the resolvers, the dialers and IDNA are arguments; the theorems hold for all of
  their answers.
\<close>

section \<open>Addresses\<close>

text \<open>\<^verbatim>\<open>netip.Addr\<close>: an IPv4 address, or an IPv6 address with its zone; the zero value is invalid. \<^verbatim>\<open>net.IP\<close> is
  a list of bytes.\<close>

datatype Addr = InvalidAddr | Addr4 "32 word" | Addr6 "128 word" string

type_synonym IP = "8 word list"

definition word_of_bytes :: "8 word list \<Rightarrow> 'a::len word" where
  "word_of_bytes bs = foldl (\<lambda>v b. push_bit 8 v OR ucast b) 0 bs"

definition AddrFromSlice :: "IP \<Rightarrow> Addr option" where
  "AddrFromSlice ip = (if length ip = 4 then Some (Addr4 (word_of_bytes ip))
     else if length ip = 16 then Some (Addr6 (word_of_bytes ip) '''') else None)"

fun Zone :: "Addr \<Rightarrow> string" where
  "Zone (Addr6 a z) = z"
| "Zone _ = ''''"

fun WithZone :: "Addr \<Rightarrow> string \<Rightarrow> Addr" where
  "WithZone (Addr6 a _) z = Addr6 a z"
| "WithZone a z = a"

definition Is4In6 :: "128 word \<Rightarrow> bool" where
  "Is4In6 a \<longleftrightarrow> drop_bit 32 a = 0xffff"

fun Unmap :: "Addr \<Rightarrow> Addr" where
  "Unmap (Addr6 a z) = (if Is4In6 a then Addr4 (ucast a) else Addr6 a z)"
| "Unmap a = a"

text \<open>\<^verbatim>\<open>Prefix.Contains\<close>: families must agree and a zoned address is never contained.\<close>

fun contains4 :: "32 word \<Rightarrow> nat \<Rightarrow> Addr \<Rightarrow> bool" where
  "contains4 net bits (Addr4 a) = (drop_bit (32 - bits) a = drop_bit (32 - bits) net)"
| "contains4 net bits _ = False"

fun contains6 :: "128 word \<Rightarrow> nat \<Rightarrow> Addr \<Rightarrow> bool" where
  "contains6 net bits (Addr6 a z) = (z = '''' \<and> drop_bit (128 - bits) a = drop_bit (128 - bits) net)"
| "contains6 net bits _ = False"

text \<open>The predicates of \<^verbatim>\<open>netip.Addr\<close> on an address that is not IPv4-mapped.\<close>

fun IsUnspecified :: "Addr \<Rightarrow> bool" where
  "IsUnspecified (Addr4 a) = (a = 0)"
| "IsUnspecified (Addr6 a z) = (a = 0 \<and> z = '''')"
| "IsUnspecified InvalidAddr = False"

fun IsLoopback :: "Addr \<Rightarrow> bool" where
  "IsLoopback (Addr4 a) = (drop_bit 24 a = 127)"
| "IsLoopback (Addr6 a z) = (a = 1)"
| "IsLoopback InvalidAddr = False"

fun IsLinkLocalUnicast :: "Addr \<Rightarrow> bool" where
  "IsLinkLocalUnicast (Addr4 a) = (drop_bit 16 a = 0xa9fe)"
| "IsLinkLocalUnicast (Addr6 a z) = (drop_bit 118 a = 0x3fa)"
| "IsLinkLocalUnicast InvalidAddr = False"

fun IsMulticast :: "Addr \<Rightarrow> bool" where
  "IsMulticast (Addr4 a) = (drop_bit 28 a = 0xe)"
| "IsMulticast (Addr6 a z) = (drop_bit 120 a = 0xff)"
| "IsMulticast InvalidAddr = False"

fun IsPrivate :: "Addr \<Rightarrow> bool" where
  "IsPrivate (Addr4 a) = (drop_bit 24 a = 10 \<or> drop_bit 20 a = 0xac1 \<or> drop_bit 16 a = 0xc0a8)"
| "IsPrivate (Addr6 a z) = (drop_bit 121 a = 0x7e)"
| "IsPrivate InvalidAddr = False"

section \<open>URL validation\<close>

text \<open>What \<^verbatim>\<open>url.Parse\<close> answers: scheme, host with port, and the host name alone.\<close>

record URL =
  u_Scheme :: string
  u_Host :: string
  u_Hostname :: string

definition isForbiddenHostname :: "string \<Rightarrow> bool" where
  "isForbiddenHostname host \<longleftrightarrow> host = ''localhost'' \<or> HasSuffix host ''.localhost'' \<or> host = ''metadata.google.internal''"

definition stripIPv6Zone :: "string \<Rightarrow> string" where
  "stripIPv6Zone host = (if CHR ''%'' \<in> set host then rev (tl (dropWhile (\<lambda>c. c \<noteq> CHR ''%'') (rev host))) else host)"

text \<open>The methods of \<^verbatim>\<open>net.IP\<close> look at the IPv4 form of a mapped address.\<close>

definition isForbiddenIP :: "Addr \<Rightarrow> bool" where
  "isForbiddenIP ip = (let ip = Unmap ip in IsUnspecified ip \<or> IsLoopback ip \<or> IsPrivate ip \<or> IsLinkLocalUnicast ip
     \<or> contains4 0xe0000000 24 ip \<or> (case ip of Addr6 a z \<Rightarrow> drop_bit 112 a AND 0xff0f = 0xff02 | _ \<Rightarrow> False)
     \<or> IsMulticast ip)"

definition Validate :: "unicode \<Rightarrow> (string \<Rightarrow> URL result) \<Rightarrow> (string \<Rightarrow> Addr option) \<Rightarrow> string \<Rightarrow> unit result" where
  "Validate u parse parseIP rawURL =
     (case parse rawURL of
        Inl e \<Rightarrow> Inl e
      | Inr url \<Rightarrow>
          if u_Scheme url \<noteq> ''http'' \<and> u_Scheme url \<noteq> ''https'' then Inl (ErrorMsg ''scheme must be http or https'')
          else if u_Host url = '''' then Inl (ErrorMsg ''host is required'')
          else (let host = ToLower u (u_Hostname url)
                in if isForbiddenHostname host then Inl (ErrorMsg ''forbidden host'')
                   else (case parseIP (stripIPv6Zone host) of
                           Some ip \<Rightarrow> if isForbiddenIP ip then Inl (ErrorMsg ''forbidden ip'') else Inr ()
                         | None \<Rightarrow> Inr ())))"

section \<open>The allowlist\<close>

record Allowlist =
  al_suffixes :: "string list"
  al_exact :: "string list"

definition isIPLiteral :: "(string \<Rightarrow> Addr option) \<Rightarrow> string \<Rightarrow> bool" where
  "isIPLiteral parseAddr s \<longleftrightarrow> parseAddr (TrimSuffix (TrimPrefix s ''['') '']'') \<noteq> None"

definition hostname_char :: "char \<Rightarrow> bool" where
  "hostname_char c \<longleftrightarrow> in_range (CHR ''a'') (CHR ''z'') c \<or> is_digit c \<or> c = CHR ''-'' \<or> c = CHR ''_'' \<or> c = CHR ''.''"

definition checkHostnameSyntax :: "string \<Rightarrow> err option" where
  "checkHostnameSyntax name =
     (if name = '''' then Some (ErrorMsg ''empty hostname'')
      else if '''' \<in> set (split_on (CHR ''.'') name) then Some (ErrorMsg ''empty label'')
      else (case filter (\<lambda>c. \<not> hostname_char c) name of
              [] \<Rightarrow> None
            | c # _ \<Rightarrow> Some (ErrorMsg (''character '' @ [CHR 0x27] @ (if c = CHR 0x27 then [CHR 0x5C, c] else if c = CHR 0x22 then [c] else escaped_byte c) @ [CHR 0x27] @ '' is not allowed in a hostname''))))"

fun parse_entries :: "unicode \<Rightarrow> (string \<Rightarrow> Addr option) \<Rightarrow> string list \<Rightarrow> Allowlist \<Rightarrow> Allowlist result" where
  "parse_entries u parseAddr [] a = Inr a"
| "parse_entries u parseAddr (raw # rest) a =
     (let e = ToLower u (TrimSpace u raw)
      in if e = '''' \<or> e = ''.'' then Inl (ErrorMsg (''invalid allowlist entry '' @ quoted raw @ '': empty hostname''))
         else (let e = TrimSuffix e ''.''; name = TrimPrefix e ''.''
               in if isIPLiteral parseAddr name
                  then Inl (ErrorMsg (''invalid allowlist entry '' @ quoted raw @ '': IP literals are not allowed, use a hostname''))
                  else (case checkHostnameSyntax name of
                          Some err \<Rightarrow> Inl (ErrorMsg (''invalid allowlist entry '' @ quoted raw @ '': '' @ error_string err))
                        | None \<Rightarrow>
                            parse_entries u parseAddr rest
                              (if HasPrefix e ''.'' then a\<lparr>al_suffixes := al_suffixes a @ [name]\<rparr>
                               else a\<lparr>al_exact := al_exact a @ [name]\<rparr>))))"

definition ParseAllowlist :: "unicode \<Rightarrow> (string \<Rightarrow> Addr option) \<Rightarrow> string list \<Rightarrow> Allowlist result" where
  "ParseAllowlist u parseAddr entries = parse_entries u parseAddr entries \<lparr>al_suffixes = [], al_exact = []\<rparr>"

definition Matches :: "unicode \<Rightarrow> (string \<Rightarrow> Addr option) \<Rightarrow> Allowlist \<Rightarrow> string \<Rightarrow> bool" where
  "Matches u parseAddr a host =
     (let h = TrimSuffix (ToLower u host) ''.''
      in if h = '''' \<or> isIPLiteral parseAddr h then False
         else h \<in> set (al_exact a) \<or> (\<exists>s \<in> set (al_suffixes a). h = s \<or> HasSuffix h (''.'' @ s)))"

section \<open>The guard\<close>

text \<open>The switch over the ranges, on an address that is valid, without zone and not mapped.\<close>

definition check_ranges :: "Addr \<Rightarrow> bool \<Rightarrow> string \<times> bool" where
  "check_ranges addr allowPrivate =
     (if IsUnspecified addr then (''unspecified address'', False)
      else if IsLoopback addr then (''loopback address'', False)
      else if IsLinkLocalUnicast addr then (''link-local address'', False)
      else if IsMulticast addr then (''multicast address'', False)
      else if contains4 0 8 addr then (''this-network address (0.0.0.0/8)'', False)
      else if contains4 0x64400000 10 addr then (''carrier-grade NAT address (100.64.0.0/10)'', False)
      else if contains6 0x0064ff9b000100000000000000000000 48 addr then (''NAT64 local-use address'', False)
      else if contains6 0 96 addr then (''IPv4-compatible IPv6 address'', False)
      else if IsPrivate addr \<and> \<not> allowPrivate
      then (''private address (allow it with WEBHOOK_ALLOWED_PRIVATE_SUFFIXES)'', False)
      else ('''', True))"

text \<open>The recursive call on the embedded IPv4 address goes straight to the switch: that address is valid, has
  no zone and is IPv4.\<close>

definition checkAddr :: "Addr \<Rightarrow> bool \<Rightarrow> string \<times> bool" where
  "checkAddr addr allowPrivate =
     (if addr = InvalidAddr then (''invalid IP address'', False)
      else if Zone addr \<noteq> '''' then (''scoped (zoned) IPv6 address'', False)
      else (let addr = Unmap addr
            in if contains6 0x0000000000000000ffff000000000000 96 addr \<or> contains6 0x0064ff9b000000000000000000000000 96 addr
               then (case addr of Addr6 a z \<Rightarrow> check_ranges (Addr4 (ucast a)) allowPrivate | _ \<Rightarrow> check_ranges addr allowPrivate)
               else check_ranges addr allowPrivate))"

definition CheckIP :: "IP \<Rightarrow> bool \<Rightarrow> string \<times> bool" where
  "CheckIP ip allowPrivate =
     (case AddrFromSlice ip of None \<Rightarrow> (''invalid IP address'', False) | Some addr \<Rightarrow> checkAddr addr allowPrivate)"

text \<open>What a dial meets. \<open>dv_dial\<close> is the answer of the dialer for an address and a port, \<open>dv_ctxErr\<close> whether the
  context is done before the \<open>n\<close>-th address.\<close>

record IPAddr =
  ia_IP :: IP
  ia_Zone :: string

record dial_env =
  dv_split :: "string \<Rightarrow> (string \<times> string) result"
  dv_parseAddr :: "string \<Rightarrow> Addr option"
  dv_lookup :: "string \<Rightarrow> IPAddr list result"
  dv_ctxErr :: "nat \<Rightarrow> err option"
  dv_dial :: "Addr \<times> string \<Rightarrow> unit result"
  dv_showIP :: "IP \<Rightarrow> string"
  dv_asSlice :: "Addr \<Rightarrow> IP"

definition resolved_addr :: "IPAddr \<Rightarrow> Addr option" where
  "resolved_addr ia =
     (case AddrFromSlice (ia_IP ia) of
        None \<Rightarrow> None
      | Some ip \<Rightarrow> Some (if ia_Zone ia \<noteq> '''' then WithZone ip (ia_Zone ia) else ip))"

text \<open>The loop over the answers with a check of one address: the addresses to dial, or the refusal.\<close>

fun check_all :: "dial_env \<Rightarrow> (Addr \<Rightarrow> string \<times> bool) \<Rightarrow> string \<Rightarrow> IPAddr list \<Rightarrow> Addr list result" where
  "check_all dv check host [] = Inr []"
| "check_all dv check host (ia # ias) =
     (let (reason, ok) = (case resolved_addr ia of None \<Rightarrow> (''invalid IP address'', False) | Some ip \<Rightarrow> check ip)
      in if \<not> ok then Inl (BlockedError host (Some (dv_showIP dv (ia_IP ia))) reason)
         else (case check_all dv check host ias of
                 Inl e \<Rightarrow> Inl e
               | Inr ips \<Rightarrow> Inr (Unmap (the (resolved_addr ia)) # ips)))"

text \<open>The loop over the checked addresses: the result and the addresses that were dialled.\<close>

fun dial_all :: "dial_env \<Rightarrow> string \<Rightarrow> nat \<Rightarrow> Addr list \<Rightarrow> err option \<Rightarrow> unit result \<times> Addr list" where
  "dial_all dv port n [] firstErr = (case firstErr of None \<Rightarrow> (Inl (ErrorMsg ''''), []) | Some e \<Rightarrow> (Inl e, []))"
| "dial_all dv port n (ip # ips) firstErr =
     (case dv_ctxErr dv n of
        Some e \<Rightarrow> (Inl (case firstErr of None \<Rightarrow> e | Some f \<Rightarrow> f), [])
      | None \<Rightarrow>
          (case dv_dial dv (ip, port) of
             Inr _ \<Rightarrow> (Inr (), [ip])
           | Inl e \<Rightarrow> (case dial_all dv port (Suc n) ips (Some (case firstErr of None \<Rightarrow> e | Some f \<Rightarrow> f)) of
               (r, tried) \<Rightarrow> (r, ip # tried))))"

definition no_addresses :: err where
  "no_addresses = ErrorMsg ''no addresses found''"

definition resolve_check_dial :: "dial_env \<Rightarrow> (Addr \<Rightarrow> string \<times> bool) \<Rightarrow> string \<Rightarrow> string \<Rightarrow> unit result \<times> Addr list" where
  "resolve_check_dial dv check host port =
     (case dv_lookup dv host of
        Inl e \<Rightarrow> (Inl e, [])
      | Inr [] \<Rightarrow> (Inl no_addresses, [])
      | Inr ipAddrs \<Rightarrow>
          (case check_all dv check host ipAddrs of
             Inl e \<Rightarrow> (Inl e, [])
           | Inr checked \<Rightarrow> dial_all dv port 0 checked None))"

definition guardedDial :: "unicode \<Rightarrow> dial_env \<Rightarrow> Allowlist \<Rightarrow> string \<Rightarrow> unit result \<times> Addr list" where
  "guardedDial u dv a addr =
     (case dv_split dv addr of
        Inl e \<Rightarrow> (Inl e, [])
      | Inr (host, port) \<Rightarrow>
          if host = '''' then (Inl (ErrorMsg (''webhook dial '' @ quoted addr @ '': missing host'')), [])
          else (case dv_parseAddr dv host of
                  Some lit \<Rightarrow>
                    (case checkAddr lit False of
                       (reason, False) \<Rightarrow> (Inl (BlockedError host (Some (dv_showIP dv (dv_asSlice dv (WithZone lit '''')))) reason), [])
                     | (_, True) \<Rightarrow> (dv_dial dv (Unmap lit, port), [Unmap lit]))
                | None \<Rightarrow> resolve_check_dial dv (\<lambda>ip. checkAddr ip (Matches u (dv_parseAddr dv) a host)) host port))"

section \<open>Delivery over the tailnet\<close>

definition checkTailnetAddr :: "Addr list \<Rightarrow> Addr \<Rightarrow> string \<times> bool" where
  "checkTailnetAddr self addr =
     (if addr = InvalidAddr then (''invalid IP address'', False)
      else if Zone addr \<noteq> '''' then (''scoped (zoned) IPv6 address'', False)
      else (let addr = Unmap addr
            in if addr = Addr4 0x64646464 \<or> addr = Addr6 0xfd7a115ca1e000000000000000000053 ''''
               then (''Tailscale service address'', False)
               else if contains4 0x64735c00 23 addr \<or> contains6 0xfd7a115ca1e00b1a0000000000000000 64 addr
               then (''reserved Tailscale address'', False)
               else if \<not> contains4 0x64400000 10 addr \<and> \<not> contains6 0xfd7a115ca1e000000000000000000000 48 addr
               then (''not a tailnet address'', False)
               else if \<exists>s \<in> set self. Unmap s = addr then (''this node's own tailnet address'', False)
               else ('''', True)))"

definition CheckTailnetIP :: "IP \<Rightarrow> Addr list \<Rightarrow> string \<times> bool" where
  "CheckTailnetIP ip self =
     (case AddrFromSlice ip of None \<Rightarrow> (''invalid IP address'', False) | Some addr \<Rightarrow> checkTailnetAddr self addr)"

definition tailnetHost :: "unicode \<Rightarrow> (string \<Rightarrow> Addr option) \<Rightarrow> string \<Rightarrow> string \<Rightarrow> bool" where
  "tailnetHost u parseAddr host sfx =
     (let h = TrimSuffix (ToLower u host) ''.''
      in if sfx = '''' \<or> h = '''' \<or> isIPLiteral parseAddr h then False else HasSuffix h (''.'' @ sfx))"

definition tailnetDial :: "dial_env \<Rightarrow> Addr list \<Rightarrow> string \<Rightarrow> unit result \<times> Addr list" where
  "tailnetDial tn self addr =
     (case dv_split tn addr of
        Inl e \<Rightarrow> (Inl e, [])
      | Inr (host, port) \<Rightarrow> resolve_check_dial tn (checkTailnetAddr self) host port)"

text \<open>Which dialer was used, its result and the addresses it dialled.\<close>

datatype route = Public | ViaTailnet

record Tailnet =
  tn_Suffix :: string
  tn_env :: dial_env
  tn_SelfAddrs :: "Addr list"

definition normal_suffix :: "unicode \<Rightarrow> string \<Rightarrow> string" where
  "normal_suffix u sfx = TrimSuffix (ToLower u (TrimSpace u sfx)) ''.''"

definition RoutedDialContext :: "unicode \<Rightarrow> (string \<Rightarrow> unit result \<times> Addr list) \<Rightarrow> Tailnet option \<Rightarrow> string
    \<Rightarrow> route \<times> unit result \<times> Addr list" where
  "RoutedDialContext u public tn addr =
     (case tn of
        None \<Rightarrow> (Public, public addr)
      | Some tn \<Rightarrow>
          (let sfx = normal_suffix u (tn_Suffix tn)
           in if sfx = '''' then (Public, public addr)
              else (case dv_split (tn_env tn) addr of
                      Inr (host, port) \<Rightarrow>
                        if tailnetHost u (dv_parseAddr (tn_env tn)) host sfx
                        then (ViaTailnet, tailnetDial (tn_env tn) (tn_SelfAddrs tn) addr)
                        else (Public, public addr)
                    | Inl _ \<Rightarrow> (Public, public addr))))"

section \<open>The ranges as intervals\<close>

text \<open>A reference for the guard: the blocked and the private ranges as intervals of addresses.\<close>

definition in_ranges :: "('a::len word \<times> 'a word) list \<Rightarrow> 'a word \<Rightarrow> bool" where
  "in_ranges rs a \<longleftrightarrow> (\<exists>(lo, hi) \<in> set rs. lo \<le> a \<and> a \<le> hi)"

definition blocked4 :: "(32 word \<times> 32 word) list" where
  "blocked4 = [(0x00000000, 0x00ffffff), (0x64400000, 0x647fffff), (0x7f000000, 0x7fffffff),
     (0xa9fe0000, 0xa9feffff), (0xe0000000, 0xefffffff)]"

definition private4 :: "(32 word \<times> 32 word) list" where
  "private4 = [(0x0a000000, 0x0affffff), (0xac100000, 0xac1fffff), (0xc0a80000, 0xc0a8ffff)]"

definition embedding6 :: "(128 word \<times> 128 word) list" where
  "embedding6 = [(0x00000000000000000000ffff00000000, 0x00000000000000000000ffffffffffff),
     (0x0000000000000000ffff000000000000, 0x0000000000000000ffff0000ffffffff),
     (0x0064ff9b000000000000000000000000, 0x0064ff9b0000000000000000ffffffff)]"

definition blocked6 :: "(128 word \<times> 128 word) list" where
  "blocked6 = [(0x00000000000000000000000000000000, 0x000000000000000000000000ffffffff),
     (0x0064ff9b000100000000000000000000, 0x0064ff9b0001ffffffffffffffffffff),
     (0xfe800000000000000000000000000000, 0xfebfffffffffffffffffffffffffffff),
     (0xff000000000000000000000000000000, 0xffffffffffffffffffffffffffffffff)]"

definition private6 :: "(128 word \<times> 128 word) list" where
  "private6 = [(0xfc000000000000000000000000000000, 0xfdffffffffffffffffffffffffffffff)]"

fun acceptable :: "bool \<Rightarrow> Addr \<Rightarrow> bool" where
  "acceptable p (Addr4 a) = (\<not> in_ranges blocked4 a \<and> (p \<or> \<not> in_ranges private4 a))"
| "acceptable p (Addr6 a z) = (z = '''' \<and> (if in_ranges embedding6 a
     then \<not> in_ranges blocked4 (ucast a) \<and> (p \<or> \<not> in_ranges private4 (ucast a))
     else \<not> in_ranges blocked6 a \<and> (p \<or> \<not> in_ranges private6 a)))"
| "acceptable p InvalidAddr = False"

lemma div_interval: "0 < (m :: nat) \<Longrightarrow> a div m = k \<longleftrightarrow> k * m \<le> a \<and> a < (k + 1) * m"
  by (metis Suc_eq_plus1 div_nat_eqI dividend_less_times_div mult.commute mult_Suc_right times_div_less_eq_dividend add.commute)

lemma drop_bit_interval: "drop_bit n a = c \<longleftrightarrow> unat c * 2 ^ n \<le> unat a \<and> unat a < (unat c + 1) * 2 ^ n" for a :: "'a::len word"
proof -
  have "unat (drop_bit n a) = unat a div 2 ^ n" by (simp only: unat_drop_bit_eq drop_bit_eq_div [of n "unat a"])
  then show ?thesis using div_interval [of "2 ^ n" "unat a" "unat c"] by (simp only: word_unat_eq_iff) simp
qed

lemma ranges4:
  "drop_bit 24 a = (127 :: 32 word) \<longleftrightarrow> 0x7f000000 \<le> a \<and> a \<le> 0x7fffffff"
  "drop_bit 16 a = (0xa9fe :: 32 word) \<longleftrightarrow> 0xa9fe0000 \<le> a \<and> a \<le> 0xa9feffff"
  "drop_bit 28 a = (0xe :: 32 word) \<longleftrightarrow> 0xe0000000 \<le> a \<and> a \<le> 0xefffffff"
  "drop_bit 24 a = (0 :: 32 word) \<longleftrightarrow> a \<le> 0x00ffffff"
  "drop_bit 22 a = (0x191 :: 32 word) \<longleftrightarrow> 0x64400000 \<le> a \<and> a \<le> 0x647fffff"
  "drop_bit 24 a = (10 :: 32 word) \<longleftrightarrow> 0x0a000000 \<le> a \<and> a \<le> 0x0affffff"
  "drop_bit 20 a = (0xac1 :: 32 word) \<longleftrightarrow> 0xac100000 \<le> a \<and> a \<le> 0xac1fffff"
  "drop_bit 16 a = (0xc0a8 :: 32 word) \<longleftrightarrow> 0xc0a80000 \<le> a \<and> a \<le> 0xc0a8ffff"
  by (auto simp: drop_bit_interval word_le_nat_alt)

lemma ranges6:
  "drop_bit 118 a = (0x3fa :: 128 word) \<longleftrightarrow> 0xfe800000000000000000000000000000 \<le> a \<and> a \<le> 0xfebfffffffffffffffffffffffffffff"
  "drop_bit 120 a = (0xff :: 128 word) \<longleftrightarrow> 0xff000000000000000000000000000000 \<le> a \<and> a \<le> 0xffffffffffffffffffffffffffffffff"
  "drop_bit 121 a = (0x7e :: 128 word) \<longleftrightarrow> 0xfc000000000000000000000000000000 \<le> a \<and> a \<le> 0xfdffffffffffffffffffffffffffffff"
  "drop_bit 80 a = (0x64ff9b0001 :: 128 word) \<longleftrightarrow> 0x0064ff9b000100000000000000000000 \<le> a \<and> a \<le> 0x0064ff9b0001ffffffffffffffffffff"
  "drop_bit 32 a = (0 :: 128 word) \<longleftrightarrow> a \<le> 0x000000000000000000000000ffffffff"
  "drop_bit 32 a = (0xffff :: 128 word) \<longleftrightarrow> 0x00000000000000000000ffff00000000 \<le> a \<and> a \<le> 0x00000000000000000000ffffffffffff"
  "drop_bit 32 a = (0xffff0000 :: 128 word) \<longleftrightarrow> 0x0000000000000000ffff000000000000 \<le> a \<and> a \<le> 0x0000000000000000ffff0000ffffffff"
  "drop_bit 32 a = (0x0064ff9b0000000000000000 :: 128 word) \<longleftrightarrow> 0x0064ff9b000000000000000000000000 \<le> a \<and> a \<le> 0x0064ff9b0000000000000000ffffffff"
  by (auto simp: drop_bit_interval word_le_nat_alt)

lemma prefixes4:
  "contains4 0 8 (Addr4 a) \<longleftrightarrow> a \<le> 0x00ffffff"
  "contains4 0x64400000 10 (Addr4 a) \<longleftrightarrow> 0x64400000 \<le> a \<and> a \<le> 0x647fffff"
  by (simp_all add: ranges4)

lemma prefixes6:
  "contains6 0 96 (Addr6 a z) \<longleftrightarrow> z = '''' \<and> a \<le> 0x000000000000000000000000ffffffff"
  "contains6 0x0064ff9b000100000000000000000000 48 (Addr6 a z) \<longleftrightarrow>
     z = '''' \<and> 0x0064ff9b000100000000000000000000 \<le> a \<and> a \<le> 0x0064ff9b0001ffffffffffffffffffff"
  "contains6 0x0000000000000000ffff000000000000 96 (Addr6 a z) \<longleftrightarrow>
     z = '''' \<and> 0x0000000000000000ffff000000000000 \<le> a \<and> a \<le> 0x0000000000000000ffff0000ffffffff"
  "contains6 0x0064ff9b000000000000000000000000 96 (Addr6 a z) \<longleftrightarrow>
     z = '''' \<and> 0x0064ff9b000000000000000000000000 \<le> a \<and> a \<le> 0x0064ff9b0000000000000000ffffffff"
  by (simp_all add: ranges6)

lemma check_ranges4: "snd (check_ranges (Addr4 a) p) \<longleftrightarrow> acceptable p (Addr4 a)"
  by (auto simp: check_ranges_def in_ranges_def blocked4_def private4_def ranges4 prefixes4 simp del: contains4.simps)

lemma check_ranges6:
  "z = '''' \<Longrightarrow> snd (check_ranges (Addr6 a z) p) \<longleftrightarrow> \<not> in_ranges blocked6 a \<and> (p \<or> \<not> in_ranges private6 a)"
  by (auto simp: check_ranges_def in_ranges_def blocked6_def private6_def ranges6 prefixes6 simp del: contains6.simps)

lemma embedding6_iff: "in_ranges embedding6 a \<longleftrightarrow> Is4In6 a \<or> contains6 0x0000000000000000ffff000000000000 96 (Addr6 a '''')
    \<or> contains6 0x0064ff9b000000000000000000000000 96 (Addr6 a '''')"
  by (auto simp: in_ranges_def embedding6_def Is4In6_def ranges6 prefixes6 simp del: contains6.simps)

lemma checkAddr_acceptable: "snd (checkAddr addr p) \<longleftrightarrow> acceptable p addr"
proof (cases addr)
  case (Addr6 a z)
  show ?thesis
  proof (cases "z = ''''")
    case True
    then show ?thesis
      using check_ranges4 [of "ucast a" p] check_ranges6 [OF True, of a p] embedding6_iff [of a]
      by (simp add: Addr6 checkAddr_def Let_def del: contains6.simps(1))
  qed (simp add: Addr6 checkAddr_def)
qed (simp_all add: checkAddr_def check_ranges4 del: acceptable.simps(1))

lemma acceptable_Unmap: "acceptable p addr \<Longrightarrow> acceptable p (Unmap addr)"
  by (cases addr) (auto simp: embedding6_iff split: if_splits)

text \<open>What a dial hands to the dialer, for any check of single addresses.\<close>

lemma check_all_Inr:
  assumes "check_all dv check host ias = Inr ips" "ip \<in> set ips"
  shows "\<exists>x. snd (check x) \<and> ip = Unmap x"
  using assms
proof (induction ias arbitrary: ips)
  case (Cons ia ias)
  then show ?case by (force simp: case_prod_unfold Let_def split: if_splits sum.splits option.splits)
qed simp

lemma check_all_blocked:
  assumes "ia \<in> set ias" "\<not> (\<exists>x. resolved_addr ia = Some x \<and> snd (check x))"
  shows "\<exists>e. check_all dv check host ias = Inl e \<and> errors_Is e ErrDestinationBlocked"
  using assms
proof (induction ias)
  case (Cons i ias)
  then show ?case by (force simp: case_prod_unfold Let_def split: sum.split option.splits)
qed simp

lemma dial_all_subset: "dial_all dv port n ips fe = (r, dialled) \<Longrightarrow> set dialled \<subseteq> set ips"
proof (induction ips arbitrary: n fe r dialled)
  case (Cons ip ips)
  then show ?case by (fastforce split: option.splits sum.splits prod.splits)
qed (simp split: option.splits)

lemma resolve_check_dial_checked:
  assumes "resolve_check_dial dv check host port = (r, dialled)" "d \<in> set dialled"
  shows "\<exists>x. snd (check x) \<and> d = Unmap x"
proof -
  obtain ias checked where "check_all dv check host ias = Inr checked" "dial_all dv port 0 checked None = (r, dialled)"
    using assms by (auto simp: resolve_check_dial_def simp del: check_all.simps dial_all.simps split: sum.splits list.splits)
  with assms(2) dial_all_subset check_all_Inr show ?thesis by blast
qed

lemma resolve_check_dial_blocked:
  assumes "resolve_check_dial dv check host port = (r, dialled)" "dv_lookup dv host = Inr ias"
    and "ia \<in> set ias" "\<not> (\<exists>x. resolved_addr ia = Some x \<and> snd (check x))"
  shows "dialled = [] \<and> (\<exists>e. r = Inl e \<and> errors_Is e ErrDestinationBlocked)"
  using assms(1,2,3) check_all_blocked [OF assms(3,4), of dv host]
  by (cases ias) (auto simp: resolve_check_dial_def)

text \<open>The addresses of tailnet nodes: in the node ranges and not among the reserved ones.\<close>

fun tailnet_node :: "Addr \<Rightarrow> bool" where
  "tailnet_node (Addr4 a) \<longleftrightarrow> 0x64400000 \<le> a \<and> a \<le> 0x647fffff \<and> a \<noteq> 0x64646464 \<and> \<not> (0x64735c00 \<le> a \<and> a \<le> 0x64735dff)"
| "tailnet_node (Addr6 a z) \<longleftrightarrow> z = '''' \<and> 0xfd7a115ca1e000000000000000000000 \<le> a \<and> a \<le> 0xfd7a115ca1e0ffffffffffffffffffff
     \<and> a \<noteq> 0xfd7a115ca1e000000000000000000053 \<and> \<not> (0xfd7a115ca1e00b1a0000000000000000 \<le> a \<and> a \<le> 0xfd7a115ca1e00b1affffffffffffffff)"
| "tailnet_node InvalidAddr \<longleftrightarrow> False"

lemma tailnet_prefixes:
  "contains4 0x64735c00 23 (Addr4 b) \<longleftrightarrow> 0x64735c00 \<le> b \<and> b \<le> 0x64735dff"
  "contains6 0xfd7a115ca1e00b1a0000000000000000 64 (Addr6 a z) \<longleftrightarrow>
     z = '''' \<and> 0xfd7a115ca1e00b1a0000000000000000 \<le> a \<and> a \<le> 0xfd7a115ca1e00b1affffffffffffffff"
  "contains6 0xfd7a115ca1e000000000000000000000 48 (Addr6 a z) \<longleftrightarrow>
     z = '''' \<and> 0xfd7a115ca1e000000000000000000000 \<le> a \<and> a \<le> 0xfd7a115ca1e0ffffffffffffffffffff"
  by (auto simp: drop_bit_interval word_le_nat_alt)

lemma checkTailnetAddr_node:
  "snd (checkTailnetAddr self addr) \<longleftrightarrow> addr \<noteq> InvalidAddr \<and> Zone addr = '''' \<and> tailnet_node (Unmap addr) \<and> Unmap addr \<notin> Unmap ` set self"
proof -
  have node: "tailnet_node b \<longleftrightarrow> \<not> (b = Addr4 0x64646464 \<or> b = Addr6 0xfd7a115ca1e000000000000000000053 '''')
      \<and> \<not> (contains4 0x64735c00 23 b \<or> contains6 0xfd7a115ca1e00b1a0000000000000000 64 b)
      \<and> \<not> (\<not> contains4 0x64400000 10 b \<and> \<not> contains6 0xfd7a115ca1e000000000000000000000 48 b)" for b
  proof (cases b)
    case (Addr4 a)
    then show ?thesis by (simp add: tailnet_prefixes prefixes4 del: contains4.simps(1)) blast
  next
    case (Addr6 a z)
    then show ?thesis by (simp add: tailnet_prefixes del: contains6.simps(1)) blast
  qed simp
  have chain: "snd (if i then (r1, False) else if z then (r2, False) else if q then (r3, False) else if v then (r4, False)
      else if n then (r5, False) else if s then (r6, False) else (r7, True)) \<longleftrightarrow> \<not> i \<and> \<not> z \<and> \<not> q \<and> \<not> v \<and> \<not> n \<and> \<not> s"
    for i z q v n s and r1 r2 r3 r4 r5 r6 r7 :: string by simp
  have self: "(\<exists>s \<in> set self. Unmap s = Unmap addr) \<longleftrightarrow> Unmap addr \<in> Unmap ` set self" unfolding image_iff by metis
  show ?thesis unfolding checkTailnetAddr_def Let_def chain node self by blast
qed

lemma link_local_multicast6: "drop_bit 112 a AND 0xff0f = (0xff02 :: 128 word) \<Longrightarrow> drop_bit 120 a = (0xff :: 128 word)"
proof -
  assume m: "drop_bit 112 a AND 0xff0f = (0xff02 :: 128 word)"
  have "take_bit 8 (drop_bit 120 a) = drop_bit 120 (take_bit 128 a)" by (simp add: take_bit_drop_bit)
  also have "take_bit 128 a = a" by (rule take_bit_word_eq_self) simp
  finally have "drop_bit 120 a = drop_bit 120 a AND 0xff" by (simp add: take_bit_eq_mask mask_eq_exp_minus_1)
  also have "\<dots> = drop_bit 8 (drop_bit 112 a AND 0xff0f)" by simp
  also have "\<dots> = 0xff" unfolding m by simp
  finally show ?thesis .
qed

text \<open>What URL validation forbids as a literal address, the guard would refuse as well.\<close>

lemma isForbiddenIP_blocked: "isForbiddenIP ip \<Longrightarrow> \<not> acceptable False (Unmap ip)"
proof (cases "Unmap ip")
  case (Addr4 a)
  have "a \<le> 0xefffffff \<and> 0xe0000000 \<le> a" if "drop_bit 8 a = (0xe00000 :: 32 word)"
    using that by (simp add: drop_bit_interval word_le_nat_alt)
  moreover assume "isForbiddenIP ip"
  ultimately show ?thesis unfolding Addr4
    by (cases "a = 0", simp_all add: isForbiddenIP_def Let_def Addr4 in_ranges_def blocked4_def private4_def ranges4) blast
next
  case (Addr6 a z)
  assume "isForbiddenIP ip"
  then have "a = 0 \<or> a = 1 \<or> drop_bit 121 a = (0x7e :: 128 word) \<or> drop_bit 118 a = (0x3fa :: 128 word) \<or> drop_bit 120 a = (0xff :: 128 word)"
    using link_local_multicast6 by (auto simp: isForbiddenIP_def Let_def Addr6)
  then have "\<not> in_ranges embedding6 a \<and> (in_ranges blocked6 a \<or> in_ranges private6 a)"
    unfolding ranges6
  proof (elim disjE conjE)
    assume "0xfc000000000000000000000000000000 \<le> a" "a \<le> 0xfdffffffffffffffffffffffffffffff"
    then show ?thesis by (simp add: in_ranges_def embedding6_def private6_def word_le_nat_alt)
  next
    assume "0xfe800000000000000000000000000000 \<le> a" "a \<le> 0xfebfffffffffffffffffffffffffffff"
    then show ?thesis by (simp add: in_ranges_def embedding6_def blocked6_def word_le_nat_alt)
  next
    assume "0xff000000000000000000000000000000 \<le> a" "a \<le> 0xffffffffffffffffffffffffffffffff"
    then show ?thesis by (simp add: in_ranges_def embedding6_def blocked6_def word_le_nat_alt)
  qed (simp_all add: in_ranges_def embedding6_def blocked6_def word_le_nat_alt)
  then show ?thesis unfolding Addr6 by simp
qed (simp_all add: isForbiddenIP_def)

text \<open>The addresses the guarded dialer and the tailnet dialer connect to.\<close>

lemma guardedDial_name:
  assumes "guardedDial u dv a addr = (r, dialled)" "dv_split dv addr = Inr (host, port)" "host \<noteq> ''''" "dv_parseAddr dv host = None"
  shows "resolve_check_dial dv (\<lambda>ip. checkAddr ip (Matches u (dv_parseAddr dv) a host)) host port = (r, dialled)"
  using assms by (simp add: guardedDial_def)

lemma guardedDial_acceptable:
  assumes "guardedDial u dv a addr = (r, dialled)" "dv_split dv addr = Inr (host, port)" "d \<in> set dialled"
  shows "acceptable (dv_parseAddr dv host = None \<and> Matches u (dv_parseAddr dv) a host) d"
proof (cases "dv_parseAddr dv host")
  case None
  have "host \<noteq> ''''" using assms by (auto simp: guardedDial_def)
  from resolve_check_dial_checked [OF guardedDial_name [OF assms(1,2) this None] assms(3)] None
  show ?thesis using checkAddr_acceptable acceptable_Unmap by auto
next
  case (Some lit)
  have "snd (checkAddr lit False)" "d = Unmap lit"
    using assms Some by (auto simp: guardedDial_def split: if_splits prod.splits bool.splits)
  then show ?thesis using Some checkAddr_acceptable acceptable_Unmap by simp
qed

lemma tailnetDial_nodes:
  assumes "tailnetDial tn self addr = (r, dialled)" "d \<in> set dialled"
  shows "tailnet_node d \<and> d \<notin> Unmap ` set self"
proof -
  obtain host port where "resolve_check_dial tn (checkTailnetAddr self) host port = (r, dialled)"
    using assms by (auto simp: tailnetDial_def split: sum.splits)
  from resolve_check_dial_checked [OF this assms(2)] show ?thesis by (auto simp: checkTailnetAddr_node)
qed

section \<open>Properties\<close>

text \<open>
  C33: the guard's check is the one its ranges describe. For every address, \<open>checkAddr\<close> accepts it exactly
  if it lies outside the blocked intervals (this network, carrier-grade NAT, loopback, link-local,
  multicast, NAT64 local use, IPv4-compatible), outside the private ones unless these are permitted,
  carries no zone, and, where it embeds an IPv4 address (mapped, translated, NAT64), the embedded
  address passes the same test.
\<close>

theorem checkAddr_correct: "snd (checkAddr addr allowPrivate) \<longleftrightarrow> acceptable allowPrivate addr"
  by (rule checkAddr_acceptable)

text \<open>
  no request leaves for a blocked destination. Whatever the resolver answers, each address the guarded
  dialer connects to is acceptable, with private ranges only for host names on the allowlist and never for
  literal addresses; and if one answer for the name is not acceptable, nothing is dialled and the error is
  the permanent \<open>ErrDestinationBlocked\<close>.
\<close>

theorem guardedDial_safe:
  assumes "guardedDial u dv a addr = (r, dialled)" "dv_split dv addr = Inr (host, port)"
  shows "(\<forall>d \<in> set dialled. acceptable (dv_parseAddr dv host = None \<and> Matches u (dv_parseAddr dv) a host) d)
    \<and> (\<forall>ias. \<forall>ia \<in> set ias. host \<noteq> '''' \<and> dv_parseAddr dv host = None \<and> dv_lookup dv host = Inr ias
         \<and> \<not> (\<exists>ip. resolved_addr ia = Some ip \<and> acceptable (Matches u (dv_parseAddr dv) a host) ip)
       \<longrightarrow> dialled = [] \<and> (\<exists>e. r = Inl e \<and> errors_Is e ErrDestinationBlocked))"
proof -
  have "acceptable (dv_parseAddr dv host = None \<and> Matches u (dv_parseAddr dv) a host) d" if "d \<in> set dialled" for d
    using guardedDial_acceptable [OF assms that] .
  moreover have "dialled = [] \<and> (\<exists>e. r = Inl e \<and> errors_Is e ErrDestinationBlocked)"
    if "ia \<in> set ias" "host \<noteq> ''''" "dv_parseAddr dv host = None" "dv_lookup dv host = Inr ias"
      "\<not> (\<exists>ip. resolved_addr ia = Some ip \<and> acceptable (Matches u (dv_parseAddr dv) a host) ip)" for ia ias
    using resolve_check_dial_blocked [OF guardedDial_name [OF assms that(2,3)] that(4,1)] that(5) by (simp add: checkAddr_acceptable)
  ultimately show ?thesis by blast
qed

definition sample_unicode :: unicode where
  "sample_unicode = \<lparr>uc_lower = (\<lambda>s. s), uc_trim = (\<lambda>s. s)\<rparr>"

text \<open>A resolver that answers one private address, a port 80 for every name, and dials that succeed.\<close>

definition sample_dial :: dial_env where
  "sample_dial = \<lparr>dv_split = (\<lambda>addr. Inr (addr, ''80'')), dv_parseAddr = (\<lambda>s. None),
     dv_lookup = (\<lambda>h. Inr [\<lparr>ia_IP = [10, 0, 0, 7], ia_Zone = ''''\<rparr>]), dv_ctxErr = (\<lambda>n. None),
     dv_dial = (\<lambda>x. Inr ()), dv_showIP = (\<lambda>ip. ''10.0.0.7''), dv_asSlice = (\<lambda>a. [])\<rparr>"

theorem guardedDial_safe_witness:
  "snd (guardedDial sample_unicode sample_dial \<lparr>al_suffixes = [], al_exact = []\<rparr> ''hooks.internal'') = []"
proof -
  let ?run = "guardedDial sample_unicode sample_dial \<lparr>al_suffixes = [], al_exact = []\<rparr> ''hooks.internal''"
  have run: "?run = (fst ?run, snd ?run)" by simp
  have split: "dv_split sample_dial ''hooks.internal'' = Inr (''hooks.internal'', ''80'')" by (simp add: sample_dial_def)
  let ?ia = "\<lparr>ia_IP = [10, 0, 0, 7], ia_Zone = ''''\<rparr>"
  have "resolved_addr ?ia = Some (Addr4 0x0a000007)" by (simp add: resolved_addr_def AddrFromSlice_def word_of_bytes_def)
  moreover have "\<not> Matches u p \<lparr>al_suffixes = [], al_exact = []\<rparr> h" for u p h by (simp add: Matches_def Let_def)
  ultimately have "\<not> (\<exists>ip. resolved_addr ?ia = Some ip \<and> acceptable (Matches sample_unicode (dv_parseAddr sample_dial)
      \<lparr>al_suffixes = [], al_exact = []\<rparr> ''hooks.internal'') ip)"
    by (simp add: in_ranges_def private4_def)
  moreover have "dv_parseAddr sample_dial ''hooks.internal'' = None" "dv_lookup sample_dial ''hooks.internal'' = Inr [?ia]"
    by (simp_all add: sample_dial_def)
  ultimately show ?thesis using guardedDial_safe [OF run split] by (metis list.set_intros(1) list.distinct(1))
qed

definition sample_tailnet :: Tailnet where
  "sample_tailnet = \<lparr>tn_Suffix = ''tail.ts.net'',
     tn_env = sample_dial\<lparr>dv_lookup := (\<lambda>h. Inr [\<lparr>ia_IP = [100, 64, 0, 9], ia_Zone = ''''\<rparr>])\<rparr>, tn_SelfAddrs = []\<rparr>"

end
