(* ===== verification/TailnetPolicy.thy ===== *)
theory TailnetPolicy
  imports WebhookUrl "HOL-Library.List_Lexorder" "HOL-Library.Char_ord"
begin

text \<open>
  The policy of tailnet hosts per namespace (\<^verbatim>\<open>internal/webhookurl/tailnet_policy.go\<close>). The map of host sets is an
  association list with distinct namespaces, the set of names a list without duplicates. IDNA is an
  argument.
\<close>

record hostSet =
  hs_all :: bool
  hs_names :: "string list"

record TailnetPolicy =
  byNamespace :: "(string \<times> hostSet) list"

definition ReasonTailnetNotAllowed :: string where
  "ReasonTailnetNotAllowed = ''tailnet host not allowed for namespace''"

definition checkPolicyHost :: "(string \<Rightarrow> Addr option) \<Rightarrow> string \<Rightarrow> err option" where
  "checkPolicyHost parseAddr h =
     (case checkHostnameSyntax h of
        Some e \<Rightarrow> Some e
      | None \<Rightarrow>
          if CHR ''.'' \<in> set h then Some (ErrorMsg ''must be a single label, without the tailnet suffix'')
          else if isIPLiteral parseAddr h then Some (ErrorMsg ''IP literals are not allowed'')
          else None)"

definition add_name :: "string \<Rightarrow> string list \<Rightarrow> string list" where
  "add_name h hs = (if h \<in> set hs then hs else hs @ [h])"

fun parse_hosts :: "unicode \<Rightarrow> (string \<Rightarrow> Addr option) \<Rightarrow> string \<Rightarrow> string list \<Rightarrow> hostSet \<Rightarrow> hostSet result" where
  "parse_hosts u parseAddr entry [] hs = Inr hs"
| "parse_hosts u parseAddr entry (raw # rest) hs =
     (let h = ToLower u (TrimSpace u raw)
      in if h = ''*'' then parse_hosts u parseAddr entry rest (hs\<lparr>hs_all := True\<rparr>)
         else (case checkPolicyHost parseAddr h of
                 Some e \<Rightarrow> Inl (Wrapped (''invalid tailnet policy entry '' @ quoted entry @ '': host '' @ quoted h) e)
               | None \<Rightarrow> parse_hosts u parseAddr entry rest (hs\<lparr>hs_names := add_name h (hs_names hs)\<rparr>)))"

fun parse_policy_entries :: "unicode \<Rightarrow> (string \<Rightarrow> Addr option) \<Rightarrow> string list \<Rightarrow> (string \<times> hostSet) list
    \<Rightarrow> (string \<times> hostSet) list result" where
  "parse_policy_entries u parseAddr [] acc = Inr acc"
| "parse_policy_entries u parseAddr (raw # rest) acc =
     (let entry = TrimSpace u raw
      in if entry = '''' then parse_policy_entries u parseAddr rest acc
         else (let (ns, hosts, found) = Cut (CHR ''='') entry; ns = TrimSpace u ns
               in if \<not> found \<or> ns = ''''
                  then Inl (ErrorMsg (''invalid tailnet policy entry '' @ quoted entry @ '': want namespace=host[,host]''))
                  else if ns \<in> fst ` set acc
                  then Inl (ErrorMsg (''invalid tailnet policy entry '' @ quoted entry @ '': namespace '' @ quoted ns @ '' listed twice''))
                  else (case parse_hosts u parseAddr entry (split_on (CHR '','') hosts) \<lparr>hs_all = False, hs_names = []\<rparr> of
                          Inl e \<Rightarrow> Inl e
                        | Inr hs \<Rightarrow> parse_policy_entries u parseAddr rest (acc @ [(ns, hs)]))))"

definition ParseTailnetPolicy :: "unicode \<Rightarrow> (string \<Rightarrow> Addr option) \<Rightarrow> string \<Rightarrow> TailnetPolicy result" where
  "ParseTailnetPolicy u parseAddr raw =
     (case parse_policy_entries u parseAddr (split_on (CHR '';'') raw) [] of
        Inl e \<Rightarrow> Inl e
      | Inr [] \<Rightarrow> Inl (ErrorMsg (''invalid tailnet policy '' @ quoted raw @ '': empty''))
      | Inr m \<Rightarrow> Inr \<lparr>byNamespace = m\<rparr>)"

text \<open>A missing key reads as the empty host set. \<open>None\<close> is the nil policy.\<close>

definition host_set :: "TailnetPolicy \<Rightarrow> string \<Rightarrow> hostSet" where
  "host_set p key = (case map_of (byNamespace p) key of None \<Rightarrow> \<lparr>hs_all = False, hs_names = []\<rparr> | Some s \<Rightarrow> s)"

definition Allows :: "unicode \<Rightarrow> TailnetPolicy option \<Rightarrow> string \<Rightarrow> string \<Rightarrow> bool" where
  "Allows u p namespace relHost =
     (case p of
        None \<Rightarrow> False
      | Some p \<Rightarrow>
          if namespace = '''' then False
          else (let relHost = TrimSuffix (ToLower u relHost) ''.''
                in \<exists>key \<in> set [namespace, ''*'']. relHost \<in> set (hs_names (host_set p key)) \<or> hs_all (host_set p key)))"

definition relativeTailnetHost :: "unicode \<Rightarrow> (string \<Rightarrow> Addr option) \<Rightarrow> string \<Rightarrow> string \<Rightarrow> string \<times> bool" where
  "relativeTailnetHost u parseAddr host sfx =
     (if \<not> tailnetHost u parseAddr host sfx then ('''', False)
      else (TrimSuffix (TrimSuffix (ToLower u host) ''.'') (''.'' @ sfx), True))"

definition Check :: "unicode \<Rightarrow> (string \<Rightarrow> Addr option) \<Rightarrow> (string \<Rightarrow> string option) \<Rightarrow> TailnetPolicy option
    \<Rightarrow> string \<Rightarrow> string \<Rightarrow> string \<Rightarrow> err option" where
  "Check u parseAddr toASCII p namespace host sfx =
     (let sfx = normal_suffix u sfx; refused = Some (BlockedError host None ReasonTailnetNotAllowed)
      in if sfx = '''' then None
         else (case (if isASCII host then Some host else toASCII host) of
                 None \<Rightarrow> refused
               | Some ascii \<Rightarrow>
                   (case relativeTailnetHost u parseAddr ascii sfx of
                      (_, False) \<Rightarrow> None
                    | (rel, True) \<Rightarrow> if CHR ''.'' \<notin> set rel \<and> Allows u p namespace rel then None else refused)))"

definition Namespaces :: "TailnetPolicy option \<Rightarrow> string list" where
  "Namespaces p = (case p of None \<Rightarrow> [] | Some p \<Rightarrow> sort (map fst (byNamespace p)))"

definition Hosts :: "TailnetPolicy option \<Rightarrow> string \<Rightarrow> bool \<times> string list" where
  "Hosts p namespace =
     (case p of
        None \<Rightarrow> (False, [])
      | Some p \<Rightarrow>
          if namespace = '''' then (False, [])
          else (let own = host_set p namespace; shared = host_set p ''*''
                in if hs_all own \<or> hs_all shared then (True, [])
                   else (False, sort (foldl (\<lambda>hosts h. add_name h hosts) [] (hs_names own @ hs_names shared)))))"

definition TailnetRelativeHost :: "unicode \<Rightarrow> (string \<Rightarrow> Addr option) \<Rightarrow> (string \<Rightarrow> string option) \<Rightarrow> string \<Rightarrow> string \<Rightarrow> string \<times> bool" where
  "TailnetRelativeHost u parseAddr toASCII host sfx =
     (let sfx = normal_suffix u sfx
      in if sfx = '''' then ('''', False)
         else (case (if isASCII host then Some host else toASCII host) of
                 None \<Rightarrow> ('''', False)
               | Some host \<Rightarrow> relativeTailnetHost u parseAddr host sfx))"

section \<open>Hosts of a policy\<close>

lemma hostname_char_facts:
  assumes "hostname_char c"
  shows "is_ascii c" "ascii_lower c = c" "\<not> is_space c" "c \<noteq> CHR '',''" "c \<noteq> CHR '';''" "c \<noteq> CHR ''*''"
  using assms by (auto simp: hostname_char_def is_digit_def in_range_def is_ascii_def ascii_lower_def is_space_def is_re_space_def)

lemma checkHostnameSyntax_chars: "checkHostnameSyntax h = None \<Longrightarrow> c \<in> set h \<Longrightarrow> hostname_char c"
  by (auto simp: checkHostnameSyntax_def filter_empty_conv split: if_splits list.splits)

lemma policy_host_facts:
  assumes "checkPolicyHost parseAddr h = None"
  shows "h \<noteq> ''''" "\<forall>c \<in> set h. hostname_char c"
proof -
  have s: "checkHostnameSyntax h = None" using assms by (auto simp: checkPolicyHost_def split: option.splits)
  then show "h \<noteq> ''''" by (auto simp: checkHostnameSyntax_def)
  show "\<forall>c \<in> set h. hostname_char c" using checkHostnameSyntax_chars [OF s] by blast
qed

lemma policy_host_normal:
  assumes "checkPolicyHost parseAddr h = None"
  shows "ToLower u (TrimSpace u h) = h" "h \<noteq> ''*''" "CHR '','' \<notin> set h" "isASCII h"
proof -
  note f = policy_host_facts [OF assms]
  show a: "isASCII h" using f hostname_char_facts(1) by (auto simp: isASCII_def)
  have "hd h \<in> set h" "last h \<in> set h" using f(1) by auto
  then have "trim_ascii h = h" using f(2) hostname_char_facts(3) by (intro trim_ascii_id) blast
  moreover have "map ascii_lower h = h" using f(2) hostname_char_facts(2) by (simp add: map_idI)
  ultimately show "ToLower u (TrimSpace u h) = h" using a by (simp add: ToLower_def TrimSpace_def)
  have "CHR ''*'' \<notin> set h" using f(2) hostname_char_facts(6) by blast
  then show "h \<noteq> ''*''" by (metis list.set_intros(1))
  show "CHR '','' \<notin> set h" using f(2) hostname_char_facts(4) by blast
qed

definition wf_hosts :: "(string \<Rightarrow> Addr option) \<Rightarrow> hostSet \<Rightarrow> bool" where
  "wf_hosts parseAddr hs \<longleftrightarrow> distinct (hs_names hs) \<and> (\<forall>h \<in> set (hs_names hs). checkPolicyHost parseAddr h = None)"

lemma add_name_facts: "set (add_name h hs) = insert h (set hs)" "distinct hs \<Longrightarrow> distinct (add_name h hs)"
  by (auto simp: add_name_def)

lemma parse_hosts_wf:
  "parse_hosts u parseAddr e raws hs = Inr hs' \<Longrightarrow> wf_hosts parseAddr hs
    \<Longrightarrow> wf_hosts parseAddr hs' \<and> (raws \<noteq> [] \<or> hs_all hs \<or> hs_names hs \<noteq> [] \<longrightarrow> hs_all hs' \<or> hs_names hs' \<noteq> [])"
proof (induction raws arbitrary: hs)
  case (Cons raw raws)
  let ?h = "ToLower u (TrimSpace u raw)"
  show ?case
  proof (cases "?h = ''*''")
    case True
    with Cons.prems Cons.IH [of "hs\<lparr>hs_all := True\<rparr>"] show ?thesis by (simp add: wf_hosts_def)
  next
    case False
    with Cons.prems have ok: "checkPolicyHost parseAddr ?h = None"
      and rest: "parse_hosts u parseAddr e raws (hs\<lparr>hs_names := add_name ?h (hs_names hs)\<rparr>) = Inr hs'"
      by (auto simp: Let_def split: option.splits)
    from Cons.IH [OF rest] Cons.prems(2) ok show ?thesis
      by (auto simp: wf_hosts_def add_name_facts) (metis add_name_facts(1) insert_not_empty set_empty)
  qed
qed simp

lemma parse_hosts_names:
  assumes "\<forall>h \<in> set names. checkPolicyHost parseAddr h = None" "distinct (hs_names hs @ names)"
  shows "parse_hosts u parseAddr e names hs = Inr (hs\<lparr>hs_names := hs_names hs @ names\<rparr>)"
  using assms
proof (induction names arbitrary: hs)
  case (Cons h names)
  then have h: "checkPolicyHost parseAddr h = None" by simp
  have "parse_hosts u parseAddr e names (hs\<lparr>hs_names := hs_names hs @ [h]\<rparr>) = Inr (hs\<lparr>hs_names := hs_names hs @ h # names\<rparr>)"
    using Cons.IH [of "hs\<lparr>hs_names := hs_names hs @ [h]\<rparr>"] Cons.prems by simp
  then show ?case using policy_host_normal(1,2) [OF h] h Cons.prems(2) by (simp add: add_name_def)
qed simp

section \<open>Printing a policy\<close>

definition print_hosts :: "hostSet \<Rightarrow> string" where
  "print_hosts hs = join '','' ((if hs_all hs then [''*''] else []) @ hs_names hs)"

definition print_entry :: "string \<times> hostSet \<Rightarrow> string" where
  "print_entry = (\<lambda>(ns, hs). ns @ ''='' @ print_hosts hs)"

definition print_policy :: "TailnetPolicy \<Rightarrow> string" where
  "print_policy p = join '';'' (map print_entry (byNamespace p))"

definition wf_entry :: "(string \<Rightarrow> Addr option) \<Rightarrow> string \<times> hostSet \<Rightarrow> bool" where
  "wf_entry parseAddr = (\<lambda>(ns, hs). ns \<noteq> '''' \<and> isASCII ns \<and> trim_ascii ns = ns \<and> CHR ''='' \<notin> set ns \<and> CHR '';'' \<notin> set ns
     \<and> wf_hosts parseAddr hs \<and> (hs_all hs \<or> hs_names hs \<noteq> []))"

definition wf_policy :: "(string \<Rightarrow> Addr option) \<Rightarrow> TailnetPolicy \<Rightarrow> bool" where
  "wf_policy parseAddr p \<longleftrightarrow> byNamespace p \<noteq> [] \<and> distinct (map fst (byNamespace p)) \<and> (\<forall>x \<in> set (byNamespace p). wf_entry parseAddr x)"

lemma parse_print_hosts:
  assumes "wf_hosts parseAddr hs" "hs_all hs \<or> hs_names hs \<noteq> []"
  shows "parse_hosts u parseAddr e (split_on (CHR '','') (print_hosts hs)) \<lparr>hs_all = False, hs_names = []\<rparr> = Inr hs"
proof -
  let ?l = "(if hs_all hs then [''*''] else []) @ hs_names hs"
  have "split_on (CHR '','') (print_hosts hs) = ?l"
    unfolding print_hosts_def using assms policy_host_normal(3) by (intro split_on_join) (auto simp: wf_hosts_def split: if_splits)
  moreover have "ToLower u (TrimSpace u ''*'') = ''*''"
    by (simp add: ToLower_def TrimSpace_def trim_ascii_def is_ascii_def is_space_def is_re_space_def ascii_lower_def in_range_def)
  ultimately show ?thesis
    using assms(1) parse_hosts_names [of "hs_names hs" parseAddr "\<lparr>hs_all = hs_all hs, hs_names = []\<rparr>" u e]
    by (cases "hs_all hs") (auto simp: wf_hosts_def)
qed

lemma print_hosts_chars: "wf_hosts parseAddr hs \<Longrightarrow> c \<in> set (print_hosts hs) \<Longrightarrow> hostname_char c \<or> c = CHR ''*'' \<or> c = CHR '',''"
  using set_join [of "'',''" "(if hs_all hs then [''*''] else []) @ hs_names hs"] policy_host_facts(2)
  by (fastforce simp: print_hosts_def wf_hosts_def split: if_splits)

lemma print_hosts_last: "wf_hosts parseAddr hs \<Longrightarrow> hs_all hs \<or> hs_names hs \<noteq> [] \<Longrightarrow> print_hosts hs \<noteq> [] \<and> \<not> is_space (last (print_hosts hs))"
proof -
  assume wf: "wf_hosts parseAddr hs" and ne: "hs_all hs \<or> hs_names hs \<noteq> []"
  have nonempty: "join sep ps \<noteq> []" if "ps \<noteq> []" "\<forall>p \<in> set ps. p \<noteq> []" for sep ps
    using that by (induction sep ps rule: join.induct) auto
  have "print_hosts hs \<noteq> []"
    unfolding print_hosts_def
  proof (rule nonempty)
    show "(if hs_all hs then [''*''] else []) @ hs_names hs \<noteq> []" using ne by auto
    have "p \<noteq> []" if "p \<in> set (hs_names hs)" for p using wf that policy_host_facts(1) unfolding wf_hosts_def by blast
    then show "\<forall>p \<in> set ((if hs_all hs then [''*''] else []) @ hs_names hs). p \<noteq> []" by auto
  qed
  moreover from this have "last (print_hosts hs) \<in> set (print_hosts hs)" by simp
  from print_hosts_chars [OF wf this] have "\<not> is_space (last (print_hosts hs))"
    using hostname_char_facts(3) by (auto simp: is_space_def is_re_space_def)
  ultimately show ?thesis by blast
qed

lemma parse_print_entry:
  assumes wf: "wf_entry parseAddr x" and new: "fst x \<notin> fst ` set acc"
  shows "parse_policy_entries u parseAddr (print_entry x # rest) acc = parse_policy_entries u parseAddr rest (acc @ [x])"
proof -
  obtain ns hs where x: "x = (ns, hs)" by fastforce
  have ns: "ns \<noteq> ''''" "isASCII ns" "trim_ascii ns = ns" "CHR ''='' \<notin> set ns" and hs: "wf_hosts parseAddr hs" "hs_all hs \<or> hs_names hs \<noteq> []"
    using wf by (simp_all add: wf_entry_def x)
  have e: "print_entry x = ns @ CHR ''='' # print_hosts hs" by (simp add: print_entry_def x)
  have "is_ascii (CHR ''*'')" "is_ascii (CHR '','')" by (simp_all add: is_ascii_def)
  then have "isASCII (print_hosts hs)"
    using print_hosts_chars [OF hs(1)] hostname_char_facts(1) unfolding isASCII_def list_all_iff by blast
  then have ascii: "isASCII (print_entry x)" using ns(2) by (simp add: e is_ascii_def)
  have "\<not> is_space (hd ns)" using trim_ascii_ends [of ns] ns(1,3) by simp
  then have trim: "trim_ascii (print_entry x) = print_entry x"
    using print_hosts_last [OF hs] ns(1) by (intro trim_ascii_id) (simp add: e)
  have t: "TrimSpace u (print_entry x) = print_entry x" "TrimSpace u ns = ns" using ascii trim ns by (simp_all add: TrimSpace_def)
  have c: "Cut (CHR ''='') (print_entry x) = (ns, print_hosts hs, True)" unfolding e by (rule Cut_append [OF ns(4)])
  have "print_entry x \<noteq> ''''" by (simp add: e)
  then show ?thesis using new ns(1) parse_print_hosts [OF hs, of u "print_entry x"] t c by (simp add: x)
qed

lemma parse_print_entries:
  "\<forall>x \<in> set es. wf_entry parseAddr x \<Longrightarrow> distinct (map fst (acc @ es))
    \<Longrightarrow> parse_policy_entries u parseAddr (map print_entry es) acc = Inr (acc @ es)"
proof (induction es arbitrary: acc)
  case (Cons x es)
  have "fst x \<notin> fst ` set acc" using Cons.prems(2) by auto
  then have "parse_policy_entries u parseAddr (map print_entry (x # es)) acc = parse_policy_entries u parseAddr (map print_entry es) (acc @ [x])"
    using parse_print_entry [of parseAddr x acc u "map print_entry es"] Cons.prems(1) by simp
  then show ?case using Cons.IH [of "acc @ [x]"] Cons.prems by simp
qed simp

lemma parse_print_policy:
  assumes "wf_policy parseAddr p"
  shows "ParseTailnetPolicy u parseAddr (print_policy p) = Inr p"
proof -
  have semi: "CHR '';'' \<notin> set (print_entry x)" if "x \<in> set (byNamespace p)" for x
  proof -
    obtain ns hs where x: "x = (ns, hs)" by fastforce
    have "wf_entry parseAddr x" using assms that by (simp add: wf_policy_def)
    then have "CHR '';'' \<notin> set ns" "wf_hosts parseAddr hs" by (simp_all add: wf_entry_def x)
    then show ?thesis using print_hosts_chars [of parseAddr hs] hostname_char_facts(5) by (auto simp: print_entry_def x)
  qed
  have "split_on (CHR '';'') (print_policy p) = map print_entry (byNamespace p)"
    unfolding print_policy_def using assms semi by (intro split_on_join) (auto simp: wf_policy_def)
  moreover have "parse_policy_entries u parseAddr (map print_entry (byNamespace p)) [] = Inr (byNamespace p)"
    using parse_print_entries [of "byNamespace p" parseAddr "[]" u] assms by (simp add: wf_policy_def)
  ultimately show ?thesis using assms by (cases "byNamespace p") (auto simp: ParseTailnetPolicy_def wf_policy_def)
qed

section \<open>Parsed policies are well formed\<close>

lemma parse_policy_entries_wf:
  "parse_policy_entries u parseAddr raws acc = Inr m \<Longrightarrow> \<forall>r \<in> set raws. isASCII r \<and> CHR '';'' \<notin> set r
    \<Longrightarrow> \<forall>x \<in> set acc. wf_entry parseAddr x \<Longrightarrow> distinct (map fst acc)
    \<Longrightarrow> (\<forall>x \<in> set m. wf_entry parseAddr x) \<and> distinct (map fst m)"
proof (induction raws arbitrary: acc)
  case (Cons raw raws)
  let ?e = "trim_ascii raw"
  have e: "TrimSpace u raw = ?e" using Cons.prems(2) by (simp add: TrimSpace_def)
  show ?case
  proof (cases "?e = ''''")
    case True
    with Cons e show ?thesis by simp
  next
    case False
    obtain ns0 hosts f where cut: "Cut (CHR ''='') ?e = (ns0, hosts, f)" by (metis prod_cases3)
    note parts = Cut_parts [OF cut]
    have ascii: "isASCII ns0" "CHR '';'' \<notin> set ns0"
      using Cons.prems(2) parts set_trim_ascii [of raw] by (auto intro: isASCII_subset)
    let ?ns = "trim_ascii ns0"
    have ns: "TrimSpace u ns0 = ?ns" using ascii by (simp add: TrimSpace_def)
    from Cons.prems(1) False cut ns e have f: f "?ns \<noteq> ''''" "?ns \<notin> fst ` set acc"
      by (auto simp: Let_def split: if_splits)
    with Cons.prems(1) False cut ns e obtain hs where
        hs: "parse_hosts u parseAddr ?e (split_on (CHR '','') hosts) \<lparr>hs_all = False, hs_names = []\<rparr> = Inr hs"
        "parse_policy_entries u parseAddr raws (acc @ [(?ns, hs)]) = Inr m"
      by (auto simp: Let_def split: sum.splits)
    have "wf_hosts parseAddr hs \<and> (hs_all hs \<or> hs_names hs \<noteq> [])" using parse_hosts_wf [OF hs(1)] by (simp add: wf_hosts_def)
    then have "wf_entry parseAddr (?ns, hs)"
      using f ascii parts set_trim_ascii [of ns0] isASCII_subset by (auto simp: wf_entry_def)
    with Cons.IH [OF hs(2)] Cons.prems f show ?thesis by simp
  qed
qed simp


definition plain_unicode :: unicode where
  "plain_unicode = \<lparr>uc_lower = map ascii_lower, uc_trim = trim_ascii\<rparr>"



section \<open>What is reported is what is enforced\<close>

lemma set_add_names: "set (foldl (\<lambda>hosts h. add_name h hosts) acc hs) = set acc \<union> set hs"
  by (induction hs arbitrary: acc) (auto simp: add_name_def)

lemma Hosts_Allows:
  assumes "isASCII rel" "map ascii_lower rel = rel" "CHR ''.'' \<notin> set rel"
  shows "Allows u p ns rel \<longleftrightarrow> fst (Hosts p ns) \<or> rel \<in> set (snd (Hosts p ns))"
proof -
  have "TrimSuffix (ToLower u rel) ''.'' = rel"
    using assms TrimSuffix_cases [of rel "''.''"] by (auto simp: ToLower_def) (metis in_set_conv_decomp)
  then show ?thesis by (auto simp: Allows_def Hosts_def Let_def set_add_names split: option.splits)
qed

lemma relative_host_lower:
  assumes "relativeTailnetHost u parseAddr host sfx = (rel, True)" "isASCII host"
  shows "isASCII rel" "map ascii_lower rel = rel"
proof -
  have "rel = TrimSuffix (TrimSuffix (map ascii_lower host) ''.'') (''.'' @ sfx)"
    using assms by (auto simp: relativeTailnetHost_def ToLower_def split: if_splits)
  then have sub: "set rel \<subseteq> ascii_lower ` set host"
    by (auto simp: TrimSuffix_def split: if_splits dest!: in_set_takeD)
  then show "isASCII rel" using assms(2) by (auto simp: isASCII_def)
  show "map ascii_lower rel = rel" using sub by (intro map_idI) auto
qed

lemma Check_listing:
  assumes "\<forall>h a. toASCII h = Some a \<longrightarrow> isASCII a" "TailnetRelativeHost u parseAddr toASCII host sfx = (rel, True)"
  shows "Check u parseAddr toASCII p ns host sfx =
    (if CHR ''.'' \<notin> set rel \<and> (fst (Hosts p ns) \<or> rel \<in> set (snd (Hosts p ns))) then None
     else Some (BlockedError host None ReasonTailnetNotAllowed))"
proof -
  obtain ascii where a: "normal_suffix u sfx \<noteq> ''''" "(if isASCII host then Some host else toASCII host) = Some ascii"
      "relativeTailnetHost u parseAddr ascii (normal_suffix u sfx) = (rel, True)"
    using assms(2) by (auto simp: TailnetRelativeHost_def Let_def split: if_splits option.splits)
  have "isASCII ascii" using a(2) assms(1) by (auto split: if_splits)
  from Hosts_Allows [OF relative_host_lower [OF a(3) this]] a
  show ?thesis by (auto simp: Check_def Let_def)
qed

text \<open>
  The hosts a namespace is shown (\<open>Hosts\<close>) are the hosts it may reach: for a host under the tailnet suffix, \<open>Check\<close>, which the
  sender applies to every request and redirect, agrees with the listing, and refuses a host of more than one label even under a
  wildcard. The IDNA mapping is an argument of which only is used that it answers ASCII.
\<close>

theorem tailnet_policy_enforced:
  assumes "\<forall>h a. toASCII h = Some a \<longrightarrow> isASCII a" "TailnetRelativeHost u parseAddr toASCII host sfx = (rel, True)"
  shows "Check u parseAddr toASCII p ns host sfx =
    (if CHR ''.'' \<notin> set rel \<and> (fst (Hosts p ns) \<or> rel \<in> set (snd (Hosts p ns))) then None
     else Some (BlockedError host None ReasonTailnetNotAllowed))"
  using assms by (rule Check_listing)

lemma tailnet_policy_enforced_witness:
  "let p = Some \<lparr>byNamespace = [(''billing'', \<lparr>hs_all = False, hs_names = [''invoices'']\<rparr>)]\<rparr>; idna = (\<lambda>h. None)
   in TailnetRelativeHost plain_unicode (\<lambda>_. None) idna ''Invoices.t.ts.net.'' ''t.ts.net'' = (''invoices'', True)
    \<and> Check plain_unicode (\<lambda>_. None) idna p ''billing'' ''Invoices.t.ts.net.'' ''t.ts.net'' = None
    \<and> Check plain_unicode (\<lambda>_. None) idna p ''ops'' ''Invoices.t.ts.net.'' ''t.ts.net''
        = Some (BlockedError ''Invoices.t.ts.net.'' None ReasonTailnetNotAllowed)"
proof -
  let ?p = "Some \<lparr>byNamespace = [(''billing'', \<lparr>hs_all = False, hs_names = [''invoices'']\<rparr>)]\<rparr>"
  have 1: "\<forall>h a. (\<lambda>h. None) h = Some a \<longrightarrow> isASCII a" by simp
  have 2: "TailnetRelativeHost plain_unicode (\<lambda>_. None) (\<lambda>h. None) ''Invoices.t.ts.net.'' ''t.ts.net'' = (''invoices'', True)"
    by code_simp
  have 3: "Hosts ?p ''billing'' = (False, [''invoices''])" "Hosts ?p ''ops'' = (False, [])" by code_simp+
  show ?thesis
    using tailnet_policy_enforced [OF 1 2, of ?p "''billing''"] tailnet_policy_enforced [OF 1 2, of ?p "''ops''"] 2 3
    by (simp add: Let_def)
qed

end
