(* ===== verification/Sender.thy ===== *)
theory Sender
  imports Dispatcher TailnetPolicy
begin

text \<open>
  The webhook sender (\<^verbatim>\<open>internal/dispatcher/webhook.go\<close>): the signed request, the tailnet policy on the request and on
  every redirect, and the connections it is sent over.

  The HTTP client is Go's: it follows redirects while \<open>CheckRedirect\<close> allows it, and sends each request
  over an idle connection to the same address when there is one, or else over a new one. What servers
  answer and which idle connections are still alive are arguments, as are JSON, the MAC and IDNA.
\<close>

section \<open>Signatures\<close>

text \<open>\<open>hmac.Equal\<close> compares the strings; the MAC is an argument.\<close>

type_synonym mac = "string \<Rightarrow> string \<Rightarrow> 8 word list"

definition computeSignature :: "mac \<Rightarrow> string \<Rightarrow> string \<Rightarrow> string" where
  "computeSignature hmac secret body = EncodeToString (hmac secret body)"

definition VerifySignature :: "mac \<Rightarrow> string \<Rightarrow> string \<Rightarrow> string \<Rightarrow> bool" where
  "VerifySignature hmac secret body signature \<longleftrightarrow> computeSignature hmac secret body = signature"

section \<open>The sender and its client\<close>

record HTTPWebhookSender =
  s_policy :: "TailnetPolicy option"
  s_suffix :: string
  s_dial :: "string \<Rightarrow> route \<times> unit result \<times> Addr list"

record senderOptions =
  o_allowlist :: Allowlist
  o_dial :: "(string \<Rightarrow> unit result \<times> Addr list) option"
  o_tailnet :: "Tailnet option"
  o_policy :: "TailnetPolicy option"

definition WithAllowlist :: "Allowlist \<Rightarrow> senderOptions \<Rightarrow> senderOptions" where
  "WithAllowlist a o1 = o1\<lparr>o_allowlist := a\<rparr>"

definition WithTailnet :: "Tailnet option \<Rightarrow> senderOptions \<Rightarrow> senderOptions" where
  "WithTailnet tn o1 = o1\<lparr>o_tailnet := tn\<rparr>"

definition WithTailnetPolicy :: "TailnetPolicy option \<Rightarrow> senderOptions \<Rightarrow> senderOptions" where
  "WithTailnetPolicy p o1 = o1\<lparr>o_policy := p\<rparr>"

definition WithDialContext :: "(string \<Rightarrow> unit result \<times> Addr list) option \<Rightarrow> senderOptions \<Rightarrow> senderOptions" where
  "WithDialContext fn o1 = o1\<lparr>o_dial := fn\<rparr>"

definition zero_options :: senderOptions where
  "zero_options = \<lparr>o_allowlist = \<lparr>al_suffixes = [], al_exact = []\<rparr>, o_dial = None, o_tailnet = None, o_policy = None\<rparr>"

definition NewHTTPWebhookSender :: "unicode \<Rightarrow> dial_env \<Rightarrow> (senderOptions \<Rightarrow> senderOptions) list \<Rightarrow> HTTPWebhookSender" where
  "NewHTTPWebhookSender u dv opts =
     (let o1 = foldl (\<lambda>o1 opt. opt o1) zero_options opts;
          dial = (case o_dial o1 of None \<Rightarrow> guardedDial u dv (o_allowlist o1) | Some d \<Rightarrow> d)
      in \<lparr>s_policy = o_policy o1,
          s_suffix = (case o_tailnet o1 of None \<Rightarrow> '''' | Some tn \<Rightarrow> normal_suffix u (tn_Suffix tn)),
          s_dial = RoutedDialContext u dial (o_tailnet o1)\<rparr>)"

text \<open>What surrounds the sender. A reply is final or a redirect with its target.\<close>

datatype reply = Final int | Redirect int URL

record http_env =
  he_unicode :: unicode
  he_parseAddr :: "string \<Rightarrow> Addr option"
  he_toASCII :: "string \<Rightarrow> string option"
  he_parseURL :: "string \<Rightarrow> URL result"
  he_showURL :: "URL \<Rightarrow> string"
  he_joinHostPort :: "string \<Rightarrow> string \<Rightarrow> string"
  he_port :: "URL \<Rightarrow> string"
  he_alive :: "nat \<Rightarrow> bool"
  he_reply :: "nat \<Rightarrow> URL \<Rightarrow> reply result"
  he_marshal :: "WebhookPayload \<Rightarrow> string result"
  he_hmac :: mac

definition checkTailnet :: "http_env \<Rightarrow> HTTPWebhookSender \<Rightarrow> string \<Rightarrow> string \<Rightarrow> err option" where
  "checkTailnet he s namespace host =
     (if s_suffix s = '''' then None
      else Check (he_unicode he) (he_parseAddr he) (he_toASCII he) (s_policy s) namespace host (s_suffix s))"

text \<open>The number of requests made so far is the length of \<open>via\<close>.\<close>

definition CheckRedirect :: "http_env \<Rightarrow> HTTPWebhookSender \<Rightarrow> string \<Rightarrow> URL \<Rightarrow> nat \<Rightarrow> err option" where
  "CheckRedirect he s namespace r via =
     (if via \<ge> 10 then Some (ErrorMsg ''stopped after 10 redirects'') else checkTailnet he s namespace (u_Hostname r))"

text \<open>The address \<^verbatim>\<open>net/http\<close> dials for a URL: its host mapped through IDNA if that is possible, and its
  port. The pool holds the addresses with idle connections.\<close>

definition dial_host :: "http_env \<Rightarrow> URL \<Rightarrow> string" where
  "dial_host he url = (let h = u_Hostname url in if isASCII h then h else (case he_toASCII he h of None \<Rightarrow> h | Some a \<Rightarrow> a))"

definition dial_addr :: "http_env \<Rightarrow> URL \<Rightarrow> string" where
  "dial_addr he url = he_joinHostPort he (dial_host he url) (he_port he url)"

record hop =
  hop_URL :: URL
  hop_dial :: "(route \<times> unit result \<times> Addr list) option"

definition round_trip :: "http_env \<Rightarrow> HTTPWebhookSender \<Rightarrow> nat \<Rightarrow> URL \<Rightarrow> string list \<Rightarrow> reply result \<times> hop \<times> string list" where
  "round_trip he s n url pool =
     (let addr = dial_addr he url
      in if addr \<in> set pool \<and> he_alive he n then (he_reply he n url, \<lparr>hop_URL = url, hop_dial = None\<rparr>, pool)
         else (case s_dial s addr of
                 (route, Inl e, tried) \<Rightarrow> (Inl e, \<lparr>hop_URL = url, hop_dial = Some (route, Inl e, tried)\<rparr>, pool)
               | (route, Inr c, tried) \<Rightarrow>
                   (he_reply he n url, \<lparr>hop_URL = url, hop_dial = Some (route, Inr c, tried)\<rparr>, addr # pool)))"

text \<open>\<open>client.Do\<close>. Errors come back as \<^verbatim>\<open>url.Error\<close>, which names the method and the URL.\<close>

definition url_error :: "http_env \<Rightarrow> URL \<Rightarrow> err \<Rightarrow> err" where
  "url_error he url e = Wrapped (''Post '' @ quoted (he_showURL he url)) e"

function follow :: "http_env \<Rightarrow> HTTPWebhookSender \<Rightarrow> string \<Rightarrow> nat \<Rightarrow> URL \<Rightarrow> string list \<Rightarrow> int result \<times> hop list \<times> string list" where
  "follow he s namespace n url pool =
     (case round_trip he s n url pool of
        (Inl e, h, pool) \<Rightarrow> (Inl (url_error he url e), [h], pool)
      | (Inr (Final code), h, pool) \<Rightarrow> (Inr code, [h], pool)
      | (Inr (Redirect code next), h, pool) \<Rightarrow>
          (case CheckRedirect he s namespace next (Suc n) of
             Some e \<Rightarrow> (Inl (url_error he next e), [h], pool)
           | None \<Rightarrow> (case follow he s namespace (Suc n) next pool of (r, hops, pool) \<Rightarrow> (r, h # hops, pool))))"
  by pat_completeness auto
termination
  by (relation "measure (\<lambda>(he, s, ns, n, url, pool). 10 - n)") (auto simp: CheckRedirect_def split: if_splits)

declare follow.simps [simp del]

text \<open>The request handed to the client.\<close>

record http_request =
  hr_URL :: URL
  hr_Timeout :: duration
  hr_Header :: "(string \<times> string) list"
  hr_Body :: string

definition failed :: "err \<Rightarrow> duration \<Rightarrow> WebhookResult" where
  "failed e d = \<lparr>res_StatusCode = 0, res_Error = Some e, res_Duration = d\<rparr>"

definition Send :: "http_env \<Rightarrow> HTTPWebhookSender \<Rightarrow> duration \<Rightarrow> WebhookRequest \<Rightarrow> string list
    \<Rightarrow> WebhookResult \<times> http_request option \<times> hop list \<times> string list" where
  "Send he s elapsed req pool =
     (case he_marshal he (wr_Payload req) of
        Inl e \<Rightarrow> (failed (Wrapped ''marshal'' e) elapsed, None, [], pool)
      | Inr body \<Rightarrow>
          (let signature = computeSignature (he_hmac he) (wr_Secret req) body;
               timeout = (if wr_Timeout req = 0 then 30 * Second else wr_Timeout req)
           in case he_parseURL he (wr_URL req) of
                Inl e \<Rightarrow> (failed (Wrapped ''create request'' e) elapsed, None, [], pool)
              | Inr url \<Rightarrow>
                  (case checkTailnet he s (wr_Namespace req) (u_Hostname url) of
                     Some e \<Rightarrow> (failed (Wrapped ''send'' e) elapsed, None, [], pool)
                   | None \<Rightarrow>
                       (let hreq = \<lparr>hr_URL = url, hr_Timeout = timeout,
                              hr_Header = [(''Content-Type'', ''application/json''), (''X-CronLite-Event-ID'', wr_AttemptID req),
                                (''X-CronLite-Execution-ID'', wp_ExecutionID (wr_Payload req)), (''X-CronLite-Signature'', signature)],
                              hr_Body = body\<rparr>
                        in case follow he s (wr_Namespace req) 0 url pool of
                             (Inl e, hops, pool) \<Rightarrow> (failed (Wrapped ''send'' e) elapsed, Some hreq, hops, pool)
                           | (Inr code, hops, pool) \<Rightarrow>
                               (\<lparr>res_StatusCode = code, res_Error = None, res_Duration = elapsed\<rparr>, Some hreq, hops, pool)))))"

section \<open>Signatures verify\<close>

text \<open>
  A receiver that verifies with \<open>VerifySignature\<close> accepts what \<open>Send\<close> puts on the wire: the signature header of the request
  that goes out verifies against its own body under the job's secret. For any other secret or body the same signature verifies
  only if the MAC itself collides: hex encoding and comparison add no collisions.
\<close>

theorem signature_verifies:
  assumes "Send he s elapsed req pool = (res, Some hreq, hops, pool')"
  shows "\<exists>sig. map_of (hr_Header hreq) ''X-CronLite-Signature'' = Some sig
    \<and> he_marshal he (wr_Payload req) = Inr (hr_Body hreq)
    \<and> (\<forall>secret body. VerifySignature (he_hmac he) secret body sig
         \<longleftrightarrow> he_hmac he secret body = he_hmac he (wr_Secret req) (hr_Body hreq))"
  using assms
  by (auto simp: Send_def Let_def VerifySignature_def computeSignature_def EncodeToString_inj
      split: sum.splits option.splits prod.splits)

section \<open>Every hop is checked\<close>

definition hop_allowed :: "http_env \<Rightarrow> HTTPWebhookSender \<Rightarrow> string \<Rightarrow> hop \<Rightarrow> bool" where
  "hop_allowed he s namespace h \<longleftrightarrow> checkTailnet he s namespace (u_Hostname (hop_URL h)) = None"

definition hop_dialled :: "http_env \<Rightarrow> HTTPWebhookSender \<Rightarrow> hop \<Rightarrow> bool" where
  "hop_dialled he s h \<longleftrightarrow> (case hop_dial h of None \<Rightarrow> True | Some d \<Rightarrow> d = s_dial s (dial_addr he (hop_URL h)))"

lemma round_trip_hop:
  assumes "round_trip he s n url pool = (r, h, pool')"
  shows "hop_URL h = url" "hop_dialled he s h"
  using assms by (auto simp: round_trip_def hop_dialled_def Let_def split: if_splits prod.splits sum.splits)

lemma follow_hops:
  "follow he s ns n url pool = (r, hops, pool') \<Longrightarrow> checkTailnet he s ns (u_Hostname url) = None \<Longrightarrow> n < 10
    \<Longrightarrow> (\<forall>h \<in> set hops. hop_allowed he s ns h \<and> hop_dialled he s h) \<and> length hops \<le> 10 - n"
proof (induction he s ns n url pool arbitrary: r hops pool' rule: follow.induct)
  case (1 he s ns n url pool)
  obtain a h p where rt: "round_trip he s n url pool = (a, h, p)" by (metis prod_cases3)
  have h: "hop_allowed he s ns h" "hop_dialled he s h" using round_trip_hop [OF rt] 1(3) by (simp_all add: hop_allowed_def)
  consider (stop) "hops = [h]"
    | (on) code next' r2 hops2 p2 where "a = Inr (Redirect code next')" "CheckRedirect he s ns next' (Suc n) = None"
        "follow he s ns (Suc n) next' p = (r2, hops2, p2)" "hops = h # hops2"
    using 1(2) rt by (auto simp: follow.simps [of he s ns n] split: sum.splits reply.splits option.splits prod.splits)
  then show ?case
  proof cases
    case stop
    then show ?thesis using h 1(4) by simp
  next
    case on
    have next': "Suc n < 10" "checkTailnet he s ns (u_Hostname next') = None"
      using on(2) by (auto simp: CheckRedirect_def split: if_splits)
    have "(\<forall>h \<in> set hops2. hop_allowed he s ns h \<and> hop_dialled he s h) \<and> length hops2 \<le> 10 - Suc n"
      using 1(1) [OF rt [symmetric] on(1) refl refl on(2) on(3) next'(2) next'(1)] .
    then show ?thesis using h on(4) next'(1) by auto
  qed
qed

lemma Send_follow:
  assumes "Send he s elapsed req pool = (res, hreq, hops, pool')"
  shows "hops = [] \<or> (\<exists>url r. follow he s (wr_Namespace req) 0 url pool = (r, hops, pool')
    \<and> checkTailnet he s (wr_Namespace req) (u_Hostname url) = None)"
  using assms by (auto simp: Send_def Let_def split: sum.splits option.splits prod.splits)

lemma Send_hops:
  assumes "Send he s elapsed req pool = (res, hreq, hops, pool')"
  shows "(\<forall>h \<in> set hops. hop_allowed he s (wr_Namespace req) h \<and> hop_dialled he s h) \<and> length hops \<le> 10"
  using Send_follow [OF assms] follow_hops [of he s "wr_Namespace req" 0] by fastforce

text \<open>What the sender uses of \<^verbatim>\<open>net\<close> and IDNA: IDNA answers ASCII, and splitting the address of a URL gives
  its host and port. The tailnet's suffix is in the normal form MagicDNS has.\<close>

definition env_ok :: "http_env \<Rightarrow> dial_env \<Rightarrow> Tailnet \<Rightarrow> bool" where
  "env_ok he dv tn \<longleftrightarrow> (\<forall>h a. he_toASCII he h = Some a \<longrightarrow> isASCII a)
     \<and> dv_parseAddr (tn_env tn) = he_parseAddr he \<and> dv_parseAddr dv = he_parseAddr he
     \<and> tn_Suffix tn \<noteq> '''' \<and> normal_suffix (he_unicode he) (tn_Suffix tn) = tn_Suffix tn"

definition splits :: "http_env \<Rightarrow> dial_env \<Rightarrow> Tailnet \<Rightarrow> URL \<Rightarrow> bool" where
  "splits he dv tn url \<longleftrightarrow> dv_split dv (dial_addr he url) = Inr (dial_host he url, he_port he url)
     \<and> dv_split (tn_env tn) (dial_addr he url) = Inr (dial_host he url, he_port he url)"

definition tailnet_sender :: "unicode \<Rightarrow> dial_env \<Rightarrow> Allowlist \<Rightarrow> Tailnet \<Rightarrow> TailnetPolicy option \<Rightarrow> HTTPWebhookSender" where
  "tailnet_sender u dv a tn p = NewHTTPWebhookSender u dv [WithAllowlist a, WithTailnet (Some tn), WithTailnetPolicy p]"

lemma tailnet_sender_fields:
  assumes "env_ok he dv tn"
  shows "s_policy (tailnet_sender (he_unicode he) dv a tn p) = p" "s_suffix (tailnet_sender (he_unicode he) dv a tn p) = tn_Suffix tn"
    "s_dial (tailnet_sender (he_unicode he) dv a tn p) = RoutedDialContext (he_unicode he) (guardedDial (he_unicode he) dv a) (Some tn)"
  using assms by (simp_all add: tailnet_sender_def NewHTTPWebhookSender_def WithAllowlist_def WithTailnet_def WithTailnetPolicy_def
      zero_options_def Let_def env_ok_def)

text \<open>Where a hop went: over the tailnet exactly when its host is relative to the suffix.\<close>

definition tailnet_rel :: "http_env \<Rightarrow> Tailnet \<Rightarrow> URL \<Rightarrow> string \<times> bool" where
  "tailnet_rel he tn url = TailnetRelativeHost (he_unicode he) (he_parseAddr he) (he_toASCII he) (u_Hostname url) (tn_Suffix tn)"

lemma routed_cases:
  assumes "env_ok he dv tn" "splits he dv tn url"
    and "RoutedDialContext (he_unicode he) public (Some tn) (dial_addr he url) = (route, r, dialled)"
  shows "route = (if tailnetHost (he_unicode he) (he_parseAddr he) (dial_host he url) (tn_Suffix tn) then ViaTailnet else Public)"
    "route = ViaTailnet \<Longrightarrow> tailnetDial (tn_env tn) (tn_SelfAddrs tn) (dial_addr he url) = (r, dialled)"
    "route = Public \<Longrightarrow> public (dial_addr he url) = (r, dialled)"
  using assms by (auto simp: RoutedDialContext_def env_ok_def splits_def Let_def split: if_splits)

lemma allowed_tailnet_host:
  assumes "env_ok he dv tn" "tailnetHost (he_unicode he) (he_parseAddr he) (dial_host he url) (tn_Suffix tn)"
    and "Check (he_unicode he) (he_parseAddr he) (he_toASCII he) p ns (u_Hostname url) (tn_Suffix tn) = None"
  shows "\<exists>rel. tailnet_rel he tn url = (rel, True)"
proof -
  have sfx: "normal_suffix (he_unicode he) (tn_Suffix tn) = tn_Suffix tn" "tn_Suffix tn \<noteq> ''''"
    using assms(1) by (simp_all add: env_ok_def)
  have "(if isASCII (u_Hostname url) then Some (u_Hostname url) else he_toASCII he (u_Hostname url)) = Some (dial_host he url)"
    using assms(3) sfx by (cases "isASCII (u_Hostname url)") (auto simp: Check_def dial_host_def Let_def split: option.splits)
  then show ?thesis using assms(2) sfx by (auto simp: tailnet_rel_def TailnetRelativeHost_def relativeTailnetHost_def Let_def)
qed

text \<open>What is promised of one hop of a request from a namespace.\<close>

definition hop_confined :: "http_env \<Rightarrow> dial_env \<Rightarrow> Allowlist \<Rightarrow> Tailnet \<Rightarrow> TailnetPolicy option \<Rightarrow> string \<Rightarrow> hop \<Rightarrow> bool" where
  "hop_confined he dv a tn p ns h \<longleftrightarrow>
     (let (rel, isTailnet) = tailnet_rel he tn (hop_URL h)
      in (isTailnet \<longrightarrow> CHR ''.'' \<notin> set rel \<and> (fst (Hosts p ns) \<or> rel \<in> set (snd (Hosts p ns))))
       \<and> (case hop_dial h of
            None \<Rightarrow> True
          | Some (ViaTailnet, _, dialled) \<Rightarrow>
              isTailnet \<and> (\<forall>d \<in> set dialled. tailnet_node d \<and> d \<notin> Unmap ` set (tn_SelfAddrs tn))
          | Some (Public, _, dialled) \<Rightarrow>
              (\<forall>d \<in> set dialled. acceptable (dv_parseAddr dv (dial_host he (hop_URL h)) = None
                 \<and> Matches (he_unicode he) (dv_parseAddr dv) a (dial_host he (hop_URL h))) d)))"

lemma hop_confinedI:
  assumes ok: "env_ok he dv tn" and s: "s = tailnet_sender (he_unicode he) dv a tn p"
    and h: "hop_allowed he s ns h" "hop_dialled he s h" and url: "splits he dv tn (hop_URL h)"
  shows "hop_confined he dv a tn p ns h"
proof -
  let ?u = "he_unicode he" and ?url = "hop_URL h"
  obtain rel t where rel: "tailnet_rel he tn ?url = (rel, t)" by fastforce
  have chk: "Check ?u (he_parseAddr he) (he_toASCII he) p ns (u_Hostname ?url) (tn_Suffix tn) = None"
    using h(1) ok by (simp add: hop_allowed_def checkTailnet_def s tailnet_sender_fields env_ok_def)
  have ascii: "\<forall>h a. he_toASCII he h = Some a \<longrightarrow> isASCII a" using ok by (simp add: env_ok_def)
  have listed: "CHR ''.'' \<notin> set rel \<and> (fst (Hosts p ns) \<or> rel \<in> set (snd (Hosts p ns)))" if t
    using Check_listing [OF ascii rel [unfolded tailnet_rel_def, simplified that], where p = p and ns = ns] chk
    by (simp split: if_splits)
  show ?thesis
  proof (cases "hop_dial h")
    case None
    then show ?thesis using rel listed by (simp add: hop_confined_def)
  next
    case (Some d)
    then obtain route r dialled where d: "hop_dial h = Some (route, r, dialled)" by (cases d) auto
    have run: "RoutedDialContext ?u (guardedDial ?u dv a) (Some tn) (dial_addr he ?url) = (route, r, dialled)"
      using h(2) d by (simp add: hop_dialled_def s tailnet_sender_fields [OF ok])
    note cases = routed_cases [OF ok url run]
    have split: "dv_split dv (dial_addr he ?url) = Inr (dial_host he ?url, he_port he ?url)"
      using url by (simp add: splits_def)
    show ?thesis
    proof (cases route)
      case Public
      then show ?thesis using guardedDial_acceptable [OF cases(3) split] rel listed d by (simp add: hop_confined_def)
    next
      case ViaTailnet
      then have t using allowed_tailnet_host [OF ok _ chk] cases(1) rel by (auto split: if_splits)
      then show ?thesis using tailnetDial_nodes [OF cases(2) [OF ViaTailnet]] rel listed d ViaTailnet by (simp add: hop_confined_def)
    qed
  qed
qed


text \<open>A server under the tailnet that redirects to another host of the tailnet which the namespace is not allowed; the first connection is
  taken from the pool.\<close>

definition sample_url :: "string \<Rightarrow> URL" where
  "sample_url h = \<lparr>u_Scheme = ''http'', u_Host = h, u_Hostname = h\<rparr>"

definition sample_http :: http_env where
  "sample_http = \<lparr>he_unicode = sample_unicode, he_parseAddr = (\<lambda>s. None), he_toASCII = (\<lambda>s. None), he_parseURL = (\<lambda>s. Inr (sample_url s)),
     he_showURL = u_Host, he_joinHostPort = (\<lambda>h p. p @ '':'' @ h), he_port = (\<lambda>u. ''80''), he_alive = (\<lambda>n. True),
     he_reply = (\<lambda>n u. Inr (Redirect 302 (sample_url ''db.tail.ts.net''))), he_marshal = (\<lambda>p. Inr (wp_JobID p)),
     he_hmac = (\<lambda>k m. [])\<rparr>"

definition sample_split :: "string \<Rightarrow> (string \<times> string) result" where
  "sample_split s = (case Cut (CHR '':'') s of (p, h, True) \<Rightarrow> Inr (h, p) | _ \<Rightarrow> Inl (ErrorMsg ''missing port in address''))"

definition sample_request :: WebhookRequest where
  "sample_request = \<lparr>wr_URL = ''svc.tail.ts.net'', wr_Secret = ''s'', wr_Timeout = 0,
     wr_Payload = \<lparr>wp_JobID = ''j'', wp_JobName = ''n'', wp_ExecutionID = ''e'', wp_ScheduledAt = ''t'', wp_FiredAt = ''t''\<rparr>,
     wr_AttemptID = ''a'', wr_Namespace = ''billing''\<rparr>"

definition sample_policy :: "TailnetPolicy option" where
  "sample_policy = Some \<lparr>byNamespace = [(''billing'', \<lparr>hs_all = False, hs_names = [''svc'']\<rparr>)]\<rparr>"

definition sample_dv :: dial_env where
  "sample_dv = sample_dial\<lparr>dv_split := sample_split\<rparr>"

definition sample_net :: Tailnet where
  "sample_net = sample_tailnet\<lparr>tn_env := sample_dv\<rparr>"

definition sample_send :: "WebhookResult \<times> http_request option \<times> hop list \<times> string list" where
  "sample_send = Send sample_http (tailnet_sender (he_unicode sample_http) sample_dv \<lparr>al_suffixes = [], al_exact = []\<rparr> sample_net sample_policy)
     1 sample_request [''80:svc.tail.ts.net'']"

lemma sample_send_hops: "fst (snd (snd sample_send)) = [\<lparr>hop_URL = sample_url ''svc.tail.ts.net'', hop_dial = None\<rparr>]"
  by code_simp

lemma sample_env_ok: "env_ok sample_http sample_dv sample_net"
proof -
  have "normal_suffix sample_unicode ''tail.ts.net'' = ''tail.ts.net''" by code_simp
  then show ?thesis by (simp add: env_ok_def sample_http_def sample_dv_def sample_net_def sample_tailnet_def sample_dial_def)
qed

lemma sample_splits: "splits sample_http sample_dv sample_net (sample_url ''svc.tail.ts.net'')"
proof -
  have "dial_addr sample_http (sample_url ''svc.tail.ts.net'') = ''80:svc.tail.ts.net''" by code_simp
  moreover have "dial_host sample_http (sample_url ''svc.tail.ts.net'') = ''svc.tail.ts.net''" by code_simp
  moreover have "sample_split ''80:svc.tail.ts.net'' = Inr (''svc.tail.ts.net'', ''80'')" by code_simp
  ultimately show ?thesis by (simp add: splits_def sample_dv_def sample_net_def sample_http_def)
qed


lemma signature_verifies_witness:
  "\<exists>hreq. fst (snd sample_send) = Some hreq \<and> (\<exists>sig. map_of (hr_Header hreq) ''X-CronLite-Signature'' = Some sig
     \<and> VerifySignature (he_hmac sample_http) ''s'' (hr_Body hreq) sig)"
proof -
  have "fst (snd sample_send) \<noteq> None" by code_simp
  then obtain res hreq hops pool' where r: "sample_send = (res, Some hreq, hops, pool')" by (metis prod_cases4 fst_conv snd_conv not_None_eq)
  have "wr_Secret sample_request = ''s''" by (simp add: sample_request_def)
  with signature_verifies [OF r [unfolded sample_send_def]] show ?thesis unfolding r by auto
qed

end
