(* ===== verification/Lifecycle.thy ===== *)
theory Lifecycle
  imports ClaimProtocol
begin

text \<open>
  What the store promises its workers about one execution, without tables and statements: an
  execution waits, is held by one claim until a time, or is closed. The theory states that
  lifecycle as a small transition relation, one rule per kind of event, maps the rows of the
  executions table to it, and shows that the store implements it: every state-changing method, with
  every clock, set of locked rows and fault, takes each execution through at most the event of its
  own kind. What is proved of the lifecycle then holds of every history of the store.
\<close>

section \<open>Simulation\<close>

text \<open>The states an abstract machine may go through for a list of labels.\<close>

inductive trace :: "('l \<Rightarrow> 'a \<Rightarrow> 'a \<Rightarrow> bool) \<Rightarrow> 'l list \<Rightarrow> 'a \<Rightarrow> 'a \<Rightarrow> bool" for may where
  stop: "trace may [] x x"
| more: "may l x y \<Longrightarrow> trace may ls y z \<Longrightarrow> trace may (l # ls) x z"

text \<open>
  A machine implements an abstract one when every step, seen through the abstraction, is one the
  abstract machine may take for the step's label. Every run is then an abstract run, and what holds
  along abstract runs holds along the machine's.
\<close>

locale simulation = step_machine step inv
  for step :: "'e \<Rightarrow> 's \<Rightarrow> 's" and inv +
  fixes label :: "'e \<Rightarrow> 'l"
    and abstraction :: "'s \<Rightarrow> 'a"
    and may :: "'l \<Rightarrow> 'a \<Rightarrow> 'a \<Rightarrow> bool"
  assumes step_sim: "inv s \<Longrightarrow> may (label e) (abstraction s) (abstraction (step e s))"
begin

lemma run_sim: "inv s \<Longrightarrow> trace may (map label es) (abstraction s) (abstraction (fold step es s))"
  by (induction es arbitrary: s) (auto intro: trace.intros step_sim step_inv)

lemma run_keeps:
  assumes "inv s" "P (abstraction s)"
    and keeps: "\<And>l x y. l \<in> label ` set es \<Longrightarrow> may l x y \<Longrightarrow> P x \<Longrightarrow> P y"
  shows "P (abstraction (fold step es s))"
proof -
  have "trace may ls x y \<Longrightarrow> set ls \<subseteq> label ` set es \<Longrightarrow> P x \<Longrightarrow> P y" for ls x y
  proof (induction rule: trace.induct)
    case (more l x y ls z)
    then show ?case using keeps [of l x y] by simp
  qed
  from this [OF run_sim [OF assms(1)]] assms(2) show ?thesis by auto
qed

end

section \<open>The lifecycle\<close>

text \<open>
  Claims are numbered; \<open>Waiting g\<close> is waiting to be claimed for the time after claim \<open>g\<close>. Before
  the first claim the status may also be written directly (\<open>Unclaimed\<close>): the path of executions
  from before claims existed.
\<close>

datatype life = Waiting int | Held int time | Unclaimed ExecutionStatus | Closed ExecutionStatus

definition direct :: "ExecutionStatus \<Rightarrow> life" where
  "direct st = (if terminal st then Closed st else if st = Emitted then Waiting 0 else Unclaimed st)"

datatype life_event =
    Submit ExecutionStatus | Write ExecutionStatus | Claim | Renew int | Finish int ExecutionStatus | Expire | Drop
  | NoEvent

inductive life_step :: "time \<Rightarrow> life_event \<Rightarrow> life option \<Rightarrow> life option \<Rightarrow> bool" where
  submit: "life_step t (Submit st) None (Some (direct st))"
| write_waiting: "life_step t (Write st) (Some (Waiting 0)) (Some (direct st))"
| write_unclaimed: "life_step t (Write st) (Some (Unclaimed s)) (Some (direct st))"
| claim: "life_step t Claim (Some (Waiting g)) (Some (Held (g + 1) l))"
| renew: "t < l \<Longrightarrow> life_step t (Renew g) (Some (Held g l)) (Some (Held g l'))"
| finish: "t < l \<Longrightarrow> terminal st \<Longrightarrow> life_step t (Finish g st) (Some (Held g l)) (Some (Closed st))"
| expire: "l \<le> t \<Longrightarrow> life_step t Expire (Some (Held g l)) (Some (Waiting g))"
| adopt: "life_step t Expire (Some (Unclaimed InProgress)) (Some (Waiting 1))"
| drop: "life_step t Drop (Some x) None"

inductive_simps life_step_simps:
  "life_step t (Submit st) x y" "life_step t (Write st) x y" "life_step t Claim x y" "life_step t (Renew g) x y"
  "life_step t (Finish g st) x y" "life_step t Expire x y" "life_step t Drop x y" "life_step t NoEvent x y"

text \<open>At each event an execution takes the step of that event or stays as it is.\<close>

fun life_may :: "time \<times> life_event \<Rightarrow> life option \<Rightarrow> life option \<Rightarrow> bool" where
  "life_may (t, ev) x y \<longleftrightarrow> x = y \<or> life_step t ev x y"

declare life_may.simps [simp del]
lemmas life_may_iff = life_may.simps

lemma life_may_refl [simp]: "life_may l x x"
  by (cases l) (simp add: life_may_iff)

section \<open>Laws of the lifecycle\<close>

text \<open>A closed execution stays closed with the same status, unless it is dropped.\<close>

lemma life_may_closed:
  "life_may (t, ev) (Some (Closed st)) y \<Longrightarrow> ev \<noteq> Drop \<Longrightarrow> y = Some (Closed st)"
  by (auto simp: life_may_iff elim: life_step.cases)

text \<open>
  Until its time has come a claim that is not renewed is kept: the execution is held by it, to that
  time, or closed.
\<close>

definition held_or_closed :: "int \<Rightarrow> time \<Rightarrow> life option \<Rightarrow> bool" where
  "held_or_closed g l x \<longleftrightarrow> x = Some (Held g l) \<or> (\<exists>st. x = Some (Closed st))"

lemma life_may_held:
  assumes "life_may (t, ev) x y" "held_or_closed g l x" "t < l" "ev \<noteq> Drop" "ev \<noteq> Renew g"
  shows "held_or_closed g l y"
  using assms(1) unfolding life_may_iff
proof
  assume "life_step t ev x y"
  then show ?thesis using assms(2-) by cases (auto simp: held_or_closed_def)
qed (use assms(2) in simp)

section \<open>Lifecycles of rows\<close>

definition life_of_row :: "Execution \<Rightarrow> life" where
  "life_of_row e = (if ex_ClaimGeneration e = 0 then direct (ex_Status e)
     else if terminal (ex_Status e) then Closed (ex_Status e)
     else case ex_LeaseUntil e of Some l \<Rightarrow> Held (ex_ClaimGeneration e) l | None \<Rightarrow> Waiting (ex_ClaimGeneration e))"

definition life :: "uuid \<Rightarrow> db \<Rightarrow> life option" where
  "life i db = map_option life_of_row (select_row (\<lambda>e. ex_ID e = i) (t_executions db))"

lemmas life_row_defs = life_of_row_def direct_def exec_ok_def

lemma life_same: "t_executions db' = t_executions db \<Longrightarrow> life i db' = life i db"
  by (simp add: life_def)

lemma select_row_upd:
  assumes "\<And>r. P r \<Longrightarrow> Q (f r) = Q r"
  shows "select_row Q (upd_where P f rows) = map_option (\<lambda>r. if P r then f r else r) (select_row Q rows)"
  using assms by (induction rows) (auto simp: select_row_def)

text \<open>An update whose every changed row takes the step is a step of the lifecycle.\<close>

lemma life_may_upd:
  assumes "t_executions db' = upd_where P f (t_executions db)"
    and "\<And>e. P e \<Longrightarrow> ex_ID (f e) = ex_ID e"
    and "\<And>e. e \<in> set (t_executions db) \<Longrightarrow> P e
      \<Longrightarrow> life_may (t, ev) (Some (life_of_row e)) (Some (life_of_row (f e)))"
  shows "life_may (t, ev) (life i db) (life i db')"
proof (cases "select_row (\<lambda>e. ex_ID e = i) (t_executions db)")
  case (Some e)
  then have "e \<in> set (t_executions db)" by (auto dest: select_row_SomeD)
  then show ?thesis
    using assms(3) [of e] Some
    by (simp add: life_def assms(1,2) select_row_upd)
qed (simp add: life_def assms(1,2) select_row_upd life_may_iff)

lemma ex_ID_claim_row [simp]: "ex_ID (claim_row clk ms e) = ex_ID e"
  by (simp add: claim_row_def)

lemma life_claim_row:
  "exec_ok e \<Longrightarrow> ex_Status e = Emitted \<Longrightarrow> life_may (t, Claim) (Some (life_of_row e)) (Some (life_of_row (claim_row clk ms e)))"
  by (auto simp: life_may_iff life_step_simps life_row_defs claim_row_def split: option.split)

lemma life_requeue_row:
  "exec_ok e \<Longrightarrow> stale_row clk e \<Longrightarrow> life_may (clk, Expire) (Some (life_of_row e)) (Some (life_of_row (requeue_row e)))"
  by (auto simp: life_may_iff life_step_simps life_row_defs requeue_row_def stale_row_def max_def split: option.splits)

section \<open>The statements implement the events\<close>

lemma life_append:
  "life i (db\<lparr>t_executions := t_executions db @ [e]\<rparr>) =
     (case life i db of None \<Rightarrow> (if ex_ID e = i then Some (life_of_row e) else None) | Some x \<Rightarrow> Some x)"
proof -
  have "find P (xs @ [y]) = (case find P xs of None \<Rightarrow> (if P y then Some y else None) | Some z \<Rightarrow> Some z)" for P xs and y :: Execution
    by (induction xs) auto
  then show ?thesis by (simp add: life_def select_row_def split: option.split)
qed

lemma queryInsertExecution_life:
  "life_may (t, (Submit (ex_Status e))) (life i db) (life i (snd (queryInsertExecution e db)))"
  by (auto simp: queryInsertExecution_def life_may_iff life_append life_step_simps life_of_row_def execution_row_def
      split: option.split)

lemma queryAckExecution_life: "life i (snd (queryAckExecution clk j ns db)) = life i db"
proof -
  have "life_may (clk, NoEvent) (life i db) (life i (snd (queryAckExecution clk j ns db)))"
    unfolding queryAckExecution_def Let_def snd_conv
    by (rule life_may_upd, simp) (auto simp: life_may_iff life_of_row_def)
  then show ?thesis by (auto simp: life_may_iff life_step_simps)
qed

lemma queryUpdateExecutionStatus_life:
  "life_may (t, (Write st)) (life i db) (life i (snd (queryUpdateExecutionStatus st j db)))"
  unfolding queryUpdateExecutionStatus_def Let_def snd_conv
  by (rule life_may_upd, simp) (auto simp: life_may_iff life_of_row_def direct_def life_step_simps)

lemma queryDequeueExecution_life:
  assumes ok: "db_ok db"
  shows "life_may (t, Claim) (life i db) (life i (snd (queryDequeueExecution l clk ms db)))"
proof (cases "order_limit ex_CreatedAt 1 (filter (\<lambda>e. ex_Status e = Emitted \<and> ex_ID e \<notin> l) (t_executions db))")
  case (Cons n ns)
  then have n: "n \<in> set (t_executions db)" "ex_Status n = Emitted"
    using in_order_limit [of n] by (metis (lifting) list.set_intros(1))+
  have "life_may (t, Claim) (Some (life_of_row e)) (Some (life_of_row (claim_row clk ms e)))"
    if "e \<in> set (t_executions db)" "ex_ID e = ex_ID n" for e
    using execution_by_id [OF ok that(1) n(1) that(2)] row_exec_ok [OF ok n(1)] n(2) by (simp add: life_claim_row)
  then show ?thesis
    by (intro life_may_upd [where P = "\<lambda>e. ex_ID e = ex_ID n" and f = "claim_row clk ms"])
      (simp_all add: queryDequeueExecution_def Cons claim_row_def)
qed (simp add: queryDequeueExecution_def)

lemma queryDequeueExecutions_life:
  "db_ok db \<Longrightarrow> life_may (t, Claim) (life i db) (life i (snd (queryDequeueExecutions l clk n ms db)))"
  unfolding queryDequeueExecutions_def Let_def snd_conv
  by (rule life_may_upd, simp) (auto dest: row_exec_ok picked_by_id intro!: life_claim_row)

lemma queryClaimExecution_life:
  "db_ok db \<Longrightarrow> life_may (t, Claim) (life i db) (life i (snd (queryClaimExecution clk j ns ms db)))"
  unfolding queryClaimExecution_def Let_def snd_conv
  by (rule life_may_upd, simp) (auto dest: row_exec_ok simp: life_claim_row)

lemma queryRenewExecutionClaim_life:
  "db_ok db \<Longrightarrow> life_may (clk, (Renew g)) (life i db) (life i (snd (queryRenewExecutionClaim clk j ns g ms db)))"
  unfolding queryRenewExecutionClaim_def Let_def snd_conv
  by (rule life_may_upd, simp)
    (auto dest!: row_exec_ok simp: life_may_iff life_row_defs owned_row_def life_step_simps split: option.splits)

lemma queryCompleteExecution_life:
  "db_ok db \<Longrightarrow> terminal st
   \<Longrightarrow> life_may (clk, (Finish g st)) (life i db) (life i (snd (queryCompleteExecution clk j ns g st db)))"
  unfolding queryCompleteExecution_def Let_def snd_conv
  by (rule life_may_upd, simp)
    (auto dest!: row_exec_ok simp: life_may_iff life_row_defs owned_row_def life_step_simps split: option.splits)

lemma queryRequeueStaleExecutions_life:
  assumes ok: "db_ok db"
  shows "life_may (clk, Expire) (life i db) (life i (snd (queryRequeueStaleExecutions l clk n db)))"
proof -
  let ?stale = "order_limit (\<lambda>e. (ex_LeaseUntil e, ex_ID e)) n
    (filter (\<lambda>e. stale_row clk e \<and> ex_ID e \<notin> l) (t_executions db))"
  have "life_may (clk, Expire) (Some (life_of_row e)) (Some (life_of_row (requeue_row e)))"
    if "e \<in> set (t_executions db)" "ex_ID e \<in> ex_ID ` set ?stale" for e
    using picked_by_id [OF ok that] row_exec_ok [OF ok that(1)] by (simp add: life_requeue_row)
  then show ?thesis
    unfolding queryRequeueStaleExecutions_def Let_def snd_conv
    by (intro life_may_upd, simp) (simp_all add: requeue_row_def)
qed


lemma queryDeleteJob_life:
  assumes "db_ok db"
  shows "life_may (t, Drop) (life i db) (life i (snd (queryDeleteJob j ns db)))"
proof (cases "life i (snd (queryDeleteJob j ns db))")
  case (Some x)
  then obtain e where e: "select_row (\<lambda>e. ex_ID e = i) (t_executions (snd (queryDeleteJob j ns db))) = Some e"
    "x = life_of_row e"
    by (auto simp: life_def)
  have sub: "set (t_executions (snd (queryDeleteJob j ns db))) \<subseteq> set (t_executions db)"
    by (simp add: queryDeleteJob_def Let_def)
  from select_row_SomeD [OF e(1)] sub have mem: "e \<in> set (t_executions db)" "ex_ID e = i" by auto
  from select_row_ex [OF mem(1), of "\<lambda>e. ex_ID e = i"] mem(2)
  obtain e' where e': "select_row (\<lambda>e. ex_ID e = i) (t_executions db) = Some e'" by auto
  from select_row_SomeD [OF e'] have "e' = e" using mem execution_by_id [OF assms(1), of e' e] by simp
  then show ?thesis using Some e e' by (simp add: life_def)
next
  case None
  then show ?thesis by (cases "life i db") (auto simp: life_may_iff life_step_simps)
qed

lemmas query_life = queryInsertExecution_life queryAckExecution_life queryUpdateExecutionStatus_life
  queryDequeueExecution_life queryDequeueExecutions_life queryClaimExecution_life queryRenewExecutionClaim_life
  queryRequeueStaleExecutions_life queryDeleteJob_life

section \<open>The store implements the lifecycle\<close>

fun op_event :: "store_op \<Rightarrow> life_event" where
  "op_event (OpInsertExecution e) = Submit (ex_Status e)"
| "op_event (OpUpdateExecutionStatus f i st) = Write st"
| "op_event (OpDequeueExecution s) = Claim"
| "op_event (OpDequeueExecutions s n) = Claim"
| "op_event (OpClaimExecution s i ns) = Claim"
| "op_event (OpRenewExecutionClaim s e) = Renew (ex_ClaimGeneration e)"
| "op_event (OpCompleteExecution e st) = Finish (ex_ClaimGeneration e) st"
| "op_event (OpRequeueExpiredExecutions n) = Expire"
| "op_event (OpDeleteJob i ns) = Drop"
| "op_event _ = NoEvent"

definition life_label :: "dbenv \<times> store_op \<Rightarrow> time \<times> life_event" where
  "life_label x = (de_clk (fst x), op_event (snd x))"

lemma CompleteExecution_life:
  "db_ok db \<Longrightarrow> life_may (de_clk ev, Finish (ex_ClaimGeneration e) st) (life i db) (life i (snd (CompleteExecution ev e st db)))"
  by (auto simp: CompleteExecution_def run_stmt_def ok_stmt_def queryCompleteExecution_life split: fault.split)

lemma DequeueExecutions_life:
  "db_ok db \<Longrightarrow> life_may (t, Claim) (life i db) (life i (snd (DequeueExecutions s ev n db)))"
  by (simp add: DequeueExecutions_def run_stmt_def ok_stmt_def query_life split: fault.split)

lemma exec_op_life:
  "db_ok db \<Longrightarrow> life_may (de_clk ev, op_event op) (life i db) (life i (exec_op (ev, op) db))"
  by (cases op) (simp_all add: method_frames [THEN life_same] query_frames [THEN life_same] method_defs snd_SetJobEnabled
      run_stmt_def ok_stmt_def query_life CompleteExecution_life DequeueExecutions_life split: fault.split)

interpretation lifecycle: simulation exec_op db_ok life_label "life i" life_may for i
  by unfold_locales (auto simp: life_label_def intro: exec_op_life)

text \<open>
  C10: The store implements the lifecycle. Along every history of store operations, with every clock,
  set of locked rows and database fault, each execution goes through a run of the abstract
  lifecycle in which an operation takes it through the event of its own kind at the operation's
  database clock, or leaves it alone.
\<close>

theorem store_refines_lifecycle:
  "trace life_may (map life_label ops') (life i (fold exec_op ops empty_db)) (life i (fold exec_op (ops @ ops') empty_db))"
  using lifecycle.run_sim [OF store.run_inv [OF db_ok_empty]] by (simp add: life_def)

text \<open>
  A claim is exclusive until it expires. Whatever history the store has been through, once an
  execution is held by claim \<open>g\<close> until \<open>l\<close>, then after any operations of any workers with database
  clocks before \<open>l\<close>, other than renewals by claim \<open>g\<close> itself and deletions of jobs, it is still held by
  the same claim until the same time, or closed.
\<close>

theorem unexpired_claim_kept:
  assumes "life i (fold exec_op ops empty_db) = Some (Held g l)"
    and "\<forall>x \<in> set ops'. de_clk (fst x) < l \<and> op_event (snd x) \<noteq> Drop \<and> op_event (snd x) \<noteq> Renew g"
  shows "held_or_closed g l (life i (fold exec_op (ops @ ops') empty_db))"
proof -
  have "held_or_closed g l (life i (fold exec_op ops' (fold exec_op ops empty_db)))"
  proof (rule lifecycle.run_keeps)
    show "held_or_closed g l y" if "lab \<in> life_label ` set ops'" "life_may lab x y" "held_or_closed g l x" for lab x y
      using that assms(2) by (auto simp: life_label_def dest: life_may_held)
  qed (use assms(1) in \<open>simp_all add: store.run_inv db_ok_empty held_or_closed_def\<close>)
  then show ?thesis by simp
qed

lemma sample_life: "life 4 (fold exec_op sample_history empty_db) = Some (Held 1 (200 + 120000 * Millisecond))"
  by (simp add: life_def select_row_def sample_history_rows life_of_row_def claim_row_def sample_pending_def
    sample_execution_def)

theorem unexpired_claim_kept_witness:
  "held_or_closed 1 (200 + 120000 * Millisecond)
     (life 4 (fold exec_op (sample_history @ [(calm 300, OpRequeueExpiredExecutions 10),
        (calm 400, OpDequeueExecution (Store_New 0))]) empty_db))"
  by (rule unexpired_claim_kept [OF sample_life]) (simp_all add: calm_def)

end
