(* ===== verification/NaturalLanguage.thy ===== *)
theory NaturalLanguage
  imports Domain GoText
begin

text \<open>
  Schedules in words (\<open>parseNaturalLanguage\<close> and \<open>parseTime\<close> of \<^verbatim>\<open>internal/service/jobs.go\<close>). Each regular
  expression is a matcher that reads its parts in order; none of the expressions needs backtracking,
  because a repeated class is never followed by a byte of the same class.
\<close>

section \<open>Matching\<close>

definition lit :: "string \<Rightarrow> string \<Rightarrow> string option" where
  "lit p s = (if HasPrefix s p then Some (drop (length p) s) else None)"

text \<open>\<open>\\s+\<close>, \<open>\\s*\<close>, \<open>\\d+\<close> and \<open>\\d{1,2}\<close>.\<close>

definition spaces :: "string \<Rightarrow> string option" where
  "spaces s = (if s \<noteq> [] \<and> is_re_space (hd s) then Some (dropWhile is_re_space s) else None)"

definition digits :: "string \<Rightarrow> (string \<times> string) option" where
  "digits s = (if s \<noteq> [] \<and> is_digit (hd s) then Some (takeWhile is_digit s, dropWhile is_digit s) else None)"

definition one_two_digits :: "string \<Rightarrow> (string \<times> string) option" where
  "one_two_digits s =
     (case s of
        a # b # rest \<Rightarrow> if is_digit a \<and> is_digit b then Some ([a, b], rest) else if is_digit a then Some ([a], b # rest) else None
      | [a] \<Rightarrow> if is_digit a then Some ([a], []) else None
      | [] \<Rightarrow> None)"

text \<open>\<open>(?::(\\d{2}))?\<close>: without the group the submatch is empty.\<close>

definition colon_minutes :: "string \<Rightarrow> string \<times> string" where
  "colon_minutes s =
     (case s of
        c # a # b # rest \<Rightarrow> if c = CHR '':'' \<and> is_digit a \<and> is_digit b then ([a, b], rest) else ('''', s)
      | _ \<Rightarrow> ('''', s))"

definition am_pm :: "string \<Rightarrow> string option" where
  "am_pm s = (let s = dropWhile is_re_space s in if s = '''' \<or> s = ''am'' \<or> s = ''pm'' then Some s else None)"

text \<open>\<open>(\\d{1,2})(?::(\\d{2}))?\\s*(am|pm)?$\<close>\<close>

definition match_time :: "string \<Rightarrow> (string \<times> string \<times> string) option" where
  "match_time s =
     (case one_two_digits s of
        None \<Rightarrow> None
      | Some (h, s) \<Rightarrow> (case colon_minutes s of (m, s) \<Rightarrow> (case am_pm s of None \<Rightarrow> None | Some ap \<Rightarrow> Some (h, m, ap))))"

text \<open>The words of an expression with white space after each.\<close>

fun words :: "string list \<Rightarrow> string \<Rightarrow> string option" where
  "words [] s = Some s"
| "words (w # ws) s = (case lit w s of None \<Rightarrow> None | Some s \<Rightarrow> (case spaces s of None \<Rightarrow> None | Some s \<Rightarrow> words ws s))"

definition everyN :: "string \<Rightarrow> string \<Rightarrow> string option" where
  "everyN unit s =
     (case words [''every''] s of
        None \<Rightarrow> None
      | Some s \<Rightarrow>
          (case digits s of
             None \<Rightarrow> None
           | Some (n, s) \<Rightarrow> (case spaces s of None \<Rightarrow> None | Some s \<Rightarrow> if s = unit \<or> s = unit @ ''s'' then Some n else None)))"

definition reEveryNMinutes :: "string \<Rightarrow> string option" where
  "reEveryNMinutes = everyN ''minute''"

definition reEveryNHours :: "string \<Rightarrow> string option" where
  "reEveryNHours = everyN ''hour''"

definition reEveryHour :: "string \<Rightarrow> bool" where
  "reEveryHour s \<longleftrightarrow> words [''every''] s = Some ''hour''"

definition reHourly :: "string \<Rightarrow> bool" where
  "reHourly s \<longleftrightarrow> s = ''hourly''"

definition reDailyAt :: "string \<Rightarrow> (string \<times> string \<times> string) option" where
  "reDailyAt s =
     (case words [''every'', ''day'', ''at''] s of
        Some s \<Rightarrow> match_time s
      | None \<Rightarrow> (case words [''daily'', ''at''] s of Some s \<Rightarrow> match_time s | None \<Rightarrow> None))"

definition reEveryWeekdayAt :: "string \<Rightarrow> (string \<times> string \<times> string) option" where
  "reEveryWeekdayAt s = (case words [''every'', ''weekday'', ''at''] s of Some s \<Rightarrow> match_time s | None \<Rightarrow> None)"

definition days :: "string list" where
  "days = [''monday'', ''tuesday'', ''wednesday'', ''thursday'', ''friday'', ''saturday'', ''sunday'']"

fun first_day :: "string list \<Rightarrow> string \<Rightarrow> (string \<times> string \<times> string \<times> string) option" where
  "first_day [] s = None"
| "first_day (d # ds) s =
     (case words [''every'', d, ''at''] s of
        Some s \<Rightarrow> (case match_time s of None \<Rightarrow> None | Some t \<Rightarrow> Some (d, t))
      | None \<Rightarrow> first_day ds s)"

definition reDayOfWeekAt :: "string \<Rightarrow> (string \<times> string \<times> string \<times> string) option" where
  "reDayOfWeekAt s = first_day days s"

definition dayMap :: "(string \<times> nat) list" where
  "dayMap = [(''sunday'', 0), (''monday'', 1), (''tuesday'', 2), (''wednesday'', 3), (''thursday'', 4), (''friday'', 5),
     (''saturday'', 6)]"

section \<open>Parsing\<close>

text \<open>\<open>Atoi\<close> of the submatches, which are digits or empty. The hour is -1 on error.\<close>

definition Atoi :: "string \<Rightarrow> int option" where
  "Atoi s = (if s \<noteq> '''' \<and> (\<forall>c \<in> set s. is_digit c) then Some (int (read_decimal s)) else None)"

definition parseTime :: "string \<Rightarrow> string \<Rightarrow> string \<Rightarrow> int \<times> int" where
  "parseTime hourStr minuteStr ampm =
     (case Atoi hourStr of
        None \<Rightarrow> (-1, 0)
      | Some hour \<Rightarrow>
          (case (if minuteStr \<noteq> '''' then Atoi minuteStr else Some 0) of
             None \<Rightarrow> (-1, 0)
           | Some minute \<Rightarrow>
               (let hour = (if ampm = ''pm'' \<and> hour \<noteq> 12 then hour + 12 else hour);
                    hour = (if ampm = ''am'' \<and> hour = 12 then 0 else hour)
                in if hour < 0 \<or> hour > 23 \<or> minute < 0 \<or> minute > 59 then (-1, 0) else (hour, minute))))"

definition at_time :: "string \<times> string \<times> string \<Rightarrow> (nat \<Rightarrow> nat \<Rightarrow> string \<times> string) \<Rightarrow> (string \<times> string) result" where
  "at_time t k =
     (case t of (h, m, ap) \<Rightarrow>
        (case parseTime h m ap of (hour, minute) \<Rightarrow>
           if hour < 0 then Inl ErrScheduleParseFailure else Inr (k (nat hour) (nat minute))))"

definition parseNaturalLanguage :: "unicode \<Rightarrow> string \<Rightarrow> (string \<times> string) result" where
  "parseNaturalLanguage u input =
     (let lower = ToLower u (TrimSpace u input)
      in case reEveryNMinutes lower of
           Some m \<Rightarrow>
             (let n = read_decimal m
              in if n < 1 \<or> n > 59 then Inl ErrScheduleParseFailure
                 else Inr (''*/'' @ decimal n @ '' * * * *'', ''every '' @ decimal n @ '' minutes''))
         | None \<Rightarrow>
      (case reEveryNHours lower of
           Some m \<Rightarrow>
             (let n = read_decimal m
              in if n < 1 \<or> n > 23 then Inl ErrScheduleParseFailure
                 else Inr (''0 */'' @ decimal n @ '' * * *'', ''every '' @ decimal n @ '' hours''))
         | None \<Rightarrow>
      if reEveryHour lower \<or> reHourly lower then Inr (''0 * * * *'', ''every hour'')
      else (case reDailyAt lower of
           Some t \<Rightarrow> at_time t (\<lambda>h m. (decimal m @ '' '' @ decimal h @ '' * * *'',
                        ''daily at '' @ two_digits h @ '':'' @ two_digits m))
         | None \<Rightarrow>
      (case reEveryWeekdayAt lower of
           Some t \<Rightarrow> at_time t (\<lambda>h m. (decimal m @ '' '' @ decimal h @ '' * * 1-5'',
                        ''every weekday at '' @ two_digits h @ '':'' @ two_digits m))
         | None \<Rightarrow>
      (case reDayOfWeekAt lower of
           Some (d, t) \<Rightarrow> at_time t (\<lambda>h m. (decimal m @ '' '' @ decimal h @ '' * * '' @ decimal (the (map_of dayMap d)),
                        ''every '' @ d @ '' at '' @ two_digits h @ '':'' @ two_digits m))
         | None \<Rightarrow> Inl ErrScheduleParseFailure)))))"

section \<open>The schedules that can be said\<close>

datatype plan =
    EveryMinutes nat
  | EveryHours nat
  | Hourly
  | Daily nat nat
  | Weekdays nat nat
  | Weekly string nat nat

fun wf_plan :: "plan \<Rightarrow> bool" where
  "wf_plan (EveryMinutes n) \<longleftrightarrow> 1 \<le> n \<and> n \<le> 59"
| "wf_plan (EveryHours n) \<longleftrightarrow> 1 \<le> n \<and> n \<le> 23"
| "wf_plan Hourly \<longleftrightarrow> True"
| "wf_plan (Daily h m) \<longleftrightarrow> h \<le> 23 \<and> m \<le> 59"
| "wf_plan (Weekdays h m) \<longleftrightarrow> h \<le> 23 \<and> m \<le> 59"
| "wf_plan (Weekly d h m) \<longleftrightarrow> d \<in> set days \<and> h \<le> 23 \<and> m \<le> 59"

fun cron_of :: "plan \<Rightarrow> string" where
  "cron_of (EveryMinutes n) = ''*/'' @ decimal n @ '' * * * *''"
| "cron_of (EveryHours n) = ''0 */'' @ decimal n @ '' * * *''"
| "cron_of Hourly = ''0 * * * *''"
| "cron_of (Daily h m) = decimal m @ '' '' @ decimal h @ '' * * *''"
| "cron_of (Weekdays h m) = decimal m @ '' '' @ decimal h @ '' * * 1-5''"
| "cron_of (Weekly d h m) = decimal m @ '' '' @ decimal h @ '' * * '' @ decimal (the (map_of dayMap d))"

definition clock :: "nat \<Rightarrow> nat \<Rightarrow> string" where
  "clock h m = two_digits h @ '':'' @ two_digits m"

fun describe :: "plan \<Rightarrow> string" where
  "describe (EveryMinutes n) = ''every '' @ decimal n @ '' minutes''"
| "describe (EveryHours n) = ''every '' @ decimal n @ '' hours''"
| "describe Hourly = ''every hour''"
| "describe (Daily h m) = ''daily at '' @ clock h m"
| "describe (Weekdays h m) = ''every weekday at '' @ clock h m"
| "describe (Weekly d h m) = ''every '' @ d @ '' at '' @ clock h m"

section \<open>Everything understood is such a schedule\<close>

lemma parseTime_range: "parseTime hs ms ap = (h, m) \<Longrightarrow> \<not> h < 0 \<Longrightarrow> h \<le> 23 \<and> 0 \<le> m \<and> m \<le> 59"
  by (auto simp: parseTime_def Let_def split: option.splits if_splits)

lemma at_time_Inr: "at_time t k = Inr r \<Longrightarrow> \<exists>h m. h \<le> 23 \<and> m \<le> 59 \<and> r = k h m"
proof -
  obtain hs ms ap where t: "t = (hs, ms, ap)" by (metis prod_cases3)
  obtain h m where hm: "parseTime hs ms ap = (h, m)" by fastforce
  assume "at_time t k = Inr r"
  then have "\<not> h < 0" "r = k (nat h) (nat m)" by (auto simp: at_time_def t hm split: if_splits)
  with parseTime_range [OF hm] show ?thesis by (intro exI [of _ "nat h"] exI [of _ "nat m"]) auto
qed

lemma first_day_mem: "first_day ds s = Some (d, t) \<Longrightarrow> d \<in> set ds"
  by (induction ds) (auto split: option.splits)

lemma parse_plan:
  assumes "parseNaturalLanguage u s = Inr r"
  shows "\<exists>p. wf_plan p \<and> r = (cron_of p, describe p)"
proof -
  let ?l = "ToLower u (TrimSpace u s)"
  note r = assms [unfolded parseNaturalLanguage_def Let_def]
  show ?thesis
  proof (cases "reEveryNMinutes ?l")
    case (Some n)
    with r have "1 \<le> read_decimal n \<and> read_decimal n \<le> 59"
        "r = (cron_of (EveryMinutes (read_decimal n)), describe (EveryMinutes (read_decimal n)))" by (auto split: if_splits)
    then show ?thesis by (metis wf_plan.simps(1))
  next
    case 1: None
    note r = r [unfolded 1 option.case]
    show ?thesis
    proof (cases "reEveryNHours ?l")
      case (Some n)
      with r have "1 \<le> read_decimal n \<and> read_decimal n \<le> 23"
          "r = (cron_of (EveryHours (read_decimal n)), describe (EveryHours (read_decimal n)))" by (auto split: if_splits)
      then show ?thesis by (metis wf_plan.simps(2))
    next
      case 2: None
      note r = r [unfolded 2 option.case]
      consider "r = (cron_of Hourly, describe Hourly)"
        | t where "at_time t (\<lambda>h m. (cron_of (Daily h m), describe (Daily h m))) = Inr r"
        | t where "at_time t (\<lambda>h m. (cron_of (Weekdays h m), describe (Weekdays h m))) = Inr r"
        | d t where "d \<in> set days" "at_time t (\<lambda>h m. (cron_of (Weekly d h m), describe (Weekly d h m))) = Inr r"
        using r first_day_mem [of days ?l]
        by (fastforce simp: clock_def reDayOfWeekAt_def split: option.splits if_splits prod.splits)
      then show ?thesis
      proof cases
        case 1
        then show ?thesis by (metis wf_plan.simps(3))
      next
        case 2
        from at_time_Inr [OF this] show ?thesis by (metis wf_plan.simps(4))
      next
        case 3
        from at_time_Inr [OF this] show ?thesis by (metis wf_plan.simps(5))
      next
        case 4
        from at_time_Inr [OF this(2)] this(1) show ?thesis by (metis wf_plan.simps(6))
      qed
    qed
  qed
qed

section \<open>Every such schedule is understood\<close>

definition plain_text :: "string \<Rightarrow> bool" where
  "plain_text s \<longleftrightarrow> (\<forall>c \<in> set s. is_ascii c \<and> ascii_lower c = c)"

lemma plain_text_simps [simp]: "plain_text []" "plain_text (c # s) \<longleftrightarrow> is_ascii c \<and> ascii_lower c = c \<and> plain_text s"
    "plain_text (s @ t) \<longleftrightarrow> plain_text s \<and> plain_text t"
  by (auto simp: plain_text_def)

lemma digit_plain: "is_digit c \<Longrightarrow> is_ascii c \<and> ascii_lower c = c \<and> \<not> is_space c \<and> \<not> is_re_space c"
  by (auto simp: is_digit_def in_range_def is_ascii_def ascii_lower_def is_space_def is_re_space_def)

lemma plain_decimal [simp]: "plain_text (decimal n)" "plain_text (two_digits n)"
  by (auto simp: plain_text_def dest: decimal_digits two_digits_digits digit_plain)

lemma normal_text:
  assumes "plain_text s" "s \<noteq> []" "\<not> is_space (hd s)" "\<not> is_space (last s)"
  shows "ToLower u (TrimSpace u s) = s"
proof -
  have a: "isASCII s" using assms(1) by (simp add: plain_text_def isASCII_def)
  have "trim_ascii s = s" using assms by (simp add: trim_ascii_id)
  with a assms(1) show ?thesis by (simp add: TrimSpace_def ToLower_def plain_text_def map_idI)
qed

lemma two_digits_split:
  assumes "n < 100"
  obtains a b where "two_digits n = [a, b]" "is_digit a" "is_digit b"
proof -
  obtain a b where ab: "two_digits n = [a, b]"
    using length_two_digits [OF assms] by (metis length_0_conv length_Suc_conv numeral_2_eq_2)
  then have "is_digit a" "is_digit b" using two_digits_digits [of _ n] by auto
  with ab that show thesis by blast
qed

lemma match_clock: "h < 100 \<Longrightarrow> m < 100 \<Longrightarrow> match_time (clock h m) = Some (two_digits h, two_digits m, '''')"
proof -
  assume "h < 100" "m < 100"
  then obtain a b c d where "two_digits h = [a, b]" "is_digit a" "is_digit b" "two_digits m = [c, d]" "is_digit c" "is_digit d"
    by (metis two_digits_split)
  then show ?thesis by (simp add: match_time_def clock_def one_two_digits_def colon_minutes_def am_pm_def)
qed

lemma parseTime_clock: "h \<le> 23 \<Longrightarrow> m \<le> 59 \<Longrightarrow> parseTime (two_digits h) (two_digits m) '''' = (int h, int m)"
proof -
  assume hm: "h \<le> 23" "m \<le> 59"
  have "Atoi (two_digits n) = Some (int n)" if "n < 100" for n
    using two_digits_split [OF that] two_digits_digits [of _ n] by (metis Atoi_def list.distinct(1) read_two_digits)
  moreover have "two_digits m \<noteq> ''''" using hm two_digits_split [of m] by fastforce
  ultimately show ?thesis using hm by (simp add: parseTime_def)
qed

lemma at_clock:
  assumes "h \<le> 23" "m \<le> 59"
  shows "match_time (clock h m) = Some (two_digits h, two_digits m, '''')" "at_time (two_digits h, two_digits m, '''') k = Inr (k h m)"
  using assms match_clock [of h m] parseTime_clock [of h m] by (simp_all add: at_time_def)

lemma clock_head: "h < 100 \<Longrightarrow> \<exists>c s. clock h m = c # s \<and> is_digit c"
  by (metis append_Cons clock_def two_digits_split)

lemma describe_normal:
  assumes "wf_plan p"
  shows "ToLower u (TrimSpace u (describe p)) = describe p"
proof (rule normal_text)
  have day: "plain_text d" if "d \<in> set days" for d
    using that by (auto simp: days_def is_ascii_def ascii_lower_def in_range_def)
  have lits: "plain_text ''every ''" "plain_text '' minutes''" "plain_text '' hours''" "plain_text ''every hour''" "plain_text ''daily at ''"
      "plain_text ''every weekday at ''" "plain_text '' at ''" "plain_text '':''"
    by (simp_all add: is_ascii_def ascii_lower_def in_range_def)
  show "plain_text (describe p)" using assms lits day by (cases p) (simp_all only: describe.simps wf_plan.simps clock_def plain_text_simps(3) plain_decimal simp_thms)
  show "describe p \<noteq> []" by (cases p) simp_all
  show "\<not> is_space (hd (describe p))" by (cases p) (simp_all add: is_space_def is_re_space_def)
  have "\<not> is_space (last (clock h m))" if "m \<le> 59" for h m
    using two_digits_split [of m] that digit_plain by (force simp: clock_def)
  moreover have "clock h m \<noteq> []" for h m by (simp add: clock_def)
  ultimately show "\<not> is_space (last (describe p))" using assms by (cases p) (simp_all add: is_space_def is_re_space_def)
qed

lemma words_Cons: "words (w # ws) (w @ CHR '' '' # s) = words ws s" if "s \<noteq> []" "\<not> is_re_space (hd s)"
proof -
  have "dropWhile is_re_space s = s" using that by (simp add: dropWhile_eq_self_iff)
  then show ?thesis by (simp add: lit_def HasPrefix_def spaces_def is_re_space_def)
qed

lemma words_miss: "\<not> HasPrefix s w \<Longrightarrow> words (w # ws) s = None"
  by (simp add: lit_def)

lemma everyN_decimal: "everyN unit (''every '' @ decimal n @ CHR '' '' # r) = (if dropWhile is_re_space r \<in> {unit, unit @ ''s''} then Some (decimal n) else None)"
proof -
  have "is_digit (hd (decimal n))" using decimal_digits [of "hd (decimal n)" n] by simp
  then have w: "words [''every''] (''every '' @ decimal n @ CHR '' '' # r) = Some (decimal n @ CHR '' '' # r)"
    using words_Cons [of "decimal n @ CHR '' '' # r" "''every''" "[]"] digit_plain by simp
  have "\<not> is_digit (CHR '' '')" by (simp add: is_digit_def in_range_def)
  then have d: "digits (decimal n @ CHR '' '' # r) = Some (decimal n, CHR '' '' # r)"
    using decimal_digits [of _ n] \<open>is_digit (hd (decimal n))\<close> by (simp add: digits_def takeWhile_append dropWhile_append)
  show ?thesis unfolding everyN_def w option.case d by (simp add: spaces_def is_re_space_def)
qed

text \<open>A description that starts with another word is not one of the counted ones.\<close>

lemma everyN_word: "everyN unit (''every '' @ c # r) = None" if "\<not> is_digit c" "\<not> is_re_space c"
  using words_Cons [of "c # r" "''every''" "[]"] that by (simp add: everyN_def digits_def)

lemma everyN_miss: "\<not> HasPrefix s ''every'' \<Longrightarrow> everyN unit s = None"
  by (simp add: everyN_def lit_def)

lemmas match_simps = lit_def HasPrefix_def spaces_def is_re_space_def is_digit_def in_range_def

lemma daily_phrase:
  fixes r :: string
  assumes "is_digit c"
  defines "s \<equiv> ''daily at '' @ c # r"
  shows "reEveryNMinutes s = None" "reEveryNHours s = None" "\<not> reEveryHour s" "\<not> reHourly s" "reDailyAt s = match_time (c # r)"
proof -
  have c: "dropWhile is_re_space (c # r) = c # r" using digit_plain [OF assms(1)] by simp
  show "reEveryNMinutes s = None" "reEveryNHours s = None" "\<not> reEveryHour s" "\<not> reHourly s"
    by (simp_all add: s_def reEveryNMinutes_def reEveryNHours_def everyN_def reEveryHour_def reHourly_def match_simps)
  show "reDailyAt s = match_time (c # r)" using c by (simp add: s_def reDailyAt_def match_simps)
qed

lemma weekday_phrase:
  fixes r :: string
  assumes "is_digit c"
  defines "s \<equiv> ''every weekday at '' @ c # r"
  shows "reEveryNMinutes s = None" "reEveryNHours s = None" "\<not> reEveryHour s" "\<not> reHourly s" "reDailyAt s = None"
    "reEveryWeekdayAt s = match_time (c # r)"
proof -
  have c: "dropWhile is_re_space (c # r) = c # r" using digit_plain [OF assms(1)] by simp
  show "reEveryNMinutes s = None" "reEveryNHours s = None" "\<not> reEveryHour s" "\<not> reHourly s" "reDailyAt s = None"
    by (simp_all add: s_def reEveryNMinutes_def reEveryNHours_def everyN_def digits_def reEveryHour_def reHourly_def reDailyAt_def match_simps)
  show "reEveryWeekdayAt s = match_time (c # r)" using c by (simp add: s_def reEveryWeekdayAt_def match_simps)
qed

lemma days_heads:
  assumes "d \<in> set days"
  obtains x ds where "d = x # ds" "\<not> is_re_space x" "\<not> is_digit x" "x \<noteq> CHR ''d''" "x \<noteq> CHR ''h''"
proof -
  have "list_all (\<lambda>d. d \<noteq> [] \<and> \<not> is_re_space (hd d) \<and> \<not> is_digit (hd d) \<and> hd d \<noteq> CHR ''d'' \<and> hd d \<noteq> CHR ''h'') days"
    by code_simp
  then have "d \<noteq> [] \<and> \<not> is_re_space (hd d) \<and> \<not> is_digit (hd d) \<and> hd d \<noteq> CHR ''d'' \<and> hd d \<noteq> CHR ''h''"
    using assms by (simp add: list_all_iff)
  then show thesis using that [of "hd d" "tl d"] by simp
qed

definition differ :: "string \<Rightarrow> string \<Rightarrow> bool" where
  "differ d e \<longleftrightarrow> list_ex (\<lambda>(a, b). a \<noteq> b) (zip d e)"

lemma differ_prefix: "differ d e \<Longrightarrow> \<not> HasPrefix (d @ s) e"
proof
  assume "HasPrefix (d @ s) e"
  then obtain x where x: "d @ s = e @ x" by (auto simp: HasPrefix_iff)
  assume "differ d e"
  then obtain i where "i < length d" "i < length e" "d ! i \<noteq> e ! i" by (auto simp: differ_def list_ex_iff set_zip)
  with x show False by (metis nth_append)
qed

lemma day_prefix: "d \<in> set days \<Longrightarrow> e \<in> set days \<Longrightarrow> d \<noteq> e \<Longrightarrow> \<not> HasPrefix (d @ s) e"
proof (rule differ_prefix)
  have "list_all (\<lambda>d. list_all (\<lambda>e. d = e \<or> differ d e) days) days" by code_simp
  then show "d \<in> set days \<Longrightarrow> e \<in> set days \<Longrightarrow> d \<noteq> e \<Longrightarrow> differ d e" by (auto simp: list_all_iff)
qed

lemma day_other: "d \<in> set days \<Longrightarrow> \<not> HasPrefix (d @ s) ''day'' \<and> \<not> HasPrefix (d @ s) ''weekday''"
proof -
  have "list_all (\<lambda>d. differ d ''day'' \<and> differ d ''weekday'') days" by code_simp
  then show "d \<in> set days \<Longrightarrow> ?thesis" using differ_prefix by (auto simp: list_all_iff)
qed

lemma day_phrase:
  fixes r :: string
  assumes "is_digit c" "d \<in> set days"
  defines "s \<equiv> ''every '' @ d @ '' at '' @ c # r"
  shows "reEveryNMinutes s = None" "reEveryNHours s = None" "\<not> reEveryHour s" "\<not> reHourly s" "reDailyAt s = None"
    "reEveryWeekdayAt s = None" "reDayOfWeekAt s = map_option (Pair d) (match_time (c # r))"
proof -
  obtain x ds where d: "d = x # ds" "\<not> is_re_space x" "\<not> is_digit x" "x \<noteq> CHR ''d''" "x \<noteq> CHR ''h''"
    using days_heads [OF assms(2)] by metis
  let ?t = "d @ '' at '' @ c # r"
  have every: "words (''every'' # ws) s = words ws ?t" for ws
    using words_Cons [of ?t "''every''" ws] d(1,2) by (simp add: s_def)
  show "reEveryNMinutes s = None" "reEveryNHours s = None"
    using everyN_word [OF d(3,2)] by (simp_all add: s_def d(1) reEveryNMinutes_def reEveryNHours_def)
  show "\<not> reEveryHour s" using every [of "[]"] d(1,5) by (simp add: reEveryHour_def)
  show "\<not> reHourly s" by (simp add: s_def reHourly_def)
  have "\<not> HasPrefix ?t ''day''" "\<not> HasPrefix s ''daily''" "\<not> HasPrefix ?t ''weekday''"
    using day_other [OF assms(2)] by (auto simp: s_def HasPrefix_def)
  then show "reDailyAt s = None" "reEveryWeekdayAt s = None" by (simp_all add: reDailyAt_def reEveryWeekdayAt_def every words_miss del: words.simps)
  have at: "words [d, ''at''] ?t = Some (c # r)"
    using words_Cons [of "''at '' @ c # r" d "[''at'']"] words_Cons [of "c # r" "''at''" "[]"] digit_plain [OF assms(1)]
    by (simp add: is_re_space_def del: words.simps(2))
  have "first_day es s = (if d \<in> set es then map_option (Pair d) (match_time (c # r)) else None)" if "set es \<subseteq> set days" for es
    using that
  proof (induction es)
    case (Cons e es)
    show ?case
    proof (cases "e = d")
      case True
      have "first_day (d # es) s = (case match_time (c # r) of None \<Rightarrow> None | Some t \<Rightarrow> Some (d, t))"
        unfolding first_day.simps every at by simp
      then show ?thesis using True by (simp split: option.split)
    next
      case False
      then have "words [e, ''at''] ?t = None" using Cons.prems day_prefix [OF assms(2)] by (intro words_miss) auto
      then show ?thesis using Cons False by (simp add: every del: words.simps)
    qed
  qed simp
  then show "reDayOfWeekAt s = map_option (Pair d) (match_time (c # r))" using assms(2) by (simp add: reDayOfWeekAt_def)
qed

lemma parse_describe:
  assumes "wf_plan p"
  shows "parseNaturalLanguage u (describe p) = Inr (cron_of p, describe p)"
proof -
  have low: "ToLower u (TrimSpace u (describe p)) = describe p" by (rule describe_normal [OF assms])
  show ?thesis
  proof (cases p)
    case (EveryMinutes n)
    then have "reEveryNMinutes (describe p) = Some (decimal n)"
      using everyN_decimal [of "''minute''" n "''minutes''"] by (simp add: reEveryNMinutes_def is_re_space_def)
    then show ?thesis using assms low by (simp add: parseNaturalLanguage_def EveryMinutes)
  next
    case (EveryHours n)
    have "reEveryNMinutes (describe p) = None" "reEveryNHours (describe p) = Some (decimal n)"
      using everyN_decimal [of "''minute''" n "''hours''"] everyN_decimal [of "''hour''" n "''hours''"]
      by (simp_all add: EveryHours reEveryNMinutes_def reEveryNHours_def is_re_space_def)
    then show ?thesis using assms low by (simp add: parseNaturalLanguage_def EveryHours)
  next
    case Hourly
    have "reEveryNMinutes ''every hour'' = None" "reEveryNHours ''every hour'' = None" "reEveryHour ''every hour''" by code_simp+
    then show ?thesis using low by (simp add: parseNaturalLanguage_def Hourly)
  next
    case (Daily h m)
    then have hm: "h \<le> 23" "m \<le> 59" using assms by simp_all
    then obtain c r where c: "clock h m = c # r" "is_digit c" using clock_head [of h m] by auto
    show ?thesis using low daily_phrase [OF c(2), of r] at_clock [OF hm]
      by (simp add: parseNaturalLanguage_def Daily c(1) [symmetric]) (simp add: clock_def)
  next
    case (Weekdays h m)
    then have hm: "h \<le> 23" "m \<le> 59" using assms by simp_all
    then obtain c r where c: "clock h m = c # r" "is_digit c" using clock_head [of h m] by auto
    show ?thesis using low weekday_phrase [OF c(2), of r] at_clock [OF hm]
      by (simp add: parseNaturalLanguage_def Weekdays c(1) [symmetric]) (simp add: clock_def)
  next
    case (Weekly d h m)
    then have hm: "h \<le> 23" "m \<le> 59" "d \<in> set days" using assms by simp_all
    then obtain c r where c: "clock h m = c # r" "is_digit c" using clock_head [of h m] by auto
    show ?thesis using low day_phrase [OF c(2) hm(3), of r] at_clock [OF hm(1,2)]
      by (simp add: parseNaturalLanguage_def Weekly c(1) [symmetric]) (simp add: clock_def)
  qed
qed

section \<open>Properties\<close>

text \<open>
  C40: What the service says back is what it understood. An accepted phrase denotes one of the schedules that can be said, with
  its numbers in range (minutes 1-59, hours 1-23, times 00:00-23:59), the cron expression and the description are those of that
  schedule, and the description, typed in again, gives the same cron expression and description.
\<close>

theorem natural_language_roundtrip:
  assumes "parseNaturalLanguage u input = Inr (expr, desc)"
  shows "(\<exists>p. wf_plan p \<and> expr = cron_of p \<and> desc = describe p) \<and> parseNaturalLanguage u desc = Inr (expr, desc)"
proof -
  obtain p where "wf_plan p" "expr = cron_of p" "desc = describe p" using parse_plan [OF assms] by auto
  with parse_describe [of p u] show ?thesis by blast
qed

lemma natural_language_roundtrip_witness:
  "let u = \<lparr>uc_lower = map ascii_lower, uc_trim = trim_ascii\<rparr>
   in parseNaturalLanguage u '' Every Day at 9:05 PM'' = Inr (''5 21 * * *'', ''daily at 21:05'')
    \<and> parseNaturalLanguage u ''daily at 21:05'' = Inr (''5 21 * * *'', ''daily at 21:05'')"
proof -
  let ?u = "\<lparr>uc_lower = map ascii_lower, uc_trim = trim_ascii\<rparr>"
  have p: "parseNaturalLanguage ?u '' Every Day at 9:05 PM'' = Inr (''5 21 * * *'', ''daily at 21:05'')" by code_simp
  from natural_language_roundtrip [OF p] p show ?thesis by (simp add: Let_def)
qed

end
