(* ===== verification/Service.thy ===== *)
theory Service
  imports Scheduler TailnetPolicy NaturalLanguage
begin

text \<open>
  The job service (\<^verbatim>\<open>internal/service\<close>), the core that the HTTP API, the MCP server and the admin pages call. A
  request carries the caller's namespace; each method reads and writes the store through a few calls.

  A method is a statement on the database: it returns its Go result and the database it leaves. Its
  \<open>n\<close>-th call meets the conditions \<open>sv_db e n\<close> (clock, locks, fault), and before it the rest of the
  system may have changed the database (\<open>sv_other e n\<close>). The clock, random identifiers and the libraries
  the service calls (the cron parser, URL parsing, SHA-256) are in the environment as well.
\<close>

section \<open>Environment\<close>

record svc_env =
  sv_db :: "nat \<Rightarrow> dbenv"
  sv_other :: "nat \<Rightarrow> db \<Rightarrow> db"
  sv_now :: "nat \<Rightarrow> time"
  sv_uuid :: "nat \<Rightarrow> uuid"
  sv_rand :: "8 word list result"
  sv_sha256 :: "string \<Rightarrow> 8 word list"
  sv_emit :: "(TriggerEvent \<Rightarrow> unit result) option"
  sv_parse :: "string \<Rightarrow> string \<Rightarrow> (time \<Rightarrow> time) result"
  sv_LoadLocation :: "string \<Rightarrow> unit result"
  sv_unicode :: unicode
  sv_parseURL :: "string \<Rightarrow> URL result"
  sv_parseIP :: "string \<Rightarrow> Addr option"
  sv_parseAddr :: "string \<Rightarrow> Addr option"
  sv_toASCII :: "string \<Rightarrow> string option"
  sv_parseQuery :: "string \<Rightarrow> (string \<times> string list) list result"
  sv_encodeQuery :: "(string \<times> string list) list \<Rightarrow> string"
  sv_ilike :: "string \<Rightarrow> string \<Rightarrow> bool"
  sv_collate :: "string \<Rightarrow> nat list"
  sv_tailnetPolicy :: "TailnetPolicy option"
  sv_tailnetSuffix :: string

text \<open>The \<open>n\<close>-th store call of a request, a write and a read.\<close>

definition call :: "svc_env \<Rightarrow> nat \<Rightarrow> (dbenv \<Rightarrow> 'a stmt) \<Rightarrow> 'a stmt" where
  "call e n q db = q (sv_db e n) (sv_other e n db)"

definition ask :: "svc_env \<Rightarrow> nat \<Rightarrow> (dbenv \<Rightarrow> db \<Rightarrow> 'a result) \<Rightarrow> 'a stmt" where
  "ask e n q db = (q (sv_db e n) (sv_other e n db), sv_other e n db)"

definition fail :: "err \<Rightarrow> 'a stmt" where
  "fail er db = (Inl er, db)"

definition give :: "'a \<Rightarrow> 'a stmt" where
  "give x db = (Inr x, db)"

definition wrap :: "string \<Rightarrow> 'a stmt \<Rightarrow> 'a stmt" where
  "wrap msg p db = (case p db of (Inl er, db') \<Rightarrow> (Inl (Wrapped msg er), db') | (Inr x, db') \<Rightarrow> (Inr x, db'))"

definition with_ns :: "ctx \<Rightarrow> (Namespace \<Rightarrow> 'a stmt) \<Rightarrow> 'a stmt" where
  "with_ns c k = (let ns = NamespaceFromContext c in if ns_IsZero ns then fail ErrNamespaceRequired else k ns)"

section \<open>Jobs\<close>

record CreateJobInput =
  ci_Name :: string
  ci_CronExpression :: string
  ci_Timezone :: string
  ci_WebhookURL :: string
  ci_Secret :: string
  ci_Timeout :: duration
  ci_Tags :: "Tag list"

record UpdateJobInput =
  ui_Name :: "string option"
  ui_CronExpression :: "string option"
  ui_Timezone :: "string option"
  ui_WebhookURL :: "string option"
  ui_Secret :: "string option"
  ui_Timeout :: "duration option"
  ui_Tags :: "Tag list option"

record ResolveResult =
  rr_CronExpression :: string
  rr_Description :: string
  rr_Timezone :: string
  rr_NextRuns :: "time list"

definition checkTailnetHost :: "svc_env \<Rightarrow> Namespace \<Rightarrow> string \<Rightarrow> err option" where
  "checkTailnetHost e ns rawURL =
     (case sv_parseURL e rawURL of
        Inl _ \<Rightarrow> Some ErrInvalidWebhookURL
      | Inr u \<Rightarrow>
          (case Check (sv_unicode e) (sv_parseAddr e) (sv_toASCII e) (sv_tailnetPolicy e) ns (u_Hostname u) (sv_tailnetSuffix e) of
             None \<Rightarrow> None
           | Some er \<Rightarrow>
               if errors_Is er ErrDestinationBlocked
               then Some (Annotated ErrWebhookHostNotAllowed (quoted (u_Hostname u) @ '' in namespace '' @ quoted ns))
               else Some er))"

definition validate_url :: "svc_env \<Rightarrow> string \<Rightarrow> bool" where
  "validate_url e raw = (case Validate (sv_unicode e) (sv_parseURL e) (sv_parseIP e) raw of Inl _ \<Rightarrow> False | Inr _ \<Rightarrow> True)"

definition new_schedule :: "svc_env \<Rightarrow> CreateJobInput \<Rightarrow> Schedule" where
  "new_schedule e input = \<lparr>sch_ID = sv_uuid e 0, sch_CronExpression = ci_CronExpression input, sch_Timezone = ci_Timezone input,
     sch_CreatedAt = sv_now e 0, sch_UpdatedAt = sv_now e 0\<rparr>"

definition new_job :: "svc_env \<Rightarrow> Namespace \<Rightarrow> CreateJobInput \<Rightarrow> Job" where
  "new_job e ns input = \<lparr>job_ID = sv_uuid e 1, job_Namespace = ns, job_Name = ci_Name input, job_Enabled = True,
     job_ScheduleID = sv_uuid e 0,
     job_Delivery = \<lparr>dc_Type = Webhook, dc_WebhookURL = ci_WebhookURL input, dc_Secret = ci_Secret input,
       dc_Timeout = (if ci_Timeout input = 0 then 30 * Second else ci_Timeout input)\<rparr>,
     job_Analytics = \<lparr>an_Enabled = False, an_RetentionSeconds = 0\<rparr>, job_CreatedAt = sv_now e 0, job_UpdatedAt = sv_now e 0\<rparr>"

definition CreateJob_svc :: "svc_env \<Rightarrow> ctx \<Rightarrow> CreateJobInput \<Rightarrow> JobWithSchedule stmt" where
  "CreateJob_svc e c input = with_ns c (\<lambda>ns.
     (case sv_parse e (ci_CronExpression input) (ci_Timezone input) of
        Inl _ \<Rightarrow> fail ErrInvalidCronExpression
      | Inr _ \<Rightarrow>
          if \<not> validate_url e (ci_WebhookURL input) then fail ErrInvalidWebhookURL
          else (case checkTailnetHost e ns (ci_WebhookURL input) of
                  Some er \<Rightarrow> fail er
                | None \<Rightarrow>
                    seq_stmt (wrap ''create job'' (call e 0 (\<lambda>ev. CreateJobAggregate ev (new_job e ns input) (new_schedule e input)
                      (ci_Tags input)))) (\<lambda>_. give (new_job e ns input, new_schedule e input)))))"

definition GetJob_svc :: "svc_env \<Rightarrow> ctx \<Rightarrow> uuid \<Rightarrow> (JobWithSchedule \<times> Tag list \<times> Execution list) stmt" where
  "GetJob_svc e c i = with_ns c (\<lambda>ns.
     seq_stmt (wrap ''get job'' (ask e 0 (\<lambda>ev. GetJobWithScheduleScoped ev i ns))) (\<lambda>js.
     seq_stmt (wrap ''get tags'' (ask e 1 (\<lambda>ev. GetTags ev (sv_collate e) i))) (\<lambda>tags.
     seq_stmt (wrap ''get recent executions'' (ask e 2 (\<lambda>ev. GetRecentExecutions ev i 5))) (\<lambda>execs.
     give (js, tags, execs)))))"

definition scoped_filter :: "Namespace \<Rightarrow> JobFilter \<Rightarrow> JobFilter" where
  "scoped_filter ns f = f\<lparr>jf_Namespace := ns, jf_ListParams := WithDefaults (jf_ListParams f)\<rparr>"

definition ListJobs_svc :: "svc_env \<Rightarrow> ctx \<Rightarrow> JobFilter \<Rightarrow> Job list stmt" where
  "ListJobs_svc e c f = with_ns c (\<lambda>ns. ask e 0 (\<lambda>ev. ListJobs ev (sv_ilike e) (scoped_filter ns f)))"

definition ListJobsWithSchedules_svc :: "svc_env \<Rightarrow> ctx \<Rightarrow> JobFilter \<Rightarrow> JobWithSchedule list stmt" where
  "ListJobsWithSchedules_svc e c f = with_ns c (\<lambda>ns. ask e 0 (\<lambda>ev. ListJobsWithSchedules ev (sv_ilike e) (scoped_filter ns f)))"

text \<open>\<open>UpdateJob\<close>: the fields of the input that are present, in the order the code applies them.\<close>

definition update_delivery :: "svc_env \<Rightarrow> Namespace \<Rightarrow> UpdateJobInput \<Rightarrow> Job \<Rightarrow> Job result" where
  "update_delivery e ns input job =
     (let job = (case ui_Name input of None \<Rightarrow> job | Some n \<Rightarrow> job\<lparr>job_Name := n\<rparr>);
          finish = (\<lambda>job. Inr (job\<lparr>job_Delivery := (job_Delivery job)
            \<lparr>dc_Secret := (case ui_Secret input of None \<Rightarrow> dc_Secret (job_Delivery job) | Some s \<Rightarrow> s),
             dc_Timeout := (case ui_Timeout input of None \<Rightarrow> dc_Timeout (job_Delivery job) | Some t \<Rightarrow> t)\<rparr>\<rparr>))
      in case ui_WebhookURL input of
           None \<Rightarrow> finish job
         | Some url \<Rightarrow>
             if \<not> validate_url e url then Inl ErrInvalidWebhookURL
             else (case (if url \<noteq> dc_WebhookURL (job_Delivery job) then checkTailnetHost e ns url else None) of
                     Some er \<Rightarrow> Inl er
                   | None \<Rightarrow> finish (job\<lparr>job_Delivery := (job_Delivery job)\<lparr>dc_WebhookURL := url\<rparr>\<rparr>)))"

definition update_schedule :: "svc_env \<Rightarrow> UpdateJobInput \<Rightarrow> Schedule \<Rightarrow> Schedule result" where
  "update_schedule e input sch =
     (if ui_CronExpression input = None \<and> ui_Timezone input = None then Inr sch
      else (let cronExpr = (case ui_CronExpression input of None \<Rightarrow> sch_CronExpression sch | Some x \<Rightarrow> x);
                tz = (case ui_Timezone input of None \<Rightarrow> sch_Timezone sch | Some x \<Rightarrow> x)
            in case sv_parse e cronExpr tz of
                 Inl _ \<Rightarrow> Inl ErrInvalidCronExpression
               | Inr _ \<Rightarrow> Inr (sch\<lparr>sch_CronExpression := cronExpr, sch_Timezone := tz, sch_UpdatedAt := sv_now e 0\<rparr>)))"

definition UpdateJob_svc :: "svc_env \<Rightarrow> ctx \<Rightarrow> uuid \<Rightarrow> UpdateJobInput \<Rightarrow> JobWithSchedule stmt" where
  "UpdateJob_svc e c i input = with_ns c (\<lambda>ns.
     seq_stmt (wrap ''get job for update'' (ask e 0 (\<lambda>ev. GetJobWithScheduleScoped ev i ns))) (\<lambda>(job, sch).
       (case update_delivery e ns input job of
          Inl er \<Rightarrow> fail er
        | Inr job \<Rightarrow>
            (case update_schedule e input sch of
               Inl er \<Rightarrow> fail er
             | Inr sch \<Rightarrow>
                 (let job = job\<lparr>job_UpdatedAt := sv_now e 0\<rparr>
                  in seq_stmt (wrap ''update job aggregate'' (call e 1 (\<lambda>ev. UpdateJobAggregate ev job sch (ui_Tags input))))
                       (\<lambda>_. give (job, sch)))))))"

definition DeleteJob_svc :: "svc_env \<Rightarrow> ctx \<Rightarrow> uuid \<Rightarrow> unit stmt" where
  "DeleteJob_svc e c i = with_ns c (\<lambda>ns. call e 0 (\<lambda>ev. DeleteJob ev i ns))"

text \<open>The PostgreSQL store has \<open>SetJobEnabled\<close>, so this is the branch taken.\<close>

definition PauseJob :: "svc_env \<Rightarrow> ctx \<Rightarrow> uuid \<Rightarrow> Job stmt" where
  "PauseJob e c i = with_ns c (\<lambda>ns. call e 0 (\<lambda>ev. SetJobEnabled ev i ns False))"

definition ResumeJob :: "svc_env \<Rightarrow> ctx \<Rightarrow> uuid \<Rightarrow> Job stmt" where
  "ResumeJob e c i = with_ns c (\<lambda>ns. call e 0 (\<lambda>ev. SetJobEnabled ev i ns True))"

section \<open>Manual runs\<close>

definition maxInsertAttempts :: nat where
  "maxInsertAttempts = 5"

definition trigger_time :: "svc_env \<Rightarrow> nat \<Rightarrow> time \<Rightarrow> time" where
  "trigger_time e attempt lastTimestamp =
     (let now = Truncate (sv_now e attempt) Microsecond
      in if \<not> IsZero lastTimestamp \<and> \<not> now > lastTimestamp then lastTimestamp + Microsecond else now)"

definition manual_execution :: "svc_env \<Rightarrow> Namespace \<Rightarrow> uuid \<Rightarrow> nat \<Rightarrow> time \<Rightarrow> Execution" where
  "manual_execution e ns jobID attempt now = \<lparr>ex_ID = sv_uuid e attempt, ex_JobID = jobID, ex_Namespace = ns, ex_TriggerType = Manual,
     ex_ScheduledAt = now, ex_FiredAt = now, ex_Status = Emitted, ex_AcknowledgedAt = None, ex_CreatedAt = now, ex_ClaimedAt = None,
     ex_ClaimGeneration = 0, ex_LeaseUntil = None\<rparr>"

text \<open>The loop, with the number of attempts left; call \<open>attempt + 1\<close> is the insert of \<open>attempt\<close>.\<close>

fun insert_loop :: "svc_env \<Rightarrow> Namespace \<Rightarrow> uuid \<Rightarrow> nat \<Rightarrow> nat \<Rightarrow> time \<Rightarrow> err \<Rightarrow> Execution stmt" where
  "insert_loop e ns jobID attempt 0 lastTimestamp insertErr db = (Inl (Wrapped ''insert execution'' insertErr), db)"
| "insert_loop e ns jobID attempt (Suc k) lastTimestamp insertErr db =
     (let now = trigger_time e attempt lastTimestamp; exec = manual_execution e ns jobID attempt now
      in case call e (Suc attempt) (\<lambda>ev. InsertExecution ev exec) db of
           (Inr _, db') \<Rightarrow> (Inr exec, db')
         | (Inl er, db') \<Rightarrow>
             if \<not> errors_Is er ErrDuplicateExecution then (Inl (Wrapped ''insert execution'' er), db')
             else insert_loop e ns jobID (Suc attempt) k now er db')"

definition trigger_event :: "Execution \<Rightarrow> TriggerEvent" where
  "trigger_event exec = \<lparr>te_ExecutionID = ex_ID exec, te_JobID = ex_JobID exec, te_Namespace = ex_Namespace exec,
     te_ScheduledAt = ex_ScheduledAt exec, te_FiredAt = ex_FiredAt exec, te_CreatedAt = ex_CreatedAt exec\<rparr>"

text \<open>The result and the event handed to the emitter, if there is one; what the emitter answers is logged only.\<close>

definition TriggerNow :: "svc_env \<Rightarrow> ctx \<Rightarrow> uuid \<Rightarrow> (Execution \<times> TriggerEvent option) stmt" where
  "TriggerNow e c jobID = with_ns c (\<lambda>ns.
     seq_stmt (wrap ''get job for trigger'' (ask e 0 (\<lambda>ev. GetJobWithScheduleScoped ev jobID ns))) (\<lambda>(job, sch).
       if \<not> job_Enabled job then fail ErrJobDisabled
       else seq_stmt (insert_loop e ns jobID 0 maxInsertAttempts 0 (ErrorMsg '''')) (\<lambda>exec.
         give (exec, (case sv_emit e of None \<Rightarrow> None | Some _ \<Rightarrow> Some (trigger_event exec))))))"

section \<open>Next runs\<close>

fun next_runs :: "(time \<Rightarrow> time) \<Rightarrow> nat \<Rightarrow> time \<Rightarrow> time list" where
  "next_runs sched 0 cursor = []"
| "next_runs sched (Suc n) cursor =
     (let next = sched cursor in if IsZero next \<or> \<not> next > cursor then [] else next # next_runs sched n next)"

definition computeNextRuns :: "svc_env \<Rightarrow> (time \<Rightarrow> time) \<Rightarrow> nat \<Rightarrow> time list" where
  "computeNextRuns e sched n = next_runs sched n (sv_now e 0)"

definition GetNextRunTime :: "svc_env \<Rightarrow> ctx \<Rightarrow> uuid \<Rightarrow> (time \<times> time list \<times> Schedule) stmt" where
  "GetNextRunTime e c jobID = with_ns c (\<lambda>ns.
     seq_stmt (wrap ''get job for next run'' (ask e 0 (\<lambda>ev. GetJobWithScheduleScoped ev jobID ns))) (\<lambda>(job, sch).
       if \<not> job_Enabled job then fail ErrJobDisabled
       else (case sv_parse e (sch_CronExpression sch) (sch_Timezone sch) of
               Inl _ \<Rightarrow> fail ErrInvalidCronExpression
             | Inr sched \<Rightarrow>
                 (case computeNextRuns e sched 5 of
                    [] \<Rightarrow> fail ErrInvalidCronExpression
                  | r # rs \<Rightarrow> give (r, r # rs, sch)))))"

definition ResolveSchedule :: "svc_env \<Rightarrow> string \<Rightarrow> string \<Rightarrow> ResolveResult result" where
  "ResolveSchedule e description timezone =
     (case sv_LoadLocation e timezone of
        Inl _ \<Rightarrow> Inl ErrInvalidTimezone
      | Inr _ \<Rightarrow>
          (case sv_parse e description timezone of
             Inr sched \<Rightarrow> Inr \<lparr>rr_CronExpression = description, rr_Description = description, rr_Timezone = timezone,
                rr_NextRuns = computeNextRuns e sched 5\<rparr>
           | Inl _ \<Rightarrow>
               (case parseNaturalLanguage (sv_unicode e) description of
                  Inl er \<Rightarrow> Inl er
                | Inr (cronExpr, desc) \<Rightarrow>
                    (case sv_parse e cronExpr timezone of
                       Inl _ \<Rightarrow> Inl ErrScheduleParseFailure
                     | Inr sched \<Rightarrow> Inr \<lparr>rr_CronExpression = cronExpr, rr_Description = desc, rr_Timezone = timezone,
                          rr_NextRuns = computeNextRuns e sched 5\<rparr>))))"

section \<open>Executions\<close>

definition ListExecutions_svc :: "svc_env \<Rightarrow> ctx \<Rightarrow> ExecutionFilter \<Rightarrow> Execution list stmt" where
  "ListExecutions_svc e c f = with_ns c (\<lambda>ns.
     ask e 0 (\<lambda>ev. ListExecutions ev (f\<lparr>ef_Namespace := ns, ef_ListParams := WithDefaults (ef_ListParams f)\<rparr>)))"

definition ListPendingAck_svc :: "svc_env \<Rightarrow> ctx \<Rightarrow> uuid option \<Rightarrow> int \<Rightarrow> Execution list stmt" where
  "ListPendingAck_svc e c jobID limit = with_ns c (\<lambda>ns.
     ask e 0 (\<lambda>ev. ListPendingAck ev ns jobID (lp_Limit (WithDefaults \<lparr>lp_Limit = limit, lp_Offset = 0\<rparr>))))"

definition AckExecution_svc :: "svc_env \<Rightarrow> ctx \<Rightarrow> uuid \<Rightarrow> unit stmt" where
  "AckExecution_svc e c i = with_ns c (\<lambda>ns. call e 0 (\<lambda>ev. AckExecution ev i ns))"

text \<open>Whatever the store's error, the caller sees \<open>ErrExecutionNotFound\<close>.\<close>

definition GetExecutionStatus :: "svc_env \<Rightarrow> ctx \<Rightarrow> uuid \<Rightarrow> Execution stmt" where
  "GetExecutionStatus e c i = with_ns c (\<lambda>ns db.
     (case ask e 0 (\<lambda>ev. GetExecutionScoped ev i ns) db of
        (Inl _, db') \<Rightarrow> (Inl ErrExecutionNotFound, db')
      | (Inr x, db') \<Rightarrow> (Inr x, db')))"

definition GetExecution_svc :: "svc_env \<Rightarrow> ctx \<Rightarrow> uuid \<Rightarrow> (Execution \<times> DeliveryAttempt list) stmt" where
  "GetExecution_svc e c i =
     seq_stmt (GetExecutionStatus e c i) (\<lambda>exec.
     seq_stmt (wrap ''get delivery attempts'' (ask e 1 (\<lambda>ev. GetAttempts ev i))) (\<lambda>attempts. give (exec, attempts)))"

section \<open>API keys\<close>

record CreateAPIKeyResult =
  ck_PlaintextToken :: string
  ck_Key :: APIKey

definition HashToken :: "svc_env \<Rightarrow> string \<Rightarrow> string" where
  "HashToken e plaintext = EncodeToString (sv_sha256 e plaintext)"

definition newAPIKey :: "svc_env \<Rightarrow> Namespace \<Rightarrow> string \<Rightarrow> CreateAPIKeyResult result" where
  "newAPIKey e ns label =
     (case sv_rand e of
        Inl er \<Rightarrow> Inl (Wrapped ''generate token'' er)
      | Inr raw \<Rightarrow>
          (let plaintext = ''ec_'' @ EncodeToString raw
           in Inr \<lparr>ck_PlaintextToken = plaintext,
                   ck_Key = \<lparr>key_ID = sv_uuid e 0, key_Namespace = ns, key_TokenHash = HashToken e plaintext, key_Label = label,
                     key_Enabled = True, key_CreatedAt = sv_now e 0, key_LastUsedAt = None, key_TailnetLogin = ''''\<rparr>\<rparr>))"

definition CreateAPIKey :: "svc_env \<Rightarrow> ctx \<Rightarrow> string \<Rightarrow> CreateAPIKeyResult stmt" where
  "CreateAPIKey e c label = with_ns c (\<lambda>ns.
     (case newAPIKey e ns label of
        Inl er \<Rightarrow> fail er
      | Inr result \<Rightarrow> seq_stmt (wrap ''insert api key'' (call e 0 (\<lambda>ev. InsertAPIKey ev (ck_Key result)))) (\<lambda>_. give result)))"

definition BootstrapFirstAPIKey :: "svc_env \<Rightarrow> Namespace \<Rightarrow> string \<Rightarrow> CreateAPIKeyResult stmt" where
  "BootstrapFirstAPIKey e ns label =
     (if ns_IsZero ns then fail ErrNamespaceRequired
      else (case newAPIKey e ns label of
              Inl er \<Rightarrow> fail er
            | Inr result \<Rightarrow>
                seq_stmt (wrap ''insert first api key'' (call e 0 (\<lambda>ev. InsertFirstAPIKey ev (ck_Key result)))) (\<lambda>_. give result)))"

text \<open>The store's statement for tailnet keys may race with another insert and is then run once more
  (its extra arguments say so).\<close>

definition TailnetKey :: "svc_env \<Rightarrow> bool \<Rightarrow> fault \<Rightarrow> bool \<Rightarrow> Namespace \<Rightarrow> string \<Rightarrow> APIKey stmt" where
  "TailnetKey e raced f2 raced2 ns login =
     (if ns_IsZero ns then fail ErrNamespaceRequired
      else if login = '''' then fail (ErrorMsg ''tailnet key: empty login'')
      else (case newAPIKey e ns (''tailscale: '' @ login) of
              Inl er \<Rightarrow> fail er
            | Inr result \<Rightarrow>
                wrap ''get or create tailnet key''
                  (call e 0 (\<lambda>ev. GetOrCreateTailnetKey ev raced f2 raced2 ((ck_Key result)\<lparr>key_TailnetLogin := login\<rparr>)))))"

definition HasAnyAPIKeys_svc :: "svc_env \<Rightarrow> bool stmt" where
  "HasAnyAPIKeys_svc e = ask e 0 HasAnyAPIKeys"

definition ListAPIKeys :: "svc_env \<Rightarrow> ctx \<Rightarrow> ListParams \<Rightarrow> APIKey list stmt" where
  "ListAPIKeys e c params = with_ns c (\<lambda>ns. ask e 0 (\<lambda>ev. ListKeys ev ns (WithDefaults params)))"

definition DeleteAPIKey :: "svc_env \<Rightarrow> ctx \<Rightarrow> uuid \<Rightarrow> unit stmt" where
  "DeleteAPIKey e c i = with_ns c (\<lambda>ns. call e 0 (\<lambda>ev. DeleteKey ev i ns))"

section \<open>Control centre\<close>

definition Fleet_svc :: "svc_env \<Rightarrow> ctx \<Rightarrow> JobFilter \<Rightarrow> Fleet stmt" where
  "Fleet_svc e c f = with_ns c (\<lambda>ns. ask e 0 (\<lambda>ev. ControlStore.Fleet ev (sv_ilike e) (scoped_filter ns f)))"

definition Runs_svc :: "svc_env \<Rightarrow> ctx \<Rightarrow> ExecutionFilter \<Rightarrow> RunsPage stmt" where
  "Runs_svc e c f = with_ns c (\<lambda>ns.
     (case (ef_Since f, ef_Until f) of
        (Some since, Some until) \<Rightarrow>
          if until < since \<or> until - since > 7 * 24 * Hour then fail ErrInvalidControlInput
          else if (case ef_Status f of Some (OtherStatus _) \<Rightarrow> True | _ \<Rightarrow> False) then fail ErrInvalidControlInput
          else if (case ef_TriggerType f of Some (OtherTrigger _) \<Rightarrow> True | _ \<Rightarrow> False) then fail ErrInvalidControlInput
          else ask e 0 (\<lambda>ev. Runs ev (f\<lparr>ef_Namespace := ns, ef_ListParams := WithDefaults (ef_ListParams f)\<rparr>) since until)
      | _ \<Rightarrow> fail ErrInvalidControlInput))"

definition ListSavedViews_svc :: "svc_env \<Rightarrow> ctx \<Rightarrow> uuid \<Rightarrow> SavedView list stmt" where
  "ListSavedViews_svc e c actor = with_ns c (\<lambda>ns. ask e 0 (\<lambda>ev. ListSavedViews ev (sv_collate e) ns actor))"

definition query_get :: "(string \<times> string list) list \<Rightarrow> string \<Rightarrow> string" where
  "query_get values key = (case map_of values key of Some (v # _) \<Rightarrow> v | _ \<Rightarrow> '''')"

definition valid_view_query :: "(string \<times> string list) list \<Rightarrow> bool" where
  "valid_view_query values \<longleftrightarrow>
     list_all (\<lambda>(key, v). length v = 1 \<and> key \<in> set [''name'', ''enabled'', ''tag'', ''view'']) values
     \<and> query_get values ''enabled'' \<in> set ['''', ''true'', ''false'']
     \<and> query_get values ''view'' \<in> set ['''', ''table'', ''board'', ''timeline'']
     \<and> length (query_get values ''name'') \<le> 200 \<and> length (query_get values ''tag'') \<le> 200
     \<and> (query_get values ''tag'' = '''' \<or>
         (case Cut (CHR ''='') (query_get values ''tag'') of (k, v, found) \<Rightarrow> found \<and> k \<noteq> '''' \<and> v \<noteq> ''''))"

definition SaveView_svc :: "svc_env \<Rightarrow> ctx \<Rightarrow> uuid \<Rightarrow> string \<Rightarrow> string \<Rightarrow> unit stmt" where
  "SaveView_svc e c actor name0 query = with_ns c (\<lambda>ns.
     (let name1 = TrimSpace (sv_unicode e) name0
      in if actor = uuid_Nil \<or> length name1 = 0 \<or> length name1 > 80 \<or> length query > 2000 then fail ErrInvalidControlInput
         else (case sv_parseQuery e query of
                 Inl _ \<Rightarrow> fail ErrInvalidControlInput
               | Inr values \<Rightarrow>
                   if \<not> valid_view_query values then fail ErrInvalidControlInput
                   else call e 0 (\<lambda>ev. SaveView ev (sv_uuid e 0) ns actor name1 (sv_encodeQuery e values)))))"

definition DeleteView_svc :: "svc_env \<Rightarrow> ctx \<Rightarrow> uuid \<Rightarrow> uuid \<Rightarrow> unit stmt" where
  "DeleteView_svc e c actor i = with_ns c (\<lambda>ns. call e 0 (\<lambda>ev. DeleteView ev ns actor i))"

definition PreviewBulk_svc :: "svc_env \<Rightarrow> ctx \<Rightarrow> uuid \<Rightarrow> string \<Rightarrow> uuid list \<Rightarrow> BulkBatch stmt" where
  "PreviewBulk_svc e c actor action ids = with_ns c (\<lambda>ns.
     if actor = uuid_Nil \<or> (action \<noteq> ''pause'' \<and> action \<noteq> ''resume'') \<or> length ids < 1 \<or> length ids > MaxBulkJobs
     then fail ErrInvalidControlInput
     else if uuid_Nil \<in> set ids \<or> \<not> distinct ids then fail ErrInvalidControlInput
     else call e 0 (\<lambda>ev. PreviewBulk ev (sv_uuid e 0) ns actor action ids))"

definition ConfirmBulk_svc :: "svc_env \<Rightarrow> (uuid \<Rightarrow> bool) \<Rightarrow> (uuid \<Rightarrow> bool) \<Rightarrow> ctx \<Rightarrow> uuid \<Rightarrow> uuid \<Rightarrow> BulkBatch stmt" where
  "ConfirmBulk_svc e selErr updErr c actor i = with_ns c (\<lambda>ns. call e 0 (\<lambda>ev. ConfirmBulk ev selErr updErr ns actor i))"

definition GetBulk_svc :: "svc_env \<Rightarrow> ctx \<Rightarrow> uuid \<Rightarrow> uuid \<Rightarrow> BulkBatch stmt" where
  "GetBulk_svc e c actor i = with_ns c (\<lambda>ns. ask e 0 (\<lambda>ev. GetBulk ev ns actor i))"

definition ListBulk_svc :: "svc_env \<Rightarrow> ctx \<Rightarrow> uuid \<Rightarrow> BulkBatch list stmt" where
  "ListBulk_svc e c actor = with_ns c (\<lambda>ns. ask e 0 (\<lambda>ev. ListBulk ev ns actor))"

section \<open>Calls without interference\<close>

definition alone :: "svc_env \<Rightarrow> bool" where
  "alone e \<longleftrightarrow> (\<forall>n. sv_other e n = (\<lambda>db. db))"

lemma alone_call [simp]: "alone e \<Longrightarrow> call e n q db = q (sv_db e n) db"
  by (simp add: alone_def call_def)

lemma alone_ask [simp]: "alone e \<Longrightarrow> ask e n q db = (q (sv_db e n) db, db)"
  by (simp add: alone_def ask_def)

lemma scoped_job:
  assumes "GetJobWithScheduleScoped ev i ns db = Inr (job, sch)"
  shows "job \<in> set (t_jobs db)" "sch \<in> set (t_schedules db)" "job_ID job = i" "job_Namespace job = ns" "sch_ID sch = job_ScheduleID job"
    "de_fault ev = NoFault"
  using assms
  by (auto simp: GetJobWithScheduleScoped_def row_or_def run_query_def queryGetJobWithScheduleScoped_def jobs_join_schedules_def
      split: sum.splits option.splits fault.splits dest!: select_row_SomeD)

section \<open>Next runs\<close>

text \<open>The runs are the first slots after now: in order, none left out, fewer than asked for only if there are no more.\<close>

lemma next_runs_slots:
  assumes "cron_next S nxt"
  shows "sorted_wrt (<) (next_runs nxt n t) \<and> set (next_runs nxt n t) \<subseteq> {s \<in> S. t < s} \<and> length (next_runs nxt n t) \<le> n
    \<and> (\<forall>s \<in> S. t < s \<longrightarrow> s \<in> set (next_runs nxt n t)
         \<or> length (next_runs nxt n t) = n \<and> (\<forall>r \<in> set (next_runs nxt n t). r < s))"
proof (induction n arbitrary: t)
  case (Suc n)
  show ?case
  proof (cases "nxt t = 0 \<or> \<not> t < nxt t")
    case True
    then show ?thesis using cron_next_None [OF assms, of t] by (auto simp: not_less [symmetric])
  next
    case False
    then have n: "nxt t \<in> S" "t < nxt t" "\<forall>s \<in> S. t < s \<longrightarrow> nxt t \<le> s" "nxt t \<noteq> 0" using cron_next_Some [OF assms, of t] by blast+
    have "s \<in> set (next_runs nxt (Suc n) t) \<or> length (next_runs nxt (Suc n) t) = Suc n \<and> (\<forall>r \<in> set (next_runs nxt (Suc n) t). r < s)"
      if s: "s \<in> S" "t < s" for s
    proof (cases "s = nxt t")
      case False
      with n(3) s have "nxt t < s" by force
      with Suc.IH [of "nxt t"] s(1) n show ?thesis by (auto simp: Let_def)
    qed (use n in \<open>simp add: Let_def\<close>)
    moreover have "sorted_wrt (<) (next_runs nxt (Suc n) t)" "set (next_runs nxt (Suc n) t) \<subseteq> {s \<in> S. t < s}"
        "length (next_runs nxt (Suc n) t) \<le> Suc n"
      using Suc.IH [of "nxt t"] n by (auto simp: Let_def)
    ultimately show ?thesis by blast
  qed
qed simp

section \<open>Manual runs\<close>

text \<open>Driver and network errors are not reports of a duplicate key.\<close>

definition honest_faults :: "svc_env \<Rightarrow> bool" where
  "honest_faults e \<longleftrightarrow> (\<forall>n er. de_fault (sv_db e n) = FaultBefore er \<or> de_fault (sv_db e n) = FaultAfter er \<longrightarrow>
     \<not> isDuplicateKeyError er \<and> \<not> errors_Is er ErrDuplicateExecution)"

definition lost_reply :: "svc_env \<Rightarrow> bool" where
  "lost_reply e \<longleftrightarrow> (\<exists>n er. de_fault (sv_db e n) = FaultAfter er)"

lemma duplicate_unique: "isDuplicateKeyError unique_violation" "\<not> isDuplicateKeyError foreign_key_violation"
  by (simp_all add: isDuplicateKeyError_def)

lemma InsertExecution_cases:
  assumes "InsertExecution (sv_db e n) x db = (r, db')" "honest_faults e"
  shows "(r = Inr () \<and> db' = db\<lparr>t_executions := t_executions db @ [execution_row x]\<rparr> \<and> ex_JobID x \<in> job_ID ` set (t_jobs db))
    \<or> (\<exists>er. r = Inl er \<and> errors_Is er ErrDuplicateExecution \<and> db' = db
         \<and> (ex_ID x \<in> ex_ID ` set (t_executions db) \<or> slot x \<in> slot ` set (t_executions db)))
    \<or> (\<exists>er. r = Inl er \<and> \<not> errors_Is er ErrDuplicateExecution \<and> (db' = db \<or> lost_reply e)
         \<and> (de_fault (sv_db e n) \<noteq> NoFault \<or> ex_JobID x \<notin> job_ID ` set (t_jobs db)))"
proof (cases "de_fault (sv_db e n)")
  case NoFault
  then show ?thesis using assms(1) duplicate_unique
    by (auto simp: InsertExecution_def run_stmt_def queryInsertExecution_def split: if_splits)
next
  case (FaultBefore er)
  then have "\<not> isDuplicateKeyError er" "\<not> errors_Is er ErrDuplicateExecution" using assms(2) by (auto simp: honest_faults_def)
  then show ?thesis using assms(1) FaultBefore by (auto simp: InsertExecution_def run_stmt_def)
next
  case (FaultAfter er)
  then have "\<not> isDuplicateKeyError er" "\<not> errors_Is er ErrDuplicateExecution" using assms(2) by (auto simp: honest_faults_def)
  then show ?thesis using assms(1) FaultAfter by (auto simp: InsertExecution_def run_stmt_def lost_reply_def)
qed

lemma insert_loop_spec:
  assumes "alone e" "honest_faults e"
  shows "insert_loop e ns j a k lst er0 db = (r, db') \<Longrightarrow>
    (case r of
       Inr x \<Rightarrow> db' = db\<lparr>t_executions := t_executions db @ [x]\<rparr> \<and> (\<exists>i t. x = manual_execution e ns j i t)
     | Inl er \<Rightarrow> db' = db \<or> lost_reply e)"
proof (induction k arbitrary: a lst er0)
  case (Suc k)
  let ?x = "manual_execution e ns j a (trigger_time e a lst)"
  obtain r1 db1 where ins: "InsertExecution (sv_db e (Suc a)) ?x db = (r1, db1)" by fastforce
  have row: "execution_row ?x = ?x" by (simp add: execution_row_def manual_execution_def)
  consider (stored) "r1 = Inr ()" "db1 = db\<lparr>t_executions := t_executions db @ [?x]\<rparr>"
    | (taken) er where "r1 = Inl er" "errors_Is er ErrDuplicateExecution" "db1 = db"
    | (broken) er where "r1 = Inl er" "\<not> errors_Is er ErrDuplicateExecution" "db1 = db \<or> lost_reply e"
    using InsertExecution_cases [OF ins assms(2)] row by metis
  then show ?case
  proof cases
    case stored
    then have "r = Inr ?x" "db' = db\<lparr>t_executions := t_executions db @ [?x]\<rparr>" using Suc.prems ins assms(1) by (simp_all add: Let_def)
    then show ?thesis by auto
  next
    case taken
    then show ?thesis using Suc.prems Suc.IH ins assms(1) by (simp add: Let_def)
  next
    case broken
    then show ?thesis using Suc.prems ins assms(1) by (auto simp: Let_def)
  qed
qed auto

text \<open>The candidate times of the loop increase, so an attempt finds its slot taken only if one more
  execution of the job lies ahead.\<close>

lemma trigger_time_next: "lst \<noteq> 0 \<Longrightarrow> lst < trigger_time e a lst"
  by (simp add: trigger_time_def Let_def)

definition taken_from :: "db \<Rightarrow> uuid \<Rightarrow> time \<Rightarrow> time set" where
  "taken_from db j t = {ex_ScheduledAt x | x. x \<in> set (t_executions db) \<and> ex_JobID x = j \<and> t \<le> ex_ScheduledAt x}"

lemma finite_taken: "finite (taken_from db j t)"
proof -
  have "taken_from db j t \<subseteq> ex_ScheduledAt ` set (t_executions db)" by (auto simp: taken_from_def)
  then show ?thesis by (rule finite_subset) simp
qed

lemma insert_loop_succeeds:
  assumes "alone e" "\<forall>n. de_fault (sv_db e n) = NoFault" "\<forall>n. sv_uuid e n \<notin> ex_ID ` set (t_executions db)" "j \<in> job_ID ` set (t_jobs db)"
  shows "0 < trigger_time e a lst \<Longrightarrow> card (taken_from db j (trigger_time e a lst)) < k
    \<Longrightarrow> \<exists>x. fst (insert_loop e ns j a k lst er0 db) = Inr x \<and> trigger_time e a lst \<le> ex_ScheduledAt x"
proof (induction k arbitrary: a lst er0)
  case (Suc k)
  let ?t = "trigger_time e a lst"
  let ?x = "manual_execution e ns j a ?t"
  have hf: "honest_faults e" using assms(2) by (simp add: honest_faults_def)
  obtain r1 db1 where ins: "InsertExecution (sv_db e (Suc a)) ?x db = (r1, db1)" by fastforce
  have x: "ex_JobID ?x = j" "ex_ID ?x = sv_uuid e a" "slot ?x = (j, ?t)" by (simp_all add: manual_execution_def)
  from InsertExecution_cases [OF ins hf] assms(2,3,4) x consider "r1 = Inr ()"
    | er where "r1 = Inl er" "errors_Is er ErrDuplicateExecution" "db1 = db" "(j, ?t) \<in> slot ` set (t_executions db)"
    by metis
  then show ?case
  proof cases
    case 1
    then show ?thesis using ins assms(1) by (simp add: Let_def manual_execution_def)
  next
    case 2
    let ?t' = "trigger_time e (Suc a) ?t"
    have t': "?t < ?t'" using trigger_time_next [of ?t e "Suc a"] Suc.prems(1) by simp
    have "?t \<in> taken_from db j ?t" using 2(4) by (auto simp: taken_from_def)
    moreover have "taken_from db j ?t' \<subseteq> taken_from db j ?t - {?t}" using t' by (auto simp: taken_from_def)
    ultimately have "card (taken_from db j ?t') < card (taken_from db j ?t)"
      by (intro psubset_card_mono finite_taken) blast
    then have "card (taken_from db j ?t') < k" using Suc.prems(2) by simp
    from Suc.IH [OF _ this, of er] t' Suc.prems(1) obtain x where
        "fst (insert_loop e ns j (Suc a) k ?t er db) = Inr x" "?t' \<le> ex_ScheduledAt x" by auto
    then show ?thesis using 2 ins assms(1) t' by (auto simp: Let_def)
  qed
qed simp

lemma TriggerNow_cases:
  assumes "TriggerNow e c j db = (r, db')" "alone e"
  defines "ns \<equiv> NamespaceFromContext c"
  shows "(\<exists>er. r = Inl er \<and> db' = db)
    \<or> (\<exists>job sch res. ns \<noteq> '''' \<and> GetJobWithScheduleScoped (sv_db e 0) j ns db = Inr (job, sch) \<and> job_Enabled job
         \<and> insert_loop e ns j 0 maxInsertAttempts 0 (ErrorMsg '''') db = (res, db')
         \<and> r = (case res of Inl er \<Rightarrow> Inl er
                  | Inr x \<Rightarrow> Inr (x, case sv_emit e of None \<Rightarrow> None | Some _ \<Rightarrow> Some (trigger_event x))))"
  using assms(1,2)
  by (auto simp: TriggerNow_def with_ns_def ns_def fail_def give_def wrap_def seq_stmt_def ns_IsZero_def Let_def maxInsertAttempts_def
      split: if_splits sum.splits prod.splits)

text \<open>
  C35: A manual run is stored once. When \<open>TriggerNow\<close> answers an execution, the job exists in the caller's namespace and is enabled,
  exactly one row was added, the one answered, in status emitted and of type manual, and the event handed to the emitter is that of the row.
  When it answers an error, nothing was written, unless the database lost a reply after the statement took effect.
\<close>

theorem trigger_now_correct:
  assumes "alone e" "honest_faults e" "TriggerNow e c j db = (r, db')"
  shows "case r of
     Inr (x, ev) \<Rightarrow>
       (\<exists>job \<in> set (t_jobs db). job_ID job = j \<and> job_Namespace job = NamespaceFromContext c \<and> job_Enabled job)
       \<and> db' = db\<lparr>t_executions := t_executions db @ [x]\<rparr>
       \<and> ex_JobID x = j \<and> ex_Namespace x = NamespaceFromContext c \<and> ex_Status x = Emitted \<and> ex_TriggerType x = Manual
       \<and> (\<forall>y. ev = Some y \<longrightarrow> te_ExecutionID y = ex_ID x \<and> te_JobID y = j \<and> te_Namespace y = ex_Namespace x
            \<and> te_ScheduledAt y = ex_ScheduledAt x)
   | Inl er \<Rightarrow> db' = db \<or> lost_reply e"
  using TriggerNow_cases [OF assms(3,1)]
proof (elim disjE exE conjE)
  fix job sch res
  let ?ns = "NamespaceFromContext c"
  assume job: "GetJobWithScheduleScoped (sv_db e 0) j ?ns db = Inr (job, sch)" "job_Enabled job"
    and run: "insert_loop e ?ns j 0 maxInsertAttempts 0 (ErrorMsg '''') db = (res, db')"
    and r: "r = (case res of Inl er \<Rightarrow> Inl er | Inr x \<Rightarrow> Inr (x, case sv_emit e of None \<Rightarrow> None | Some _ \<Rightarrow> Some (trigger_event x)))"
  note loop = insert_loop_spec [OF assms(1,2) run]
  show ?thesis
  proof (cases res)
    case (Inl er)
    then show ?thesis using loop r by simp
  next
    case (Inr x)
    then have "db' = db\<lparr>t_executions := t_executions db @ [x]\<rparr>" "\<exists>i t. x = manual_execution e ?ns j i t" using loop by auto
    then show ?thesis using scoped_job [OF job(1)] job(2) r Inr
      by (auto simp: manual_execution_def trigger_event_def split: option.splits)
  qed
qed auto

text \<open>
  Triggering an enabled job succeeds. Without database faults and with fresh identifiers, \<open>TriggerNow\<close> stores an execution within
  its five attempts unless the job already has five executions at or after the current microsecond (each duplicate moves the candidate
  time forward).
\<close>

theorem trigger_now_succeeds:
  assumes "alone e" "\<forall>n. de_fault (sv_db e n) = NoFault" "\<forall>n. sv_uuid e n \<notin> ex_ID ` set (t_executions db)"
    and "ns \<noteq> ''''" "GetJobWithScheduleScoped (sv_db e 0) j ns db = Inr (job, sch)" "job_Enabled job"
    and "Microsecond \<le> sv_now e 0" "card (taken_from db j (Truncate (sv_now e 0) Microsecond)) < 5"
  shows "\<exists>x ev. fst (TriggerNow e (Some ns) j db) = Inr (x, ev) \<and> Truncate (sv_now e 0) Microsecond \<le> ex_ScheduledAt x"
proof -
  have t: "trigger_time e 0 0 = Truncate (sv_now e 0) Microsecond" by (simp add: trigger_time_def)
  have "0 < Truncate (sv_now e 0) Microsecond" using Truncate_gt [of Microsecond "sv_now e 0"] assms(7) by linarith
  moreover have "j \<in> job_ID ` set (t_jobs db)" using scoped_job(1,3) [OF assms(5)] by blast
  ultimately obtain x where "fst (insert_loop e ns j 0 5 0 (ErrorMsg '''') db) = Inr x" "Truncate (sv_now e 0) Microsecond \<le> ex_ScheduledAt x"
    using insert_loop_succeeds [OF assms(1-3), of j 0 0 5 ns] assms(8) by (auto simp: t)
  moreover obtain db' where "insert_loop e ns j 0 5 0 (ErrorMsg '''') db = (Inr x, db')" using calculation by (metis prod.collapse)
  ultimately show ?thesis using assms(1,4,5,6)
    by (simp add: TriggerNow_def with_ns_def NamespaceFromContext_def ns_IsZero_def wrap_def seq_stmt_def give_def maxInsertAttempts_def)
qed

text \<open>
  The runs a user is shown are the job's next slots. \<open>GetNextRunTime\<close> answers, in order, the first slots of the schedule after the
  current time, five of them unless there are fewer, and none is left out; these are the slots the scheduler fires.
\<close>

theorem next_run_times:
  assumes "GetNextRunTime e c j db = (Inr (t, runs, sch), db')"
    and "\<forall>nxt. sv_parse e (sch_CronExpression sch) (sch_Timezone sch) = Inr nxt \<longrightarrow> cron_next S nxt"
  shows "t = hd runs \<and> sorted_wrt (<) runs \<and> set runs \<subseteq> {s \<in> S. sv_now e 0 < s} \<and> length runs \<le> 5
    \<and> (\<forall>s \<in> S. sv_now e 0 < s \<longrightarrow> s \<in> set runs \<or> length runs = 5 \<and> (\<forall>r \<in> set runs. r < s))"
proof -
  obtain nxt where nxt: "sv_parse e (sch_CronExpression sch) (sch_Timezone sch) = Inr nxt"
      and runs: "computeNextRuns e nxt 5 = runs" "t = hd runs"
    using assms(1) unfolding GetNextRunTime_def with_ns_def Let_def seq_stmt_def wrap_def
    by (auto simp: fail_def give_def split: if_splits sum.splits prod.splits list.splits) (metis list.sel(1))
  have "cron_next S nxt" using assms(2) nxt by blast
  from next_runs_slots [OF this, of 5 "sv_now e 0"] runs show ?thesis by (simp add: computeNextRuns_def)
qed

section \<open>Creating and reading a job\<close>

lemma upsert_tags_new:
  assumes "distinct (map tag_Key ts)" "i \<notin> fst ` set (t_tags db)" "i \<in> job_ID ` set (t_jobs db)"
  shows "upsert_tags i ts db = (Inr (), db\<lparr>t_tags := t_tags db @ map (Pair i) ts\<rparr>)"
proof -
  have "upsert_tags i ts db = (Inr (), db\<lparr>t_tags := t_tags db @ map (Pair i) ts\<rparr>)"
    if "distinct (map tag_Key ts)" "i \<in> job_ID ` set (t_jobs db)" "\<forall>t \<in> set ts. (i, tag_Key t) \<notin> (\<lambda>r. (fst r, tag_Key (snd r))) ` set (t_tags db)"
    for db
    using that
  proof (induction ts arbitrary: db)
    case (Cons t ts)
    let ?db = "db\<lparr>t_tags := t_tags db @ [(i, t)]\<rparr>"
    have "queryUpsertTag i t db = (Inr (), ?db)" using Cons.prems by (force simp: queryUpsertTag_def)
    moreover have "upsert_tags i ts ?db = (Inr (), ?db\<lparr>t_tags := t_tags ?db @ map (Pair i) ts\<rparr>)"
      using Cons.prems by (intro Cons.IH) (auto simp: image_iff)
    ultimately show ?case by simp
  qed simp
  then show ?thesis using assms by force
qed

lemma CreateJobAggregate_Inr:
  assumes "CreateJobAggregate ev job sch ts db = (Inr u, db')" "db_ok db" "distinct (map tag_Key ts)" "sch_ID sch = job_ScheduleID job"
  shows "job_ID job \<notin> job_ID ` set (t_jobs db)" "sch_ID sch \<notin> sch_ID ` set (t_schedules db)"
    "db' = db\<lparr>t_schedules := t_schedules db @ [sch], t_jobs := t_jobs db @ [job_row job], t_tags := t_tags db @ map (Pair (job_ID job)) ts\<rparr>"
proof -
  let ?db1 = "db\<lparr>t_schedules := t_schedules db @ [sch]\<rparr>"
  let ?db2 = "?db1\<lparr>t_jobs := t_jobs db @ [job_row job]\<rparr>"
  have fresh: "job_ID job \<notin> job_ID ` set (t_jobs db)" "sch_ID sch \<notin> sch_ID ` set (t_schedules db)"
    and tags: "upsert_tags (job_ID job) ts ?db2 = (Inr u, db')"
    using assms(1,4)
    by (auto simp: CreateJobAggregate_def run_stmt_def in_tx_def seq_stmt_def queryInsertSchedule_def queryInsertJob_def
        split: fault.splits prod.splits sum.splits if_splits)
  show "job_ID job \<notin> job_ID ` set (t_jobs db)" "sch_ID sch \<notin> sch_ID ` set (t_schedules db)" by fact+
  have "fst ` set (t_tags db) \<subseteq> job_ID ` set (t_jobs db)" using assms(2) by (auto simp: db_ok_def tags_ok_def set_col)
  then have "job_ID job \<notin> fst ` set (t_tags ?db2)" using fresh(1) by auto
  moreover have "job_ID job \<in> job_ID ` set (t_jobs ?db2)" by (simp add: job_row_def)
  ultimately have "upsert_tags (job_ID job) ts ?db2 = (Inr (), ?db2\<lparr>t_tags := t_tags ?db2 @ map (Pair (job_ID job)) ts\<rparr>)"
    using upsert_tags_new [OF assms(3)] by blast
  with tags show "db' = db\<lparr>t_schedules := t_schedules db @ [sch], t_jobs := t_jobs db @ [job_row job],
      t_tags := t_tags db @ map (Pair (job_ID job)) ts\<rparr>" by simp
qed

lemma CreateJob_svc_Inr:
  assumes "CreateJob_svc e c input db = (Inr (job, sch), db')" "alone e"
  shows "NamespaceFromContext c \<noteq> ''''" "job = new_job e (NamespaceFromContext c) input" "sch = new_schedule e input"
    "CreateJobAggregate (sv_db e 0) job sch (ci_Tags input) db = (Inr (), db')"
    "validate_url e (ci_WebhookURL input)" "checkTailnetHost e (NamespaceFromContext c) (ci_WebhookURL input) = None"
  using assms
  by (auto simp: CreateJob_svc_def with_ns_def fail_def give_def wrap_def seq_stmt_def ns_IsZero_def Let_def
      split: sum.splits option.splits if_splits prod.splits)

text \<open>The join of an appended job with its schedule.\<close>

lemma scoped_lookup:
  assumes "db_ok db" "job \<in> set (t_jobs db)" "sch \<in> set (t_schedules db)" "sch_ID sch = job_ScheduleID job"
  shows "queryGetJobWithScheduleScoped (job_ID job) ns db = (if job_Namespace job = ns then Some (job, sch) else None)"
proof -
  have d: "distinct (map job_ID (t_jobs db))" "distinct (map sch_ID (t_schedules db))"
    using assms(1) by (simp_all add: db_ok_def jobs_ok_def schedules_ok_def col_def)
  have only: "x = (job, sch)" if "x \<in> set (jobs_join_schedules db)" "job_ID (fst x) = job_ID job" for x
  proof -
    obtain j s where x: "x = (j, s)" by fastforce
    have m: "j \<in> set (t_jobs db)" "s \<in> set (t_schedules db)" "sch_ID s = job_ScheduleID j"
      using that(1) by (auto simp: x jobs_join_schedules_def)
    have "j = job" using distinct_key_eq [OF d(1) m(1) assms(2)] that(2) by (simp add: x)
    moreover have "s = sch" using distinct_key_eq [OF d(2) m(2) assms(3)] m(3) calculation assms(4) by simp
    ultimately show ?thesis by (simp add: x)
  qed
  have mem: "(job, sch) \<in> set (jobs_join_schedules db)" using assms(2,3,4) by (auto simp: jobs_join_schedules_def)
  show ?thesis
  proof (cases "job_Namespace job = ns")
    case True
    obtain x where x: "queryGetJobWithScheduleScoped (job_ID job) ns db = Some x"
      unfolding queryGetJobWithScheduleScoped_def using select_row_ex [OF mem, of "\<lambda>(j, s). job_ID j = job_ID job \<and> job_Namespace j = ns"] True by auto
    then have "x \<in> set (jobs_join_schedules db)" "job_ID (fst x) = job_ID job"
      by (auto simp: queryGetJobWithScheduleScoped_def dest!: select_row_SomeD)
    with only x True show ?thesis by simp
  next
    case False
    then have "\<forall>x \<in> set (jobs_join_schedules db). \<not> (case x of (j, s) \<Rightarrow> job_ID j = job_ID job \<and> job_Namespace j = ns)"
      using only by fastforce
    then show ?thesis using False by (simp add: queryGetJobWithScheduleScoped_def select_row_None_iff)
  qed
qed

lemma GetJob_svc_ok:
  assumes "alone e" "\<forall>n. de_fault (sv_db e n) = NoFault" "ns \<noteq> ''''"
  shows "GetJob_svc e (Some ns) i db =
    ((case queryGetJobWithScheduleScoped i ns db of
        None \<Rightarrow> Inl (Wrapped ''get job'' ErrJobNotFound)
      | Some js \<Rightarrow> Inr (js, queryGetTags (sv_collate e) i db, queryGetRecentExecutions i 5 db)), db)"
  using assms
  by (auto simp: GetJob_svc_def with_ns_def NamespaceFromContext_def ns_IsZero_def seq_stmt_def wrap_def give_def GetJobWithScheduleScoped_def
      row_or_def run_query_def GetTags_def GetRecentExecutions_def split: option.splits)

text \<open>
  A created job can be read back. After \<open>CreateJob\<close> succeeded, \<open>GetJob\<close> in the same namespace answers the job as it was returned (its
  timeout in whole milliseconds, as the column stores it), its schedule, the tags of the request and no executions; in any other
  namespace it answers that there is no such job.
\<close>

theorem create_get_roundtrip:
  assumes "alone e" "db_ok db" "distinct (map tag_Key (ci_Tags input))"
    and "CreateJob_svc e (Some ns) input db = (Inr (job, sch), db')"
    and "alone e2" "\<forall>n. de_fault (sv_db e2 n) = NoFault" "ns' \<noteq> ''''"
  shows "\<exists>tags. set tags = set (ci_Tags input) \<and> GetJob_svc e2 (Some ns') (job_ID job) db' =
    (if ns' = ns then Inr ((job_row job, sch), tags, []) else Inl (Wrapped ''get job'' ErrJobNotFound), db')"
proof -
  note new = CreateJob_svc_Inr [OF assms(4,1)]
  have ids: "sch_ID sch = job_ScheduleID job" "job_Namespace job = ns"
    by (simp_all add: new(2,3) new_job_def new_schedule_def NamespaceFromContext_def)
  note agg = CreateJobAggregate_Inr [OF new(4) assms(2,3) ids(1)]
  have ok: "db_ok db'" using CreateJobAggregate_ok [of db "sv_db e 0" job sch "ci_Tags input"] new(4) assms(2) by simp
  have row: "job_ID (job_row job) = job_ID job" "job_ScheduleID (job_row job) = job_ScheduleID job" "job_Namespace (job_row job) = ns"
    using ids(2) by (simp_all add: job_row_def)
  have look: "queryGetJobWithScheduleScoped (job_ID job) ns' db' = (if ns = ns' then Some (job_row job, sch) else None)"
    using scoped_lookup [OF ok, of "job_row job" sch ns'] agg(3) ids(1) row by simp
  have old: "fst ` set (t_tags db) \<subseteq> job_ID ` set (t_jobs db)" "ex_JobID ` set (t_executions db) \<subseteq> job_ID ` set (t_jobs db)"
    using assms(2) by (auto simp: db_ok_def tags_ok_def executions_ok_def set_col)
  then have "job_ID job \<notin> fst ` set (t_tags db)" "job_ID job \<notin> ex_JobID ` set (t_executions db)" using agg(1) by blast+
  then have "filter (\<lambda>(k, t). k = job_ID job) (t_tags db) = []" "filter (\<lambda>x. ex_JobID x = job_ID job) (t_executions db) = []"
    unfolding filter_empty_conv by (auto simp: rev_image_eqI)
  then have "set (queryGetTags (sv_collate e2) (job_ID job) db') = set (ci_Tags input)" "queryGetRecentExecutions (job_ID job) 5 db' = []"
    using agg(3) by (auto simp: queryGetTags_def queryGetRecentExecutions_def order_limit_def comp_def)
  then show ?thesis using GetJob_svc_ok [OF assms(5,6,7), of "job_ID job" db'] look by auto
qed

section \<open>A sample environment\<close>

text \<open>One slot, one minute after the zero time; the clock shows a microsecond.\<close>

definition sample_svc :: svc_env where
  "sample_svc = \<lparr>sv_db = (\<lambda>n. \<lparr>de_clk = 0, de_locked = {}, de_fault = NoFault\<rparr>), sv_other = (\<lambda>n db. db), sv_now = (\<lambda>n. Microsecond),
     sv_uuid = (\<lambda>n. of_nat n), sv_rand = Inr [], sv_sha256 = (\<lambda>s. []), sv_emit = Some (\<lambda>ev. Inr ()),
     sv_parse = (\<lambda>x tz. Inr (\<lambda>t. if t < Minute then Minute else 0)), sv_LoadLocation = (\<lambda>tz. Inr ()), sv_unicode = sample_unicode,
     sv_parseURL = (\<lambda>s. Inr \<lparr>u_Scheme = ''https'', u_Host = s, u_Hostname = s\<rparr>), sv_parseIP = (\<lambda>s. None), sv_parseAddr = (\<lambda>s. None),
     sv_toASCII = (\<lambda>s. None), sv_parseQuery = (\<lambda>s. Inr []), sv_encodeQuery = (\<lambda>v. ''''), sv_ilike = (\<lambda>a b. True), sv_collate = (\<lambda>s. []),
     sv_tailnetPolicy = None, sv_tailnetSuffix = ''''\<rparr>"

definition sample_input :: CreateJobInput where
  "sample_input = \<lparr>ci_Name = ''report'', ci_CronExpression = ''1 0 1 1 *'', ci_Timezone = ''UTC'', ci_WebhookURL = ''hooks.example'',
     ci_Secret = ''s'', ci_Timeout = 0, ci_Tags = [\<lparr>tag_Key = ''env'', tag_Value = ''prod''\<rparr>]\<rparr>"

definition sample_jobs :: db where
  "sample_jobs = snd (CreateJob_svc sample_svc (Some ''acme'') sample_input empty_db)"

lemma alone_sample: "alone sample_svc" "\<forall>n. de_fault (sv_db sample_svc n) = NoFault" "honest_faults sample_svc"
  by (simp_all add: alone_def sample_svc_def honest_faults_def)

lemma sample_created: "CreateJob_svc sample_svc (Some ''acme'') sample_input empty_db =
    (Inr (new_job sample_svc ''acme'' sample_input, new_schedule sample_svc sample_input), sample_jobs)"
proof -
  have "fst (CreateJob_svc sample_svc (Some ''acme'') sample_input empty_db) =
      Inr (new_job sample_svc ''acme'' sample_input, new_schedule sample_svc sample_input)" by code_simp
  then show ?thesis unfolding sample_jobs_def by (metis prod.collapse)
qed

lemma sample_job: "GetJobWithScheduleScoped (sv_db sample_svc 0) 1 ''acme'' sample_jobs =
    Inr (new_job sample_svc ''acme'' sample_input, new_schedule sample_svc sample_input)"
  by code_simp

lemma create_get_roundtrip_witness:
  "\<exists>tags. set tags = set (ci_Tags sample_input) \<and> GetJob_svc sample_svc (Some ''acme'') 1 sample_jobs =
     (Inr ((job_row (new_job sample_svc ''acme'' sample_input), new_schedule sample_svc sample_input), tags, []), sample_jobs)"
proof -
  have "distinct (map tag_Key (ci_Tags sample_input))" by (simp add: sample_input_def)
  from create_get_roundtrip [OF alone_sample(1) db_ok_empty this sample_created alone_sample(1,2), of "''acme''"] show ?thesis
    by (simp add: new_job_def sample_svc_def)
qed

lemma trigger_now_correct_witness:
  "\<exists>x ev. fst (TriggerNow sample_svc (Some ''acme'') 1 sample_jobs) = Inr (x, ev)
     \<and> snd (TriggerNow sample_svc (Some ''acme'') 1 sample_jobs) = sample_jobs\<lparr>t_executions := t_executions sample_jobs @ [x]\<rparr>"
proof -
  have "\<not> isl (fst (TriggerNow sample_svc (Some ''acme'') 1 sample_jobs))" by code_simp
  then obtain x ev where r: "fst (TriggerNow sample_svc (Some ''acme'') 1 sample_jobs) = Inr (x, ev)"
    by (metis isl_def old.sum.exhaust surj_pair)
  then have "TriggerNow sample_svc (Some ''acme'') 1 sample_jobs = (Inr (x, ev), snd (TriggerNow sample_svc (Some ''acme'') 1 sample_jobs))"
    by (metis prod.collapse)
  from trigger_now_correct [OF alone_sample(1,3) this] r show ?thesis by auto
qed

lemma trigger_now_succeeds_witness: "\<exists>x ev. fst (TriggerNow sample_svc (Some ''acme'') 1 sample_jobs) = Inr (x, ev)"
proof -
  have "t_executions sample_jobs = []" by code_simp
  then have "taken_from sample_jobs 1 t = {}" "\<forall>n. sv_uuid sample_svc n \<notin> ex_ID ` set (t_executions sample_jobs)" for t
    by (simp_all add: taken_from_def)
  moreover have "job_Enabled (new_job sample_svc ''acme'' sample_input)" by (simp add: new_job_def)
  moreover have "Microsecond \<le> sv_now sample_svc 0" by (simp add: sample_svc_def)
  ultimately show ?thesis
    using trigger_now_succeeds [OF alone_sample(1,2) _ _ sample_job] by fastforce
qed

lemma next_run_times_witness:
  "\<exists>t runs sch. fst (GetNextRunTime sample_svc (Some ''acme'') 1 sample_jobs) = Inr (t, runs, sch) \<and> set runs = {Minute}"
proof -
  have "\<not> isl (fst (GetNextRunTime sample_svc (Some ''acme'') 1 sample_jobs))" by code_simp
  then obtain t runs sch where r: "fst (GetNextRunTime sample_svc (Some ''acme'') 1 sample_jobs) = Inr (t, runs, sch)"
    by (metis isl_def old.sum.exhaust surj_pair)
  then have g: "GetNextRunTime sample_svc (Some ''acme'') 1 sample_jobs = (Inr (t, runs, sch), snd (GetNextRunTime sample_svc (Some ''acme'') 1 sample_jobs))"
    by (metis prod.collapse)
  have "cron_next {Minute} (\<lambda>t. if t < Minute then Minute else 0)" by (simp add: cron_next_def)
  then have "\<forall>nxt. sv_parse sample_svc (sch_CronExpression sch) (sch_Timezone sch) = Inr nxt \<longrightarrow> cron_next {Minute} nxt"
    by (simp add: sample_svc_def)
  from next_run_times [OF g this] have "set runs \<subseteq> {Minute}" "Minute \<in> set runs \<or> length runs = 5 \<and> (\<forall>r \<in> set runs. r < Minute)"
    by (auto simp: sample_svc_def)
  then have "set runs = {Minute}" by (cases runs) auto
  with r show ?thesis by blast
qed

end
