(* ===== verification/Tenancy.thy ===== *)
theory Tenancy
  imports Service
begin

text \<open>
  Tenants do not touch each other. What a namespace owns is its jobs, keys, executions, saved views and
  bulk batches, and what hangs off them. Every request of the service, whatever its arguments, leaves
  everything that other namespaces own as it was.
\<close>

section \<open>What a namespace owns\<close>

definition own_jobs :: "Namespace \<Rightarrow> db \<Rightarrow> Job list" where
  "own_jobs ns db = filter (\<lambda>j. job_Namespace j = ns) (t_jobs db)"

definition own_executions :: "Namespace \<Rightarrow> db \<Rightarrow> Execution list" where
  "own_executions ns db = filter (\<lambda>x. ex_Namespace x = ns) (t_executions db)"

definition own_keys :: "Namespace \<Rightarrow> db \<Rightarrow> APIKey list" where
  "own_keys ns db = filter (\<lambda>k. key_Namespace k = ns) (t_api_keys db)"

definition tenant :: "Namespace \<Rightarrow> db \<Rightarrow> db" where
  "tenant ns db =
     \<lparr>t_schedules = filter (\<lambda>s. sch_ID s \<in> job_ScheduleID ` set (own_jobs ns db)) (t_schedules db),
      t_jobs = own_jobs ns db,
      t_executions = own_executions ns db,
      t_delivery_attempts = filter (\<lambda>a. da_ExecutionID a \<in> ex_ID ` set (own_executions ns db)) (t_delivery_attempts db),
      t_tags = filter (\<lambda>r. fst r \<in> job_ID ` set (own_jobs ns db)) (t_tags db),
      t_api_keys = own_keys ns db,
      t_admin_sessions = filter (\<lambda>s. ses_APIKeyID s \<in> key_ID ` set (own_keys ns db)) (t_admin_sessions db),
      t_saved_views = filter (\<lambda>v. sv_Namespace v = ns) (t_saved_views db),
      t_bulk_batches = filter (\<lambda>b. bb_Namespace b = ns) (t_bulk_batches db)\<rparr>"

text \<open>What the service keeps true besides the constraints of the database: a schedule belongs to one job,
  an execution to the namespace of its job, a saved view to the namespace of its key.\<close>

definition tenant_ok :: "db \<Rightarrow> bool" where
  "tenant_ok db \<longleftrightarrow> db_ok db \<and> distinct (col job_ScheduleID (t_jobs db))
     \<and> (\<forall>x \<in> set (t_executions db). \<forall>j \<in> set (t_jobs db). ex_JobID x = job_ID j \<longrightarrow> ex_Namespace x = job_Namespace j)
     \<and> (\<forall>v \<in> set (t_saved_views db). \<forall>k \<in> set (t_api_keys db). sv_APIKeyID v = key_ID k \<longrightarrow> sv_Namespace v = key_Namespace k)"

lemma tenant_ok_empty: "tenant_ok empty_db"
  by (simp add: tenant_ok_def db_ok_empty) (simp add: empty_db_def)

definition isolated :: "Namespace \<Rightarrow> db \<Rightarrow> db \<Rightarrow> bool" where
  "isolated other a b \<longleftrightarrow> (tenant_ok a \<longrightarrow> tenant_ok b \<and> tenant other b = tenant other a)"

interpretation iso: statement_relation "isolated other" for other
  by unfold_locales (auto simp: isolated_def)

lemmas tenant_defs = tenant_def own_jobs_def own_executions_def own_keys_def

text \<open>Rows with different keys: the identifiers of two namespaces are disjoint.\<close>

lemma job_id_owner:
  assumes "tenant_ok db" "j \<in> set (t_jobs db)" "j' \<in> set (t_jobs db)"
  shows "job_ID j = job_ID j' \<longleftrightarrow> j = j'" "job_ScheduleID j = job_ScheduleID j' \<longleftrightarrow> j = j'"
proof -
  have "distinct (map job_ID (t_jobs db))" "distinct (map job_ScheduleID (t_jobs db))"
    using assms(1) by (simp_all add: tenant_ok_def db_ok_def jobs_ok_def col_def)
  then show "job_ID j = job_ID j' \<longleftrightarrow> j = j'" "job_ScheduleID j = job_ScheduleID j' \<longleftrightarrow> j = j'"
    using distinct_key_eq [where k = job_ID] distinct_key_eq [where k = job_ScheduleID] assms(2,3) by blast+
qed

lemma exec_id_owner:
  assumes "tenant_ok db" "x \<in> set (t_executions db)" "x' \<in> set (t_executions db)"
  shows "ex_ID x = ex_ID x' \<longleftrightarrow> x = x'"
proof -
  have "distinct (map ex_ID (t_executions db))" using assms(1) by (simp add: tenant_ok_def db_ok_def executions_ok_def col_def)
  then show ?thesis using distinct_key_eq [where k = ex_ID] assms(2,3) by blast
qed

lemma key_id_owner:
  assumes "tenant_ok db" "k \<in> set (t_api_keys db)" "k' \<in> set (t_api_keys db)"
  shows "key_ID k = key_ID k' \<longleftrightarrow> k = k'"
proof -
  have "distinct (map key_ID (t_api_keys db))" using assms(1) by (simp add: tenant_ok_def db_ok_def keys_ok_def col_def)
  then show ?thesis using distinct_key_eq [where k = key_ID] assms(2,3) by blast
qed

lemma not_owner:
  assumes "tenant_ok db" "j \<in> set (t_jobs db)" "job_Namespace j \<noteq> other"
  shows "job_ID j \<notin> job_ID ` set (own_jobs other db)" "job_ScheduleID j \<notin> job_ScheduleID ` set (own_jobs other db)"
  using job_id_owner [OF assms(1,2)] assms(3) by (auto simp: own_jobs_def)

section \<open>Statements\<close>

lemma tenant_app_executions:
  assumes "ex_Namespace x \<noteq> other"
  shows "tenant other (db\<lparr>t_executions := t_executions db @ [x]\<rparr>) = tenant other db"
proof -
  have "own_executions other (db\<lparr>t_executions := t_executions db @ [x]\<rparr>) = own_executions other db"
    using assms by (simp add: own_executions_def)
  then show ?thesis by (simp add: tenant_def own_jobs_def own_keys_def)
qed

lemma InsertExecution_isolated:
  assumes "ex_Namespace x \<noteq> other" "\<And>j. tenant_ok db \<Longrightarrow> j \<in> set (t_jobs db) \<Longrightarrow> job_ID j = ex_JobID x \<Longrightarrow> job_Namespace j = ex_Namespace x"
  shows "isolated other db (snd (queryInsertExecution x db))"
  unfolding isolated_def
proof
  assume ok: "tenant_ok db"
  have "tenant_ok (snd (queryInsertExecution x db))"
    using ok queryInsertExecution_ok [of db x] assms(2) [OF ok]
    by (auto simp: tenant_ok_def queryInsertExecution_def execution_row_def)
  moreover have "tenant other (snd (queryInsertExecution x db)) = tenant other db"
    using assms(1) tenant_app_executions [of "execution_row x" other db] by (simp add: queryInsertExecution_def)
  ultimately show "tenant_ok (snd (queryInsertExecution x db)) \<and> tenant other (snd (queryInsertExecution x db)) = tenant other db" ..
qed

text \<open>Writes to the rows of one table, by namespace.\<close>

lemma tenant_upd_executions:
  assumes "\<And>x. P x \<Longrightarrow> ex_Namespace x \<noteq> other \<and> ex_Namespace (f x) = ex_Namespace x"
  shows "tenant other (db\<lparr>t_executions := upd_where P f (t_executions db)\<rparr>) = tenant other db"
proof -
  have "own_executions other (db\<lparr>t_executions := upd_where P f (t_executions db)\<rparr>) = own_executions other db"
    using assms by (simp add: own_executions_def filter_upd_where_other)
  then show ?thesis by (simp add: tenant_def own_jobs_def own_keys_def)
qed

lemma tenant_upd_jobs:
  assumes "\<And>j. P j \<Longrightarrow> job_Namespace j \<noteq> other \<and> job_Namespace (f j) = job_Namespace j"
  shows "tenant other (db\<lparr>t_jobs := upd_where P f (t_jobs db)\<rparr>) = tenant other db"
proof -
  have "own_jobs other (db\<lparr>t_jobs := upd_where P f (t_jobs db)\<rparr>) = own_jobs other db"
    using assms by (simp add: own_jobs_def filter_upd_where_other)
  then show ?thesis by (simp add: tenant_def own_executions_def own_keys_def)
qed

lemma tenant_ok_upd_jobs:
  assumes "tenant_ok db" "\<And>j. P j \<Longrightarrow> job_ID (f j) = job_ID j \<and> job_ScheduleID (f j) = job_ScheduleID j \<and> job_Namespace (f j) = job_Namespace j"
  shows "tenant_ok (db\<lparr>t_jobs := upd_where P f (t_jobs db)\<rparr>)"
proof -
  have "db_ok (db\<lparr>t_jobs := upd_where P f (t_jobs db)\<rparr>)" using assms by (intro db_ok_upd_jobs) (auto simp: tenant_ok_def)
  then show ?thesis using assms by (auto simp: tenant_ok_def elim!: in_upd_whereE)
qed

lemma Ack_isolated: "ns \<noteq> other \<Longrightarrow> isolated other db (snd (queryAckExecution clk i ns db))"
  using queryAckExecution_ok [of db clk i ns]
  by (auto simp: isolated_def tenant_ok_def queryAckExecution_def Let_def intro!: tenant_upd_executions elim!: in_upd_whereE)

lemma set_enabled_isolated: "ns \<noteq> other \<Longrightarrow> isolated other db (set_enabled clk i ns b db)"
  by (auto simp: isolated_def set_enabled_def intro!: tenant_upd_jobs tenant_ok_upd_jobs)

lemma queryUpdateJobConfiguration_isolated: "job_Namespace j \<noteq> other \<Longrightarrow> isolated other db (snd (queryUpdateJobConfiguration j db))"
  by (auto simp: isolated_def queryUpdateJobConfiguration_def Let_def intro!: tenant_upd_jobs tenant_ok_upd_jobs)

lemma queryUpdateSchedule_isolated:
  assumes "tenant_ok db \<Longrightarrow> sch_ID sch \<notin> job_ScheduleID ` set (own_jobs other db)"
  shows "isolated other db (queryUpdateSchedule sch db)"
proof -
  have "tenant other (queryUpdateSchedule sch db) = tenant other db" if "tenant_ok db"
    using assms [OF that] unfolding queryUpdateSchedule_def tenant_def
    by (simp add: own_jobs_def own_executions_def own_keys_def) (intro filter_upd_where_other; auto)
  then show ?thesis using queryUpdateSchedule_ok [of db sch] by (auto simp: isolated_def tenant_ok_def) (auto simp: queryUpdateSchedule_def)
qed

lemma tags_isolated:
  assumes "tenant_ok db \<Longrightarrow> db_ok (db\<lparr>t_tags := ts\<rparr>)"
    and "tenant_ok db \<Longrightarrow> filter (\<lambda>r. fst r \<in> job_ID ` set (own_jobs other db)) ts = filter (\<lambda>r. fst r \<in> job_ID ` set (own_jobs other db)) (t_tags db)"
  shows "isolated other db (db\<lparr>t_tags := ts\<rparr>)"
  using assms by (auto simp: isolated_def tenant_ok_def tenant_def own_jobs_def own_executions_def own_keys_def)

lemma queryDeleteTags_isolated:
  assumes "tenant_ok db \<Longrightarrow> i \<notin> job_ID ` set (own_jobs other db)"
  shows "isolated other db (queryDeleteTags i db)"
  unfolding queryDeleteTags_def
  using assms queryDeleteTags_ok [of db i]
  by (intro tags_isolated filter_del_where_other) (auto simp: tenant_ok_def queryDeleteTags_def)

lemma queryUpsertTag_isolated:
  assumes "tenant_ok db \<Longrightarrow> i \<notin> job_ID ` set (own_jobs other db)"
  shows "isolated other db (snd (queryUpsertTag i t db))"
proof -
  have "db_ok (db\<lparr>t_tags := t_tags (snd (queryUpsertTag i t db))\<rparr>)" if "tenant_ok db"
    using queryUpsertTag_ok [of db i t] that by (auto simp: queryUpsertTag_def tenant_ok_def split: if_splits)
  moreover have "filter (\<lambda>r. fst r \<in> job_ID ` set (own_jobs other db)) (t_tags (snd (queryUpsertTag i t db)))
      = filter (\<lambda>r. fst r \<in> job_ID ` set (own_jobs other db)) (t_tags db)" if "tenant_ok db"
    using assms [OF that] filter_upd_where_other [of "\<lambda>(k, u). k = i \<and> tag_Key u = tag_Key t" "\<lambda>r. fst r \<in> job_ID ` set (own_jobs other db)"
        "\<lambda>(k, u). (k, u\<lparr>tag_Value := tag_Value t\<rparr>)" "t_tags db"]
    by (auto simp: queryUpsertTag_def)
  ultimately have "isolated other db (db\<lparr>t_tags := t_tags (snd (queryUpsertTag i t db))\<rparr>)" by (intro tags_isolated)
  moreover have "snd (queryUpsertTag i t db) = db\<lparr>t_tags := t_tags (snd (queryUpsertTag i t db))\<rparr>" by (simp add: queryUpsertTag_def)
  ultimately show ?thesis by metis
qed

text \<open>Statements of one transaction on a job that another namespace does not own.\<close>

definition guarded :: "Namespace \<Rightarrow> uuid \<Rightarrow> uuid \<Rightarrow> db \<Rightarrow> db \<Rightarrow> bool" where
  "guarded other i s a b \<longleftrightarrow>
     (i \<notin> job_ID ` set (own_jobs other a) \<and> s \<notin> job_ScheduleID ` set (own_jobs other a) \<longrightarrow> isolated other a b)"

lemma tenant_jobs: "tenant other b = tenant other a \<Longrightarrow> own_jobs other b = own_jobs other a"
  by (simp add: tenant_def)

interpretation guard: statement_relation "guarded other i s" for other i s
proof
  show "guarded other i s db db" for db by (simp add: guarded_def iso.refl)
  show "guarded other i s a c" if "guarded other i s a b" "guarded other i s b c" for a b c
    using that tenant_jobs [of other b a] by (auto simp: guarded_def isolated_def)
qed

lemma UpdateJobAggregate_isolated:
  assumes "job_Namespace job \<noteq> other"
    and "tenant_ok db \<Longrightarrow> \<exists>j \<in> set (t_jobs db). job_ID j = job_ID job \<and> job_Namespace j = job_Namespace job \<and> job_ScheduleID j = sch_ID sch"
  shows "isolated other db (snd (UpdateJobAggregate ev job sch ts db))"
proof -
  have "guarded other (job_ID job) (sch_ID sch) db (snd (UpdateJobAggregate ev job sch ts db))"
    using assms(1) queryUpdateSchedule_isolated queryUpdateJobConfiguration_isolated queryDeleteTags_isolated queryUpsertTag_isolated
    by (intro guard.UpdateJobAggregate) (auto simp: guarded_def)
  moreover have "job_ID job \<notin> job_ID ` set (own_jobs other db)" "sch_ID sch \<notin> job_ScheduleID ` set (own_jobs other db)" if "tenant_ok db"
    using assms(2) [OF that] not_owner [OF that, of _ other] assms(1) by metis+
  ultimately show ?thesis by (auto simp: guarded_def isolated_def)
qed

lemma tenant_app_jobs:
  assumes "job_Namespace j \<noteq> other"
  shows "tenant other (db\<lparr>t_jobs := t_jobs db @ [j]\<rparr>) = tenant other db"
proof -
  have "own_jobs other (db\<lparr>t_jobs := t_jobs db @ [j]\<rparr>) = own_jobs other db" using assms by (simp add: own_jobs_def)
  then show ?thesis by (simp add: tenant_def own_executions_def own_keys_def)
qed

lemma insert_job_isolated:
  assumes "job_Namespace job \<noteq> other" "job_ScheduleID job = sch_ID sch"
    and "sch_ID sch \<notin> sch_ID ` set (t_schedules db)" "job_ID job \<notin> job_ID ` set (t_jobs db)"
  shows "isolated other db (db\<lparr>t_schedules := t_schedules db @ [sch], t_jobs := t_jobs db @ [job_row job]\<rparr>)"
  unfolding isolated_def
proof
  let ?db1 = "db\<lparr>t_schedules := t_schedules db @ [sch]\<rparr>"
  let ?db2 = "db\<lparr>t_schedules := t_schedules db @ [sch], t_jobs := t_jobs db @ [job_row job]\<rparr>"
  have row: "job_Namespace (job_row job) = job_Namespace job" "job_ID (job_row job) = job_ID job" "job_ScheduleID (job_row job) = job_ScheduleID job"
    by (simp_all add: job_row_def)
  assume ok: "tenant_ok db"
  then have dbok: "db_ok db" by (simp add: tenant_ok_def)
  have "db_ok (snd (queryInsertJob job (snd (queryInsertSchedule sch db))))"
    by (intro queryInsertJob_ok queryInsertSchedule_ok dbok)
  then have "db_ok ?db2" using assms by (simp add: queryInsertSchedule_def queryInsertJob_def)
  moreover have "job_ScheduleID job \<notin> job_ScheduleID ` set (t_jobs db)" "job_ID job \<notin> ex_JobID ` set (t_executions db)"
    using dbok assms by (auto simp: db_ok_def jobs_ok_def executions_ok_def set_col)
  ultimately have "tenant_ok ?db2" using ok row by (auto simp: tenant_ok_def set_col) (metis imageI)
  moreover have "sch_ID sch \<notin> job_ScheduleID ` set (own_jobs other db)"
    using dbok assms by (auto simp: db_ok_def jobs_ok_def own_jobs_def set_col)
  then have "tenant other ?db1 = tenant other db" by (simp add: tenant_def own_jobs_def own_executions_def own_keys_def)
  then have "tenant other ?db2 = tenant other db" using tenant_app_jobs [of "job_row job" other ?db1] assms(1) row by simp
  ultimately show "tenant_ok ?db2 \<and> tenant other ?db2 = tenant other db" ..
qed

lemma CreateJobAggregate_isolated:
  assumes "job_Namespace job \<noteq> other" "job_ScheduleID job = sch_ID sch"
  shows "isolated other db (snd (CreateJobAggregate ev job sch ts db))"
proof -
  let ?body = "seq_stmt (queryInsertSchedule sch) (\<lambda>_. seq_stmt (queryInsertJob job) (\<lambda>_. upsert_tags (job_ID job) ts))"
  have "isolated other db (snd (in_tx ?body db))" for db
  proof (cases "sch_ID sch \<in> sch_ID ` set (t_schedules db) \<or> job_ID job \<in> job_ID ` set (t_jobs db)")
    case True
    then have "snd (in_tx ?body db) = db"
      by (auto simp: in_tx_def seq_stmt_def queryInsertSchedule_def queryInsertJob_def)
    then show ?thesis by (simp add: iso.refl)
  next
    case False
    let ?db2 = "db\<lparr>t_schedules := t_schedules db @ [sch], t_jobs := t_jobs db @ [job_row job]\<rparr>"
    have step: "?body db = upsert_tags (job_ID job) ts ?db2"
      using False assms(2) by (simp add: seq_stmt_def queryInsertSchedule_def queryInsertJob_def)
    have "guarded other (job_ID job) (sch_ID sch) ?db2 (snd (upsert_tags (job_ID job) ts ?db2))"
      using queryUpsertTag_isolated by (intro guard.upsert_tags) (auto simp: guarded_def)
    moreover have "job_row job \<in> set (t_jobs ?db2)" by simp
    ultimately have "isolated other ?db2 (snd (upsert_tags (job_ID job) ts ?db2))"
      using not_owner [of ?db2 "job_row job" other] assms by (auto simp: guarded_def isolated_def job_row_def)
    with insert_job_isolated [OF assms] False have "isolated other db (snd (?body db))" unfolding step by (blast intro: iso.trans)
    then show ?thesis by (rule iso.in_tx)
  qed
  then show ?thesis unfolding CreateJobAggregate_def by (rule iso.run_stmt)
qed

text \<open>Deleting a job takes only what hangs off it.\<close>

lemma tenant_del:
  assumes jobs: "\<And>j. j \<in> set (t_jobs db) \<Longrightarrow> PJ j \<Longrightarrow> job_Namespace j \<noteq> other"
    and execs: "\<And>x. x \<in> set (t_executions db) \<Longrightarrow> PX x \<Longrightarrow> ex_Namespace x \<noteq> other"
    and attempts: "\<And>a. PA a \<Longrightarrow> da_ExecutionID a \<notin> ex_ID ` set (own_executions other db)"
    and tags: "\<And>r. PT r \<Longrightarrow> fst r \<notin> job_ID ` set (own_jobs other db)"
    and schedules: "\<And>s. PS s \<Longrightarrow> sch_ID s \<notin> job_ScheduleID ` set (own_jobs other db)"
  shows "tenant other (db\<lparr>t_delivery_attempts := del_where PA (t_delivery_attempts db), t_executions := del_where PX (t_executions db),
      t_tags := del_where PT (t_tags db), t_schedules := del_where PS (t_schedules db), t_jobs := del_where PJ (t_jobs db)\<rparr>) = tenant other db"
    (is "tenant other ?db = _")
proof -
  have "own_jobs other ?db = own_jobs other db" using jobs by (auto simp: own_jobs_def del_where_def filter_filter intro: filter_cong)
  moreover have "own_executions other ?db = own_executions other db"
    using execs by (auto simp: own_executions_def del_where_def filter_filter intro: filter_cong)
  moreover have "filter (\<lambda>a. da_ExecutionID a \<in> ex_ID ` set (own_executions other db)) (del_where PA (t_delivery_attempts db))
      = filter (\<lambda>a. da_ExecutionID a \<in> ex_ID ` set (own_executions other db)) (t_delivery_attempts db)"
    using attempts by (intro filter_del_where_other)
  moreover have "filter (\<lambda>r. fst r \<in> job_ID ` set (own_jobs other db)) (del_where PT (t_tags db))
      = filter (\<lambda>r. fst r \<in> job_ID ` set (own_jobs other db)) (t_tags db)" using tags by (intro filter_del_where_other)
  moreover have "filter (\<lambda>s. sch_ID s \<in> job_ScheduleID ` set (own_jobs other db)) (del_where PS (t_schedules db))
      = filter (\<lambda>s. sch_ID s \<in> job_ScheduleID ` set (own_jobs other db)) (t_schedules db)" using schedules by (intro filter_del_where_other)
  ultimately show ?thesis by (simp add: tenant_def own_keys_def)
qed

lemma queryDeleteJob_isolated:
  assumes "ns \<noteq> other"
  shows "isolated other db (snd (queryDeleteJob i ns db))"
  unfolding isolated_def
proof
  assume ok: "tenant_ok db"
  let ?auth = "filter (\<lambda>j. job_ID j = i \<and> job_Namespace j = ns) (t_jobs db)"
  let ?ids = "job_ID ` set ?auth" and ?scheds = "job_ScheduleID ` set ?auth"
  let ?execs = "ex_ID ` {e \<in> set (t_executions db). ex_JobID e \<in> ?ids}"
  let ?del = "db\<lparr>t_delivery_attempts := del_where (\<lambda>a. da_ExecutionID a \<in> ?execs) (t_delivery_attempts db),
      t_executions := del_where (\<lambda>e. ex_JobID e \<in> ?ids) (t_executions db), t_tags := del_where (\<lambda>r. fst r \<in> ?ids) (t_tags db),
      t_schedules := del_where (\<lambda>s. sch_ID s \<in> ?scheds) (t_schedules db), t_jobs := del_where (\<lambda>j. job_ID j \<in> ?ids) (t_jobs db)\<rparr>"
  have res: "snd (queryDeleteJob i ns db) = db \<or> snd (queryDeleteJob i ns db) = ?del"
    by (simp add: queryDeleteJob_def Let_def case_prod_unfold)
  have auth: "j \<in> set (t_jobs db)" "job_Namespace j \<noteq> other" if "j \<in> set ?auth" for j using that assms by auto
  have disj: "?ids \<inter> job_ID ` set (own_jobs other db) = {}" "?scheds \<inter> job_ScheduleID ` set (own_jobs other db) = {}"
    using not_owner [OF ok] auth by blast+
  have exec_ns: "ex_Namespace x \<noteq> other" if x: "x \<in> set (t_executions db)" "ex_JobID x \<in> ?ids" for x
  proof -
    obtain j where "j \<in> set (t_jobs db)" "ex_JobID x = job_ID j" "job_Namespace j \<noteq> other" using x(2) auth by blast
    then show ?thesis using ok x(1) by (auto simp: tenant_ok_def)
  qed
  have "tenant other ?del = tenant other db"
  proof (rule tenant_del)
    show "da_ExecutionID a \<notin> ex_ID ` set (own_executions other db)" if "da_ExecutionID a \<in> ?execs" for a
      using that exec_id_owner [OF ok] exec_ns by (fastforce simp: own_executions_def)
  qed (use disj exec_ns in \<open>auto simp: own_jobs_def\<close>)
  moreover have "db_ok (snd (queryDeleteJob i ns db))" using ok by (intro queryDeleteJob_ok) (simp add: tenant_ok_def)
  ultimately show "tenant_ok (snd (queryDeleteJob i ns db)) \<and> tenant other (snd (queryDeleteJob i ns db)) = tenant other db"
    using res ok by (auto simp: tenant_ok_def)
qed

section \<open>Keys, views and batches\<close>

lemma tenant_app_keys:
  assumes "key_Namespace k \<noteq> other"
  shows "tenant other (db\<lparr>t_api_keys := t_api_keys db @ [k]\<rparr>) = tenant other db"
proof -
  have "own_keys other (db\<lparr>t_api_keys := t_api_keys db @ [k]\<rparr>) = own_keys other db" using assms by (simp add: own_keys_def)
  then show ?thesis by (simp add: tenant_def own_executions_def own_jobs_def)
qed

lemma queryInsertAPIKey_isolated:
  assumes "key_Namespace k \<noteq> other"
  shows "isolated other db (snd (queryInsertAPIKey k db))"
  unfolding isolated_def
proof
  assume ok: "tenant_ok db"
  have "db_ok (snd (queryInsertAPIKey k db))" using ok by (intro queryInsertAPIKey_ok) (simp add: tenant_ok_def)
  moreover have "sv_APIKeyID v \<noteq> key_ID k" if "v \<in> set (t_saved_views db)" "key_ID k \<notin> key_ID ` set (t_api_keys db)" for v
    using ok that by (auto simp: tenant_ok_def db_ok_def views_ok_def set_col) (metis imageI subsetD)
  ultimately have "tenant_ok (snd (queryInsertAPIKey k db))"
    using ok by (simp add: tenant_ok_def queryInsertAPIKey_def api_key_row_def)
  moreover have "tenant other (snd (queryInsertAPIKey k db)) = tenant other db"
    using assms tenant_app_keys [of "api_key_row k" other db] by (simp add: queryInsertAPIKey_def api_key_row_def)
  ultimately show "tenant_ok (snd (queryInsertAPIKey k db)) \<and> tenant other (snd (queryInsertAPIKey k db)) = tenant other db" ..
qed

lemma queryDeleteKey_isolated:
  assumes "ns \<noteq> other"
  shows "isolated other db (snd (queryDeleteKey i ns db))"
  unfolding isolated_def
proof
  assume ok: "tenant_ok db"
  let ?P = "\<lambda>k. key_ID k = i \<and> key_Namespace k = ns"
  let ?ids = "key_ID ` {k \<in> set (t_api_keys db). ?P k}"
  let ?del = "db\<lparr>t_api_keys := del_where ?P (t_api_keys db), t_admin_sessions := del_where (\<lambda>s. ses_APIKeyID s \<in> ?ids) (t_admin_sessions db),
      t_saved_views := del_where (\<lambda>v. sv_APIKeyID v \<in> ?ids) (t_saved_views db)\<rparr>"
  have res: "snd (queryDeleteKey i ns db) = ?del" by (simp add: queryDeleteKey_def Let_def)
  have keys: "own_keys other ?del = own_keys other db" using assms by (auto simp: own_keys_def intro!: filter_del_where_other)
  have "?ids \<inter> key_ID ` set (own_keys other db) = {}" using key_id_owner [OF ok] assms by (fastforce simp: own_keys_def)
  then have "filter (\<lambda>s. ses_APIKeyID s \<in> key_ID ` set (own_keys other db)) (del_where (\<lambda>s. ses_APIKeyID s \<in> ?ids) (t_admin_sessions db))
      = filter (\<lambda>s. ses_APIKeyID s \<in> key_ID ` set (own_keys other db)) (t_admin_sessions db)" by (intro filter_del_where_other) blast
  moreover have "filter (\<lambda>v. sv_Namespace v = other) (del_where (\<lambda>v. sv_APIKeyID v \<in> ?ids) (t_saved_views db))
      = filter (\<lambda>v. sv_Namespace v = other) (t_saved_views db)"
    using ok assms unfolding del_where_def filter_filter tenant_ok_def by (intro filter_cong) auto
  ultimately have "tenant other ?del = tenant other db" using keys by (simp add: tenant_def own_jobs_def own_executions_def)
  moreover have "db_ok (snd (queryDeleteKey i ns db))" using ok by (intro queryDeleteKey_ok) (simp add: tenant_ok_def)
  ultimately show "tenant_ok (snd (queryDeleteKey i ns db)) \<and> tenant other (snd (queryDeleteKey i ns db)) = tenant other db"
    using ok res by (auto simp: tenant_ok_def)
qed

lemma upsert_view_isolated:
  assumes "ns \<noteq> other" "actor_enabled ns actor db"
  shows "isolated other db (snd (upsert_view clk newID ns actor name query db))"
  unfolding isolated_def
proof
  assume ok: "tenant_ok db"
  let ?r = "snd (upsert_view clk newID ns actor name query db)"
  obtain k where k: "k \<in> set (t_api_keys db)" "key_ID k = actor" "key_Namespace k = ns"
    using assms(2) by (auto simp: actor_enabled_def)
  have owner: "key_Namespace k' = ns" if "k' \<in> set (t_api_keys db)" "key_ID k' = actor" for k'
    using key_id_owner [OF ok that(1) k(1)] that(2) k(2,3) by simp
  have "tenant other ?r = tenant other db"
    using assms(1) by (auto simp: upsert_view_def tenant_def own_jobs_def own_executions_def own_keys_def intro!: filter_upd_where_other)
  moreover have "tenant_ok ?r"
  proof -
    have same: "t_jobs ?r = t_jobs db" "t_executions ?r = t_executions db" "t_api_keys ?r = t_api_keys db" by (simp_all add: upsert_view_def)
    have "(\<exists>w \<in> set (t_saved_views db). sv_APIKeyID w = sv_APIKeyID v \<and> sv_Namespace w = sv_Namespace v)
        \<or> sv_APIKeyID v = actor \<and> sv_Namespace v = ns" if "v \<in> set (t_saved_views ?r)" for v
      using that by (auto simp: upsert_view_def set_upd_where split: if_splits)
    then have "sv_Namespace v = key_Namespace k" if "v \<in> set (t_saved_views ?r)" "k \<in> set (t_api_keys db)" "sv_APIKeyID v = key_ID k" for v k
      using that ok owner unfolding tenant_ok_def by metis
    then show ?thesis using ok upsert_view_ok [of db clk newID ns actor name query] by (simp add: tenant_ok_def same)
  qed
  ultimately show "tenant_ok ?r \<and> tenant other ?r = tenant other db" by blast
qed

lemma authorized:
  "snd (seq_stmt (authorizedActor ns actor) q db) = (if actor_enabled ns actor db then snd (q () db) else db)"
  by (simp add: seq_stmt_def authorizedActor_def)

lemma SaveView_isolated: "ns \<noteq> other \<Longrightarrow> isolated other db (snd (SaveView ev newID ns actor name query db))"
  unfolding SaveView_def
  by (intro iso.run_stmt iso.in_tx) (auto simp: authorized iso.refl upsert_view_isolated)

lemma DeleteView_isolated:
  assumes "ns \<noteq> other"
  shows "isolated other db (snd (DeleteView ev ns actor i db))"
proof -
  let ?P = "\<lambda>db v. view_ID (sv_View v) = i \<and> sv_APIKeyID v = actor \<and> sv_Namespace v = ns \<and> actor_enabled ns actor db"
  have "isolated other db (db\<lparr>t_saved_views := del_where (?P db) (t_saved_views db)\<rparr>)" for db
    using assms db_ok_del_views [of db "?P db"]
    by (auto simp: isolated_def tenant_ok_def tenant_def own_jobs_def own_executions_def own_keys_def intro!: filter_del_where_other)
  then show ?thesis unfolding DeleteView_def snd_affected_or Let_def by (intro iso.run_stmt iso.ok_stmt) simp
qed

lemma batches_isolated:
  assumes "tenant_ok db \<Longrightarrow> db_ok (db\<lparr>t_bulk_batches := bs\<rparr>)"
    and "tenant_ok db \<Longrightarrow> filter (\<lambda>b. bb_Namespace b = other) bs = filter (\<lambda>b. bb_Namespace b = other) (t_bulk_batches db)"
  shows "isolated other db (db\<lparr>t_bulk_batches := bs\<rparr>)"
  using assms by (auto simp: isolated_def tenant_ok_def tenant_def own_jobs_def own_executions_def own_keys_def)

lemma PreviewBulk_isolated:
  assumes "ns \<noteq> other"
  shows "isolated other db (snd (PreviewBulk ev i ns actor action ids db))"
proof -
  have del: "isolated other db (db\<lparr>t_bulk_batches := del_where (\<lambda>b. pending_row ns actor b \<and> Q b) (t_bulk_batches db)\<rparr>)" for db Q
    using assms db_ok_del_batches [of db]
    by (intro batches_isolated filter_del_where_other) (auto simp: tenant_ok_def pending_row_def)
  have ins: "isolated other db (snd (insert_batch clk i ns actor action items db))" for db clk items
  proof (cases "fst (insert_batch clk i ns actor action items db)")
    case (Inl e)
    then show ?thesis by (auto simp: insert_batch_def iso.refl Let_def split: if_splits)
  next
    case (Inr b)
    then obtain row where "snd (insert_batch clk i ns actor action items db) = db\<lparr>t_bulk_batches := t_bulk_batches db @ [row]\<rparr>" "bb_Namespace row = ns"
      by (auto simp: insert_batch_def Let_def split: if_splits)
    then show ?thesis using assms insert_batch_ok [of db clk i ns actor action items]
      by (auto simp: tenant_ok_def intro!: batches_isolated)
  qed
  show ?thesis unfolding PreviewBulk_def
    by (intro iso.run_stmt iso.in_tx)
      (auto simp: authorized Let_def iso.refl del split: sum.split intro: iso.trans [OF del ins])
qed

lemma confirm_items_batches: "t_bulk_batches (snd (confirm_items clk se ue ns act its db)) = t_bulk_batches db"
  by (rule confirm_items_inv [where Q = "\<lambda>d. t_bulk_batches d = t_bulk_batches db"]) (simp_all add: set_enabled_def)

lemma upd_batch_isolated:
  assumes "ns \<noteq> other" "row \<in> set (t_bulk_batches db)" "bulk_ID (bb_Batch row) = i" "bb_Namespace row = ns"
    and f: "\<And>b. bulk_ID (bb_Batch (f b)) = bulk_ID (bb_Batch b) \<and> bb_Namespace (f b) = bb_Namespace b"
  shows "isolated other db (db\<lparr>t_bulk_batches := upd_where (\<lambda>b. bulk_ID (bb_Batch b) = i) f (t_bulk_batches db)\<rparr>)"
proof (rule batches_isolated)
  assume ok: "tenant_ok db"
  show "db_ok (db\<lparr>t_bulk_batches := upd_where (\<lambda>b. bulk_ID (bb_Batch b) = i) f (t_bulk_batches db)\<rparr>)"
    using ok f by (intro db_ok_upd_batches) (auto simp: tenant_ok_def)
  have d: "distinct (map (\<lambda>b. bulk_ID (bb_Batch b)) (t_bulk_batches db))"
    using ok by (simp add: tenant_ok_def db_ok_def batches_ok_def col_def)
  have "bb_Namespace b = ns" if "b \<in> set (t_bulk_batches db)" "bulk_ID (bb_Batch b) = i" for b
    using distinct_key_eq [OF d that(1) assms(2)] that(2) assms(3,4) by simp
  then have "filter (\<lambda>b. bb_Namespace b = other) (upd_where (\<lambda>b. bulk_ID (bb_Batch b) = i) f rows) = filter (\<lambda>b. bb_Namespace b = other) rows"
    if "set rows \<subseteq> set (t_bulk_batches db)" for rows
    using that assms(1) f by (induction rows) auto
  then show "filter (\<lambda>b. bb_Namespace b = other) (upd_where (\<lambda>b. bulk_ID (bb_Batch b) = i) f (t_bulk_batches db))
      = filter (\<lambda>b. bb_Namespace b = other) (t_bulk_batches db)" by blast
qed

lemma ConfirmBulk_isolated:
  assumes "ns \<noteq> other"
  shows "isolated other db (snd (ConfirmBulk ev se ue ns actor i db))"
  unfolding ConfirmBulk_def
proof (intro iso.run_stmt iso.in_tx, unfold authorized, goal_cases)
  case (1 db)
  show ?case
  proof (cases "select_row (visible_batch (de_clk ev) ns actor i) (t_bulk_batches db)")
    case None
    then show ?thesis by (simp add: iso.refl)
  next
    case (Some row)
    let ?c = "confirm_items (de_clk ev) se ue ns (bulk_Action (bb_Batch row)) (bulk_Items (bb_Batch row)) db"
    have row: "row \<in> set (t_bulk_batches db)" "bulk_ID (bb_Batch row) = i" "bb_Namespace row = ns"
      using select_row_SomeD [OF Some] by (auto simp: visible_batch_def)
    have "isolated other db (snd ?c)"
      by (rule confirm_items_inv [where Q = "isolated other db"]) (auto intro: iso.trans iso.refl set_enabled_isolated [OF assms])
    moreover have "isolated other (snd ?c) (snd ?c\<lparr>t_bulk_batches := upd_where (\<lambda>b. bulk_ID (bb_Batch b) = i)
        (\<lambda>b. b\<lparr>bb_Batch := (bb_Batch b)\<lparr>bulk_Items := fst ?c, bulk_ConfirmedAt := Some (de_clk ev)\<rparr>\<rparr>) (t_bulk_batches (snd ?c))\<rparr>)"
      using row assms by (intro upd_batch_isolated [where ns = ns and row = row]) (simp_all add: confirm_items_batches)
    ultimately show ?thesis using Some iso.refl [of other db]
      by (auto simp: Let_def case_prod_unfold intro: iso.trans)
  qed
qed

section \<open>Requests\<close>

datatype request =
    ReqCreateJob CreateJobInput
  | ReqUpdateJob uuid UpdateJobInput
  | ReqDeleteJob uuid
  | ReqPauseJob uuid
  | ReqResumeJob uuid
  | ReqTriggerNow uuid
  | ReqAckExecution uuid
  | ReqCreateAPIKey string
  | ReqDeleteAPIKey uuid
  | ReqSaveView uuid string string
  | ReqDeleteView uuid uuid
  | ReqPreviewBulk uuid string "uuid list"
  | ReqConfirmBulk "uuid \<Rightarrow> bool" "uuid \<Rightarrow> bool" uuid uuid

text \<open>The error of a request, if any, and the database it leaves.\<close>

definition outcome :: "'a result \<times> db \<Rightarrow> err option \<times> db" where
  "outcome r = (case r of (Inl er, db) \<Rightarrow> (Some er, db) | (Inr _, db) \<Rightarrow> (None, db))"

fun serve :: "svc_env \<Rightarrow> ctx \<Rightarrow> request \<Rightarrow> db \<Rightarrow> err option \<times> db" where
  "serve e c (ReqCreateJob input) db = outcome (CreateJob_svc e c input db)"
| "serve e c (ReqUpdateJob i input) db = outcome (UpdateJob_svc e c i input db)"
| "serve e c (ReqDeleteJob i) db = outcome (DeleteJob_svc e c i db)"
| "serve e c (ReqPauseJob i) db = outcome (PauseJob e c i db)"
| "serve e c (ReqResumeJob i) db = outcome (ResumeJob e c i db)"
| "serve e c (ReqTriggerNow i) db = outcome (TriggerNow e c i db)"
| "serve e c (ReqAckExecution i) db = outcome (AckExecution_svc e c i db)"
| "serve e c (ReqCreateAPIKey label) db = outcome (CreateAPIKey e c label db)"
| "serve e c (ReqDeleteAPIKey i) db = outcome (DeleteAPIKey e c i db)"
| "serve e c (ReqSaveView actor nm q) db = outcome (SaveView_svc e c actor nm q db)"
| "serve e c (ReqDeleteView actor i) db = outcome (DeleteView_svc e c actor i db)"
| "serve e c (ReqPreviewBulk actor action ids) db = outcome (PreviewBulk_svc e c actor action ids db)"
| "serve e c (ReqConfirmBulk se ue actor i) db = outcome (ConfirmBulk_svc e se ue c actor i db)"

lemma snd_outcome [simp]: "snd (outcome r) = snd r"
  by (auto simp: outcome_def split: prod.split sum.split)

lemma snd_wrap [simp]: "snd (wrap msg p db) = snd (p db)"
  by (auto simp: wrap_def split: prod.split sum.split)

lemma fail_isolated [simp]: "isolated other db (snd (fail er db))" "isolated other db (snd (give x db))"
  by (simp_all add: fail_def give_def iso.refl)

lemma with_ns_isolated:
  assumes "NamespaceFromContext c \<noteq> other" "\<And>ns. ns = NamespaceFromContext c \<Longrightarrow> isolated other db (snd (k ns db))"
  shows "isolated other db (snd (with_ns c k db))"
  using assms by (simp add: with_ns_def Let_def)

lemma insert_loop_isolated:
  assumes "alone e" "ns \<noteq> other" "\<And>j. j \<in> set (t_jobs db) \<Longrightarrow> job_ID j = i \<Longrightarrow> job_Namespace j = ns"
  shows "isolated other db (snd (insert_loop e ns i a k lst er db))"
  using assms(3)
proof (induction k arbitrary: a lst er db)
  case 0
  show ?case by (simp add: iso.refl)
next
  case (Suc k)
  let ?x = "manual_execution e ns i a (trigger_time e a lst)"
  obtain r db1 where ins: "InsertExecution (sv_db e (Suc a)) ?x db = (r, db1)" by fastforce
  have x: "ex_Namespace ?x = ns" "ex_JobID ?x = i" by (simp_all add: manual_execution_def)
  have q: "isolated other db (snd (queryInsertExecution ?x db))"
    using assms(2) Suc.prems x by (intro InsertExecution_isolated) auto
  have db1: "db1 = snd (run_stmt (de_fault (sv_db e (Suc a))) (queryInsertExecution ?x) db)" using ins snd_InsertExecution by (metis snd_conv)
  then have "isolated other db db1" "t_jobs db1 = t_jobs db"
    using q iso.refl [of other db] by (auto simp: run_stmt_def queryInsertExecution_def split: fault.split)
  then show ?case using Suc.IH [of db1] Suc.prems ins assms(1)
    by (auto simp: Let_def intro: iso.trans split: sum.split)
qed

lemma CreateJob_svc_isolated:
  assumes "alone e" "NamespaceFromContext c \<noteq> other"
  shows "isolated other db (snd (CreateJob_svc e c input db))"
proof -
  have "isolated other db (snd (CreateJobAggregate ev (new_job e ns input) (new_schedule e input) ts db))" if "ns \<noteq> other" for ns ev ts db
    using that by (intro CreateJobAggregate_isolated) (simp_all add: new_job_def new_schedule_def)
  then show ?thesis unfolding CreateJob_svc_def using assms
    by (intro with_ns_isolated) (auto split: sum.split option.split intro!: iso.seq_stmt)
qed

lemma update_keeps:
  assumes "update_delivery e ns input job = Inr job'" "update_schedule e input sch = Inr sch'"
  shows "job_ID job' = job_ID job" "job_Namespace job' = job_Namespace job" "sch_ID sch' = sch_ID sch"
  using assms by (auto simp: update_delivery_def update_schedule_def Let_def split: option.splits if_splits sum.splits)

lemma UpdateJob_svc_isolated:
  assumes "alone e" "NamespaceFromContext c \<noteq> other"
  shows "isolated other db (snd (UpdateJob_svc e c i input db))"
  unfolding UpdateJob_svc_def
proof (rule with_ns_isolated [OF assms(2)])
  fix ns assume ns: "ns = NamespaceFromContext c"
  obtain r where r: "GetJobWithScheduleScoped (sv_db e 0) i ns db = r" by blast
  show "isolated other db (snd (seq_stmt (wrap ''get job for update'' (ask e 0 (\<lambda>ev. GetJobWithScheduleScoped ev i ns)))
      (\<lambda>(job, sch). case update_delivery e ns input job of Inl er \<Rightarrow> fail er
        | Inr job \<Rightarrow> (case update_schedule e input sch of Inl er \<Rightarrow> fail er
          | Inr sch \<Rightarrow> (let job = job\<lparr>job_UpdatedAt := sv_now e 0\<rparr>
              in seq_stmt (wrap ''update job aggregate'' (call e 1 (\<lambda>ev. UpdateJobAggregate ev job sch (ui_Tags input)))) (\<lambda>_. give (job, sch))))) db))"
  proof (cases r)
    case (Inl er)
    then show ?thesis using r assms(1) by (simp add: seq_stmt_def wrap_def iso.refl)
  next
    case (Inr js)
    then obtain job sch where js: "GetJobWithScheduleScoped (sv_db e 0) i ns db = Inr (job, sch)" using r by (cases js) auto
    note found = scoped_job [OF js]
    have "isolated other db (snd (UpdateJobAggregate (sv_db e 1) (job'\<lparr>job_UpdatedAt := t\<rparr>) sch' (ui_Tags input) db))"
      if "update_delivery e ns input job = Inr job'" "update_schedule e input sch = Inr sch'" for job' sch' t
      using update_keeps [OF that] found ns assms(2) by (intro UpdateJobAggregate_isolated) auto
    then show ?thesis using js assms(1)
      by (auto simp: seq_stmt_def [of "wrap ''get job for update'' _"] wrap_def [of "''get job for update''"] Let_def
          split: sum.split intro!: iso.seq_stmt)
  qed
qed

lemma TriggerNow_isolated:
  assumes "alone e" "NamespaceFromContext c \<noteq> other"
  shows "isolated other db (snd (TriggerNow e c i db))"
proof -
  obtain r db' where t: "TriggerNow e c i db = (r, db')" by fastforce
  show ?thesis unfolding isolated_def
  proof
    assume ok: "tenant_ok db"
    from TriggerNow_cases [OF t assms(1)] show "tenant_ok (snd (TriggerNow e c i db)) \<and> tenant other (snd (TriggerNow e c i db)) = tenant other db"
    proof (elim disjE exE conjE)
      fix job sch res
      assume job: "GetJobWithScheduleScoped (sv_db e 0) i (NamespaceFromContext c) db = Inr (job, sch)"
        and run: "insert_loop e (NamespaceFromContext c) i 0 maxInsertAttempts 0 (ErrorMsg '''') db = (res, db')"
      have "job_Namespace j = NamespaceFromContext c" if "j \<in> set (t_jobs db)" "job_ID j = i" for j
        using scoped_job [OF job] job_id_owner(1) [OF ok that(1), of job] that(2) by simp
      from insert_loop_isolated [OF assms this] run t ok show ?thesis by (metis isolated_def snd_conv)
    qed (use t ok in auto)
  qed
qed

lemma serve_isolated:
  assumes "alone e" "NamespaceFromContext c \<noteq> other"
  shows "isolated other db (snd (serve e c req db))"
proof (cases req)
  case (ReqCreateJob input)
  then show ?thesis using CreateJob_svc_isolated [OF assms] by simp
next
  case (ReqUpdateJob i input)
  then show ?thesis using UpdateJob_svc_isolated [OF assms] by simp
next
  case (ReqDeleteJob i)
  then show ?thesis using assms
    by (auto simp: DeleteJob_svc_def snd_DeleteJob intro!: with_ns_isolated iso.run_stmt queryDeleteJob_isolated)
next
  case (ReqPauseJob i)
  then show ?thesis using assms
    by (auto simp: PauseJob_def snd_SetJobEnabled iso.refl split: fault.split intro!: with_ns_isolated set_enabled_isolated)
next
  case (ReqResumeJob i)
  then show ?thesis using assms
    by (auto simp: ResumeJob_def snd_SetJobEnabled iso.refl split: fault.split intro!: with_ns_isolated set_enabled_isolated)
next
  case (ReqTriggerNow i)
  then show ?thesis using TriggerNow_isolated [OF assms] by simp
next
  case (ReqAckExecution i)
  then show ?thesis using assms
    by (auto simp: AckExecution_svc_def AckExecution_def intro!: with_ns_isolated iso.run_stmt iso.ok_stmt Ack_isolated)
next
  case (ReqCreateAPIKey label)
  have "key_Namespace (ck_Key r) = ns" if "newAPIKey e ns label = Inr r" for ns r
    using that by (auto simp: newAPIKey_def Let_def split: sum.splits)
  then show ?thesis using ReqCreateAPIKey assms
    by (auto simp: CreateAPIKey_def snd_InsertAPIKey split: sum.split
        intro!: with_ns_isolated iso.seq_stmt iso.run_stmt queryInsertAPIKey_isolated)
next
  case (ReqDeleteAPIKey i)
  then show ?thesis using assms
    by (auto simp: DeleteAPIKey_def DeleteKey_def intro!: with_ns_isolated iso.run_stmt iso.ok_stmt queryDeleteKey_isolated)
next
  case (ReqSaveView actor nm q)
  then show ?thesis using assms
    by (auto simp: SaveView_svc_def Let_def split: sum.split intro!: with_ns_isolated SaveView_isolated)
next
  case (ReqDeleteView actor i)
  then show ?thesis using assms by (auto simp: DeleteView_svc_def intro!: with_ns_isolated DeleteView_isolated)
next
  case (ReqPreviewBulk actor action ids)
  then show ?thesis using assms by (auto simp: PreviewBulk_svc_def intro!: with_ns_isolated PreviewBulk_isolated)
next
  case (ReqConfirmBulk se ue actor i)
  then show ?thesis using assms by (auto simp: ConfirmBulk_svc_def intro!: with_ns_isolated ConfirmBulk_isolated)
qed

text \<open>The invariant survives every request, since each request leaves some namespace alone.\<close>

lemma serve_tenant_ok: "alone e \<Longrightarrow> tenant_ok db \<Longrightarrow> tenant_ok (snd (serve e c req db))"
  using serve_isolated [of e c "CHR ''x'' # NamespaceFromContext c" db req] by (simp add: isolated_def)

lemma runs_isolated:
  assumes "\<forall>(e, c, req) \<in> set reqs. alone e \<and> NamespaceFromContext c \<noteq> other"
  shows "isolated other db (fold (\<lambda>(e, c, req) db. snd (serve e c req db)) reqs db)"
  using assms
proof (induction reqs arbitrary: db)
  case Nil
  show ?case by (simp add: iso.refl)
next
  case (Cons r reqs)
  obtain e c req where r: "r = (e, c, req)" by (metis prod_cases3)
  have "isolated other db (snd (serve e c req db))" using Cons.prems r by (intro serve_isolated) auto
  from iso.trans [OF this Cons.IH [of "snd (serve e c req db)"]] Cons.prems r show ?case by simp
qed

section \<open>Reads see the own part only\<close>

lemma join_tenant: "jobs_join_schedules (tenant ns db) = filter (\<lambda>(j, s). job_Namespace j = ns) (jobs_join_schedules db)"
proof -
  have main: "concat (map (\<lambda>j. map (Pair j) (filter (\<lambda>s. sch_ID s = job_ScheduleID j) (filter (\<lambda>s. sch_ID s \<in> S) ss))) (filter (\<lambda>j. job_Namespace j = ns) js))
      = filter (\<lambda>(j, s). job_Namespace j = ns) (concat (map (\<lambda>j. map (Pair j) (filter (\<lambda>s. sch_ID s = job_ScheduleID j) ss)) js))"
    if "\<And>j. j \<in> set js \<Longrightarrow> job_Namespace j = ns \<Longrightarrow> job_ScheduleID j \<in> S" for js ss S
    using that
  proof (induction js)
    case (Cons j js)
    have "filter (\<lambda>s. sch_ID s = job_ScheduleID j) (filter (\<lambda>s. sch_ID s \<in> S) ss) = filter (\<lambda>s. sch_ID s = job_ScheduleID j) ss" if "job_Namespace j = ns"
      using Cons.prems [of j] that by (auto simp: filter_filter intro: filter_cong)
    then show ?case using Cons by (auto simp: filter_map comp_def)
  qed simp
  show ?thesis unfolding jobs_join_schedules_def tenant_def own_jobs_def by (simp del: filter_filter) (rule main, auto)
qed

lemma scoped_tenant: "GetJobWithScheduleScoped ev i ns (tenant ns db) = GetJobWithScheduleScoped ev i ns db"
proof -
  have "find (\<lambda>(j, s). job_ID j = i \<and> job_Namespace j = ns) (filter (\<lambda>(j, s). job_Namespace j = ns) xs)
      = find (\<lambda>(j, s). job_ID j = i \<and> job_Namespace j = ns) xs" for xs :: "JobWithSchedule list"
    by (induction xs) auto
  then have "queryGetJobWithScheduleScoped i ns (tenant ns db) = queryGetJobWithScheduleScoped i ns db"
    by (simp add: queryGetJobWithScheduleScoped_def join_tenant select_row_def)
  then show ?thesis by (simp add: GetJobWithScheduleScoped_def run_query_def split: fault.split)
qed

lemma GetJob_tenant:
  assumes "alone e" "tenant_ok db"
  shows "fst (GetJob_svc e (Some ns) i (tenant ns db)) = fst (GetJob_svc e (Some ns) i db)"
proof (cases "GetJobWithScheduleScoped (sv_db e 0) i ns db")
  case (Inl er)
  then show ?thesis using assms(1)
    by (simp add: GetJob_svc_def with_ns_def NamespaceFromContext_def fail_def seq_stmt_def wrap_def scoped_tenant)
next
  case (Inr js)
  then obtain job sch where js: "GetJobWithScheduleScoped (sv_db e 0) i ns db = Inr (job, sch)" by (cases js) auto
  note found = scoped_job [OF js]
  have own: "i \<in> job_ID ` set (own_jobs ns db)" using found by (auto simp: own_jobs_def)
  have "filter (\<lambda>(k, t). k = i) (filter (\<lambda>r. fst r \<in> job_ID ` set (own_jobs ns db)) (t_tags db)) = filter (\<lambda>(k, t). k = i) (t_tags db)"
    using own unfolding filter_filter by (intro filter_cong) auto
  then have tags: "GetTags ev coll i (tenant ns db) = GetTags ev coll i db" for ev and coll :: "string \<Rightarrow> nat list"
    by (simp add: GetTags_def run_query_def queryGetTags_def tenant_def del: filter_filter split: fault.split)
  have "filter (\<lambda>x. ex_JobID x = i) (own_executions ns db) = filter (\<lambda>x. ex_JobID x = i) (t_executions db)"
    unfolding own_executions_def filter_filter using assms(2) found by (intro filter_cong) (auto simp: tenant_ok_def)
  then have execs: "GetRecentExecutions ev i n (tenant ns db) = GetRecentExecutions ev i n db" for ev n
    by (simp add: GetRecentExecutions_def run_query_def queryGetRecentExecutions_def tenant_def split: fault.split)
  show ?thesis using assms(1) js
    by (simp add: GetJob_svc_def with_ns_def NamespaceFromContext_def fail_def seq_stmt_def wrap_def give_def scoped_tenant tags execs
        split: sum.split)
qed

lemma job_matches_tenant:
  "jf_Namespace f = ns \<Longrightarrow> filter (job_matches ilike f (tenant ns db)) (t_jobs (tenant ns db)) = filter (job_matches ilike f db) (t_jobs db)"
  unfolding tenant_def own_jobs_def
  by (simp add: filter_filter) (rule filter_cong, auto simp: job_matches_def)

lemma job_matches_tenant_join:
  assumes "jf_Namespace f = ns"
  shows "filter (\<lambda>(j, s). job_matches ilike f (tenant ns db) j) (jobs_join_schedules (tenant ns db))
    = filter (\<lambda>(j, s). job_matches ilike f db j) (jobs_join_schedules db)"
proof -
  have "j \<in> set (t_jobs db)" if "(j, s) \<in> set (jobs_join_schedules db)" for j s using that by (auto simp: jobs_join_schedules_def)
  then show ?thesis unfolding join_tenant filter_filter using assms
    by (intro filter_cong) (auto simp: job_matches_def tenant_def own_jobs_def)
qed

lemma find_filter: "(\<And>x. P x \<Longrightarrow> Q x) \<Longrightarrow> find P (filter Q xs) = find P xs"
  by (induction xs) auto

lemma execution_scoped_tenant: "GetExecutionScoped ev i ns (tenant ns db) = GetExecutionScoped ev i ns db"
  using find_filter [of "\<lambda>e. ex_ID e = i \<and> ex_Namespace e = ns" "\<lambda>x. ex_Namespace x = ns" "t_executions db"]
  by (simp add: GetExecutionScoped_def run_query_def queryGetExecutionScoped_def tenant_def own_executions_def select_row_def split: fault.split)

lemma GetExecution_tenant:
  assumes "alone e"
  shows "fst (GetExecution_svc e (Some ns) i (tenant ns db)) = fst (GetExecution_svc e (Some ns) i db)"
proof (cases "GetExecutionScoped (sv_db e 0) i ns db")
  case (Inl er)
  then show ?thesis using assms
    by (simp add: GetExecution_svc_def GetExecutionStatus_def with_ns_def NamespaceFromContext_def fail_def seq_stmt_def execution_scoped_tenant)
next
  case (Inr x)
  then have "i \<in> ex_ID ` set (own_executions ns db)"
    by (auto simp: GetExecutionScoped_def row_or_def run_query_def queryGetExecutionScoped_def own_executions_def
        split: sum.splits option.splits fault.splits dest!: select_row_SomeD)
  then have "filter (\<lambda>a. da_ExecutionID a = i) (filter (\<lambda>a. da_ExecutionID a \<in> ex_ID ` set (own_executions ns db)) (t_delivery_attempts db))
      = filter (\<lambda>a. da_ExecutionID a = i) (t_delivery_attempts db)"
    unfolding filter_filter by (intro filter_cong) auto
  then have "GetAttempts ev i (tenant ns db) = GetAttempts ev i db" for ev
    by (simp add: GetAttempts_def run_query_def queryGetDeliveryAttempts_def tenant_def del: filter_filter split: fault.split)
  then show ?thesis using assms Inr
    by (simp add: GetExecution_svc_def GetExecutionStatus_def with_ns_def NamespaceFromContext_def fail_def give_def wrap_def seq_stmt_def
        execution_scoped_tenant split: sum.split)
qed

lemma list_reads_tenant:
  assumes "alone e" "ns \<noteq> ''''"
  shows "fst (ListJobs_svc e (Some ns) f (tenant ns db)) = fst (ListJobs_svc e (Some ns) f db)"
    "fst (ListJobsWithSchedules_svc e (Some ns) f (tenant ns db)) = fst (ListJobsWithSchedules_svc e (Some ns) f db)"
    "fst (ListExecutions_svc e (Some ns) xf (tenant ns db)) = fst (ListExecutions_svc e (Some ns) xf db)"
    "fst (ListPendingAck_svc e (Some ns) j n (tenant ns db)) = fst (ListPendingAck_svc e (Some ns) j n db)"
    "fst (ListAPIKeys e (Some ns) lp (tenant ns db)) = fst (ListAPIKeys e (Some ns) lp db)"
proof -
  have f: "jf_Namespace (scoped_filter ns f) = ns" by (simp add: scoped_filter_def)
  let ?xf = "xf\<lparr>ef_Namespace := ns, ef_ListParams := WithDefaults (ef_ListParams xf)\<rparr>"
  have x: "filter (execution_matches ?xf) (t_executions (tenant ns db)) = filter (execution_matches ?xf) (t_executions db)"
    using assms(2) unfolding tenant_def own_executions_def
    by (simp add: filter_filter) (rule filter_cong, auto simp: execution_matches_def ns_IsZero_def)
  have p: "filter (\<lambda>e. ex_Namespace e = ns \<and> Q e) (t_executions (tenant ns db)) = filter (\<lambda>e. ex_Namespace e = ns \<and> Q e) (t_executions db)" for Q
    unfolding tenant_def own_executions_def by (simp add: filter_filter conj_ac)
  have k: "filter (\<lambda>k. key_Namespace k = ns) (t_api_keys (tenant ns db)) = filter (\<lambda>k. key_Namespace k = ns) (t_api_keys db)"
    by (simp add: tenant_def own_keys_def)
  note reads = with_ns_def NamespaceFromContext_def fail_def Let_def run_query_def
  show "fst (ListJobs_svc e (Some ns) f (tenant ns db)) = fst (ListJobs_svc e (Some ns) f db)"
    using assms(1) job_matches_tenant [OF f] by (simp add: ListJobs_svc_def ListJobs_def reads split: fault.split)
  show "fst (ListJobsWithSchedules_svc e (Some ns) f (tenant ns db)) = fst (ListJobsWithSchedules_svc e (Some ns) f db)"
    using assms(1) job_matches_tenant_join [OF f] by (simp add: ListJobsWithSchedules_svc_def ListJobsWithSchedules_def reads split: fault.split)
  show "fst (ListExecutions_svc e (Some ns) xf (tenant ns db)) = fst (ListExecutions_svc e (Some ns) xf db)"
    using assms(1) x by (simp add: ListExecutions_svc_def ListExecutions_def reads split: fault.split)
  show "fst (ListPendingAck_svc e (Some ns) j n (tenant ns db)) = fst (ListPendingAck_svc e (Some ns) j n db)"
    using assms(1) p by (simp add: ListPendingAck_svc_def ListPendingAck_def reads split: fault.split)
  show "fst (ListAPIKeys e (Some ns) lp (tenant ns db)) = fst (ListAPIKeys e (Some ns) lp db)"
    using assms(1) k by (simp add: ListAPIKeys_def ListKeys_def queryListKeys_def reads split: fault.split)
qed

section \<open>Properties\<close>

text \<open>
  C6: Tenants cannot change each other's data. Whatever requests other namespaces make, in any number and order and with any
  arguments (identifiers of foreign jobs, keys, views and batches included) and whatever database faults they meet, everything a namespace
  owns is afterwards what it was: jobs, schedules, executions, attempts, tags, keys, sessions, saved views and batches.
\<close>

theorem tenants_isolated:
  assumes "tenant_ok db" "\<forall>(e, c, req) \<in> set reqs. alone e \<and> NamespaceFromContext c \<noteq> other"
  shows "tenant other (fold (\<lambda>(e, c, req) db. snd (serve e c req db)) reqs db) = tenant other db"
  using runs_isolated [OF assms(2), of db] assms(1) by (simp add: isolated_def)


text \<open>
  A request without a namespace is refused and changes nothing, whatever it asks for.
\<close>

theorem namespace_required:
  assumes "NamespaceFromContext c = ''''"
  shows "serve e c req db = (Some ErrNamespaceRequired, db)"
  using assms
  by (cases req)
    (simp_all add: with_ns_def ns_IsZero_def fail_def outcome_def CreateJob_svc_def UpdateJob_svc_def DeleteJob_svc_def PauseJob_def
      ResumeJob_def TriggerNow_def AckExecution_svc_def CreateAPIKey_def DeleteAPIKey_def SaveView_svc_def DeleteView_svc_def
      PreviewBulk_svc_def ConfirmBulk_svc_def)

text \<open>A tenant that tries to delete and to pause another one's job.\<close>

lemma sample_jobs_ok: "tenant_ok sample_jobs"
  using serve_tenant_ok [OF alone_sample(1) tenant_ok_empty, of "Some ''acme''" "ReqCreateJob sample_input"] by (simp add: sample_jobs_def)

lemma tenants_isolated_witness:
  "tenant ''acme'' (fold (\<lambda>(e, c, req) db. snd (serve e c req db))
     [(sample_svc, Some ''evil'', ReqDeleteJob 1), (sample_svc, Some ''evil'', ReqPauseJob 1)] sample_jobs) = tenant ''acme'' sample_jobs
   \<and> t_jobs (tenant ''acme'' sample_jobs) \<noteq> []"
proof -
  let ?reqs = "[(sample_svc, Some ''evil'', ReqDeleteJob 1), (sample_svc, Some ''evil'', ReqPauseJob 1)]"
  have "\<forall>(e, c, req) \<in> set ?reqs. alone e \<and> NamespaceFromContext c \<noteq> ''acme''" by (simp add: alone_sample NamespaceFromContext_def)
  note iso = tenants_isolated [OF sample_jobs_ok this]
  have "t_jobs (tenant ''acme'' sample_jobs) \<noteq> []" by code_simp
  with iso show ?thesis by blast
qed


lemma namespace_required_witness: "serve sample_svc None (ReqDeleteJob 1) sample_jobs = (Some ErrNamespaceRequired, sample_jobs)"
  using namespace_required [of None sample_svc "ReqDeleteJob 1" sample_jobs] by (simp add: NamespaceFromContext_def)

end
