(* ===== verification/Float64.thy ===== *)
theory Float64
  imports Complex_Main Prelude "HOL-Library.Log_Nat"
begin

text \<open>
  The \<open>float64\<close> arithmetic the rate limiters use. A value is the rational number it denotes; each
  operation is the exact one followed by \<open>f64\<close>, which rounds to 53 significant bits, to the nearest
  value and to the even one of two nearest, as IEEE 754 prescribes. The exponent is not bounded, so
  overflow to infinity and underflow are left out: the values in question lie between a nanosecond's
  share of a token and a rate times an elapsed time. The one fact the limiters need is that
  rounding is off by at most one part in \<open>2^53\<close>.
\<close>

definition round_even :: "rat \<Rightarrow> int" where
  "round_even y = (let n = \<lfloor>y\<rfloor>; r = y - of_int n
     in if r < 1/2 then n else if 1/2 < r then n + 1 else if even n then n else n + 1)"

text \<open>The exponent of the leading bit.\<close>

definition exponent :: "rat \<Rightarrow> int" where
  "exponent x = (case quotient_of x of (a, b) \<Rightarrow> let k = bitlen a - bitlen b in if 2 powi k \<le> x then k else k - 1)"

definition f64_pos :: "rat \<Rightarrow> rat" where
  "f64_pos x = (let u = 2 powi (exponent x - 52) in of_int (round_even (x / u)) * u)"

definition f64 :: "rat \<Rightarrow> rat" where
  "f64 x = (if x = 0 then 0 else if 0 < x then f64_pos x else - f64_pos (- x))"

text \<open>\<open>Duration.Seconds\<close>.\<close>

definition go_mod :: "int \<Rightarrow> int \<Rightarrow> int" where
  "go_mod a b = a - b * go_div a b"

definition Seconds :: "duration \<Rightarrow> rat" where
  "Seconds d = f64 (f64 (of_int (go_div d Second)) + f64 (f64 (of_int (go_mod d Second)) / 10 ^ 9))"

section \<open>Error of one rounding\<close>

lemma round_even_error: "\<bar>of_int (round_even y) - y\<bar> \<le> 1/2"
proof -
  have "of_int \<lfloor>y\<rfloor> \<le> y" "y < of_int \<lfloor>y\<rfloor> + 1" by linarith+
  then show ?thesis by (simp add: round_even_def Let_def abs_le_iff)
qed

lemma round_even_int [simp]: "round_even (of_int n) = n"
  by (simp add: round_even_def)

lemma round_even_nonneg: "0 \<le> y \<Longrightarrow> 0 \<le> round_even y"
  by (simp add: round_even_def Let_def)

lemma two_powi_pos [simp]: "0 < (2 :: rat) powi k"
  by simp

lemma exponent_bounds:
  assumes "0 < x"
  shows "2 powi exponent x \<le> x" "x < 2 powi (exponent x + 1)"
proof -
  obtain a b where ab: "quotient_of x = (a, b)" by (cases "quotient_of x")
  then have b: "0 < b" and x: "x = of_int a / of_int b"
    using quotient_of_denom_pos quotient_of_div by blast+
  with assms have a: "0 < a" by (simp add: zero_less_divide_iff)
  have pw: "(2 :: rat) powi (bitlen c) = 2 * 2 powi (bitlen c - 1)" for c
    by (simp add: power_int_diff)
  have up: "of_int c < (2 :: rat) powi bitlen c" and lo: "(2 :: rat) powi (bitlen c - 1) \<le> of_int c" if "0 < c" for c
  proof -
    have "1 \<le> bitlen c" using that bitlen_eq_zero_iff [of c] bitlen_nonneg [of c] by linarith
    moreover have "of_int c < (of_int (2 ^ nat (bitlen c)) :: rat)" "(of_int (2 ^ nat (bitlen c - 1)) :: rat) \<le> of_int c"
      using bitlen_bounds [OF that] unfolding of_int_less_iff of_int_le_iff by simp_all
    ultimately show "of_int c < (2 :: rat) powi bitlen c" "(2 :: rat) powi (bitlen c - 1) \<le> of_int c"
      by (simp_all add: power_int_def)
  qed
  let ?k = "bitlen a - bitlen b"
  have "x < 2 powi bitlen a / 2 powi (bitlen b - 1)"
    unfolding x using up [OF a] lo [OF b] b a by (intro frac_less) auto
  also have "\<dots> = 2 powi (?k + 1)" by (simp add: power_int_diff power_int_add)
  finally have u: "x < 2 powi (?k + 1)" .
  have "2 powi (?k - 1) = 2 powi (bitlen a - 1) / (2 :: rat) powi bitlen b" by (simp add: power_int_diff)
  also have "\<dots> \<le> x" unfolding x using lo [OF a] up [OF b] b a by (intro frac_le) auto
  finally have l: "2 powi (?k - 1) \<le> x" .
  show "2 powi exponent x \<le> x" "x < 2 powi (exponent x + 1)"
    using u l by (auto simp: exponent_def ab Let_def)
qed

abbreviation eps :: rat where
  "eps \<equiv> 1 / 2 ^ 53"

lemma f64_pos_error:
  assumes "0 < x"
  shows "\<bar>f64_pos x - x\<bar> \<le> eps * x"
proof -
  let ?u = "2 powi (exponent x - 52) :: rat"
  have "f64_pos x - x = (of_int (round_even (x / ?u)) - x / ?u) * ?u"
    by (simp add: f64_pos_def Let_def left_diff_distrib)
  then have "\<bar>f64_pos x - x\<bar> \<le> 1/2 * ?u"
    using mult_right_mono [OF round_even_error [of "x / ?u"], of ?u] by (simp add: abs_mult)
  also have "1/2 * ?u = eps * 2 powi exponent x" by (simp add: power_int_diff)
  also have "\<dots> \<le> eps * x" using exponent_bounds(1) [OF assms] by simp
  finally show ?thesis .
qed

lemma f64_error: "\<bar>f64 x - x\<bar> \<le> eps * \<bar>x\<bar>"
proof (cases x "0 :: rat" rule: linorder_cases)
  case less
  then have "\<bar>f64_pos (- x) - (- x)\<bar> \<le> eps * (- x)" by (intro f64_pos_error) simp
  moreover have "f64 x - x = - (f64_pos (- x) - (- x))" using less by (simp add: f64_def)
  ultimately show ?thesis using less by (simp only: abs_minus_cancel abs_of_neg)
next
  case greater
  then show ?thesis using f64_pos_error [of x] by (simp add: f64_def)
qed (simp add: f64_def)

lemma f64_le: "0 \<le> x \<Longrightarrow> f64 x \<le> (1 + eps) * x"
proof -
  assume "0 \<le> x"
  then have "f64 x - x \<le> eps * x" using abs_le_D1 [OF f64_error [of x]] by simp
  then show ?thesis by (simp only: distrib_right mult_1_left diff_le_eq add.commute)
qed

lemma f64_nonneg: "0 \<le> x \<Longrightarrow> 0 \<le> f64 x"
  using round_even_nonneg [of "x / 2 powi (exponent x - 52)"] by (simp add: f64_def f64_pos_def Let_def)

text \<open>Integers below \<open>2^53\<close> are represented exactly.\<close>

lemma f64_pos_int:
  assumes "0 < n" "n < 2 ^ 53"
  shows "f64_pos (of_int n) = of_int n"
proof -
  let ?e = "exponent (of_int n)"
  have "(2 :: rat) powi ?e < 2 powi 53"
    using exponent_bounds(1) [of "of_int n"] assms
    by (metis (no_types, lifting) of_int_0_less_iff of_int_less_iff of_int_numeral of_int_power order_le_less_trans
      power_int_numeral)
  then have "?e \<le> 52" by (metis leI less_irrefl_nat linorder_not_less one_le_numeral power_int_increasing zle_add1_eq_le numeral_plus_one semiring_norm(5) semiring_norm(2))
  then obtain k where k: "?e - 52 = - int k" by (metis diff_le_0_iff_le nonpos_int_cases)
  have "of_int n / (2 :: rat) powi (?e - 52) = of_int (n * 2 ^ k)"
    by (simp add: k power_int_minus field_simps)
  then have "round_even (of_int n / 2 powi (?e - 52)) = n * 2 ^ k" by (simp only: round_even_int)
  then show ?thesis by (simp add: f64_pos_def Let_def) (simp add: k power_int_minus)
qed

lemma f64_int: "\<bar>n\<bar> < 2 ^ 53 \<Longrightarrow> f64 (of_int n) = of_int n"
  using f64_pos_int [of n] f64_pos_int [of "- n"] by (auto simp: f64_def)

lemma f64_tenth: "f64 (1 / 10) = 3602879701896397 / 36028797018963968"
  by code_simp

section \<open>Elapsed seconds\<close>

lemma Seconds_nonneg: "0 \<le> d \<Longrightarrow> 0 \<le> Seconds d"
  unfolding Seconds_def by (intro f64_nonneg add_nonneg_nonneg divide_nonneg_nonneg)
    (auto simp: go_div_def go_mod_def sgn_if minus_mult_div_eq_mod)

lemma Seconds_le:
  assumes "0 \<le> d"
  shows "Seconds d \<le> (1 + eps)\<^sup>2 * (of_int d / 10 ^ 9)"
proof -
  let ?s = "go_div d Second" and ?n = "go_mod d Second"
  have split: "?s = d div Second" "?n = d mod Second"
    using assms by (auto simp: go_div_def go_mod_def sgn_if minus_mult_div_eq_mod)
  then have nn: "0 \<le> ?s" "0 \<le> ?n" "\<bar>?n\<bar> < 2 ^ 53" using assms pos_mod_bound [of Second d] by auto
  have tot: "of_int ?s + of_int ?n / 10 ^ 9 = (of_int d / 10 ^ 9 :: rat)"
  proof -
    have "of_int d = (of_int (Second * (d div Second) + d mod Second) :: rat)" by simp
    then have "of_int d = (10 ^ 9 * of_int (d div Second) + of_int (d mod Second) :: rat)"
      by (simp only: of_int_add of_int_mult of_int_numeral) simp
    then show ?thesis unfolding split by (simp add: add_divide_distrib)
  qed
  have "f64 (of_int ?s) + f64 (of_int ?n / 10 ^ 9) \<le> (1 + eps) * of_int ?s + (1 + eps) * (of_int ?n / 10 ^ 9)"
    using nn by (intro add_mono f64_le) auto
  also have "\<dots> = (1 + eps) * (of_int d / 10 ^ 9)" by (simp only: tot [symmetric] distrib_left)
  finally have a: "f64 (of_int ?s) + f64 (of_int ?n / 10 ^ 9) \<le> (1 + eps) * (of_int d / 10 ^ 9)" .
  have "Seconds d \<le> (1 + eps) * (f64 (of_int ?s) + f64 (of_int ?n / 10 ^ 9))"
    unfolding Seconds_def f64_int [OF nn(3)] using nn by (intro f64_le add_nonneg_nonneg f64_nonneg) auto
  also have "\<dots> \<le> (1 + eps) * ((1 + eps) * (of_int d / 10 ^ 9))" using a by (intro mult_left_mono) auto
  finally show ?thesis by (simp add: power2_eq_square)
qed

end
