(* ===== verification/AdminAuth.thy ===== *)
theory AdminAuth
  imports Tenancy Float64
begin

text \<open>
  Signing in to the web administration: the session manager of \<^verbatim>\<open>internal/webadmin/auth.go\<close>, the identity
  sign-in of \<^verbatim>\<open>tailnet_login.go\<close>, the grants of \<^verbatim>\<open>internal/tailnet/tailnet.go\<close>, and the guards \<open>requireAuth\<close> and
  \<open>requireMutation\<close> of \<^verbatim>\<open>handler.go\<close>. A request comes with its cookies and the form that \<^verbatim>\<open>net/http\<close> parsed from it
  (\<open>Form\<close> and \<open>PostForm\<close>; the query is what could be read of it, and \<open>QueryOK\<close> says whether that is all;
  the body is its length, if it can be read); a handler gives a reply and the database it leaves. The random bytes,
  the clock, the hash and the answers of the tailnet node are in the environment.
\<close>

section \<open>Requests and replies\<close>

type_synonym form = "(string \<times> string list) list"

record web_request =
  wr_Method :: string
  wr_Path :: string
  wr_EscapedPath :: string
  wr_Cookies :: "(string \<times> string) list"
  wr_Form :: form
  wr_PostForm :: form
  wr_RawQuery :: string
  wr_Query :: form
  wr_QueryOK :: bool
  wr_RequestURI :: string
  wr_Body :: "nat option"
  wr_SecFetchSite :: string
  wr_Origin :: string
  wr_Host :: string
  wr_RemoteAddr :: string
  wr_ViaTailnet :: bool

definition Cookie :: "web_request \<Rightarrow> string \<Rightarrow> string option" where
  "Cookie r name = map_of (wr_Cookies r) name"

text \<open>\<open>url.Values.Get\<close>, and \<open>Request.FormValue\<close> on the parsed form.\<close>

definition form_get :: "form \<Rightarrow> string \<Rightarrow> string" where
  "form_get f key = (case map_of f key of Some (v # _) \<Rightarrow> v | _ \<Rightarrow> '''')"

definition FormValue :: "web_request \<Rightarrow> string \<Rightarrow> string" where
  "FormValue r key = form_get (wr_Form r) key"

datatype same_site = SameSiteStrict | SameSiteLax

record cookie =
  co_Name :: string
  co_Value :: string
  co_Path :: string
  co_HttpOnly :: bool
  co_Secure :: bool
  co_SameSite :: same_site
  co_Expires :: "time option"
  co_MaxAge :: int

section \<open>Tailnet identities\<close>

record Identity =
  id_LoginName :: string
  id_DisplayName :: string
  id_NodeName :: string
  id_Tagged :: bool
  id_AdminCaps :: "string list"

definition AdminCapability :: string where
  "AdminCapability = ''github.com/djlord-it/cronlite/cap/admin''"

text \<open>The value of one capability is read by \<open>json.Unmarshal\<close>, an argument.\<close>

fun cap_namespaces :: "unicode \<Rightarrow> string list \<Rightarrow> err option" where
  "cap_namespaces uc [] = None"
| "cap_namespaces uc (ns # rest) =
     (if TrimSpace uc ns \<noteq> ns \<or> ns = '''' then Some (ErrorMsg (''tailnet: '' @ AdminCapability @ '': invalid namespace '' @ quoted ns))
      else if ns = ''*'' then Some (ErrorMsg (''tailnet: '' @ AdminCapability @ '': the '' @ quoted ''*'' @ '' wildcard is not supported; list namespaces explicitly''))
      else cap_namespaces uc rest)"

fun cap_values :: "unicode \<Rightarrow> (string \<Rightarrow> string list result) \<Rightarrow> string list \<Rightarrow> string list \<Rightarrow> string list result" where
  "cap_values uc unmarshal [] out = Inr out"
| "cap_values uc unmarshal (raw # rest) out =
     (case unmarshal raw of
        Inl er \<Rightarrow> Inl (Wrapped (''tailnet: '' @ AdminCapability @ '': malformed value '' @ raw) er)
      | Inr namespaces \<Rightarrow>
          (case cap_namespaces uc namespaces of
             Some er \<Rightarrow> Inl er
           | None \<Rightarrow> cap_values uc unmarshal rest (out @ namespaces)))"

definition AdminNamespaces :: "unicode \<Rightarrow> (string \<Rightarrow> string list result) \<Rightarrow> Identity \<Rightarrow> string list result" where
  "AdminNamespaces uc unmarshal i =
     (case cap_values uc unmarshal (id_AdminCaps i) [] of
        Inl er \<Rightarrow> Inl er
      | Inr out \<Rightarrow> Inr (remdups_adj (sort_key (map (of_char :: char \<Rightarrow> nat)) out)))"

section \<open>The handler and its environment\<close>

record Info =
  in_BackendState :: string
  in_Online :: bool
  in_DNSName :: string
  in_TailnetName :: string
  in_LoginName :: string
  in_Tags :: "string list"
  in_KeyExpiry :: time
  in_Health :: "string list"

record TailnetNode =
  nd_Suffix :: string
  nd_SelfAddrs :: "Addr list"
  nd_CertDomain :: string
  nd_Info :: "Info result"
  nd_WhoIs :: "string \<Rightarrow> Identity result"

record TailnetConfig =
  tc_Built :: bool
  tc_Delivery :: bool
  tc_Listen :: bool
  tc_DisablePublicListener :: bool
  tc_IdentityLogin :: bool
  tc_Hostname :: string
  tc_PublicAddr :: string
  tc_Policy :: "TailnetPolicy option"
  tc_Node :: "TailnetNode option"

record admin =
  ad_runtimeSettings :: "(string \<times> string) list"
  ad_bootstrapToken :: string
  ad_idleTTL :: duration
  ad_absoluteTTL :: duration
  ad_cookieSecure :: bool
  ad_tailnet :: TailnetConfig

text \<open>What \<open>url.Parse\<close> says of an address in a form (an argument, like the printing of a parsed address with a new query).\<close>

record weburl =
  uu_IsAbs :: bool
  uu_Host :: string
  uu_Fragment :: string
  uu_Path :: string
  uu_Query :: form

text \<open>
  What surrounds one request: the calls of the session store and of the key lookup with their clock and hash
  (\<open>we_session\<close>; the reading of the clock has the number of the store call it belongs to), the random
  bytes, the calls of the service (the \<open>n\<close>-th in \<open>we_service n\<close>), the races of \<open>TailnetKey\<close> and the failures
  of single items in \<open>ConfirmBulk\<close>.
\<close>

record web_env =
  we_session :: svc_env
  we_rand :: "nat \<Rightarrow> 8 word list result"
  we_service :: "nat \<Rightarrow> svc_env"
  we_race :: "bool \<times> fault \<times> bool"
  we_items :: "(uuid \<Rightarrow> bool) \<times> (uuid \<Rightarrow> bool)"
  we_unmarshal :: "string \<Rightarrow> string list result"
  we_parseUUID :: "string \<Rightarrow> uuid option"
  we_uuidString :: "uuid \<Rightarrow> string"
  we_QueryEscape :: "string \<Rightarrow> string"
  we_format :: "string \<Rightarrow> time \<Rightarrow> string"
  we_ParseURL :: "string \<Rightarrow> weburl option"
  we_URLString :: "weburl \<Rightarrow> string \<Rightarrow> string"

abbreviation we_now :: "web_env \<Rightarrow> nat \<Rightarrow> time" where
  "we_now w n \<equiv> sv_now (we_session w) n"

abbreviation we_unicode :: "web_env \<Rightarrow> unicode" where
  "we_unicode w \<equiv> sv_unicode (we_session w)"

definition hash_token :: "web_env \<Rightarrow> string \<Rightarrow> string" where
  "hash_token w s = HashToken (we_session w) s"

section \<open>Sessions\<close>

definition sessionCookieName :: string where
  "sessionCookieName = ''cronlite_admin_session''"

definition errUnauthenticated :: err where
  "errUnauthenticated = ErrorMsg ''admin authentication required''"

record authState =
  as_Session :: AdminSession
  as_Key :: APIKey
  as_Theme :: string

text \<open>The Unix time \<open>s\<close> on the axis that starts in year 1.\<close>

definition Unix :: "int \<Rightarrow> time" where
  "Unix s = (62135596800 + s) * Second"

definition validateCSRF :: "string \<Rightarrow> string \<Rightarrow> bool" where
  "validateCSRF expected submitted =
     (if expected = '''' \<or> submitted = '''' \<or> length expected \<noteq> length submitted then False else expected = submitted)"

definition randomToken :: "web_env \<Rightarrow> nat \<Rightarrow> string result" where
  "randomToken w n = (case we_rand w n of Inl er \<Rightarrow> Inl er | Inr raw \<Rightarrow> Inr (EncodeToString raw))"

definition newSessionCookie :: "string \<Rightarrow> time \<Rightarrow> time \<Rightarrow> bool \<Rightarrow> cookie" where
  "newSessionCookie rawToken now expiresAt secure =
     (let maxAge = \<lceil>Seconds (expiresAt - now)\<rceil>
      in \<lparr>co_Name = sessionCookieName, co_Value = rawToken, co_Path = ''/admin'', co_HttpOnly = True, co_Secure = secure,
          co_SameSite = SameSiteStrict, co_Expires = Some expiresAt, co_MaxAge = (if maxAge < 1 then 1 else maxAge)\<rparr>)"

definition clearSessionCookie :: "bool \<Rightarrow> cookie" where
  "clearSessionCookie secure = \<lparr>co_Name = sessionCookieName, co_Value = '''', co_Path = ''/admin'', co_HttpOnly = True,
     co_Secure = secure, co_SameSite = SameSiteStrict, co_Expires = Some (Unix 1), co_MaxAge = -1\<rparr>"

text \<open>\<open>startSession\<close> replaces the session of the request, if any; its store calls are 1 and 2.\<close>

definition new_session :: "admin \<Rightarrow> web_env \<Rightarrow> APIKey \<Rightarrow> string \<Rightarrow> string \<Rightarrow> AdminSession" where
  "new_session h w key rawSession csrfToken =
     (let now = we_now w 1
      in \<lparr>ses_TokenHash = hash_token w rawSession, ses_APIKeyID = key_ID key, ses_CSRFToken = csrfToken, ses_CreatedAt = now,
          ses_LastSeenAt = now, ses_ExpiresAt = now + ad_idleTTL h, ses_AbsoluteExpiresAt = now + ad_absoluteTTL h\<rparr>)"

definition drop_session :: "web_env \<Rightarrow> nat \<Rightarrow> web_request \<Rightarrow> unit stmt" where
  "drop_session w n r =
     (case Cookie r sessionCookieName of
        None \<Rightarrow> give ()
      | Some v \<Rightarrow> if v = '''' then give () else call (we_session w) n (\<lambda>ev. DeleteAdminSession ev (hash_token w v)))"

definition startSession :: "admin \<Rightarrow> web_env \<Rightarrow> web_request \<Rightarrow> APIKey \<Rightarrow> cookie stmt" where
  "startSession h w r key =
     seq_stmt (drop_session w 1 r) (\<lambda>_.
       (case randomToken w 0 of
          Inl er \<Rightarrow> fail er
        | Inr rawSession \<Rightarrow>
            (case randomToken w 1 of
               Inl er \<Rightarrow> fail er
             | Inr csrfToken \<Rightarrow>
                 (let session = new_session h w key rawSession csrfToken
                  in seq_stmt (call (we_session w) 2 (\<lambda>ev. CreateAdminSession ev session))
                       (\<lambda>_. give (newSessionCookie rawSession (we_now w 1) (ses_ExpiresAt session) (ad_cookieSecure h)))))))"

definition session_login :: "admin \<Rightarrow> web_env \<Rightarrow> web_request \<Rightarrow> string \<Rightarrow> (APIKey \<times> cookie) stmt" where
  "session_login h w r plaintextAPIKey db =
     (case ask (we_session w) 0 (\<lambda>ev. GetKeyByTokenHash ev (hash_token w plaintextAPIKey)) db of
        (Inl er, db') \<Rightarrow> if errors_Is er ErrAPIKeyNotFound then (Inl errUnauthenticated, db') else (Inl er, db')
      | (Inr key, db') \<Rightarrow>
          if \<not> key_Enabled key \<or> key_TailnetLogin key \<noteq> '''' then (Inl errUnauthenticated, db')
          else seq_stmt (startSession h w r key) (\<lambda>co. give (key, co)) db')"

section \<open>Identity sign-in\<close>

record tailnetSignIn =
  si_Offered :: bool
  si_Unavailable :: bool
  si_Tagged :: bool
  si_Login :: string
  si_DisplayName :: string
  si_Namespaces :: "string list"
  si_BadGrant :: bool
  si_Capability :: string

definition no_sign_in :: tailnetSignIn where
  "no_sign_in = \<lparr>si_Offered = False, si_Unavailable = False, si_Tagged = False, si_Login = '''', si_DisplayName = '''',
     si_Namespaces = [], si_BadGrant = False, si_Capability = ''''\<rparr>"

definition tailnetSignIn :: "admin \<Rightarrow> web_env \<Rightarrow> web_request \<Rightarrow> tailnetSignIn" where
  "tailnetSignIn h w r =
     (case tc_Node (ad_tailnet h) of
        None \<Rightarrow> no_sign_in
      | Some node \<Rightarrow>
          if \<not> tc_IdentityLogin (ad_tailnet h) \<or> \<not> wr_ViaTailnet r then no_sign_in
          else let si = no_sign_in\<lparr>si_Offered := True, si_Capability := AdminCapability\<rparr>
               in case nd_WhoIs node (wr_RemoteAddr r) of
                    Inl er \<Rightarrow> si\<lparr>si_Unavailable := True\<rparr>
                  | Inr i \<Rightarrow>
                      if id_Tagged i then si\<lparr>si_Tagged := True\<rparr>
                      else if id_LoginName i = '''' then si\<lparr>si_Unavailable := True\<rparr>
                      else let si = si\<lparr>si_Login := id_LoginName i, si_DisplayName := id_DisplayName i\<rparr>
                           in case AdminNamespaces (we_unicode w) (we_unmarshal w) i of
                                Inl er \<Rightarrow> si\<lparr>si_BadGrant := True\<rparr>
                              | Inr ns \<Rightarrow> si\<lparr>si_Namespaces := ns\<rparr>)"

definition verifyTailnetSession :: "admin \<Rightarrow> web_env \<Rightarrow> web_request \<Rightarrow> APIKey \<Rightarrow> err option" where
  "verifyTailnetSession h w r key =
     (let si = tailnetSignIn h w r
      in if \<not> tc_IdentityLogin (ad_tailnet h) then Some (ErrorMsg ''identity_login_off'')
         else if \<not> si_Offered si then Some (ErrorMsg ''not_on_tailnet_listener'')
         else if si_Unavailable si then Some (ErrorMsg ''peer_unidentified'')
         else if si_Tagged si then Some (ErrorMsg ''tagged_device'')
         else if si_Login si \<noteq> key_TailnetLogin key then Some (ErrorMsg ''identity_changed'')
         else if si_BadGrant si then Some (ErrorMsg ''grant_invalid'')
         else if key_Namespace key \<notin> set (si_Namespaces si) then Some (ErrorMsg ''grant_removed'')
         else None)"

section \<open>Authentication\<close>

text \<open>
  \<open>authenticate\<close> answers the session with its key, or an error, and the cookies it set. The identity of a
  session that began with a tailnet sign-in is checked again on every request.
\<close>

definition refresh_due :: "admin \<Rightarrow> time \<Rightarrow> AdminSession \<Rightarrow> bool" where
  "refresh_due h now session \<longleftrightarrow> ses_ExpiresAt session - now \<le> go_div (ad_idleTTL h) 2"

definition refreshed_expiry :: "admin \<Rightarrow> time \<Rightarrow> AdminSession \<Rightarrow> time" where
  "refreshed_expiry h now session =
     (let expiresAt = now + ad_idleTTL h
      in if ses_AbsoluteExpiresAt session < expiresAt then ses_AbsoluteExpiresAt session else expiresAt)"

definition authenticate :: "admin \<Rightarrow> web_env \<Rightarrow> web_request \<Rightarrow> db \<Rightarrow> (authState result \<times> cookie list) \<times> db" where
  "authenticate h w r db =
     (let token = (case Cookie r sessionCookieName of None \<Rightarrow> '''' | Some v \<Rightarrow> v); now = we_now w 0; tokenHash = hash_token w token;
          clear = clearSessionCookie (ad_cookieSecure h)
      in if token = '''' then ((Inl errUnauthenticated, []), db)
         else (case ask (we_session w) 0 (\<lambda>ev. GetAdminSession ev tokenHash now) db of
             (Inl er, db') \<Rightarrow> if errors_Is er ErrAdminSessionNotFound then ((Inl errUnauthenticated, [clear]), db') else ((Inl er, []), db')
           | (Inr (session, key), db') \<Rightarrow>
               if key_TailnetLogin key \<noteq> '''' \<and> verifyTailnetSession h w r key \<noteq> None
               then (case call (we_session w) 1 (\<lambda>ev. DeleteAdminSession ev tokenHash) db' of
                       (Inl er, db'') \<Rightarrow> ((Inl er, []), db'')
                     | (Inr _, db'') \<Rightarrow> ((Inl errUnauthenticated, [clear]), db''))
               else if refresh_due h now session
               then (let expiresAt = refreshed_expiry h now session
                     in case call (we_session w) 1 (\<lambda>ev. RefreshAdminSession ev tokenHash now expiresAt) db' of
                          (Inl er, db'') \<Rightarrow> ((Inl errUnauthenticated, [clear]), db'')
                        | (Inr _, db'') \<Rightarrow>
                            ((Inr \<lparr>as_Session = session\<lparr>ses_LastSeenAt := now, ses_ExpiresAt := expiresAt\<rparr>, as_Key = key, as_Theme = ''''\<rparr>,
                              [newSessionCookie token now expiresAt (ad_cookieSecure h)]), db''))
               else ((Inr \<lparr>as_Session = session, as_Key = key, as_Theme = ''''\<rparr>, []), db')))"

definition session_logout :: "admin \<Rightarrow> web_env \<Rightarrow> web_request \<Rightarrow> cookie stmt" where
  "session_logout h w r = seq_stmt (drop_session w 2 r) (\<lambda>_. give (clearSessionCookie (ad_cookieSecure h)))"

section \<open>What a session stands for\<close>

text \<open>
  The cookie of the request belongs to a stored session that has not expired, of an enabled key. If the key is one of the
  tailnet sign-in, the peer behind the connection is that person, and still has the grant.
\<close>

definition vouched_for :: "admin \<Rightarrow> web_env \<Rightarrow> web_request \<Rightarrow> string \<Rightarrow> Namespace \<Rightarrow> bool" where
  "vouched_for h w r login ns \<longleftrightarrow> tc_IdentityLogin (ad_tailnet h) \<and> wr_ViaTailnet r \<and> login \<noteq> ''''
     \<and> (\<exists>node i nss. tc_Node (ad_tailnet h) = Some node \<and> nd_WhoIs node (wr_RemoteAddr r) = Inr i \<and> \<not> id_Tagged i
          \<and> id_LoginName i = login \<and> AdminNamespaces (we_unicode w) (we_unmarshal w) i = Inr nss \<and> ns \<in> set nss)"

definition live_session :: "admin \<Rightarrow> web_env \<Rightarrow> web_request \<Rightarrow> db \<Rightarrow> AdminSession \<Rightarrow> APIKey \<Rightarrow> bool" where
  "live_session h w r db s k \<longleftrightarrow>
     (\<exists>v. Cookie r sessionCookieName = Some v \<and> v \<noteq> '''' \<and> ses_TokenHash s = hash_token w v)
     \<and> s \<in> set (t_admin_sessions db) \<and> k \<in> set (t_api_keys db) \<and> key_ID k = ses_APIKeyID s \<and> key_Enabled k
     \<and> we_now w 0 < ses_ExpiresAt s \<and> we_now w 0 < ses_AbsoluteExpiresAt s
     \<and> (key_TailnetLogin k \<noteq> '''' \<longrightarrow> vouched_for h w r (key_TailnetLogin k) (key_Namespace k))"

lemma tailnetSignIn_cases:
  "tailnetSignIn h w r = no_sign_in
   \<or> si_Offered (tailnetSignIn h w r) \<and> (si_Unavailable (tailnetSignIn h w r) \<or> si_Tagged (tailnetSignIn h w r)
      \<or> (\<exists>node i. tc_Node (ad_tailnet h) = Some node \<and> tc_IdentityLogin (ad_tailnet h) \<and> wr_ViaTailnet r
            \<and> nd_WhoIs node (wr_RemoteAddr r) = Inr i \<and> \<not> id_Tagged i \<and> id_LoginName i \<noteq> ''''
            \<and> si_Login (tailnetSignIn h w r) = id_LoginName i
            \<and> (case AdminNamespaces (we_unicode w) (we_unmarshal w) i of
                 Inl er \<Rightarrow> si_BadGrant (tailnetSignIn h w r) \<and> si_Namespaces (tailnetSignIn h w r) = []
               | Inr nss \<Rightarrow> \<not> si_BadGrant (tailnetSignIn h w r) \<and> si_Namespaces (tailnetSignIn h w r) = nss)))"
  by (auto simp: tailnetSignIn_def no_sign_in_def Let_def split: option.split sum.split)

lemma sign_in_grants:
  "si_Login (tailnetSignIn h w r) = login \<and> login \<noteq> '''' \<and> ns \<in> set (si_Namespaces (tailnetSignIn h w r)) \<longleftrightarrow> vouched_for h w r login ns"
  by (auto simp: tailnetSignIn_def vouched_for_def no_sign_in_def Let_def split: option.splits sum.splits)

lemma verifyTailnetSession_iff:
  "key_TailnetLogin k \<noteq> '''' \<Longrightarrow>
   verifyTailnetSession h w r k = None \<longleftrightarrow> vouched_for h w r (key_TailnetLogin k) (key_Namespace k)"
  by (auto simp: tailnetSignIn_def verifyTailnetSession_def vouched_for_def no_sign_in_def Let_def split: option.splits sum.splits)

lemma GetAdminSession_Inr:
  assumes "GetAdminSession ev hash now db = Inr (s, k)"
  shows "s \<in> set (t_admin_sessions db)" "k \<in> set (t_api_keys db)" "key_ID k = ses_APIKeyID s" "key_Enabled k"
    "ses_TokenHash s = hash" "now < ses_ExpiresAt s" "now < ses_AbsoluteExpiresAt s"
  using assms
  by (auto simp: GetAdminSession_def row_or_def run_query_def queryGetAdminSession_def split: sum.splits option.splits fault.splits
      dest!: select_row_SomeD)

lemma authenticate_Inr:
  assumes "authenticate h w r db = ((Inr au, cs), db')"
  shows "\<exists>s. live_session h w r (sv_other (we_session w) 0 db) s (as_Key au) \<and> ses_CSRFToken (as_Session au) = ses_CSRFToken s"
proof -
  obtain v where v: "Cookie r sessionCookieName = Some v" "v \<noteq> ''''"
    using assms(1) by (auto simp: authenticate_def Let_def split: option.splits if_splits)
  obtain s k where g: "GetAdminSession (sv_db (we_session w) 0) (hash_token w v) (we_now w 0) (sv_other (we_session w) 0 db) = Inr (s, k)"
    using assms v by (auto simp: authenticate_def Let_def ask_def split: sum.splits if_splits prod.splits)
  have "as_Key au = k" "ses_CSRFToken (as_Session au) = ses_CSRFToken s" "key_TailnetLogin k \<noteq> '''' \<longrightarrow> verifyTailnetSession h w r k = None"
    using assms v g by (auto simp: authenticate_def Let_def ask_def split: sum.splits if_splits prod.splits)
  then show ?thesis using GetAdminSession_Inr [OF g] v verifyTailnetSession_iff by (auto simp: live_session_def)
qed

text \<open>With the constraints of the database there is one session and one key for a token, so the lookup finds it.\<close>

lemma GetAdminSession_complete:
  assumes "db_ok db" "de_fault ev = NoFault" "s \<in> set (t_admin_sessions db)" "k \<in> set (t_api_keys db)" "key_ID k = ses_APIKeyID s"
    "key_Enabled k" "now < ses_ExpiresAt s" "now < ses_AbsoluteExpiresAt s"
  shows "GetAdminSession ev (ses_TokenHash s) now db = Inr (s, k)"
proof -
  let ?rows = "concat (map (\<lambda>s. map (Pair s) (filter (\<lambda>k. key_ID k = ses_APIKeyID s) (t_api_keys db))) (t_admin_sessions db))"
  let ?P = "\<lambda>(s', k). ses_TokenHash s' = ses_TokenHash s \<and> now < ses_ExpiresAt s' \<and> now < ses_AbsoluteExpiresAt s' \<and> key_Enabled k"
  have d: "distinct (map ses_TokenHash (t_admin_sessions db))" "distinct (map key_ID (t_api_keys db))"
    using assms(1) by (simp_all add: db_ok_def sessions_ok_def keys_ok_def col_def)
  have mem: "(s, k) \<in> set ?rows" using assms(3,4,5) by auto
  then obtain x where x: "select_row ?P ?rows = Some x"
    using select_row_ex [OF mem, where P = ?P] assms(6,7,8) by auto
  obtain s' k' where x': "x = (s', k')" by (cases x)
  have "s' \<in> set (t_admin_sessions db)" "k' \<in> set (t_api_keys db)" "key_ID k' = ses_APIKeyID s'" "ses_TokenHash s' = ses_TokenHash s"
    using select_row_SomeD [OF x] by (auto simp: x')
  then have "s' = s" "k' = k" using distinct_key_eq [OF d(1), of s' s] distinct_key_eq [OF d(2), of k' k] assms(3,4,5) by auto
  then show ?thesis using x assms(2) by (simp add: x' GetAdminSession_def queryGetAdminSession_def run_query_def row_or_def)
qed

lemma refresh_succeeds:
  assumes "de_fault ev = NoFault" "s \<in> set (t_admin_sessions db)" "now < ses_ExpiresAt s" "now < ses_AbsoluteExpiresAt s"
  shows "\<exists>db'. RefreshAdminSession ev (ses_TokenHash s) now ex db = (Inr (), db')"
proof -
  have "count_where (\<lambda>s'. ses_TokenHash s' = ses_TokenHash s \<and> now < ses_ExpiresAt s' \<and> now < ses_AbsoluteExpiresAt s') (t_admin_sessions db) \<noteq> 0"
    using assms(2,3,4) by (auto simp: count_where_def filter_empty_conv)
  then show ?thesis
    using assms(1) by (simp add: RefreshAdminSession_def run_stmt_def ok_stmt_def affected_or_def queryRefreshAdminSession_def Let_def)
qed

lemma authenticate_live:
  assumes "alone (we_session w)" "\<forall>n. de_fault (sv_db (we_session w) n) = NoFault" "db_ok db" "live_session h w r db s k"
  shows "\<exists>au cs db'. authenticate h w r db = ((Inr au, cs), db') \<and> as_Key au = k \<and> ses_CSRFToken (as_Session au) = ses_CSRFToken s"
proof -
  obtain v where v: "Cookie r sessionCookieName = Some v" "v \<noteq> ''''" "ses_TokenHash s = hash_token w v"
    using assms(4) by (auto simp: live_session_def)
  have g: "GetAdminSession (sv_db (we_session w) 0) (hash_token w v) (we_now w 0) db = Inr (s, k)"
    using GetAdminSession_complete [OF assms(3), of "sv_db (we_session w) 0" s k "we_now w 0"] assms(2,4) v(3) by (auto simp: live_session_def)
  have "key_TailnetLogin k = '''' \<or> verifyTailnetSession h w r k = None"
    using assms(4) verifyTailnetSession_iff [of k h w r] by (cases "key_TailnetLogin k = ''''") (simp_all add: live_session_def)
  moreover obtain db' where
      "RefreshAdminSession (sv_db (we_session w) 1) (hash_token w v) (we_now w 0) (refreshed_expiry h (we_now w 0) s) db = (Inr (), db')"
    using refresh_succeeds [of "sv_db (we_session w) 1" s db "we_now w 0"] assms(2,4) v(3) by (auto simp: live_session_def)
  ultimately show ?thesis using v g assms(1) by (auto simp: authenticate_def Let_def)
qed

text \<open>A grant names its namespaces one by one: a value that is malformed, or has an empty, padded or wildcard name, gives nothing.\<close>

lemma cap_namespaces_None: "cap_namespaces uc nss = None \<longleftrightarrow> (\<forall>ns \<in> set nss. TrimSpace uc ns = ns \<and> ns \<noteq> '''' \<and> ns \<noteq> ''*'')"
  by (induction nss) auto

lemma cap_values_Inr:
  "cap_values uc um caps out = Inr res \<Longrightarrow> (\<forall>ns. ns \<in> set res \<longleftrightarrow> ns \<in> set out \<or> (\<exists>raw \<in> set caps. \<exists>nss. um raw = Inr nss \<and> ns \<in> set nss))
    \<and> (\<forall>raw \<in> set caps. \<exists>nss. um raw = Inr nss \<and> cap_namespaces uc nss = None)"
  by (induction caps arbitrary: out) (fastforce split: sum.splits option.splits)+

lemma AdminNamespaces_Inr:
  assumes "AdminNamespaces uc um i = Inr nss" "ns \<in> set nss"
  shows "TrimSpace uc ns = ns" "ns \<noteq> ''''" "ns \<noteq> ''*''" "\<exists>raw \<in> set (id_AdminCaps i). \<exists>l. um raw = Inr l \<and> ns \<in> set l"
proof -
  obtain out where out: "cap_values uc um (id_AdminCaps i) [] = Inr out" "ns \<in> set out"
    using assms by (auto simp: AdminNamespaces_def split: sum.splits)
  then obtain raw l where "raw \<in> set (id_AdminCaps i)" "um raw = Inr l" "ns \<in> set l" "cap_namespaces uc l = None"
    using cap_values_Inr [OF out(1)] by fastforce
  then show "TrimSpace uc ns = ns" "ns \<noteq> ''''" "ns \<noteq> ''*''" "\<exists>raw \<in> set (id_AdminCaps i). \<exists>l. um raw = Inr l \<and> ns \<in> set l"
    using cap_namespaces_None by blast+
qed

section \<open>What the session operations do to the database\<close>

text \<open>
  A relation that the three statements on sessions respect, as this program uses them, is respected by signing in,
  authenticating and signing out, if the rest of the system respects it between their calls.
\<close>

definition quiet :: "(db \<Rightarrow> db \<Rightarrow> bool) \<Rightarrow> web_env \<Rightarrow> bool" where
  "quiet R w \<longleftrightarrow> (\<forall>n db. R db (sv_other (we_session w) n db))"

locale session_relation = statement_relation +
  fixes h :: admin
  assumes insert: "R db (snd (queryInsertAdminSession (we_now w 1) (new_session h w k raw csrf) db))"
    and delete: "R db (queryDeleteAdminSession hash db)"
    and refresh: "ex \<le> now + ad_idleTTL h \<Longrightarrow> R db (snd (queryRefreshAdminSession now ex hash db))"
begin

lemma quiet_alone: "alone (we_session w) \<Longrightarrow> quiet R w"
  by (simp add: quiet_def alone_def refl)

lemma call: "quiet R w \<Longrightarrow> (\<And>db. R db (snd (q (sv_db (we_session w) n) db))) \<Longrightarrow> R db (snd (call (we_session w) n q db))"
  unfolding call_def quiet_def by (blast intro: trans)

lemma DeleteAdminSession: "R db (snd (DeleteAdminSession ev hash db))"
  unfolding DeleteAdminSession_def by (rule run_stmt) (simp add: delete)

lemma drop_session: "quiet R w \<Longrightarrow> R db (snd (drop_session w n r db))"
  by (auto simp: drop_session_def give_def refl DeleteAdminSession intro!: call split: option.split)

lemma startSession:
  assumes "quiet R w"
  shows "R db (snd (startSession h w r key db))"
proof -
  have create: "R db (snd (call (we_session w) 2 (\<lambda>ev. CreateAdminSession ev (new_session h w key raw csrf)) db))" for raw csrf db
  proof (intro call [OF assms])
    fix db
    have "ses_CreatedAt (new_session h w key raw csrf) = we_now w 1" by (simp add: new_session_def Let_def)
    then show "R db (snd (CreateAdminSession (sv_db (we_session w) 2) (new_session h w key raw csrf) db))"
      unfolding CreateAdminSession_def by (intro run_stmt) (simp only: insert)
  qed
  show ?thesis unfolding startSession_def
    by (intro seq_stmt drop_session [OF assms])
      (auto simp: fail_def give_def refl Let_def split: sum.split intro!: seq_stmt create)
qed

lemma session_login:
  assumes "quiet R w"
  shows "R db (snd (session_login h w r token db))"
proof -
  have "R db (sv_other (we_session w) 0 db)" using assms by (simp add: quiet_def)
  moreover have "R db (snd (Store.seq_stmt (AdminAuth.startSession h w r key) (\<lambda>co. give (key, co)) db))" for key db
    by (intro seq_stmt startSession assms) (simp add: give_def refl)
  ultimately show ?thesis
    by (auto simp: session_login_def ask_def split: sum.split intro: trans)
qed

lemma session_logout: "quiet R w \<Longrightarrow> R db (snd (session_logout h w r db))"
  unfolding session_logout_def by (intro seq_stmt drop_session) (auto simp: give_def refl)

lemma authenticate:
  assumes "quiet R w"
  shows "R db (snd (authenticate h w r db))"
proof -
  have ask: "R db (sv_other (we_session w) 0 db)" using assms by (simp add: quiet_def)
  have del: "R db (snd (call (we_session w) 1 (\<lambda>ev. Store.DeleteAdminSession ev hash) db))" for hash db
    by (intro call assms DeleteAdminSession)
  have ref: "R db (snd (call (we_session w) 1 (\<lambda>ev. RefreshAdminSession ev hash (we_now w 0) (refreshed_expiry h (we_now w 0) s)) db))"
    for hash s db
  proof (intro call assms)
    fix db
    have "refreshed_expiry h (we_now w 0) s \<le> we_now w 0 + ad_idleTTL h" by (simp add: refreshed_expiry_def Let_def)
    then show "R db (snd (RefreshAdminSession (sv_db (we_session w) 1) hash (we_now w 0) (refreshed_expiry h (we_now w 0) s) db))"
      by (simp add: RefreshAdminSession_def run_stmt ok_stmt refresh)
  qed
  show ?thesis
    using ask trans [OF ask del] trans [OF ask ref]
    by (auto simp: authenticate_def Let_def ask_def refl split: sum.split prod.split) (metis snd_conv)+
qed

end

section \<open>Sessions expire\<close>

text \<open>
  Every stored session ends at most the idle time after it was last seen, and the absolute time after it began. Other
  activity never writes session rows; it can only remove them, with their key or as expired.
\<close>

definition bounded_session :: "admin \<Rightarrow> AdminSession \<Rightarrow> bool" where
  "bounded_session h s \<longleftrightarrow> ses_AbsoluteExpiresAt s = ses_CreatedAt s + ad_absoluteTTL h
     \<and> ses_ExpiresAt s \<le> ses_AbsoluteExpiresAt s \<and> ses_ExpiresAt s \<le> ses_LastSeenAt s + ad_idleTTL h"

definition bounded :: "admin \<Rightarrow> db \<Rightarrow> bool" where
  "bounded h db \<longleftrightarrow> (\<forall>s \<in> set (t_admin_sessions db). bounded_session h s)"

interpretation bnd: session_relation "\<lambda>a b. bounded h a \<longrightarrow> bounded h b" h for h
proof unfold_locales
  fix db w k raw csrf now ex hash
  show "bounded h db \<longrightarrow> bounded h (snd (queryInsertAdminSession (we_now w 1) (new_session h w k raw csrf) db))"
    by (auto simp: bounded_def queryInsertAdminSession_def bounded_session_def new_session_def Let_def del_where_def)
  show "bounded h db \<longrightarrow> bounded h (queryDeleteAdminSession hash db)"
    by (auto simp: bounded_def queryDeleteAdminSession_def del_where_def)
  show "bounded h db \<longrightarrow> bounded h (snd (queryRefreshAdminSession now ex hash db))" if "ex \<le> now + ad_idleTTL h"
    using that by (auto simp: bounded_def queryRefreshAdminSession_def bounded_session_def upd_where_def Let_def)
qed auto

abbreviation no_new_sessions :: "db \<Rightarrow> db \<Rightarrow> bool" where
  "no_new_sessions a b \<equiv> set (t_admin_sessions b) \<subseteq> set (t_admin_sessions a)"

interpretation nns: statement_relation no_new_sessions
  by unfold_locales auto

lemma query_no_new_sessions:
  "no_new_sessions db (snd (queryInsertSchedule s db))" "no_new_sessions db (snd (queryInsertJob j db))"
  "no_new_sessions db (snd (queryUpdateJob j db))" "no_new_sessions db (snd (queryUpdateJobConfiguration j db))"
  "no_new_sessions db (queryUpdateSchedule s db)" "no_new_sessions db (queryDeleteTags i db)" "no_new_sessions db (snd (queryUpsertTag i t db))"
  "no_new_sessions db (snd (queryInsertAPIKey k db))" "no_new_sessions db (snd (queryGetOrCreateTailnetKey k db))"
  "no_new_sessions db (queryUpdateLastUsedAt clk ids db)" "no_new_sessions db (snd (queryDeleteKey i ns db))"
  "no_new_sessions db (queryDeleteAdminSession h db)" "no_new_sessions db (snd (queryInsertDeliveryAttempt a db))"
  "no_new_sessions db (snd (upsert_view clk newID ns actor name query db))"
  "no_new_sessions db (snd (insert_batch clk newID ns actor action items db))"
  "no_new_sessions db (set_enabled clk i ns b db)"
  by (auto simp: queryInsertSchedule_def queryInsertJob_def queryUpdateJob_def queryUpdateJobConfiguration_def queryUpsertTag_def
    queryUpdateSchedule_def queryDeleteTags_def queryInsertAPIKey_def queryGetOrCreateTailnetKey_def Let_def
    queryUpdateLastUsedAt_def queryDeleteKey_def queryDeleteAdminSession_def queryInsertDeliveryAttempt_def upsert_view_def
    insert_batch_def set_enabled_def del_where_def)

lemma execution_no_new_sessions:
  "no_new_sessions db (snd (queryInsertExecution x db))" "no_new_sessions db (snd (queryAckExecution clk i ns db))"
  "no_new_sessions db (snd (queryUpdateExecutionStatus st i db))" "no_new_sessions db (snd (queryDequeueExecution locked clk us db))"
  "no_new_sessions db (snd (queryDequeueExecutions locked clk us n db))" "no_new_sessions db (snd (queryClaimExecution clk i ns us db))"
  "no_new_sessions db (snd (queryRenewExecutionClaim clk i ns gen us db))" "no_new_sessions db (snd (queryRequeueStaleExecutions locked clk n db))"
  "no_new_sessions db (snd (queryDeleteJob i ns db))" "no_new_sessions db (snd (queryCompleteExecution clk i ns gen st db))"
  by (auto simp: queryInsertExecution_def queryAckExecution_def queryUpdateExecutionStatus_def queryDequeueExecution_def
    queryDequeueExecutions_def queryClaimExecution_def queryRenewExecutionClaim_def queryRequeueStaleExecutions_def queryDeleteJob_def
    queryCompleteExecution_def Let_def split: option.split list.split)

lemma method_no_new_sessions:
  "no_new_sessions db (snd (CreateJobAggregate ev j s ts db))" "no_new_sessions db (snd (UpdateJobAggregate ev j s ts' db))"
  "no_new_sessions db (snd (GetOrCreateTailnetKey ev m f2 m2 k db))" "no_new_sessions db (snd (SaveView ev i ns ac nm q db))"
  "no_new_sessions db (snd (DeleteView ev ns ac i db))" "no_new_sessions db (snd (PreviewBulk ev i ns ac act ids db))"
  "no_new_sessions db (snd (ConfirmBulk ev se ue ns ac i db))" "no_new_sessions db (snd (UpsertTags ev i ts db))"
  "no_new_sessions db (snd (InsertFirstAPIKey ev k db))" "no_new_sessions db (snd (UpdateLastUsedAt ev ids db))"
  "no_new_sessions db (snd (CompleteExecution ev x st db))" "no_new_sessions db (snd (DequeueExecutions st' ev n db))"
proof -
  note q = query_no_new_sessions execution_no_new_sessions
  show "no_new_sessions db (snd (CreateJobAggregate ev j s ts db))" unfolding CreateJobAggregate_def
    by (intro nns.run_stmt nns.in_tx nns.seq_stmt nns.upsert_tags) (rule q)+
  show "no_new_sessions db (snd (UpdateJobAggregate ev j s ts' db))" by (intro nns.UpdateJobAggregate) (rule q)+
  show "no_new_sessions db (snd (GetOrCreateTailnetKey ev m f2 m2 k db))" by (intro nns.GetOrCreateTailnetKey) (rule q)
  show "no_new_sessions db (snd (SaveView ev i ns ac nm q db))" unfolding SaveView_def
    by (intro nns.run_stmt nns.in_tx nns.seq_stmt) (simp_all add: q)
  show "no_new_sessions db (snd (DeleteView ev ns ac i db))" unfolding DeleteView_def snd_affected_or
    by (intro nns.run_stmt nns.ok_stmt) (simp add: Let_def)
  show "no_new_sessions db (snd (PreviewBulk ev i ns ac act ids db))" by (rule nns.PreviewBulk) (simp_all add: q)
  show "no_new_sessions db (snd (ConfirmBulk ev se ue ns ac i db))" by (rule nns.ConfirmBulk) (simp_all add: q)
  show "no_new_sessions db (snd (UpsertTags ev i ts db))" unfolding UpsertTags_def
    by (intro nns.run_stmt nns.in_tx nns.upsert_tags) (rule q)
  show "no_new_sessions db (snd (InsertFirstAPIKey ev k db))" unfolding InsertFirstAPIKey_def
    by (intro nns.run_stmt nns.in_tx) (simp add: q)
  show "no_new_sessions db (snd (UpdateLastUsedAt ev ids db))"
    by (simp add: UpdateLastUsedAt_def run_stmt_def q split: fault.split)
  show "no_new_sessions db (snd (CompleteExecution ev x st db))"
    by (simp add: CompleteExecution_def run_stmt_def ok_stmt_def q split: fault.split)
  show "no_new_sessions db (snd (DequeueExecutions st' ev n db))"
    by (simp add: DequeueExecutions_def run_stmt_def ok_stmt_def q split: fault.split)
qed

fun writes_sessions :: "store_op \<Rightarrow> bool" where
  "writes_sessions (OpCreateAdminSession s) = True"
| "writes_sessions (OpRefreshAdminSession hash seen ex) = True"
| "writes_sessions _ = False"

lemma exec_op_no_new_sessions: "\<not> writes_sessions op \<Longrightarrow> no_new_sessions db (exec_op (ev, op) db)"
  by (cases op) (simp_all add: method_no_new_sessions method_defs snd_SetJobEnabled query_no_new_sessions execution_no_new_sessions
      run_stmt_def ok_stmt_def split: fault.split)

datatype session_op =
    SignIn web_env web_request APIKey
  | KeySignIn web_env web_request string
  | Visit web_env web_request
  | SignOut web_env web_request
  | Elsewhere dbenv store_op

fun session_step :: "admin \<Rightarrow> session_op \<Rightarrow> db \<Rightarrow> db" where
  "session_step h (SignIn w r key) db = snd (startSession h w r key db)"
| "session_step h (KeySignIn w r token) db = snd (session_login h w r token db)"
| "session_step h (Visit w r) db = snd (authenticate h w r db)"
| "session_step h (SignOut w r) db = snd (session_logout h w r db)"
| "session_step h (Elsewhere ev op) db = exec_op (ev, op) db"

fun fair_op :: "session_op \<Rightarrow> bool" where
  "fair_op (SignIn w r key) = quiet no_new_sessions w"
| "fair_op (KeySignIn w r token) = quiet no_new_sessions w"
| "fair_op (Visit w r) = quiet no_new_sessions w"
| "fair_op (SignOut w r) = quiet no_new_sessions w"
| "fair_op (Elsewhere ev op) = (\<not> writes_sessions op)"

lemma quiet_bounded: "quiet no_new_sessions w \<Longrightarrow> quiet (\<lambda>a b. bounded h a \<longrightarrow> bounded h b) w"
  unfolding quiet_def bounded_def by blast

lemma session_step_bounded: "fair_op op \<Longrightarrow> bounded h db \<Longrightarrow> bounded h (session_step h op db)"
proof (cases op)
  case (Elsewhere ev sop)
  assume "fair_op op" "bounded h db"
  then show ?thesis using exec_op_no_new_sessions [of sop ev db] by (auto simp: Elsewhere bounded_def)
qed (use bnd.startSession [OF quiet_bounded] bnd.session_login [OF quiet_bounded] bnd.authenticate [OF quiet_bounded]
      bnd.session_logout [OF quiet_bounded] in auto)

lemma sessions_bounded: "\<forall>op \<in> set ops. fair_op op \<Longrightarrow> bounded h db \<Longrightarrow> bounded h (fold (session_step h) ops db)"
  by (induction ops arbitrary: db) (auto simp: session_step_bounded)

text \<open>
  C8: Sessions end. Take any history of sign-ins, visits and sign-outs, with any other activity of the system before, between and during
  them, and any database faults. A request that is then let in presents the token of a session that began less than the absolute
  lifetime ago and was last seen less than the idle time ago, and whose key exists and is enabled.
\<close>

theorem sessions_expire:
  assumes "t_admin_sessions db0 = []" "\<forall>op \<in> set ops. fair_op op" "quiet no_new_sessions w"
    and "db = sv_other (we_session w) 0 (fold (session_step h) ops db0)"
    and "authenticate h w r (fold (session_step h) ops db0) = ((Inr au, cs), db')"
  shows "\<exists>s \<in> set (t_admin_sessions db). map_option (hash_token w) (Cookie r sessionCookieName) = Some (ses_TokenHash s)
    \<and> we_now w 0 < ses_CreatedAt s + ad_absoluteTTL h \<and> we_now w 0 < ses_LastSeenAt s + ad_idleTTL h
    \<and> as_Key au \<in> set (t_api_keys db) \<and> key_Enabled (as_Key au) \<and> key_ID (as_Key au) = ses_APIKeyID s"
proof -
  have "bounded h (fold (session_step h) ops db0)" using assms(1,2) by (intro sessions_bounded) (auto simp: bounded_def)
  then have "bounded h db" using assms(3,4) unfolding quiet_def bounded_def by blast
  moreover obtain s where s: "live_session h w r db s (as_Key au)" using authenticate_Inr [OF assms(5)] assms(4) by blast
  then have "s \<in> set (t_admin_sessions db)" by (simp add: live_session_def)
  ultimately have "s \<in> set (t_admin_sessions db)" "bounded_session h s" by (auto simp: bounded_def)
  with s show ?thesis by (intro bexI [of _ s]) (auto simp: live_session_def bounded_session_def)
qed

text \<open>
  C7: The session manager lets in exactly the live sessions. A request is accepted for a key if and only if its cookie is the token of a
  stored session of that key, neither its idle nor its absolute time is over, the key is enabled and, for a key of the tailnet sign-in,
  the peer is that person and still has the grant.
\<close>

theorem sessions_exact:
  assumes "alone (we_session w)" "\<forall>n. de_fault (sv_db (we_session w) n) = NoFault" "db_ok db"
  shows "(\<exists>au cs. fst (authenticate h w r db) = (Inr au, cs) \<and> as_Key au = k) \<longleftrightarrow> (\<exists>s. live_session h w r db s k)"
proof
  assume "\<exists>au cs. fst (authenticate h w r db) = (Inr au, cs) \<and> as_Key au = k"
  then obtain au cs db' where "authenticate h w r db = ((Inr au, cs), db')" "as_Key au = k" by (metis prod.collapse)
  then show "\<exists>s. live_session h w r db s k" using authenticate_Inr assms(1) by (fastforce simp: alone_def)
qed (use authenticate_live [OF assms] in fastforce)

text \<open>Signing in stores a session under the hash of the cookie, and signing out removes it.\<close>

lemma startSession_Inr:
  assumes "startSession h w r key db = (Inr co, db')" "alone (we_session w)"
  shows "\<exists>raw csrf. randomToken w 0 = Inr raw \<and> randomToken w 1 = Inr csrf \<and> co_Value co = raw
    \<and> new_session h w key raw csrf \<in> set (t_admin_sessions db') \<and> t_api_keys db' = t_api_keys db"
proof -
  obtain db1 where d: "drop_session w 1 r db = (Inr (), db1)" using assms(1)
    by (auto simp: startSession_def seq_stmt_def split: prod.splits sum.splits)
  then have k: "t_api_keys db1 = t_api_keys db" using assms(2)
    by (auto simp: drop_session_def give_def DeleteAdminSession_def run_stmt_def queryDeleteAdminSession_def split: option.splits if_splits fault.splits)
  obtain raw csrf where t: "randomToken w 0 = Inr raw" "randomToken w 1 = Inr csrf"
    using assms(1) d by (auto simp: startSession_def seq_stmt_def fail_def split: sum.splits)
  obtain db2 where c: "CreateAdminSession (sv_db (we_session w) 2) (new_session h w key raw csrf) db1 = (Inr (), db2)"
    and co: "co_Value co = raw" "db' = db2"
    using assms d t by (auto simp: startSession_def seq_stmt_def fail_def give_def Let_def newSessionCookie_def split: sum.splits prod.splits)
  have "new_session h w key raw csrf \<in> set (t_admin_sessions db2)" "t_api_keys db2 = t_api_keys db1"
    using c by (auto simp: CreateAdminSession_def run_stmt_def queryInsertAdminSession_def split: fault.splits if_splits)
  with k t co show ?thesis by auto
qed

lemma startSession_db_ok: "db_ok db \<Longrightarrow> alone (we_session w) \<Longrightarrow> db_ok (snd (startSession h w r key db))"
proof -
  have q: "session_relation keeps_ok h" for h
    by unfold_locales (simp_all add: query_oks)
  show "db_ok db \<Longrightarrow> alone (we_session w) \<Longrightarrow> db_ok (snd (startSession h w r key db))"
    using session_relation.startSession [OF q session_relation.quiet_alone [OF q]] by blast
qed

text \<open>
  C34: Sign-in, visit, sign-out. A session that was just started lets its cookie in as the key it was started for, with the CSRF token
  it was given, as long as the idle time lasts; after signing out with that cookie, the same request is refused as unauthenticated.
\<close>

theorem session_roundtrip:
  assumes "db_ok db" "key \<in> set (t_api_keys db)" "key_Enabled key"
    and "alone (we_session w)" "startSession h w r key db = (Inr co, db1)" "co_Value co \<noteq> ''''"
    and "alone (we_session w2)" "\<forall>n. de_fault (sv_db (we_session w2) n) = NoFault" "sv_sha256 (we_session w2) = sv_sha256 (we_session w)"
    and "Cookie r2 sessionCookieName = Some (co_Value co)"
    and "we_now w2 0 < we_now w 1 + ad_idleTTL h" "ad_idleTTL h \<le> ad_absoluteTTL h"
    and "key_TailnetLogin key \<noteq> '''' \<longrightarrow> vouched_for h w2 r2 (key_TailnetLogin key) (key_Namespace key)"
  shows "\<exists>au cs db2. authenticate h w2 r2 db1 = ((Inr au, cs), db2) \<and> as_Key au = key
    \<and> randomToken w 1 = Inr (ses_CSRFToken (as_Session au))
    \<and> fst (authenticate h w2 r2 (snd (session_logout h w2 r2 db2))) = (Inl errUnauthenticated, [clearSessionCookie (ad_cookieSecure h)])"
proof -
  obtain raw csrf where raw: "randomToken w 0 = Inr raw" "randomToken w 1 = Inr csrf" "co_Value co = raw"
      "new_session h w key raw csrf \<in> set (t_admin_sessions db1)" "t_api_keys db1 = t_api_keys db"
    using startSession_Inr [OF assms(5,4)] by blast
  have hash: "hash_token w2 x = hash_token w x" for x using assms(9) by (simp add: hash_token_def HashToken_def)
  have ok: "db_ok db1" using startSession_db_ok [OF assms(1,4), of h r key] assms(5) by simp
  have "live_session h w2 r2 db1 (new_session h w key raw csrf) key"
    using assms(2,3,6,10,11,12,13) raw hash by (auto simp: live_session_def new_session_def Let_def)
  from authenticate_live [OF assms(7,8) ok this] obtain au cs db2 where
      a: "authenticate h w2 r2 db1 = ((Inr au, cs), db2)" "as_Key au = key" "ses_CSRFToken (as_Session au) = csrf"
    by (auto simp: new_session_def Let_def)
  let ?db3 = "snd (session_logout h w2 r2 db2)"
  have "\<forall>s \<in> set (t_admin_sessions ?db3). ses_TokenHash s \<noteq> hash_token w2 raw"
    using assms(6,7,8,10) raw(3)
    by (auto simp: session_logout_def drop_session_def seq_stmt_def give_def DeleteAdminSession_def run_stmt_def queryDeleteAdminSession_def
        del_where_def)
  then have "queryGetAdminSession (hash_token w2 raw) (we_now w2 0) ?db3 = None"
    by (auto simp: queryGetAdminSession_def select_row_None_iff)
  then have "fst (authenticate h w2 r2 ?db3) = (Inl errUnauthenticated, [clearSessionCookie (ad_cookieSecure h)])"
    using assms(6,7,8,10) raw(3) by (simp add: authenticate_def Let_def GetAdminSession_def run_query_def row_or_def)
  with a raw(2) show ?thesis by blast
qed

section \<open>Samples\<close>

definition sample_admin :: admin where
  "sample_admin = \<lparr>ad_runtimeSettings = [], ad_bootstrapToken = ''boot'', ad_idleTTL = 30 * Minute, ad_absoluteTTL = 12 * Hour,
     ad_cookieSecure = True, ad_tailnet = \<lparr>tc_Built = False, tc_Delivery = False, tc_Listen = False, tc_DisablePublicListener = False,
       tc_IdentityLogin = False, tc_Hostname = '''', tc_PublicAddr = '''', tc_Policy = None, tc_Node = None\<rparr>\<rparr>"

definition sample_web :: web_env where
  "sample_web = \<lparr>we_session = sample_svc\<lparr>sv_sha256 := map of_char\<rparr>, we_rand = (\<lambda>n. Inr [of_nat n + 1]), we_service = (\<lambda>n. sample_svc),
     we_race = (False, NoFault, False), we_items = (\<lambda>i. False, \<lambda>i. False), we_unmarshal = (\<lambda>s. Inr []), we_parseUUID = (\<lambda>s. Some 1), we_uuidString = (\<lambda>i. ''1''), we_QueryEscape = (\<lambda>s. s),
     we_format = (\<lambda>layout t. ''''),
     we_ParseURL = (\<lambda>s. None), we_URLString = (\<lambda>u q. '''')\<rparr>"

definition sample_visit :: web_request where
  "sample_visit = \<lparr>wr_Method = ''GET'', wr_Path = ''/admin/jobs'', wr_EscapedPath = ''/admin/jobs'', wr_Cookies = [(sessionCookieName, ''01'')],
     wr_Form = [], wr_PostForm = [], wr_RawQuery = '''', wr_Query = [], wr_QueryOK = True, wr_RequestURI = ''/admin/jobs'',
     wr_Body = Some 0, wr_SecFetchSite = '''', wr_Origin = '''', wr_Host = ''localhost'', wr_RemoteAddr = ''10.0.0.1:5000'',
     wr_ViaTailnet = False\<rparr>"

definition sample_admin_key :: APIKey where
  "sample_admin_key = \<lparr>key_ID = 7, key_Namespace = ''acme'', key_TokenHash = ''h'', key_Label = ''ops'', key_Enabled = True, key_CreatedAt = 0,
     key_LastUsedAt = None, key_TailnetLogin = ''''\<rparr>"

definition sample_keys :: db where
  "sample_keys = snd (queryInsertAPIKey sample_admin_key empty_db)"

definition sample_signed_in :: db where
  "sample_signed_in = snd (startSession sample_admin sample_web sample_visit sample_admin_key sample_keys)"

lemma sample_web_alone: "alone (we_session sample_web)" "\<forall>n. de_fault (sv_db (we_session sample_web) n) = NoFault"
  "quiet no_new_sessions sample_web"
  by (simp_all add: sample_web_def alone_def sample_svc_def quiet_def)

lemma sample_keys: "db_ok sample_keys" "t_api_keys sample_keys = [sample_admin_key]" "t_admin_sessions sample_keys = []"
  using queryInsertAPIKey_ok [OF db_ok_empty, of sample_admin_key]
  by (simp_all add: sample_keys_def) (simp_all add: queryInsertAPIKey_def empty_db_def api_key_row_def sample_admin_key_def)

lemma sample_signed_in: "startSession sample_admin sample_web sample_visit sample_admin_key sample_keys =
    (Inr (newSessionCookie ''01'' Microsecond (Microsecond + 30 * Minute) True), sample_signed_in)"
proof -
  have "fst (startSession sample_admin sample_web sample_visit sample_admin_key sample_keys) =
      Inr (newSessionCookie ''01'' Microsecond (Microsecond + 30 * Minute) True)" by code_simp
  then show ?thesis unfolding sample_signed_in_def by (metis prod.collapse)
qed

lemma sample_let_in: "\<exists>au cs db'. authenticate sample_admin sample_web sample_visit sample_signed_in = ((Inr au, cs), db') \<and> as_Key au = sample_admin_key"
proof -
  have "(case fst (fst (authenticate sample_admin sample_web sample_visit sample_signed_in)) of Inl _ \<Rightarrow> False | Inr au \<Rightarrow> as_Key au = sample_admin_key)"
    by code_simp
  then obtain au where "fst (fst (authenticate sample_admin sample_web sample_visit sample_signed_in)) = Inr au" "as_Key au = sample_admin_key"
    by (auto split: sum.splits)
  then show ?thesis by (metis prod.collapse)
qed

theorem sessions_expire_witness:
  "\<exists>s. s \<in> set (t_admin_sessions sample_signed_in) \<and> we_now sample_web 0 < ses_CreatedAt s + 12 * Hour
     \<and> we_now sample_web 0 < ses_LastSeenAt s + 30 * Minute"
proof -
  let ?ops = "[SignIn sample_web sample_visit sample_admin_key]"
  have db: "fold (session_step sample_admin) ?ops sample_keys = sample_signed_in" by (simp add: sample_signed_in_def)
  obtain au cs db' where a: "authenticate sample_admin sample_web sample_visit sample_signed_in = ((Inr au, cs), db')"
    using sample_let_in by blast
  have "\<forall>op \<in> set ?ops. fair_op op" by (simp add: sample_web_alone)
  from sessions_expire [OF sample_keys(3) this sample_web_alone(3) refl, of sample_admin] a db sample_web_alone(1)
  show ?thesis unfolding alone_def sample_admin_def by fastforce
qed

theorem sessions_exact_witness:
  "(\<exists>au cs. fst (authenticate sample_admin sample_web sample_visit sample_signed_in) = (Inr au, cs) \<and> as_Key au = sample_admin_key)
   \<and> (\<exists>s. live_session sample_admin sample_web sample_visit sample_signed_in s sample_admin_key)"
proof -
  have "db_ok sample_signed_in" using startSession_db_ok [OF sample_keys(1) sample_web_alone(1)] by (simp add: sample_signed_in_def)
  from sessions_exact [OF sample_web_alone(1,2) this, of sample_admin sample_visit sample_admin_key] sample_let_in show ?thesis by fastforce
qed

theorem session_roundtrip_witness:
  "\<exists>au cs db2. authenticate sample_admin sample_web sample_visit sample_signed_in = ((Inr au, cs), db2) \<and> as_Key au = sample_admin_key
     \<and> fst (authenticate sample_admin sample_web sample_visit (snd (session_logout sample_admin sample_web sample_visit db2)))
       = (Inl errUnauthenticated, [clearSessionCookie True])"
proof -
  have co: "co_Value (newSessionCookie ''01'' Microsecond (Microsecond + 30 * Minute) True) = ''01''" by (simp add: newSessionCookie_def Let_def)
  have k: "sample_admin_key \<in> set (t_api_keys sample_keys)" "key_Enabled sample_admin_key" "key_TailnetLogin sample_admin_key = ''''"
    using sample_keys(2) by (simp_all add: sample_admin_key_def)
  have c: "Cookie sample_visit sessionCookieName = Some ''01''" by (simp add: Cookie_def sample_visit_def)
  from session_roundtrip [OF sample_keys(1) k(1,2) sample_web_alone(1) sample_signed_in _ sample_web_alone(1,2) refl, of sample_visit] co k(3) c
  show ?thesis by (fastforce simp: sample_admin_def sample_web_def sample_svc_def)
qed

end
