(* ===== verification/AdminQuery.thy ===== *)
theory AdminQuery
  imports AdminAuth "HOL-Library.AList"
begin

text \<open>
  What the admin pages read from queries and forms (\<^verbatim>\<open>internal/webadmin/forms.go\<close>, \<^verbatim>\<open>control_handlers.go\<close> and the helpers of
  \<^verbatim>\<open>handler.go\<close>): the filters of the job and run lists, the links between pages, the safe return addresses, the job forms,
  and the timeline of the next runs. A query is an association list with distinct keys; encoding and parsing of queries are
  those of the environment.
\<close>

section \<open>Numbers and texts\<close>

text \<open>\<open>strconv.Atoi\<close> on 64 bits: an optional sign and decimal digits, within the range of \<open>int\<close>.\<close>

definition Atoi64 :: "string \<Rightarrow> int option" where
  "Atoi64 s =
     (let neg = (s \<noteq> [] \<and> hd s = CHR ''-''); ds = (if s \<noteq> [] \<and> (hd s = CHR ''-'' \<or> hd s = CHR ''+'') then tl s else s);
          n = (if neg then - int (read_decimal ds) else int (read_decimal ds))
      in if ds \<noteq> [] \<and> list_all is_digit ds \<and> - (2 ^ 63) \<le> n \<and> n < 2 ^ 63 then Some n else None)"

text \<open>Converting a float to an integer drops the fraction.\<close>

definition go_int :: "rat \<Rightarrow> int" where
  "go_int x = (if x < 0 then \<lceil>x\<rceil> else \<lfloor>x\<rfloor>)"

text \<open>\<open>utf8.ValidString\<close>: no overlong forms, surrogates or values beyond \<open>0x10FFFF\<close>.\<close>

definition cont :: "nat \<Rightarrow> bool" where
  "cont b \<longleftrightarrow> 0x80 \<le> b \<and> b \<le> 0xBF"

definition utf8_step :: "nat list \<Rightarrow> nat option" where
  "utf8_step s = (case s of
     [] \<Rightarrow> None
   | a # xs \<Rightarrow>
       if a < 0x80 then Some 1
       else (case xs of
         [] \<Rightarrow> None
       | b # ys \<Rightarrow>
           if \<not> cont b then None
           else if 0xC2 \<le> a \<and> a \<le> 0xDF then Some 2
           else (case ys of
             [] \<Rightarrow> None
           | c # zs \<Rightarrow>
               if \<not> cont c then None
               else if 0xE0 \<le> a \<and> a \<le> 0xEF then (if a = 0xE0 \<and> b < 0xA0 \<or> a = 0xED \<and> b > 0x9F then None else Some 3)
               else (case zs of
                 [] \<Rightarrow> None
               | d # _ \<Rightarrow> if cont d \<and> 0xF0 \<le> a \<and> a \<le> 0xF4 \<and> \<not> (a = 0xF0 \<and> b < 0x90 \<or> a = 0xF4 \<and> b > 0x8F) then Some 4 else None))))"

text \<open>The runes of a string, with their widths; a byte that begins no rune is a rune of its own.\<close>

fun runes :: "nat list \<Rightarrow> nat option list" where
  "runes [] = []"
| "runes (a # xs) = (let st = utf8_step (a # xs) in st # runes (drop (case st of None \<Rightarrow> 0 | Some n \<Rightarrow> n - 1) xs))"

definition ValidString :: "string \<Rightarrow> bool" where
  "ValidString s = list_all (\<lambda>st. st \<noteq> None) (runes (map of_char s))"

definition rune_count :: "string \<Rightarrow> nat" where
  "rune_count s = length (runes (map of_char s))"

definition noticeText :: "string \<Rightarrow> string" where
  "noticeText code = (case map_of [(''created'', ''Job created.''), (''updated'', ''Job updated.''), (''deleted'', ''Job deleted.''),
     (''paused'', ''Job paused.''), (''resumed'', ''Job resumed.''), (''triggered'', ''Execution queued.''),
     (''appearance'', ''Appearance saved.'')] code of None \<Rightarrow> '''' | Some t \<Rightarrow> t)"

definition tagsText :: "Tag list \<Rightarrow> string" where
  "tagsText tags = join [CHR 0x0A] (map (\<lambda>t. tag_Key t @ ''='' @ tag_Value t) tags)"

section \<open>Pages and filters\<close>

definition encode :: "web_env \<Rightarrow> form \<Rightarrow> string" where
  "encode w q = sv_encodeQuery (we_session w) q"

definition form_set :: "string \<Rightarrow> string \<Rightarrow> form \<Rightarrow> form" where
  "form_set key v q = AList.update key [v] q"

definition positivePage :: "string \<Rightarrow> int" where
  "positivePage raw = (case Atoi64 raw of None \<Rightarrow> 1 | Some page \<Rightarrow> if page < 1 then 1 else page)"

definition withPage :: "web_env \<Rightarrow> web_request \<Rightarrow> int \<Rightarrow> string" where
  "withPage w r page = wr_Path r @ ''?'' @ encode w (form_set ''page'' (Itoa page) (wr_Query r))"

definition paginationURLs :: "web_env \<Rightarrow> web_request \<Rightarrow> int \<Rightarrow> bool \<Rightarrow> string \<times> string" where
  "paginationURLs w r page hasNext =
     ((if page > 1 then withPage w r (page - 1) else ''''), (if hasNext then withPage w r (page + 1) else ''''))"

record pageLink =
  pl_Number :: int
  pl_URL :: string
  pl_Current :: bool

fun page_numbers :: "int \<Rightarrow> int \<Rightarrow> int list \<Rightarrow> int list" where
  "page_numbers pages previous [] = []"
| "page_numbers pages previous (n # ns) =
     (if n \<ge> 1 \<and> n \<le> pages \<and> n > previous then n # page_numbers pages n ns else page_numbers pages previous ns)"

definition fleetPageLinks :: "web_env \<Rightarrow> web_request \<Rightarrow> int \<Rightarrow> int \<Rightarrow> int \<times> pageLink list" where
  "fleetPageLinks w r page matched =
     (let pages = max 1 (go_div (matched + 24) 25)
      in (pages, map (\<lambda>n. \<lparr>pl_Number = n, pl_URL = withPage w r n, pl_Current = (n = page)\<rparr>)
           (page_numbers pages 0 [1, page - 2, page - 1, page, page + 1, page + 2, pages])))"

definition controlPage :: "string \<Rightarrow> int result" where
  "controlPage raw = (if raw = '''' then Inr 1
     else case Atoi64 raw of
       None \<Rightarrow> Inl ErrInvalidControlInput
     | Some p \<Rightarrow> if p < 1 \<or> p > 10000 then Inl ErrInvalidControlInput else Inr p)"

definition repeated :: "form \<Rightarrow> string list \<Rightarrow> bool" where
  "repeated q ks = list_ex (\<lambda>k. case map_of q k of Some vs \<Rightarrow> length vs > 1 | None \<Rightarrow> False) ks"

definition fleetQuery :: "unicode \<Rightarrow> form \<Rightarrow> (int \<times> JobFilter \<times> string) result" where
  "fleetQuery uc q =
     (let name = TrimSpace uc (form_get q ''name''); tag = form_get q ''tag'';
          enabled = form_get q ''enabled''; view = (if form_get q ''view'' = '''' then ''table'' else form_get q ''view'')
      in case controlPage (form_get q ''page'') of
           Inl er \<Rightarrow> Inl er
         | Inr p \<Rightarrow>
             if repeated q [''name'', ''enabled'', ''tag'', ''view'', ''page''] then Inl ErrInvalidControlInput
             else if length name > 200 \<or> length tag > 200 \<or> \<not> ValidString name \<or> \<not> ValidString tag
               \<or> CHR 0x00 \<in> set name \<or> CHR 0x00 \<in> set tag then Inl ErrInvalidControlInput
             else if enabled \<notin> set ['''', ''true'', ''false''] then Inl ErrInvalidControlInput
             else if tag \<noteq> '''' \<and> (case Cut (CHR ''='') tag of (k, v, found) \<Rightarrow> \<not> found \<or> k = '''' \<or> v = '''') then Inl ErrInvalidControlInput
             else if view \<notin> set [''table'', ''board'', ''timeline''] then Inl ErrInvalidControlInput
             else Inr (p, \<lparr>jf_Namespace = '''',
                 jf_Tags = (if tag = '''' then [] else case Cut (CHR ''='') tag of (k, v, _) \<Rightarrow> [\<lparr>tag_Key = k, tag_Value = v\<rparr>]),
                 jf_Enabled = (if enabled = '''' then None else Some (enabled = ''true'')), jf_Name = name,
                 jf_ListParams = \<lparr>lp_Limit = 26, lp_Offset = (p - 1) * 25\<rparr>\<rparr>, view))"

text \<open>The query keeps those of the given keys that have a value.\<close>

definition keep_keys :: "string list \<Rightarrow> form \<Rightarrow> form" where
  "keep_keys ks q = foldl (\<lambda>v k. if form_get q k \<noteq> '''' then form_set k (form_get q k) v else v) [] ks"

definition savedQuery :: "web_env \<Rightarrow> form \<Rightarrow> string" where
  "savedQuery w q = encode w (keep_keys [''name'', ''enabled'', ''tag'', ''view''] q)"

text \<open>The saved query read again, with the page. What \<open>Encode\<close> writes, \<open>ParseQuery\<close> can read.\<close>

definition state_query :: "web_env \<Rightarrow> form \<Rightarrow> string" where
  "state_query w q =
     (let q' = (case sv_parseQuery (we_session w) (savedQuery w q) of Inl _ \<Rightarrow> [] | Inr v \<Rightarrow> v); p = form_get q ''page''
      in encode w (if p \<noteq> '''' then form_set ''page'' p q' else q'))"

definition fleetState :: "web_env \<Rightarrow> web_request \<Rightarrow> string" where
  "fleetState w r = ''/admin/jobs?'' @ state_query w (wr_Query r)"

definition viewURL :: "web_env \<Rightarrow> web_request \<Rightarrow> string \<Rightarrow> string" where
  "viewURL w r view =
     (let q = AList.delete ''notice'' (form_set ''view'' view (wr_Query r));
          q = (if view = ''timeline'' then AList.delete ''page'' q else q)
      in wr_Path r @ ''?'' @ encode w q)"

definition runsQuery :: "form \<Rightarrow> time \<Rightarrow> (int \<times> ExecutionFilter \<times> string \<times> string) result" where
  "runsQuery q now =
     (let status = form_get q ''status''; trigger = form_get q ''trigger_type''; window = form_get q ''window''; view = form_get q ''view'';
          duration = (if window = ''7d'' then 7 * 24 * Hour else 24 * Hour)
      in case controlPage (form_get q ''page'') of
           Inl er \<Rightarrow> Inl er
         | Inr p \<Rightarrow>
             if repeated q [''page'', ''status'', ''trigger_type'', ''window'', ''view''] then Inl ErrInvalidControlInput
             else if status \<notin> set ['''', ''emitted'', ''in_progress'', ''delivered'', ''failed''] then Inl ErrInvalidControlInput
             else if trigger \<notin> set ['''', ''scheduled'', ''manual''] then Inl ErrInvalidControlInput
             else if window \<notin> set ['''', ''24h'', ''7d''] then Inl ErrInvalidControlInput
             else if view \<notin> set ['''', ''board'', ''table''] then Inl ErrInvalidControlInput
             else Inr (p, \<lparr>ef_JobID = uuid_Nil, ef_Namespace = '''',
                 ef_Status = (if status = '''' then None else Some (status_of_string status)),
                 ef_TriggerType = (if trigger = '''' then None else if trigger = ''scheduled'' then Some Scheduled else Some Manual),
                 ef_Since = Some (now - duration), ef_Until = Some now, ef_ListParams = \<lparr>lp_Limit = 26, lp_Offset = (p - 1) * 25\<rparr>\<rparr>,
               (if window = '''' then ''24h'' else window), (if view = '''' then ''board'' else view)))"

section \<open>Return addresses\<close>

definition is_fleet_query :: "web_env \<Rightarrow> form \<Rightarrow> bool" where
  "is_fleet_query w q \<longleftrightarrow> \<not> isl (fleetQuery (we_unicode w) q)"

definition safeReturn :: "web_env \<Rightarrow> string \<Rightarrow> string" where
  "safeReturn w raw =
     (case we_ParseURL w raw of
        None \<Rightarrow> ''/admin/jobs''
      | Some u \<Rightarrow>
          if uu_IsAbs u \<or> uu_Host u \<noteq> '''' \<or> uu_Fragment u \<noteq> '''' \<or> length raw > 2500 then ''/admin/jobs''
          else if uu_Path u = ''/admin/jobs''
          then (if is_fleet_query w (uu_Query u) then we_URLString w u (state_query w (uu_Query u)) else ''/admin/jobs'')
          else if uu_Path u = ''/admin/runs''
          then (if isl (runsQuery (uu_Query u) (we_now w 3)) then ''/admin/jobs''
                else we_URLString w u (encode w (keep_keys [''page'', ''status'', ''trigger_type'', ''window'', ''view''] (uu_Query u))))
          else ''/admin/jobs'')"

definition returnQuery :: "web_env \<Rightarrow> string \<Rightarrow> string" where
  "returnQuery w state = ''return='' @ we_QueryEscape w (safeReturn w state)"

definition jobURL :: "web_env \<Rightarrow> uuid \<Rightarrow> string \<Rightarrow> string" where
  "jobURL w i state = ''/admin/jobs/'' @ we_uuidString w i @ ''?'' @ returnQuery w state"

definition executionURL :: "web_env \<Rightarrow> uuid \<Rightarrow> string \<Rightarrow> string" where
  "executionURL w i state = ''/admin/executions/'' @ we_uuidString w i @ ''?'' @ returnQuery w state"

definition actionRedirect :: "web_env \<Rightarrow> uuid \<Rightarrow> string \<Rightarrow> string \<Rightarrow> string" where
  "actionRedirect w i notice state =
     (let path = ''/admin/jobs/'' @ we_uuidString w i @ ''?notice='' @ notice
      in if state \<noteq> '''' then path @ ''&'' @ returnQuery w state else path)"

definition deleteRedirect :: "web_env \<Rightarrow> string \<Rightarrow> string" where
  "deleteRedirect w state = (if state = '''' then ''/admin/jobs?notice=deleted'' else safeReturn w state)"

section \<open>Job forms\<close>

record jobFormValues =
  jv_Name :: string
  jv_CronExpression :: string
  jv_Timezone :: string
  jv_WebhookURL :: string
  jv_TimeoutSeconds :: string
  jv_Tags :: string

definition no_form :: jobFormValues where
  "no_form = \<lparr>jv_Name = '''', jv_CronExpression = '''', jv_Timezone = '''', jv_WebhookURL = '''', jv_TimeoutSeconds = '''', jv_Tags = ''''\<rparr>"

fun parse_tag_lines :: "unicode \<Rightarrow> int \<Rightarrow> string list \<Rightarrow> Tag list \<Rightarrow> string + Tag list" where
  "parse_tag_lines uc n [] tags = Inr tags"
| "parse_tag_lines uc n (line # rest) tags =
     (let line = TrimSpace uc line
      in if line = '''' then parse_tag_lines uc (n + 1) rest tags
         else (case Cut (CHR ''='') line of (key, v, ok) \<Rightarrow>
           (let key = TrimSpace uc key; v = TrimSpace uc v
            in if \<not> ok \<or> key = '''' \<or> v = '''' then Inl (''tag line '' @ Itoa (n + 1) @ '' must use key=value'')
               else if key \<in> tag_Key ` set tags then Inl (''duplicate tag key '' @ quoted key)
               else parse_tag_lines uc (n + 1) rest (tags @ [\<lparr>tag_Key = key, tag_Value = v\<rparr>]))))"

definition form_parseTags :: "unicode \<Rightarrow> string \<Rightarrow> string + Tag list" where
  "form_parseTags uc raw = parse_tag_lines uc 0 (split_on (CHR 0x0A) raw) []"

text \<open>
  The handlers have read a form value before they parse the form, so \<open>ParseForm\<close> has nothing left to do and no error. The result
  has the values to show again, and either a message or the timeout with the tags.
\<close>

definition parseCommonJobForm :: "unicode \<Rightarrow> web_request \<Rightarrow> jobFormValues \<times> (string + duration \<times> Tag list)" where
  "parseCommonJobForm uc r =
     (let v = \<lparr>jv_Name = TrimSpace uc (FormValue r ''name''), jv_CronExpression = TrimSpace uc (FormValue r ''cron_expression''),
            jv_Timezone = TrimSpace uc (FormValue r ''timezone''), jv_WebhookURL = TrimSpace uc (FormValue r ''webhook_url''),
            jv_TimeoutSeconds = TrimSpace uc (FormValue r ''timeout_seconds''), jv_Tags = FormValue r ''tags''\<rparr>
      in (v,
          if jv_Name v = '''' \<or> jv_CronExpression v = '''' \<or> jv_Timezone v = '''' \<or> jv_WebhookURL v = ''''
          then Inl ''name, cron expression, timezone, and webhook URL are required''
          else (case Atoi64 (jv_TimeoutSeconds v) of
              None \<Rightarrow> Inl ''timeout must be between 1 and 60 seconds''
            | Some seconds \<Rightarrow>
                if seconds < 1 \<or> seconds > 60 then Inl ''timeout must be between 1 and 60 seconds''
                else (case form_parseTags uc (jv_Tags v) of Inl er \<Rightarrow> Inl er | Inr tags \<Rightarrow> Inr (seconds * Second, tags)))))"

definition parseCreateJobForm :: "unicode \<Rightarrow> web_request \<Rightarrow> jobFormValues \<times> (string + CreateJobInput)" where
  "parseCreateJobForm uc r =
     (case parseCommonJobForm uc r of
        (v, Inl er) \<Rightarrow> (v, Inl er)
      | (v, Inr (timeout, tags)) \<Rightarrow>
          (v, Inr \<lparr>ci_Name = jv_Name v, ci_CronExpression = jv_CronExpression v, ci_Timezone = jv_Timezone v,
             ci_WebhookURL = jv_WebhookURL v, ci_Secret = FormValue r ''webhook_secret'', ci_Timeout = timeout, ci_Tags = tags\<rparr>))"

definition parseUpdateJobForm :: "unicode \<Rightarrow> web_request \<Rightarrow> jobFormValues \<times> (string + UpdateJobInput)" where
  "parseUpdateJobForm uc r =
     (case parseCommonJobForm uc r of
        (v, Inl er) \<Rightarrow> (v, Inl er)
      | (v, Inr (timeout, tags)) \<Rightarrow>
          (let secret = FormValue r ''webhook_secret''; clearSecret = (FormValue r ''clear_webhook_secret'' = ''true'')
           in if clearSecret \<and> secret \<noteq> '''' then (v, Inl ''choose either a new secret or clear secret'')
              else (v, Inr \<lparr>ui_Name = Some (jv_Name v), ui_CronExpression = Some (jv_CronExpression v), ui_Timezone = Some (jv_Timezone v),
                 ui_WebhookURL = Some (jv_WebhookURL v),
                 ui_Secret = (if clearSecret then Some '''' else if secret \<noteq> '''' then Some secret else None),
                 ui_Timeout = Some timeout, ui_Tags = Some tags\<rparr>)))"

definition edit_form :: "Job \<Rightarrow> Schedule \<Rightarrow> Tag list \<Rightarrow> jobFormValues" where
  "edit_form job sch tags = \<lparr>jv_Name = job_Name job, jv_CronExpression = sch_CronExpression sch, jv_Timezone = sch_Timezone sch,
     jv_WebhookURL = dc_WebhookURL (job_Delivery job), jv_TimeoutSeconds = Itoa (go_int (Seconds (dc_Timeout (job_Delivery job)))),
     jv_Tags = tagsText tags\<rparr>"

section \<open>The timeline and the next run\<close>

record timelineEntry =
  tl_Job :: Job
  tl_Schedule :: Schedule
  tl_Next :: time

record timeline =
  tm_Entries :: "timelineEntry list"
  tm_Limited :: bool
  tm_Invalid :: int
  tm_Until :: time

fun timeline_rows :: "(string \<Rightarrow> string \<Rightarrow> (time \<Rightarrow> time) result) \<Rightarrow> time \<Rightarrow> time \<Rightarrow> JobWithSchedule list
    \<Rightarrow> timelineEntry list \<Rightarrow> int \<Rightarrow> timelineEntry list \<times> int" where
  "timeline_rows parse now until [] out invalid = (out, invalid)"
| "timeline_rows parse now until ((job, sch) # rest) out invalid =
     (if \<not> job_Enabled job then timeline_rows parse now until rest out invalid
      else (case parse (sch_CronExpression sch) (sch_Timezone sch) of
          Inl _ \<Rightarrow> timeline_rows parse now until rest out (invalid + 1)
        | Inr sched \<Rightarrow>
            (let next = sched now
             in if IsZero next then timeline_rows parse now until rest out (invalid + 1)
                else if next > until then timeline_rows parse now until rest out invalid
                else timeline_rows parse now until rest (out @ [\<lparr>tl_Job = job, tl_Schedule = sch, tl_Next = next\<rparr>]) invalid)))"

definition timeline_order :: "web_env \<Rightarrow> timelineEntry \<Rightarrow> int \<times> nat list" where
  "timeline_order w t = (tl_Next t, map of_char (we_uuidString w (job_ID (tl_Job t))))"

definition fillTimeline :: "web_env \<Rightarrow> JobWithSchedule list \<Rightarrow> timeline" where
  "fillTimeline w jobs =
     (let now = we_now w 2; until = now + 24 * Hour; limited = length jobs > 500;
          (entries, invalid) = timeline_rows (sv_parse (we_session w)) now until (take 500 jobs) [] 0;
          entries = sort_key (timeline_order w) entries
      in \<lparr>tm_Entries = take 50 entries, tm_Limited = (limited \<or> length entries > 50), tm_Invalid = invalid, tm_Until = until\<rparr>)"

text \<open>\<open>Duration.Minutes\<close> and \<open>Hours\<close>.\<close>

definition Minutes :: "duration \<Rightarrow> rat" where
  "Minutes d = f64 (f64 (of_int (go_div d Minute)) + f64 (f64 (of_int (go_mod d Minute)) / (60 * 10 ^ 9)))"

definition Hours :: "duration \<Rightarrow> rat" where
  "Hours d = f64 (f64 (of_int (go_div d Hour)) + f64 (f64 (of_int (go_mod d Hour)) / (60 * 60 * 10 ^ 9)))"

definition en_dash_utf8 :: string where
  "en_dash_utf8 = [CHR 0xE2, CHR 0x80, CHR 0x93]"

definition em_dash :: string where
  "em_dash = [CHR 0xE2, CHR 0x80, CHR 0x94]"

definition nextRun :: "web_env \<Rightarrow> JobWithSchedule \<Rightarrow> string \<times> string" where
  "nextRun w row = (case row of (job, sch) \<Rightarrow>
     if \<not> job_Enabled job then (''Paused'', '''')
     else (case sv_parse (we_session w) (sch_CronExpression sch) (sch_Timezone sch) of
         Inl _ \<Rightarrow> (em_dash, '''')
       | Inr sched \<Rightarrow>
           (let current = we_now w 2; next = sched current; d = next - current; exact = we_format w ''2006-01-02 15:04:05 UTC'' next
            in if IsZero next then (em_dash, '''')
               else if d < Minute then (''in under a minute'', exact)
               else if d < Hour then (''in '' @ Itoa (go_int (Minutes d)) @ '' min'', exact)
               else if d < 48 * Hour then (''in '' @ Itoa (go_int (Hours d)) @ '' h'', exact)
               else (we_format w ''Jan 2 15:04 UTC'' next, exact))))"

section \<open>Editing a job changes nothing it does not say\<close>

text \<open>
  A browser sends the lines of a text area with a carriage return and a line feed between them. The spaces at the ends of a string include the carriage return.
\<close>

definition submitted :: "string \<Rightarrow> string" where
  "submitted s = concat (map (\<lambda>c. if c = CHR 0x0A then [CHR 0x0D, CHR 0x0A] else [c]) s)"

definition trims_return :: "unicode \<Rightarrow> bool" where
  "trims_return uc \<longleftrightarrow> (\<forall>s. uc_trim uc (s @ [CHR 0x0D]) = uc_trim uc s)"

definition trimmed :: "unicode \<Rightarrow> string \<Rightarrow> bool" where
  "trimmed uc s \<longleftrightarrow> s \<noteq> [] \<and> TrimSpace uc s = s"

definition tag_line :: "Tag \<Rightarrow> string" where
  "tag_line t = tag_Key t @ ''='' @ tag_Value t"

definition plain_tag :: "unicode \<Rightarrow> Tag \<Rightarrow> bool" where
  "plain_tag uc t \<longleftrightarrow> trimmed uc (tag_Key t) \<and> trimmed uc (tag_Value t) \<and> trimmed uc (tag_line t) \<and> CHR 0x0A \<notin> set (tag_line t)
     \<and> CHR ''='' \<notin> set (tag_Key t)"

lemma is_space_return [simp]: "is_space (CHR 0x0D)"
  by (simp add: is_space_def is_re_space_def)

lemma trim_ascii_return: "trim_ascii (s @ [CHR 0x0D]) = trim_ascii s"
  by (cases "\<forall>c \<in> set s. is_space c") (auto simp: trim_ascii_def dropWhile_append dest: set_dropWhileD)

lemma TrimSpace_return: "trims_return uc \<Longrightarrow> TrimSpace uc (s @ [CHR 0x0D]) = TrimSpace uc s"
  by (simp add: TrimSpace_def trim_ascii_return trims_return_def is_ascii_def)

lemma submitted_simps: "submitted [] = []" "submitted (s @ t) = submitted s @ submitted t" "submitted (CHR 0x0A # s) = CHR 0x0D # CHR 0x0A # submitted s"
  "CHR 0x0A \<notin> set s \<Longrightarrow> submitted s = s"
  by (simp_all add: submitted_def) (induction s, auto)

lemma tagsText_simps:
  "tagsText [] = []" "tagsText [t] = tag_line t" "tagsText (t # u # ts) = tag_line t @ [CHR 0x0A] @ tagsText (u # ts)"
  by (simp_all add: tagsText_def tag_line_def)

lemma parse_plain_line:
  assumes "plain_tag uc t" "TrimSpace uc line = tag_line t" "tag_Key t \<notin> tag_Key ` set acc"
  shows "parse_tag_lines uc n (line # rest) acc = parse_tag_lines uc (n + 1) rest (acc @ [t])"
proof -
  have "Cut (CHR ''='') (tag_line t) = (tag_Key t, tag_Value t, True)"
    using assms(1) Cut_append [of "CHR ''=''" "tag_Key t" "tag_Value t"] by (simp add: tag_line_def plain_tag_def)
  moreover have "tag_line t \<noteq> []" by (simp add: tag_line_def)
  ultimately show ?thesis using assms by (cases t) (simp add: plain_tag_def trimmed_def Let_def)
qed

lemma parse_submitted:
  assumes "trims_return uc" "\<forall>t \<in> set tags. plain_tag uc t" "distinct (map tag_Key (acc @ tags))"
  shows "parse_tag_lines uc n (split_on (CHR 0x0A) (submitted (tagsText tags))) acc = Inr (acc @ tags)"
  using assms(2,3)
proof (induction tags arbitrary: n acc rule: induct_list012)
  case 1
  then show ?case by (simp add: tagsText_simps submitted_simps TrimSpace_def trim_ascii_def)
next
  case (2 t)
  then have "CHR 0x0A \<notin> set (tag_line t)" "TrimSpace uc (tag_line t) = tag_line t" by (simp_all add: plain_tag_def trimmed_def)
  then show ?case using 2 by (simp del: parse_tag_lines.simps(2) add: tagsText_simps submitted_simps split_on_none parse_plain_line)
next
  case (3 t u ts)
  let ?rest = "submitted (tagsText (u # ts))"
  have t: "plain_tag uc t" "tag_Key t \<notin> tag_Key ` set acc" using 3(3,4) by auto
  then have nl: "CHR 0x0A \<notin> set (tag_line t @ [CHR 0x0D])" and tr: "TrimSpace uc (tag_line t @ [CHR 0x0D]) = tag_line t"
    by (simp_all add: plain_tag_def trimmed_def TrimSpace_return [OF assms(1)])
  have "submitted (tagsText (t # u # ts)) = (tag_line t @ [CHR 0x0D]) @ CHR 0x0A # ?rest"
    using nl by (simp add: tagsText_simps submitted_simps)
  then have "split_on (CHR 0x0A) (submitted (tagsText (t # u # ts))) = (tag_line t @ [CHR 0x0D]) # split_on (CHR 0x0A) ?rest"
    using split_on_append [OF nl, of ?rest] by metis
  then show ?case using parse_plain_line [OF t(1) tr t(2)] "3.IH"(2) [of "acc @ [t]"] 3(3,4) by simp
qed

lemma tags_roundtrip:
  assumes "trims_return uc" "\<forall>t \<in> set tags. plain_tag uc t" "distinct (map tag_Key tags)"
  shows "form_parseTags uc (submitted (tagsText tags)) = Inr tags"
  using parse_submitted [OF assms(1,2), of "[]"] assms(3) by (simp add: form_parseTags_def)

lemma decimal_trimmed: "TrimSpace uc (decimal n) = decimal n"
proof -
  have d: "is_digit c \<Longrightarrow> is_ascii c \<and> \<not> is_space c" for c
    by (auto simp: is_digit_def in_range_def is_ascii_def is_space_def is_re_space_def)
  then have "isASCII (decimal n)" using decimal_digits by (auto simp: isASCII_def)
  moreover have "\<not> is_space (hd (decimal n))" "\<not> is_space (last (decimal n))" by (simp_all add: d decimal_digits [of _ n])
  then have "trim_ascii (decimal n) = decimal n" by (simp add: trim_ascii_id)
  ultimately show ?thesis by (simp add: TrimSpace_def)
qed

lemma Atoi64_Itoa:
  assumes "0 \<le> i" "i < 2 ^ 63"
  shows "Atoi64 (Itoa i) = Some i"
proof -
  have d: "is_digit (hd (decimal (nat i)))" using decimal_digits hd_in_set by (metis decimal_not_Nil)
  then have "hd (decimal (nat i)) \<notin> {CHR ''-'', CHR ''+''}" by (auto simp: is_digit_def in_range_def)
  then show ?thesis using assms by (auto simp: Atoi64_def Itoa_def Let_def list_all_iff dest: decimal_digits)
qed

lemma Seconds_whole:
  assumes "0 \<le> n" "n < 2 ^ 53"
  shows "go_int (Seconds (n * Second)) = n"
proof -
  have "go_div (n * Second) Second = n" using assms(1) by (simp add: go_div_def abs_mult sgn_if)
  then have "Seconds (n * Second) = of_int n" using assms f64_int [of n] f64_int [of 0] by (simp add: Seconds_def go_mod_def)
  then show ?thesis by (simp add: go_int_def)
qed

text \<open>
  C36: The edit page of a job fills its form so that sending it back unchanged asks for exactly the job there is: the same name, schedule,
  timezone, destination, timeout and tags, in the same order, and no change of the secret. This holds for values the form can show: trimmed texts,
  a timeout of whole seconds up to a minute, and tags with distinct keys that fit a line each; the lines arrive with the browser's line ends.
\<close>

theorem edit_form_roundtrip:
  assumes "trims_return uc" "\<forall>t \<in> set tags. plain_tag uc t" "distinct (map tag_Key tags)"
    and "trimmed uc (job_Name job)" "trimmed uc (sch_CronExpression sch)" "trimmed uc (sch_Timezone sch)" "trimmed uc (dc_WebhookURL (job_Delivery job))"
    and "dc_Timeout (job_Delivery job) = n * Second" "1 \<le> n" "n \<le> 60"
    and "v = edit_form job sch tags"
    and "FormValue r ''name'' = jv_Name v" "FormValue r ''cron_expression'' = jv_CronExpression v" "FormValue r ''timezone'' = jv_Timezone v"
      "FormValue r ''webhook_url'' = jv_WebhookURL v" "FormValue r ''timeout_seconds'' = jv_TimeoutSeconds v"
      "FormValue r ''tags'' = submitted (jv_Tags v)" "FormValue r ''webhook_secret'' = ''''" "FormValue r ''clear_webhook_secret'' = ''''"
  shows "snd (parseUpdateJobForm uc r) = Inr \<lparr>ui_Name = Some (job_Name job), ui_CronExpression = Some (sch_CronExpression sch),
     ui_Timezone = Some (sch_Timezone sch), ui_WebhookURL = Some (dc_WebhookURL (job_Delivery job)), ui_Secret = None,
     ui_Timeout = Some (dc_Timeout (job_Delivery job)), ui_Tags = Some tags\<rparr>"
proof -
  have n: "go_int (Seconds (n * Second)) = n" "Atoi64 (Itoa n) = Some n" using assms(9,10) by (simp_all add: Seconds_whole Atoi64_Itoa)
  have t: "TrimSpace uc (Itoa n) = Itoa n" using assms(9) by (simp add: Itoa_def decimal_trimmed)
  have "snd (parseCommonJobForm uc r) = Inr (n * Second, tags)" "fst (parseCommonJobForm uc r) = v\<lparr>jv_Tags := submitted (tagsText tags)\<rparr>"
    using assms(4-19) tags_roundtrip [OF assms(1-3)] n t by (simp_all add: parseCommonJobForm_def Let_def edit_form_def trimmed_def)
  then have "parseCommonJobForm uc r = (v\<lparr>jv_Tags := submitted (tagsText tags)\<rparr>, Inr (n * Second, tags))" by (metis prod.collapse)
  then show ?thesis using assms(8,11,18,19) by (simp add: parseUpdateJobForm_def Let_def edit_form_def)
qed


definition sample_edit :: web_request where
  "sample_edit = sample_visit\<lparr>wr_Form := [(''name'', [''nightly'']), (''cron_expression'', [''* * * * *'']), (''timezone'', [''UTC'']),
     (''webhook_url'', [''https://example.com'']), (''timeout_seconds'', [''30'']),
     (''tags'', [''env=prod'' @ [CHR 0x0D, CHR 0x0A] @ ''team=a=b''])]\<rparr>"

definition sample_tags :: "Tag list" where
  "sample_tags = [\<lparr>tag_Key = ''env'', tag_Value = ''prod''\<rparr>, \<lparr>tag_Key = ''team'', tag_Value = ''a=b''\<rparr>]"

theorem edit_form_roundtrip_witness:
  "snd (parseUpdateJobForm plain_unicode sample_edit) = Inr \<lparr>ui_Name = Some ''nightly'', ui_CronExpression = Some ''* * * * *'',
     ui_Timezone = Some ''UTC'', ui_WebhookURL = Some ''https://example.com'', ui_Secret = None, ui_Timeout = Some (30 * Second),
     ui_Tags = Some sample_tags\<rparr>"
proof -
  have s: "Itoa (go_int (Seconds (30 * Second))) = ''30''" by code_simp
  have u: "trims_return plain_unicode" by (simp add: trims_return_def plain_unicode_def trim_ascii_return)
  have t: "\<forall>t \<in> set sample_tags. plain_tag plain_unicode t" "distinct (map tag_Key sample_tags)" by code_simp+
  have j: "trimmed plain_unicode (job_Name sample_job)" "trimmed plain_unicode (sch_CronExpression sample_schedule)"
    "trimmed plain_unicode (sch_Timezone sample_schedule)" "trimmed plain_unicode (dc_WebhookURL (job_Delivery sample_job))" by code_simp+
  have x: "FormValue sample_edit ''tags'' = submitted (tagsText sample_tags)" by code_simp
  from edit_form_roundtrip [OF u t j _ _ _ refl, of 30 sample_edit] s x
  show ?thesis by (simp add: edit_form_def sample_edit_def sample_job_def sample_schedule_def FormValue_def form_get_def)
qed

section \<open>Page links\<close>

lemma page_numbers_sorted: "sorted_wrt (<) (page_numbers pages previous ns) \<and> (\<forall>n \<in> set (page_numbers pages previous ns). previous < n)"
  by (induction ns arbitrary: previous) (auto intro: less_trans)

lemma page_numbers_set:
  assumes "sorted (filter (\<lambda>n. 1 \<le> n \<and> n \<le> pages) ns)"
  shows "set (page_numbers pages previous ns) = {n \<in> set ns. 1 \<le> n \<and> n \<le> pages \<and> previous < n}"
  using assms
proof (induction ns arbitrary: previous)
  case (Cons n ns)
  then show ?case by (auto split: if_splits)
qed simp

text \<open>
  The page links of the job list show, in increasing order and once each, the first page, the last page, and the pages at most two
  away from the current one, as far as these pages exist. There are enough pages for all matched jobs, 25 to a page, and no page too many.
\<close>

theorem page_links_exact:
  assumes "0 \<le> matched" "1 \<le> page" "fleetPageLinks w r page matched = (pages, links)"
  shows "sorted_wrt (<) (map pl_Number links)
    \<and> set (map pl_Number links) = {n. 1 \<le> n \<and> n \<le> pages \<and> (n = 1 \<or> n = pages \<or> \<bar>n - page\<bar> \<le> 2)}
    \<and> matched \<le> 25 * pages \<and> (pages = 1 \<or> 25 * (pages - 1) < matched)"
proof (intro conjI)
  let ?ns = "[1, page - 2, page - 1, page, page + 1, page + 2, pages]"
  have p: "pages = max 1 ((matched + 24) div 25)" and n: "map pl_Number links = page_numbers pages 0 ?ns"
    using assms(1,3) by (auto simp: fleetPageLinks_def Let_def go_div_def sgn_if comp_def simp del: page_numbers.simps)
  show "sorted_wrt (<) (map pl_Number links)" using page_numbers_sorted n by simp
  have "sorted (filter P [page - 2, page - 1, page, page + 1, page + 2])" for P by (rule sorted_wrt_filter) simp
  then have "sorted (filter (\<lambda>n. 1 \<le> n \<and> n \<le> pages) ([1] @ [page - 2, page - 1, page, page + 1, page + 2] @ [pages]))"
    unfolding filter_append sorted_append by auto
  from page_numbers_set [OF this, of 0] have "set (map pl_Number links) = {n \<in> set ?ns. 1 \<le> n \<and> n \<le> pages \<and> 0 < n}" unfolding n by (simp only: append_Cons append_Nil)
  also have "\<dots> = {n. 1 \<le> n \<and> n \<le> pages \<and> (n = 1 \<or> n = pages \<or> \<bar>n - page\<bar> \<le> 2)}" by (auto simp: abs_le_iff)
  finally show "set (map pl_Number links) = {n. 1 \<le> n \<and> n \<le> pages \<and> (n = 1 \<or> n = pages \<or> \<bar>n - page\<bar> \<le> 2)}" .
  show "matched \<le> 25 * pages" "pages = 1 \<or> 25 * (pages - 1) < matched" unfolding p using assms(1) by (simp_all add: max_def) linarith+
qed

section \<open>The timeline\<close>

lemma timeline_rows_set:
  "fst (timeline_rows parse now until rows out invalid) = out @ [\<lparr>tl_Job = job, tl_Schedule = sch, tl_Next = next now\<rparr>. (job, sch) \<leftarrow> rows, job_Enabled job,
     next \<leftarrow> (case parse (sch_CronExpression sch) (sch_Timezone sch) of Inl _ \<Rightarrow> [] | Inr sched \<Rightarrow> [sched]), \<not> IsZero (next now), next now \<le> until]"
  by (induction rows arbitrary: out invalid) (auto simp: Let_def split: sum.split)


definition upcoming :: "web_env \<Rightarrow> JobWithSchedule list \<Rightarrow> timelineEntry set" where
  "upcoming w rows = {e. (tl_Job e, tl_Schedule e) \<in> set rows \<and> job_Enabled (tl_Job e)
     \<and> (case sv_parse (we_session w) (sch_CronExpression (tl_Schedule e)) (sch_Timezone (tl_Schedule e)) of
         Inl _ \<Rightarrow> False
       | Inr sched \<Rightarrow> tl_Next e = sched (we_now w 2) \<and> \<not> IsZero (tl_Next e) \<and> tl_Next e \<le> we_now w 2 + 24 * Hour)}"

lemma timeline_rows_upcoming:
  "set (fst (timeline_rows (sv_parse (we_session w)) (we_now w 2) (we_now w 2 + 24 * Hour) rows [] invalid)) = upcoming w rows"
proof (intro equalityI subsetI)
  fix e assume "e \<in> upcoming w rows"
  then show "e \<in> set (fst (timeline_rows (sv_parse (we_session w)) (we_now w 2) (we_now w 2 + 24 * Hour) rows [] invalid))"
    by (cases e) (force simp: timeline_rows_set upcoming_def split: sum.splits)
qed (auto simp: timeline_rows_set upcoming_def split: sum.splits if_splits)

text \<open>
  The timeline shows what runs within the next day: at most fifty entries in the order of their times, each the next run of an enabled
  job; of the first 500 jobs, a run it leaves out is no earlier than all it shows; and when it does not say that it is limited, it leaves out nothing.
\<close>

theorem timeline_exact:
  fixes w jobs defines "t \<equiv> fillTimeline w jobs"
  shows "sorted (map tl_Next (tm_Entries t)) \<and> length (tm_Entries t) \<le> 50 \<and> set (tm_Entries t) \<subseteq> upcoming w (take 500 jobs)
    \<and> (\<forall>e \<in> upcoming w (take 500 jobs) - set (tm_Entries t). \<forall>f \<in> set (tm_Entries t). tl_Next f \<le> tl_Next e)
    \<and> (\<not> tm_Limited t \<longrightarrow> set (tm_Entries t) = upcoming w jobs)"
proof -
  define es where "es = sort_key (timeline_order w) (fst (timeline_rows (sv_parse (we_session w)) (we_now w 2) (we_now w 2 + 24 * Hour) (take 500 jobs) [] 0))"
  have e: "tm_Entries t = take 50 es" and l: "tm_Limited t \<longleftrightarrow> length jobs > 500 \<or> length es > 50"
    unfolding t_def es_def fillTimeline_def Let_def by (simp_all add: case_prod_unfold)
  have s: "set es = upcoming w (take 500 jobs)" unfolding es_def set_sort timeline_rows_upcoming ..
  have "sorted (map (timeline_order w) es)" by (simp add: es_def)
  then have so: "sorted (map tl_Next es)"
    by (simp add: sorted_map timeline_order_def less_eq_prod_def) (metis (mono_tags, lifting) less_imp_le order_refl sorted_wrt_mono_rel)
  then have "sorted (map tl_Next (take 50 es) @ map tl_Next (drop 50 es))" by (simp flip: map_append)
  then have "sorted (map tl_Next (take 50 es))" "\<forall>f \<in> set (take 50 es). \<forall>e \<in> set (drop 50 es). tl_Next f \<le> tl_Next e"
    by (auto simp: sorted_append)
  moreover have "set es - set (take 50 es) \<subseteq> set (drop 50 es)" by (metis append_take_drop_id set_append Diff_subset_conv order_refl)
  moreover have "set (take 50 es) \<subseteq> set es" by (rule set_take_subset)
  ultimately show ?thesis unfolding e l s [symmetric] using s by auto
qed

end
