(* ===== verification/RateLimit.thy ===== *)
theory RateLimit
  imports Float64 "HOL-Library.AList"
begin

text \<open>
  The token buckets of \<^verbatim>\<open>internal/api/middleware.go\<close>: the limiter per client address and the one per
  namespace. A Go map is an association list with distinct keys. The clock is an argument; it does
  not go backwards (Go compares monotonic readings). The two limiters differ in their bound on the
  number of buckets and in when they first clean up; what a key may take in a window of time is
  proved once, for any limiter that treats the buckets as both do.
\<close>

section \<open>Buckets\<close>

record clientBucket =
  bk_tokens :: rat
  bk_lastSeen :: time

definition ipRateLimiterClientTTL :: duration where
  "ipRateLimiterClientTTL = 10 * Minute"

definition ipRateLimiterCleanupInterval :: duration where
  "ipRateLimiterCleanupInterval = Minute"

definition ipRateLimiterMaxClients :: int where
  "ipRateLimiterMaxClients = 10000"

definition new_bucket :: "int \<Rightarrow> time \<Rightarrow> clientBucket" where
  "new_bucket rate now = \<lparr>bk_tokens = f64 (of_int (rate - 1)), bk_lastSeen = now\<rparr>"

definition refill :: "int \<Rightarrow> time \<Rightarrow> clientBucket \<Rightarrow> rat" where
  "refill rate now b =
     (let elapsed = Seconds (now - bk_lastSeen b);
          tokens = f64 (bk_tokens b + f64 (elapsed * f64 (of_int rate)))
      in if tokens > f64 (of_int rate) then f64 (of_int rate) else tokens)"

definition take_token :: "int \<Rightarrow> time \<Rightarrow> clientBucket \<Rightarrow> bool \<times> clientBucket" where
  "take_token rate now b =
     (let tokens = refill rate now b
      in if tokens < 1 then (False, \<lparr>bk_tokens = tokens, bk_lastSeen = now\<rparr>)
         else (True, \<lparr>bk_tokens = f64 (tokens - 1), bk_lastSeen = now\<rparr>))"

definition drop_idle :: "duration \<Rightarrow> time \<Rightarrow> (string \<times> clientBucket) list \<Rightarrow> (string \<times> clientBucket) list" where
  "drop_idle ttl now = filter (\<lambda>(k, b). \<not> now - bk_lastSeen b \<ge> ttl)"

section \<open>The limiter per address\<close>

record ipRateLimiter =
  rl_rate :: int
  rl_clients :: "(string \<times> clientBucket) list"
  rl_clientTTL :: duration
  rl_cleanupInterval :: duration
  rl_nextCleanup :: time
  rl_maxClients :: int

definition newIPRateLimiter :: "int \<Rightarrow> time \<Rightarrow> ipRateLimiter" where
  "newIPRateLimiter ratePerSecond now =
     \<lparr>rl_rate = ratePerSecond, rl_clients = [], rl_clientTTL = ipRateLimiterClientTTL,
      rl_cleanupInterval = ipRateLimiterCleanupInterval,
      rl_nextCleanup = now + ipRateLimiterCleanupInterval, rl_maxClients = ipRateLimiterMaxClients\<rparr>"

definition pruneStale :: "time \<Rightarrow> ipRateLimiter \<Rightarrow> ipRateLimiter" where
  "pruneStale now l = l\<lparr>rl_clients := drop_idle (rl_clientTTL l) now (rl_clients l)\<rparr>"

definition ip_allow :: "string \<times> time \<Rightarrow> ipRateLimiter \<Rightarrow> bool \<times> ipRateLimiter" where
  "ip_allow req l =
     (let (ip, now) = req;
          l = (if \<not> now < rl_nextCleanup l then (pruneStale now l)\<lparr>rl_nextCleanup := now + rl_cleanupInterval l\<rparr> else l)
      in case map_of (rl_clients l) ip of
           None \<Rightarrow> if int (length (rl_clients l)) \<ge> rl_maxClients l then (False, l)
             else (True, l\<lparr>rl_clients := AList.update ip (new_bucket (rl_rate l) now) (rl_clients l)\<rparr>)
         | Some b \<Rightarrow> (case take_token (rl_rate l) now b of
             (ok, b) \<Rightarrow> (ok, l\<lparr>rl_clients := AList.update ip b (rl_clients l)\<rparr>)))"

section \<open>The limiter per namespace\<close>

record namespaceRateLimiter =
  nl_rate :: int
  nl_namespaces :: "(string \<times> clientBucket) list"
  nl_nextCleanup :: time

definition newNamespaceRateLimiter :: "int \<Rightarrow> namespaceRateLimiter" where
  "newNamespaceRateLimiter ratePerSecond = \<lparr>nl_rate = ratePerSecond, nl_namespaces = [], nl_nextCleanup = 0\<rparr>"

definition ns_allow :: "string \<times> time \<Rightarrow> namespaceRateLimiter \<Rightarrow> bool \<times> namespaceRateLimiter" where
  "ns_allow req l =
     (let (ns, now) = req;
          l = (if \<not> now < nl_nextCleanup l
               then l\<lparr>nl_namespaces := drop_idle ipRateLimiterClientTTL now (nl_namespaces l),
                      nl_nextCleanup := now + ipRateLimiterCleanupInterval\<rparr>
               else l)
      in case map_of (nl_namespaces l) ns of
           None \<Rightarrow> (True, l\<lparr>nl_namespaces := AList.update ns (new_bucket (nl_rate l) now) (nl_namespaces l)\<rparr>)
         | Some b \<Rightarrow> (case take_token (nl_rate l) now b of
             (ok, b) \<Rightarrow> (ok, l\<lparr>nl_namespaces := AList.update ns b (nl_namespaces l)\<rparr>)))"

section \<open>One bucket\<close>

text \<open>What a nanosecond is worth in tokens, with the error of the four roundings of a refill.\<close>

definition token_rate :: "int \<Rightarrow> rat" where
  "token_rate rate = (1 + eps) ^ 4 * of_int rate / 10 ^ 9"

definition bucket_ok :: "int \<Rightarrow> clientBucket \<Rightarrow> bool" where
  "bucket_ok rate b \<longleftrightarrow> 0 \<le> bk_tokens b \<and> bk_tokens b \<le> of_int rate"

lemma token_rate_nonneg: "0 < rate \<Longrightarrow> 0 \<le> token_rate rate"
  by (simp add: token_rate_def)

lemma refill_bounds:
  assumes rate: "0 < rate" "rate < 2 ^ 53" and b: "bucket_ok rate b" "bk_lastSeen b \<le> now"
  shows "0 \<le> refill rate now b" "refill rate now b \<le> of_int rate"
    "refill rate now b \<le> bk_tokens b + token_rate rate * of_int (now - bk_lastSeen b) + eps * of_int rate"
proof -
  let ?d = "now - bk_lastSeen b" and ?R = "of_int rate :: rat"
  let ?p = "f64 (Seconds ?d * ?R)"
  have R: "f64 ?R = ?R" using rate by (intro f64_int) simp
  have s0: "0 \<le> Seconds ?d * ?R" using b(2) rate by (intro mult_nonneg_nonneg Seconds_nonneg) auto
  have p0: "0 \<le> ?p" by (rule f64_nonneg [OF s0])
  have t0: "0 \<le> bk_tokens b + ?p" using p0 b(1) by (simp add: bucket_ok_def)
  have def: "refill rate now b = min (f64 (bk_tokens b + ?p)) ?R"
    by (simp add: refill_def R Let_def min_def)
  show "0 \<le> refill rate now b" unfolding def using f64_nonneg [OF t0] rate by simp
  show "refill rate now b \<le> of_int rate" unfolding def by simp
  have "?p \<le> (1 + eps) * (Seconds ?d * ?R)" by (rule f64_le [OF s0])
  also have "\<dots> \<le> (1 + eps) * ((1 + eps)\<^sup>2 * (of_int ?d / 10 ^ 9) * ?R)"
    using Seconds_le [of ?d] b(2) rate by (intro mult_left_mono mult_right_mono) auto
  finally have "(1 + eps) * ?p \<le> (1 + eps) * ((1 + eps) * ((1 + eps)\<^sup>2 * (of_int ?d / 10 ^ 9) * ?R))"
    by (intro mult_left_mono) auto
  also have "\<dots> = token_rate rate * of_int ?d"
    by (simp only: token_rate_def power4_eq_xxxx power2_eq_square times_divide_eq_left times_divide_eq_right mult.assoc mult.commute mult.left_commute)
  finally have p: "(1 + eps) * ?p \<le> token_rate rate * of_int ?d" .
  have "f64 (bk_tokens b + ?p) \<le> (1 + eps) * (bk_tokens b + ?p)" by (rule f64_le [OF t0])
  also have "\<dots> = bk_tokens b + eps * bk_tokens b + (1 + eps) * ?p" by (simp only: distrib_left distrib_right mult_1_left)
  also have "\<dots> \<le> bk_tokens b + eps * ?R + token_rate rate * of_int ?d"
    using p b(1) by (intro add_mono mult_left_mono) (auto simp: bucket_ok_def)
  finally show "refill rate now b \<le> bk_tokens b + token_rate rate * of_int ?d + eps * ?R"
    unfolding def by (simp add: min_le_iff_disj add.commute add.left_commute)
qed

lemma take_token_bounds:
  assumes rate: "0 < rate" "rate < 2 ^ 53" and b: "bucket_ok rate b" "bk_lastSeen b \<le> now"
    and take: "take_token rate now b = (ok, b')"
  shows "bucket_ok rate b'" "bk_lastSeen b' = now"
    "of_bool ok + bk_tokens b'
      \<le> min (of_int rate) (bk_tokens b + token_rate rate * of_int (now - bk_lastSeen b)) + 2 * eps * of_int rate"
proof -
  let ?y = "refill rate now b" and ?R = "of_int rate :: rat"
  note y = refill_bounds [OF rate b]
  have R1: "1 \<le> ?R" using rate by simp
  have low: "f64 (?y - 1) \<le> ?y - 1 + eps * ?R" if "\<not> ?y < 1"
  proof -
    have "f64 (?y - 1) \<le> (1 + eps) * (?y - 1)" using that by (intro f64_le) simp
    also have "\<dots> = (?y - 1) + eps * (?y - 1)" by (simp only: distrib_right mult_1_left)
    also have "\<dots> \<le> (?y - 1) + eps * ?R" using y(2) by (intro add_left_mono mult_left_mono) auto
    finally show ?thesis .
  qed
  have e0: "0 \<le> eps * ?R" using rate by simp
  have small: "?y - 1 + eps * ?R \<le> ?R"
  proof -
    have "eps * ?R \<le> 1" using rate(2) by simp
    then show ?thesis using y(2) by linarith
  qed
  show "bk_lastSeen b' = now" using take by (auto simp: take_token_def Let_def split: if_splits)
  show "bucket_ok rate b'"
    using take y(1,2) low small f64_nonneg [of "?y - 1"]
    by (auto simp: take_token_def bucket_ok_def Let_def split: if_splits)
  have "of_bool ok + bk_tokens b' \<le> ?y + eps * ?R"
    using take low e0 by (auto simp: take_token_def Let_def split: if_splits)
  also have "?y \<le> min ?R (bk_tokens b + token_rate rate * of_int (now - bk_lastSeen b)) + eps * ?R"
    using y(2,3) e0 by (simp only: min_def) (auto split: if_split)
  finally show "of_bool ok + bk_tokens b'
      \<le> min ?R (bk_tokens b + token_rate rate * of_int (now - bk_lastSeen b)) + 2 * eps * ?R"
    by simp
qed

section \<open>Limiters\<close>

text \<open>
  What a call does to the buckets, whichever limiter it is a call of: buckets that have been idle
  may be dropped, then the key takes a token from its bucket, gets a new bucket, or is refused one.
\<close>

definition pruned :: "time \<Rightarrow> (string \<rightharpoonup> clientBucket) \<Rightarrow> (string \<rightharpoonup> clientBucket) \<Rightarrow> bool" where
  "pruned now m m' \<longleftrightarrow> (\<forall>k. m' k = m k \<or> m' k = None \<and> (\<exists>b. m k = Some b \<and> Second \<le> now - bk_lastSeen b))"

definition visited :: "int \<Rightarrow> string \<Rightarrow> time \<Rightarrow> (string \<rightharpoonup> clientBucket) \<Rightarrow> bool \<Rightarrow> (string \<rightharpoonup> clientBucket) \<Rightarrow> bool" where
  "visited rate k now m ok m' \<longleftrightarrow> (case m k of
       None \<Rightarrow> if ok then m' = m(k \<mapsto> new_bucket rate now) else m' = m
     | Some b \<Rightarrow> \<exists>b'. take_token rate now b = (ok, b') \<and> m' = m(k \<mapsto> b'))"

text \<open>The requests of a key that a limiter lets through, of a list of requests with their times.\<close>

fun allowed :: "(string \<times> time \<Rightarrow> 'l \<Rightarrow> bool \<times> 'l) \<Rightarrow> string \<Rightarrow> (string \<times> time) list \<Rightarrow> 'l \<Rightarrow> nat" where
  "allowed allow k [] l = 0"
| "allowed allow k (r # rs) l = (case allow r l of (ok, l') \<Rightarrow> of_bool (ok \<and> fst r = k) + allowed allow k rs l')"

definition after :: "(string \<times> time \<Rightarrow> 'l \<Rightarrow> bool \<times> 'l) \<Rightarrow> (string \<times> time) list \<Rightarrow> 'l \<Rightarrow> 'l" where
  "after allow rs = fold (\<lambda>r l. snd (allow r l)) rs"

definition credit :: "int \<Rightarrow> time \<Rightarrow> clientBucket option \<Rightarrow> rat" where
  "credit rate t ob = (case ob of None \<Rightarrow> of_int rate
     | Some b \<Rightarrow> min (of_int rate) (bk_tokens b + token_rate rate * of_int (t - bk_lastSeen b)))"

definition buckets_ok :: "int \<Rightarrow> time \<Rightarrow> (string \<rightharpoonup> clientBucket) \<Rightarrow> bool" where
  "buckets_ok rate t m \<longleftrightarrow> (\<forall>k b. m k = Some b \<longrightarrow> bucket_ok rate b \<and> bk_lastSeen b \<le> t)"

lemma credit_le: "credit rate t ob \<le> of_int rate"
  by (simp add: credit_def split: option.split)

lemma credit_later:
  assumes "0 < rate" "t \<le> t'"
  shows "credit rate t' ob \<le> credit rate t ob + token_rate rate * of_int (t' - t)"
proof -
  let ?d = "token_rate rate * of_int (t' - t)"
  have d: "0 \<le> ?d"
    using assms by (intro mult_nonneg_nonneg token_rate_nonneg) auto
  have sum: "token_rate rate * of_int (t' - s) = token_rate rate * of_int (t - s) + token_rate rate * of_int (t' - t)" for s
    by (simp add: right_diff_distrib)
  have shift: "min R (x + (y + ?d)) \<le> min R (x + y) + ?d" for R x y :: rat using d by linarith
  show ?thesis
  proof (cases ob)
    case (Some b)
    show ?thesis unfolding Some credit_def option.case
      by (subst sum) (rule shift)
  qed (use d in \<open>simp only: credit_def option.case le_add_same_cancel1\<close>)
qed

lemma credit_pruned:
  assumes rate: "0 < rate" and "pruned now m m'" "buckets_ok rate now m"
  shows "credit rate now (m' k) = credit rate now (m k)"
proof (cases "m' k = m k")
  case False
  with assms(2) obtain b where b: "m' k = None" "m k = Some b" "Second \<le> now - bk_lastSeen b"
    by (metis pruned_def)
  have "of_int rate \<le> (1 + eps) ^ 4 * of_int rate" using rate by simp
  also have "\<dots> = token_rate rate * of_int Second" by (simp add: token_rate_def)
  also have "\<dots> \<le> token_rate rate * of_int (now - bk_lastSeen b)"
    using b(3) by (intro mult_left_mono token_rate_nonneg [OF rate]) (simp only: of_int_le_iff)
  finally have "of_int rate \<le> token_rate rate * of_int (now - bk_lastSeen b)" .
  moreover have "0 \<le> bk_tokens b" using assms(3) b(2) by (auto simp: buckets_ok_def bucket_ok_def)
  ultimately show ?thesis using b by (simp add: credit_def)
qed simp

lemma buckets_ok_pruned: "pruned now m m' \<Longrightarrow> buckets_ok rate t m \<Longrightarrow> buckets_ok rate t m'"
  unfolding pruned_def buckets_ok_def by (metis option.distinct(1))

lemma new_bucket_ok: "0 < rate \<Longrightarrow> rate < 2 ^ 53 \<Longrightarrow> bk_tokens (new_bucket rate now) = of_int rate - 1"
  by (simp add: new_bucket_def f64_int del: of_int_diff)

lemma visited_step:
  assumes rate: "0 < rate" "rate < 2 ^ 53" and v: "visited rate k' now m ok m'" and ok: "buckets_ok rate now m"
  shows "buckets_ok rate now m'"
    and "of_bool (ok \<and> k' = k) + credit rate now (m' k)
      \<le> credit rate now (m k) + (if k' = k then 2 * eps * of_int rate else 0)"
proof -
  have "buckets_ok rate now m' \<and> of_bool (ok \<and> k' = k) + credit rate now (m' k)
      \<le> credit rate now (m k) + (if k' = k then 2 * eps * of_int rate else 0)"
  proof (cases "m k'")
    case None
    have seen: "bk_lastSeen (new_bucket rate now) = now" by (simp add: new_bucket_def)
    show ?thesis
      using v None ok rate new_bucket_ok [OF rate, of now] seen
      by (auto simp: visited_def buckets_ok_def bucket_ok_def credit_def split: if_splits)
  next
    case (Some b)
    with v obtain b' where t: "take_token rate now b = (ok, b')" "m' = m(k' \<mapsto> b')"
      by (auto simp: visited_def)
    have "bucket_ok rate b" "bk_lastSeen b \<le> now" using ok Some by (auto simp: buckets_ok_def)
    note tb = take_token_bounds [OF rate this t(1)]
    have "credit rate now (m k') = min (of_int rate) (bk_tokens b + token_rate rate * of_int (now - bk_lastSeen b))"
      "credit rate now (m' k') \<le> bk_tokens b'"
      using Some t tb(2) by (simp_all add: credit_def)
    with tb(3) have "of_bool ok + credit rate now (m' k') \<le> credit rate now (m k') + 2 * eps * of_int rate" by linarith
    then show ?thesis using t tb(1,2) ok by (auto simp: buckets_ok_def)
  qed
  then show "buckets_ok rate now m'" "of_bool (ok \<and> k' = k) + credit rate now (m' k)
      \<le> credit rate now (m k) + (if k' = k then 2 * eps * of_int rate else 0)" by blast+
qed

locale token_limiter =
  fixes allow :: "string \<times> time \<Rightarrow> 'l \<Rightarrow> bool \<times> 'l"
    and buckets :: "'l \<Rightarrow> string \<rightharpoonup> clientBucket"
    and wf :: "'l \<Rightarrow> bool"
    and rate :: int
  assumes wf_allow: "wf l \<Longrightarrow> wf (snd (allow r l))"
    and visits: "wf l \<Longrightarrow> allow (k, now) l = (ok, l')
      \<Longrightarrow> \<exists>m. pruned now (buckets l) m \<and> visited rate k now m ok (buckets l')"
begin

lemma window:
  assumes rate: "0 < rate" "rate < 2 ^ 53"
  shows "wf l \<Longrightarrow> buckets_ok rate a (buckets l) \<Longrightarrow> sorted (a # map snd rs @ [b])
    \<Longrightarrow> of_nat (allowed allow k rs l)
      \<le> credit rate a (buckets l k) + token_rate rate * of_int (b - a)
        + 2 * eps * of_int rate * of_nat (count_list (map fst rs) k)"
proof (induction rs arbitrary: l a)
  case Nil
  then have "0 \<le> token_rate rate * of_int (b - a)" using rate by (intro mult_nonneg_nonneg token_rate_nonneg) auto
  moreover have "0 \<le> credit rate a (buckets l k)"
    using Nil.prems(2) rate token_rate_nonneg [OF rate(1)]
    by (auto simp: credit_def buckets_ok_def bucket_ok_def split: option.split intro!: add_nonneg_nonneg mult_nonneg_nonneg)
  ultimately show ?case by simp
next
  case (Cons r rs)
  obtain k' now where r: "r = (k', now)" by (cases r)
  obtain ok l' where call: "allow (k', now) l = (ok, l')" by (cases "allow (k', now) l")
  from Cons.prems(3) r have now: "a \<le> now" "sorted (now # map snd rs @ [b])" by auto
  from visits [OF Cons.prems(1) call] obtain m where
    m: "pruned now (buckets l) m" "visited rate k' now m ok (buckets l')" by blast
  have oknow: "buckets_ok rate now (buckets l)"
    using Cons.prems(2) now(1) by (force simp: buckets_ok_def)
  note step = visited_step [OF rate m(2) buckets_ok_pruned [OF m(1) oknow]]
  have "wf l'" using wf_allow [OF Cons.prems(1), of "(k', now)"] call by simp
  note IH = Cons.IH [OF this step(1) now(2)]
  let ?c = "token_rate rate" and ?n = "count_list (map fst rs) k" and ?e = "2 * eps * of_int rate :: rat"
  have "of_nat (allowed allow k (r # rs) l) = (of_bool (ok \<and> k' = k) :: rat) + of_nat (allowed allow k rs l')"
    by (simp add: r call)
  also have "\<dots> \<le> of_bool (ok \<and> k' = k) + credit rate now (buckets l' k) + ?c * of_int (b - now) + ?e * of_nat ?n"
    using IH by linarith
  also have "\<dots> \<le> credit rate now (buckets l k) + (if k' = k then ?e else 0) + ?c * of_int (b - now) + ?e * of_nat ?n"
    using step(2) [of k] credit_pruned [OF rate(1) m(1) oknow, of k] by linarith
  also have "\<dots> \<le> credit rate a (buckets l k) + ?c * of_int (now - a) + (if k' = k then ?e else 0)
      + ?c * of_int (b - now) + ?e * of_nat ?n"
    using credit_later [OF rate(1) now(1), of "buckets l k"] by linarith
  also have "\<dots> = credit rate a (buckets l k) + ?c * of_int (b - a) + ?e * of_nat (count_list (map fst (r # rs)) k)"
    by (simp add: r right_diff_distrib distrib_left)
  finally show ?case .
qed

lemma after_ok:
  assumes rate: "0 < rate" "rate < 2 ^ 53"
  shows "wf l \<Longrightarrow> buckets_ok rate a (buckets l) \<Longrightarrow> sorted (a # map snd rs @ [b])
    \<Longrightarrow> wf (after allow rs l) \<and> buckets_ok rate b (buckets (after allow rs l))"
proof (induction rs arbitrary: l a)
  case Nil
  then show ?case by (force simp: after_def buckets_ok_def)
next
  case (Cons r rs)
  obtain k' now where r: "r = (k', now)" by (cases r)
  obtain ok l' where call: "allow (k', now) l = (ok, l')" by (cases "allow (k', now) l")
  from visits [OF Cons.prems(1) call] obtain m where
    m: "pruned now (buckets l) m" "visited rate k' now m ok (buckets l')" by blast
  have "buckets_ok rate now (buckets l)"
    using Cons.prems(2,3) r by (force simp: buckets_ok_def)
  from visited_step(1) [OF rate m(2) buckets_ok_pruned [OF m(1) this]] Cons.prems(1,3) Cons.IH [of l' now]
  show ?case using wf_allow [OF Cons.prems(1), of "(k', now)"] by (simp add: r call after_def)
qed

lemma rate_bound:
  assumes "0 < rate" "rate < 2 ^ 53" "wf l" "buckets_ok rate t (buckets l)"
    and "sorted (t # map snd earlier @ [a])" "sorted (a # map snd rs @ [b])"
  shows "of_nat (allowed allow k rs (after allow earlier l))
    \<le> of_int rate + token_rate rate * of_int (b - a) + 2 * eps * of_int rate * of_nat (count_list (map fst rs) k)"
proof -
  from after_ok [OF assms(1-5)] have "wf (after allow earlier l)" "buckets_ok rate a (buckets (after allow earlier l))" by auto
  from window [OF assms(1,2) this assms(6), of k] credit_le [of rate a "buckets (after allow earlier l) k"]
  show ?thesis by linarith
qed

end

section \<open>The two limiters\<close>

abbreviation clients :: "ipRateLimiter \<Rightarrow> string \<rightharpoonup> clientBucket" where
  "clients l \<equiv> map_of (rl_clients l)"

definition ip_wf :: "int \<Rightarrow> ipRateLimiter \<Rightarrow> bool" where
  "ip_wf rate l \<longleftrightarrow> rl_rate l = rate \<and> rl_clientTTL l = ipRateLimiterClientTTL \<and> distinct (map fst (rl_clients l))
     \<and> rl_maxClients l = ipRateLimiterMaxClients \<and> int (length (rl_clients l)) \<le> ipRateLimiterMaxClients"

definition ns_wf :: "int \<Rightarrow> namespaceRateLimiter \<Rightarrow> bool" where
  "ns_wf rate l \<longleftrightarrow> nl_rate l = rate \<and> distinct (map fst (nl_namespaces l))"

lemma drop_idle_pruned:
  assumes "distinct (map fst xs)" "Second \<le> ttl"
  shows "pruned now (map_of xs) (map_of (drop_idle ttl now xs))"
  unfolding pruned_def
proof
  fix k
  have sub: "\<And>y. y \<in> set (drop_idle ttl now xs) \<Longrightarrow> y \<in> set xs" by (simp add: drop_idle_def)
  have d: "distinct (map fst (drop_idle ttl now xs))" using assms(1) by (simp add: drop_idle_def distinct_map_filter)
  show "map_of (drop_idle ttl now xs) k = map_of xs k
     \<or> map_of (drop_idle ttl now xs) k = None \<and> (\<exists>b. map_of xs k = Some b \<and> Second \<le> now - bk_lastSeen b)"
  proof (cases "map_of (drop_idle ttl now xs) k")
    case (Some b)
    then have "map_of xs k = Some b" using sub map_of_SomeD map_of_is_SomeI [OF assms(1)] by fastforce
    with Some show ?thesis by simp
  next
    case None
    then have gone: "(k, b) \<notin> set (drop_idle ttl now xs)" for b
      using map_of_is_SomeI [OF d, of k b] by auto
    show ?thesis
    proof (cases "map_of xs k")
      case (Some b)
      then have "(k, b) \<in> set xs" by (rule map_of_SomeD)
      then have "ttl \<le> now - bk_lastSeen b" using gone [of b] by (simp add: drop_idle_def)
      then show ?thesis using None Some assms(2) by auto
    qed (simp add: None)
  qed
qed

lemma length_update: "length (AList.update k v xs) = (if k \<in> fst ` set xs then length xs else Suc (length xs))"
  by (induction xs) auto

lemma dom_map_of_fst: "k \<in> fst ` set xs \<longleftrightarrow> map_of xs k \<noteq> None"
  using map_of_eq_None_iff [of xs k] by auto

lemma pruned_refl [simp]: "pruned now m m"
  by (simp add: pruned_def)

lemma ip_cleanup:
  fixes now
  assumes "ip_wf rate l"
  defines "l' \<equiv> (if \<not> now < rl_nextCleanup l
    then (pruneStale now l)\<lparr>rl_nextCleanup := now + rl_cleanupInterval l\<rparr> else l)"
  shows "ip_wf rate l'" "pruned now (clients l) (clients l')"
  using assms(1) drop_idle_pruned [of "rl_clients l" "rl_clientTTL l" now]
  by (auto simp: l'_def ip_wf_def pruneStale_def drop_idle_def distinct_map_filter ipRateLimiterClientTTL_def
      intro: order_trans [OF of_nat_mono [OF length_filter_le]])

lemma ns_cleanup:
  fixes now
  assumes "ns_wf rate l"
  defines "l' \<equiv> (if \<not> now < nl_nextCleanup l
    then l\<lparr>nl_namespaces := drop_idle ipRateLimiterClientTTL now (nl_namespaces l),
           nl_nextCleanup := now + ipRateLimiterCleanupInterval\<rparr> else l)"
  shows "ns_wf rate l'" "pruned now (map_of (nl_namespaces l)) (map_of (nl_namespaces l'))"
  using assms(1) drop_idle_pruned [of "nl_namespaces l" ipRateLimiterClientTTL now]
  by (auto simp: l'_def ns_wf_def drop_idle_def distinct_map_filter ipRateLimiterClientTTL_def)

lemma ip_allow_cases:
  assumes "ip_wf rate l" "ip_allow (k, now) l = (ok, l')"
  shows "ip_wf rate l'" "\<exists>m. pruned now (clients l) m \<and> visited rate k now m ok (clients l')"
proof -
  define l1 where "l1 = (if \<not> now < rl_nextCleanup l
    then (pruneStale now l)\<lparr>rl_nextCleanup := now + rl_cleanupInterval l\<rparr> else l)"
  from ip_cleanup [OF assms(1), of now] have l1: "ip_wf rate l1" "pruned now (clients l) (clients l1)"
    by (simp_all add: l1_def)
  have "ip_wf rate l' \<and> visited rate k now (clients l1) ok (clients l')"
    using assms(2) l1(1)
    by (cases "clients l1 k") (auto simp: ip_allow_def l1_def [symmetric] Let_def ip_wf_def visited_def length_update
        update_conv' distinct_update dom_map_of_fst simp del: not_None_eq split: if_splits prod.splits)
  with l1(2) show "ip_wf rate l'" "\<exists>m. pruned now (clients l) m \<and> visited rate k now m ok (clients l')" by blast+
qed

lemma ns_allow_cases:
  assumes "ns_wf rate l" "ns_allow (k, now) l = (ok, l')"
  shows "ns_wf rate l'"
    "\<exists>m. pruned now (map_of (nl_namespaces l)) m \<and> visited rate k now m ok (map_of (nl_namespaces l'))"
proof -
  define l1 where "l1 = (if \<not> now < nl_nextCleanup l
    then l\<lparr>nl_namespaces := drop_idle ipRateLimiterClientTTL now (nl_namespaces l),
           nl_nextCleanup := now + ipRateLimiterCleanupInterval\<rparr> else l)"
  from ns_cleanup [OF assms(1), of now]
  have l1: "ns_wf rate l1" "pruned now (map_of (nl_namespaces l)) (map_of (nl_namespaces l1))"
    by (simp_all add: l1_def)
  have "ns_wf rate l' \<and> visited rate k now (map_of (nl_namespaces l1)) ok (map_of (nl_namespaces l'))"
    using assms(2) l1(1)
    by (cases "map_of (nl_namespaces l1) k") (auto simp: ns_allow_def l1_def [symmetric] Let_def ns_wf_def visited_def
        update_conv' distinct_update split: if_splits prod.splits)
  with l1(2) show "ns_wf rate l'"
    "\<exists>m. pruned now (map_of (nl_namespaces l)) m \<and> visited rate k now m ok (map_of (nl_namespaces l'))" by blast+
qed

interpretation ip: token_limiter ip_allow clients "ip_wf rate" rate for rate
  by unfold_locales (metis ip_allow_cases(1) prod.collapse surj_pair snd_conv, rule ip_allow_cases(2))

interpretation ns: token_limiter ns_allow "\<lambda>l. map_of (nl_namespaces l)" "ns_wf rate" rate for rate
  by unfold_locales (metis ns_allow_cases(1) prod.collapse surj_pair snd_conv, rule ns_allow_cases(2))

lemma new_limiters:
  "ip_wf rate (newIPRateLimiter rate t)" "ns_wf rate (newNamespaceRateLimiter rate)"
  "buckets_ok rate t (clients (newIPRateLimiter rate t))"
  "buckets_ok rate t (map_of (nl_namespaces (newNamespaceRateLimiter rate)))"
  by (simp_all add: newIPRateLimiter_def newNamespaceRateLimiter_def ip_wf_def ns_wf_def buckets_ok_def
    ipRateLimiterMaxClients_def)

text \<open>
  C32: Rate limits hold. Of the requests of one address, or of one namespace, in any window of time,
  whatever came before and whatever other clients send in between, at most \<open>rate\<close> plus \<open>rate\<close> times
  the seconds of the window are let through, up to the rounding of the floating-point arithmetic:
  four parts in \<open>2^53\<close> of the time and two of the rate per request.
\<close>

theorem rate_limits_enforced:
  assumes "0 < rate" "rate < 2 ^ 53"
    and "sorted (t # map snd earlier @ [a])" "sorted (a # map snd window @ [b])"
  shows "of_nat (allowed ip_allow key window (after ip_allow earlier (newIPRateLimiter rate t)))
      \<le> of_int rate + token_rate rate * of_int (b - a) + 2 * eps * of_int rate * of_nat (count_list (map fst window) key)
    \<and> of_nat (allowed ns_allow key window (after ns_allow earlier (newNamespaceRateLimiter rate)))
      \<le> of_int rate + token_rate rate * of_int (b - a) + 2 * eps * of_int rate * of_nat (count_list (map fst window) key)"
  using ip.rate_bound [OF assms(1,2) new_limiters(1,3) assms(3,4)] ns.rate_bound [OF assms(1,2) new_limiters(2,4) assms(3,4)]
  by blast

definition sample_requests :: "(string \<times> time) list" where
  "sample_requests = [(''a'', 5), (''a'', 5), (''b'', 6), (''a'', 5 + Second)]"

theorem rate_limits_enforced_witness:
  "allowed ip_allow ''a'' sample_requests (newIPRateLimiter 2 0) = 3
   \<and> (3 :: rat) \<le> 2 + token_rate 2 * of_int (5 + Second - 5) + 2 * eps * 2 * 3"
proof -
  have "allowed ip_allow ''a'' sample_requests (after ip_allow [] (newIPRateLimiter 2 0)) = 3"
    by code_simp
  with rate_limits_enforced [of 2 0 "[]" 5 sample_requests "5 + Second" "''a''"]
  show ?thesis by (simp add: sample_requests_def after_def)
qed

text \<open>The table of addresses stays within its bound.\<close>

theorem ip_clients_bounded:
  "int (length (rl_clients (after ip_allow rs (newIPRateLimiter rate t)))) \<le> ipRateLimiterMaxClients"
proof -
  have "ip_wf rate (after ip_allow rs l)" if "ip_wf rate l" for l
    using that by (induction rs arbitrary: l) (auto simp: after_def ip.wf_allow)
  from this [OF new_limiters(1)] show ?thesis by (simp add: ip_wf_def)
qed

end
