(* ===== verification/KeyCache.thy ===== *)
theory KeyCache
  imports Domain "HOL-Library.AList"
begin

text \<open>
  The cache of API keys of \<^verbatim>\<open>internal/api/key_cache.go\<close>. \<open>get\<close> runs in many request goroutines at
  once; it holds the mutex in two sections, between which it reads the repository or waits for
  another goroutine's read. Each section is a function of the cache; a lookup that goroutines share
  is a cell of a heap, addressed by the pointer in \<open>inflight\<close>. A step relation interleaves any number
  of calls, with the clock running between and during the sections and the key table changing.
\<close>

definition apiKeyCacheTTL :: duration where
  "apiKeyCacheTTL = 5 * Second"

definition apiKeyCacheMaxEntries :: nat where
  "apiKeyCacheMaxEntries = 1024"

record cachedAPIKey =
  ck_key :: APIKey
  ck_expires :: time

text \<open>\<open>done\<close> is whether the channel is closed; \<open>key\<close> and \<open>err\<close> are one result.\<close>

record apiKeyLookup =
  lk_done :: bool
  lk_result :: "APIKey result"
  lk_callerCanceled :: bool

type_synonym pointer = nat

record apiKeyCache =
  kc_keys :: "(string \<times> cachedAPIKey) list"
  kc_inflight :: "(string \<times> pointer) list"

definition newAPIKeyCache :: apiKeyCache where
  "newAPIKeyCache = \<lparr>kc_keys = [], kc_inflight = []\<rparr>"

section \<open>The sections of get\<close>

datatype entered = Hit APIKey | Join pointer | Own

text \<open>The section at the start of an attempt; \<open>p\<close> is the address of the lookup it may allocate.\<close>

definition get_enter :: "time \<Rightarrow> pointer \<Rightarrow> string \<Rightarrow> apiKeyCache \<Rightarrow> entered \<times> apiKeyCache" where
  "get_enter now p hash c =
     (let miss = (\<lambda>c. case map_of (kc_inflight c) hash of
            Some q \<Rightarrow> (Join q, c)
          | None \<Rightarrow> (Own, c\<lparr>kc_inflight := AList.update hash p (kc_inflight c)\<rparr>))
      in case map_of (kc_keys c) hash of
           Some entry \<Rightarrow> if now < ck_expires entry then (Hit (ck_key entry), c)
             else miss (c\<lparr>kc_keys := AList.delete hash (kc_keys c)\<rparr>)
         | None \<Rightarrow> miss c)"

text \<open>
  The section after the owner's read: an enabled key is cached, for which an arbitrary entry (the
  first one the map's iteration yields) makes room in a full cache.
\<close>

definition get_finish :: "string \<Rightarrow> string \<Rightarrow> time \<Rightarrow> APIKey result \<Rightarrow> apiKeyCache \<Rightarrow> apiKeyCache" where
  "get_finish victim hash lookupStarted res c =
     c\<lparr>kc_keys := (case res of
          Inr key \<Rightarrow> if key_Enabled key
            then AList.update hash \<lparr>ck_key = key, ck_expires = lookupStarted + apiKeyCacheTTL\<rparr>
              (if length (kc_keys c) \<ge> apiKeyCacheMaxEntries then AList.delete victim (kc_keys c) else kc_keys c)
            else kc_keys c
        | Inl e \<Rightarrow> kc_keys c),
       kc_inflight := AList.delete hash (kc_inflight c)\<rparr>"

text \<open>What a waiting goroutine does when the lookup it joined is done: \<open>None\<close> is another attempt.\<close>

definition get_wake :: "nat \<Rightarrow> bool \<Rightarrow> apiKeyLookup \<Rightarrow> APIKey result option" where
  "get_wake attempt canceled l =
     (if attempt = 0 \<and> lk_callerCanceled l \<and> \<not> canceled
         \<and> (case lk_result l of Inl e \<Rightarrow> errors_Is e Canceled \<or> errors_Is e DeadlineExceeded | Inr k \<Rightarrow> False)
      then None else Some (lk_result l))"

section \<open>Concurrent calls\<close>

datatype getting =
    Entering nat
  | Awaiting nat pointer
  | Reading pointer time
  | HasRead pointer time "APIKey result"
  | Finished "APIKey result"

record call =
  cl_hash :: string
  cl_at :: getting

record cache_system =
  cs_now :: time
  cs_cache :: apiKeyCache
  cs_lookups :: "pointer \<rightharpoonup> apiKeyLookup"
  cs_calls :: "nat \<rightharpoonup> call"

definition call_at :: "nat \<Rightarrow> string \<Rightarrow> getting \<Rightarrow> cache_system \<Rightarrow> bool" where
  "call_at i hash pc s \<longleftrightarrow> cs_calls s i = Some \<lparr>cl_hash = hash, cl_at = pc\<rparr>"

definition goto :: "nat \<Rightarrow> string \<Rightarrow> getting \<Rightarrow> cache_system \<Rightarrow> cache_system" where
  "goto i hash pc s = s\<lparr>cs_calls := (cs_calls s)(i \<mapsto> \<lparr>cl_hash = hash, cl_at = pc\<rparr>)\<rparr>"

text \<open>
  \<open>db t hash\<close> is the answer of \<open>GetKeyByTokenHash\<close> at time \<open>t\<close>. A read may also fail with any error. In the
  first section the clock is read once to compare and, later, once more for the start of a lookup.
\<close>

inductive cache_step :: "(time \<Rightarrow> string \<Rightarrow> APIKey result) \<Rightarrow> cache_system \<Rightarrow> cache_system \<Rightarrow> bool" for db where
  tick: "cs_now s \<le> t \<Longrightarrow> cache_step db s (s\<lparr>cs_now := t\<rparr>)"
| arrive: "cs_calls s i = None \<Longrightarrow> cache_step db s (goto i hash (Entering 0) s)"
| hit: "call_at i hash (Entering n) s \<Longrightarrow> get_enter (cs_now s) p hash (cs_cache s) = (Hit key, c)
    \<Longrightarrow> cache_step db s (goto i hash (Finished (Inr key)) (s\<lparr>cs_cache := c\<rparr>))"
| join: "call_at i hash (Entering n) s \<Longrightarrow> get_enter (cs_now s) p hash (cs_cache s) = (Join q, c)
    \<Longrightarrow> cache_step db s (goto i hash (Awaiting n q) (s\<lparr>cs_cache := c\<rparr>))"
| own: "call_at i hash (Entering n) s \<Longrightarrow> cs_lookups s p = None \<Longrightarrow> cs_now s \<le> t
    \<Longrightarrow> get_enter (cs_now s) p hash (cs_cache s) = (Own, c)
    \<Longrightarrow> cache_step db s (goto i hash (Reading p t) (s\<lparr>cs_now := t, cs_cache := c,
          cs_lookups := (cs_lookups s)(p \<mapsto> \<lparr>lk_done = False, lk_result = Inl Canceled, lk_callerCanceled = False\<rparr>)\<rparr>))"
| read: "call_at i hash (Reading p t) s \<Longrightarrow> res = db (cs_now s) hash \<or> res = Inl e
    \<Longrightarrow> cache_step db s (goto i hash (HasRead p t res) s)"
| finish: "call_at i hash (HasRead p t res) s
    \<Longrightarrow> victim \<in> fst ` set (kc_keys (cs_cache s)) \<or> kc_keys (cs_cache s) = []
    \<Longrightarrow> cache_step db s (goto i hash (Finished res) (s\<lparr>cs_cache := get_finish victim hash t res (cs_cache s),
          cs_lookups := (cs_lookups s)(p \<mapsto> \<lparr>lk_done = True, lk_result = res, lk_callerCanceled = canceled\<rparr>)\<rparr>))"
| wake: "call_at i hash (Awaiting n q) s \<Longrightarrow> cs_lookups s q = Some l \<Longrightarrow> lk_done l
    \<Longrightarrow> cache_step db s (goto i hash (case get_wake n canceled l of None \<Rightarrow> Entering (Suc n) | Some res \<Rightarrow> Finished res) s)"
| abandon: "call_at i hash (Awaiting n q) s \<Longrightarrow> cache_step db s (goto i hash (Finished (Inl e)) s)"

definition cache_start :: "time \<Rightarrow> cache_system" where
  "cache_start t = \<lparr>cs_now = t, cs_cache = newAPIKeyCache, cs_lookups = Map.empty, cs_calls = Map.empty\<rparr>"

abbreviation cache_steps :: "(time \<Rightarrow> string \<Rightarrow> APIKey result) \<Rightarrow> cache_system \<Rightarrow> cache_system \<Rightarrow> bool" where
  "cache_steps db \<equiv> (cache_step db)\<^sup>*\<^sup>*"

section \<open>The sections, case by case\<close>

lemma get_enter_cases:
  assumes "get_enter now p hash c = (r, c')"
  obtains (hit) entry where "map_of (kc_keys c) hash = Some entry" "now < ck_expires entry" "r = Hit (ck_key entry)" "c' = c"
  | (join) q where "map_of (kc_inflight c) hash = Some q" "r = Join q" "kc_inflight c' = kc_inflight c"
      "kc_keys c' = kc_keys c \<or> kc_keys c' = AList.delete hash (kc_keys c)"
  | (own) "map_of (kc_inflight c) hash = None" "r = Own" "kc_inflight c' = AList.update hash p (kc_inflight c)"
      "kc_keys c' = kc_keys c \<or> kc_keys c' = AList.delete hash (kc_keys c)"
  using assms by (auto simp: get_enter_def Let_def split: option.splits if_splits)

lemma set_delete: "x \<in> set (AList.delete k xs) \<Longrightarrow> x \<in> set xs"
  by (auto simp: AList.delete_eq)

lemma set_update: "x \<in> set (AList.update k v xs) \<Longrightarrow> x = (k, v) \<or> x \<in> set xs"
  by (induction xs) (auto split: if_splits)

lemma get_finish_keys:
  assumes "(h, entry) \<in> set (kc_keys (get_finish victim hash t res c))"
  shows "(h, entry) \<in> set (kc_keys c)
    \<or> (\<exists>key. h = hash \<and> res = Inr key \<and> key_Enabled key \<and> entry = \<lparr>ck_key = key, ck_expires = t + apiKeyCacheTTL\<rparr>)"
  using assms
  by (auto simp: get_finish_def split: sum.splits if_splits dest!: set_update dest: set_delete)

section \<open>What is cached was read\<close>

text \<open>A key that the table answered for the hash at or after \<open>t\<close>, enabled.\<close>

definition read_since :: "(time \<Rightarrow> string \<Rightarrow> APIKey result) \<Rightarrow> time \<Rightarrow> string \<Rightarrow> APIKey \<Rightarrow> bool" where
  "read_since db t hash key \<longleftrightarrow> (\<exists>r \<ge> t. db r hash = Inr key)"

definition cache_inv :: "(time \<Rightarrow> string \<Rightarrow> APIKey result) \<Rightarrow> cache_system \<Rightarrow> bool" where
  "cache_inv db s \<longleftrightarrow>
     (\<forall>hash entry. (hash, entry) \<in> set (kc_keys (cs_cache s))
        \<longrightarrow> key_Enabled (ck_key entry) \<and> read_since db (ck_expires entry - apiKeyCacheTTL) hash (ck_key entry))
     \<and> (\<forall>i hash p t key. call_at i hash (HasRead p t (Inr key)) s \<longrightarrow> read_since db t hash key)
     \<and> (\<forall>i hash p t. call_at i hash (Reading p t) s \<longrightarrow> t \<le> cs_now s)"

lemma call_at_goto: "call_at j hash' pc' (goto i hash pc s) \<longleftrightarrow> (if j = i then hash' = hash \<and> pc' = pc else call_at j hash' pc' s)"
  by (auto simp: call_at_def goto_def)

lemma goto_simps [simp]:
  "cs_now (goto i hash pc s) = cs_now s" "cs_cache (goto i hash pc s) = cs_cache s"
  "cs_lookups (goto i hash pc s) = cs_lookups s"
  by (simp_all add: goto_def)

lemma call_at_updates [simp]:
  "call_at i hash pc (s\<lparr>cs_now := t\<rparr>) = call_at i hash pc s" "call_at i hash pc (s\<lparr>cs_cache := c\<rparr>) = call_at i hash pc s"
  "call_at i hash pc (s\<lparr>cs_cache := c, cs_lookups := l\<rparr>) = call_at i hash pc s"
  "call_at i hash pc (s\<lparr>cs_now := t, cs_cache := c, cs_lookups := l\<rparr>) = call_at i hash pc s"
  by (simp_all add: call_at_def)

lemma call_at_unique: "call_at i hash pc s \<Longrightarrow> call_at i hash' pc' s \<Longrightarrow> hash' = hash \<and> pc' = pc"
  by (simp add: call_at_def)

lemma cache_inv_step: "cache_step db s s' \<Longrightarrow> cache_inv db s \<Longrightarrow> cache_inv db s'"
proof (induction rule: cache_step.induct)
  case (finish i hash p t res s victim canceled)
  then show ?case
    by (auto simp: cache_inv_def call_at_goto dest!: get_finish_keys)
next
  case (hit i hash n s p key c)
  then show ?case by (auto simp: cache_inv_def call_at_goto elim!: get_enter_cases)
next
  case (join i hash n s p q c)
  then show ?case by (auto simp: cache_inv_def call_at_goto elim!: get_enter_cases dest!: set_delete)
next
  case (own i hash n s p t c)
  then show ?case by (auto simp: cache_inv_def call_at_goto elim!: get_enter_cases dest!: set_delete) force+
next
  case (tick s t)
  then show ?case by (force simp: cache_inv_def)
next
  case (read i hash p t s res e)
  then show ?case by (auto simp: cache_inv_def call_at_goto read_since_def) metis
qed (auto simp: cache_inv_def call_at_goto split: option.splits)

section \<open>One read at a time\<close>

text \<open>The call reads, or has read and not yet published, the lookup at \<open>p\<close> that began at \<open>t\<close>.\<close>

definition reads :: "nat \<Rightarrow> string \<Rightarrow> pointer \<Rightarrow> time \<Rightarrow> cache_system \<Rightarrow> bool" where
  "reads i hash p t s \<longleftrightarrow> call_at i hash (Reading p t) s \<or> (\<exists>res. call_at i hash (HasRead p t res) s)"

definition flight_inv :: "cache_system \<Rightarrow> bool" where
  "flight_inv s \<longleftrightarrow>
     (\<forall>i hash p t. reads i hash p t s \<longrightarrow> map_of (kc_inflight (cs_cache s)) hash = Some p \<and> (\<exists>l. cs_lookups s p = Some l \<and> \<not> lk_done l))
     \<and> (\<forall>hash p. map_of (kc_inflight (cs_cache s)) hash = Some p \<longrightarrow> (\<exists>i t. reads i hash p t s))
     \<and> (\<forall>i hash p t i' hash' p' t'. reads i hash p t s \<and> reads i' hash' p' t' s \<and> (hash = hash' \<or> p = p') \<longrightarrow> i = i')
     \<and> (\<forall>i hash n q. call_at i hash (Awaiting n q) s \<longrightarrow>
          (\<exists>l. cs_lookups s q = Some l \<and> (\<not> lk_done l \<longrightarrow> map_of (kc_inflight (cs_cache s)) hash = Some q)))"

lemma reads_goto:
  "reads j hash' p t (goto i hash pc s) \<longleftrightarrow>
     (if j = i then hash' = hash \<and> (pc = Reading p t \<or> (\<exists>res. pc = HasRead p t res)) else reads j hash' p t s)"
  by (auto simp: reads_def call_at_goto)

lemma reads_updates [simp]:
  "reads i hash p t (s\<lparr>cs_now := u\<rparr>) = reads i hash p t s" "reads i hash p t (s\<lparr>cs_cache := c\<rparr>) = reads i hash p t s"
  "reads i hash p t (s\<lparr>cs_cache := c, cs_lookups := l\<rparr>) = reads i hash p t s"
  "reads i hash p t (s\<lparr>cs_now := u, cs_cache := c, cs_lookups := l\<rparr>) = reads i hash p t s"
  by (simp_all add: reads_def)

lemma reads_unique: "reads i hash p t s \<Longrightarrow> call_at i hash' pc s \<Longrightarrow> hash' = hash \<and> (pc = Reading p t \<or> (\<exists>res. pc = HasRead p t res))"
  by (auto simp: reads_def call_at_def)

lemma kc_inflight_finish [simp]: "kc_inflight (get_finish victim hash t res c) = AList.delete hash (kc_inflight c)"
  by (simp add: get_finish_def)

lemma flight_invI:
  assumes "\<And>i hash p t. reads i hash p t s \<Longrightarrow> map_of (kc_inflight (cs_cache s)) hash = Some p"
    and "\<And>i hash p t. reads i hash p t s \<Longrightarrow> \<exists>l. cs_lookups s p = Some l \<and> \<not> lk_done l"
    and "\<And>hash p. map_of (kc_inflight (cs_cache s)) hash = Some p \<Longrightarrow> \<exists>i t. reads i hash p t s"
    and "\<And>i hash p t i' hash' p' t'. reads i hash p t s \<Longrightarrow> reads i' hash' p' t' s \<Longrightarrow> hash = hash' \<or> p = p' \<Longrightarrow> i = i'"
    and "\<And>i hash n q. call_at i hash (Awaiting n q) s \<Longrightarrow>
      \<exists>l. cs_lookups s q = Some l \<and> (\<not> lk_done l \<longrightarrow> map_of (kc_inflight (cs_cache s)) hash = Some q)"
  shows "flight_inv s"
  using assms unfolding flight_inv_def by blast

lemma flight_invD:
  assumes "flight_inv s"
  shows "\<And>i hash p t. reads i hash p t s \<Longrightarrow> map_of (kc_inflight (cs_cache s)) hash = Some p"
    and "\<And>i hash p t. reads i hash p t s \<Longrightarrow> \<exists>l. cs_lookups s p = Some l \<and> \<not> lk_done l"
    and "\<And>hash p. map_of (kc_inflight (cs_cache s)) hash = Some p \<Longrightarrow> \<exists>i t. reads i hash p t s"
    and "\<And>i hash p t i' hash' p' t'. reads i hash p t s \<Longrightarrow> reads i' hash' p' t' s \<Longrightarrow> hash = hash' \<or> p = p' \<Longrightarrow> i = i'"
    and "\<And>i hash n q. call_at i hash (Awaiting n q) s \<Longrightarrow>
      \<exists>l. cs_lookups s q = Some l \<and> (\<not> lk_done l \<longrightarrow> map_of (kc_inflight (cs_cache s)) hash = Some q)"
  using assms unfolding flight_inv_def by blast+

text \<open>A step that neither starts nor ends a read.\<close>

lemma flight_inv_idle:
  assumes inv: "flight_inv s" and same: "cs_lookups s' = cs_lookups s" "kc_inflight (cs_cache s') = kc_inflight (cs_cache s)"
    "\<And>j hash p t. reads j hash p t s' = reads j hash p t s"
    and wait: "\<And>j hash n q. call_at j hash (Awaiting n q) s'
      \<Longrightarrow> (\<exists>n. call_at j hash (Awaiting n q) s) \<or> map_of (kc_inflight (cs_cache s)) hash = Some q"
  shows "flight_inv s'"
proof (rule flight_invI, unfold same)
  fix i hash n q assume "call_at i hash (Awaiting n q) s'"
  from wait [OF this] show "\<exists>l. cs_lookups s q = Some l \<and> (\<not> lk_done l \<longrightarrow> map_of (kc_inflight (cs_cache s)) hash = Some q)"
    using flight_invD(5) [OF inv] flight_invD(2,3) [OF inv] by metis
qed (use flight_invD [OF inv] in blast)+

lemma flight_inv_goto:
  assumes "flight_inv s" "\<And>hash p t. \<not> reads i hash p t s"
    and "\<And>p t. pc \<noteq> Reading p t" "\<And>p t res. pc \<noteq> HasRead p t res" "\<forall>n q. pc \<noteq> Awaiting n q"
  shows "flight_inv (goto i hash pc s)"
  using assms(1) by (rule flight_inv_idle) (use assms(2-) in \<open>auto simp: reads_goto call_at_goto split: if_splits\<close>)

lemma flight_inv_own:
  assumes inv: "flight_inv s" and i: "call_at i hash (Entering n) s" and p: "cs_lookups s p = None"
    and free: "map_of (kc_inflight (cs_cache s)) hash = None"
    and c: "kc_inflight c = AList.update hash p (kc_inflight (cs_cache s))" and l: "\<not> lk_done l"
  shows "flight_inv (goto i hash (Reading p t) (s\<lparr>cs_now := u, cs_cache := c, cs_lookups := (cs_lookups s)(p \<mapsto> l)\<rparr>))"
    (is "flight_inv ?s'")
proof -
  note D = flight_invD [OF inv]
  have old: "hash' \<noteq> hash" "p' \<noteq> p" "j \<noteq> i" if "reads j hash' p' t' s" for j hash' p' t'
    using D(1,2) [OF that] free p reads_unique [OF that] i by auto
  have r: "reads j hash' p' t' ?s' \<longleftrightarrow> (j = i \<and> hash' = hash \<and> p' = p \<and> t' = t) \<or> reads j hash' p' t' s" for j hash' p' t'
    using old [of j hash' p' t'] by (auto simp: reads_goto)
  have infl: "map_of (kc_inflight c) h = (if h = hash then Some p else map_of (kc_inflight (cs_cache s)) h)" for h
    by (simp add: c update_conv')
  show ?thesis
  proof (rule flight_invI)
    fix j hash' p' t' assume "reads j hash' p' t' ?s'"
    then show "map_of (kc_inflight (cs_cache ?s')) hash' = Some p'" "\<exists>l. cs_lookups ?s' p' = Some l \<and> \<not> lk_done l"
      unfolding r using D(1,2) [of j hash' p' t'] old [of j hash' p' t'] l by (auto simp: infl)
  next
    fix hash' p' assume "map_of (kc_inflight (cs_cache ?s')) hash' = Some p'"
    then show "\<exists>j t. reads j hash' p' t ?s'"
      unfolding r using D(3) by (auto simp: infl split: if_splits)
  next
    fix j hash1 p1 t1 k hash2 p2 t2
    assume "reads j hash1 p1 t1 ?s'" "reads k hash2 p2 t2 ?s'" "hash1 = hash2 \<or> p1 = p2"
    then show "j = k" unfolding r
      using D(4) [of j hash1 p1 t1 k hash2 p2 t2] old [of j hash1 p1 t1] old [of k hash2 p2 t2] by auto
  next
    fix j hash' m q assume "call_at j hash' (Awaiting m q) ?s'"
    then have "call_at j hash' (Awaiting m q) s" by (auto simp: call_at_goto split: if_splits)
    from D(5) [OF this] p free
    show "\<exists>l. cs_lookups ?s' q = Some l \<and> (\<not> lk_done l \<longrightarrow> map_of (kc_inflight (cs_cache ?s')) hash' = Some q)"
      by (auto simp: infl)
  qed
qed

lemma flight_inv_finish:
  assumes inv: "flight_inv s" and i: "call_at i hash (HasRead p t res) s"
    and c: "kc_inflight c = AList.delete hash (kc_inflight (cs_cache s))" and l: "lk_done l"
  shows "flight_inv (goto i hash (Finished res) (s\<lparr>cs_cache := c, cs_lookups := (cs_lookups s)(p \<mapsto> l)\<rparr>))"
    (is "flight_inv ?s'")
proof -
  note D = flight_invD [OF inv]
  have ri: "reads i hash p t s" using i by (auto simp: reads_def)
  have other: "hash' \<noteq> hash" "p' \<noteq> p" if "reads j hash' p' t' s" "j \<noteq> i" for j hash' p' t'
    using D(4) [OF that(1) ri] that(2) by auto
  have r: "reads j hash' p' t' ?s' \<longleftrightarrow> j \<noteq> i \<and> reads j hash' p' t' s" for j hash' p' t'
    by (auto simp: reads_goto)
  have infl: "map_of (kc_inflight c) h = (if h = hash then None else map_of (kc_inflight (cs_cache s)) h)" for h
    by (simp add: c delete_conv')
  show ?thesis
  proof (rule flight_invI)
    fix j hash' p' t' assume "reads j hash' p' t' ?s'"
    then show "map_of (kc_inflight (cs_cache ?s')) hash' = Some p'" "\<exists>l. cs_lookups ?s' p' = Some l \<and> \<not> lk_done l"
      unfolding r using D(1,2) [of j hash' p' t'] other [of j hash' p' t'] by (auto simp: infl)
  next
    fix hash' p' assume a: "map_of (kc_inflight (cs_cache ?s')) hash' = Some p'"
    then have "hash' \<noteq> hash" "map_of (kc_inflight (cs_cache s)) hash' = Some p'" by (auto simp: infl split: if_splits)
    with D(3) obtain j t' where "reads j hash' p' t' s" by blast
    moreover from this have "j \<noteq> i" using \<open>hash' \<noteq> hash\<close> i reads_unique by blast
    ultimately show "\<exists>j t. reads j hash' p' t ?s'" unfolding r by blast
  next
    fix j hash1 p1 t1 k hash2 p2 t2
    assume "reads j hash1 p1 t1 ?s'" "reads k hash2 p2 t2 ?s'" "hash1 = hash2 \<or> p1 = p2"
    then show "j = k" unfolding r using D(4) [of j hash1 p1 t1 k hash2 p2 t2] by auto
  next
    fix j hash' m q assume "call_at j hash' (Awaiting m q) ?s'"
    then have "call_at j hash' (Awaiting m q) s" by (auto simp: call_at_goto split: if_splits)
    from D(5) [OF this] obtain l' where
      l': "cs_lookups s q = Some l'" "\<not> lk_done l' \<longrightarrow> map_of (kc_inflight (cs_cache s)) hash' = Some q" by blast
    show "\<exists>l. cs_lookups ?s' q = Some l \<and> (\<not> lk_done l \<longrightarrow> map_of (kc_inflight (cs_cache ?s')) hash' = Some q)"
    proof (cases "q = p \<or> hash' \<noteq> hash")
      case True
      then show ?thesis using l l' by (auto simp: infl)
    next
      case False
      then have "lk_done l'" using l'(2) D(1) [OF ri] by auto
      with l' False show ?thesis by simp
    qed
  qed
qed

lemma flight_inv_step: "cache_step db s s' \<Longrightarrow> flight_inv s \<Longrightarrow> flight_inv s'"
proof (induction rule: cache_step.induct)
  case (hit i hash n s p key c)
  from hit(2) have "c = cs_cache s" by (rule get_enter_cases) auto
  with hit show ?case
    by (elim flight_inv_idle) (auto simp: reads_goto call_at_goto dest: reads_unique split: if_splits)
next
  case (join i hash n s p q c)
  then show ?case
    by (elim flight_inv_idle) (auto simp: reads_goto call_at_goto elim!: get_enter_cases dest: reads_unique split: if_splits)
next
  case (own i hash n s p t c)
  then show ?case by (auto elim!: get_enter_cases intro: flight_inv_own)
next
  case (finish i hash p t res s victim canceled)
  then show ?case by (intro flight_inv_finish) auto
next
  case (read i hash p t s res e)
  then show ?case
    by (elim flight_inv_idle) (auto simp: reads_goto call_at_goto dest: reads_unique split: if_splits, auto simp: reads_def)
next
  case (tick s t)
  then show ?case by (elim flight_inv_idle) auto
next
  case (arrive s i hash)
  then show ?case by (intro flight_inv_goto) (auto simp: reads_def call_at_def)
next
  case (wake i hash n q s l canceled)
  then show ?case by (intro flight_inv_goto) (auto dest: reads_unique split: option.splits)
next
  case (abandon i hash n q s e)
  then show ?case by (intro flight_inv_goto) (auto dest: reads_unique)
qed

section \<open>The cache stays small\<close>

definition keys_inv :: "cache_system \<Rightarrow> bool" where
  "keys_inv s \<longleftrightarrow> distinct (map fst (kc_keys (cs_cache s))) \<and> length (kc_keys (cs_cache s)) \<le> apiKeyCacheMaxEntries"

lemma length_delete: "k \<in> fst ` set xs \<Longrightarrow> length (AList.delete k xs) < length xs"
  by (induction xs) (auto simp: AList.delete_eq intro: le_imp_less_Suc)

lemma length_delete_le: "length (AList.delete k xs) \<le> length xs"
  by (simp add: AList.delete_eq)

lemma length_update_le: "length (AList.update k v xs) \<le> Suc (length xs)"
  by (induction xs) auto

lemma length_get_finish:
  assumes "length (kc_keys c) \<le> apiKeyCacheMaxEntries" "victim \<in> fst ` set (kc_keys c) \<or> kc_keys c = []"
  shows "length (kc_keys (get_finish victim hash t res c)) \<le> apiKeyCacheMaxEntries"
proof -
  let ?room = "if length (kc_keys c) \<ge> apiKeyCacheMaxEntries then AList.delete victim (kc_keys c) else kc_keys c"
  have "length ?room < apiKeyCacheMaxEntries"
    using assms length_delete [of victim "kc_keys c"] by (cases "kc_keys c = []") (auto simp: apiKeyCacheMaxEntries_def)
  then show ?thesis
    using assms(1) length_update_le [of hash _ ?room]
    by (auto simp: get_finish_def split: sum.split intro: order_trans [OF length_update_le])
qed

lemma keys_inv_step: "cache_step db s s' \<Longrightarrow> keys_inv s \<Longrightarrow> keys_inv s'"
proof (induction rule: cache_step.induct)
  case (finish i hash p t res s victim canceled)
  then show ?case
    using length_get_finish [of "cs_cache s" victim hash t res]
    by (auto simp: keys_inv_def get_finish_def distinct_update distinct_delete split: sum.split)
qed (auto simp: keys_inv_def elim!: get_enter_cases intro: order_trans [OF length_delete_le] distinct_delete)

lemma cache_start_inv: "cache_inv db (cache_start t)" "flight_inv (cache_start t)" "keys_inv (cache_start t)"
  by (auto simp: cache_start_def cache_inv_def flight_inv_def keys_inv_def reads_def call_at_def newAPIKeyCache_def)

lemma cache_reachable:
  assumes "cache_steps db (cache_start t) s"
  shows "cache_inv db s" "flight_inv s" "keys_inv s"
  using assms
  by (induction rule: rtranclp_induct) (blast intro: cache_start_inv cache_inv_step flight_inv_step keys_inv_step)+

section \<open>Revocation\<close>

definition no_key :: "APIKey result \<Rightarrow> bool" where
  "no_key res \<longleftrightarrow> (case res of Inl e \<Rightarrow> True | Inr key \<Rightarrow> \<not> key_Enabled key)"

text \<open>
  Where no read from before the revocation at \<open>v\<close> is under way: a call that arrives after \<open>s0\<close> waits
  only for lookups that do not yield the key, and does not yield it.
\<close>

definition revoked_inv :: "cache_system \<Rightarrow> time \<Rightarrow> string \<Rightarrow> cache_system \<Rightarrow> bool" where
  "revoked_inv s0 v hash s \<longleftrightarrow> v + apiKeyCacheTTL \<le> cs_now s
     \<and> (\<forall>i p t. reads i hash p t s \<longrightarrow> v \<le> t)
     \<and> (\<forall>i n q l. cs_calls s0 i = None \<and> call_at i hash (Awaiting n q) s \<and> cs_lookups s q = Some l \<and> lk_done l
          \<longrightarrow> no_key (lk_result l))
     \<and> (\<forall>i res. cs_calls s0 i = None \<and> call_at i hash (Finished res) s \<longrightarrow> no_key res)"

lemma cached_expired:
  assumes "cache_inv db s" "\<forall>r \<ge> v. no_key (db r hash)" "v + apiKeyCacheTTL \<le> cs_now s"
    and "map_of (kc_keys (cs_cache s)) hash = Some entry"
  shows "ck_expires entry \<le> cs_now s"
proof -
  have "(hash, entry) \<in> set (kc_keys (cs_cache s))" using assms(4) by (rule map_of_SomeD)
  with assms(1) obtain r where r: "ck_expires entry - apiKeyCacheTTL \<le> r" "db r hash = Inr (ck_key entry)" "key_Enabled (ck_key entry)"
    unfolding cache_inv_def read_since_def by blast
  with assms(2) have "r < v" by (metis leI no_key_def sum.case(2))
  with r(1) assms(3) show ?thesis by linarith
qed

lemma read_no_key:
  assumes "cache_inv db s" "\<forall>r \<ge> v. no_key (db r hash)" "call_at i hash (HasRead p t res) s" "v \<le> t"
  shows "no_key res"
proof (cases res)
  case (Inr key)
  with assms(1,3) obtain r where "t \<le> r" "db r hash = Inr key" unfolding cache_inv_def read_since_def by blast
  with assms(2,4) Inr show ?thesis by (metis order_trans)
qed (simp add: no_key_def)

lemma revoked_step:
  assumes "cache_step db s s'" "revoked_inv s0 v hash s" "cache_inv db s" "flight_inv s" "\<forall>r \<ge> v. no_key (db r hash)"
  shows "revoked_inv s0 v hash s'"
  using assms(1-4)
proof (induction rule: cache_step.induct)
  case (tick s t)
  then show ?case by (auto simp: revoked_inv_def)
next
  case (arrive s i h)
  then show ?case by (auto simp: revoked_inv_def call_at_goto reads_goto split: if_splits)
next
  case (hit i h n s p key c)
  from hit(2) obtain entry where e: "map_of (kc_keys (cs_cache s)) h = Some entry" "cs_now s < ck_expires entry" "c = cs_cache s"
    by (rule get_enter_cases) auto
  have "h \<noteq> hash" using cached_expired [OF hit(4) assms(5)] e hit(3) by (force simp: revoked_inv_def)
  with hit e(3) show ?case by (auto simp: revoked_inv_def call_at_goto reads_goto split: if_splits)
next
  case (join i h n s p q c)
  from join(2) have q: "map_of (kc_inflight (cs_cache s)) h = Some q" by (rule get_enter_cases) auto
  have "\<exists>l. cs_lookups s q = Some l \<and> \<not> lk_done l" using flight_invD(2,3) [OF join(5)] q by blast
  with join show ?case by (auto simp: revoked_inv_def call_at_goto reads_goto split: if_splits)
next
  case (own i h n s p t c)
  have "q \<noteq> p" if "call_at j g (Awaiting m q) s" for j g m q using flight_invD(5) [OF own(7) that] own(2) by auto
  moreover have "v \<le> cs_now s" using own(5) by (auto simp: revoked_inv_def apiKeyCacheTTL_def)
  ultimately show ?case using own by (auto simp: revoked_inv_def call_at_goto reads_goto split: if_splits)
next
  case (read i h p t s res e)
  have "reads i h p t s" using read(1) by (simp add: reads_def)
  with read show ?case by (auto simp: revoked_inv_def call_at_goto reads_goto split: if_splits)
next
  case (finish i h p t res s victim canceled)
  note D = flight_invD [OF finish(5)]
  have ri: "reads i h p t s" using finish(1) by (auto simp: reads_def)
  have res: "no_key res" if "h = hash"
    using read_no_key [OF finish(4) assms(5)] finish(1,3) ri that by (auto simp: revoked_inv_def)
  have "no_key res" if w: "call_at j hash (Awaiting m p) s" for j m
  proof -
    obtain l where "cs_lookups s p = Some l" "\<not> lk_done l" using D(2) [OF ri] by blast
    with D(5) [OF w] D(3) obtain k t' where k: "reads k hash p t' s" by fastforce
    with D(4) [OF k ri] have "k = i" by simp
    with k ri have "h = hash" using reads_unique finish(1) by blast
    then show ?thesis by (rule res)
  qed
  with finish res show ?case by (auto simp: revoked_inv_def call_at_goto reads_goto split: if_splits)
next
  case (wake i h n q s l canceled)
  have "res = lk_result l" if "get_wake n canceled l = Some res" for res
    using that by (auto simp: get_wake_def split: if_splits)
  with wake show ?case by (auto simp: revoked_inv_def call_at_goto reads_goto split: if_splits option.splits)
next
  case (abandon i h n q s e)
  then show ?case by (auto simp: revoked_inv_def call_at_goto reads_goto no_key_def split: if_splits)
qed

text \<open>
  C11: Revocation takes effect. Let a key be disabled or deleted at time \<open>v\<close>, so that from then on
  the table does not answer the hash with an enabled key. In any interleaving of any number of
  requests, a lookup that begins at least the cache's five seconds later, when no table read begun
  before \<open>v\<close> is still under way for the hash, never ends with an enabled key.
\<close>

theorem revocation_takes_effect:
  assumes reach: "cache_steps db (cache_start t0) s"
    and revoked: "\<forall>r \<ge> v. no_key (db r hash)"
    and later: "v + apiKeyCacheTTL \<le> cs_now s" "\<forall>i p t. reads i hash p t s \<longrightarrow> v \<le> t"
    and new: "cs_calls s i = None" "cache_steps db s s'" "call_at i hash (Finished res) s'"
  shows "no_key res"
proof -
  have "revoked_inv s v hash s"
    using later by (auto simp: revoked_inv_def call_at_def)
  with new(2) have "revoked_inv s v hash s' \<and> cache_steps db (cache_start t0) s'"
  proof (induction rule: rtranclp_induct)
    case base
    then show ?case using reach by simp
  next
    case (step s1 s2)
    then have IH: "revoked_inv s v hash s1" "cache_steps db (cache_start t0) s1" by auto
    from revoked_step [OF step.hyps(2) IH(1) cache_reachable(1,2) [OF IH(2)] revoked] IH(2) step.hyps(2)
    show ?case by (auto intro: rtranclp.rtrancl_into_rtrancl)
  qed
  with new(1,3) show ?thesis by (auto simp: revoked_inv_def)
qed

definition sample_key :: APIKey where
  "sample_key = \<lparr>key_ID = 7, key_Namespace = ''acme'', key_TokenHash = ''h'', key_Label = ''ci'', key_Enabled = True,
     key_CreatedAt = 1, key_LastUsedAt = None, key_TailnetLogin = ''''\<rparr>"

text \<open>The sample key is deleted at time 10; one request has cached it before, another arrives later.\<close>

definition sample_table :: "time \<Rightarrow> string \<Rightarrow> APIKey result" where
  "sample_table t hash = (if t < 10 \<and> hash = ''h'' then Inr sample_key else Inl ErrAPIKeyNotFound)"

definition sample_lookup :: "APIKey result \<Rightarrow> apiKeyLookup" where
  "sample_lookup res = \<lparr>lk_done = True, lk_result = res, lk_callerCanceled = False\<rparr>"

definition sample_cached :: cache_system where
  "sample_cached = \<lparr>cs_now = 10 + apiKeyCacheTTL,
     cs_cache = \<lparr>kc_keys = [(''h'', \<lparr>ck_key = sample_key, ck_expires = apiKeyCacheTTL\<rparr>)], kc_inflight = []\<rparr>,
     cs_lookups = [0 \<mapsto> sample_lookup (Inr sample_key)],
     cs_calls = [0 \<mapsto> \<lparr>cl_hash = ''h'', cl_at = Finished (Inr sample_key)\<rparr>]\<rparr>"

definition one_call :: "nat \<Rightarrow> pointer \<Rightarrow> APIKey result \<Rightarrow> cache_system \<Rightarrow> cache_system" where
  "one_call i p res s =
     (let c = snd (get_enter (cs_now s) p ''h'' (cs_cache s)) in
      s\<lparr>cs_cache := get_finish (fst (hd (kc_keys c))) ''h'' (cs_now s) res c,
        cs_lookups := (cs_lookups s)(p \<mapsto> sample_lookup res),
        cs_calls := (cs_calls s)(i \<mapsto> \<lparr>cl_hash = ''h'', cl_at = Finished res\<rparr>)\<rparr>)"

lemma one_call_steps:
  assumes "cs_calls s i = None" "cs_lookups s p = None" "fst (get_enter (cs_now s) p ''h'' (cs_cache s)) = Own"
  shows "cache_steps db s (one_call i p (db (cs_now s) ''h'') s)"
proof -
  let ?res = "db (cs_now s) ''h''"
  obtain c where c: "get_enter (cs_now s) p ''h'' (cs_cache s) = (Own, c)" using assms(3) by (metis prod.collapse)
  let ?s1 = "goto i ''h'' (Entering 0) s"
  let ?s2 = "goto i ''h'' (Reading p (cs_now s)) (?s1\<lparr>cs_now := cs_now s, cs_cache := c,
    cs_lookups := (cs_lookups s)(p \<mapsto> \<lparr>lk_done = False, lk_result = Inl Canceled, lk_callerCanceled = False\<rparr>)\<rparr>)"
  let ?s3 = "goto i ''h'' (HasRead p (cs_now s) ?res) ?s2"
  let ?s4 = "goto i ''h'' (Finished ?res) (?s3\<lparr>cs_cache := get_finish (fst (hd (kc_keys c))) ''h'' (cs_now s) ?res c,
      cs_lookups := (cs_lookups ?s3)(p \<mapsto> sample_lookup ?res)\<rparr>)"
  have st1: "cache_step db s ?s1" by (rule arrive [OF assms(1)])
  have st2: "cache_step db ?s1 ?s2"
    using own [of i "''h''" 0 ?s1 p "cs_now s" c db] assms(2) c by (simp add: call_at_goto)
  have st3: "cache_step db ?s2 ?s3" by (rule read [of i]) (simp_all add: call_at_goto)
  have st4: "cache_step db ?s3 ?s4"
    using finish [of i "''h''" p "cs_now s" ?res ?s3 "fst (hd (kc_keys c))" db False]
    by (cases "kc_keys c") (simp_all add: call_at_goto sample_lookup_def)
  have "cache_steps db s ?s4"
    using st1 st2 st3 st4 converse_rtranclp_into_rtranclp [where r = "cache_step db"]
      rtranclp.rtrancl_refl [where r = "cache_step db"] by blast
  moreover have "?s4 = one_call i p ?res s"
    by (simp add: one_call_def c goto_def Let_def)
  ultimately show ?thesis by (simp only:)
qed

lemmas sample_cache_defs = sample_cached_def sample_table_def sample_lookup_def one_call_def get_enter_def get_finish_def
  cache_start_def newAPIKeyCache_def apiKeyCacheTTL_def apiKeyCacheMaxEntries_def Let_def

lemma sample_cached_reachable: "cache_steps sample_table (cache_start 0) sample_cached"
proof -
  let ?s = "one_call 0 0 (sample_table (cs_now (cache_start 0)) ''h'') (cache_start 0)"
  have "cache_steps sample_table (cache_start 0) ?s"
    by (rule one_call_steps) (simp_all add: sample_cache_defs)
  moreover have "cache_step sample_table ?s (?s\<lparr>cs_now := 10 + apiKeyCacheTTL\<rparr>)"
    by (rule tick) (simp add: sample_cache_defs)
  moreover have "?s\<lparr>cs_now := 10 + apiKeyCacheTTL\<rparr> = sample_cached"
    by (simp add: sample_cache_defs sample_key_def)
  ultimately show ?thesis by (metis rtranclp.rtrancl_into_rtrancl)
qed

theorem revocation_takes_effect_witness:
  "\<exists>s'. cache_steps sample_table sample_cached s' \<and> call_at 1 ''h'' (Finished (Inl ErrAPIKeyNotFound)) s'
     \<and> no_key (Inl ErrAPIKeyNotFound)"
proof (intro exI conjI)
  let ?s' = "one_call 1 1 (sample_table (cs_now sample_cached) ''h'') sample_cached"
  show steps: "cache_steps sample_table sample_cached ?s'"
    by (rule one_call_steps) (simp_all add: sample_cache_defs)
  show fin: "call_at 1 ''h'' (Finished (Inl ErrAPIKeyNotFound)) ?s'"
    by (simp add: sample_cache_defs call_at_def)
  show "no_key (Inl ErrAPIKeyNotFound)"
    by (rule revocation_takes_effect [OF sample_cached_reachable _ _ _ _ steps fin, of 10])
      (auto simp: sample_cached_def sample_table_def no_key_def reads_def call_at_def)
qed

text \<open>
  One read at a time, in a cache that stays small. In any interleaving no two requests read the
  table for the same key hash at once, and the cache never holds more than its 1024 entries, all of
  them enabled keys.
\<close>

theorem key_cache_single_flight:
  assumes "cache_steps db (cache_start t0) s"
  shows "(reads i hash p t s \<and> reads i' hash p' t' s \<longrightarrow> i = i')
    \<and> length (kc_keys (cs_cache s)) \<le> apiKeyCacheMaxEntries
    \<and> ((hash, entry) \<in> set (kc_keys (cs_cache s)) \<longrightarrow> key_Enabled (ck_key entry))"
proof (intro conjI impI)
  note inv = cache_reachable [OF assms]
  show "i = i'" if "reads i hash p t s \<and> reads i' hash p' t' s"
    using flight_invD(4) [OF inv(2), of i hash p t i' hash p' t'] that by simp
  show "length (kc_keys (cs_cache s)) \<le> apiKeyCacheMaxEntries" using inv(3) by (simp add: keys_inv_def)
  show "key_Enabled (ck_key entry)" if "(hash, entry) \<in> set (kc_keys (cs_cache s))"
    using inv(1) that unfolding cache_inv_def by blast
qed

theorem key_cache_single_flight_witness:
  "length (kc_keys (cs_cache sample_cached)) \<le> apiKeyCacheMaxEntries"
  using key_cache_single_flight [OF sample_cached_reachable] by simp

end
