(* ===== verification/Middleware.thy ===== *)
theory Middleware
  imports RateLimit KeyCache GoText
begin

text \<open>
  The HTTP middleware of \<^verbatim>\<open>internal/api/middleware.go\<close> and \<^verbatim>\<open>internal/mcp/auth.go\<close>, and the order in which
  \<^verbatim>\<open>cmd/cronlite/main.go\<close> and \<^verbatim>\<open>internal/mcp/server.go\<close> put it before the router and the MCP transport. A
  middleware answers a request itself or passes it, perhaps changed, to the next handler. The hash of
  a token and what the key lookup answers (\<open>apiKeyCache.get\<close>, or the table itself for MCP) are
  arguments, as are the clocks.
\<close>

record http_request =
  rq_Method :: string
  rq_Path :: string
  rq_Authorization :: string
  rq_Origin :: string
  rq_RemoteAddr :: string
  rq_HasBody :: bool
  rq_BodyLimit :: "int option"
  rq_ctx :: ctx

datatype verdict = Next http_request | Reply int string

section \<open>Body size\<close>

definition maxRequestBodySize :: int where
  "maxRequestBodySize = 1048576"

definition BodySizeLimitMiddleware :: "http_request \<Rightarrow> verdict" where
  "BodySizeLimitMiddleware r = Next (if rq_HasBody r then r\<lparr>rq_BodyLimit := Some maxRequestBodySize\<rparr> else r)"

section \<open>Authentication\<close>

abbreviation bearer :: string where
  "bearer \<equiv> ''Bearer ''"

text \<open>The middleware with one key, from before key tables.\<close>

definition AuthMiddleware :: "string \<Rightarrow> http_request \<Rightarrow> verdict" where
  "AuthMiddleware apiKey r =
     (if apiKey = '''' \<or> rq_Path r = ''/health'' then Next r
      else let auth = rq_Authorization r; token = TrimPrefix auth bearer
           in if auth = token \<or> token \<noteq> apiKey then Reply 401 ''unauthorized'' else Next r)"

text \<open>The identifiers to be flushed, without order, and the second of the last deprecation warning.\<close>

record auth_state =
  au_dirty :: "uuid list"
  au_lastLegacyWarn :: int

definition new_auth_state :: auth_state where
  "new_auth_state = \<lparr>au_dirty = [], au_lastLegacyWarn = 0\<rparr>"

definition markUsed :: "uuid \<Rightarrow> auth_state \<Rightarrow> auth_state" where
  "markUsed i st = st\<lparr>au_dirty := List.insert i (au_dirty st)\<rparr>"

text \<open>\<open>flush\<close> hands the identifiers to \<open>UpdateLastUsedAt\<close>, if there are any.\<close>

definition flush :: "auth_state \<Rightarrow> uuid list option \<times> auth_state" where
  "flush st = (if au_dirty st = [] then (None, st) else (Some (au_dirty st), st\<lparr>au_dirty := []\<rparr>))"

definition warn_legacy :: "int \<Rightarrow> auth_state \<Rightarrow> auth_state" where
  "warn_legacy now st = (if now - au_lastLegacyWarn st \<ge> 60 then st\<lparr>au_lastLegacyWarn := now\<rparr> else st)"

definition MultiKeyAuthMiddleware ::
  "(string \<Rightarrow> string) \<Rightarrow> (string \<Rightarrow> APIKey result) \<Rightarrow> string \<Rightarrow> int \<Rightarrow> http_request \<Rightarrow> auth_state \<Rightarrow> verdict \<times> auth_state" where
  "MultiKeyAuthMiddleware hashToken lookup fallbackKey now r st =
     (if rq_Path r = ''/health'' \<or> HasPrefix (rq_Path r) ''/mcp'' then (Next r, st)
      else if \<not> HasPrefix (rq_Authorization r) bearer then (Reply 401 ''unauthorized'', st)
      else let token = TrimPrefix (rq_Authorization r) bearer;
               legacy = (if fallbackKey \<noteq> '''' \<and> token = fallbackKey
                 then (Next (r\<lparr>rq_ctx := NamespaceToContext (rq_ctx r) ''default''\<rparr>), warn_legacy now st)
                 else (Reply 401 ''unauthorized'', st))
           in case lookup (hashToken token) of
                Inl _ \<Rightarrow> legacy
              | Inr key \<Rightarrow> if key_Enabled key
                  then (Next (r\<lparr>rq_ctx := NamespaceToContext (rq_ctx r) (key_Namespace key)\<rparr>), markUsed (key_ID key) st)
                  else legacy)"

text \<open>
  MCP: the middleware puts the namespace into the context a second time under its own key
  (\<open>mcpContextKey\<close>), where \<open>httpContextFunc\<close> finds it for the tool calls.
\<close>

definition mcp_AuthMiddleware ::
  "(string \<Rightarrow> string) \<Rightarrow> (string \<Rightarrow> APIKey result) \<Rightarrow> string \<Rightarrow> http_request \<Rightarrow> (http_request \<times> Namespace) option" where
  "mcp_AuthMiddleware hashToken lookup fallbackKey r =
     (if \<not> HasPrefix (rq_Authorization r) bearer then None
      else let token = TrimPrefix (rq_Authorization r) bearer;
               grant = (\<lambda>ns. Some (r\<lparr>rq_ctx := NamespaceToContext (rq_ctx r) ns\<rparr>, ns));
               legacy = (if fallbackKey \<noteq> '''' \<and> token = fallbackKey then grant ''default'' else None)
           in case lookup (hashToken token) of
                Inl _ \<Rightarrow> legacy
              | Inr key \<Rightarrow> if key_Enabled key then grant (key_Namespace key) else legacy)"

definition httpContextFunc ::
  "(string \<Rightarrow> string) \<Rightarrow> (string \<Rightarrow> APIKey result) \<Rightarrow> string \<Rightarrow> Namespace option \<Rightarrow> http_request \<Rightarrow> ctx \<Rightarrow> ctx" where
  "httpContextFunc hashToken lookup fallbackKey resolved r c =
     (case resolved of
        Some ns \<Rightarrow> NamespaceToContext c ns
      | None \<Rightarrow>
          if \<not> HasPrefix (rq_Authorization r) bearer then c
          else let token = TrimPrefix (rq_Authorization r) bearer;
                   legacy = (if fallbackKey \<noteq> '''' \<and> token = fallbackKey then NamespaceToContext c ''default'' else c)
               in case lookup (hashToken token) of
                    Inl _ \<Rightarrow> legacy
                  | Inr key \<Rightarrow> if key_Enabled key then NamespaceToContext c (key_Namespace key) else legacy)"

section \<open>Rate limits\<close>

definition extractIP :: "http_request \<Rightarrow> string" where
  "extractIP r = (let ip = rq_RemoteAddr r
     in if CHR '':'' \<in> set ip then rev (tl (dropWhile (\<lambda>c. c \<noteq> CHR '':'') (rev ip))) else ip)"

definition RateLimitMiddleware :: "time \<Rightarrow> http_request \<Rightarrow> ipRateLimiter \<Rightarrow> verdict \<times> ipRateLimiter" where
  "RateLimitMiddleware now r l =
     (if rq_Path r = ''/health'' then (Next r, l)
      else case ip_allow (extractIP r, now) l of
             (False, l') \<Rightarrow> (Reply 429 ''rate limit exceeded'', l')
           | (True, l') \<Rightarrow> (Next r, l'))"

definition NamespaceRateLimitMiddleware :: "time \<Rightarrow> http_request \<Rightarrow> namespaceRateLimiter \<Rightarrow> verdict \<times> namespaceRateLimiter" where
  "NamespaceRateLimitMiddleware now r l =
     (if rq_Path r = ''/health'' \<or> rq_Path r = ''/metrics'' then (Next r, l)
      else let ns = NamespaceFromContext (rq_ctx r)
           in if ns_IsZero ns then (Next r, l)
              else case ns_allow (ns, now) l of
                     (False, l') \<Rightarrow> (Reply 429 ''namespace rate limit exceeded'', l')
                   | (True, l') \<Rightarrow> (Next r, l'))"

section \<open>CORS\<close>

definition cors_headers :: "string \<Rightarrow> (string \<times> string) list" where
  "cors_headers origin = [(''Access-Control-Allow-Origin'', origin),
     (''Access-Control-Allow-Methods'', ''GET, POST, PATCH, DELETE, OPTIONS''),
     (''Access-Control-Allow-Headers'', ''Authorization, Content-Type''),
     (''Access-Control-Max-Age'', ''86400''), (''Vary'', ''Origin'')]"

definition CORSMiddleware :: "unicode \<Rightarrow> string \<Rightarrow> http_request \<Rightarrow> (string \<times> string) list \<times> verdict" where
  "CORSMiddleware u allowedOrigins r =
     (if allowedOrigins = '''' \<or> rq_Origin r = '''' then ([], Next r)
      else let origins = map (TrimSpace u) (split_on CHR '','' allowedOrigins); allowAll = (''*'' \<in> set origins);
               headers = (if allowAll \<or> rq_Origin r \<in> set origins then cors_headers (rq_Origin r) else [])
           in if rq_Method r = ''OPTIONS'' then (headers, Reply 204 '''') else (headers, Next r))"

section \<open>The chains\<close>

text \<open>Before the router: CORS, the limit per address, authentication, the limit per namespace, the size of bodies.\<close>

record gateway =
  gw_ip :: ipRateLimiter
  gw_auth :: auth_state
  gw_ns :: namespaceRateLimiter

definition root_chain ::
  "unicode \<Rightarrow> string \<Rightarrow> (string \<Rightarrow> string) \<Rightarrow> (string \<Rightarrow> APIKey result) \<Rightarrow> string \<Rightarrow> time \<Rightarrow> int \<Rightarrow> time
   \<Rightarrow> http_request \<Rightarrow> gateway \<Rightarrow> ((string \<times> string) list \<times> verdict) \<times> gateway" where
  "root_chain u origins hashToken lookup fallbackKey t1 t2 t3 r gw =
     (case CORSMiddleware u origins r of
        (hs, Reply st m) \<Rightarrow> ((hs, Reply st m), gw)
      | (hs, Next r) \<Rightarrow> (case RateLimitMiddleware t1 r (gw_ip gw) of
          (Reply st m, l) \<Rightarrow> ((hs, Reply st m), gw\<lparr>gw_ip := l\<rparr>)
        | (Next r, l) \<Rightarrow> (let gw = gw\<lparr>gw_ip := l\<rparr> in case MultiKeyAuthMiddleware hashToken lookup fallbackKey t2 r (gw_auth gw) of
            (Reply st m, a) \<Rightarrow> ((hs, Reply st m), gw\<lparr>gw_auth := a\<rparr>)
          | (Next r, a) \<Rightarrow> (let gw = gw\<lparr>gw_auth := a\<rparr> in case NamespaceRateLimitMiddleware t3 r (gw_ns gw) of
              (Reply st m, l) \<Rightarrow> ((hs, Reply st m), gw\<lparr>gw_ns := l\<rparr>)
            | (Next r, l) \<Rightarrow> ((hs, BodySizeLimitMiddleware r), gw\<lparr>gw_ns := l\<rparr>)))))"

text \<open>Before the MCP transport: the limit per address, authentication, the limit per namespace, the size of
  bodies; then the context of the tool calls.\<close>

definition mcp_chain ::
  "(string \<Rightarrow> string) \<Rightarrow> (string \<Rightarrow> APIKey result) \<Rightarrow> (string \<Rightarrow> APIKey result) \<Rightarrow> string \<Rightarrow> time \<Rightarrow> time
   \<Rightarrow> http_request \<Rightarrow> ipRateLimiter \<Rightarrow> namespaceRateLimiter \<Rightarrow> verdict \<times> ipRateLimiter \<times> namespaceRateLimiter" where
  "mcp_chain hashToken lookup lookup2 fallbackKey t1 t2 r li lns =
     (case RateLimitMiddleware t1 r li of
        (Reply st m, li) \<Rightarrow> (Reply st m, li, lns)
      | (Next r, li) \<Rightarrow> (case mcp_AuthMiddleware hashToken lookup fallbackKey r of
          None \<Rightarrow> (Reply 401 ''unauthorized'', li, lns)
        | Some (r, ns) \<Rightarrow> (case NamespaceRateLimitMiddleware t2 r lns of
            (Reply st m, lns) \<Rightarrow> (Reply st m, li, lns)
          | (Next r, lns) \<Rightarrow> (case BodySizeLimitMiddleware r of
              Reply st m \<Rightarrow> (Reply st m, li, lns)
            | Next r \<Rightarrow> (Next (r\<lparr>rq_ctx := httpContextFunc hashToken lookup2 fallbackKey (Some ns) r (rq_ctx r)\<rparr>), li, lns)))))"

section \<open>Who gets through\<close>

text \<open>A token and the namespace it stands for.\<close>

definition grants :: "(string \<Rightarrow> string) \<Rightarrow> (string \<Rightarrow> APIKey result) \<Rightarrow> string \<Rightarrow> string \<Rightarrow> Namespace \<Rightarrow> bool" where
  "grants hashToken lookup fallbackKey token ns \<longleftrightarrow>
     (\<exists>key. lookup (hashToken token) = Inr key \<and> key_Enabled key \<and> ns = key_Namespace key)
     \<or> (\<forall>key. lookup (hashToken token) = Inr key \<longrightarrow> \<not> key_Enabled key) \<and> fallbackKey \<noteq> '''' \<and> token = fallbackKey \<and> ns = ''default''"

definition exempt :: "string \<Rightarrow> bool" where
  "exempt path \<longleftrightarrow> path = ''/health'' \<or> HasPrefix path ''/mcp''"

definition token_namespace :: "(string \<Rightarrow> string) \<Rightarrow> (string \<Rightarrow> APIKey result) \<Rightarrow> string \<Rightarrow> string \<Rightarrow> Namespace option" where
  "token_namespace hashToken lookup fallbackKey token =
     (let legacy = (if fallbackKey \<noteq> [] \<and> token = fallbackKey then Some ''default'' else None)
      in case lookup (hashToken token) of Inl _ \<Rightarrow> legacy
         | Inr key \<Rightarrow> if key_Enabled key then Some (key_Namespace key) else legacy)"

lemma grants_iff: "grants hashToken lookup fallbackKey token ns \<longleftrightarrow> token_namespace hashToken lookup fallbackKey token = Some ns"
  by (cases "lookup (hashToken token)") (auto simp: grants_def token_namespace_def)

lemma TrimPrefix_bearer [simp]: "TrimPrefix (CHR ''B'' # CHR ''e'' # CHR ''a'' # CHR ''r'' # CHR ''e'' # CHR ''r'' # CHR '' '' # t) bearer = t"
  "HasPrefix (CHR ''B'' # CHR ''e'' # CHR ''a'' # CHR ''r'' # CHR ''e'' # CHR ''r'' # CHR '' '' # t) bearer"
  by (simp_all add: TrimPrefix_def HasPrefix_def)

lemma MultiKeyAuth_iff:
  "fst (MultiKeyAuthMiddleware hashToken lookup fallbackKey now r st) = Next r' \<longleftrightarrow>
     exempt (rq_Path r) \<and> r' = r
     \<or> \<not> exempt (rq_Path r) \<and> (\<exists>token ns. rq_Authorization r = bearer @ token \<and> grants hashToken lookup fallbackKey token ns
         \<and> r' = r\<lparr>rq_ctx := Some ns\<rparr>)"
proof (cases "HasPrefix (rq_Authorization r) bearer")
  case True
  then obtain token where t: "rq_Authorization r = bearer @ token" by (auto simp: HasPrefix_iff)
  have only: "(\<exists>token' ns. rq_Authorization r = bearer @ token' \<and> P token' ns) \<longleftrightarrow> (\<exists>ns. P token ns)" for P
    by (simp add: t)
  show ?thesis
    unfolding only grants_iff
    by (simp add: MultiKeyAuthMiddleware_def exempt_def t Let_def token_namespace_def NamespaceToContext_def
        split: sum.split) auto
next
  case False
  then show ?thesis by (auto simp: MultiKeyAuthMiddleware_def exempt_def HasPrefix_iff)
qed

lemma MultiKeyAuth_reply:
  "fst (MultiKeyAuthMiddleware hashToken lookup fallbackKey now r st) = Reply c m \<Longrightarrow> c = 401"
  by (auto simp: MultiKeyAuthMiddleware_def Let_def split: sum.splits if_splits)

lemma CORS_Next: "CORSMiddleware u origins r = (hs, Next r') \<Longrightarrow> r' = r"
  by (auto simp: CORSMiddleware_def Let_def split: if_splits)

lemma RateLimit_Next: "RateLimitMiddleware now r l = (Next r', l') \<Longrightarrow> r' = r"
  by (auto simp: RateLimitMiddleware_def split: if_splits prod.splits bool.splits)

lemma NamespaceRateLimit_Next: "NamespaceRateLimitMiddleware now r l = (Next r', l') \<Longrightarrow> r' = r"
  by (auto simp: NamespaceRateLimitMiddleware_def Let_def split: if_splits prod.splits bool.splits)

lemma BodySize_Next: "BodySizeLimitMiddleware r = Next r' \<Longrightarrow> rq_ctx r' = rq_ctx r \<and> rq_Path r' = rq_Path r"
  by (auto simp: BodySizeLimitMiddleware_def split: if_splits)

lemmas chain_Next = CORS_Next RateLimit_Next NamespaceRateLimit_Next

lemma root_chain_Next:
  assumes "root_chain u origins hashToken lookup fallbackKey t1 t2 t3 r gw = ((hs, Next r'), gw')"
  obtains r1 a where "MultiKeyAuthMiddleware hashToken lookup fallbackKey t2 r (gw_auth gw) = (Next r1, a)"
    "BodySizeLimitMiddleware r1 = Next r'"
  using assms by (auto simp: root_chain_def Let_def split: prod.splits verdict.splits dest!: chain_Next)

lemma RateLimit_Reply: "RateLimitMiddleware now r l = (Reply c m, l') \<Longrightarrow> c = 429"
  by (auto simp: RateLimitMiddleware_def split: if_splits prod.splits bool.splits)

lemma NamespaceRateLimit_Reply: "NamespaceRateLimitMiddleware now r l = (Reply c m, l') \<Longrightarrow> c = 429"
  by (auto simp: NamespaceRateLimitMiddleware_def Let_def split: if_splits prod.splits bool.splits)

lemma CORS_Reply: "CORSMiddleware u origins r = (hs, Reply c m) \<Longrightarrow> c = 204"
  by (auto simp: CORSMiddleware_def Let_def split: if_splits)

lemma root_chain_401:
  assumes "root_chain u origins hashToken lookup fallbackKey t1 t2 t3 r gw = ((hs, Reply 401 m), gw')"
  shows "\<exists>a. MultiKeyAuthMiddleware hashToken lookup fallbackKey t2 r (gw_auth gw) = (Reply 401 m, a)"
  using assms
  by (auto simp: root_chain_def Let_def BodySizeLimitMiddleware_def split: prod.splits verdict.splits if_splits
      dest!: CORS_Next RateLimit_Next RateLimit_Reply NamespaceRateLimit_Reply CORS_Reply)

lemma mcp_Auth_iff:
  "mcp_AuthMiddleware hashToken lookup fallbackKey r = Some (r', ns) \<longleftrightarrow>
     (\<exists>token. rq_Authorization r = bearer @ token \<and> grants hashToken lookup fallbackKey token ns \<and> r' = r\<lparr>rq_ctx := Some ns\<rparr>)"
proof (cases "HasPrefix (rq_Authorization r) bearer")
  case True
  then obtain token where t: "rq_Authorization r = bearer @ token" by (auto simp: HasPrefix_iff)
  show ?thesis
    unfolding grants_iff
    by (simp add: mcp_AuthMiddleware_def t Let_def token_namespace_def NamespaceToContext_def split: sum.split) auto
next
  case False
  then show ?thesis by (auto simp: mcp_AuthMiddleware_def HasPrefix_iff)
qed

lemma mcp_chain_Next:
  assumes "mcp_chain hashToken lookup lookup2 fallbackKey t1 t2 r li lns = (Next r', li', lns')"
  obtains r1 ns where "mcp_AuthMiddleware hashToken lookup fallbackKey r = Some (r1, ns)" "rq_ctx r' = Some ns"
  using assms
  by (auto simp: mcp_chain_def httpContextFunc_def NamespaceToContext_def split: prod.splits verdict.splits option.splits
      dest!: RateLimit_Next NamespaceRateLimit_Next)

text \<open>
  C12: Requests are authenticated. A request reaches the API's router either on an exempt path and
  without a namespace, or with a bearer token, in the namespace of the enabled key the token is
  looked up as, or in the default namespace if there is no such key and the token is the configured
  legacy key. A request that carries such a token is never answered with 401, and a request reaches
  the MCP transport only with such a token, in its namespace.
\<close>

theorem requests_authenticated:
  assumes "rq_ctx r = None"
  shows "(root_chain u origins hashToken lookup fallbackKey t1 t2 t3 r gw = ((hs, Next r'), gw')
      \<longrightarrow> exempt (rq_Path r) \<and> rq_ctx r' = None
        \<or> (\<exists>token ns. rq_Authorization r = bearer @ token \<and> grants hashToken lookup fallbackKey token ns \<and> rq_ctx r' = Some ns))
    \<and> (root_chain u origins hashToken lookup fallbackKey t1 t2 t3 r gw = ((hs, Reply 401 m), gw')
      \<longrightarrow> \<not> exempt (rq_Path r) \<and> \<not> (\<exists>token ns. rq_Authorization r = bearer @ token \<and> grants hashToken lookup fallbackKey token ns))
    \<and> (mcp_chain hashToken lookup lookup2 fallbackKey t1 t3 r li lns = (Next r', li', lns')
      \<longrightarrow> (\<exists>token ns. rq_Authorization r = bearer @ token \<and> grants hashToken lookup fallbackKey token ns \<and> rq_ctx r' = Some ns))"
proof (intro conjI impI)
  assume "root_chain u origins hashToken lookup fallbackKey t1 t2 t3 r gw = ((hs, Next r'), gw')"
  then obtain r1 a where a: "MultiKeyAuthMiddleware hashToken lookup fallbackKey t2 r (gw_auth gw) = (Next r1, a)"
    "BodySizeLimitMiddleware r1 = Next r'" by (rule root_chain_Next)
  then show "exempt (rq_Path r) \<and> rq_ctx r' = None
        \<or> (\<exists>token ns. rq_Authorization r = bearer @ token \<and> grants hashToken lookup fallbackKey token ns \<and> rq_ctx r' = Some ns)"
    using MultiKeyAuth_iff [of hashToken lookup fallbackKey t2 r "gw_auth gw" r1] BodySize_Next [OF a(2)] assms by auto
next
  assume "root_chain u origins hashToken lookup fallbackKey t1 t2 t3 r gw = ((hs, Reply 401 m), gw')"
  from root_chain_401 [OF this] MultiKeyAuth_iff [of hashToken lookup fallbackKey t2 r "gw_auth gw"]
  show "\<not> exempt (rq_Path r)" "\<not> (\<exists>token ns. rq_Authorization r = bearer @ token \<and> grants hashToken lookup fallbackKey token ns)"
    by (metis fst_conv verdict.distinct(1))+
next
  assume "mcp_chain hashToken lookup lookup2 fallbackKey t1 t3 r li lns = (Next r', li', lns')"
  then show "\<exists>token ns. rq_Authorization r = bearer @ token \<and> grants hashToken lookup fallbackKey token ns \<and> rq_ctx r' = Some ns"
    by (rule mcp_chain_Next) (auto simp: mcp_Auth_iff)
qed

definition sample_request :: http_request where
  "sample_request = \<lparr>rq_Method = ''GET'', rq_Path = ''/jobs'', rq_Authorization = ''Bearer t'', rq_Origin = '''',
     rq_RemoteAddr = ''10.0.0.1:5000'', rq_HasBody = False, rq_BodyLimit = None, rq_ctx = None\<rparr>"

definition sample_gateway :: gateway where
  "sample_gateway = \<lparr>gw_ip = newIPRateLimiter 10 0, gw_auth = new_auth_state, gw_ns = newNamespaceRateLimiter 100\<rparr>"

definition sample_answer :: "(string \<times> string) list \<times> verdict" where
  "sample_answer = fst (root_chain \<lparr>uc_lower = (\<lambda>s. s), uc_trim = (\<lambda>s. s)\<rparr> '''' (\<lambda>t. t)
     (\<lambda>h. if h = ''t'' then Inr sample_key else Inl ErrAPIKeyNotFound) '''' 5 5 5 sample_request sample_gateway)"

theorem requests_authenticated_witness:
  "\<exists>hs r'. sample_answer = (hs, Next r') \<and> (\<exists>token ns. rq_Authorization sample_request = bearer @ token
     \<and> grants (\<lambda>t. t) (\<lambda>h. if h = ''t'' then Inr sample_key else Inl ErrAPIKeyNotFound) '''' token ns \<and> rq_ctx r' = Some ns)"
proof -
  have r: "sample_answer = ([], Next (sample_request\<lparr>rq_ctx := Some ''acme''\<rparr>))" by code_simp
  have "rq_ctx sample_request = None" "\<not> exempt (rq_Path sample_request)" by code_simp+
  from requests_authenticated [OF this(1)] this(2) r show ?thesis
    unfolding sample_answer_def by (metis prod.collapse)
qed

end
