(* ===== verification/Api.thy ===== *)
theory Api
  imports Tenancy Middleware
begin

text \<open>
  The handlers of the REST API: \<^verbatim>\<open>internal/api/handler_v2.go\<close> with the mapping of errors of \<^verbatim>\<open>errors.go\<close>. A
  handler turns a decoded request into a call of the job service and the result into a status and a
  body; an error it has no response for is raised to the generated server, which answers 500. The
  decoding of requests and the encoding of bodies are the generated code's. A tag map is an
  association list with distinct keys, in the order the map's iteration yields.
\<close>

section \<open>Requests and bodies\<close>

type_synonym api_tags = "(string \<times> string) list"

record CreateJobRequest =
  cj_Name :: string
  cj_CronExpression :: string
  cj_Timezone :: string
  cj_WebhookUrl :: string
  cj_WebhookSecret :: "string option"
  cj_WebhookTimeoutSeconds :: "int option"
  cj_Tags :: "api_tags option"

record UpdateJobRequest =
  uj_Name :: "string option"
  uj_CronExpression :: "string option"
  uj_Timezone :: "string option"
  uj_WebhookUrl :: "string option"
  uj_WebhookSecret :: "string option"
  uj_WebhookTimeoutSeconds :: "int option"
  uj_Tags :: "api_tags option"
  uj_Enabled :: "bool option"

record ListJobsParams =
  lj_Limit :: "int option"
  lj_Offset :: "int option"
  lj_Tag :: "string list option"
  lj_Enabled :: "bool option"
  lj_Name :: "string option"

record ListExecutionsParams =
  le_Limit :: "int option"
  le_Offset :: "int option"
  le_Status :: "string option"
  le_TriggerType :: "string option"
  le_Since :: "time option"
  le_Until :: "time option"

record api_Job =
  aj_Id :: uuid
  aj_Namespace :: string
  aj_Name :: string
  aj_Enabled :: bool
  aj_CronExpression :: string
  aj_Timezone :: string
  aj_WebhookUrl :: string
  aj_CreatedAt :: time
  aj_UpdatedAt :: time

record api_Execution =
  ae_Id :: uuid
  ae_JobId :: uuid
  ae_Status :: string
  ae_TriggerType :: string
  ae_ScheduledAt :: time
  ae_FiredAt :: time
  ae_AcknowledgedAt :: "time option"
  ae_CreatedAt :: time

record JobDetail = api_Job +
  jd_Tags :: "api_tags option"
  jd_RecentExecutions :: "api_Execution list option"

record APIKeyInfo =
  ki_Id :: uuid
  ki_Namespace :: string
  ki_Label :: string
  ki_Enabled :: bool
  ki_CreatedAt :: time
  ki_LastUsedAt :: "time option"

record CreateAPIKeyResponse =
  kr_Id :: uuid
  kr_Namespace :: string
  kr_Label :: string
  kr_Token :: string
  kr_CreatedAt :: time

record HealthResponse =
  hr_Status :: string
  hr_Database :: "string option"
  hr_Tailnet :: "string option"

datatype body =
    BHealth HealthResponse
  | BDetail JobDetail
  | BJob api_Job
  | BJobs "api_Job list"
  | BExecution api_Execution
  | BExecutions "api_Execution list"
  | BNextRun string string time "time list"
  | BResolved ResolveResult
  | BKey CreateAPIKeyResponse
  | BKeys "APIKeyInfo list"
  | BError string string
  | BText string
  | BEmpty

type_synonym response = "int \<times> body"

section \<open>Errors\<close>

record httpError =
  he_Status :: int
  he_Code :: string
  he_Message :: string

definition mapDomainError :: "err \<Rightarrow> httpError" where
  "mapDomainError er =
     (let he = (\<lambda>st code. \<lparr>he_Status = st, he_Code = code, he_Message = error_string er\<rparr>)
      in if errors_Is er ErrJobNotFound \<or> errors_Is er ErrNamespaceMismatch then he 404 ''job_not_found''
         else if errors_Is er ErrExecutionNotFound then he 404 ''execution_not_found''
         else if errors_Is er ErrAPIKeyNotFound then he 404 ''api_key_not_found''
         else if errors_Is er ErrInvalidCronExpression then he 422 ''invalid_cron''
         else if errors_Is er ErrInvalidTimezone then he 422 ''invalid_timezone''
         else if errors_Is er ErrInvalidWebhookURL then he 422 ''invalid_webhook_url''
         else if errors_Is er ErrWebhookHostNotAllowed then he 422 ''webhook_host_not_allowed''
         else if errors_Is er ErrScheduleParseFailure then he 422 ''schedule_parse_failure''
         else if errors_Is er ErrJobDisabled then he 409 ''job_disabled''
         else if errors_Is er ErrDuplicateExecution then he 409 ''duplicate_execution''
         else if errors_Is er ErrNamespaceRequired then he 401 ''unauthorized''
         else \<lparr>he_Status = 500, he_Code = ''internal_error'', he_Message = ''internal server error''\<rparr>)"

definition newErrorResponse :: "httpError \<Rightarrow> body" where
  "newErrorResponse he = BError (he_Code he) (he_Message he)"

text \<open>The generated server's answer to an error a handler raises (\<open>ResponseErrorHandlerFunc\<close> of \<open>NewStrictHandler\<close>).\<close>

definition raised :: "err \<Rightarrow> response" where
  "raised er = (500, BText (error_string er))"

text \<open>
  The shape the handlers share: the result of the service becomes the success response, an error whose
  status is among the given ones becomes its response, any other error is raised.
\<close>

definition respond :: "int list \<Rightarrow> 'a stmt \<Rightarrow> ('a \<Rightarrow> response) \<Rightarrow> db \<Rightarrow> response \<times> db" where
  "respond statuses p ok db =
     (case p db of
        (Inr x, db') \<Rightarrow> (ok x, db')
      | (Inl er, db') \<Rightarrow>
          (let he = mapDomainError er
           in if he_Status he \<in> set statuses then ((he_Status he, newErrorResponse he), db') else (raised er, db')))"

section \<open>Conversions\<close>

definition apiTagsToDomain :: "api_tags option \<Rightarrow> Tag list" where
  "apiTagsToDomain t = (case t of None \<Rightarrow> [] | Some m \<Rightarrow> map (\<lambda>(k, v). \<lparr>tag_Key = k, tag_Value = v\<rparr>) m)"

definition domainTagsToAPI :: "Tag list \<Rightarrow> api_tags option" where
  "domainTagsToAPI tags = (if tags = [] then None
     else Some (foldl (\<lambda>m tag. AList.update (tag_Key tag) (tag_Value tag) m) [] tags))"

definition domainJobToAPI :: "Job \<Rightarrow> string \<Rightarrow> string \<Rightarrow> api_Job" where
  "domainJobToAPI j cronExpr tz = \<lparr>aj_Id = job_ID j, aj_Namespace = job_Namespace j, aj_Name = job_Name j, aj_Enabled = job_Enabled j,
     aj_CronExpression = cronExpr, aj_Timezone = tz, aj_WebhookUrl = dc_WebhookURL (job_Delivery j),
     aj_CreatedAt = job_CreatedAt j, aj_UpdatedAt = job_UpdatedAt j\<rparr>"

definition job_detail :: "Job \<Rightarrow> Schedule \<Rightarrow> api_tags option \<Rightarrow> api_Execution list option \<Rightarrow> JobDetail" where
  "job_detail j s tags execs = api_Job.extend (domainJobToAPI j (sch_CronExpression s) (sch_Timezone s))
     (JobDetail.fields tags execs)"

fun trigger_string :: "TriggerType \<Rightarrow> string" where
  "trigger_string Scheduled = ''scheduled''"
| "trigger_string Manual = ''manual''"
| "trigger_string (OtherTrigger s) = s"

definition trigger_of_string :: "string \<Rightarrow> TriggerType" where
  "trigger_of_string s = (if s = ''scheduled'' then Scheduled else if s = ''manual'' then Manual else OtherTrigger s)"

definition domainExecutionToAPI :: "Execution \<Rightarrow> api_Execution" where
  "domainExecutionToAPI e = \<lparr>ae_Id = ex_ID e, ae_JobId = ex_JobID e, ae_Status = status_string (ex_Status e),
     ae_TriggerType = trigger_string (ex_TriggerType e), ae_ScheduledAt = ex_ScheduledAt e, ae_FiredAt = ex_FiredAt e,
     ae_AcknowledgedAt = ex_AcknowledgedAt e, ae_CreatedAt = ex_CreatedAt e\<rparr>"

definition domainExecutionsToAPI :: "Execution list \<Rightarrow> api_Execution list" where
  "domainExecutionsToAPI execs = map domainExecutionToAPI execs"

definition listParamsFromQuery :: "int option \<Rightarrow> int option \<Rightarrow> ListParams" where
  "listParamsFromQuery limit offset = \<lparr>lp_Limit = (case limit of None \<Rightarrow> 0 | Some n \<Rightarrow> n),
     lp_Offset = (case offset of None \<Rightarrow> 0 | Some n \<Rightarrow> n)\<rparr>"

definition invalid_timeout :: response where
  "invalid_timeout = (422, newErrorResponse \<lparr>he_Status = 0, he_Code = ''invalid_webhook_timeout'',
     he_Message = ''webhook_timeout_seconds must be between 1 and 60''\<rparr>)"

section \<open>Jobs\<close>

definition api_CreateJob :: "svc_env \<Rightarrow> ctx \<Rightarrow> CreateJobRequest \<Rightarrow> db \<Rightarrow> response \<times> db" where
  "api_CreateJob e c body db =
     (let bad = (case cj_WebhookTimeoutSeconds body of None \<Rightarrow> False | Some n \<Rightarrow> n < 1 \<or> n > 60);
          input = \<lparr>ci_Name = cj_Name body, ci_CronExpression = cj_CronExpression body, ci_Timezone = cj_Timezone body,
            ci_WebhookURL = cj_WebhookUrl body, ci_Secret = (case cj_WebhookSecret body of None \<Rightarrow> '''' | Some s \<Rightarrow> s),
            ci_Timeout = (case cj_WebhookTimeoutSeconds body of None \<Rightarrow> 0 | Some n \<Rightarrow> n * Second),
            ci_Tags = apiTagsToDomain (cj_Tags body)\<rparr>
      in if bad then (invalid_timeout, db)
         else respond [422] (CreateJob_svc e c input)
                (\<lambda>(job, sch). (201, BDetail (job_detail job sch (domainTagsToAPI (ci_Tags input)) None))) db)"

definition tag_filters :: "string list option \<Rightarrow> Tag list" where
  "tag_filters ts = (case ts of None \<Rightarrow> []
     | Some ts \<Rightarrow> concat (map (\<lambda>t. case Cut (CHR '':'') t of (k, v, found) \<Rightarrow> if found then [\<lparr>tag_Key = k, tag_Value = v\<rparr>] else []) ts))"

definition api_ListJobs :: "svc_env \<Rightarrow> ctx \<Rightarrow> ListJobsParams \<Rightarrow> db \<Rightarrow> response \<times> db" where
  "api_ListJobs e c p =
     respond [] (ListJobsWithSchedules_svc e c \<lparr>jf_Namespace = '''', jf_Tags = tag_filters (lj_Tag p), jf_Enabled = lj_Enabled p,
         jf_Name = (case lj_Name p of None \<Rightarrow> '''' | Some n \<Rightarrow> n), jf_ListParams = listParamsFromQuery (lj_Limit p) (lj_Offset p)\<rparr>)
       (\<lambda>jobs. (200, BJobs (map (\<lambda>(j, s). domainJobToAPI j (sch_CronExpression s) (sch_Timezone s)) jobs)))"

definition api_GetJob :: "svc_env \<Rightarrow> ctx \<Rightarrow> uuid \<Rightarrow> db \<Rightarrow> response \<times> db" where
  "api_GetJob e c i = respond [404] (GetJob_svc e c i)
     (\<lambda>((job, sch), tags, execs). (200, BDetail (job_detail job sch (domainTagsToAPI tags) (Some (domainExecutionsToAPI execs)))))"

definition api_UpdateJob :: "svc_env \<Rightarrow> ctx \<Rightarrow> uuid \<Rightarrow> UpdateJobRequest \<Rightarrow> db \<Rightarrow> response \<times> db" where
  "api_UpdateJob e c i body db =
     (let bad = (case uj_WebhookTimeoutSeconds body of None \<Rightarrow> False | Some n \<Rightarrow> n < 1 \<or> n > 60);
          input = \<lparr>ui_Name = uj_Name body, ui_CronExpression = uj_CronExpression body, ui_Timezone = uj_Timezone body,
            ui_WebhookURL = uj_WebhookUrl body, ui_Secret = uj_WebhookSecret body,
            ui_Timeout = map_option (\<lambda>n. n * Second) (uj_WebhookTimeoutSeconds body),
            ui_Tags = map_option (\<lambda>t. apiTagsToDomain (Some t)) (uj_Tags body)\<rparr>
      in if bad then (invalid_timeout, db)
         else respond [404, 422] (UpdateJob_svc e c i input) (\<lambda>(job, sch). (200, BDetail (job_detail job sch None None))) db)"

definition api_DeleteJob :: "svc_env \<Rightarrow> ctx \<Rightarrow> uuid \<Rightarrow> db \<Rightarrow> response \<times> db" where
  "api_DeleteJob e c i = respond [404] (DeleteJob_svc e c i) (\<lambda>_. (204, BEmpty))"

definition api_PauseJob :: "svc_env \<Rightarrow> ctx \<Rightarrow> uuid \<Rightarrow> db \<Rightarrow> response \<times> db" where
  "api_PauseJob e c i = respond [404] (PauseJob e c i) (\<lambda>job. (200, BJob (domainJobToAPI job '''' '''')))"

definition api_ResumeJob :: "svc_env \<Rightarrow> ctx \<Rightarrow> uuid \<Rightarrow> db \<Rightarrow> response \<times> db" where
  "api_ResumeJob e c i = respond [404] (ResumeJob e c i) (\<lambda>job. (200, BJob (domainJobToAPI job '''' '''')))"

definition api_TriggerJob :: "svc_env \<Rightarrow> ctx \<Rightarrow> uuid \<Rightarrow> db \<Rightarrow> response \<times> db" where
  "api_TriggerJob e c i = respond [404, 409] (TriggerNow e c i) (\<lambda>(exec, ev). (201, BExecution (domainExecutionToAPI exec)))"

definition api_GetNextRun :: "svc_env \<Rightarrow> ctx \<Rightarrow> uuid \<Rightarrow> db \<Rightarrow> response \<times> db" where
  "api_GetNextRun e c i = respond [404, 409] (GetNextRunTime e c i)
     (\<lambda>(nextRun, runs, sch). (200, BNextRun (sch_CronExpression sch) (sch_Timezone sch) nextRun runs))"

definition api_ResolveSchedule :: "svc_env \<Rightarrow> string \<Rightarrow> string option \<Rightarrow> db \<Rightarrow> response \<times> db" where
  "api_ResolveSchedule e description timezone =
     respond [422] (\<lambda>db. (ResolveSchedule e description (case timezone of None \<Rightarrow> ''UTC'' | Some tz \<Rightarrow> tz), db))
       (\<lambda>result. (200, BResolved result))"

section \<open>Executions and keys\<close>

definition api_ListExecutions :: "svc_env \<Rightarrow> ctx \<Rightarrow> uuid \<Rightarrow> ListExecutionsParams \<Rightarrow> db \<Rightarrow> response \<times> db" where
  "api_ListExecutions e c i p =
     respond [] (ListExecutions_svc e c \<lparr>ef_JobID = i, ef_Namespace = '''', ef_Status = map_option status_of_string (le_Status p),
         ef_TriggerType = map_option trigger_of_string (le_TriggerType p), ef_Since = le_Since p, ef_Until = le_Until p,
         ef_ListParams = listParamsFromQuery (le_Limit p) (le_Offset p)\<rparr>)
       (\<lambda>execs. (200, BExecutions (domainExecutionsToAPI execs)))"

definition api_GetExecution :: "svc_env \<Rightarrow> ctx \<Rightarrow> uuid \<Rightarrow> db \<Rightarrow> response \<times> db" where
  "api_GetExecution e c i = respond [404] (GetExecutionStatus e c i) (\<lambda>exec. (200, BExecution (domainExecutionToAPI exec)))"

definition api_ListPendingAck :: "svc_env \<Rightarrow> ctx \<Rightarrow> uuid option \<Rightarrow> int option \<Rightarrow> db \<Rightarrow> response \<times> db" where
  "api_ListPendingAck e c jobID limit =
     respond [] (ListPendingAck_svc e c jobID (case limit of None \<Rightarrow> 0 | Some n \<Rightarrow> n))
       (\<lambda>execs. (200, BExecutions (domainExecutionsToAPI execs)))"

definition api_AckExecution :: "svc_env \<Rightarrow> ctx \<Rightarrow> uuid \<Rightarrow> db \<Rightarrow> response \<times> db" where
  "api_AckExecution e c i = respond [404] (AckExecution_svc e c i) (\<lambda>_. (204, BEmpty))"

definition api_CreateAPIKey :: "svc_env \<Rightarrow> ctx \<Rightarrow> string \<Rightarrow> db \<Rightarrow> response \<times> db" where
  "api_CreateAPIKey e c label =
     respond [] (CreateAPIKey e c label)
       (\<lambda>result. (201, BKey \<lparr>kr_Id = key_ID (ck_Key result), kr_Namespace = key_Namespace (ck_Key result),
          kr_Label = key_Label (ck_Key result), kr_Token = ck_PlaintextToken result, kr_CreatedAt = key_CreatedAt (ck_Key result)\<rparr>))"

definition api_ListAPIKeys :: "svc_env \<Rightarrow> ctx \<Rightarrow> int option \<Rightarrow> int option \<Rightarrow> db \<Rightarrow> response \<times> db" where
  "api_ListAPIKeys e c limit offset =
     respond [] (ListAPIKeys e c (listParamsFromQuery limit offset))
       (\<lambda>keys. (200, BKeys (map (\<lambda>k. \<lparr>ki_Id = key_ID k, ki_Namespace = key_Namespace k, ki_Label = key_Label k,
          ki_Enabled = key_Enabled k, ki_CreatedAt = key_CreatedAt k, ki_LastUsedAt = key_LastUsedAt k\<rparr>) keys)))"

definition api_DeleteAPIKey :: "svc_env \<Rightarrow> ctx \<Rightarrow> uuid \<Rightarrow> db \<Rightarrow> response \<times> db" where
  "api_DeleteAPIKey e c i = respond [404] (DeleteAPIKey e c i) (\<lambda>_. (204, BEmpty))"

section \<open>Health\<close>

text \<open>The checkers may be missing; they answer whether the ping failed and whether the node runs.\<close>

definition api_GetHealth :: "bool option \<Rightarrow> (unit result) option \<Rightarrow> bool option \<Rightarrow> response" where
  "api_GetHealth verbose database tailnet =
     (case (verbose, database) of
        (Some True, Some ping) \<Rightarrow>
          (let resp = \<lparr>hr_Status = ''ok'', hr_Database = None,
                 hr_Tailnet = map_option (\<lambda>up. if up then ''up'' else ''down'') tailnet\<rparr>
           in case ping of
                Inl er \<Rightarrow> (503, BHealth (resp\<lparr>hr_Status := ''degraded'', hr_Database := Some ''unhealthy''\<rparr>))
              | Inr _ \<Rightarrow> (200, BHealth (resp\<lparr>hr_Database := Some ''healthy''\<rparr>)))
      | _ \<Rightarrow> (200, BHealth \<lparr>hr_Status = ''ok'', hr_Database = None, hr_Tailnet = None\<rparr>))"

section \<open>Operations\<close>

datatype api_op =
    CreateJobOp CreateJobRequest
  | ListJobsOp ListJobsParams
  | GetJobOp uuid
  | UpdateJobOp uuid UpdateJobRequest
  | DeleteJobOp uuid
  | PauseJobOp uuid
  | ResumeJobOp uuid
  | TriggerJobOp uuid
  | GetNextRunOp uuid
  | ResolveScheduleOp string "string option"
  | ListExecutionsOp uuid ListExecutionsParams
  | GetExecutionOp uuid
  | ListPendingAckOp "uuid option" "int option"
  | AckExecutionOp uuid
  | CreateAPIKeyOp string
  | ListAPIKeysOp "int option" "int option"
  | DeleteAPIKeyOp uuid
  | GetHealthOp "bool option" "(unit result) option" "bool option"

fun handle :: "svc_env \<Rightarrow> ctx \<Rightarrow> api_op \<Rightarrow> db \<Rightarrow> response \<times> db" where
  "handle e c (CreateJobOp body) db = api_CreateJob e c body db"
| "handle e c (ListJobsOp p) db = api_ListJobs e c p db"
| "handle e c (GetJobOp i) db = api_GetJob e c i db"
| "handle e c (UpdateJobOp i body) db = api_UpdateJob e c i body db"
| "handle e c (DeleteJobOp i) db = api_DeleteJob e c i db"
| "handle e c (PauseJobOp i) db = api_PauseJob e c i db"
| "handle e c (ResumeJobOp i) db = api_ResumeJob e c i db"
| "handle e c (TriggerJobOp i) db = api_TriggerJob e c i db"
| "handle e c (GetNextRunOp i) db = api_GetNextRun e c i db"
| "handle e c (ResolveScheduleOp d tz) db = api_ResolveSchedule e d tz db"
| "handle e c (ListExecutionsOp i p) db = api_ListExecutions e c i p db"
| "handle e c (GetExecutionOp i) db = api_GetExecution e c i db"
| "handle e c (ListPendingAckOp j n) db = api_ListPendingAck e c j n db"
| "handle e c (AckExecutionOp i) db = api_AckExecution e c i db"
| "handle e c (CreateAPIKeyOp label) db = api_CreateAPIKey e c label db"
| "handle e c (ListAPIKeysOp n m) db = api_ListAPIKeys e c n m db"
| "handle e c (DeleteAPIKeyOp i) db = api_DeleteAPIKey e c i db"
| "handle e c (GetHealthOp v p t) db = (api_GetHealth v p t, db)"

lemmas handler_defs = api_CreateJob_def api_ListJobs_def api_GetJob_def api_UpdateJob_def api_DeleteJob_def api_PauseJob_def
  api_ResumeJob_def api_TriggerJob_def api_GetNextRun_def api_ResolveSchedule_def api_ListExecutions_def api_GetExecution_def
  api_ListPendingAck_def api_AckExecution_def api_CreateAPIKey_def api_ListAPIKeys_def api_DeleteAPIKey_def

text \<open>The statuses the API's description declares for each operation (the generated response types).\<close>

fun declared :: "api_op \<Rightarrow> int list" where
  "declared (CreateJobOp body) = [201, 422]"
| "declared (ListJobsOp p) = [200]"
| "declared (GetJobOp i) = [200, 404]"
| "declared (UpdateJobOp i body) = [200, 404, 422]"
| "declared (DeleteJobOp i) = [204, 404]"
| "declared (PauseJobOp i) = [200, 404]"
| "declared (ResumeJobOp i) = [200, 404]"
| "declared (TriggerJobOp i) = [201, 404, 409]"
| "declared (GetNextRunOp i) = [200, 404, 409]"
| "declared (ResolveScheduleOp d tz) = [200, 422]"
| "declared (ListExecutionsOp i p) = [200]"
| "declared (GetExecutionOp i) = [200, 404]"
| "declared (ListPendingAckOp j n) = [200]"
| "declared (AckExecutionOp i) = [204, 404]"
| "declared (CreateAPIKeyOp label) = [201]"
| "declared (ListAPIKeysOp n m) = [200]"
| "declared (DeleteAPIKeyOp i) = [204, 404]"
| "declared (GetHealthOp v p t) = [200, 503]"

definition conforms :: "int list \<Rightarrow> response \<Rightarrow> bool" where
  "conforms ds r \<longleftrightarrow> fst r \<in> set ds \<and> (fst r \<in> {404, 409, 422} \<longrightarrow> (\<exists>code msg. snd r = BError code msg))
     \<or> (\<exists>er. r = raised er)"

lemma respond_conforms:
  assumes "\<And>x. fst (ok x) \<in> set ds - {404, 409, 422}" "set statuses \<subseteq> set ds"
  shows "conforms ds (fst (respond statuses p ok db))"
  using assms by (force simp: respond_def conforms_def Let_def newErrorResponse_def split: prod.split sum.split)

lemma invalid_timeout_conforms: "422 \<in> set ds \<Longrightarrow> conforms ds invalid_timeout"
  by (simp add: conforms_def invalid_timeout_def newErrorResponse_def)

lemma snd_respond [simp]: "snd (respond statuses p ok db) = snd (p db)"
  by (auto simp: respond_def Let_def split: prod.split sum.split)


section \<open>Jobs of other tenants\<close>

fun job_of :: "api_op \<Rightarrow> uuid option" where
  "job_of (GetJobOp i) = Some i"
| "job_of (UpdateJobOp i body) = (case uj_WebhookTimeoutSeconds body of
     None \<Rightarrow> Some i | Some n \<Rightarrow> if n < 1 \<or> n > 60 then None else Some i)"
| "job_of (DeleteJobOp i) = Some i"
| "job_of (PauseJobOp i) = Some i"
| "job_of (ResumeJobOp i) = Some i"
| "job_of (TriggerJobOp i) = Some i"
| "job_of (GetNextRunOp i) = Some i"
| "job_of _ = None"

lemma mapDomainError_job: "errors_Is er ErrJobNotFound \<Longrightarrow> mapDomainError er = \<lparr>he_Status = 404, he_Code = ''job_not_found'', he_Message = error_string er\<rparr>"
  by (simp add: mapDomainError_def Let_def)

lemma respond_job_not_found:
  assumes "p db = (Inl er, db')" "errors_Is er ErrJobNotFound" "404 \<in> set statuses"
  shows "respond statuses p ok db = ((404, BError ''job_not_found'' (error_string er)), db')"
  using assms by (simp add: respond_def mapDomainError_job newErrorResponse_def)

lemma no_scoped_job:
  assumes "\<forall>j \<in> set (t_jobs db). job_ID j = i \<longrightarrow> job_Namespace j \<noteq> ns" "de_fault ev = NoFault"
  shows "GetJobWithScheduleScoped ev i ns db = Inl ErrJobNotFound"
    "\<exists>db'. DeleteJob ev i ns db = (Inl ErrJobNotFound, db')" "\<exists>db'. SetJobEnabled ev i ns b db = (Inl ErrJobNotFound, db')"
proof -
  have f: "filter (\<lambda>j. job_ID j = i \<and> job_Namespace j = ns) (t_jobs db) = []"
    "select_row (\<lambda>j. job_ID j = i \<and> job_Namespace j = ns) (t_jobs db) = None"
    using assms(1) by (auto simp: filter_empty_conv select_row_None_iff)
  show "GetJobWithScheduleScoped ev i ns db = Inl ErrJobNotFound"
    using assms by (auto simp: GetJobWithScheduleScoped_def row_or_def run_query_def queryGetJobWithScheduleScoped_def
      select_row_None_iff jobs_join_schedules_def split: option.split dest!: select_row_SomeD)
  show "\<exists>db'. DeleteJob ev i ns db = (Inl ErrJobNotFound, db')"
    by (simp add: DeleteJob_def run_stmt_def assms(2) queryDeleteJob_def Let_def f)
  show "\<exists>db'. SetJobEnabled ev i ns b db = (Inl ErrJobNotFound, db')"
    by (simp add: SetJobEnabled_def run_stmt_def assms(2) f)
qed

lemma wrapped_job_not_found: "errors_Is (Wrapped msg ErrJobNotFound) ErrJobNotFound"
  by simp



text \<open>The reading methods of the service leave the database alone.\<close>

lemma reads_unchanged [simp]:
  assumes "alone e"
  shows "snd (GetJob_svc e c i db) = db" "snd (GetExecutionStatus e c i db) = db" "snd (GetNextRunTime e c i db) = db"
    "snd (ListJobs_svc e c f db) = db" "snd (ListJobsWithSchedules_svc e c f db) = db" "snd (ListExecutions_svc e c g db) = db"
    "snd (ListPendingAck_svc e c j n db) = db" "snd (ListAPIKeys e c p db) = db"
  using assms
  by (auto simp: GetJob_svc_def GetExecutionStatus_def GetNextRunTime_def ListJobs_svc_def ListJobsWithSchedules_svc_def
      ListExecutions_svc_def ListPendingAck_svc_def ListAPIKeys_def with_ns_def Let_def fail_def give_def seq_stmt_def wrap_def
      split: prod.split sum.split list.split)

lemma handle_isolated:
  assumes "alone e" "NamespaceFromContext c \<noteq> other"
  shows "isolated other db (snd (handle e c op db))"
proof -
  note serve = serve_isolated [OF assms, of db]
  show ?thesis
  proof (cases op)
    case (CreateJobOp body)
    then show ?thesis using serve [of "ReqCreateJob _"] by (simp add: api_CreateJob_def Let_def iso.refl)
  next
    case (UpdateJobOp i body)
    then show ?thesis using serve [of "ReqUpdateJob i _"] by (simp add: api_UpdateJob_def Let_def iso.refl)
  next
    case (DeleteJobOp i)
    then show ?thesis using serve [of "ReqDeleteJob i"] by (simp add: api_DeleteJob_def)
  next
    case (PauseJobOp i)
    then show ?thesis using serve [of "ReqPauseJob i"] by (simp add: api_PauseJob_def)
  next
    case (ResumeJobOp i)
    then show ?thesis using serve [of "ReqResumeJob i"] by (simp add: api_ResumeJob_def)
  next
    case (TriggerJobOp i)
    then show ?thesis using serve [of "ReqTriggerNow i"] by (simp add: api_TriggerJob_def)
  next
    case (AckExecutionOp i)
    then show ?thesis using serve [of "ReqAckExecution i"] by (simp add: api_AckExecution_def)
  next
    case (CreateAPIKeyOp label)
    then show ?thesis using serve [of "ReqCreateAPIKey label"] by (simp add: api_CreateAPIKey_def)
  next
    case (DeleteAPIKeyOp i)
    then show ?thesis using serve [of "ReqDeleteAPIKey i"] by (simp add: api_DeleteAPIKey_def)
  qed (simp_all add: handler_defs iso.refl assms(1))
qed

end
