(* ===== verification/Routes.thy ===== *)
theory Routes
  imports Api
begin

text \<open>
  The generated server (\<^verbatim>\<open>internal/api/server.gen.go\<close>): the routes, the wrappers that decode the parameters
  of each operation, and the strict handlers that decode bodies and call the handlers of theory Api. The
  multiplexer is that of Go's \<^verbatim>\<open>net/http\<close>. The binders of the OpenAPI runtime and the JSON decoders are fields
  of \<open>decoder\<close>. Texts written by \<open>http.Error\<close> are given without the newline it appends.
\<close>

section \<open>Messages and decoders\<close>

type_synonym query = "(string \<times> string) list"

record message =
  ms_Method :: string
  ms_EscapedPath :: string
  ms_Query :: query
  ms_Body :: string

text \<open>The binder of a query parameter distinguishes a missing required one from one it cannot read.\<close>

datatype bind_error = RequiredParameter | Unreadable err

record decoder =
  de_uuid :: "string \<Rightarrow> uuid result"
  de_int :: "string \<Rightarrow> query \<Rightarrow> bind_error + int option"
  de_bool :: "string \<Rightarrow> query \<Rightarrow> bind_error + bool option"
  de_string :: "string \<Rightarrow> query \<Rightarrow> bind_error + string option"
  de_strings :: "string \<Rightarrow> query \<Rightarrow> bind_error + string list option"
  de_time :: "string \<Rightarrow> query \<Rightarrow> bind_error + time option"
  de_quuid :: "string \<Rightarrow> query \<Rightarrow> bind_error + uuid option"
  de_CreateJob :: "string \<Rightarrow> CreateJobRequest result"
  de_UpdateJob :: "string \<Rightarrow> UpdateJobRequest result"
  de_CreateAPIKey :: "string \<Rightarrow> string result"
  de_ResolveSchedule :: "string \<Rightarrow> (string \<times> string option) result"

text \<open>What the handlers need besides the request: the checkers of the health endpoint.\<close>

record backend =
  be_svc :: svc_env
  be_database :: "(unit result) option"
  be_tailnet :: "bool option"

type_synonym http_handler = "db \<Rightarrow> response \<times> db"

definition RequiredParamError :: "string \<Rightarrow> string" where
  "RequiredParamError name = ''Query argument '' @ name @ '' is required, but not found''"

definition InvalidParamFormatError :: "string \<Rightarrow> err \<Rightarrow> string" where
  "InvalidParamFormatError name er = ''Invalid format for parameter '' @ name @ '': '' @ error_string er"

definition bad_request :: "string \<Rightarrow> http_handler" where
  "bad_request msg db = ((400, BText msg), db)"

definition bind_path :: "decoder \<Rightarrow> string \<Rightarrow> (uuid \<Rightarrow> http_handler) \<Rightarrow> http_handler" where
  "bind_path de v f = (case de_uuid de v of
     Inl er \<Rightarrow> bad_request (InvalidParamFormatError ''id'' er)
   | Inr i \<Rightarrow> f i)"

definition bind_query :: "string \<Rightarrow> (string \<Rightarrow> query \<Rightarrow> bind_error + 'a) \<Rightarrow> query \<Rightarrow> ('a \<Rightarrow> http_handler) \<Rightarrow> http_handler" where
  "bind_query name b q f = (case b name q of
     Inl RequiredParameter \<Rightarrow> bad_request (RequiredParamError name)
   | Inl (Unreadable er) \<Rightarrow> bad_request (InvalidParamFormatError name er)
   | Inr x \<Rightarrow> f x)"

definition decode_body :: "'a result \<Rightarrow> ('a \<Rightarrow> http_handler) \<Rightarrow> http_handler" where
  "decode_body r f = (case r of
     Inl er \<Rightarrow> bad_request (''can't decode JSON body: '' @ error_string er)
   | Inr body \<Rightarrow> f body)"

section \<open>Strict handlers\<close>

definition sh_ListAPIKeys :: "backend \<Rightarrow> ctx \<Rightarrow> int option \<Rightarrow> int option \<Rightarrow> http_handler" where
  "sh_ListAPIKeys be c limit offset = handle (be_svc be) c (ListAPIKeysOp limit offset)"

definition sh_CreateAPIKey :: "decoder \<Rightarrow> backend \<Rightarrow> ctx \<Rightarrow> message \<Rightarrow> http_handler" where
  "sh_CreateAPIKey de be c m = decode_body (de_CreateAPIKey de (ms_Body m)) (\<lambda>label. handle (be_svc be) c (CreateAPIKeyOp label))"

definition sh_DeleteAPIKey :: "backend \<Rightarrow> ctx \<Rightarrow> uuid \<Rightarrow> http_handler" where
  "sh_DeleteAPIKey be c i = handle (be_svc be) c (DeleteAPIKeyOp i)"

definition sh_ListPendingAck :: "backend \<Rightarrow> ctx \<Rightarrow> uuid option \<Rightarrow> int option \<Rightarrow> http_handler" where
  "sh_ListPendingAck be c jobID limit = handle (be_svc be) c (ListPendingAckOp jobID limit)"

definition sh_GetExecution :: "backend \<Rightarrow> ctx \<Rightarrow> uuid \<Rightarrow> http_handler" where
  "sh_GetExecution be c i = handle (be_svc be) c (GetExecutionOp i)"

definition sh_AckExecution :: "backend \<Rightarrow> ctx \<Rightarrow> uuid \<Rightarrow> http_handler" where
  "sh_AckExecution be c i = handle (be_svc be) c (AckExecutionOp i)"

definition sh_GetHealth :: "backend \<Rightarrow> ctx \<Rightarrow> bool option \<Rightarrow> http_handler" where
  "sh_GetHealth be c verbose = handle (be_svc be) c (GetHealthOp verbose (be_database be) (be_tailnet be))"

definition sh_ListJobs :: "backend \<Rightarrow> ctx \<Rightarrow> ListJobsParams \<Rightarrow> http_handler" where
  "sh_ListJobs be c params = handle (be_svc be) c (ListJobsOp params)"

definition sh_CreateJob :: "decoder \<Rightarrow> backend \<Rightarrow> ctx \<Rightarrow> message \<Rightarrow> http_handler" where
  "sh_CreateJob de be c m = decode_body (de_CreateJob de (ms_Body m)) (\<lambda>body. handle (be_svc be) c (CreateJobOp body))"

definition sh_DeleteJob :: "backend \<Rightarrow> ctx \<Rightarrow> uuid \<Rightarrow> http_handler" where
  "sh_DeleteJob be c i = handle (be_svc be) c (DeleteJobOp i)"

definition sh_GetJob :: "backend \<Rightarrow> ctx \<Rightarrow> uuid \<Rightarrow> http_handler" where
  "sh_GetJob be c i = handle (be_svc be) c (GetJobOp i)"

definition sh_UpdateJob :: "decoder \<Rightarrow> backend \<Rightarrow> ctx \<Rightarrow> message \<Rightarrow> uuid \<Rightarrow> http_handler" where
  "sh_UpdateJob de be c m i = decode_body (de_UpdateJob de (ms_Body m)) (\<lambda>body. handle (be_svc be) c (UpdateJobOp i body))"

definition sh_ListExecutions :: "backend \<Rightarrow> ctx \<Rightarrow> uuid \<Rightarrow> ListExecutionsParams \<Rightarrow> http_handler" where
  "sh_ListExecutions be c i params = handle (be_svc be) c (ListExecutionsOp i params)"

definition sh_GetNextRun :: "backend \<Rightarrow> ctx \<Rightarrow> uuid \<Rightarrow> http_handler" where
  "sh_GetNextRun be c i = handle (be_svc be) c (GetNextRunOp i)"

definition sh_PauseJob :: "backend \<Rightarrow> ctx \<Rightarrow> uuid \<Rightarrow> http_handler" where
  "sh_PauseJob be c i = handle (be_svc be) c (PauseJobOp i)"

definition sh_ResumeJob :: "backend \<Rightarrow> ctx \<Rightarrow> uuid \<Rightarrow> http_handler" where
  "sh_ResumeJob be c i = handle (be_svc be) c (ResumeJobOp i)"

definition sh_TriggerJob :: "backend \<Rightarrow> ctx \<Rightarrow> uuid \<Rightarrow> http_handler" where
  "sh_TriggerJob be c i = handle (be_svc be) c (TriggerJobOp i)"

definition sh_ResolveSchedule :: "decoder \<Rightarrow> backend \<Rightarrow> ctx \<Rightarrow> message \<Rightarrow> http_handler" where
  "sh_ResolveSchedule de be c m =
     decode_body (de_ResolveSchedule de (ms_Body m)) (\<lambda>(description, tz). handle (be_svc be) c (ResolveScheduleOp description tz))"

section \<open>Wrappers\<close>

text \<open>A wrapper gets the value of the path's wildcard.\<close>

type_synonym wrapper = "decoder \<Rightarrow> backend \<Rightarrow> ctx \<Rightarrow> message \<Rightarrow> string \<Rightarrow> http_handler"

definition siw_ListAPIKeys :: wrapper where
  "siw_ListAPIKeys de be c m v =
     bind_query ''limit'' (de_int de) (ms_Query m) (\<lambda>limit.
     bind_query ''offset'' (de_int de) (ms_Query m) (\<lambda>offset. sh_ListAPIKeys be c limit offset))"

definition siw_CreateAPIKey :: wrapper where
  "siw_CreateAPIKey de be c m v = sh_CreateAPIKey de be c m"

definition siw_DeleteAPIKey :: wrapper where
  "siw_DeleteAPIKey de be c m v = bind_path de v (sh_DeleteAPIKey be c)"

definition siw_ListPendingAck :: wrapper where
  "siw_ListPendingAck de be c m v =
     bind_query ''limit'' (de_int de) (ms_Query m) (\<lambda>limit.
     bind_query ''job_id'' (de_quuid de) (ms_Query m) (\<lambda>jobID. sh_ListPendingAck be c jobID limit))"

definition siw_GetExecution :: wrapper where
  "siw_GetExecution de be c m v = bind_path de v (sh_GetExecution be c)"

definition siw_AckExecution :: wrapper where
  "siw_AckExecution de be c m v = bind_path de v (sh_AckExecution be c)"

definition siw_GetHealth :: wrapper where
  "siw_GetHealth de be c m v = bind_query ''verbose'' (de_bool de) (ms_Query m) (sh_GetHealth be c)"

definition siw_ListJobs :: wrapper where
  "siw_ListJobs de be c m v =
     bind_query ''limit'' (de_int de) (ms_Query m) (\<lambda>limit.
     bind_query ''offset'' (de_int de) (ms_Query m) (\<lambda>offset.
     bind_query ''tag'' (de_strings de) (ms_Query m) (\<lambda>tag.
     bind_query ''enabled'' (de_bool de) (ms_Query m) (\<lambda>enabled.
     bind_query ''name'' (de_string de) (ms_Query m) (\<lambda>name.
     sh_ListJobs be c \<lparr>lj_Limit = limit, lj_Offset = offset, lj_Tag = tag, lj_Enabled = enabled, lj_Name = name\<rparr>)))))"

definition siw_CreateJob :: wrapper where
  "siw_CreateJob de be c m v = sh_CreateJob de be c m"

definition siw_DeleteJob :: wrapper where
  "siw_DeleteJob de be c m v = bind_path de v (sh_DeleteJob be c)"

definition siw_GetJob :: wrapper where
  "siw_GetJob de be c m v = bind_path de v (sh_GetJob be c)"

definition siw_UpdateJob :: wrapper where
  "siw_UpdateJob de be c m v = bind_path de v (sh_UpdateJob de be c m)"

definition siw_ListExecutions :: wrapper where
  "siw_ListExecutions de be c m v = bind_path de v (\<lambda>i.
     bind_query ''limit'' (de_int de) (ms_Query m) (\<lambda>limit.
     bind_query ''offset'' (de_int de) (ms_Query m) (\<lambda>offset.
     bind_query ''status'' (de_string de) (ms_Query m) (\<lambda>status.
     bind_query ''trigger_type'' (de_string de) (ms_Query m) (\<lambda>triggerType.
     bind_query ''since'' (de_time de) (ms_Query m) (\<lambda>since.
     bind_query ''until'' (de_time de) (ms_Query m) (\<lambda>until.
     sh_ListExecutions be c i \<lparr>le_Limit = limit, le_Offset = offset, le_Status = status, le_TriggerType = triggerType,
       le_Since = since, le_Until = until\<rparr>)))))))"

definition siw_GetNextRun :: wrapper where
  "siw_GetNextRun de be c m v = bind_path de v (sh_GetNextRun be c)"

definition siw_PauseJob :: wrapper where
  "siw_PauseJob de be c m v = bind_path de v (sh_PauseJob be c)"

definition siw_ResumeJob :: wrapper where
  "siw_ResumeJob de be c m v = bind_path de v (sh_ResumeJob be c)"

definition siw_TriggerJob :: wrapper where
  "siw_TriggerJob de be c m v = bind_path de v (sh_TriggerJob be c)"

definition siw_ResolveSchedule :: wrapper where
  "siw_ResolveSchedule de be c m v = sh_ResolveSchedule de be c m"

section \<open>Routes\<close>

datatype segment = Lit string | Wild

record 'h route =
  rt_Method :: string
  rt_Pattern :: "segment list"
  rt_Handler :: 'h

definition route :: "string \<Rightarrow> segment list \<Rightarrow> 'h \<Rightarrow> 'h route" where
  "route m p h = \<lparr>rt_Method = m, rt_Pattern = p, rt_Handler = h\<rparr>"

definition HandlerWithOptions :: "wrapper route list" where
  "HandlerWithOptions =
     [route ''GET'' [Lit ''api-keys''] siw_ListAPIKeys,
      route ''POST'' [Lit ''api-keys''] siw_CreateAPIKey,
      route ''DELETE'' [Lit ''api-keys'', Wild] siw_DeleteAPIKey,
      route ''GET'' [Lit ''executions'', Lit ''pending-ack''] siw_ListPendingAck,
      route ''GET'' [Lit ''executions'', Wild] siw_GetExecution,
      route ''POST'' [Lit ''executions'', Wild, Lit ''ack''] siw_AckExecution,
      route ''GET'' [Lit ''health''] siw_GetHealth,
      route ''GET'' [Lit ''jobs''] siw_ListJobs,
      route ''POST'' [Lit ''jobs''] siw_CreateJob,
      route ''DELETE'' [Lit ''jobs'', Wild] siw_DeleteJob,
      route ''GET'' [Lit ''jobs'', Wild] siw_GetJob,
      route ''PATCH'' [Lit ''jobs'', Wild] siw_UpdateJob,
      route ''GET'' [Lit ''jobs'', Wild, Lit ''executions''] siw_ListExecutions,
      route ''GET'' [Lit ''jobs'', Wild, Lit ''next-run''] siw_GetNextRun,
      route ''POST'' [Lit ''jobs'', Wild, Lit ''pause''] siw_PauseJob,
      route ''POST'' [Lit ''jobs'', Wild, Lit ''resume''] siw_ResumeJob,
      route ''POST'' [Lit ''jobs'', Wild, Lit ''trigger''] siw_TriggerJob,
      route ''POST'' [Lit ''schedules'', Lit ''resolve''] siw_ResolveSchedule]"

section \<open>The multiplexer\<close>

text \<open>
  Go's \<open>ServeMux\<close>: a path that is not in its cleaned form is redirected to it; the segments are unescaped
  one by one; of the patterns that match, one that no other is more specific than is chosen. A pattern
  for \<open>GET\<close> takes \<open>HEAD\<close> too.
\<close>

fun unhex :: "char \<Rightarrow> nat option" where
  "unhex ch = (let n = of_char ch :: nat in
     if 48 \<le> n \<and> n \<le> 57 then Some (n - 48)
     else if 97 \<le> n \<and> n \<le> 102 then Some (n - 87)
     else if 65 \<le> n \<and> n \<le> 70 then Some (n - 55)
     else None)"

fun percent_decode :: "string \<Rightarrow> string option" where
  "percent_decode [] = Some []"
| "percent_decode (x # xs) =
     (if x = CHR ''%'' then
        (case xs of a # b # ys \<Rightarrow>
           (case (unhex a, unhex b) of (Some i, Some j) \<Rightarrow> map_option ((#) (char_of (16 * i + j))) (percent_decode ys) | _ \<Rightarrow> None)
         | _ \<Rightarrow> None)
      else map_option ((#) x) (percent_decode xs))"

definition pathUnescape :: "string \<Rightarrow> string" where
  "pathUnescape s = (case percent_decode s of None \<Rightarrow> s | Some t \<Rightarrow> t)"

definition segments :: "string \<Rightarrow> string list" where
  "segments path = split_on CHR ''/'' (tl path)"

definition is_clean :: "string \<Rightarrow> bool" where
  "is_clean path \<longleftrightarrow> path \<noteq> [] \<and> hd path = CHR ''/'' \<and> list_all (\<lambda>s. s \<noteq> []) (butlast (segments path))
     \<and> list_all (\<lambda>s. s \<noteq> ''.'' \<and> s \<noteq> ''..'') (segments path)"

fun match_segments :: "segment list \<Rightarrow> string list \<Rightarrow> string list option" where
  "match_segments [] [] = Some []"
| "match_segments (Lit s # ps) (x # xs) = (if pathUnescape x = s then match_segments ps xs else None)"
| "match_segments (Wild # ps) (x # xs) = (if x = [] then None else map_option ((#) (pathUnescape x)) (match_segments ps xs))"
| "match_segments _ _ = None"

definition method_matches :: "string \<Rightarrow> string \<Rightarrow> bool" where
  "method_matches pm m \<longleftrightarrow> pm = m \<or> pm = ''GET'' \<and> m = ''HEAD''"

definition more_specific :: "segment list \<Rightarrow> segment list \<Rightarrow> bool" where
  "more_specific p q \<longleftrightarrow> p \<noteq> q \<and> list_all2 (\<lambda>a b. b = Wild \<or> a = b) p q"

definition path_matches :: "string \<Rightarrow> 'h route \<Rightarrow> bool" where
  "path_matches path r \<longleftrightarrow> match_segments (rt_Pattern r) (segments path) \<noteq> None"

definition find_route :: "'h route list \<Rightarrow> string \<Rightarrow> string \<Rightarrow> 'h route option" where
  "find_route rs m path =
     (let cands = filter (\<lambda>r. method_matches (rt_Method r) m \<and> path_matches path r) rs
      in find (\<lambda>r. \<not> list_ex (\<lambda>r'. more_specific (rt_Pattern r') (rt_Pattern r)) cands) cands)"

definition ServeMux :: "wrapper route list \<Rightarrow> decoder \<Rightarrow> backend \<Rightarrow> ctx \<Rightarrow> message \<Rightarrow> http_handler" where
  "ServeMux rs de be c m db =
     (let path = ms_EscapedPath m
      in if \<not> is_clean path \<and> ms_Method m \<noteq> ''CONNECT'' then ((301, BEmpty), db)
         else case find_route rs (ms_Method m) path of
           Some r \<Rightarrow> (case match_segments (rt_Pattern r) (segments path) of
               Some vs \<Rightarrow> rt_Handler r de be c m (case vs of [] \<Rightarrow> [] | v # _ \<Rightarrow> v) db
             | None \<Rightarrow> ((404, BText ''404 page not found''), db))
         | None \<Rightarrow> if list_ex (path_matches path) rs then ((405, BText ''Method Not Allowed''), db)
             else ((404, BText ''404 page not found''), db))"

section \<open>What a request amounts to\<close>

text \<open>
  Either the request is turned away by the multiplexer or a decoder, or it is one of the operations of
  theory Api.
\<close>

definition turned_away :: "response \<Rightarrow> bool" where
  "turned_away r \<longleftrightarrow> fst r \<in> {301, 400, 404, 405} \<and> (\<forall>code msg. snd r \<noteq> BError code msg)"

definition amounts_to :: "backend \<Rightarrow> ctx \<Rightarrow> db \<Rightarrow> response \<times> db \<Rightarrow> bool" where
  "amounts_to be c db out \<longleftrightarrow> (\<exists>r. out = (r, db) \<and> turned_away r) \<or> (\<exists>op. out = handle (be_svc be) c op db)"

lemma amounts_to_handle: "amounts_to be c db (handle (be_svc be) c op db)"
  unfolding amounts_to_def by blast

lemma amounts_to_away: "fst r \<in> {301, 400, 404, 405} \<Longrightarrow> (\<And>code msg. snd r \<noteq> BError code msg) \<Longrightarrow> amounts_to be c db (r, db)"
  unfolding amounts_to_def turned_away_def by blast

lemma amounts_to_bind:
  shows "(\<And>i. amounts_to be c db (f i db)) \<Longrightarrow> amounts_to be c db (bind_path de v f db)"
    and "(\<And>x. amounts_to be c db (g x db)) \<Longrightarrow> amounts_to be c db (bind_query name b q g db)"
    and "(\<And>x. amounts_to be c db (h x db)) \<Longrightarrow> amounts_to be c db (decode_body r h db)"
  by (auto simp: bind_path_def bind_query_def decode_body_def bad_request_def intro!: amounts_to_away split: sum.split bind_error.split)

lemmas wrapper_defs = siw_ListAPIKeys_def siw_CreateAPIKey_def siw_DeleteAPIKey_def siw_ListPendingAck_def siw_GetExecution_def
  siw_AckExecution_def siw_GetHealth_def siw_ListJobs_def siw_CreateJob_def siw_DeleteJob_def siw_GetJob_def siw_UpdateJob_def
  siw_ListExecutions_def siw_GetNextRun_def siw_PauseJob_def siw_ResumeJob_def siw_TriggerJob_def siw_ResolveSchedule_def

lemmas strict_defs = sh_ListAPIKeys_def sh_CreateAPIKey_def sh_DeleteAPIKey_def sh_ListPendingAck_def sh_GetExecution_def
  sh_AckExecution_def sh_GetHealth_def sh_ListJobs_def sh_CreateJob_def sh_DeleteJob_def sh_GetJob_def sh_UpdateJob_def
  sh_ListExecutions_def sh_GetNextRun_def sh_PauseJob_def sh_ResumeJob_def sh_TriggerJob_def sh_ResolveSchedule_def

lemma wrapper_amounts_to: "r \<in> set HandlerWithOptions \<Longrightarrow> amounts_to be c db (rt_Handler r de be c m v db)"
  by (auto simp: HandlerWithOptions_def route_def wrapper_defs strict_defs amounts_to_handle case_prod_unfold simp del: handle.simps
      intro!: amounts_to_bind)

lemma find_mem: "find P xs = Some x \<Longrightarrow> x \<in> set xs \<and> P x"
  by (induction xs) (auto split: if_splits)

lemma find_route_mem: "find_route rs m path = Some r \<Longrightarrow> r \<in> set rs \<and> method_matches (rt_Method r) m \<and> path_matches path r"
  unfolding find_route_def Let_def by (drule find_mem) simp

lemma ServeMux_amounts_to: "amounts_to be c db (ServeMux HandlerWithOptions de be c m db)"
  by (auto simp: ServeMux_def Let_def dest!: find_route_mem intro!: amounts_to_away wrapper_amounts_to split: option.split)

section \<open>Unambiguous routes\<close>

fun disjoint_patterns :: "segment list \<Rightarrow> segment list \<Rightarrow> bool" where
  "disjoint_patterns [] [] = False"
| "disjoint_patterns (a # p) (b # q) = ((a \<noteq> b \<and> a \<noteq> Wild \<and> b \<noteq> Wild) \<or> disjoint_patterns p q)"
| "disjoint_patterns _ _ = True"

lemma disjoint_patterns:
  assumes "match_segments p xs = Some vs" "match_segments q xs = Some ws"
  shows "\<not> disjoint_patterns p q"
  using assms
proof (induction p xs arbitrary: q vs ws rule: match_segments.induct)
  case (2 s ps x xs)
  then show ?case by (cases q; cases "hd q") (auto split: if_splits)
next
  case (3 ps x xs)
  then show ?case by (cases q; cases "hd q") (auto split: if_splits)
qed (auto elim: match_segments.elims)

definition route_key :: "'h route \<Rightarrow> string \<times> segment list" where
  "route_key r = (rt_Method r, rt_Pattern r)"

definition compatible :: "(string \<times> segment list) list \<Rightarrow> bool" where
  "compatible ks \<longleftrightarrow> distinct ks \<and> list_all (\<lambda>(m, p). m \<noteq> ''HEAD'' \<and> list_all (\<lambda>(m', p').
     (m, p) = (m', p') \<or> m \<noteq> m' \<or> disjoint_patterns p p' \<or> more_specific p p' \<or> more_specific p' p) ks) ks"

lemma compatible_routes: "compatible (map route_key HandlerWithOptions)"
  by (simp add: HandlerWithOptions_def route_def route_key_def) code_simp

lemma best_route_unique:
  assumes "compatible (map route_key rs)" "r \<in> set rs" "r' \<in> set rs" "method_matches (rt_Method r) m" "method_matches (rt_Method r') m"
    and "path_matches path r" "path_matches path r'"
    and "\<not> more_specific (rt_Pattern r) (rt_Pattern r')" "\<not> more_specific (rt_Pattern r') (rt_Pattern r)"
  shows "r = r'"
proof -
  from assms(6,7) have "\<not> disjoint_patterns (rt_Pattern r) (rt_Pattern r')" by (auto simp: path_matches_def dest: disjoint_patterns)
  moreover have "rt_Method r \<noteq> ''HEAD''" "rt_Method r' \<noteq> ''HEAD''"
    using assms(1-3) by (auto simp: compatible_def list_all_iff route_key_def)
  then have "rt_Method r = rt_Method r'" using assms(4,5) by (auto simp: method_matches_def)
  ultimately have "route_key r = route_key r'"
    using assms(1-3,8,9) by (auto simp: compatible_def list_all_iff route_key_def)
  with assms(1-3) show ?thesis by (auto simp: compatible_def distinct_map dest: inj_onD)
qed

lemma find_unique:
  assumes "set xs = set ys" "\<And>x y. x \<in> set xs \<Longrightarrow> y \<in> set xs \<Longrightarrow> P x \<Longrightarrow> P y \<Longrightarrow> x = y"
  shows "find P xs = find P ys"
proof (cases "find P xs")
  case None
  then show ?thesis using assms(1) by (metis find_None_iff)
next
  case (Some x)
  then have x: "x \<in> set xs" "P x" using find_mem by metis+
  then obtain y where y: "find P ys = Some y" using assms(1) by (cases "find P ys") (auto simp: find_None_iff)
  then have "y \<in> set xs" "P y" using find_mem assms(1) by metis+
  with x Some y show ?thesis using assms(2) by simp
qed

text \<open>
  Routes are unambiguous. For every method and path the multiplexer finds the same operation in
  whatever order the routes are registered: of two registered routes that both match, one is more
  specific than the other.
\<close>

theorem routing_unambiguous:
  assumes "set rs = set HandlerWithOptions"
  shows "find_route rs m path = find_route HandlerWithOptions m path"
proof -
  let ?cands = "filter (\<lambda>r. method_matches (rt_Method r) m \<and> path_matches path r)"
  have "list_ex Q (?cands rs) = list_ex Q (?cands HandlerWithOptions)" for Q using assms by (auto simp: list_ex_iff)
  then show ?thesis
    unfolding find_route_def Let_def using assms best_route_unique [OF compatible_routes]
    by (simp, intro find_unique) (auto simp: list_ex_iff)
qed

theorem routing_unambiguous_witness:
  "map_option rt_Pattern (find_route (rev HandlerWithOptions) ''GET'' ''/executions/pending-ack'') = Some [Lit ''executions'', Lit ''pending-ack'']"
proof -
  have "map_option rt_Pattern (find_route HandlerWithOptions ''GET'' ''/executions/pending-ack'') = Some [Lit ''executions'', Lit ''pending-ack'']"
    by code_simp
  then show ?thesis using routing_unambiguous [of "rev HandlerWithOptions"] by simp
qed

section \<open>The API server\<close>

text \<open>
  A request that arrives: its fields, its message, the decoders, what the key lookup answers at that moment,
  the clock at each middleware, and the service's environment. The chain of theory Middleware decides
  whether it is served, and in whose namespace.
\<close>

record arrival =
  ar_request :: http_request
  ar_message :: message
  ar_decoder :: decoder
  ar_lookup :: "string \<Rightarrow> APIKey result"
  ar_times :: "time \<times> int \<times> time"
  ar_backend :: backend

record server =
  sr_unicode :: unicode
  sr_origins :: string
  sr_hash :: "string \<Rightarrow> string"
  sr_fallback :: string

definition http_serve :: "server \<Rightarrow> 'a arrival_scheme \<Rightarrow> gateway \<times> db \<Rightarrow> response \<times> gateway \<times> db" where
  "http_serve srv a s =
     (case (s, ar_times a) of ((gw, db), (t1, t2, t3)) \<Rightarrow>
        case root_chain (sr_unicode srv) (sr_origins srv) (sr_hash srv) (ar_lookup a) (sr_fallback srv) t1 t2 t3
               (ar_request a) gw of
          ((hs, Reply st m), gw') \<Rightarrow> ((st, BText m), gw', db)
        | ((hs, Next r), gw') \<Rightarrow>
            (case ServeMux HandlerWithOptions (ar_decoder a) (ar_backend a) (rq_ctx r) (ar_message a) db of
               (resp, db') \<Rightarrow> (resp, gw', db')))"

text \<open>The requests a token of a namespace may come with.\<close>

definition acts_for :: "server \<Rightarrow> 'a arrival_scheme \<Rightarrow> Namespace \<Rightarrow> bool" where
  "acts_for srv a ns \<longleftrightarrow> (\<exists>token. rq_Authorization (ar_request a) = bearer @ token
     \<and> grants (sr_hash srv) (ar_lookup a) (sr_fallback srv) token ns)"

lemma ServeMux_isolated:
  assumes "alone (be_svc be)" "NamespaceFromContext c \<noteq> other"
  shows "isolated other db (snd (ServeMux HandlerWithOptions de be c m db))"
  using ServeMux_amounts_to [of be c db de m] handle_isolated [OF assms] by (auto simp: amounts_to_def iso.refl)

lemma http_serve_isolated:
  assumes "alone (be_svc (ar_backend a))" "rq_ctx (ar_request a) = None" "\<not> acts_for srv a other" "other \<noteq> []"
  shows "isolated other db (snd (snd (http_serve srv a (gw, db))))"
proof -
  obtain t1 t2 t3 where t: "ar_times a = (t1, t2, t3)" by (cases "ar_times a")
  obtain hs v gw' where chain: "root_chain (sr_unicode srv) (sr_origins srv) (sr_hash srv) (ar_lookup a) (sr_fallback srv) t1 t2 t3
      (ar_request a) gw = ((hs, v), gw')" by (metis prod.collapse)
  show ?thesis
  proof (cases v)
    case (Next r)
    from root_chain_Next [OF chain [unfolded Next]] obtain r1 au where
      r1: "MultiKeyAuthMiddleware (sr_hash srv) (ar_lookup a) (sr_fallback srv) t2 (ar_request a) (gw_auth gw) = (Next r1, au)"
      "BodySizeLimitMiddleware r1 = Next r" by blast
    have "NamespaceFromContext (rq_ctx r) \<noteq> other"
      using MultiKeyAuth_iff [of "sr_hash srv" "ar_lookup a" "sr_fallback srv" t2 "ar_request a" "gw_auth gw" r1] r1
        BodySize_Next [OF r1(2)] assms(2-) by (auto simp: acts_for_def NamespaceFromContext_def)
    from ServeMux_isolated [OF assms(1) this]
    show ?thesis by (simp add: http_serve_def t chain Next case_prod_unfold)
  qed (simp add: http_serve_def t chain iso.refl)
qed

end
