(* ===== verification/AdminPages.thy ===== *)
theory AdminPages
  imports AdminQuery Routes
begin

text \<open>
  The pages of the web administration: \<^verbatim>\<open>handler.go\<close>, \<^verbatim>\<open>auth_handlers.go\<close>, \<^verbatim>\<open>job_handlers.go\<close>, \<^verbatim>\<open>admin_handlers.go\<close>,
  \<^verbatim>\<open>control_handlers.go\<close>, \<^verbatim>\<open>tailnet.go\<close>, \<^verbatim>\<open>tailnet_login.go\<close> and \<^verbatim>\<open>appearance.go\<close> of \<^verbatim>\<open>internal/webadmin\<close>. A handler turns
  a request into a reply and the database it leaves. A page is the name of its template with the data the
  handler fills in (\<open>content\<close> for what is particular to one page); rendering the templates is not modelled.
\<close>

section \<open>Replies\<close>

record tailnetTarget =
  tt_Tailnet :: bool
  tt_Host :: string
  tt_Allowed :: bool
  tt_Reason :: string

record tailnetView =
  tv_Config :: TailnetConfig
  tv_Started :: bool
  tv_Running :: bool
  tv_Info :: Info
  tv_InfoError :: bool
  tv_Suffix :: string
  tv_Addrs :: "Addr list"
  tv_CertDomain :: string
  tv_KeyExpiresSoon :: bool
  tv_AllHosts :: bool
  tv_Hosts :: "string list"
  tv_ViaTailnet :: bool
  tv_Jobs :: "(JobWithSchedule \<times> tailnetTarget) list"
  tv_JobsLimited :: bool

record jobs_page =
  jp_Fleet :: Fleet
  jp_Page :: int
  jp_Name :: string
  jp_Jobs :: "JobWithSchedule list"
  jp_EnabledFilter :: string
  jp_TagFilter :: string
  jp_View :: string
  jp_ReturnURL :: string
  jp_StateQuery :: string
  jp_TableURL :: string
  jp_BoardURL :: string
  jp_TimelineURL :: string
  jp_SavedViews :: "SavedView list"
  jp_Timeline :: "timeline option"
  jp_PreviousURL :: string
  jp_NextURL :: string
  jp_TotalPages :: int
  jp_PageLinks :: "pageLink list"

record job_page =
  jo_Job :: Job
  jo_Schedule :: Schedule
  jo_Tags :: "Tag list"
  jo_Executions :: "Execution list"
  jo_NextRuns :: "time list"
  jo_ReturnURL :: string
  jo_StatusFilter :: string
  jo_TriggerFilter :: string
  jo_PreviousURL :: string
  jo_NextURL :: string

record runs_page =
  ru_Page :: int
  ru_Total :: int
  ru_Window :: string
  ru_View :: string
  ru_StatusFilter :: string
  ru_TriggerFilter :: string
  ru_ReturnURL :: string
  ru_TableURL :: string
  ru_BoardURL :: string
  ru_Runs :: "RunEvidence list"
  ru_PreviousURL :: string
  ru_NextURL :: string
  ru_Columns :: "(string \<times> string \<times> RunEvidence list) list"

datatype content =
    NoContent
  | SignInForm tailnetSignIn
  | SetupComplete string bool
  | KeyList uuid int "APIKey list" string string
  | KeyForm string
  | KeyCreated string string
  | KeyDelete APIKey uuid
  | Onboarding "Fleet option"
  | Settings "(string \<times> string) list" duration duration bool
  | ScheduleForm string string "ResolveResult option"
  | ExecutionList int string string bool "Execution list" string string
  | JobList jobs_page
  | JobForm jobFormValues bool uuid string
  | JobDetails job_page
  | JobDelete Job Schedule string
  | ExecutionDetails Execution "DeliveryAttempt list" string
  | RunList runs_page
  | BulkDetails BulkBatch int int int string
  | BulkList "BulkBatch list"
  | TailnetDetails tailnetView

record pageData =
  pg_Title :: string
  pg_Namespace :: string
  pg_CSRFToken :: string
  pg_Theme :: string
  pg_Notice :: string
  pg_Error :: string
  pg_Navigation :: string
  pg_Content :: content

datatype web_body =
    Html string pageData
  | Plain string
  | Location string
  | Asset string
  | NoAnswer

record web_reply =
  rp_Status :: int
  rp_Body :: web_body
  rp_Cookies :: "cookie list"
  rp_Headers :: "(string \<times> string) list"

type_synonym web_handler = "db \<Rightarrow> web_reply \<times> db"

definition answer :: "int \<Rightarrow> web_body \<Rightarrow> web_reply" where
  "answer status body = \<lparr>rp_Status = status, rp_Body = body, rp_Cookies = [], rp_Headers = []\<rparr>"

definition with_cookies :: "cookie list \<Rightarrow> web_reply \<Rightarrow> web_reply" where
  "with_cookies cs p = p\<lparr>rp_Cookies := cs @ rp_Cookies p\<rparr>"

definition with_headers :: "(string \<times> string) list \<Rightarrow> web_reply \<Rightarrow> web_reply" where
  "with_headers hs p = p\<lparr>rp_Headers := hs @ rp_Headers p\<rparr>"

definition redirect :: "string \<Rightarrow> web_reply" where
  "redirect url = answer 303 (Location url)"

definition http_Error :: "string \<Rightarrow> int \<Rightarrow> web_reply" where
  "http_Error msg status = with_headers [(''Content-Type'', ''text/plain; charset=utf-8''), (''X-Content-Type-Options'', ''nosniff'')]
     (answer status (Plain msg))"

definition NotFound :: web_reply where
  "NotFound = http_Error ''404 page not found'' 404"

definition new_page :: "string \<Rightarrow> pageData" where
  "new_page title = \<lparr>pg_Title = title, pg_Namespace = '''', pg_CSRFToken = '''', pg_Theme = '''', pg_Notice = '''', pg_Error = '''',
     pg_Navigation = '''', pg_Content = NoContent\<rparr>"

definition navigation :: "string \<Rightarrow> string \<Rightarrow> string" where
  "navigation name old =
     (if name \<in> set [''jobs'', ''job_form'', ''job_detail'', ''delete_job'', ''bulk''] then ''jobs''
      else if name \<in> set [''keys'', ''key_new'', ''key_created'', ''key_delete''] then ''keys''
      else if name \<in> set [''executions'', ''execution''] then ''executions''
      else if name \<in> set [''settings'', ''schedule'', ''onboarding'', ''runs'', ''tailscale''] then name
      else old)"

definition renderStatus :: "string \<Rightarrow> pageData \<Rightarrow> int \<Rightarrow> web_reply" where
  "renderStatus name d status = with_headers [(''Content-Type'', ''text/html; charset=utf-8'')]
     (answer status (Html name (d\<lparr>pg_Navigation := navigation name (pg_Navigation d)\<rparr>)))"

definition render :: "string \<Rightarrow> pageData \<Rightarrow> web_reply" where
  "render name d = renderStatus name d 200"

section \<open>Errors\<close>

definition internalError :: "web_env \<Rightarrow> web_reply" where
  "internalError w =
     (let i = (case randomToken w 3 of Inl _ \<Rightarrow> ''unavailable'' | Inr t \<Rightarrow> t)
      in renderStatus ''error'' ((new_page ''Something went wrong'')\<lparr>pg_Error := take 24 i\<rparr>) 500)"

definition isUserError :: "err \<Rightarrow> bool" where
  "isUserError er \<longleftrightarrow> errors_Is er ErrInvalidCronExpression \<or> errors_Is er ErrInvalidTimezone \<or> errors_Is er ErrInvalidWebhookURL
     \<or> errors_Is er ErrWebhookHostNotAllowed \<or> errors_Is er ErrJobDisabled"

definition userErrorText :: "err \<Rightarrow> string" where
  "userErrorText er =
     (if errors_Is er ErrInvalidCronExpression then ''The cron expression is invalid.''
      else if errors_Is er ErrInvalidTimezone then ''The timezone is invalid.''
      else if errors_Is er ErrInvalidWebhookURL then ''The webhook URL is invalid.''
      else if errors_Is er ErrWebhookHostNotAllowed
        then ''This namespace may not call that tailnet host. Ask an operator to add it to WEBHOOK_TAILNET_HOSTS.''
      else if errors_Is er ErrJobDisabled then ''Resume this job before triggering it.''
      else ''The action could not be completed.'')"

definition errorClass :: "err \<Rightarrow> string" where
  "errorClass er =
     (if list_ex (errors_Is er) [ErrJobNotFound, ErrExecutionNotFound, ErrAPIKeyNotFound, ErrAdminSessionNotFound, ErrNamespaceMismatch]
      then ''not_found''
      else if list_ex (errors_Is er) [ErrInvalidCronExpression, ErrInvalidTimezone, ErrInvalidWebhookURL, ErrWebhookHostNotAllowed,
        ErrJobDisabled, ErrDuplicateExecution, ErrDuplicateAPIKey, ErrBootstrapAlreadyCompleted, ErrScheduleParseFailure]
      then ''validation'' else ''internal'')"

definition handleServiceError :: "web_env \<Rightarrow> err \<Rightarrow> web_reply" where
  "handleServiceError w er =
     (if errors_Is er ErrJobNotFound \<or> errors_Is er ErrExecutionNotFound \<or> errors_Is er ErrAPIKeyNotFound
      then renderStatus ''error'' ((new_page ''Not found'')\<lparr>pg_Error := ''The requested item does not exist.''\<rparr>) 404
      else if isUserError er then renderStatus ''error'' ((new_page ''Action unavailable'')\<lparr>pg_Error := userErrorText er\<rparr>) 409
      else internalError w)"

definition controlError :: "web_env \<Rightarrow> err \<Rightarrow> web_reply" where
  "controlError w er =
     (if errors_Is er ErrInvalidControlInput
      then renderStatus ''error'' ((new_page ''Invalid input'')\<lparr>pg_Error := ''Check the filters or selection. Select 1'' @ en_dash_utf8 @
        ''100 distinct jobs and choose pause or resume. Previews expire after 10 minutes; keep at most 20 pending previews.''\<rparr>) 400
      else if errors_Is er ErrBulkNotFound \<or> errors_Is er ErrJobNotFound \<or> errors_Is er ErrAPIKeyNotFound
      then renderStatus ''error'' ((new_page ''Not found'')\<lparr>pg_Error := ''The requested item is unavailable or the preview has expired.''\<rparr>) 404
      else if errors_Is er ErrSavedViewLimit
      then renderStatus ''error'' ((new_page ''Saved view limit'')\<lparr>pg_Error :=
        ''You can save up to 20 views per API key. Remove a view before adding another.''\<rparr>) 409
      else internalError w)"

section \<open>Guards\<close>

definition themeFromRequest :: "web_request \<Rightarrow> string" where
  "themeFromRequest r = (case Cookie r ''cronlite_admin_theme'' of
     Some v \<Rightarrow> if v = ''light'' \<or> v = ''dark'' then v else '''' | None \<Rightarrow> '''')"

text \<open>\<open>requireAuth\<close> and \<open>requireMutation\<close> with the rest of the handler as their continuation.\<close>

definition requireAuth :: "admin \<Rightarrow> web_env \<Rightarrow> web_request \<Rightarrow> (authState \<Rightarrow> web_handler) \<Rightarrow> web_handler" where
  "requireAuth h w r k db =
     (case authenticate h w r db of
        ((Inl er, cs), db') \<Rightarrow>
          (with_cookies cs (if errors_Is er errUnauthenticated then redirect ''/admin/login'' else internalError w), db')
      | ((Inr auth, cs), db') \<Rightarrow>
          (case k (auth\<lparr>as_Theme := themeFromRequest r\<rparr>) db' of (p, db'') \<Rightarrow> (with_cookies cs p, db'')))"

definition csrf_ok :: "authState \<Rightarrow> web_request \<Rightarrow> bool" where
  "csrf_ok auth r = validateCSRF (ses_CSRFToken (as_Session auth)) (FormValue r ''csrf_token'')"

definition requireMutation :: "admin \<Rightarrow> web_env \<Rightarrow> web_request \<Rightarrow> (authState \<Rightarrow> web_handler) \<Rightarrow> web_handler" where
  "requireMutation h w r k = requireAuth h w r (\<lambda>auth db.
     if \<not> csrf_ok auth r then (http_Error ''invalid CSRF token'' 403, db) else k auth db)"

definition auth_ctx :: "authState \<Rightarrow> ctx" where
  "auth_ctx auth = NamespaceToContext None (key_Namespace (as_Key auth))"

definition authPage :: "authState \<Rightarrow> string \<Rightarrow> pageData" where
  "authPage auth title = (new_page title)\<lparr>pg_Namespace := key_Namespace (as_Key auth), pg_CSRFToken := ses_CSRFToken (as_Session auth),
     pg_Theme := as_Theme auth\<rparr>"

definition pathUUID :: "web_env \<Rightarrow> string \<Rightarrow> (uuid \<Rightarrow> web_handler) \<Rightarrow> web_handler" where
  "pathUUID w v k db = (case we_parseUUID w v of None \<Rightarrow> (NotFound, db) | Some i \<Rightarrow> k i db)"

text \<open>The result of a service call, answered by one of two continuations.\<close>

definition serving :: "'a stmt \<Rightarrow> (err \<Rightarrow> web_reply) \<Rightarrow> ('a \<Rightarrow> web_handler) \<Rightarrow> web_handler" where
  "serving p bad ok db = (case p db of (Inl er, db') \<Rightarrow> (bad er, db') | (Inr x, db') \<Rightarrow> ok x db')"

definition reply_with :: "web_reply \<Rightarrow> web_handler" where
  "reply_with p db = (p, db)"

section \<open>Signing in and out\<close>

definition publicCSRFCookieName :: string where
  "publicCSRFCookieName = ''cronlite_admin_public_csrf''"

definition issuePublicCSRF :: "admin \<Rightarrow> web_env \<Rightarrow> string \<times> cookie list" where
  "issuePublicCSRF h w =
     (case randomToken w 2 of
        Inl _ \<Rightarrow> ('''', [])
      | Inr token \<Rightarrow> (token, [\<lparr>co_Name = publicCSRFCookieName, co_Value = token, co_Path = ''/admin'', co_HttpOnly = True,
          co_Secure = ad_cookieSecure h, co_SameSite = SameSiteStrict, co_Expires = None, co_MaxAge = 0\<rparr>]))"

definition validPublicCSRF :: "web_request \<Rightarrow> bool" where
  "validPublicCSRF r = (case Cookie r publicCSRFCookieName of None \<Rightarrow> False | Some v \<Rightarrow> validateCSRF v (FormValue r ''csrf_token''))"

definition clearPublicCSRF :: "admin \<Rightarrow> cookie" where
  "clearPublicCSRF h = \<lparr>co_Name = publicCSRFCookieName, co_Value = '''', co_Path = ''/admin'', co_HttpOnly = True,
     co_Secure = ad_cookieSecure h, co_SameSite = SameSiteStrict, co_Expires = Some (Unix 1), co_MaxAge = -1\<rparr>"

definition constantTimeEqual :: "string \<Rightarrow> string \<Rightarrow> bool" where
  "constantTimeEqual expected actual =
     (if expected = '''' \<or> actual = '''' \<or> length expected \<noteq> length actual then False else expected = actual)"

definition renderPublicForm :: "admin \<Rightarrow> web_env \<Rightarrow> web_request \<Rightarrow> string \<Rightarrow> pageData \<Rightarrow> web_reply" where
  "renderPublicForm h w r name d =
     (case issuePublicCSRF h w of (token, cs) \<Rightarrow>
        with_cookies cs (with_headers [(''Cache-Control'', ''no-store'')]
          (render name (d\<lparr>pg_CSRFToken := token, pg_Theme := themeFromRequest r\<rparr>))))"

definition renderLogin :: "admin \<Rightarrow> web_env \<Rightarrow> web_request \<Rightarrow> tailnetSignIn \<Rightarrow> string \<Rightarrow> int \<Rightarrow> web_reply" where
  "renderLogin h w r si msg status =
     (case issuePublicCSRF h w of (token, cs) \<Rightarrow>
        with_cookies cs (with_headers [(''Cache-Control'', ''no-store'')] (renderStatus ''login'' ((new_page ''Sign in'')\<lparr>pg_Error := msg,
          pg_CSRFToken := token, pg_Theme := themeFromRequest r, pg_Content := SignInForm si\<rparr>) status)))"

definition loginPage :: "admin \<Rightarrow> web_env \<Rightarrow> web_request \<Rightarrow> web_handler" where
  "loginPage h w r = serving (HasAnyAPIKeys_svc (we_service w 0)) (\<lambda>er. internalError w) (\<lambda>hasKeys db.
     if \<not> hasKeys then (redirect ''/admin/setup'', db)
     else (case authenticate h w r db of
        ((Inr _, cs), db') \<Rightarrow> (with_cookies cs (redirect ''/admin/jobs''), db')
      | ((Inl _, cs), db') \<Rightarrow> (with_cookies cs (renderPublicForm h w r ''login''
          ((new_page ''Sign in'')\<lparr>pg_Content := SignInForm (tailnetSignIn h w r)\<rparr>)), db')))"

definition login :: "admin \<Rightarrow> web_env \<Rightarrow> web_request \<Rightarrow> web_handler" where
  "login h w r db =
     (if \<not> validPublicCSRF r then (renderLogin h w r (tailnetSignIn h w r) ''The form expired. Please try again.'' 403, db)
      else serving (session_login h w r (FormValue r ''api_key''))
        (\<lambda>er. if errors_Is er errUnauthenticated then renderLogin h w r (tailnetSignIn h w r) ''Invalid API key.'' 401 else internalError w)
        (\<lambda>(key, co). reply_with (with_cookies [co, clearPublicCSRF h] (redirect ''/admin/jobs''))) db)"

definition tailnetLogin :: "admin \<Rightarrow> web_env \<Rightarrow> web_request \<Rightarrow> web_handler" where
  "tailnetLogin h w r db =
     (let si = tailnetSignIn h w r; ns = FormValue r ''namespace'';
          refused = renderLogin h w r si ''Your Tailscale identity may not sign in to that namespace.'' 403
      in if \<not> si_Offered si then (NotFound, db)
         else if \<not> validPublicCSRF r then (renderLogin h w r si ''The form expired. Please try again.'' 403, db)
         else if si_Login si = '''' \<or> ns \<notin> set (si_Namespaces si) then (refused, db)
         else (case we_race w of (raced, f2, raced2) \<Rightarrow>
           serving (TailnetKey (we_service w 0) raced f2 raced2 ns (si_Login si)) (\<lambda>er. internalError w) (\<lambda>key.
             if \<not> key_Enabled key then reply_with refused
             else serving (startSession h w r key) (\<lambda>er. internalError w)
               (\<lambda>co. reply_with (with_cookies [co, clearPublicCSRF h] (redirect ''/admin/jobs'')))) db))"

definition setupPage :: "admin \<Rightarrow> web_env \<Rightarrow> web_request \<Rightarrow> web_handler" where
  "setupPage h w r = serving (HasAnyAPIKeys_svc (we_service w 0)) (\<lambda>er. internalError w) (\<lambda>hasKeys.
     if hasKeys then reply_with (redirect ''/admin/login'')
     else let si = tailnetSignIn h w r;
              msg = (if ad_bootstrapToken h = '''' \<and> si_Namespaces si = []
                     then ''Set ADMIN_BOOTSTRAP_TOKEN and restart CronLite before continuing.'' else '''')
          in reply_with (renderPublicForm h w r ''setup'' ((new_page ''Set up CronLite'')\<lparr>pg_Error := msg, pg_Content := SignInForm si\<rparr>)))"

definition setup_error :: "admin \<Rightarrow> web_env \<Rightarrow> string \<Rightarrow> int \<Rightarrow> web_reply" where
  "setup_error h w msg status =
     (case issuePublicCSRF h w of (token, cs) \<Rightarrow>
        with_cookies cs (renderStatus ''setup'' ((new_page ''Set up CronLite'')\<lparr>pg_Error := msg, pg_CSRFToken := token\<rparr>) status))"

text \<open>The key that was just created signs in; if that fails the page only says so.\<close>

definition setup_complete :: "admin \<Rightarrow> web_env \<Rightarrow> web_request \<Rightarrow> CreateAPIKeyResult \<Rightarrow> web_handler" where
  "setup_complete h w r result db =
     (let d = (new_page ''Setup complete'')\<lparr>pg_Namespace := key_Namespace (ck_Key result)\<rparr>
      in case session_login h w r (ck_PlaintextToken result) db of
           (Inl er, db') \<Rightarrow>
             (with_cookies [clearPublicCSRF h] (with_headers [(''Cache-Control'', ''no-store'')] (renderStatus ''setup_complete'' (d\<lparr>pg_Notice :=
                ''Automatic sign-in was unavailable. Save this key, then sign in with it.'',
                pg_Content := SetupComplete (ck_PlaintextToken result) False\<rparr>) 200)), db')
         | (Inr (key, co), db') \<Rightarrow>
             (with_cookies [co, clearPublicCSRF h] (with_headers [(''Cache-Control'', ''no-store'')] (renderStatus ''setup_complete'' (d\<lparr>
                pg_Content := SetupComplete (ck_PlaintextToken result) True\<rparr>) 200)), db'))"

definition setup_post :: "admin \<Rightarrow> web_env \<Rightarrow> web_request \<Rightarrow> web_handler" where
  "setup_post h w r = serving (HasAnyAPIKeys_svc (we_service w 0)) (\<lambda>er. internalError w) (\<lambda>hasKeys.
     if hasKeys then reply_with (redirect ''/admin/login'')
     else if \<not> validPublicCSRF r then reply_with (setup_error h w ''The form expired. Please try again.'' 403)
     else if ad_bootstrapToken h = '''' \<or> \<not> constantTimeEqual (ad_bootstrapToken h) (FormValue r ''bootstrap_token'')
     then reply_with (setup_error h w ''Invalid installation token.'' 401)
     else let namespace = TrimSpace (we_unicode w) (FormValue r ''namespace''); label = TrimSpace (we_unicode w) (FormValue r ''label'')
          in if namespace = '''' \<or> label = '''' then reply_with (setup_error h w ''Namespace and key label are required.'' 422)
             else serving (BootstrapFirstAPIKey (we_service w 1) namespace label)
               (\<lambda>er. if errors_Is er ErrBootstrapAlreadyCompleted then redirect ''/admin/login'' else internalError w)
               (setup_complete h w r))"

definition logout :: "admin \<Rightarrow> web_env \<Rightarrow> web_request \<Rightarrow> web_handler" where
  "logout h w r = requireAuth h w r (\<lambda>auth db.
     if \<not> csrf_ok auth r then (http_Error ''invalid CSRF token'' 403, db)
     else serving (session_logout h w r) (\<lambda>er. internalError w) (\<lambda>co. reply_with (with_cookies [co]
       ((redirect ''/admin/login'')\<lparr>rp_Headers := [(''Clear-Site-Data'', [CHR 0x22] @ ''cache'' @ [CHR 0x22])]\<rparr>))) db)"

section \<open>Jobs\<close>

definition last_page :: "int \<Rightarrow> int" where
  "last_page matched = (let n = go_div (matched + 24) 25 in if n < 1 then 1 else n)"

definition jobsPage :: "admin \<Rightarrow> web_env \<Rightarrow> web_request \<Rightarrow> web_handler" where
  "jobsPage h w r = requireAuth h w r (\<lambda>auth.
     if \<not> wr_QueryOK r \<or> length (wr_RawQuery r) > 4096 then reply_with (controlError w ErrInvalidControlInput)
     else (case fleetQuery (we_unicode w) (wr_Query r) of
        Inl er \<Rightarrow> reply_with (controlError w er)
      | Inr (pg, f, view) \<Rightarrow>
          (let f = f\<lparr>jf_Namespace := key_Namespace (as_Key auth)\<rparr>;
               f = (if view = ''timeline'' then f\<lparr>jf_ListParams := \<lparr>lp_Limit = 501, lp_Offset = 0\<rparr>\<rparr> else f)
           in serving (Fleet_svc (we_service w 0) (auth_ctx auth) f) (\<lambda>er. internalError w) (\<lambda>fleet.
                if view \<noteq> ''timeline'' \<and> pg > 1 \<and> lp_Offset (jf_ListParams f) \<ge> fleet_Matched fleet
                then reply_with (redirect (withPage w r (last_page (fleet_Matched fleet))))
                else serving (ListSavedViews_svc (we_service w 1) (auth_ctx auth) (key_ID (as_Key auth))) (\<lambda>er. internalError w) (\<lambda>views.
                  let timeline = view = ''timeline''; hasNext = length (fleet_Jobs fleet) > 25;
                      (prev, next) = (if timeline then ('''', '''') else paginationURLs w r pg hasNext);
                      (pages, links) = (if timeline then (0, []) else fleetPageLinks w r pg (fleet_Matched fleet))
                  in reply_with (render ''jobs'' ((authPage auth ''Job Control Center'')\<lparr>pg_Notice := noticeText (form_get (wr_Query r) ''notice''),
                    pg_Content := JobList \<lparr>jp_Fleet = fleet, jp_Page = pg, jp_Name = jf_Name f,
                      jp_Jobs = (if timeline then fleet_Jobs fleet else take 25 (fleet_Jobs fleet)),
                      jp_EnabledFilter = form_get (wr_Query r) ''enabled'', jp_TagFilter = form_get (wr_Query r) ''tag'', jp_View = view,
                      jp_ReturnURL = fleetState w r, jp_StateQuery = savedQuery w (wr_Query r), jp_TableURL = viewURL w r ''table'',
                      jp_BoardURL = viewURL w r ''board'', jp_TimelineURL = viewURL w r ''timeline'', jp_SavedViews = views,
                      jp_Timeline = (if timeline then Some (fillTimeline w (fleet_Jobs fleet)) else None),
                      jp_PreviousURL = prev, jp_NextURL = next, jp_TotalPages = pages, jp_PageLinks = links\<rparr>\<rparr>)))))))"

definition createJobPage :: "admin \<Rightarrow> web_env \<Rightarrow> web_request \<Rightarrow> web_handler" where
  "createJobPage h w r = requireAuth h w r (\<lambda>auth.
     let tz = form_get (wr_Query r) ''timezone''
     in reply_with (render ''job_form'' ((authPage auth ''Create job'')\<lparr>pg_Content := JobForm (no_form\<lparr>jv_TimeoutSeconds := ''30'',
          jv_CronExpression := form_get (wr_Query r) ''cron_expression'', jv_Timezone := (if tz \<noteq> '''' then tz else ''UTC'')\<rparr>) False uuid_Nil ''''\<rparr>)))"

definition createJob :: "admin \<Rightarrow> web_env \<Rightarrow> web_request \<Rightarrow> web_handler" where
  "createJob h w r = requireMutation h w r (\<lambda>auth.
     case parseCreateJobForm (we_unicode w) r of
       (v, Inl msg) \<Rightarrow> reply_with (renderStatus ''job_form'' ((authPage auth ''Create job'')\<lparr>pg_Error := msg,
          pg_Content := JobForm v False uuid_Nil ''''\<rparr>) 422)
     | (v, Inr input) \<Rightarrow>
         serving (CreateJob_svc (we_service w 0) (auth_ctx auth) input)
           (\<lambda>er. if isUserError er then renderStatus ''job_form'' ((authPage auth ''Create job'')\<lparr>pg_Error := userErrorText er,
                   pg_Content := JobForm v False uuid_Nil ''''\<rparr>) 422
                 else internalError w)
           (\<lambda>(job, sch). reply_with (redirect (''/admin/jobs/'' @ we_uuidString w (job_ID job) @ ''?notice=created''))))"

definition job_executions_filter :: "form \<Rightarrow> uuid \<Rightarrow> Namespace \<Rightarrow> int \<Rightarrow> ExecutionFilter result" where
  "job_executions_filter q i ns pg =
     (let status = form_get q ''status''; trigger = form_get q ''trigger_type''
      in if status \<notin> set ['''', ''emitted'', ''in_progress'', ''delivered'', ''failed''] then Inl ErrInvalidControlInput
         else if trigger \<notin> set ['''', ''manual'', ''scheduled''] then Inl ErrInvalidControlInput
         else Inr \<lparr>ef_JobID = i, ef_Namespace = ns, ef_Status = (if status = '''' then None else Some (status_of_string status)),
           ef_TriggerType = (if trigger = '''' then None else Some (trigger_of_string trigger)), ef_Since = None, ef_Until = None,
           ef_ListParams = \<lparr>lp_Limit = 26, lp_Offset = (pg - 1) * 25\<rparr>\<rparr>)"

text \<open>A job that is paused or has no next run shows none; other failures of \<open>GetNextRunTime\<close> are errors.\<close>

definition next_runs_of :: "(time \<times> time list \<times> Schedule) result \<Rightarrow> (time list \<times> bool) option" where
  "next_runs_of res = (case res of
     Inr (_, runs, _) \<Rightarrow> Some (runs, False)
   | Inl er \<Rightarrow> if \<not> errors_Is er ErrJobDisabled \<and> \<not> errors_Is er ErrInvalidCronExpression then None
               else Some ([], errors_Is er ErrInvalidCronExpression))"

definition jobPage :: "admin \<Rightarrow> web_env \<Rightarrow> web_request \<Rightarrow> string \<Rightarrow> web_handler" where
  "jobPage h w r v = requireAuth h w r (\<lambda>auth. pathUUID w v (\<lambda>i.
     serving (GetJob_svc (we_service w 0) (auth_ctx auth) i) (handleServiceError w) (\<lambda>((job, sch), tags, _).
       case controlPage (form_get (wr_Query r) ''page'') of
         Inl er \<Rightarrow> reply_with (controlError w er)
       | Inr pg \<Rightarrow>
           (case job_executions_filter (wr_Query r) i (key_Namespace (as_Key auth)) pg of
              Inl er \<Rightarrow> reply_with (controlError w er)
            | Inr f \<Rightarrow>
                serving (ListExecutions_svc (we_service w 1) (auth_ctx auth) f) (\<lambda>er. internalError w) (\<lambda>execs db.
                  (case GetNextRunTime (we_service w 2) (auth_ctx auth) i db of (res, db') \<Rightarrow>
                     (case next_runs_of res of
                        None \<Rightarrow> (internalError w, db')
                      | Some (runs, bad) \<Rightarrow>
                          (render ''job_detail'' ((authPage auth (job_Name job))\<lparr>pg_Notice := noticeText (form_get (wr_Query r) ''notice''),
                             pg_Error := (if bad then ''This schedule has no calculable next run. Check the cron expression and timezone.'' else ''''),
                             pg_Content := JobDetails \<lparr>jo_Job = job, jo_Schedule = sch, jo_Tags = tags, jo_Executions = take 25 execs,
                               jo_NextRuns = runs, jo_ReturnURL = safeReturn w (form_get (wr_Query r) ''return''),
                               jo_StatusFilter = form_get (wr_Query r) ''status'', jo_TriggerFilter = form_get (wr_Query r) ''trigger_type'',
                               jo_PreviousURL = (if pg > 1 then withPage w r (pg - 1) else ''''),
                               jo_NextURL = (if length execs > 25 then withPage w r (pg + 1) else '''')\<rparr>\<rparr>), db'))))))))"

definition editJobPage :: "admin \<Rightarrow> web_env \<Rightarrow> web_request \<Rightarrow> string \<Rightarrow> web_handler" where
  "editJobPage h w r v = requireAuth h w r (\<lambda>auth. pathUUID w v (\<lambda>i.
     serving (GetJob_svc (we_service w 0) (auth_ctx auth) i) (handleServiceError w) (\<lambda>((job, sch), tags, _).
       reply_with (render ''job_form'' ((authPage auth (''Edit '' @ job_Name job))\<lparr>pg_Content :=
         JobForm (edit_form job sch tags) True (job_ID job) (safeReturn w (form_get (wr_Query r) ''return''))\<rparr>)))))"

definition editJob :: "admin \<Rightarrow> web_env \<Rightarrow> web_request \<Rightarrow> string \<Rightarrow> web_handler" where
  "editJob h w r v = requireMutation h w r (\<lambda>auth. pathUUID w v (\<lambda>i.
     (let again = (\<lambda>vals msg. renderStatus ''job_form'' ((authPage auth ''Edit job'')\<lparr>pg_Error := msg,
            pg_Content := JobForm vals True i (safeReturn w (FormValue r ''return''))\<rparr>) 422)
      in case parseUpdateJobForm (we_unicode w) r of
           (vals, Inl msg) \<Rightarrow> reply_with (again vals msg)
         | (vals, Inr input) \<Rightarrow>
             serving (UpdateJob_svc (we_service w 0) (auth_ctx auth) i input)
               (\<lambda>er. if isUserError er then again vals (userErrorText er) else handleServiceError w er)
               (\<lambda>_. reply_with (redirect (actionRedirect w i ''updated'' (FormValue r ''return'')))))))"

definition deleteJobPage :: "admin \<Rightarrow> web_env \<Rightarrow> web_request \<Rightarrow> string \<Rightarrow> web_handler" where
  "deleteJobPage h w r v = requireAuth h w r (\<lambda>auth. pathUUID w v (\<lambda>i.
     serving (GetJob_svc (we_service w 0) (auth_ctx auth) i) (handleServiceError w) (\<lambda>((job, sch), _, _).
       reply_with (render ''delete_job'' ((authPage auth (''Delete '' @ job_Name job))\<lparr>pg_Content :=
         JobDelete job sch (safeReturn w (form_get (wr_Query r) ''return''))\<rparr>)))))"

definition deleteJob :: "admin \<Rightarrow> web_env \<Rightarrow> web_request \<Rightarrow> string \<Rightarrow> web_handler" where
  "deleteJob h w r v = requireMutation h w r (\<lambda>auth. pathUUID w v (\<lambda>i.
     serving (DeleteJob_svc (we_service w 0) (auth_ctx auth) i) (handleServiceError w)
       (\<lambda>_. reply_with (redirect (deleteRedirect w (FormValue r ''return''))))))"

definition jobAction :: "admin \<Rightarrow> web_env \<Rightarrow> web_request \<Rightarrow> string \<Rightarrow> string \<Rightarrow> (svc_env \<Rightarrow> ctx \<Rightarrow> uuid \<Rightarrow> 'a stmt) \<Rightarrow> web_handler" where
  "jobAction h w r v notice action = requireMutation h w r (\<lambda>auth. pathUUID w v (\<lambda>i.
     serving (action (we_service w 0) (auth_ctx auth) i) (handleServiceError w)
       (\<lambda>_. reply_with (redirect (actionRedirect w i notice (FormValue r ''return''))))))"

definition pauseJob :: "admin \<Rightarrow> web_env \<Rightarrow> web_request \<Rightarrow> string \<Rightarrow> web_handler" where
  "pauseJob h w r v = jobAction h w r v ''paused'' PauseJob"

definition resumeJob :: "admin \<Rightarrow> web_env \<Rightarrow> web_request \<Rightarrow> string \<Rightarrow> web_handler" where
  "resumeJob h w r v = jobAction h w r v ''resumed'' ResumeJob"

definition triggerJob :: "admin \<Rightarrow> web_env \<Rightarrow> web_request \<Rightarrow> string \<Rightarrow> web_handler" where
  "triggerJob h w r v = jobAction h w r v ''triggered'' TriggerNow"

definition executionPage :: "admin \<Rightarrow> web_env \<Rightarrow> web_request \<Rightarrow> string \<Rightarrow> web_handler" where
  "executionPage h w r v = requireAuth h w r (\<lambda>auth. pathUUID w v (\<lambda>i.
     serving (GetExecution_svc (we_service w 0) (auth_ctx auth) i) (handleServiceError w) (\<lambda>(exec, attempts).
       reply_with (render ''execution'' ((authPage auth (''Execution '' @ we_uuidString w (ex_ID exec)))\<lparr>pg_Content :=
         ExecutionDetails exec attempts (safeReturn w (form_get (wr_Query r) ''return''))\<rparr>)))))"

section \<open>Keys, schedules and settings\<close>

definition keysPage :: "admin \<Rightarrow> web_env \<Rightarrow> web_request \<Rightarrow> web_handler" where
  "keysPage h w r = requireAuth h w r (\<lambda>auth.
     let pg = positivePage (form_get (wr_Query r) ''page'')
     in serving (ListAPIKeys (we_service w 0) (auth_ctx auth) \<lparr>lp_Limit = 26, lp_Offset = (pg - 1) * 25\<rparr>) (\<lambda>er. internalError w) (\<lambda>ks.
          case paginationURLs w r pg (length ks > 25) of (prev, next) \<Rightarrow>
            reply_with (render ''keys'' ((authPage auth ''API keys'')\<lparr>
              pg_Notice := (if form_get (wr_Query r) ''notice'' = ''deleted'' then ''API key revoked. Sessions using it can no longer sign in.'' else ''''),
              pg_Content := KeyList (key_ID (as_Key auth)) pg (take 25 ks) prev next\<rparr>))))"

definition createKey :: "admin \<Rightarrow> web_env \<Rightarrow> web_request \<Rightarrow> web_handler" where
  "createKey h w r = requireMutation h w r (\<lambda>auth.
     let label = TrimSpace (we_unicode w) (FormValue r ''label'')
     in if label = '''' \<or> rune_count label > 128
        then reply_with (renderStatus ''key_new'' ((authPage auth ''Create API key'')\<lparr>pg_Error := ''Enter a key label of 1'' @ en_dash_utf8 @ ''128 characters.'',
          pg_Content := KeyForm label\<rparr>) 422)
        else serving (CreateAPIKey (we_service w 0) (auth_ctx auth) label) (\<lambda>er. internalError w) (\<lambda>result.
          reply_with (render ''key_created'' ((authPage auth ''API key created'')\<lparr>
            pg_Content := KeyCreated (ck_PlaintextToken result) (key_Label (ck_Key result))\<rparr>))))"

text \<open>The loop over the pages of keys, with the number of the page; \<open>None\<close> is a loop that does not end.\<close>

partial_function (option) find_key :: "web_env \<Rightarrow> ctx \<Rightarrow> uuid \<Rightarrow> nat \<Rightarrow> db \<Rightarrow> (APIKey option result \<times> db) option" where
  "find_key w c i n db =
     (case ListAPIKeys (we_service w n) c \<lparr>lp_Limit = 1000, lp_Offset = 1000 * int n\<rparr> db of
        (Inl er, db') \<Rightarrow> Some (Inl er, db')
      | (Inr ks, db') \<Rightarrow>
          (case find (\<lambda>k. key_ID k = i) ks of
             Some k \<Rightarrow> Some (Inr (Some k), db')
           | None \<Rightarrow> if length ks < 1000 then Some (Inr None, db') else find_key w c i (Suc n) db'))"

definition deleteKeyPage :: "admin \<Rightarrow> web_env \<Rightarrow> web_request \<Rightarrow> string \<Rightarrow> web_handler" where
  "deleteKeyPage h w r v = requireAuth h w r (\<lambda>auth. pathUUID w v (\<lambda>i db.
     (case find_key w (auth_ctx auth) i 0 db of
        None \<Rightarrow> (answer 0 NoAnswer, db)
      | Some (Inl er, db') \<Rightarrow> (internalError w, db')
      | Some (Inr None, db') \<Rightarrow> (handleServiceError w ErrAPIKeyNotFound, db')
      | Some (Inr (Some k), db') \<Rightarrow>
          (render ''key_delete'' ((authPage auth ''Revoke API key'')\<lparr>pg_Content := KeyDelete k (key_ID (as_Key auth))\<rparr>), db'))))"

definition deleteKey :: "admin \<Rightarrow> web_env \<Rightarrow> web_request \<Rightarrow> string \<Rightarrow> web_handler" where
  "deleteKey h w r v = requireMutation h w r (\<lambda>auth. pathUUID w v (\<lambda>i.
     if i = key_ID (as_Key auth)
     then reply_with (renderStatus ''error'' ((authPage auth ''Key in use'')\<lparr>pg_Error :=
       ''Sign in with another key before revoking your current key. Create a replacement in API keys first.''\<rparr>) 409)
     else serving (DeleteAPIKey (we_service w 0) (auth_ctx auth) i) (handleServiceError w)
       (\<lambda>_. reply_with (redirect ''/admin/keys?notice=deleted''))))"

definition onboardingPage :: "admin \<Rightarrow> web_env \<Rightarrow> web_request \<Rightarrow> web_handler" where
  "onboardingPage h w r = requireAuth h w r (\<lambda>auth db.
     (case Fleet_svc (we_service w 0) (auth_ctx auth) \<lparr>jf_Namespace = key_Namespace (as_Key auth), jf_Tags = [], jf_Enabled = None, jf_Name = '''',
          jf_ListParams = \<lparr>lp_Limit = 1, lp_Offset = 0\<rparr>\<rparr> db of (res, db') \<Rightarrow>
        (render ''onboarding'' ((authPage auth ''Welcome to your workspace'')\<lparr>pg_Content :=
          Onboarding (case res of Inl _ \<Rightarrow> None | Inr fleet \<Rightarrow> Some fleet)\<rparr>), db')))"

definition settingsPage :: "admin \<Rightarrow> web_env \<Rightarrow> web_request \<Rightarrow> web_handler" where
  "settingsPage h w r = requireAuth h w r (\<lambda>auth.
     reply_with (render ''settings'' ((authPage auth ''Settings'')\<lparr>pg_Notice := noticeText (form_get (wr_Query r) ''notice''),
       pg_Content := Settings (ad_runtimeSettings h) (ad_idleTTL h) (ad_absoluteTTL h) (ad_cookieSecure h)\<rparr>)))"

definition saveAppearance :: "admin \<Rightarrow> web_env \<Rightarrow> web_request \<Rightarrow> web_handler" where
  "saveAppearance h w r = requireMutation h w r (\<lambda>auth.
     let theme = FormValue r ''theme'';
         co = \<lparr>co_Name = ''cronlite_admin_theme'', co_Value = '''', co_Path = ''/admin'', co_HttpOnly = True, co_Secure = ad_cookieSecure h,
           co_SameSite = SameSiteLax, co_Expires = None, co_MaxAge = 0\<rparr>;
         saved = (\<lambda>co. with_cookies [co] (redirect ''/admin/settings?notice=appearance''))
     in if theme = ''light'' \<or> theme = ''dark'' then reply_with (saved (co\<lparr>co_Value := theme, co_MaxAge := 365 * 24 * 60 * 60\<rparr>))
        else if theme = ''auto'' then reply_with (saved (co\<lparr>co_MaxAge := -1, co_Expires := Some (Unix 1)\<rparr>))
        else reply_with (http_Error ''invalid theme'' 400))"

definition schedulePage :: "admin \<Rightarrow> web_env \<Rightarrow> web_request \<Rightarrow> web_handler" where
  "schedulePage h w r = requireAuth h w r (\<lambda>auth.
     reply_with (render ''schedule'' ((authPage auth ''Schedule builder'')\<lparr>pg_Content := ScheduleForm '''' ''UTC'' None\<rparr>)))"

definition resolveSchedule :: "admin \<Rightarrow> web_env \<Rightarrow> web_request \<Rightarrow> web_handler" where
  "resolveSchedule h w r = requireMutation h w r (\<lambda>auth.
     let description = TrimSpace (we_unicode w) (FormValue r ''description''); tz = TrimSpace (we_unicode w) (FormValue r ''timezone'');
         d = (authPage auth ''Schedule builder'')\<lparr>pg_Content := ScheduleForm description tz None\<rparr>
     in case ResolveSchedule (we_service w 0) description tz of
          Inl er \<Rightarrow>
            if errors_Is er ErrScheduleParseFailure \<or> errors_Is er ErrInvalidTimezone \<or> errors_Is er ErrInvalidCronExpression
            then reply_with (renderStatus ''schedule'' (d\<lparr>pg_Error :=
              ''Enter a valid timezone and a schedule such as every 15 minutes, daily at 9am, or 0 9 * * *.''\<rparr>) 422)
            else reply_with (internalError w)
        | Inr result \<Rightarrow> reply_with (render ''schedule'' (d\<lparr>pg_Content := ScheduleForm description tz (Some result)\<rparr>)))"

section \<open>Executions\<close>

definition executionsPage :: "admin \<Rightarrow> web_env \<Rightarrow> web_request \<Rightarrow> web_handler" where
  "executionsPage h w r = requireAuth h w r (\<lambda>auth.
     let status = form_get (wr_Query r) ''status''; trigger = form_get (wr_Query r) ''trigger_type''; pending = (status = ''pending'');
         pg0 = positivePage (form_get (wr_Query r) ''page''); pg = (if pending then 1 else pg0);
         f = \<lparr>ef_JobID = uuid_Nil, ef_Namespace = '''',
           ef_Status = (if status \<in> set [''emitted'', ''in_progress'', ''delivered'', ''failed''] then Some (status_of_string status) else None),
           ef_TriggerType = (if trigger \<in> set [''scheduled'', ''manual''] then Some (trigger_of_string trigger) else None),
           ef_Since = None, ef_Until = None, ef_ListParams = \<lparr>lp_Limit = 26, lp_Offset = (pg0 - 1) * 25\<rparr>\<rparr>
     in serving (if pending then ListPendingAck_svc (we_service w 0) (auth_ctx auth) None 1000
                 else ListExecutions_svc (we_service w 0) (auth_ctx auth) f) (\<lambda>er. internalError w) (\<lambda>execs.
          let hasNext = \<not> pending \<and> length execs > 25
          in case paginationURLs w r pg hasNext of (prev, next) \<Rightarrow>
            reply_with (render ''executions'' ((authPage auth ''Executions'')\<lparr>
              pg_Notice := (if form_get (wr_Query r) ''notice'' = ''acknowledged'' then ''Execution acknowledged.'' else ''''),
              pg_Content := ExecutionList pg status trigger pending (if hasNext then take 25 execs else execs) prev next\<rparr>))))"

definition ackExecution :: "admin \<Rightarrow> web_env \<Rightarrow> web_request \<Rightarrow> string \<Rightarrow> web_handler" where
  "ackExecution h w r v = requireMutation h w r (\<lambda>auth. pathUUID w v (\<lambda>i.
     serving (AckExecution_svc (we_service w 0) (auth_ctx auth) i) (handleServiceError w)
       (\<lambda>_. reply_with (redirect ''/admin/executions?status=pending&notice=acknowledged''))))"

section \<open>The control centre\<close>

definition runsPage :: "admin \<Rightarrow> web_env \<Rightarrow> web_request \<Rightarrow> web_handler" where
  "runsPage h w r = requireAuth h w r (\<lambda>auth.
     case runsQuery (wr_Query r) (we_now w 2) of
       Inl er \<Rightarrow> reply_with (controlError w er)
     | Inr (pg, f, window, view) \<Rightarrow>
         serving (Runs_svc (we_service w 0) (auth_ctx auth) f) (\<lambda>er. internalError w) (\<lambda>runs.
           if pg > 1 \<and> lp_Offset (ef_ListParams f) \<ge> runs_Total runs
           then reply_with (redirect (withPage w r (last_page (runs_Total runs))))
           else let shown = take 25 (runs_Runs runs)
                in case paginationURLs w r pg (length (runs_Runs runs) > 25) of (prev, next) \<Rightarrow>
                  reply_with (render ''runs'' ((authPage auth ''Runs'')\<lparr>pg_Content := RunList \<lparr>ru_Page = pg, ru_Total = runs_Total runs,
                    ru_Window = window, ru_View = view, ru_StatusFilter = form_get (wr_Query r) ''status'',
                    ru_TriggerFilter = form_get (wr_Query r) ''trigger_type'', ru_ReturnURL = safeReturn w (wr_RequestURI r),
                    ru_TableURL = viewURL w r ''table'', ru_BoardURL = viewURL w r ''board'', ru_Runs = shown,
                    ru_PreviousURL = prev, ru_NextURL = next,
                    ru_Columns = map (\<lambda>(status, label). (status, label, filter (\<lambda>run. status_string (ex_Status (run_Execution run)) = status) shown))
                      [(''emitted'', ''Queued (emitted)''), (''in_progress'', ''In progress''), (''delivered'', ''Delivered''), (''failed'', ''Failed'')]\<rparr>\<rparr>))))"

definition saveView :: "admin \<Rightarrow> web_env \<Rightarrow> web_request \<Rightarrow> web_handler" where
  "saveView h w r = requireMutation h w r (\<lambda>auth.
     serving (SaveView_svc (we_service w 0) (auth_ctx auth) (key_ID (as_Key auth)) (form_get (wr_PostForm r) ''view_name'') (form_get (wr_PostForm r) ''query''))
       (controlError w) (\<lambda>_. reply_with (redirect (safeReturn w (form_get (wr_PostForm r) ''return'')))))"

definition deleteView :: "admin \<Rightarrow> web_env \<Rightarrow> web_request \<Rightarrow> string \<Rightarrow> web_handler" where
  "deleteView h w r v = requireMutation h w r (\<lambda>auth. pathUUID w v (\<lambda>i.
     serving (DeleteView_svc (we_service w 0) (auth_ctx auth) (key_ID (as_Key auth)) i) (controlError w)
       (\<lambda>_. reply_with (redirect (safeReturn w (form_get (wr_PostForm r) ''return''))))))"

definition bulk_redirect :: "web_env \<Rightarrow> web_request \<Rightarrow> uuid \<Rightarrow> web_handler" where
  "bulk_redirect w r i = reply_with (redirect (''/admin/bulk/'' @ we_uuidString w i @ ''?'' @ returnQuery w (form_get (wr_PostForm r) ''return'')))"

definition previewBulk :: "admin \<Rightarrow> web_env \<Rightarrow> web_request \<Rightarrow> web_handler" where
  "previewBulk h w r = requireMutation h w r (\<lambda>auth.
     let rawIDs = (case map_of (wr_PostForm r) ''job_id'' of None \<Rightarrow> [] | Some vs \<Rightarrow> vs)
     in if length rawIDs < 1 \<or> length rawIDs > MaxBulkJobs then reply_with (controlError w ErrInvalidControlInput)
        else (case those (map (we_parseUUID w) rawIDs) of
            None \<Rightarrow> reply_with (controlError w ErrInvalidControlInput)
          | Some ids \<Rightarrow>
              serving (PreviewBulk_svc (we_service w 0) (auth_ctx auth) (key_ID (as_Key auth)) (form_get (wr_PostForm r) ''action'') ids)
                (controlError w) (\<lambda>batch. bulk_redirect w r (bulk_ID batch))))"

definition count_results :: "(string \<Rightarrow> bool) \<Rightarrow> BulkBatch \<Rightarrow> int" where
  "count_results P b = int (length (filter (\<lambda>item. P (item_Result item)) (bulk_Items b)))"

definition bulkPage :: "admin \<Rightarrow> web_env \<Rightarrow> web_request \<Rightarrow> string \<Rightarrow> web_handler" where
  "bulkPage h w r v = requireAuth h w r (\<lambda>auth. pathUUID w v (\<lambda>i.
     serving (GetBulk_svc (we_service w 0) (auth_ctx auth) (key_ID (as_Key auth)) i) (controlError w) (\<lambda>batch.
       reply_with (render ''bulk'' ((authPage auth (''Bulk '' @ bulk_Action batch))\<lparr>pg_Content := BulkDetails batch
         (count_results (\<lambda>s. s = ''applied'') batch) (count_results (\<lambda>s. s = ''unchanged'') batch)
         (count_results (\<lambda>s. s \<notin> set [''applied'', ''unchanged'', '''']) batch) (safeReturn w (form_get (wr_Query r) ''return''))\<rparr>)))))"

definition confirmBulk :: "admin \<Rightarrow> web_env \<Rightarrow> web_request \<Rightarrow> string \<Rightarrow> web_handler" where
  "confirmBulk h w r v = requireMutation h w r (\<lambda>auth. pathUUID w v (\<lambda>i.
     if form_get (wr_PostForm r) ''confirm'' \<noteq> ''yes'' then reply_with (controlError w ErrInvalidControlInput)
     else (case we_items w of (selErr, updErr) \<Rightarrow>
       serving (ConfirmBulk_svc (we_service w 0) selErr updErr (auth_ctx auth) (key_ID (as_Key auth)) i) (controlError w)
         (\<lambda>_. bulk_redirect w r i))))"

definition bulkHistory :: "admin \<Rightarrow> web_env \<Rightarrow> web_request \<Rightarrow> web_handler" where
  "bulkHistory h w r = requireAuth h w r (\<lambda>auth.
     serving (ListBulk_svc (we_service w 0) (auth_ctx auth) (key_ID (as_Key auth))) (\<lambda>er. internalError w) (\<lambda>batches.
       reply_with (render ''bulk_history'' ((authPage auth ''Bulk action history'')\<lparr>pg_Content := BulkList batches\<rparr>))))"

definition bulkResultText :: "string \<Rightarrow> string" where
  "bulkResultText result = (case map_of [(''applied'', ''Applied''), (''unchanged'', ''Already in requested state''),
     (''conflict'', ''Changed since preview; select again''), (''unavailable'', ''Job no longer available''),
     (''failed'', ''Failed; select again to retry'')] result of None \<Rightarrow> ''Awaiting confirmation'' | Some t \<Rightarrow> t)"

section \<open>The tailnet page\<close>

definition tailnet_suffix :: "TailnetConfig \<Rightarrow> string" where
  "tailnet_suffix c = (case tc_Node c of None \<Rightarrow> '''' | Some n \<Rightarrow> nd_Suffix n)"

definition no_target :: tailnetTarget where
  "no_target = \<lparr>tt_Tailnet = False, tt_Host = '''', tt_Allowed = False, tt_Reason = ''''\<rparr>"

definition tailnet_target :: "svc_env \<Rightarrow> TailnetConfig \<Rightarrow> string \<Rightarrow> string \<Rightarrow> tailnetTarget" where
  "tailnet_target e c namespace rawURL =
     (case sv_parseURL e rawURL of
        Inl _ \<Rightarrow> no_target
      | Inr u \<Rightarrow>
          (case TailnetRelativeHost (sv_unicode e) (sv_parseAddr e) (sv_toASCII e) (u_Hostname u) (tailnet_suffix c) of (rel, ok) \<Rightarrow>
             if \<not> ok then no_target
             else let t = no_target\<lparr>tt_Tailnet := True, tt_Host := rel\<rparr>
                  in if \<not> tc_Delivery c then t\<lparr>tt_Reason := ''Tailnet delivery is off (WEBHOOK_ALLOW_TAILNET).''\<rparr>
                     else if Check (sv_unicode e) (sv_parseAddr e) (sv_toASCII e) (tc_Policy c) namespace (u_Hostname u) (tailnet_suffix c) \<noteq> None
                     then t\<lparr>tt_Reason := ''This namespace may not call this host (WEBHOOK_TAILNET_HOSTS).''\<rparr>
                     else t\<lparr>tt_Allowed := True\<rparr>))"

definition tailnet_hint :: "TailnetConfig \<Rightarrow> string \<Rightarrow> string \<times> bool \<times> bool \<times> string list" where
  "tailnet_hint c namespace = (tailnet_suffix c, tc_Delivery c, if tc_Delivery c then Hosts (tc_Policy c) namespace else (False, []))"

text \<open>The pages of jobs that are inspected; \<open>n\<close> is the number of the page, of four.\<close>

fun tailnetJobs :: "admin \<Rightarrow> web_env \<Rightarrow> ctx \<Rightarrow> Namespace \<Rightarrow> nat \<Rightarrow> nat \<Rightarrow> (JobWithSchedule \<times> tailnetTarget) list
    \<Rightarrow> ((JobWithSchedule \<times> tailnetTarget) list \<times> bool) stmt" where
  "tailnetJobs h w c ns n 0 out db = (Inr (out, True), db)"
| "tailnetJobs h w c ns n (Suc k) out db =
     (case ListJobsWithSchedules_svc (we_service w n) c \<lparr>jf_Namespace = ns, jf_Tags = [], jf_Enabled = None, jf_Name = '''',
          jf_ListParams = \<lparr>lp_Limit = 500, lp_Offset = 500 * int n\<rparr>\<rparr> db of
        (Inl er, db') \<Rightarrow> (Inl er, db')
      | (Inr rows, db') \<Rightarrow>
          (let out = out @ filter (\<lambda>(row, t). tt_Tailnet t)
                 (map (\<lambda>row. (row, tailnet_target (we_session w) (ad_tailnet h) ns (dc_WebhookURL (job_Delivery (fst row))))) rows)
           in if length rows < 500 then (Inr (out, False), db') else tailnetJobs h w c ns (Suc n) k out db'))"

definition no_info :: Info where
  "no_info = \<lparr>in_BackendState = '''', in_Online = False, in_DNSName = '''', in_TailnetName = '''', in_LoginName = '''', in_Tags = [],
     in_KeyExpiry = 0, in_Health = []\<rparr>"

definition no_view :: "TailnetConfig \<Rightarrow> tailnetView" where
  "no_view c = \<lparr>tv_Config = c, tv_Started = False, tv_Running = False, tv_Info = no_info, tv_InfoError = False,
     tv_Suffix = '''', tv_Addrs = [], tv_CertDomain = '''', tv_KeyExpiresSoon = False, tv_AllHosts = False, tv_Hosts = [],
     tv_ViaTailnet = False, tv_Jobs = [], tv_JobsLimited = False\<rparr>"

definition tailnetPage :: "admin \<Rightarrow> web_env \<Rightarrow> web_request \<Rightarrow> web_handler" where
  "tailnetPage h w r = requireAuth h w r (\<lambda>auth.
     let cfg = ad_tailnet h; ns = key_Namespace (as_Key auth);
         (allHosts, hosts) = (if tc_Delivery cfg then Hosts (tc_Policy cfg) ns else (False, []));
         view = (no_view (cfg\<lparr>tc_Policy := None, tc_Node := None\<rparr>))\<lparr>tv_AllHosts := allHosts, tv_Hosts := hosts\<rparr>;
         show = (\<lambda>view. reply_with (render ''tailscale'' ((authPage auth ''Tailscale'')\<lparr>pg_Content := TailnetDetails view\<rparr>)))
     in case tc_Node cfg of
          None \<Rightarrow> show view
        | Some node \<Rightarrow>
            (let info = (case nd_Info node of Inl _ \<Rightarrow> no_info | Inr i \<Rightarrow> i);
                 view = view\<lparr>tv_Started := True, tv_InfoError := isl (nd_Info node), tv_Info := info,
                   tv_Running := (\<not> isl (nd_Info node) \<and> in_BackendState info = ''Running''), tv_Suffix := nd_Suffix node,
                   tv_Addrs := nd_SelfAddrs node, tv_CertDomain := nd_CertDomain node,
                   tv_KeyExpiresSoon := (\<not> IsZero (in_KeyExpiry info) \<and> in_KeyExpiry info - we_now w 2 < 14 * 24 * Hour),
                   tv_ViaTailnet := wr_ViaTailnet r\<rparr>
             in serving (tailnetJobs h w (auth_ctx auth) ns 0 4 []) (\<lambda>er. internalError w) (\<lambda>(jobs, limited).
                  show (view\<lparr>tv_Jobs := jobs, tv_JobsLimited := limited\<rparr>))))"

section \<open>Assets and routes\<close>

definition asset :: "string \<Rightarrow> (string \<times> string) list \<Rightarrow> web_handler" where
  "asset name headers = reply_with ((answer 200 (Asset name))\<lparr>rp_Headers := headers\<rparr>)"

definition cached :: "string \<times> string" where
  "cached = (''Cache-Control'', ''public, max-age=86400'')"

definition serveCSS :: web_handler where
  "serveCSS = asset ''admin.css'' [(''Content-Type'', ''text/css; charset=utf-8''), cached]"

definition serveJobsScript :: web_handler where
  "serveJobsScript = asset ''jobs.js'' [(''Content-Type'', ''text/javascript; charset=utf-8'')]"

definition serveFont :: web_handler where
  "serveFont = asset ''jetbrains-mono.woff2'' [(''Content-Type'', ''font/woff2''), cached]"

definition serveIcon :: web_handler where
  "serveIcon = asset ''favicon.svg'' [(''Content-Type'', ''image/svg+xml''), cached]"

definition adminRoot :: "web_request \<Rightarrow> web_handler" where
  "adminRoot r = reply_with (if wr_Path r \<noteq> ''/admin'' \<and> wr_Path r \<noteq> ''/admin/'' then NotFound else answer 307 (Location ''/admin/jobs''))"

text \<open>The routes, with the value of the wildcard. \<open>GET /admin/\<close> takes every other path below \<open>/admin\<close>.\<close>

definition admin_routes :: "admin \<Rightarrow> web_env \<Rightarrow> web_request \<Rightarrow> (string \<Rightarrow> web_handler) route list" where
  "admin_routes h w r =
     (let a = Lit ''admin''
      in [route ''GET'' [a, Lit ''assets'', Lit ''admin.css''] (\<lambda>v. serveCSS),
          route ''GET'' [a, Lit ''assets'', Lit ''jobs.js''] (\<lambda>v. serveJobsScript),
          route ''GET'' [a, Lit ''assets'', Lit ''jetbrains-mono.woff2''] (\<lambda>v. serveFont),
          route ''GET'' [a, Lit ''assets'', Lit ''favicon.svg''] (\<lambda>v. serveIcon),
          route ''GET'' [a, Lit ''keys''] (\<lambda>v. keysPage h w r),
          route ''POST'' [a, Lit ''keys''] (\<lambda>v. createKey h w r),
          route ''GET'' [a, Lit ''keys'', Wild, Lit ''delete''] (deleteKeyPage h w r),
          route ''POST'' [a, Lit ''keys'', Wild, Lit ''delete''] (deleteKey h w r),
          route ''GET'' [a, Lit ''onboarding''] (\<lambda>v. onboardingPage h w r),
          route ''GET'' [a, Lit ''settings''] (\<lambda>v. settingsPage h w r),
          route ''POST'' [a, Lit ''settings'', Lit ''appearance''] (\<lambda>v. saveAppearance h w r),
          route ''GET'' [a, Lit ''tailscale''] (\<lambda>v. tailnetPage h w r),
          route ''GET'' [a, Lit ''schedule''] (\<lambda>v. schedulePage h w r),
          route ''POST'' [a, Lit ''schedule''] (\<lambda>v. resolveSchedule h w r),
          route ''GET'' [a, Lit ''executions''] (\<lambda>v. executionsPage h w r),
          route ''POST'' [a, Lit ''executions'', Wild, Lit ''ack''] (ackExecution h w r),
          route ''GET'' [a, Lit ''login''] (\<lambda>v. loginPage h w r),
          route ''POST'' [a, Lit ''login''] (\<lambda>v. login h w r),
          route ''POST'' [a, Lit ''login'', Lit ''tailscale''] (\<lambda>v. tailnetLogin h w r),
          route ''GET'' [a, Lit ''setup''] (\<lambda>v. setupPage h w r),
          route ''POST'' [a, Lit ''setup''] (\<lambda>v. setup_post h w r),
          route ''POST'' [a, Lit ''logout''] (\<lambda>v. logout h w r),
          route ''GET'' [a, Lit ''jobs''] (\<lambda>v. jobsPage h w r),
          route ''GET'' [a, Lit ''runs''] (\<lambda>v. runsPage h w r),
          route ''POST'' [a, Lit ''views''] (\<lambda>v. saveView h w r),
          route ''POST'' [a, Lit ''views'', Wild, Lit ''delete''] (deleteView h w r),
          route ''POST'' [a, Lit ''bulk'', Lit ''preview''] (\<lambda>v. previewBulk h w r),
          route ''POST'' [a, Lit ''bulk'', Wild, Lit ''confirm''] (confirmBulk h w r),
          route ''GET'' [a, Lit ''bulk'', Wild] (bulkPage h w r),
          route ''GET'' [a, Lit ''bulk''] (\<lambda>v. bulkHistory h w r),
          route ''GET'' [a, Lit ''jobs'', Lit ''new''] (\<lambda>v. createJobPage h w r),
          route ''POST'' [a, Lit ''jobs'', Lit ''new''] (\<lambda>v. createJob h w r),
          route ''GET'' [a, Lit ''jobs'', Wild] (jobPage h w r),
          route ''GET'' [a, Lit ''jobs'', Wild, Lit ''edit''] (editJobPage h w r),
          route ''POST'' [a, Lit ''jobs'', Wild, Lit ''edit''] (editJob h w r),
          route ''GET'' [a, Lit ''jobs'', Wild, Lit ''delete''] (deleteJobPage h w r),
          route ''POST'' [a, Lit ''jobs'', Wild, Lit ''delete''] (deleteJob h w r),
          route ''POST'' [a, Lit ''jobs'', Wild, Lit ''pause''] (pauseJob h w r),
          route ''POST'' [a, Lit ''jobs'', Wild, Lit ''resume''] (resumeJob h w r),
          route ''POST'' [a, Lit ''jobs'', Wild, Lit ''trigger''] (triggerJob h w r),
          route ''GET'' [a, Lit ''executions'', Wild] (executionPage h w r)])"

definition admin_mux :: "admin \<Rightarrow> web_env \<Rightarrow> web_request \<Rightarrow> web_handler" where
  "admin_mux h w r db =
     (let path = wr_EscapedPath r; rs = admin_routes h w r
      in if \<not> is_clean path \<and> wr_Method r \<noteq> ''CONNECT'' then (answer 301 NoAnswer, db)
         else case find_route rs (wr_Method r) path of
           Some rt \<Rightarrow> rt_Handler rt (case match_segments (rt_Pattern rt) (segments path) of Some (v # _) \<Rightarrow> v | _ \<Rightarrow> []) db
         | None \<Rightarrow>
             if segments path \<noteq> [] \<and> pathUnescape (hd (segments path)) = ''admin''
             then (if method_matches ''GET'' (wr_Method r) then adminRoot r db else (http_Error ''Method Not Allowed'' 405, db))
             else (NotFound, db))"

section \<open>The chain in front of the routes\<close>

fun replace_first :: "string \<Rightarrow> string \<Rightarrow> string \<Rightarrow> string" where
  "replace_first old new [] = (if old = [] then new else [])"
| "replace_first old new (c # cs) = (if HasPrefix (c # cs) old then new @ drop (length old) (c # cs) else c # replace_first old new cs)"

definition single_quoted :: "string \<Rightarrow> string" where
  "single_quoted s = [CHR 0x27] @ s @ [CHR 0x27]"

definition adminCSP :: string where
  "adminCSP = ''default-src '' @ single_quoted ''self'' @ ''; script-src '' @ single_quoted ''none'' @ ''; style-src '' @ single_quoted ''self''
     @ ''; img-src '' @ single_quoted ''self'' @ ''; font-src '' @ single_quoted ''self'' @ ''; connect-src '' @ single_quoted ''none''
     @ ''; object-src '' @ single_quoted ''none'' @ ''; base-uri '' @ single_quoted ''none'' @ ''; form-action '' @ single_quoted ''self''
     @ ''; frame-ancestors '' @ single_quoted ''none''"

text \<open>The integrity hash of the script is computed from the embedded file, an argument.\<close>

definition adminPolicy :: "string \<Rightarrow> string \<Rightarrow> string" where
  "adminPolicy jobsScriptIntegrity path =
     (if path \<noteq> ''/admin/jobs'' then adminCSP
      else replace_first (''connect-src '' @ single_quoted ''none'') (''connect-src '' @ single_quoted ''self'')
        (replace_first (''script-src '' @ single_quoted ''none'') (''script-src '' @ single_quoted jobsScriptIntegrity) adminCSP))"

definition SecurityHeaders :: "string \<Rightarrow> bool \<Rightarrow> web_request \<Rightarrow> web_handler \<Rightarrow> web_handler" where
  "SecurityHeaders integrity secure r next db =
     (case next db of (p, db') \<Rightarrow>
        (p\<lparr>rp_Headers := AList.merge ([(''Content-Security-Policy'', adminPolicy integrity (wr_Path r)), (''X-Content-Type-Options'', ''nosniff''),
            (''Referrer-Policy'', ''no-referrer''), (''X-Frame-Options'', ''DENY''),
            (''Permissions-Policy'', ''camera=(), microphone=(), geolocation=()''), (''Cross-Origin-Opener-Policy'', ''same-origin''),
            (''Cross-Origin-Resource-Policy'', ''same-origin'')]
            @ (if secure then [(''Strict-Transport-Security'', ''max-age=31536000'')] else []) @ [(''Cache-Control'', ''no-store'')]) (rp_Headers p)\<rparr>, db'))"

text \<open>Go's \<open>http.CrossOriginProtection\<close> without exceptions.\<close>

definition cross_origin :: "web_env \<Rightarrow> web_request \<Rightarrow> string option" where
  "cross_origin w r =
     (if wr_Method r \<in> set [''GET'', ''HEAD'', ''OPTIONS''] then None
      else if wr_SecFetchSite r \<in> set [''same-origin'', ''none''] then None
      else if wr_SecFetchSite r \<noteq> '''' then Some ''cross-origin request detected from Sec-Fetch-Site header''
      else if wr_Origin r = '''' then None
      else if (case we_ParseURL w (wr_Origin r) of None \<Rightarrow> False | Some u \<Rightarrow> uu_Host u = wr_Host r) then None
      else Some ''cross-origin request detected, and/or browser is out of date: Sec-Fetch-Site is missing, and Origin does not match Host'')"

definition crossOrigin :: "web_env \<Rightarrow> web_request \<Rightarrow> web_handler \<Rightarrow> web_handler" where
  "crossOrigin w r next db = (case cross_origin w r of Some msg \<Rightarrow> (http_Error msg 403, db) | None \<Rightarrow> next db)"

definition maxAdminRequestBodySize :: nat where
  "maxAdminRequestBodySize = 1048576"

definition limitAdminFormBodies :: "web_request \<Rightarrow> web_handler \<Rightarrow> web_handler" where
  "limitAdminFormBodies r next db =
     (if wr_Method r \<noteq> ''POST'' then next db
      else case wr_Body r of
        None \<Rightarrow> (http_Error ''invalid form submission'' 400, db)
      | Some n \<Rightarrow> if n > maxAdminRequestBodySize then (http_Error ''request body too large'' 413, db) else next db)"

text \<open>\<open>NewHandler\<close>: the checks of the configuration and the chain it builds.\<close>

definition NewHandler :: "string \<Rightarrow> admin \<Rightarrow> (web_env \<Rightarrow> web_request \<Rightarrow> web_handler) result" where
  "NewHandler integrity h =
     (if ad_idleTTL h \<le> 0 then Inl (ErrorMsg ''webadmin session TTL must be positive'')
      else if ad_absoluteTTL h \<le> 0 then Inl (ErrorMsg ''webadmin absolute session TTL must be positive'')
      else if ad_absoluteTTL h < ad_idleTTL h then Inl (ErrorMsg ''webadmin absolute session TTL must be at least the idle session TTL'')
      else Inr (\<lambda>w r. SecurityHeaders integrity (ad_cookieSecure h) r (crossOrigin w r (limitAdminFormBodies r (admin_mux h w r)))))"

end
