(* ===== verification/AdminSafety.thy ===== *)
theory AdminSafety
  imports AdminPages
begin

text \<open>
  Who can change what through the web administration. What a namespace owns apart from its sign-in sessions is its
  \<open>workspace\<close>. A page that is read leaves every workspace as it is; a form changes the workspace of a namespace only
  if it comes with a live session of that namespace and the session's CSRF token, or creates its first or its tailnet key.
\<close>

section \<open>Workspaces\<close>

definition workspace :: "Namespace \<Rightarrow> db \<Rightarrow> db" where
  "workspace ns db = (tenant ns db)\<lparr>t_admin_sessions := []\<rparr>"

definition sheltered :: "Namespace \<Rightarrow> db \<Rightarrow> db \<Rightarrow> bool" where
  "sheltered other a b \<longleftrightarrow> (tenant_ok a \<longrightarrow> tenant_ok b \<and> workspace other b = workspace other a)"

lemma isolated_sheltered: "isolated other a b \<Longrightarrow> sheltered other a b"
  by (simp add: isolated_def sheltered_def workspace_def)

lemma sessions_sheltered:
  assumes "db_ok db \<Longrightarrow> db_ok (db\<lparr>t_admin_sessions := ss\<rparr>)"
  shows "sheltered other db (db\<lparr>t_admin_sessions := ss\<rparr>)"
  using assms by (auto simp: sheltered_def workspace_def tenant_ok_def tenant_def own_jobs_def own_executions_def own_keys_def)

interpretation shelter: session_relation "sheltered other" h for other h
proof unfold_locales
  fix db w k raw csrf hash now ex
  show "sheltered other a a" for a by (simp add: sheltered_def)
  show "sheltered other a c" if "sheltered other a b" "sheltered other b c" for a b c using that by (auto simp: sheltered_def)
  show "sheltered other db (snd (queryInsertAdminSession (we_now w 1) (new_session h w k raw csrf) db))"
    using queryInsertAdminSession_ok [of db "we_now w 1" "new_session h w k raw csrf"]
    by (auto simp: queryInsertAdminSession_def sheltered_def intro!: sessions_sheltered [unfolded sheltered_def, rule_format])
  show "sheltered other db (queryDeleteAdminSession hash db)"
    using queryDeleteAdminSession_ok [of db hash] by (auto simp: queryDeleteAdminSession_def intro!: sessions_sheltered)
  show "sheltered other db (snd (queryRefreshAdminSession now ex hash db))"
    using queryRefreshAdminSession_ok [of db now ex hash] by (auto simp: queryRefreshAdminSession_def Let_def intro!: sessions_sheltered)
qed

section \<open>Handlers that leave a workspace alone\<close>

definition safe :: "Namespace \<Rightarrow> web_handler \<Rightarrow> bool" where
  "safe other f \<longleftrightarrow> (\<forall>db. sheltered other db (snd (f db)))"

definition undisturbed :: "web_env \<Rightarrow> bool" where
  "undisturbed w \<longleftrightarrow> alone (we_session w) \<and> (\<forall>n. alone (we_service w n))"

lemma safe_reply [intro!]: "safe other (reply_with p)"
  by (simp add: safe_def reply_with_def shelter.refl)

lemma safe_serving [intro!]:
  assumes "\<And>db. sheltered other db (snd (p db))" "\<And>x. safe other (ok x)"
  shows "safe other (serving p bad ok)"
  using assms unfolding safe_def serving_def by (auto split: prod.split sum.split) (metis snd_conv shelter.trans)+

lemma safe_pathUUID [intro!]: "(\<And>i. safe other (k i)) \<Longrightarrow> safe other (pathUUID w v k)"
  by (auto simp: safe_def pathUUID_def shelter.refl split: option.split)

lemma safe_requireAuth [intro!]:
  assumes "undisturbed w" "\<And>auth. safe other (k auth)"
  shows "safe other (requireAuth h w r k)"
  unfolding safe_def
proof
  fix db
  have "sheltered other db (snd (authenticate h w r db))"
    using assms(1) by (intro shelter.authenticate shelter.quiet_alone) (simp add: undisturbed_def)
  then show "sheltered other db (snd (requireAuth h w r k db))"
    using assms(2) by (auto simp: requireAuth_def safe_def split: prod.splits sum.splits) (metis snd_conv shelter.trans)+
qed

text \<open>The reading methods of the service that the API does not use.\<close>

lemma admin_reads_unchanged [simp]:
  assumes "alone e"
  shows "snd (GetExecution_svc e c i db) = db" "snd (Fleet_svc e c f db) = db" "snd (Runs_svc e c g db) = db"
    "snd (ListSavedViews_svc e c a db) = db" "snd (GetBulk_svc e c a i db) = db" "snd (ListBulk_svc e c a db) = db"
    "snd (HasAnyAPIKeys_svc e db) = db"
proof -
  obtain res where "GetExecutionStatus e c i db = (res, db)" using reads_unchanged(2) [OF assms, of c i db] by (metis prod.collapse)
  then show "snd (GetExecution_svc e c i db) = db" using assms
    by (auto simp: GetExecution_svc_def seq_stmt_def wrap_def give_def split: sum.split)
qed (use assms in \<open>auto simp: Fleet_svc_def Runs_svc_def ListSavedViews_svc_def GetBulk_svc_def ListBulk_svc_def HasAnyAPIKeys_svc_def
      with_ns_def Let_def fail_def split: option.split ExecutionStatus.split TriggerType.split\<close>)

lemma undisturbedD [simp]: "undisturbed w \<Longrightarrow> alone (we_session w)" "undisturbed w \<Longrightarrow> alone (we_service w n)"
  by (simp_all add: undisturbed_def)

lemma tailnetJobs_unchanged [simp]: "undisturbed w \<Longrightarrow> snd (tailnetJobs h w c ns n k out db) = db"
proof (induction k arbitrary: n out)
  case (Suc k)
  obtain res where "ListJobsWithSchedules_svc (we_service w n) c \<lparr>jf_Namespace = ns, jf_Tags = [], jf_Enabled = None, jf_Name = '''',
      jf_ListParams = \<lparr>lp_Limit = 500, lp_Offset = 500 * int n\<rparr>\<rparr> db = (res, db)"
    using reads_unchanged(5) [of "we_service w n"] Suc.prems by (metis prod.collapse undisturbedD(2))
  with Suc show ?case by (auto simp: Let_def split: sum.split)
qed simp

text \<open>Pages that are read.\<close>

lemma read_pages_safe:
  assumes "undisturbed w"
  shows "safe other (keysPage h w r)" "safe other (onboardingPage h w r)" "safe other (settingsPage h w r)" "safe other (schedulePage h w r)"
    "safe other (executionsPage h w r)" "safe other (jobsPage h w r)" "safe other (runsPage h w r)" "safe other (bulkPage h w r v)"
    "safe other (bulkHistory h w r)" "safe other (createJobPage h w r)" "safe other (editJobPage h w r v)"
    "safe other (deleteJobPage h w r v)" "safe other (executionPage h w r v)" "safe other (setupPage h w r)" "safe other (tailnetPage h w r)"
proof -
  note d = Let_def shelter.refl assms
  show "safe other (keysPage h w r)" unfolding keysPage_def by (auto simp: d split: prod.split)
  show "safe other (onboardingPage h w r)" unfolding onboardingPage_def
    by (intro safe_requireAuth assms) (auto simp: safe_def d split: prod.split dest!: arg_cong [where f = snd])
  show "safe other (settingsPage h w r)" unfolding settingsPage_def by (auto simp: d)
  show "safe other (schedulePage h w r)" unfolding schedulePage_def by (auto simp: d)
  show "safe other (executionsPage h w r)" unfolding executionsPage_def by (auto simp: d split: prod.split)
  show "safe other (jobsPage h w r)" unfolding jobsPage_def by (auto simp: d split: prod.split sum.split)
  show "safe other (runsPage h w r)" unfolding runsPage_def by (auto simp: d split: prod.split sum.split)
  show "safe other (bulkPage h w r v)" unfolding bulkPage_def by (auto simp: d)
  show "safe other (bulkHistory h w r)" unfolding bulkHistory_def by (auto simp: d)
  show "safe other (createJobPage h w r)" unfolding createJobPage_def by (auto simp: d)
  show "safe other (editJobPage h w r v)" unfolding editJobPage_def by (auto simp: d split: prod.split)
  show "safe other (deleteJobPage h w r v)" unfolding deleteJobPage_def by (auto simp: d split: prod.split)
  show "safe other (executionPage h w r v)" unfolding executionPage_def by (auto simp: d split: prod.split)
  show "safe other (setupPage h w r)" unfolding setupPage_def by (auto simp: d)
  show "safe other (tailnetPage h w r)" unfolding tailnetPage_def by (auto simp: d split: prod.split option.split)
qed

section \<open>Looking a key up page by page\<close>

text \<open>The keys of a namespace in the order in which the pages list them.\<close>

definition listed_keys :: "Namespace \<Rightarrow> db \<Rightarrow> APIKey list" where
  "listed_keys ns db = sort_key (\<lambda>k. - key_CreatedAt k) (filter (\<lambda>k. key_Namespace k = ns) (t_api_keys db))"

lemma ListAPIKeys_page:
  assumes "alone e"
  shows "ListAPIKeys e c \<lparr>lp_Limit = 1000, lp_Offset = 1000 * int n\<rparr> db =
    (if ns_IsZero (NamespaceFromContext c) then (Inl ErrNamespaceRequired, db)
     else (case de_fault (sv_db e 0) of
             NoFault \<Rightarrow> Inr (take 1000 (drop (1000 * n) (listed_keys (NamespaceFromContext c) db)))
           | FaultBefore er \<Rightarrow> Inl er | FaultAfter er \<Rightarrow> Inl er, db))"
proof -
  have "nat (1000 * int n) = 1000 * n" by simp
  then show ?thesis using assms
    by (simp add: ListAPIKeys_def ListKeys_def with_ns_def Let_def fail_def WithDefaults_def run_query_def queryListKeys_def listed_keys_def
        limit_offset_def split: fault.split)
qed

lemma ListAPIKeys_length:
  assumes "alone e" "ListAPIKeys e c \<lparr>lp_Limit = 1000, lp_Offset = 1000 * int n\<rparr> db = (Inr ks, db')"
  shows "ks = take 1000 (drop (1000 * n) (listed_keys (NamespaceFromContext c) db))"
  using assms(2) unfolding ListAPIKeys_page [OF assms(1)]
  by (cases "de_fault (sv_db e 0)"; cases "ns_IsZero (NamespaceFromContext c)") simp_all

lemma find_key_ends:
  assumes "\<forall>n. alone (we_service w n)"
  shows "length (listed_keys (NamespaceFromContext c) db) < 1000 * (n + k) \<Longrightarrow> \<exists>res. find_key w c i n db = Some (res, db)"
proof (induction k arbitrary: n)
  case k: (Suc k)
  let ?call = "ListAPIKeys (we_service w n) c \<lparr>lp_Limit = 1000, lp_Offset = 1000 * int n\<rparr> db"
  have "snd ?call = db" using assms by simp
  then consider (failed) er where "?call = (Inl er, db)" | (page) ks where "?call = (Inr ks, db)"
    by (metis prod.collapse sum.exhaust)
  then show ?case
  proof cases
    case page
    show ?thesis
    proof (cases "find (\<lambda>x. key_ID x = i) ks = None \<and> \<not> length ks < 1000")
      case True
      have "\<exists>res. find_key w c i (Suc n) db = Some (res, db)" using k.prems by (intro k.IH) simp
      moreover have "find_key w c i n db = find_key w c i (Suc n) db" using page True by (subst find_key.simps) simp
      ultimately show ?thesis by simp
    next
      case False
      then show ?thesis using page by (subst find_key.simps) (auto split: option.split)
    qed
  qed (subst find_key.simps, simp)
next
  case 0
  let ?call = "ListAPIKeys (we_service w n) c \<lparr>lp_Limit = 1000, lp_Offset = 1000 * int n\<rparr> db"
  have "snd ?call = db" using assms by simp
  then consider (failed) er where "?call = (Inl er, db)" | (page) ks where "?call = (Inr ks, db)"
    by (metis prod.collapse sum.exhaust)
  then show ?case
  proof cases
    case page
    have "alone (we_service w n)" using assms by blast
    from ListAPIKeys_length [OF this page] have "length ks \<le> length (listed_keys (NamespaceFromContext c) db) - 1000 * n" by (metis length_drop length_take min.cobounded1)
    moreover have "length (listed_keys (NamespaceFromContext c) db) \<le> 1000 * n" using "0" by simp
    ultimately have "ks = []" by simp
    then show ?thesis using page by (subst find_key.simps) simp
  qed (subst find_key.simps, simp)
qed

lemma find_key_total:
  assumes "undisturbed w"
  shows "\<exists>res. find_key w c i n db = Some (res, db)"
proof -
  have "m < 1000 * (n + Suc m)" for m
  proof -
    have "m < 1 * (n + Suc m)" by simp
    also have "\<dots> \<le> 1000 * (n + Suc m)" by (rule mult_le_mono1) simp
    finally show ?thesis .
  qed
  from find_key_ends [OF _ this] assms show ?thesis unfolding undisturbed_def by blast
qed

lemma find_append_None: "find P xs = None \<Longrightarrow> find P (xs @ ys) = find P ys"
  by (induction xs) (auto split: if_splits)

lemma find_append_Some: "find P xs = Some x \<Longrightarrow> find P (xs @ ys) = Some x"
  by (induction xs) (auto split: if_splits)

lemma find_key_pages:
  assumes "\<forall>n. alone (we_service w n) \<and> de_fault (sv_db (we_service w n) 0) = NoFault" "ns \<noteq> ''''"
  shows "length (listed_keys ns db) < 1000 * (n + k) \<Longrightarrow> find (\<lambda>x. key_ID x = i) (take (1000 * n) (listed_keys ns db)) = None
    \<Longrightarrow> find_key w (Some ns) i n db = Some (Inr (find (\<lambda>x. key_ID x = i) (listed_keys ns db)), db)"
proof (induction k arbitrary: n)
  case 0
  have page: "ListAPIKeys (we_service w n) (Some ns) \<lparr>lp_Limit = 1000, lp_Offset = 1000 * int n\<rparr> db =
      (Inr (take 1000 (drop (1000 * n) (listed_keys ns db))), db)"
    using assms ListAPIKeys_page [of "we_service w n" "Some ns"] by (simp add: NamespaceFromContext_def ns_IsZero_def)
  then show ?case using 0 by (subst find_key.simps) simp
next
  case (Suc k)
  let ?L = "listed_keys ns db" let ?p = "take 1000 (drop (1000 * n) (listed_keys ns db))"
  have page: "ListAPIKeys (we_service w n) (Some ns) \<lparr>lp_Limit = 1000, lp_Offset = 1000 * int n\<rparr> db = (Inr ?p, db)"
    using assms ListAPIKeys_page [of "we_service w n" "Some ns"] by (simp add: NamespaceFromContext_def ns_IsZero_def)
  have d: "drop (1000 * Suc n) ?L = drop 1000 (drop (1000 * n) ?L)" by simp
  have L: "?L = (take (1000 * n) ?L @ ?p) @ drop (1000 * Suc n) ?L" unfolding d by (simp only: append_assoc append_take_drop_id)
  show ?case
  proof (cases "find (\<lambda>x. key_ID x = i) ?p")
    case (Some x)
    then have "find (\<lambda>x. key_ID x = i) (take (1000 * n) ?L @ ?p) = Some x" by (simp add: find_append_None [OF Suc.prems(2)])
    from find_append_Some [OF this, of "drop (1000 * Suc n) ?L"] have "find (\<lambda>x. key_ID x = i) ?L = Some x" by (simp only: L [symmetric])
    then show ?thesis using page Some by (subst find_key.simps) simp
  next
    case None
    then have none: "find (\<lambda>x. key_ID x = i) (take (1000 * n) ?L @ ?p) = None" by (simp add: find_append_None [OF Suc.prems(2)])
    show ?thesis
    proof (cases "length ?p < 1000")
      case True
      then have "drop (1000 * Suc n) ?L = []" by auto
      with none have "find (\<lambda>x. key_ID x = i) ((take (1000 * n) ?L @ ?p) @ drop (1000 * Suc n) ?L) = None" by simp
      then have "find (\<lambda>x. key_ID x = i) ?L = None" by (simp only: L [symmetric])
      then show ?thesis using page None True by (subst find_key.simps) (simp only: prod.case sum.case option.case if_True)
    next
      case False
      have "take (1000 * Suc n) ?L = take (1000 * n) ?L @ ?p" using take_add [of "1000 * n" 1000 ?L] by (simp add: add.commute)
      then have "find_key w (Some ns) i (Suc n) db = Some (Inr (find (\<lambda>x. key_ID x = i) ?L), db)"
        using none Suc.prems(1) by (intro Suc.IH) auto
      then show ?thesis using page None False by (subst find_key.simps) simp
    qed
  qed
qed



section \<open>Who may change a workspace\<close>

definition acts_for_session :: "admin \<Rightarrow> web_env \<Rightarrow> web_request \<Rightarrow> db \<Rightarrow> Namespace \<Rightarrow> bool" where
  "acts_for_session h w r db ns \<longleftrightarrow> (\<exists>s k. live_session h w r db s k \<and> key_Namespace k = ns
     \<and> ses_CSRFToken s \<noteq> '''' \<and> FormValue r ''csrf_token'' = ses_CSRFToken s)"

text \<open>The form came with the token that the sign-in page put into a cookie of this browser.\<close>

definition from_own_form :: "web_request \<Rightarrow> bool" where
  "from_own_form r \<longleftrightarrow> FormValue r ''csrf_token'' \<noteq> '''' \<and> Cookie r publicCSRFCookieName = Some (FormValue r ''csrf_token'')"

definition installs :: "admin \<Rightarrow> web_env \<Rightarrow> web_request \<Rightarrow> db \<Rightarrow> Namespace \<Rightarrow> bool" where
  "installs h w r db ns \<longleftrightarrow> t_api_keys db = [] \<and> from_own_form r \<and> ad_bootstrapToken h \<noteq> '''' \<and> FormValue r ''bootstrap_token'' = ad_bootstrapToken h
     \<and> TrimSpace (we_unicode w) (FormValue r ''namespace'') = ns"

definition signs_in_as :: "admin \<Rightarrow> web_env \<Rightarrow> web_request \<Rightarrow> Namespace \<Rightarrow> bool" where
  "signs_in_as h w r ns \<longleftrightarrow> from_own_form r \<and> FormValue r ''namespace'' = ns \<and> (\<exists>login. vouched_for h w r login ns)"

definition may_change :: "admin \<Rightarrow> web_env \<Rightarrow> web_request \<Rightarrow> db \<Rightarrow> Namespace \<Rightarrow> bool" where
  "may_change h w r db ns \<longleftrightarrow> acts_for_session h w r db ns \<or> installs h w r db ns \<or> signs_in_as h w r ns"

lemma csrf_ok_iff: "csrf_ok au r \<longleftrightarrow> ses_CSRFToken (as_Session au) \<noteq> '''' \<and> FormValue r ''csrf_token'' = ses_CSRFToken (as_Session au)"
  by (auto simp: csrf_ok_def validateCSRF_def)

lemma validPublicCSRF_iff: "validPublicCSRF r \<longleftrightarrow> from_own_form r"
  by (auto simp: validPublicCSRF_def validateCSRF_def from_own_form_def split: option.split)

text \<open>Handlers behind \<open>requireMutation\<close>: what follows the guard must be safe for the namespaces that the session is not of.\<close>

lemma mutation_sheltered:
  assumes "undisturbed w" "\<not> acts_for_session h w r db other" "\<And>auth. key_Namespace (as_Key auth) \<noteq> other \<Longrightarrow> safe other (k auth)"
  shows "sheltered other db (snd (requireMutation h w r k db))"
proof -
  have auth: "sheltered other db (snd (authenticate h w r db))"
    using assms(1) by (intro shelter.authenticate shelter.quiet_alone) simp
  show ?thesis
  proof (cases "fst (fst (authenticate h w r db))")
    case (Inl er)
    then show ?thesis using auth by (auto simp: requireMutation_def requireAuth_def split: prod.splits)
  next
    case (Inr au)
    then obtain cs db1 where a: "authenticate h w r db = ((Inr au, cs), db1)" by (metis prod.collapse)
    have "\<not> csrf_ok au r \<or> key_Namespace (as_Key au) \<noteq> other"
      using authenticate_Inr [OF a] assms(1,2) by (fastforce simp: csrf_ok_iff acts_for_session_def alone_def dest: undisturbedD(1))
    then have "csrf_ok au r \<Longrightarrow> sheltered other db1 (snd (k (au\<lparr>as_Theme := themeFromRequest r\<rparr>) db1))"
      using assms(3) [of "au\<lparr>as_Theme := themeFromRequest r\<rparr>"] by (simp add: safe_def)
    then show ?thesis using a auth
      by (auto simp: requireMutation_def requireAuth_def csrf_ok_def split: prod.splits) (metis snd_conv shelter.trans)
  qed
qed

lemma auth_ctx_ns [simp]: "NamespaceFromContext (auth_ctx auth) = key_Namespace (as_Key auth)"
  by (simp add: auth_ctx_def NamespaceToContext_def NamespaceFromContext_def)

lemma service_sheltered:
  assumes "undisturbed w" "NamespaceFromContext c \<noteq> other"
  shows "sheltered other db (snd (CreateJob_svc (we_service w n) c input db))" "sheltered other db (snd (UpdateJob_svc (we_service w n) c i uin db))"
    "sheltered other db (snd (DeleteJob_svc (we_service w n) c i db))" "sheltered other db (snd (PauseJob (we_service w n) c i db))"
    "sheltered other db (snd (ResumeJob (we_service w n) c i db))" "sheltered other db (snd (TriggerNow (we_service w n) c i db))"
    "sheltered other db (snd (AckExecution_svc (we_service w n) c i db))" "sheltered other db (snd (CreateAPIKey (we_service w n) c label db))"
    "sheltered other db (snd (DeleteAPIKey (we_service w n) c i db))" "sheltered other db (snd (SaveView_svc (we_service w n) c actor nm q db))"
    "sheltered other db (snd (DeleteView_svc (we_service w n) c actor i db))"
    "sheltered other db (snd (PreviewBulk_svc (we_service w n) c actor action ids db))"
    "sheltered other db (snd (ConfirmBulk_svc (we_service w n) se ue c actor i db))"
proof -
  have s: "sheltered other db (snd (serve (we_service w n) c req db))" for req
    using serve_isolated [OF undisturbedD(2) [OF assms(1)] assms(2)] by (rule isolated_sheltered)
  note s [of "ReqCreateJob input"]
    s [of "ReqUpdateJob i uin"]
    s [of "ReqDeleteJob i"]
    s [of "ReqPauseJob i"]
    s [of "ReqResumeJob i"]
    s [of "ReqTriggerNow i"]
    s [of "ReqAckExecution i"]
    s [of "ReqCreateAPIKey label"]
    s [of "ReqDeleteAPIKey i"]
    s [of "ReqSaveView actor nm q"]
    s [of "ReqDeleteView actor i"]
    s [of "ReqPreviewBulk actor action ids"]
    s [of "ReqConfirmBulk se ue actor i"]
  then show "sheltered other db (snd (CreateJob_svc (we_service w n) c input db))" "sheltered other db (snd (UpdateJob_svc (we_service w n) c i uin db))"
    "sheltered other db (snd (DeleteJob_svc (we_service w n) c i db))" "sheltered other db (snd (PauseJob (we_service w n) c i db))"
    "sheltered other db (snd (ResumeJob (we_service w n) c i db))" "sheltered other db (snd (TriggerNow (we_service w n) c i db))"
    "sheltered other db (snd (AckExecution_svc (we_service w n) c i db))" "sheltered other db (snd (CreateAPIKey (we_service w n) c label db))"
    "sheltered other db (snd (DeleteAPIKey (we_service w n) c i db))" "sheltered other db (snd (SaveView_svc (we_service w n) c actor nm q db))"
    "sheltered other db (snd (DeleteView_svc (we_service w n) c actor i db))"
    "sheltered other db (snd (PreviewBulk_svc (we_service w n) c actor action ids db))"
    "sheltered other db (snd (ConfirmBulk_svc (we_service w n) se ue c actor i db))"
    by simp_all
qed

lemma forms_sheltered:
  assumes "undisturbed w" "\<not> acts_for_session h w r db other"
  shows "sheltered other db (snd (createJob h w r db))" "sheltered other db (snd (editJob h w r v db))" "sheltered other db (snd (deleteJob h w r v db))"
    "sheltered other db (snd (pauseJob h w r v db))" "sheltered other db (snd (resumeJob h w r v db))" "sheltered other db (snd (triggerJob h w r v db))"
    "sheltered other db (snd (createKey h w r db))" "sheltered other db (snd (deleteKey h w r v db))" "sheltered other db (snd (saveAppearance h w r db))"
    "sheltered other db (snd (resolveSchedule h w r db))" "sheltered other db (snd (ackExecution h w r v db))" "sheltered other db (snd (saveView h w r db))"
    "sheltered other db (snd (deleteView h w r v db))" "sheltered other db (snd (previewBulk h w r db))" "sheltered other db (snd (confirmBulk h w r v db))"
  unfolding createJob_def editJob_def deleteJob_def pauseJob_def resumeJob_def triggerJob_def jobAction_def createKey_def deleteKey_def
    saveAppearance_def resolveSchedule_def ackExecution_def saveView_def deleteView_def previewBulk_def confirmBulk_def bulk_redirect_def Let_def
  by (rule mutation_sheltered [OF assms]; auto intro!: service_sheltered [OF assms(1)] split: prod.split sum.split option.split)+

lemma other_pages_safe:
  assumes "undisturbed w"
  shows "safe other (jobPage h w r v)" "safe other (deleteKeyPage h w r v)" "safe other (loginPage h w r)" "safe other (logout h w r)"
proof -
  have "sheltered other db (snd (GetNextRunTime (we_service w 2) c i db))" for db c i using assms by (simp add: shelter.refl)
  then have next_run: "safe other (\<lambda>db. case GetNextRunTime (we_service w 2) c i db of (res, db') \<Rightarrow> (case next_runs_of res of None \<Rightarrow> (a, db') | Some (x, y) \<Rightarrow> (f x y, db')))"
    for c i a f unfolding safe_def by (auto split: prod.split option.split) (metis snd_conv)+
  show "safe other (jobPage h w r v)" unfolding jobPage_def
    by (auto simp: Let_def shelter.refl assms split: prod.split sum.split intro!: next_run)
  show "safe other (deleteKeyPage h w r v)" unfolding deleteKeyPage_def
  proof (intro safe_requireAuth safe_pathUUID assms, unfold safe_def, intro allI)
    fix auth i db
    obtain res where "find_key w (auth_ctx auth) i 0 db = Some (res, db)" using find_key_total [OF assms] by blast
    then show "sheltered other db (snd (case find_key w (auth_ctx auth) i 0 db of None \<Rightarrow> (answer 0 NoAnswer, db)
        | Some (Inl er, db') \<Rightarrow> (internalError w, db')
        | Some (Inr None, db') \<Rightarrow> (handleServiceError w ErrAPIKeyNotFound, db')
        | Some (Inr (Some k), db') \<Rightarrow>
            (render ''key_delete'' (authPage auth ''Revoke API key''\<lparr>pg_Content := KeyDelete k (key_ID (as_Key auth))\<rparr>), db')))"
      by (auto simp: shelter.refl split: sum.split option.split)
  qed
  have "sheltered other db (snd (authenticate h w r db))" for db
    using assms by (intro shelter.authenticate shelter.quiet_alone) simp
  then show "safe other (loginPage h w r)" unfolding loginPage_def
    by (intro safe_serving) (auto simp: safe_def shelter.refl assms split: prod.split sum.split, (metis snd_conv)+)
  have "sheltered other db (snd (session_logout h w r db))" for db
    using assms by (intro shelter.session_logout shelter.quiet_alone) simp
  then have "safe other (serving (session_logout h w r) bad (\<lambda>co. reply_with (p co)))" for bad p by auto
  then show "safe other (logout h w r)" unfolding logout_def
    by (intro safe_requireAuth assms) (auto simp: safe_def shelter.refl)
qed

text \<open>Signing in creates sessions, and in two cases a key of the namespace that the form names.\<close>

lemma login_safe:
  assumes "undisturbed w"
  shows "safe other (login h w r)"
proof -
  have "sheltered other db (snd (session_login h w r token db))" for token db
    using assms by (intro shelter.session_login shelter.quiet_alone) simp
  then have "safe other (serving (session_login h w r token) bad (\<lambda>(key, co). reply_with (p key co)))" for token bad p by (auto split: prod.split)
  then show ?thesis by (auto simp: login_def safe_def shelter.refl)
qed

lemma newAPIKey_ns: "newAPIKey e ns label = Inr res \<Longrightarrow> key_Namespace (ck_Key res) = ns"
  by (auto simp: newAPIKey_def Let_def split: sum.splits)

lemma queryGetOrCreateTailnetKey_isolated:
  assumes "key_Namespace k \<noteq> other"
  shows "isolated other db (snd (queryGetOrCreateTailnetKey k db))"
  unfolding isolated_def
proof
  assume ok: "tenant_ok db"
  have "db_ok (snd (queryGetOrCreateTailnetKey k db))" using ok by (intro queryGetOrCreateTailnetKey_ok) (simp add: tenant_ok_def)
  moreover have "sv_APIKeyID v \<noteq> key_ID k" if "v \<in> set (t_saved_views db)" "key_ID k \<notin> key_ID ` set (t_api_keys db)" for v
    using ok that by (auto simp: tenant_ok_def db_ok_def views_ok_def set_col) (metis imageI subsetD)
  ultimately have "tenant_ok (snd (queryGetOrCreateTailnetKey k db))"
    using ok by (simp add: tenant_ok_def queryGetOrCreateTailnetKey_def Let_def)
  moreover have "tenant other (snd (queryGetOrCreateTailnetKey k db)) = tenant other db"
    using assms tenant_app_keys [of "k\<lparr>key_LastUsedAt := None\<rparr>" other db] by (simp add: queryGetOrCreateTailnetKey_def Let_def)
  ultimately show "tenant_ok (snd (queryGetOrCreateTailnetKey k db)) \<and> tenant other (snd (queryGetOrCreateTailnetKey k db)) = tenant other db" ..
qed

lemma key_creation_sheltered:
  assumes "alone e" "ns \<noteq> other"
  shows "sheltered other db (snd (BootstrapFirstAPIKey e ns label db))" "sheltered other db (snd (TailnetKey e raced f2 raced2 ns login_name db))"
proof -
  have "isolated other db (snd (InsertFirstAPIKey ev k db))" if "key_Namespace k = ns" for ev k db
    unfolding InsertFirstAPIKey_def using that assms(2) by (intro iso.run_stmt iso.in_tx) (auto simp: iso.refl intro!: queryInsertAPIKey_isolated)
  then have "isolated other db (snd (BootstrapFirstAPIKey e ns label db))" using assms(1) newAPIKey_ns
    by (auto simp: BootstrapFirstAPIKey_def split: sum.split intro!: iso.seq_stmt)
  then show "sheltered other db (snd (BootstrapFirstAPIKey e ns label db))" by (rule isolated_sheltered)
  have "isolated other db (snd (GetOrCreateTailnetKey ev m f m' k db))" if "key_Namespace k = ns" for ev m f m' k db
    using that assms(2) by (intro iso.GetOrCreateTailnetKey queryGetOrCreateTailnetKey_isolated) simp
  then have "isolated other db (snd (TailnetKey e raced f2 raced2 ns login_name db))" using assms(1) newAPIKey_ns
    by (auto simp: TailnetKey_def split: sum.split)
  then show "sheltered other db (snd (TailnetKey e raced f2 raced2 ns login_name db))" by (rule isolated_sheltered)
qed

lemma tailnetLogin_sheltered:
  assumes "undisturbed w" "\<not> signs_in_as h w r other"
  shows "sheltered other db (snd (tailnetLogin h w r db))"
proof -
  have start: "sheltered other db (snd (startSession h w r key db))" for key db
    using assms(1) by (intro shelter.startSession shelter.quiet_alone) simp
  let ?ns = "FormValue r ''namespace''" let ?si = "tailnetSignIn h w r"
  have "?ns \<noteq> other" if "from_own_form r" "si_Login ?si \<noteq> ''''" "?ns \<in> set (si_Namespaces ?si)"
    using assms(2) that sign_in_grants [of h w r "si_Login ?si" ?ns] by (auto simp: signs_in_as_def)
  moreover have "safe other (serving (TailnetKey (we_service w 0) a b c ?ns lg) bad (\<lambda>key. if \<not> key_Enabled key then reply_with p
      else serving (startSession h w r key) bad' (\<lambda>co. reply_with (f co))))" if "?ns \<noteq> other" for a b c lg bad p bad' f
    using that assms(1) start by (auto intro!: key_creation_sheltered)
  ultimately show ?thesis
    by (auto simp: tailnetLogin_def Let_def shelter.refl validPublicCSRF_iff safe_def split: prod.split)
qed

lemma setup_sheltered:
  assumes "undisturbed w" "\<not> installs h w r db other"
  shows "sheltered other db (snd (setup_post h w r db))"
proof -
  let ?ns = "TrimSpace (we_unicode w) (FormValue r ''namespace'')"
  have login: "sheltered other db (snd (session_login h w r token db))" for token db
    using assms(1) by (intro shelter.session_login shelter.quiet_alone) simp
  have complete: "safe other (setup_complete h w r result)" for result
    unfolding safe_def setup_complete_def Let_def using login by (auto split: prod.split sum.split) (metis snd_conv)+
  have boot: "safe other (serving (BootstrapFirstAPIKey (we_service w 1) ?ns label) bad (setup_complete h w r))" if "?ns \<noteq> other" for label bad
    using that assms(1) complete by (intro safe_serving key_creation_sheltered) auto
  obtain res where ask: "HasAnyAPIKeys_svc (we_service w 0) db = (res, db)"
    using admin_reads_unchanged(7) [OF undisturbedD(2) [OF assms(1)]] by (metis prod.collapse)
  have "t_api_keys db = []" if "res = Inr False"
    using ask that assms(1) by (auto simp: HasAnyAPIKeys_svc_def HasAnyAPIKeys_def run_query_def queryHasAnyAPIKeys_def split: fault.splits)
  moreover have "constantTimeEqual a b \<longleftrightarrow> a \<noteq> '''' \<and> b = a" for a b by (auto simp: constantTimeEqual_def)
  ultimately show ?thesis using ask boot assms(2)
    by (auto simp: setup_post_def serving_def [where p = "HasAnyAPIKeys_svc (we_service w 0)"] reply_with_def Let_def shelter.refl installs_def
        validPublicCSRF_iff safe_def split: sum.split)
qed

section \<open>Requests\<close>

lemma GET_routes_safe:
  assumes "undisturbed w" "rt \<in> set (admin_routes h w r)" "rt_Method rt \<noteq> ''POST''"
  shows "safe other (rt_Handler rt v)"
proof -
  have "safe other serveCSS" "safe other serveJobsScript" "safe other serveFont" "safe other serveIcon"
    by (auto simp: serveCSS_def serveJobsScript_def serveFont_def serveIcon_def asset_def)
  then show ?thesis using assms read_pages_safe [OF assms(1)] other_pages_safe [OF assms(1)]
    by (auto simp: admin_routes_def Let_def route_def)
qed

lemma POST_routes_sheltered:
  assumes "undisturbed w" "rt \<in> set (admin_routes h w r)" "\<not> may_change h w r db other"
  shows "sheltered other db (snd (rt_Handler rt v db))"
proof (cases "rt_Method rt = ''POST''")
  case True
  have n: "\<not> acts_for_session h w r db other" "\<not> installs h w r db other" "\<not> signs_in_as h w r other"
    using assms(3) by (auto simp: may_change_def)
  have "sheltered other db (snd (login h w r db))" "sheltered other db (snd (logout h w r db))"
    using login_safe [OF assms(1)] other_pages_safe(4) [OF assms(1)] by (auto simp: safe_def)
  with True show ?thesis using assms(2) forms_sheltered [OF assms(1) n(1)] tailnetLogin_sheltered [OF assms(1) n(3)] setup_sheltered [OF assms(1) n(2)]
    by (auto simp: admin_routes_def Let_def route_def)
qed (use GET_routes_safe [OF assms(1,2)] in \<open>simp add: safe_def\<close>)

lemma admin_mux_sheltered:
  assumes "undisturbed w" "wr_Method r = ''POST'' \<Longrightarrow> \<not> may_change h w r db other"
  shows "sheltered other db (snd (admin_mux h w r db))"
proof (cases "find_route (admin_routes h w r) (wr_Method r) (wr_EscapedPath r)")
  case None
  then show ?thesis by (auto simp: admin_mux_def Let_def shelter.refl adminRoot_def reply_with_def)
next
  case (Some rt)
  then have rt: "rt \<in> set (admin_routes h w r)" "method_matches (rt_Method rt) (wr_Method r)" using find_route_mem by blast+
  have "sheltered other db (snd (rt_Handler rt v db))" for v
  proof (cases "wr_Method r = ''POST''")
    case True
    then show ?thesis using POST_routes_sheltered [OF assms(1) rt(1)] assms(2) by blast
  next
    case False
    then have "rt_Method rt \<noteq> ''POST''" using rt(2) by (auto simp: method_matches_def)
    then show ?thesis using GET_routes_safe [OF assms(1) rt(1)] by (auto simp: safe_def)
  qed
  then show ?thesis using Some by (simp add: admin_mux_def Let_def shelter.refl)
qed

text \<open>
  What the request must be for the chain in front of the pages to let a change through: a form, of acceptable size, that no other site sent.
\<close>

definition authorized_change :: "admin \<Rightarrow> web_env \<Rightarrow> web_request \<Rightarrow> db \<Rightarrow> Namespace \<Rightarrow> bool" where
  "authorized_change h w r db ns \<longleftrightarrow> wr_Method r = ''POST'' \<and> cross_origin w r = None
     \<and> (\<exists>n. wr_Body r = Some n \<and> n \<le> maxAdminRequestBodySize) \<and> may_change h w r db ns"

lemma admin_serve_sheltered:
  assumes "NewHandler integrity h = Inr pages" "undisturbed w" "\<not> authorized_change h w r db other"
  shows "sheltered other db (snd (pages w r db))"
proof -
  have pages: "pages = (\<lambda>w r. SecurityHeaders integrity (ad_cookieSecure h) r (crossOrigin w r (limitAdminFormBodies r (admin_mux h w r))))"
    using assms(1) by (simp add: NewHandler_def split: if_splits)
  have "sheltered other db (snd (crossOrigin w r (limitAdminFormBodies r (admin_mux h w r)) db))"
    using assms(3) admin_mux_sheltered [OF assms(2), of r h db other]
    by (auto simp: crossOrigin_def limitAdminFormBodies_def authorized_change_def shelter.refl not_less split: option.split)
  then show ?thesis by (simp add: pages SecurityHeaders_def case_prod_unfold)
qed

text \<open>
  C5: The web administration changes a workspace only on behalf of its owner. Take any request to the pages, with any path, form and cookies,
  any database faults, and any other namespace's sessions. If it changes anything a namespace owns besides its sign-in sessions (jobs, runs,
  keys, saved views, bulk actions), then it is a form that no other site sent, and either it presents a live session of that
  namespace together with the CSRF token of that session, or it signs in a person the tailnet vouches for into that namespace, or it sets up the
  first key of an installation that has none, with the installation token.
\<close>

theorem admin_changes_authorized:
  assumes "NewHandler integrity h = Inr pages" "undisturbed w" "tenant_ok db"
    and "workspace ns (snd (pages w r db)) \<noteq> workspace ns db"
  shows "authorized_change h w r db ns"
  using admin_serve_sheltered [OF assms(1,2), of r db ns] assms(3,4) by (auto simp: sheltered_def)

text \<open>A tenant pauses its job with the form of its page; the same form with another token changes nothing.\<close>

definition sample_tenant :: db where
  "sample_tenant = snd (startSession sample_admin sample_web sample_visit sample_admin_key (snd (queryInsertAPIKey sample_admin_key sample_jobs)))"

definition sample_form :: "string \<Rightarrow> web_request" where
  "sample_form csrf = sample_visit\<lparr>wr_Method := ''POST'', wr_Path := ''/admin/jobs/1/pause'', wr_EscapedPath := ''/admin/jobs/1/pause'',
     wr_Form := [(''csrf_token'', [csrf])], wr_PostForm := [(''csrf_token'', [csrf])], wr_Origin := '''', wr_SecFetchSite := ''same-origin''\<rparr>"

definition sample_pages :: "web_env \<Rightarrow> web_request \<Rightarrow> web_handler" where
  "sample_pages w r = SecurityHeaders '''' True r (crossOrigin w r (limitAdminFormBodies r (admin_mux sample_admin w r)))"

lemma sample_pages: "NewHandler '''' sample_admin = Inr sample_pages"
  by (simp add: NewHandler_def sample_admin_def sample_pages_def fun_eq_iff)

lemma sample_undisturbed: "undisturbed sample_web"
  by (simp add: undisturbed_def sample_web_def alone_def sample_svc_def)

lemma sample_tenant_ok: "tenant_ok sample_tenant"
proof -
  have "tenant_ok (snd (queryInsertAPIKey sample_admin_key sample_jobs))"
    using queryInsertAPIKey_isolated [of sample_admin_key "''x''" sample_jobs] sample_jobs_ok by (simp add: isolated_def sample_admin_key_def)
  moreover have "sheltered ''x'' db (snd (startSession sample_admin sample_web sample_visit sample_admin_key db))" for db
    by (intro shelter.startSession shelter.quiet_alone sample_web_alone)
  ultimately show ?thesis by (simp add: sample_tenant_def sheltered_def)
qed

lemma sample_dispatch: "sample_pages sample_web (sample_form csrf) db =
    SecurityHeaders '''' True (sample_form csrf) (pauseJob sample_admin sample_web (sample_form csrf) ''1'') db"
proof -
  let ?rs = "admin_routes sample_admin sample_web (sample_form csrf)"
  have "map_option rt_Pattern (find_route ?rs ''POST'' ''/admin/jobs/1/pause'') = Some [Lit ''admin'', Lit ''jobs'', Wild, Lit ''pause'']"
    unfolding admin_routes_def by code_simp
  then obtain rt where rt: "find_route ?rs ''POST'' ''/admin/jobs/1/pause'' = Some rt" "rt_Pattern rt = [Lit ''admin'', Lit ''jobs'', Wild, Lit ''pause'']" by blast
  have h: "rt_Handler rt = pauseJob sample_admin sample_web (sample_form csrf)"
    using rt(2) find_route_mem [OF rt(1)] by (auto simp: admin_routes_def Let_def route_def)
  have m: "match_segments (rt_Pattern rt) (segments ''/admin/jobs/1/pause'') = Some [''1'']" unfolding rt(2) by code_simp
  have p: "is_clean ''/admin/jobs/1/pause''" by code_simp
  have o: "cross_origin sample_web (sample_form csrf) = None" by (simp add: cross_origin_def sample_form_def)
  have "admin_mux sample_admin sample_web (sample_form csrf) = pauseJob sample_admin sample_web (sample_form csrf) ''1''"
    by (rule ext) (simp add: admin_mux_def sample_form_def Let_def p rt(1) [unfolded sample_form_def] m h [unfolded sample_form_def])
  moreover have "crossOrigin sample_web (sample_form csrf) (limitAdminFormBodies (sample_form csrf) next) = next" for "next"
    by (rule ext) (simp add: crossOrigin_def o limitAdminFormBodies_def, simp add: sample_form_def sample_visit_def maxAdminRequestBodySize_def)
  ultimately show ?thesis by (simp add: sample_pages_def)
qed

lemma sample_dispatched: "snd (sample_pages sample_web (sample_form csrf) db) = snd (pauseJob sample_admin sample_web (sample_form csrf) ''1'' db)"
  by (simp add: sample_dispatch SecurityHeaders_def case_prod_unfold)

theorem admin_changes_authorized_witness:
  "authorized_change sample_admin sample_web (sample_form ''02'') sample_tenant ''acme''
   \<and> map job_Enabled (t_jobs (snd (sample_pages sample_web (sample_form ''02'') sample_tenant))) = [False]
   \<and> map job_Enabled (t_jobs (snd (sample_pages sample_web (sample_form ''03'') sample_tenant))) = [True]"
proof (intro conjI)
  let ?db' = "snd (sample_pages sample_web (sample_form ''02'') sample_tenant)"
  show paused: "map job_Enabled (t_jobs ?db') = [False]" unfolding sample_dispatched by code_simp
  show "map job_Enabled (t_jobs (snd (sample_pages sample_web (sample_form ''03'') sample_tenant))) = [True]"
    unfolding sample_dispatched by code_simp
  have "map job_Namespace (t_jobs ?db') = [''acme'']" unfolding sample_dispatched by code_simp
  with paused have "map job_Enabled (t_jobs (workspace ''acme'' ?db')) = [False]" by (auto simp: workspace_def tenant_def own_jobs_def)
  moreover have "map job_Enabled (t_jobs (workspace ''acme'' sample_tenant)) = [True]" by code_simp
  ultimately have "workspace ''acme'' ?db' \<noteq> workspace ''acme'' sample_tenant" by fastforce
  from admin_changes_authorized [OF sample_pages sample_undisturbed sample_tenant_ok this]
  show "authorized_change sample_admin sample_web (sample_form ''02'') sample_tenant ''acme''" .
qed

end
