(* ===== verification/Migrate.thy ===== *)
theory Migrate
  imports Store GoText
begin

text \<open>
  The schema migrations (\<^verbatim>\<open>internal/migrate\<close>): loading the files, probing for migrations that were applied before the runner
  existed, and the runner under its advisory lock. A database is its catalogue, as far as migrations and probes see it, and the
  tracking table if it exists. What a script does to the catalogue is an argument (\<open>me_sql\<close>), and every statement may fail, before or after
  it took effect; the files under \<^verbatim>\<open>schema/\<close> are written out as the changes they make (\<open>schema_file\<close>).
\<close>

section \<open>Loading\<close>

record Migration =
  mg_Version :: int
  mg_Name :: string
  mg_SQL :: string
  mg_Checksum :: string
  mg_ManualOnExisting :: bool

datatype migrate_error =
    Database err
  | ScriptFailed int
  | DuplicateVersion int string string
  | ManualMigrationRequired int "int list"
  | InconsistentSchema int int
  | LockTimeout duration

definition manualOnExisting :: "int \<Rightarrow> bool" where
  "manualOnExisting v \<longleftrightarrow> v = 11"

text \<open>The regular expression \<^verbatim>\<open>^(\d{3})_.+\.sql$\<close>; the result is its group.\<close>

definition migrationName :: "string \<Rightarrow> string option" where
  "migrationName s =
     (if length s \<ge> 9 \<and> list_all is_digit (take 3 s) \<and> s ! 3 = CHR ''_'' \<and> HasSuffix s ''.sql''
         \<and> CHR 0x0A \<notin> set (take (length s - 8) (drop 4 s))
      then Some (take 3 s) else None)"

text \<open>
  An entry of the directory: its name, whether it is a directory, and what reading it gives. Three digits are always a number. The
  hash is an argument.
\<close>

fun load_entries :: "(string \<Rightarrow> string) \<Rightarrow> (string \<times> bool \<times> string result) list \<Rightarrow> (int \<times> string) list \<Rightarrow> Migration list
    \<Rightarrow> migrate_error + Migration list" where
  "load_entries sha [] seen migs = Inr migs"
| "load_entries sha ((name, dir, content) # rest) seen migs =
     (if dir then load_entries sha rest seen migs
      else (case migrationName name of
          None \<Rightarrow> load_entries sha rest seen migs
        | Some digits \<Rightarrow>
            (let version = int (read_decimal digits)
             in case map_of seen version of
                  Some prev \<Rightarrow> Inl (DuplicateVersion version prev name)
                | None \<Rightarrow>
                    (case content of
                       Inl er \<Rightarrow> Inl (Database er)
                     | Inr raw \<Rightarrow> load_entries sha rest ((version, name) # seen) (migs @ [\<lparr>mg_Version = version, mg_Name = name, mg_SQL = raw,
                         mg_Checksum = sha raw, mg_ManualOnExisting = manualOnExisting version\<rparr>])))))"

definition Load_migrations :: "(string \<Rightarrow> string) \<Rightarrow> (string \<times> bool \<times> string result) list result \<Rightarrow> migrate_error + Migration list" where
  "Load_migrations sha dir =
     (case dir of
        Inl er \<Rightarrow> Inl (Database er)
      | Inr entries \<Rightarrow>
          (case load_entries sha entries [] [] of Inl er \<Rightarrow> Inl er | Inr migs \<Rightarrow> Inr (sort_key mg_Version migs)))"

definition stripTxControl :: "unicode \<Rightarrow> string \<Rightarrow> string" where
  "stripTxControl uc sql = join [CHR 0x0A]
     (map (\<lambda>l. if ToLower uc (TrimSpace uc l) \<in> set [''begin;'', ''commit;''] then [] else l) (split_on (CHR 0x0A) sql))"

section \<open>The database\<close>

text \<open>Tables with their columns, and indexes with their table and the columns they mention.\<close>

record catalogue =
  ct_tables :: "(string \<times> string list) list"
  ct_indexes :: "(string \<times> string \<times> string list) list"

record tracking_row =
  tr_version :: int
  tr_name :: string
  tr_checksum :: string
  tr_baselined :: bool

record mdb =
  md_schema :: catalogue
  md_tracking :: "tracking_row list option"

definition relation_exists :: "catalogue \<Rightarrow> string \<Rightarrow> bool" where
  "relation_exists c name \<longleftrightarrow> map_of (ct_tables c) name \<noteq> None \<or> map_of (ct_indexes c) name \<noteq> None"

definition column_exists :: "catalogue \<Rightarrow> string \<Rightarrow> string \<Rightarrow> bool" where
  "column_exists c table column = (case map_of (ct_tables c) table of None \<Rightarrow> False | Some cols \<Rightarrow> column \<in> set cols)"

text \<open>
  The environment of a run: the effect of a script, the faults of the statements in the order they are sent, and for the lock the
  answers, the readings of the clock before and after each decision to wait, and whether the context ends during the wait. An error of the lock query may
  hide that the lock was granted.
\<close>

datatype lock_answer = LockAnswer bool | LockError err bool

record mig_env =
  me_unicode :: unicode
  me_sql :: "string \<Rightarrow> catalogue \<Rightarrow> catalogue option"
  me_fault :: "nat \<Rightarrow> fault"
  me_conn :: "err option"
  me_lock :: "nat \<Rightarrow> lock_answer"
  me_start :: time
  me_check :: "nat \<Rightarrow> time"
  me_until :: "nat \<Rightarrow> time"
  me_done :: "nat \<Rightarrow> err option"
  me_unlock :: fault

text \<open>A statement takes the next fault; the state is the database with the number of statements sent.\<close>

type_synonym mstate = "mdb \<times> nat"
type_synonym 'a mig = "mstate \<Rightarrow> (migrate_error + 'a) \<times> mstate"

definition mstmt :: "mig_env \<Rightarrow> (mdb \<Rightarrow> 'a \<times> mdb) \<Rightarrow> 'a mig" where
  "mstmt e q st = (case st of (db, n) \<Rightarrow>
     (case me_fault e n of
        NoFault \<Rightarrow> (Inr (fst (q db)), snd (q db), Suc n)
      | FaultBefore er \<Rightarrow> (Inl (Database er), db, Suc n)
      | FaultAfter er \<Rightarrow> (Inl (Database er), snd (q db), Suc n)))"

definition mbind :: "'a mig \<Rightarrow> ('a \<Rightarrow> 'b mig) \<Rightarrow> 'b mig" where
  "mbind p k st = (case p st of (Inl er, st') \<Rightarrow> (Inl er, st') | (Inr x, st') \<Rightarrow> k x st')"

definition mreturn :: "'a \<Rightarrow> 'a mig" where
  "mreturn x st = (Inr x, st)"

definition mfail :: "migrate_error \<Rightarrow> 'a mig" where
  "mfail er st = (Inl er, st)"

definition mread :: "mig_env \<Rightarrow> (mdb \<Rightarrow> 'a) \<Rightarrow> 'a mig" where
  "mread e q = mstmt e (\<lambda>db. (q db, db))"

section \<open>Probes\<close>

datatype probe = relationExists string | columnExists string string | columnDropped string string

definition probes :: "(int \<times> probe) list" where
  "probes =
    [(1, relationExists ''jobs''),
     (2, relationExists ''idx_jobs_enabled''),
     (3, columnExists ''executions'' ''claimed_at''),
     (4, relationExists ''api_keys''),
     (5, columnDropped ''api_keys'' ''scopes''),
     (6, relationExists ''idx_executions_in_progress_claimed_at''),
     (7, relationExists ''admin_sessions''),
     (8, columnExists ''admin_sessions'' ''absolute_expires_at''),
     (9, relationExists ''idx_executions_emitted_created_at''),
     (10, relationExists ''admin_bulk_batches''),
     (11, columnExists ''executions'' ''claim_generation''),
     (12, columnExists ''api_keys'' ''tailnet_login'')]"

fun probe_query :: "mig_env \<Rightarrow> probe \<Rightarrow> bool mig" where
  "probe_query e (relationExists name) = mread e (\<lambda>db. relation_exists (md_schema db) name)"
| "probe_query e (columnExists table column) = mread e (\<lambda>db. column_exists (md_schema db) table column)"
| "probe_query e (columnDropped table column) =
     mbind (mread e (\<lambda>db. relation_exists (md_schema db) table)) (\<lambda>tbl.
       if \<not> tbl then mreturn False
       else mbind (mread e (\<lambda>db. column_exists (md_schema db) table column)) (\<lambda>col. mreturn (\<not> col)))"

text \<open>Without a probe a migration counts as absent.\<close>

definition runProbe :: "mig_env \<Rightarrow> int \<Rightarrow> bool mig" where
  "runProbe e version = (case map_of probes version of None \<Rightarrow> mreturn False | Some p \<Rightarrow> probe_query e p)"

text \<open>The loop over \<open>all\<close>; \<open>k\<close> is the length of the run found so far, \<open>length all\<close> as long as it has not ended.\<close>

fun present_loop :: "mig_env \<Rightarrow> Migration list \<Rightarrow> nat \<Rightarrow> nat \<Rightarrow> Migration list \<Rightarrow> Migration list mig" where
  "present_loop e all i k [] = mreturn (take k all)"
| "present_loop e all i k (m # ms) =
     mbind (runProbe e (mg_Version m)) (\<lambda>ok.
       if \<not> ok then present_loop e all (Suc i) (if k = length all then i else k) ms
       else if k \<noteq> length all then mfail (InconsistentSchema (mg_Version m) (mg_Version (all ! k)))
       else present_loop e all (Suc i) k ms)"

definition presentPrefix :: "mig_env \<Rightarrow> Migration list \<Rightarrow> Migration list mig" where
  "presentPrefix e ms = present_loop e ms 0 (length ms) ms"

section \<open>The runner\<close>

definition tracked :: "mdb \<Rightarrow> tracking_row list" where
  "tracked db = (case md_tracking db of None \<Rightarrow> [] | Some rows \<Rightarrow> rows)"

definition migration_row :: "bool \<Rightarrow> Migration \<Rightarrow> tracking_row" where
  "migration_row baselined m = \<lparr>tr_version = mg_Version m, tr_name = mg_Name m, tr_checksum = mg_Checksum m, tr_baselined = baselined\<rparr>"

definition create_tracking :: "mig_env \<Rightarrow> unit mig" where
  "create_tracking e = mstmt e (\<lambda>db. ((), db\<lparr>md_tracking := Some (tracked db)\<rparr>))"

definition readRecorded :: "mig_env \<Rightarrow> tracking_row list mig" where
  "readRecorded e = mread e tracked"

text \<open>
  A transaction: \<open>changes\<close> are its statements, each of which may also fail by itself; only the commit makes them visible. A transaction
  whose commit reports a failure may have taken effect.
\<close>

fun tx_body :: "mig_env \<Rightarrow> (mdb \<Rightarrow> mdb option) list \<Rightarrow> migrate_error \<Rightarrow> mdb \<Rightarrow> nat \<Rightarrow> (migrate_error + mdb) \<times> nat" where
  "tx_body e [] bad db n = (Inr db, n)"
| "tx_body e (q # qs) bad db n =
     (case me_fault e n of
        NoFault \<Rightarrow> (case q db of None \<Rightarrow> (Inl bad, Suc n) | Some db' \<Rightarrow> tx_body e qs bad db' (Suc n))
      | FaultBefore er \<Rightarrow> (Inl (Database er), Suc n)
      | FaultAfter er \<Rightarrow> (Inl (Database er), Suc n))"

definition transaction :: "mig_env \<Rightarrow> (mdb \<Rightarrow> mdb option) list \<Rightarrow> migrate_error \<Rightarrow> unit mig" where
  "transaction e qs bad = mbind (mread e (\<lambda>_. ())) (\<lambda>_ (db, n).
     (case tx_body e qs bad db n of
        (Inl er, n') \<Rightarrow> (Inl er, db, n')
      | (Inr db', n') \<Rightarrow> mstmt e (\<lambda>_. ((), db')) (db, n')))"

text \<open>The version is the primary key of the tracking table.\<close>

definition insert_row :: "tracking_row \<Rightarrow> mdb \<Rightarrow> mdb option" where
  "insert_row row db = (case md_tracking db of
     None \<Rightarrow> None
   | Some rows \<Rightarrow> if tr_version row \<in> tr_version ` set rows then None else Some (db\<lparr>md_tracking := Some (rows @ [row])\<rparr>))"

definition recordBaselined :: "mig_env \<Rightarrow> Migration list \<Rightarrow> unit mig" where
  "recordBaselined e ms = (if ms = [] then mreturn ()
     else transaction e (map (\<lambda>m. insert_row (migration_row True m)) ms) (ScriptFailed (mg_Version (hd ms))))"

definition baseline :: "mig_env \<Rightarrow> Migration list \<Rightarrow> int list mig" where
  "baseline e ms = mbind (runProbe e 1) (\<lambda>hasJobs.
     if \<not> hasJobs then mreturn []
     else mbind (presentPrefix e ms) (\<lambda>present.
       mbind (recordBaselined e present) (\<lambda>_. mreturn (map mg_Version present))))"

definition run_script :: "mig_env \<Rightarrow> Migration \<Rightarrow> mdb \<Rightarrow> mdb option" where
  "run_script e m db = (case me_sql e (stripTxControl (me_unicode e) (mg_SQL m)) (md_schema db) of
     None \<Rightarrow> None | Some c \<Rightarrow> Some (db\<lparr>md_schema := c\<rparr>))"

definition apply_migration :: "mig_env \<Rightarrow> Migration \<Rightarrow> unit mig" where
  "apply_migration e m = transaction e [run_script e m, insert_row (migration_row False m)] (ScriptFailed (mg_Version m))"

datatype migrate_log = ChecksumMismatch int string string | AppliedByHand int

record Result =
  rs_Applied :: "int list"
  rs_Baselined :: "int list"
  rs_Log :: "migrate_log list"

text \<open>The runner returns its result also with an error.\<close>

type_synonym mig_run = "mstate \<Rightarrow> (Result \<times> migrate_error option) \<times> mstate"

definition and_then :: "Result \<Rightarrow> 'a mig \<Rightarrow> ('a \<Rightarrow> mig_run) \<Rightarrow> mig_run" where
  "and_then res p k st = (case p st of (Inl er, st') \<Rightarrow> ((res, Some er), st') | (Inr x, st') \<Rightarrow> k x st')"

fun apply_all :: "mig_env \<Rightarrow> Result \<Rightarrow> Migration list \<Rightarrow> mig_run" where
  "apply_all e res [] st = ((res, None), st)"
| "apply_all e res (m # ms) st =
     and_then res (apply_migration e m) (\<lambda>_. apply_all e (res\<lparr>rs_Applied := rs_Applied res @ [mg_Version m]\<rparr>) ms) st"

definition mismatches :: "tracking_row list \<Rightarrow> Migration list \<Rightarrow> migrate_log list" where
  "mismatches rows ms = concat (map (\<lambda>m. case find (\<lambda>r. tr_version r = mg_Version m) rows of
     None \<Rightarrow> []
   | Some r \<Rightarrow> if tr_checksum r \<noteq> mg_Checksum m then [ChecksumMismatch (mg_Version m) (tr_checksum r) (mg_Checksum m)] else []) ms)"

definition refusal :: "Migration list \<Rightarrow> migrate_error option" where
  "refusal pending = (case dropWhile (\<lambda>m. \<not> mg_ManualOnExisting m) pending of
     [] \<Rightarrow> None
   | m # _ \<Rightarrow> Some (ManualMigrationRequired (mg_Version m)
       (map mg_Version (takeWhile (\<lambda>m. \<not> mg_ManualOnExisting m) pending) @ [mg_Version m])))"

definition run_pending :: "mig_env \<Rightarrow> Migration list \<Rightarrow> Result \<Rightarrow> tracking_row list \<Rightarrow> mig_run" where
  "run_pending e ms res rows =
     (let pending = filter (\<lambda>m. mg_Version m \<notin> tr_version ` set rows) ms
      in if \<not> list_ex tr_baselined rows then apply_all e res pending
         else and_then res (presentPrefix e pending) (\<lambda>handApplied.
           and_then res (recordBaselined e handApplied) (\<lambda>_.
             (let res = res\<lparr>rs_Baselined := rs_Baselined res @ map mg_Version handApplied,
                    rs_Log := rs_Log res @ map (AppliedByHand \<circ> mg_Version) handApplied\<rparr>;
                  pending = drop (length handApplied) pending
              in case refusal pending of
                   Some er \<Rightarrow> \<lambda>st. ((res, Some er), st)
                 | None \<Rightarrow> apply_all e res pending))))"

definition run_locked :: "mig_env \<Rightarrow> Migration list \<Rightarrow> mig_run" where
  "run_locked e ms =
     (let none = \<lparr>rs_Applied = [], rs_Baselined = [], rs_Log = []\<rparr>
      in and_then none (create_tracking e) (\<lambda>_.
         and_then none (readRecorded e) (\<lambda>rows.
           (let res = none\<lparr>rs_Log := mismatches rows ms\<rparr>
            in if rows \<noteq> [] then run_pending e ms res rows
               else and_then res (baseline e ms) (\<lambda>baselined.
                 (let res = res\<lparr>rs_Baselined := baselined\<rparr>
                  in and_then res (readRecorded e) (\<lambda>rows. run_pending e ms res rows)))))))"

text \<open>
  The lock. The connection's session may hold the lock (\<open>cn_holds\<close>); a bad connection is closed instead of going back to the pool.
\<close>

record conn =
  cn_holds :: bool
  cn_bad :: bool

definition lockPollInterval :: duration where
  "lockPollInterval = 100 * Millisecond"

definition defaultLockTimeout :: duration where
  "defaultLockTimeout = 2 * Minute"

partial_function (option) lock_loop :: "mig_env \<Rightarrow> duration \<Rightarrow> time \<Rightarrow> nat \<Rightarrow> ((migrate_error + unit) \<times> conn) option" where
  [code]: "lock_loop e timeout deadline n =
     (case me_lock e n of
        LockError er granted \<Rightarrow> Some (Inl (Database er), \<lparr>cn_holds = granted, cn_bad = True\<rparr>)
      | LockAnswer got \<Rightarrow>
          if got then Some (Inr (), \<lparr>cn_holds = True, cn_bad = False\<rparr>)
          else if \<not> me_check e n < deadline then Some (Inl (LockTimeout timeout), \<lparr>cn_holds = False, cn_bad = False\<rparr>)
          else (case me_done e n of
              Some er \<Rightarrow> Some (Inl (Database er), \<lparr>cn_holds = False, cn_bad = False\<rparr>)
            | None \<Rightarrow> lock_loop e timeout deadline (Suc n)))"

definition acquireLock :: "mig_env \<Rightarrow> duration \<Rightarrow> ((migrate_error + unit) \<times> conn) option" where
  "acquireLock e timeout =
     (let timeout = (if timeout \<le> 0 then defaultLockTimeout else timeout)
      in lock_loop e timeout (me_start e + timeout) 0)"

definition releaseLock :: "mig_env \<Rightarrow> conn \<Rightarrow> conn" where
  "releaseLock e c = (case me_unlock e of
     NoFault \<Rightarrow> c\<lparr>cn_holds := False\<rparr>
   | FaultBefore _ \<Rightarrow> c\<lparr>cn_bad := True\<rparr>
   | FaultAfter _ \<Rightarrow> c\<lparr>cn_holds := False, cn_bad := True\<rparr>)"

definition Run :: "mig_env \<Rightarrow> Migration list \<Rightarrow> duration \<Rightarrow> mdb \<Rightarrow> ((Result \<times> migrate_error option) \<times> conn \<times> mdb) option" where
  "Run e ms timeout db =
     (let none = \<lparr>rs_Applied = [], rs_Baselined = [], rs_Log = []\<rparr>
      in case me_conn e of
           Some er \<Rightarrow> Some ((none, Some (Database er)), \<lparr>cn_holds = False, cn_bad = True\<rparr>, db)
         | None \<Rightarrow>
             (case acquireLock e timeout of
                None \<Rightarrow> None
              | Some (Inl er, c) \<Rightarrow> Some ((none, Some er), c, db)
              | Some (Inr _, c) \<Rightarrow>
                  (case run_locked e ms (db, 0) of (out, db', _) \<Rightarrow> Some (out, releaseLock e c, db'))))"

text \<open>The loader and the runner together, as \<^verbatim>\<open>cronlite migrate\<close> and the start of the server use them.\<close>

definition applyMigrations :: "(string \<Rightarrow> string) \<Rightarrow> (string \<times> bool \<times> string result) list result \<Rightarrow> mig_env \<Rightarrow> duration \<Rightarrow> mdb
    \<Rightarrow> ((Result \<times> migrate_error option) \<times> mdb) option" where
  "applyMigrations sha dir e timeout db =
     (case Load_migrations sha dir of
        Inl er \<Rightarrow> Some ((\<lparr>rs_Applied = [], rs_Baselined = [], rs_Log = []\<rparr>, Some er), db)
      | Inr ms \<Rightarrow> (case Run e ms timeout db of None \<Rightarrow> None | Some (out, _, db') \<Rightarrow> Some (out, db')))"

datatype State = StateApplied | StateBaselined | StatePending

definition StatusOf :: "mig_env \<Rightarrow> Migration list \<Rightarrow> (int \<times> string \<times> State) list mig" where
  "StatusOf e ms =
     mbind (mread e (\<lambda>db. md_tracking db \<noteq> None)) (\<lambda>exists.
     mbind (if exists then readRecorded e else mreturn []) (\<lambda>rows.
       mreturn (map (\<lambda>m. (mg_Version m, mg_Name m,
         (case find (\<lambda>r. tr_version r = mg_Version m) rows of
            None \<Rightarrow> StatePending
          | Some r \<Rightarrow> if tr_baselined r then StateBaselined else StateApplied))) ms)))"

definition NeedsBaseline :: "mig_env \<Rightarrow> bool mig" where
  "NeedsBaseline e = mread e (\<lambda>db. md_tracking db = None \<and> relation_exists (md_schema db) ''jobs'')"

section \<open>The schema files\<close>

text \<open>
  The statements of the files under \<^verbatim>\<open>schema/\<close> as changes of the catalogue. A flag says whether the statement has \<^verbatim>\<open>IF NOT EXISTS\<close>; the last argument of a
  table names the tables it refers to. Dropping a column drops the indexes that mention it. Statements that only change rows, constraints or defaults
  need their columns (\<open>Uses\<close>).
\<close>

datatype ddl =
    CreateTable bool string "string list" "string list"
  | CreateIndex bool string string "string list"
  | AddColumn bool string string
  | DropColumn string string
  | DropIndex string
  | Uses string "string list"

fun exec_ddl :: "ddl \<Rightarrow> catalogue \<Rightarrow> catalogue option" where
  "exec_ddl (CreateTable safe t cols refs) c =
     (if relation_exists c t then (if safe then Some c else None)
      else if list_all (\<lambda>r. map_of (ct_tables c) r \<noteq> None) refs then Some (c\<lparr>ct_tables := ct_tables c @ [(t, cols)]\<rparr>) else None)"
| "exec_ddl (CreateIndex safe i t cols) c =
     (if relation_exists c i then (if safe then Some c else None)
      else if list_all (column_exists c t) cols then Some (c\<lparr>ct_indexes := ct_indexes c @ [(i, t, cols)]\<rparr>) else None)"
| "exec_ddl (AddColumn safe t col) c =
     (if map_of (ct_tables c) t = None then None
      else if column_exists c t col then (if safe then Some c else None)
      else Some (c\<lparr>ct_tables := map (\<lambda>(n, cols). if n = t then (n, cols @ [col]) else (n, cols)) (ct_tables c)\<rparr>))"
| "exec_ddl (DropColumn t col) c =
     (if \<not> column_exists c t col then None
      else Some \<lparr>ct_tables = map (\<lambda>(n, cols). if n = t then (n, filter (\<lambda>x. x \<noteq> col) cols) else (n, cols)) (ct_tables c),
        ct_indexes = filter (\<lambda>(_, n, cols). \<not> (n = t \<and> col \<in> set cols)) (ct_indexes c)\<rparr>)"
| "exec_ddl (DropIndex i) c = Some (c\<lparr>ct_indexes := filter (\<lambda>(n, _). n \<noteq> i) (ct_indexes c)\<rparr>)"
| "exec_ddl (Uses t cols) c = (if list_all (column_exists c t) cols then Some c else None)"

definition exec_script :: "ddl list \<Rightarrow> catalogue \<Rightarrow> catalogue option" where
  "exec_script ds c = fold (\<lambda>d c. Option.bind c (exec_ddl d)) ds (Some c)"

definition initial_001 :: "ddl list" where
  "initial_001 =
    [CreateTable False ''schedules'' [''id'', ''cron_expression'', ''timezone'', ''created_at'', ''updated_at''] [],
     CreateTable False ''jobs'' [''id'', ''project_id'', ''name'', ''enabled'', ''schedule_id'', ''delivery_type'', ''webhook_url'', ''secret'',
       ''timeout_ms'', ''analytics_enabled'', ''analytics_retention_seconds'', ''created_at'', ''updated_at''] [''schedules''],
     CreateTable False ''executions'' [''id'', ''job_id'', ''project_id'', ''scheduled_at'', ''fired_at'', ''status'', ''created_at''] [''jobs''],
     CreateTable False ''delivery_attempts'' [''id'', ''execution_id'', ''attempt'', ''status_code'', ''error'', ''started_at'', ''finished_at''] [''executions'']]"

definition add_indexes_002 :: "ddl list" where
  "add_indexes_002 =
    [CreateIndex True ''idx_jobs_enabled'' ''jobs'' [''enabled''],
     CreateIndex True ''idx_jobs_project_id'' ''jobs'' [''project_id''],
     CreateIndex True ''idx_executions_status_created_at'' ''executions'' [''status'', ''created_at''],
     CreateIndex True ''idx_executions_job_id'' ''executions'' [''job_id''],
     CreateIndex True ''idx_delivery_attempts_execution_id'' ''delivery_attempts'' [''execution_id'']]"

definition add_claimed_at_003 :: "ddl list" where
  "add_claimed_at_003 = [AddColumn False ''executions'' ''claimed_at'']"

definition agent_platform_004 :: "ddl list" where
  "agent_platform_004 =
    [CreateTable False ''api_keys'' [''id'', ''namespace'', ''token_hash'', ''label'', ''scopes'', ''enabled'', ''created_at'', ''last_used_at''] [],
     CreateIndex False ''idx_api_keys_namespace'' ''api_keys'' [''namespace''],
     CreateTable False ''tags'' [''job_id'', ''key'', ''value''] [''jobs''],
     CreateIndex False ''idx_tags_key_value'' ''tags'' [''key'', ''value''],
     AddColumn False ''jobs'' ''namespace'', Uses ''jobs'' [''namespace''], Uses ''jobs'' [''namespace''], DropColumn ''jobs'' ''project_id'',
     CreateIndex False ''idx_jobs_namespace'' ''jobs'' [''namespace''],
     AddColumn False ''executions'' ''namespace'', Uses ''executions'' [''namespace''], Uses ''executions'' [''namespace''],
     DropColumn ''executions'' ''project_id'',
     AddColumn False ''executions'' ''trigger_type'', AddColumn False ''executions'' ''acknowledged_at'',
     CreateIndex False ''idx_executions_pending_ack'' ''executions'' [''namespace'', ''created_at'', ''acknowledged_at'', ''status''],
     DropIndex ''idx_jobs_project_id'']"

definition drop_scopes_005 :: "ddl list" where
  "drop_scopes_005 = [DropColumn ''api_keys'' ''scopes'']"

definition add_claimed_at_index_006 :: "ddl list" where
  "add_claimed_at_index_006 = [CreateIndex True ''idx_executions_in_progress_claimed_at'' ''executions'' [''claimed_at'', ''status'']]"

definition admin_sessions_007 :: "ddl list" where
  "admin_sessions_007 =
    [CreateTable True ''admin_sessions'' [''token_hash'', ''api_key_id'', ''csrf_token'', ''created_at'', ''last_seen_at'', ''expires_at''] [''api_keys''],
     CreateIndex True ''idx_admin_sessions_api_key_id'' ''admin_sessions'' [''api_key_id''],
     CreateIndex True ''idx_admin_sessions_expires_at'' ''admin_sessions'' [''expires_at'']]"

definition admin_session_absolute_expiry_008 :: "ddl list" where
  "admin_session_absolute_expiry_008 =
    [AddColumn False ''admin_sessions'' ''absolute_expires_at'',
     Uses ''admin_sessions'' [''absolute_expires_at'', ''expires_at'', ''created_at''],
     Uses ''admin_sessions'' [''absolute_expires_at''],
     Uses ''admin_sessions'' [''absolute_expires_at''],
     Uses ''admin_sessions'' [''expires_at'', ''absolute_expires_at''],
     CreateIndex False ''idx_admin_sessions_absolute_expires_at'' ''admin_sessions'' [''absolute_expires_at'']]"

definition emitted_claim_index_009 :: "ddl list" where
  "emitted_claim_index_009 =
    [CreateIndex True ''idx_executions_emitted_created_at'' ''executions'' [''created_at'', ''id'', ''status''],
     DropIndex ''idx_executions_status_created_at'']"

definition job_control_center_010 :: "ddl list" where
  "job_control_center_010 =
    [CreateTable True ''admin_saved_views'' [''id'', ''api_key_id'', ''namespace'', ''name'', ''query'', ''created_at''] [''api_keys''],
     CreateTable True ''admin_bulk_batches'' [''id'', ''api_key_id'', ''namespace'', ''action'', ''items'', ''created_at'', ''expires_at'', ''confirmed_at''] [],
     CreateIndex True ''idx_admin_bulk_actor'' ''admin_bulk_batches'' [''api_key_id'', ''namespace'', ''created_at''],
     CreateIndex True ''idx_admin_bulk_expiry'' ''admin_bulk_batches'' [''expires_at'', ''confirmed_at''],
     CreateIndex True ''idx_jobs_namespace_created'' ''jobs'' [''namespace'', ''created_at'', ''id''],
     CreateIndex True ''idx_executions_namespace_created'' ''executions'' [''namespace'', ''created_at'', ''id''],
     CreateIndex True ''idx_attempts_execution_finished'' ''delivery_attempts'' [''execution_id'', ''finished_at'', ''id'']]"

definition execution_ownership_011 :: "ddl list" where
  "execution_ownership_011 =
    [AddColumn True ''executions'' ''claim_generation'', AddColumn True ''executions'' ''lease_until'',
     AddColumn True ''delivery_attempts'' ''claim_generation'',
     CreateIndex True ''idx_executions_in_progress_lease'' ''executions'' [''lease_until'', ''status'']]"

definition api_key_tailnet_login_012 :: "ddl list" where
  "api_key_tailnet_login_012 =
    [AddColumn True ''api_keys'' ''tailnet_login'',
     CreateIndex True ''idx_api_keys_namespace_tailnet_login'' ''api_keys'' [''namespace'', ''tailnet_login'']]"

definition schema_files :: "ddl list list" where
  "schema_files = [initial_001, add_indexes_002, add_claimed_at_003, agent_platform_004, drop_scopes_005, add_claimed_at_index_006,
     admin_sessions_007, admin_session_absolute_expiry_008, emitted_claim_index_009, job_control_center_010, execution_ownership_011,
     api_key_tailnet_login_012]"

text \<open>The catalogue after the first \<open>k\<close> files.\<close>

definition empty_catalogue :: catalogue where
  "empty_catalogue = \<lparr>ct_tables = [], ct_indexes = []\<rparr>"

definition built :: "nat \<Rightarrow> catalogue option" where
  "built k = exec_script (concat (take k schema_files)) empty_catalogue"

fun probe_holds :: "catalogue \<Rightarrow> probe \<Rightarrow> bool" where
  "probe_holds c (relationExists name) = relation_exists c name"
| "probe_holds c (columnExists t col) = column_exists c t col"
| "probe_holds c (columnDropped t col) = (relation_exists c t \<and> \<not> column_exists c t col)"

section \<open>Reading\<close>

definition reads_only :: "'a mig \<Rightarrow> bool" where
  "reads_only p \<longleftrightarrow> (\<forall>st. fst (snd (p st)) = fst st)"

named_theorems reading

lemma reads_onlyD: "reads_only p \<Longrightarrow> p (db, n) = (r, db', n') \<Longrightarrow> db' = db"
  unfolding reads_only_def by (metis fst_conv snd_conv)

lemma reads_only_mread [reading]: "reads_only (mread e q)"
  by (auto simp: reads_only_def mread_def mstmt_def split: fault.split)

lemma reads_only_mreturn [reading]: "reads_only (mreturn x)" "reads_only (mfail er)"
  by (simp_all add: reads_only_def mreturn_def mfail_def)

lemma reads_only_mbind [reading]:
  assumes "reads_only p" "\<And>x. reads_only (k x)"
  shows "reads_only (mbind p k)"
  unfolding reads_only_def
proof
  fix st
  obtain r db n where p: "p st = (r, db, n)" by (metis surj_pair)
  have "db = fst st" using assms(1) p unfolding reads_only_def by (metis fst_conv snd_conv)
  with p assms(2) show "fst (snd (mbind p k st)) = fst st" by (auto simp: mbind_def reads_only_def split: sum.split)
qed

lemma reads_only_probe [reading]: "reads_only (probe_query e p)" "reads_only (runProbe e v)"
proof -
  show "reads_only (probe_query e p)" for p by (cases p) (auto intro!: reading)
  then show "reads_only (runProbe e v)" by (auto simp: runProbe_def intro!: reading split: option.split)
qed

lemma reads_only_present [reading]: "reads_only (presentPrefix e ms)"
proof -
  have "reads_only (present_loop e all i k ms)" for all i k
    by (induction ms arbitrary: i k) (auto intro!: reading)
  then show ?thesis by (simp add: presentPrefix_def)
qed

lemma reads_only_rest [reading]: "reads_only (readRecorded e)" "reads_only (StatusOf e ms)" "reads_only (NeedsBaseline e)"
  by (auto simp: readRecorded_def StatusOf_def NeedsBaseline_def intro!: reading)

lemma mbind_Inr: "fst (mbind p k st) = Inr y \<longleftrightarrow> (\<exists>x st'. p st = (Inr x, st') \<and> fst (k x st') = Inr y)"
  by (auto simp: mbind_def split: prod.split sum.split)

lemma presentPrefix_take: "fst (presentPrefix e ms st) = Inr xs \<Longrightarrow> \<exists>k \<le> length ms. xs = take k ms"
proof -
  have "fst (present_loop e all i k ms st) = Inr xs \<Longrightarrow> i + length ms = length all \<Longrightarrow> k \<le> length all \<Longrightarrow> \<exists>k \<le> length all. xs = take k all" for all i k
    by (induction ms arbitrary: i k st) (auto simp: mreturn_def mfail_def mbind_Inr split: if_splits)
  from this [of ms 0 "length ms"] show "fst (presentPrefix e ms st) = Inr xs \<Longrightarrow> ?thesis" by (simp add: presentPrefix_def)
qed

section \<open>Writing\<close>

definition exec_all :: "mig_env \<Rightarrow> Migration list \<Rightarrow> catalogue \<Rightarrow> catalogue option" where
  "exec_all e ms c = fold (\<lambda>m c. Option.bind c (me_sql e (stripTxControl (me_unicode e) (mg_SQL m)))) ms (Some c)"

text \<open>
  The database grew by \<open>xs\<close>: the tracking table has their rows after its old ones, and the scripts of those that are not baselined, and no others, were
  executed in this order.
\<close>

definition grown :: "mig_env \<Rightarrow> (bool \<times> Migration) list \<Rightarrow> mdb \<Rightarrow> mdb \<Rightarrow> bool" where
  "grown e xs db db' \<longleftrightarrow> tracked db' = tracked db @ map (\<lambda>(b, m). migration_row b m) xs
     \<and> exec_all e (map snd (filter (\<lambda>x. \<not> fst x) xs)) (md_schema db) = Some (md_schema db')"

lemma exec_all_append: "exec_all e (xs @ ys) c = Option.bind (exec_all e xs c) (exec_all e ys)"
proof -
  have "fold (\<lambda>m c. Option.bind c (me_sql e (stripTxControl (me_unicode e) (mg_SQL m)))) ys None = None" by (induction ys) auto
  then show ?thesis by (cases "exec_all e xs c") (simp_all add: exec_all_def)
qed

lemma grown_refl: "grown e [] db db"
  by (simp add: grown_def exec_all_def)

lemma grown_trans: "grown e xs db db' \<Longrightarrow> grown e ys db' db'' \<Longrightarrow> grown e (xs @ ys) db db''"
  by (simp add: grown_def exec_all_append)

definition all_of :: "(mdb \<Rightarrow> mdb option) list \<Rightarrow> mdb \<Rightarrow> mdb option" where
  "all_of qs db = fold (\<lambda>q d. Option.bind d q) qs (Some db)"

lemma all_of_Cons: "all_of (q # qs) db = Option.bind (q db) (all_of qs)"
proof -
  have "fold (\<lambda>q d. Option.bind d q) qs None = None" by (induction qs) auto
  then show ?thesis by (cases "q db") (simp_all add: all_of_def)
qed

lemma tx_body_all: "tx_body e qs bad db n = (Inr db', n') \<Longrightarrow> all_of qs db = Some db'"
  by (induction e qs bad db n rule: tx_body.induct) (auto simp: all_of_Cons all_of_def split: fault.splits option.splits)

lemma transaction_cases:
  assumes "transaction e qs bad (db, n) = (r, db', n')"
  shows "db' = db \<and> isl r \<or> all_of qs db = Some db'"
  using assms
  by (auto simp: transaction_def mbind_def mread_def mstmt_def dest: tx_body_all split: fault.splits prod.splits sum.splits)

lemma insert_row_grown: "insert_row (migration_row b m) db = Some db' \<Longrightarrow> tracked db' = tracked db @ [migration_row b m] \<and> md_schema db' = md_schema db"
  by (auto simp: insert_row_def tracked_def split: option.splits if_splits)

lemma insert_rows_grown:
  assumes "all_of (map (\<lambda>m. insert_row (migration_row True m)) ms) db = Some db'"
  shows "grown e (map (Pair True) ms) db db'"
  using assms
proof (induction ms arbitrary: db)
  case (Cons m ms)
  then obtain db1 where "insert_row (migration_row True m) db = Some db1" "grown e (map (Pair True) ms) db1 db'"
    by (auto simp: all_of_Cons bind_eq_Some_conv)
  then show ?case by (auto simp: grown_def dest!: insert_row_grown)
qed (simp add: all_of_def grown_refl)

lemma recordBaselined_grown:
  assumes "recordBaselined e ms (db, n) = (r, db', n')"
  shows "db' = db \<and> isl r \<or> grown e (map (Pair True) ms) db db'"
  using assms transaction_cases [of e "map (\<lambda>m. insert_row (migration_row True m)) ms"]
  by (fastforce simp: recordBaselined_def mreturn_def grown_refl dest: insert_rows_grown split: if_splits)

lemma apply_migration_grown:
  assumes "apply_migration e m (db, n) = (r, db', n')"
  shows "db' = db \<and> isl r \<or> grown e [(False, m)] db db'"
  using transaction_cases [OF assms [unfolded apply_migration_def]]
  by (auto simp: all_of_Cons all_of_def bind_eq_Some_conv run_script_def grown_def exec_all_def tracked_def insert_row_def split: option.splits if_splits)

section \<open>A run\<close>

text \<open>The first \<open>k\<close> migrations are recorded, in order.\<close>

definition recorded :: "Migration list \<Rightarrow> nat \<Rightarrow> mdb \<Rightarrow> bool" where
  "recorded ms k db \<longleftrightarrow> k \<le> length ms \<and> map tr_version (tracked db) = map mg_Version (take k ms)"

definition some_baselined :: "mdb \<Rightarrow> bool" where
  "some_baselined db \<longleftrightarrow> list_ex tr_baselined (tracked db)"

text \<open>
  What a run may do from there: it baselines the next migrations \<open>bs\<close> and executes and records the following ones \<open>as\<close>; on a database with baselined
  migrations none of \<open>as\<close> is to be applied by hand; without an error nothing is left; and it baselines only where something was baselined
  before, or where nothing is recorded and the table of jobs exists.
\<close>

definition run_effect :: "mig_env \<Rightarrow> Migration list \<Rightarrow> nat \<Rightarrow> mdb \<Rightarrow> mdb \<Rightarrow> migrate_error option \<Rightarrow> Migration list \<Rightarrow> Migration list \<Rightarrow> bool" where
  "run_effect e ms k db db' er bs as \<longleftrightarrow> grown e (map (Pair True) bs @ map (Pair False) as) db db'
     \<and> (\<exists>later. drop k ms = bs @ as @ later \<and> (er = None \<longrightarrow> later = []))
     \<and> (some_baselined db \<or> bs \<noteq> [] \<longrightarrow> (\<forall>m \<in> set as. \<not> mg_ManualOnExisting m))
     \<and> (bs \<noteq> [] \<longrightarrow> some_baselined db \<or> tracked db = [] \<and> relation_exists (md_schema db) ''jobs'')"

lemma apply_all_effect:
  assumes "apply_all e res ms (db, n) = ((res', er), db', n')"
  shows "\<exists>as later. grown e (map (Pair False) as) db db' \<and> ms = as @ later \<and> (er = None \<longrightarrow> later = [])"
  using assms
proof (induction ms arbitrary: res db n)
  case Nil
  then show ?case by (auto intro: grown_refl)
next
  case (Cons m ms)
  obtain r db1 n1 where a: "apply_migration e m (db, n) = (r, db1, n1)" by (metis surj_pair)
  note g = apply_migration_grown [OF a]
  show ?case
  proof (cases r)
    case (Inl er')
    with Cons.prems a have "er = Some er'" "db' = db1" by (auto simp: and_then_def)
    then consider "db' = db" | "grown e [(False, m)] db db'" using g by blast
    then show ?thesis
    proof cases
      case 1
      with \<open>er = Some er'\<close> show ?thesis by (intro exI [of _ "[]"] exI [of _ "m # ms"]) (simp add: grown_refl)
    next
      case 2
      with \<open>er = Some er'\<close> show ?thesis by (intro exI [of _ "[m]"] exI [of _ ms]) simp
    qed
  next
    case (Inr u)
    with Cons.prems a have "apply_all e (res\<lparr>rs_Applied := rs_Applied res @ [mg_Version m]\<rparr>) ms (db1, n1) = ((res', er), db', n')"
      by (simp add: and_then_def)
    from Cons.IH [OF this] obtain as later where "grown e (map (Pair False) as) db1 db'" "ms = as @ later" "er = None \<longrightarrow> later = []" by blast
    moreover have "grown e [(False, m)] db db1" using g Inr by auto
    ultimately show ?thesis using grown_trans [of e "[(False, m)]"] by (intro exI [of _ "m # as"] exI [of _ later]) auto
  qed
qed

lemma pending_drop:
  assumes "recorded ms k db" "distinct (map mg_Version ms)"
  shows "filter (\<lambda>m. mg_Version m \<notin> tr_version ` set (tracked db)) ms = drop k ms"
proof -
  let ?p = "\<lambda>m. mg_Version m \<notin> tr_version ` set (tracked db)"
  have r: "tr_version ` set (tracked db) = mg_Version ` set (take k ms)" using assms(1) unfolding recorded_def by (metis list.set_map)
  have "distinct (map mg_Version (take k ms @ drop k ms))" using assms(2) by simp
  then have "filter ?p (take k ms) = []" "filter ?p (drop k ms) = drop k ms"
    unfolding r map_append distinct_append by (auto simp: filter_empty_conv filter_id_conv)
  moreover have "filter ?p ms = filter ?p (take k ms) @ filter ?p (drop k ms)" by (metis append_take_drop_id filter_append)
  ultimately show ?thesis by simp
qed

lemma refusal_None: "refusal ms = None \<longleftrightarrow> (\<forall>m \<in> set ms. \<not> mg_ManualOnExisting m)"
  by (auto simp: refusal_def dropWhile_eq_Nil_conv split: list.split) (metis dropWhile_eq_Nil_conv list.simps(3))

lemma run_effect_stopped: "er \<noteq> None \<Longrightarrow> run_effect e ms k db db er [] []"
  by (auto simp: run_effect_def grown_refl)

lemma run_effect_baselined:
  "er \<noteq> None \<Longrightarrow> grown e (map (Pair True) bs) db db' \<Longrightarrow> drop k ms = bs @ later
    \<Longrightarrow> bs = [] \<or> some_baselined db \<or> tracked db = [] \<and> relation_exists (md_schema db) ''jobs'' \<Longrightarrow> run_effect e ms k db db' er bs []"
  by (auto simp: run_effect_def)

lemma run_pending_effect:
  assumes "run_pending e ms res (tracked db) (db, n) = ((res', er), db', n')" "recorded ms k db" "distinct (map mg_Version ms)"
  shows "\<exists>bs as. run_effect e ms k db db' er bs as"
proof (cases "some_baselined db")
  case False
  then have "apply_all e res (drop k ms) (db, n) = ((res', er), db', n')"
    using assms(1) by (simp add: run_pending_def pending_drop [OF assms(2,3)] some_baselined_def)
  from apply_all_effect [OF this] show ?thesis using False by (fastforce simp: run_effect_def intro: exI [of _ "[]"])
next
  case True
  let ?pending = "drop k ms"
  obtain r n1 where p: "presentPrefix e ?pending (db, n) = (r, db, n1)"
    using reads_onlyD [OF reads_only_present] by (metis surj_pair)
  have run: "and_then res (presentPrefix e ?pending) (\<lambda>hand. and_then res (recordBaselined e hand) (\<lambda>_.
      (let res = res\<lparr>rs_Baselined := rs_Baselined res @ map mg_Version hand, rs_Log := rs_Log res @ map (AppliedByHand \<circ> mg_Version) hand\<rparr>;
           pending = drop (length hand) ?pending
       in case refusal pending of Some er \<Rightarrow> \<lambda>st. ((res, Some er), st) | None \<Rightarrow> apply_all e res pending))) (db, n) = ((res', er), db', n')"
    using assms(1) True by (simp add: run_pending_def pending_drop [OF assms(2,3)] some_baselined_def)
  show ?thesis
  proof (cases r)
    case (Inl x)
    with run p have "er \<noteq> None" "db' = db" by (auto simp: and_then_def)
    then show ?thesis using run_effect_stopped by blast
  next
    case (Inr bs)
    obtain j where j: "bs = take j ?pending" using presentPrefix_take [of e ?pending "(db, n)" bs] p Inr by auto
    then have later: "?pending = bs @ drop (length bs) ?pending" by (metis append_eq_conv_conj append_take_drop_id)
    obtain r2 db1 n2 where rb: "recordBaselined e bs (db, n1) = (r2, db1, n2)" by (metis surj_pair)
    note g = recordBaselined_grown [OF rb]
    show ?thesis
    proof (cases r2)
      case (Inl x)
      with run p rb Inr have d: "er \<noteq> None" "db' = db1" by (auto simp: and_then_def)
      show ?thesis
      proof (cases "db1 = db")
        case True
        with d show ?thesis using run_effect_stopped by blast
      next
        case False
        with d g later \<open>some_baselined db\<close> show ?thesis using run_effect_baselined by blast
      qed
    next
      case u: (Inr u)
      with g have g1: "grown e (map (Pair True) bs) db db1" by auto
      show ?thesis
      proof (cases "refusal (drop (length bs) ?pending)")
        case (Some x)
        with run p rb Inr u have "er = Some x" "db' = db1" by (simp_all add: and_then_def Let_def)
        with g1 later True show ?thesis using run_effect_baselined by blast
      next
        case None
        with run p rb Inr u obtain res1 where "apply_all e res1 (drop (length bs) ?pending) (db1, n2) = ((res', er), db', n')"
          by (auto simp: and_then_def Let_def)
        from apply_all_effect [OF this] obtain as lat where
          a: "grown e (map (Pair False) as) db1 db'" "drop (length bs) ?pending = as @ lat" "er = None \<longrightarrow> lat = []" by blast
        moreover have "\<forall>m \<in> set as. \<not> mg_ManualOnExisting m" using None a(2) by (simp add: refusal_None)
        ultimately show ?thesis using grown_trans [OF g1 a(1)] later True unfolding run_effect_def by metis
      qed
    qed
  qed
qed

lemma baseline_effect:
  assumes "baseline e ms (db, n) = (r, db', n')"
  shows "db' = db \<or> relation_exists (md_schema db) ''jobs'' \<and> (\<exists>j \<le> length ms. grown e (map (Pair True) (take j ms)) db db')"
proof -
  obtain r1 n1 where p: "runProbe e 1 (db, n) = (r1, db, n1)" using reads_onlyD [OF reads_only_probe(2)] by (metis surj_pair)
  obtain r2 n2 where q: "presentPrefix e ms (db, n1) = (r2, db, n2)" using reads_onlyD [OF reads_only_present] by (metis surj_pair)
  show ?thesis
  proof (cases "\<exists>xs. r1 = Inr True \<and> r2 = Inr xs")
    case True
    then obtain xs where x: "r1 = Inr True" "r2 = Inr xs" by blast
    have jobs: "relation_exists (md_schema db) ''jobs''" using p x(1) by (auto simp: runProbe_def probes_def mread_def mstmt_def split: fault.splits)
    obtain j where j: "xs = take j ms" "j \<le> length ms" using presentPrefix_take [of e ms "(db, n1)" xs] q x by auto
    obtain r3 n3 db3 where "recordBaselined e xs (db, n2) = (r3, db3, n3)" by (metis surj_pair)
    with recordBaselined_grown [OF this] assms p q x j jobs show ?thesis by (auto simp: baseline_def mbind_def mreturn_def split: sum.splits)
  next
    case False
    with assms p q show ?thesis by (auto simp: baseline_def mbind_def mreturn_def split: sum.splits if_splits)
  qed
qed

lemma recorded_grown:
  assumes "recorded ms k db" "grown e xs db db'" "drop k ms = map snd xs @ later"
  shows "recorded ms (k + length xs) db'"
proof -
  have "take (k + length xs) ms = take k ms @ map snd xs" using assms(3) by (simp add: take_add)
  moreover have "map (tr_version \<circ> (\<lambda>(b, m). migration_row b m)) xs = map (mg_Version \<circ> snd) xs"
    by (auto simp: migration_row_def)
  moreover have "k + length xs \<le> length ms" using assms(1,3) length_drop [of k ms] by (simp add: recorded_def) linarith
  ultimately show ?thesis using assms(1,2) by (simp add: recorded_def grown_def)
qed

lemma grown_empty_table: "tracked db = tracked db0 \<Longrightarrow> md_schema db = md_schema db0 \<Longrightarrow> grown e xs db db' = grown e xs db0 db'"
  by (simp add: grown_def)

lemma some_baselined_grown: "grown e (map (Pair True) bs) db db' \<Longrightarrow> some_baselined db' \<longleftrightarrow> some_baselined db \<or> bs \<noteq> []"
  by (cases bs) (auto simp: some_baselined_def grown_def migration_row_def)

lemma run_effect_after_baseline:
  assumes "grown e (map (Pair True) bs0) db db1" "drop k ms = bs0 @ drop (k + length bs0) ms" "run_effect e ms (k + length bs0) db1 db' er bs as"
    and "bs0 = [] \<or> some_baselined db \<or> tracked db = [] \<and> relation_exists (md_schema db) ''jobs''"
  shows "run_effect e ms k db db' er (bs0 @ bs) as"
proof -
  have e: "bs0 = [] \<Longrightarrow> tracked db1 = tracked db \<and> md_schema db1 = md_schema db" using assms(1) by (simp add: grown_def exec_all_def)
  show ?thesis
    using assms(2-4) e grown_trans [OF assms(1), of "map (Pair True) bs @ map (Pair False) as" db'] some_baselined_grown [OF assms(1)]
    unfolding run_effect_def by (cases "bs0 = []") auto
qed

lemma run_locked_effect:
  assumes "run_locked e ms (db, n) = ((res, er), db', n')" "recorded ms k db" "distinct (map mg_Version ms)"
  shows "\<exists>bs as. run_effect e ms k db db' er bs as"
proof -
  obtain r1 db1 n1 where c: "create_tracking e (db, n) = (r1, db1, n1)" by (metis surj_pair)
  then have s: "tracked db1 = tracked db" "md_schema db1 = md_schema db" by (auto simp: create_tracking_def mstmt_def tracked_def split: fault.splits)
  then have r: "recorded ms k db1" and eff: "run_effect e ms k db1 db' er bs as = run_effect e ms k db db' er bs as" for bs as
    using assms(2) by (simp_all add: recorded_def run_effect_def some_baselined_def grown_empty_table [OF s])
  obtain r2 n2 where q: "readRecorded e (db1, n1) = (r2, db1, n2)" using reads_onlyD [OF reads_only_rest(1)] by (metis surj_pair)
  then have rows: "r2 = Inr rows \<Longrightarrow> rows = tracked db1" for rows by (auto simp: readRecorded_def mread_def mstmt_def split: fault.splits)
  have "\<exists>bs as. run_effect e ms k db1 db' er bs as"
  proof (cases "\<exists>u. r1 = Inr u \<and> r2 = Inr (tracked db1)")
    case False
    with assms(1) c q rows have "er \<noteq> None" "db' = db1" by (auto simp: run_locked_def and_then_def Let_def split: sum.splits)
    then show ?thesis using run_effect_stopped by blast
  next
    case ok: True
    show ?thesis
    proof (cases "tracked db1 = []")
      case False
      with assms(1) c q ok obtain res0 where "run_pending e ms res0 (tracked db1) (db1, n2) = ((res, er), db', n')"
        by (auto simp: run_locked_def and_then_def Let_def)
      then show ?thesis using run_pending_effect [OF _ r assms(3)] by blast
    next
      case True
      then have k: "k = 0 \<or> ms = []" using r by (auto simp: recorded_def)
      obtain r3 db3 n3 where b: "baseline e ms (db1, n2) = (r3, db3, n3)" by (metis surj_pair)
      obtain j where g: "grown e (map (Pair True) (take j ms)) db1 db3" "j \<le> length ms"
        and jobs: "take j ms = [] \<or> some_baselined db1 \<or> tracked db1 = [] \<and> relation_exists (md_schema db1) ''jobs''"
        using baseline_effect [OF b] grown_refl True by (metis bot_nat_0.extremum list.simps(8) take0)
      have d: "drop k ms = take j ms @ drop (k + length (take j ms)) ms" using k g(2) by auto
      have r': "recorded ms (k + length (take j ms)) db3" using recorded_grown [OF r g(1), of "drop j ms"] k by (auto simp: comp_def)
      obtain r4 n4 where q4: "readRecorded e (db3, n3) = (r4, db3, n4)" using reads_onlyD [OF reads_only_rest(1)] by (metis surj_pair)
      then have rows4: "r4 = Inr rows \<Longrightarrow> rows = tracked db3" for rows by (auto simp: readRecorded_def mread_def mstmt_def split: fault.splits)
      show ?thesis
      proof (cases "\<exists>vs. r3 = Inr vs \<and> r4 = Inr (tracked db3)")
        case False
        with assms(1) c q ok True b q4 rows4 have "er \<noteq> None" "db' = db3" by (auto simp: run_locked_def and_then_def Let_def split: sum.splits)
        then show ?thesis using run_effect_baselined [OF _ g(1) d jobs] by blast
      next
        case ok2: True
        with assms(1) c q ok True b q4 obtain res0 where "run_pending e ms res0 (tracked db3) (db3, n4) = ((res, er), db', n')"
          by (auto simp: run_locked_def and_then_def Let_def)
        then show ?thesis using run_pending_effect [OF _ r' assms(3)] run_effect_after_baseline [OF g(1) d _ jobs] by blast
      qed
    qed
  qed
  then show ?thesis by (simp add: eff)
qed

text \<open>A run that returns, whatever happened to its connection and to the lock.\<close>

lemma lock_loop_conn:
  assumes "lock_loop e timeout deadline n = Some x"
  shows "if isl (fst x) then cn_holds (snd x) \<longrightarrow> cn_bad (snd x) else \<not> cn_bad (snd x)"
proof (rule lock_loop.raw_induct [OF _ assms])
  fix rec e timeout deadline n x
  assume "\<And>e timeout deadline n x. rec e timeout deadline n = Some x \<Longrightarrow> if isl (fst x) then cn_holds (snd x) \<longrightarrow> cn_bad (snd x) else \<not> cn_bad (snd x)"
    and "(case me_lock e n of LockError er granted \<Rightarrow> Some (Inl (Database er), \<lparr>cn_holds = granted, cn_bad = True\<rparr>)
      | LockAnswer got \<Rightarrow> if got then Some (Inr (), \<lparr>cn_holds = True, cn_bad = False\<rparr>)
          else if \<not> me_check e n < deadline then Some (Inl (LockTimeout timeout), \<lparr>cn_holds = False, cn_bad = False\<rparr>)
          else (case me_done e n of Some er \<Rightarrow> Some (Inl (Database er), \<lparr>cn_holds = False, cn_bad = False\<rparr>)
            | None \<Rightarrow> rec e timeout deadline (Suc n))) = Some x"
  then show "if isl (fst x) then cn_holds (snd x) \<longrightarrow> cn_bad (snd x) else \<not> cn_bad (snd x)"
    by (cases "me_lock e n") (auto split: if_splits option.splits dest!: meta_spec)
qed

lemma Run_cases:
  assumes "Run e ms timeout db = Some ((res, er), c, db')"
  shows "(cn_holds c \<longrightarrow> cn_bad c) \<and> (er \<noteq> None \<and> db' = db \<or> (\<exists>n'. run_locked e ms (db, 0) = ((res, er), db', n')))"
proof -
  have "acquireLock e timeout = Some x \<Longrightarrow> (if isl (fst x) then cn_holds (snd x) \<longrightarrow> cn_bad (snd x) else \<not> cn_bad (snd x))" for x
    unfolding acquireLock_def Let_def by (rule lock_loop_conn)
  with assms show ?thesis
    by (fastforce simp: Run_def Let_def releaseLock_def split: option.splits prod.splits sum.splits fault.splits)
qed

lemma lock_loop_ends:
  assumes "\<forall>n. me_check e n \<le> me_until e n \<and> me_until e n + min lockPollInterval (deadline - me_until e n) \<le> me_check e (Suc n)"
  shows "deadline \<le> me_check e n + int k * lockPollInterval \<Longrightarrow> \<exists>x. lock_loop e timeout deadline n = Some x"
proof (induction k arbitrary: n)
  case 0
  then show ?case by (subst lock_loop.simps) (auto split: lock_answer.split)
next
  case (Suc k)
  have s: "min lockPollInterval (deadline - me_until e n) \<le> me_check e (Suc n) - me_until e n" "me_check e n \<le> me_until e n" using assms by (auto simp: algebra_simps)
  have "deadline \<le> me_check e (Suc n) + int k * lockPollInterval"
  proof (cases "lockPollInterval \<le> deadline - me_until e n")
    case True
    with s have "me_check e n + lockPollInterval \<le> me_check e (Suc n)" by (simp add: min_def)
    with Suc.prems show ?thesis by (simp add: algebra_simps)
  next
    case False
    with s have "deadline \<le> me_check e (Suc n)" by (simp add: min_def)
    moreover have "0 \<le> int k * lockPollInterval" by (simp add: lockPollInterval_def)
    ultimately show ?thesis by linarith
  qed
  from Suc.IH [OF this] show ?case by (subst lock_loop.simps) (auto split: lock_answer.split option.split)
qed

section \<open>Each migration once, in order\<close>

lemma Run_effect:
  assumes "distinct (map mg_Version ms)" "recorded ms k db" "Run e ms timeout db = Some ((res, er), c, db')"
  shows "\<exists>bs as. run_effect e ms k db db' er bs as"
  using Run_cases [OF assms(3)] run_locked_effect [OF _ assms(2,1)] run_effect_stopped by blast

text \<open>
  C21: A run of the migrations, with any faults of the database at any of its statements, any behaviour of the scripts and any end: the migrations recorded
  before stay recorded, and the next ones in version order are added, first those found present (baselined, no script is executed), then those applied. The
  script of each applied migration, and of no other, was executed once, in this order, and it is recorded if and only if its script took effect. A
  run without error leaves none out. On a database with baselined migrations no migration is applied that is reserved for the operator. The connection
  never goes back to the pool with the lock.
\<close>

theorem migrations_applied_once:
  assumes "distinct (map mg_Version ms)" "recorded ms k db" "Run e ms timeout db = Some ((res, er), c, db')"
  shows "\<exists>bs as later. drop k ms = bs @ as @ later \<and> (er = None \<longrightarrow> later = [])
     \<and> tracked db' = tracked db @ map (migration_row True) bs @ map (migration_row False) as
     \<and> exec_all e as (md_schema db) = Some (md_schema db')
     \<and> recorded ms (k + length bs + length as) db'
     \<and> (some_baselined db' \<longrightarrow> (\<forall>m \<in> set as. \<not> mg_ManualOnExisting m))
     \<and> (cn_holds c \<longrightarrow> cn_bad c)"
proof -
  obtain bs as where eff: "run_effect e ms k db db' er bs as" using Run_effect [OF assms] by blast
  then obtain later where d: "drop k ms = bs @ as @ later" "er = None \<longrightarrow> later = []"
    and g: "grown e (map (Pair True) bs @ map (Pair False) as) db db'" by (auto simp: run_effect_def)
  have f: "filter (\<lambda>x. \<not> fst x) (map (Pair True) bs @ map (Pair False) as) = map (Pair False) as" by (simp add: filter_map comp_def)
  have t: "tracked db' = tracked db @ map (migration_row True) bs @ map (migration_row False) as"
    and x: "exec_all e as (md_schema db) = Some (md_schema db')"
    using g [unfolded grown_def f] by (simp_all add: comp_def)
  have "recorded ms (k + length bs + length as) db'" using recorded_grown [OF assms(2) g, of later] d(1) by (simp add: comp_def add.assoc)
  moreover have "some_baselined db' \<longleftrightarrow> some_baselined db \<or> bs \<noteq> []"
    unfolding some_baselined_def t by (cases bs) (auto simp: migration_row_def list_ex_iff)
  ultimately show ?thesis using d t x eff Run_cases [OF assms(3)] unfolding run_effect_def by blast
qed

definition migrate_attempt :: "Migration list \<Rightarrow> mig_env \<times> duration \<Rightarrow> mdb \<Rightarrow> mdb" where
  "migrate_attempt ms a db = (case Run (fst a) ms (snd a) db of None \<Rightarrow> db | Some (_, _, db') \<Rightarrow> db')"

text \<open>All runs execute scripts alike.\<close>

definition alike :: "mig_env \<Rightarrow> mig_env \<Rightarrow> bool" where
  "alike e e' \<longleftrightarrow> me_sql e' = me_sql e \<and> me_unicode e' = me_unicode e"

lemma exec_all_alike: "alike e e' \<Longrightarrow> exec_all e' = exec_all e"
  by (intro ext) (simp add: alike_def exec_all_def)

text \<open>What a new database becomes: the scripts of the first \<open>k\<close> migrations, executed once each and recorded.\<close>

definition installed :: "mig_env \<Rightarrow> Migration list \<Rightarrow> catalogue \<Rightarrow> nat \<Rightarrow> mdb \<Rightarrow> bool" where
  "installed e ms c0 k db \<longleftrightarrow> k \<le> length ms \<and> tracked db = map (migration_row False) (take k ms)
     \<and> exec_all e (take k ms) c0 = Some (md_schema db)"

lemma installed_run:
  assumes "distinct (map mg_Version ms)" "\<not> relation_exists c0 ''jobs''" "installed e0 ms c0 k db" "alike e0 e"
    and "Run e ms timeout db = Some ((res, er), c, db')"
  shows "\<exists>k'. installed e0 ms c0 k' db' \<and> (er = None \<longrightarrow> k' = length ms)"
proof -
  have k: "k \<le> length ms" and t: "tracked db = map (migration_row False) (take k ms)" and x: "exec_all e0 (take k ms) c0 = Some (md_schema db)"
    using assms(3) by (auto simp: installed_def)
  have "recorded ms k db" using k t by (simp add: recorded_def migration_row_def)
  from Run_effect [OF assms(1) this assms(5)] obtain bs as where eff: "run_effect e ms k db db' er bs as" by blast
  have "\<not> some_baselined db" unfolding some_baselined_def t by (auto simp: list_ex_iff migration_row_def)
  moreover have "\<not> (tracked db = [] \<and> relation_exists (md_schema db) ''jobs'')"
  proof
    assume a: "tracked db = [] \<and> relation_exists (md_schema db) ''jobs''"
    then have "md_schema db = c0" using t x by (auto simp: exec_all_def)
    with a assms(2) show False by simp
  qed
  ultimately have bs: "bs = []" using eff by (auto simp: run_effect_def)
  then have g: "grown e (map (Pair False) as) db db'" using eff by (simp add: run_effect_def)
  obtain later where d: "drop k ms = as @ later" "er = None \<longrightarrow> later = []" using eff bs by (auto simp: run_effect_def)
  have tk: "take (k + length as) ms = take k ms @ as" using d(1) by (simp add: take_add)
  have len: "length ms = k + length as + length later" using arg_cong [OF d(1), of length] k by simp
  have "tracked db' = map (migration_row False) (take k ms @ as)" "exec_all e0 (take k ms @ as) c0 = Some (md_schema db')"
    using g t x by (simp_all add: grown_def comp_def filter_map exec_all_append exec_all_alike [OF assms(4)])
  then have "installed e0 ms c0 (k + length as) db'" using len by (simp add: installed_def tk)
  moreover have "er = None \<longrightarrow> k + length as = length ms" using len d(2) by auto
  ultimately show ?thesis by blast
qed

lemma attempts_installed:
  assumes "distinct (map mg_Version ms)" "\<not> relation_exists c0 ''jobs''" "\<forall>a \<in> set runs. alike e0 (fst a)" "installed e0 ms c0 k db"
  shows "\<exists>k'. installed e0 ms c0 k' (fold (migrate_attempt ms) runs db)"
  using assms(3,4)
proof (induction runs arbitrary: k db)
  case (Cons a runs)
  have "\<exists>k'. installed e0 ms c0 k' (migrate_attempt ms a db)"
  proof (cases "Run (fst a) ms (snd a) db")
    case (Some x)
    obtain res er c db' where "x = ((res, er), c, db')" by (metis surj_pair)
    with Some installed_run [OF assms(1,2) Cons.prems(2)] Cons.prems(1) show ?thesis by (fastforce simp: migrate_attempt_def)
  qed (use Cons.prems(2) in \<open>auto simp: migrate_attempt_def\<close>)
  then show ?case using Cons by auto
qed auto

text \<open>
  C22: Installing survives every failure. Take a new database, without the table of jobs, and any number of runs that fail in any way at any of their statements,
  or stop there. As soon as one run reports success, the schema is what executing every script once, in version order, makes of the
  new database, and every migration is recorded as applied.
\<close>

theorem installation_exact:
  assumes "distinct (map mg_Version ms)" "md_tracking db0 = None" "\<not> relation_exists (md_schema db0) ''jobs''"
    and "\<forall>a \<in> set runs. alike e (fst a)" "Run e ms timeout (fold (migrate_attempt ms) runs db0) = Some ((res, None), c, db')"
  shows "exec_all e ms (md_schema db0) = Some (md_schema db') \<and> tracked db' = map (migration_row False) ms"
proof -
  have "installed e ms (md_schema db0) 0 db0" using assms(2) by (simp add: installed_def tracked_def exec_all_def)
  from attempts_installed [OF assms(1,3,4) this] obtain k where "installed e ms (md_schema db0) k (fold (migrate_attempt ms) runs db0)" by blast
  from installed_run [OF assms(1,3) this _ assms(5)] have "installed e ms (md_schema db0) (length ms) db'" by (auto simp: alike_def)
  then show ?thesis by (simp add: installed_def)
qed

text \<open>The wait for the lock ends, also when nobody ever gives it up, if the clock advances at least by the time waited.\<close>

theorem lock_wait_ends:
  assumes "me_start e \<le> me_check e 0" "deadline = me_start e + (if timeout \<le> 0 then defaultLockTimeout else timeout)"
    and "\<forall>n. me_check e n \<le> me_until e n \<and> me_until e n + min lockPollInterval (deadline - me_until e n) \<le> me_check e (Suc n)"
  shows "\<exists>x. acquireLock e timeout = Some x"
proof -
  define t where "t = (if timeout \<le> 0 then defaultLockTimeout else timeout)"
  have "0 \<le> t" by (simp add: t_def defaultLockTimeout_def)
  then have "t \<le> int (nat t) * lockPollInterval" by (simp add: lockPollInterval_def)
  then have "me_start e + t \<le> me_check e 0 + int (nat t) * lockPollInterval" using assms(1) by linarith
  moreover have "deadline = me_start e + t" using assms(2) by (simp add: t_def)
  ultimately have "deadline \<le> me_check e 0 + int (nat t) * lockPollInterval" by simp
  from lock_loop_ends [OF assms(3) this] have "\<exists>x. lock_loop e t deadline 0 = Some x" .
  then show ?thesis using assms(2) by (simp add: acquireLock_def Let_def t_def)
qed

lemma load_entries_distinct:
  assumes "load_entries sha es seen migs = Inr ms" "distinct (map mg_Version migs)" "fst ` set seen = mg_Version ` set migs"
  shows "distinct (map mg_Version ms)"
  using assms
proof (induction sha es seen migs rule: load_entries.induct)
  case (2 sha name dir content rest seen migs)
  then show ?case
    by (auto simp: Let_def map_of_eq_None_iff split: if_splits option.splits sum.splits)
qed auto

lemma Load_migrations_ordered:
  assumes "Load_migrations sha dir = Inr ms"
  shows "sorted (map mg_Version ms) \<and> distinct (map mg_Version ms)"
  using assms load_entries_distinct [of sha _ "[]" "[]"]
  by (fastforce simp: Load_migrations_def distinct_map split: sum.splits)

lemma stripTxControl_lines: "length (split_on (CHR 0x0A) (stripTxControl uc sql)) = length (split_on (CHR 0x0A) sql)"
proof -
  have "\<forall>p \<in> set (map (\<lambda>l. if ToLower uc (TrimSpace uc l) \<in> set [''begin;'', ''commit;''] then [] else l) (split_on (CHR 0x0A) sql)). CHR 0x0A \<notin> set p"
    by (auto dest: set_split_on)
  from split_on_join [OF this] show ?thesis by (simp add: stripTxControl_def)
qed

section \<open>Databases older than the runner\<close>

lemma probes_of_built:
  "list_all (\<lambda>k. case built k of None \<Rightarrow> False | Some c \<Rightarrow> list_all (\<lambda>(i, p). probe_holds c p \<longleftrightarrow> i \<le> int k) probes) [0..<13]"
  by code_simp

definition calm :: "mig_env \<Rightarrow> bool" where
  "calm e \<longleftrightarrow> (\<forall>n. me_fault e n = NoFault) \<and> me_conn e = None \<and> me_lock e 0 = LockAnswer True \<and> me_unlock e = NoFault"

definition present :: "catalogue \<Rightarrow> int \<Rightarrow> bool" where
  "present c v \<longleftrightarrow> (case map_of probes v of None \<Rightarrow> False | Some p \<Rightarrow> probe_holds c p)"

lemma calm_stmt: "calm e \<Longrightarrow> mstmt e q (db, n) = (Inr (fst (q db)), snd (q db), Suc n)"
  by (simp add: mstmt_def calm_def)

lemma calm_read: "calm e \<Longrightarrow> mread e q (db, n) = (Inr (q db), db, Suc n)"
  by (simp add: mread_def calm_stmt)

lemma calm_probe:
  assumes "calm e"
  shows "\<exists>n'. runProbe e v (db, n) = (Inr (present (md_schema db) v), db, n')"
proof -
  have "\<exists>n'. probe_query e p (db, n) = (Inr (probe_holds (md_schema db) p), db, n')" for p
    by (cases p) (auto simp: calm_read [OF assms] mbind_def mreturn_def)
  then show ?thesis by (auto simp: runProbe_def present_def mreturn_def split: option.split)
qed

lemma calm_present_loop:
  assumes "calm e" "\<forall>i < length all. present (md_schema db) (mg_Version (all ! i)) \<longleftrightarrow> i < j" "j \<le> length all"
  shows "i \<le> length all \<Longrightarrow> \<exists>n'. present_loop e all i (if i \<le> j then length all else j) (drop i all) (db, n) = (Inr (take j all), db, n')"
proof (induction "length all - i" arbitrary: i n)
  case 0
  then have "i = length all" by simp
  then show ?case using assms(3) by (auto simp: mreturn_def)
next
  case (Suc d)
  then have i: "i < length all" by simp
  obtain n1 where p: "runProbe e (mg_Version (all ! i)) (db, n) = (Inr (i < j), db, n1)" using calm_probe [OF assms(1), of "mg_Version (all ! i)" db n] assms(2) i by auto
  have d: "drop i all = all ! i # drop (Suc i) all" using i by (simp add: Cons_nth_drop_Suc)
  have "\<exists>n'. present_loop e all (Suc i) (if Suc i \<le> j then length all else j) (drop (Suc i) all) (db, n1) = (Inr (take j all), db, n')"
    using Suc by auto
  then show ?case using p i assms(3) unfolding d by (auto simp: mbind_def Suc_le_eq not_less le_less split: if_splits)
qed

lemma calm_present:
  assumes "calm e" "\<forall>i < length all. present (md_schema db) (mg_Version (all ! i)) \<longleftrightarrow> i < j" "j \<le> length all"
  shows "\<exists>n'. presentPrefix e all (db, n) = (Inr (take j all), db, n')"
  using calm_present_loop [OF assms, of 0] by (simp add: presentPrefix_def)

lemma calm_transaction:
  assumes "calm e" "all_of qs db = Some db'"
  shows "\<exists>n'. transaction e qs bad (db, n) = (Inr (), db', n')"
proof -
  have "\<exists>n'. tx_body e qs bad db n = (Inr db', n')" for n
    using assms(2)
  proof (induction qs arbitrary: db n)
    case (Cons q qs)
    then show ?case using assms(1) by (auto simp: all_of_Cons bind_eq_Some_conv calm_def)
  qed (simp add: all_of_def)
  then obtain n' where "tx_body e qs bad db (Suc n) = (Inr db', n')" by blast
  then show ?thesis by (simp add: transaction_def mbind_def calm_read [OF assms(1)] calm_stmt [OF assms(1)])
qed

lemma insert_rows:
  assumes "md_tracking db = Some rows" "distinct (map mg_Version ms)" "mg_Version ` set ms \<inter> tr_version ` set rows = {}"
  shows "all_of (map (\<lambda>m. insert_row (migration_row b m)) ms) db = Some (db\<lparr>md_tracking := Some (rows @ map (migration_row b) ms)\<rparr>)"
  using assms
proof (induction ms arbitrary: db rows)
  case (Cons m ms)
  let ?db = "db\<lparr>md_tracking := Some (rows @ [migration_row b m])\<rparr>"
  have "insert_row (migration_row b m) db = Some ?db" using Cons.prems by (auto simp: insert_row_def migration_row_def)
  moreover have "all_of (map (\<lambda>m. insert_row (migration_row b m)) ms) ?db = Some (?db\<lparr>md_tracking := Some ((rows @ [migration_row b m]) @ map (migration_row b) ms)\<rparr>)"
    using Cons.prems by (intro Cons.IH) (auto simp: migration_row_def)
  ultimately show ?case by (simp add: all_of_Cons)
qed (simp add: all_of_def)

lemma calm_recordBaselined:
  assumes "calm e" "md_tracking db = Some rows" "distinct (map mg_Version ms)" "mg_Version ` set ms \<inter> tr_version ` set rows = {}"
  shows "\<exists>n'. recordBaselined e ms (db, n) = (Inr (), db\<lparr>md_tracking := Some (rows @ map (migration_row True) ms)\<rparr>, n')"
  using calm_transaction [OF assms(1) insert_rows [OF assms(2-4)]] assms(2) by (auto simp: recordBaselined_def mreturn_def)

lemma calm_apply_all:
  assumes "calm e" "md_tracking db = Some rows" "distinct (map mg_Version ms)" "mg_Version ` set ms \<inter> tr_version ` set rows = {}"
    and "exec_all e ms (md_schema db) = Some c"
  shows "\<exists>res' n'. apply_all e res ms (db, n) = ((res', None), \<lparr>md_schema = c, md_tracking = Some (rows @ map (migration_row False) ms)\<rparr>, n')"
  using assms(2-5)
proof (induction ms arbitrary: db rows res n)
  case Nil
  then show ?case by (auto simp: exec_all_def)
next
  case (Cons m ms)
  have "exec_all e ([m] @ ms) (md_schema db) = Some c" using Cons.prems(4) by simp
  then obtain c1 where c1: "exec_all e [m] (md_schema db) = Some c1" "exec_all e ms c1 = Some c"
    unfolding exec_all_append by (auto simp: bind_eq_Some_conv)
  let ?db = "\<lparr>md_schema = c1, md_tracking = Some (rows @ [migration_row False m])\<rparr>"
  have "all_of [run_script e m, insert_row (migration_row False m)] db = Some ?db"
    using c1(1) Cons.prems(1,3) by (cases db) (auto simp: all_of_Cons all_of_def run_script_def exec_all_def insert_row_def migration_row_def)
  from calm_transaction [OF assms(1) this] obtain n1 where a: "apply_migration e m (db, n) = (Inr (), ?db, n1)" by (auto simp: apply_migration_def)
  have "\<exists>res' n'. apply_all e (res\<lparr>rs_Applied := rs_Applied res @ [mg_Version m]\<rparr>) ms (?db, n1)
      = ((res', None), \<lparr>md_schema = c, md_tracking = Some ((rows @ [migration_row False m]) @ map (migration_row False) ms)\<rparr>, n')"
    using Cons.prems c1(2) by (intro Cons.IH) (auto simp: migration_row_def)
  then show ?case using a by (simp add: and_then_def)
qed

lemma built_present:
  assumes "built k = Some c" "k \<le> 12" "1 \<le> v" "v \<le> 12"
  shows "present c v \<longleftrightarrow> v \<le> int k"
proof -
  have "k \<in> set [0..<13]" using assms(2) by simp
  then have "list_all (\<lambda>(i, p). probe_holds c p \<longleftrightarrow> i \<le> int k) probes"
    using probes_of_built assms(1) unfolding list_all_iff by fastforce
  moreover have "map fst probes = [1..12]" by code_simp
  then have "v \<in> fst ` set probes" using assms(3,4) by (simp flip: list.set_map)
  then obtain p where p: "map_of probes v = Some p" by (metis map_of_eq_None_iff not_None_eq)
  ultimately have "probe_holds c p \<longleftrightarrow> v \<le> int k" using map_of_SomeD [OF p] by (auto simp: list_all_iff)
  then show ?thesis using p by (simp add: present_def)
qed

lemma exec_script_append: "exec_script (xs @ ys) c = Option.bind (exec_script xs c) (exec_script ys)"
proof -
  have "fold (\<lambda>d c. Option.bind c (exec_ddl d)) ys None = None" by (induction ys) auto
  then show ?thesis by (cases "exec_script xs c") (simp_all add: exec_script_def)
qed

text \<open>The migrations are those of the schema directory, and the database executes their scripts as written there.\<close>

definition schema_migrations :: "mig_env \<Rightarrow> Migration list \<Rightarrow> bool" where
  "schema_migrations e ms \<longleftrightarrow> map mg_Version ms = [1..12] \<and> map mg_ManualOnExisting ms = map manualOnExisting [1..12]
     \<and> map (\<lambda>m. me_sql e (stripTxControl (me_unicode e) (mg_SQL m))) ms = map exec_script schema_files"

lemma exec_all_files:
  assumes "map (\<lambda>m. me_sql e (stripTxControl (me_unicode e) (mg_SQL m))) ms = map exec_script fs"
  shows "exec_all e ms c = exec_script (concat fs) c"
  using assms
proof (induction ms arbitrary: fs c)
  case Nil
  then show ?case by (simp add: exec_all_def exec_script_def)
next
  case (Cons m ms)
  then obtain f fs' where f: "fs = f # fs'" "me_sql e (stripTxControl (me_unicode e) (mg_SQL m)) = exec_script f" by (cases fs) auto
  have "exec_all e [m] c = exec_script f c" using f(2) by (simp add: exec_all_def)
  moreover have "exec_all e ms = exec_script (concat fs')" using Cons.IH [of fs'] Cons.prems f(1) by auto
  ultimately have "exec_all e ([m] @ ms) c = exec_script (f @ concat fs') c" unfolding exec_all_append exec_script_append by simp
  then show ?case using f by simp
qed

lemma one_to_twelve: "[1..12] = map (\<lambda>i. int i + 1) [0..<12]"
  by (simp add: upto.simps upt_rec)

lemma schema_migrations_nth:
  assumes "schema_migrations e ms"
  shows "length ms = 12" "distinct (map mg_Version ms)"
    and "i < 12 \<Longrightarrow> mg_Version (ms ! i) = int i + 1" "i < 12 \<Longrightarrow> mg_ManualOnExisting (ms ! i) \<longleftrightarrow> i = 10"
proof -
  have v: "map mg_Version ms = map (\<lambda>i. int i + 1) [0..<12]" and f: "map mg_ManualOnExisting ms = map (\<lambda>i. manualOnExisting (int i + 1)) [0..<12]"
    using assms unfolding schema_migrations_def one_to_twelve by (simp_all add: comp_def)
  show len: "length ms = 12" using arg_cong [OF v, of length] by simp
  show "distinct (map mg_Version ms)" unfolding v by (simp add: distinct_map inj_on_def)
  show "i < 12 \<Longrightarrow> mg_Version (ms ! i) = int i + 1" using arg_cong [OF v, of "\<lambda>xs. xs ! i"] len by simp
  show "i < 12 \<Longrightarrow> mg_ManualOnExisting (ms ! i) \<longleftrightarrow> i = 10" using arg_cong [OF f, of "\<lambda>xs. xs ! i"] len by (auto simp: manualOnExisting_def)
qed

lemma refusal_first:
  assumes "\<forall>m \<in> set ms. \<not> mg_ManualOnExisting m" "mg_ManualOnExisting m"
  shows "refusal (ms @ m # later) = Some (ManualMigrationRequired (mg_Version m) (map mg_Version (ms @ [m])))"
proof -
  have "dropWhile (\<lambda>m. \<not> mg_ManualOnExisting m) (ms @ m # later) = m # later" "takeWhile (\<lambda>m. \<not> mg_ManualOnExisting m) (ms @ m # later) = ms"
    using assms by (simp_all add: dropWhile_append2 takeWhile_append2)
  then show ?thesis by (simp add: refusal_def)
qed

lemma versions_to_eleven:
  assumes "1 \<le> k" "k < 11"
  shows "take (11 - k) (drop k [1..12]) = [int k + 1..11]"
proof -
  have "list_all (\<lambda>k. take (11 - k) (drop k [1..12]) = [int k + 1..11]) [1..<11]" by code_simp
  then show ?thesis using assms by (simp add: list_all_iff)
qed

lemma refusal_schema:
  assumes "schema_migrations e ms" "1 \<le> k"
  shows "refusal (drop k ms) = (if k < 11 then Some (ManualMigrationRequired 11 [int k + 1..11]) else None)"
proof (cases "k < 11")
  case True
  note n = schema_migrations_nth [OF assms(1)]
  let ?A = "take (10 - k) (drop k ms)"
  have d: "drop k ms = ?A @ ms ! 10 # drop 11 ms"
  proof -
    have "drop (10 - k) (drop k ms) = ms ! 10 # drop 11 ms" using True n(1) Cons_nth_drop_Suc [of 10 ms] by simp
    then show ?thesis by (metis append_take_drop_id)
  qed
  have A: "\<forall>m \<in> set ?A. \<not> mg_ManualOnExisting m" using True n(1,4) by (auto simp: in_set_conv_nth)
  have "?A @ [ms ! 10] = take (Suc (10 - k)) (drop k ms)" using True n(1) take_Suc_conv_app_nth [of "10 - k" "drop k ms"] by simp
  then have "?A @ [ms ! 10] = take (11 - k) (drop k ms)" using True Suc_diff_le [of k 10] by (simp del: take_Suc)
  then have "map mg_Version (?A @ [ms ! 10]) = take (11 - k) (drop k (map mg_Version ms))" by (simp add: take_map drop_map)
  also have "\<dots> = [int k + 1..11]" using assms(1) versions_to_eleven [OF assms(2) True] by (simp only: schema_migrations_def)
  finally show ?thesis using refusal_first [OF A, of "ms ! 10" "drop 11 ms"] n(3,4) [of 10] True d by simp
next
  case False
  have "\<forall>m \<in> set (drop k ms). \<not> mg_ManualOnExisting m" using schema_migrations_nth [OF assms(1)] False by (auto simp: in_set_conv_nth)
  then show ?thesis using False by (simp add: refusal_None)
qed

text \<open>
  C38: A database that was set up by hand, from the first \<open>k\<close> files of the schema, is recognised as what it is. The first run records exactly
  these as baselined and executes none of them again. From version 11 on it completes the schema, to what executing all files gives; before that it refuses,
  names the migrations to apply by hand, and leaves the schema as it is.
\<close>

theorem old_database_recognised:
  assumes "calm e" "schema_migrations e ms" "1 \<le> k" "k \<le> 12" "built k = Some c"
  shows "\<exists>res er con db'. Run e ms timeout \<lparr>md_schema = c, md_tracking = None\<rparr> = Some ((res, er), con, db')
     \<and> (if k < 11 then er = Some (ManualMigrationRequired 11 [int k + 1..11]) \<and> md_schema db' = c \<and> tracked db' = map (migration_row True) (take k ms)
        else er = None \<and> built 12 = Some (md_schema db')
          \<and> tracked db' = map (migration_row True) (take k ms) @ map (migration_row False) (drop k ms))"
proof -
  note n = schema_migrations_nth [OF assms(2)]
  define db1 where "db1 = \<lparr>md_schema = c, md_tracking = Some []\<rparr>"
  define db2 where "db2 = \<lparr>md_schema = c, md_tracking = Some (map (migration_row True) (take k ms))\<rparr>"
  have present: "present c (mg_Version (ms ! i)) \<longleftrightarrow> i < k" if "i < 12" for i
    using built_present [OF assms(5,4), of "int i + 1"] n(3) [OF that] that by auto
  have "\<exists>n'. baseline e ms (db1, 2) = (Inr (map mg_Version (take k ms)), db2, n')"
  proof -
    obtain n1 where 1: "runProbe e 1 (db1, 2) = (Inr True, db1, n1)"
      using calm_probe [OF assms(1), of 1 db1] built_present [OF assms(5,4), of 1] assms(3) by (auto simp: db1_def)
    obtain n2 where 2: "presentPrefix e ms (db1, n1) = (Inr (take k ms), db1, n2)"
      using calm_present [OF assms(1), of ms db1 k n1] present n(1) assms(4) by (auto simp: db1_def)
    obtain n3 where "recordBaselined e (take k ms) (db1, n2) = (Inr (), db2, n3)"
      using calm_recordBaselined [OF assms(1), of db1 "[]" "take k ms" n2] distinct_take [OF n(2), of k] by (auto simp: db1_def db2_def take_map)
    with 1 2 show ?thesis by (simp add: baseline_def mbind_def mreturn_def)
  qed
  then obtain n3 where b: "baseline e ms (db1, 2) = (Inr (map mg_Version (take k ms)), db2, n3)" by blast
  have rec: "recorded ms k db2" using n(1) assms(4) by (simp add: recorded_def db2_def tracked_def migration_row_def)
  have base: "list_ex tr_baselined (tracked db2)"
    using n(1) assms(3) by (cases ms) (auto simp: db2_def tracked_def migration_row_def list_ex_iff take_Cons')
  obtain n5 where p: "presentPrefix e (drop k ms) (db2, Suc n3) = (Inr [], db2, n5)"
    using calm_present [OF assms(1), of "drop k ms" db2 0 "Suc n3"] present n(1) by (auto simp: db2_def)
  define out where "out = (\<lambda>st. case refusal (drop k ms) of Some er \<Rightarrow> \<lambda>res. ((res, Some er), st) | None \<Rightarrow> \<lambda>res. apply_all e res (drop k ms) st)"
  have pend: "\<exists>res'. run_pending e ms res (tracked db2) (db2, Suc n3) = out (db2, n5) res'" for res
    using p base by (simp add: run_pending_def Let_def pending_drop [OF rec n(2)] and_then_def recordBaselined_def mreturn_def out_def split: option.splits) blast
  have "create_tracking e (\<lparr>md_schema = c, md_tracking = None\<rparr>, 0) = (Inr (), db1, Suc 0)"
    by (simp add: create_tracking_def calm_stmt [OF assms(1)] db1_def tracked_def)
  moreover have "readRecorded e (db1, Suc 0) = (Inr [], db1, 2)" by (simp add: readRecorded_def calm_read [OF assms(1)] db1_def tracked_def numeral_2_eq_2)
  moreover have "readRecorded e (db2, n3) = (Inr (tracked db2), db2, Suc n3)" by (simp add: readRecorded_def calm_read [OF assms(1)])
  ultimately have "\<exists>res. run_locked e ms (\<lparr>md_schema = c, md_tracking = None\<rparr>, 0) = out (db2, n5) res"
    using b pend by (simp add: run_locked_def and_then_def Let_def)
  then obtain res where r: "run_locked e ms (\<lparr>md_schema = c, md_tracking = None\<rparr>, 0) = out (db2, n5) res" by blast
  have lock: "acquireLock e timeout = Some (Inr (), \<lparr>cn_holds = True, cn_bad = False\<rparr>)"
    using assms(1) unfolding acquireLock_def Let_def by (subst lock_loop.simps) (simp add: calm_def)
  show ?thesis
  proof (cases "k < 11")
    case True
    then have "out (db2, n5) res = ((res, Some (ManualMigrationRequired 11 [int k + 1..11])), db2, n5)"
      using refusal_schema [OF assms(2,3)] by (simp add: out_def)
    with r lock True assms(1) show ?thesis by (auto simp: Run_def Let_def calm_def db2_def tracked_def)
  next
    case False
    have "built 12 = Option.bind (built k) (exec_script (concat (drop k schema_files)))"
      using exec_script_append [of "concat (take k schema_files)" "concat (drop k schema_files)"]
      by (simp add: built_def concat_append [symmetric] del: concat_append) (simp add: schema_files_def)
    moreover have "\<exists>c'. built 12 = Some c'" using probes_of_built by (auto simp: list_all_iff split: option.splits)
    ultimately obtain c' where c': "built 12 = Some c'" "exec_script (concat (drop k schema_files)) c = Some c'" using assms(5) by auto
    have "exec_all e (drop k ms) c = Some c'"
      using exec_all_files [of e "drop k ms" "drop k schema_files"] assms(2) c'(2) by (simp add: schema_migrations_def drop_map [symmetric])
    then obtain res' n' where "apply_all e res (drop k ms) (db2, n5)
        = ((res', None), \<lparr>md_schema = c', md_tracking = Some (map (migration_row True) (take k ms) @ map (migration_row False) (drop k ms))\<rparr>, n')"
      using calm_apply_all [OF assms(1), of db2 "map (migration_row True) (take k ms)" "drop k ms" c' res n5] n(2)
        distinct_append [of "map mg_Version (take k ms)" "map mg_Version (drop k ms)"]
      by (auto simp: db2_def migration_row_def image_image simp flip: map_append)
    with r lock False refusal_schema [OF assms(2,3)] assms(1) c'(1) show ?thesis
      by (auto simp: Run_def Let_def calm_def out_def tracked_def)
  qed
qed

section \<open>Examples\<close>

text \<open>The twelve files, with their versions for their texts, and runs whose statement number \<open>n\<close> fails after it took effect.\<close>

definition sample_scripts :: "Migration list" where
  "sample_scripts = map (\<lambda>v. \<lparr>mg_Version = v, mg_Name = ''sample'', mg_SQL = decimal (nat v), mg_Checksum = '''', mg_ManualOnExisting = manualOnExisting v\<rparr>) [1..12]"

definition sample_mig :: "nat option \<Rightarrow> mig_env" where
  "sample_mig f = \<lparr>me_unicode = \<lparr>uc_lower = map ascii_lower, uc_trim = trim_ascii\<rparr>, me_sql = (\<lambda>s. exec_script (schema_files ! (read_decimal s - 1))),
     me_fault = (\<lambda>n. if f = Some n then FaultAfter (ErrorMsg ''connection lost'') else NoFault), me_conn = None, me_lock = (\<lambda>n. LockAnswer True),
     me_start = 0, me_check = (\<lambda>n. 0), me_until = (\<lambda>n. 0), me_done = (\<lambda>n. None), me_unlock = NoFault\<rparr>"

definition new_database :: mdb where
  "new_database = \<lparr>md_schema = empty_catalogue, md_tracking = None\<rparr>"

lemma sample_scripts_distinct: "distinct (map mg_Version sample_scripts)"
  by code_simp

lemma sample_first_run:
  "case Run (sample_mig (Some 19)) sample_scripts 0 new_database of
     Some ((res, Some er), con, db) \<Rightarrow> map tr_version (tracked db) = [1, 2, 3, 4] \<and> rs_Applied res = [1, 2, 3] | _ \<Rightarrow> False"
  by code_simp

lemma sample_second_run:
  "case Run (sample_mig None) sample_scripts 0 (fold (migrate_attempt sample_scripts) [(sample_mig (Some 19), 0)] new_database) of
     Some ((res, None), con, db) \<Rightarrow> rs_Applied res = [5..12] | _ \<Rightarrow> False"
  by code_simp

lemma sample_recorded: "recorded sample_scripts 0 new_database"
  by (simp add: recorded_def new_database_def tracked_def)

theorem migrations_applied_once_witness:
  "\<exists>res er con db as. Run (sample_mig (Some 19)) sample_scripts 0 new_database = Some ((res, Some er), con, db)
     \<and> length (tracked db) = 4 \<and> tracked db = map (migration_row False) as
     \<and> exec_all (sample_mig (Some 19)) as empty_catalogue = Some (md_schema db)"
proof -
  obtain res er con db where run: "Run (sample_mig (Some 19)) sample_scripts 0 new_database = Some ((res, Some er), con, db)"
    and v: "map tr_version (tracked db) = [1, 2, 3, 4]"
    using sample_first_run by (auto split: option.splits prod.splits)
  have unbased: "case Run (sample_mig (Some 19)) sample_scripts 0 new_database of Some (_, _, db) \<Rightarrow> \<not> list_ex tr_baselined (tracked db) | None \<Rightarrow> False"
    by code_simp
  from migrations_applied_once [OF sample_scripts_distinct sample_recorded run] obtain bs as where
    t: "tracked db = tracked new_database @ map (migration_row True) bs @ map (migration_row False) as"
    and x: "exec_all (sample_mig (Some 19)) as (md_schema new_database) = Some (md_schema db)" by blast
  have "bs = []" using unbased run t by (cases bs) (auto simp: migration_row_def)
  moreover have "length (tracked db) = 4" using arg_cong [OF v, of length] by simp
  ultimately show ?thesis using run t x by (auto simp: new_database_def tracked_def)
qed

theorem installation_exact_witness:
  "\<exists>res con db. Run (sample_mig None) sample_scripts 0 (fold (migrate_attempt sample_scripts) [(sample_mig (Some 19), 0)] new_database)
       = Some ((res, None), con, db)
     \<and> exec_all (sample_mig None) sample_scripts empty_catalogue = Some (md_schema db) \<and> tracked db = map (migration_row False) sample_scripts"
proof -
  obtain res con db where run: "Run (sample_mig None) sample_scripts 0 (fold (migrate_attempt sample_scripts) [(sample_mig (Some 19), 0)] new_database)
      = Some ((res, None), con, db)"
    using sample_second_run by (auto split: option.splits prod.splits)
  have "md_tracking new_database = None" "\<not> relation_exists (md_schema new_database) ''jobs''" by code_simp+
  moreover have "\<forall>a \<in> set [(sample_mig (Some 19), 0 :: duration)]. alike (sample_mig None) (fst a)" by (simp add: alike_def sample_mig_def)
  ultimately show ?thesis using installation_exact [OF sample_scripts_distinct _ _ _ run] run by (auto simp: new_database_def)
qed

lemma sample_schema: "schema_migrations (sample_mig None) sample_scripts"
proof -
  have "map (\<lambda>m. stripTxControl (me_unicode (sample_mig None)) (mg_SQL m)) sample_scripts = map (\<lambda>i. decimal (Suc i)) [0..<12]" by code_simp
  then have "map (me_sql (sample_mig None)) (map (\<lambda>m. stripTxControl (me_unicode (sample_mig None)) (mg_SQL m)) sample_scripts)
      = map (\<lambda>i. exec_script (schema_files ! i)) [0..<12]"
    by (simp add: sample_mig_def comp_def del: upt_rec_numeral)
  also have "\<dots> = map exec_script (map ((!) schema_files) [0..<length schema_files])"
  proof -
    have "length schema_files = 12" by (simp add: schema_files_def)
    then show ?thesis by (simp only: map_map comp_def)
  qed
  finally have "map (\<lambda>m. me_sql (sample_mig None) (stripTxControl (me_unicode (sample_mig None)) (mg_SQL m))) sample_scripts = map exec_script schema_files"
    by (simp add: map_nth comp_def)
  moreover have "map mg_Version sample_scripts = [1..12]" "map mg_ManualOnExisting sample_scripts = map manualOnExisting [1..12]" by code_simp+
  ultimately show ?thesis by (simp add: schema_migrations_def)
qed

theorem old_database_recognised_witness:
  "\<exists>res con db. Run (sample_mig None) sample_scripts 0 \<lparr>md_schema = the (built 11), md_tracking = None\<rparr> = Some ((res, None), con, db)
     \<and> built 12 = Some (md_schema db) \<and> map tr_baselined (tracked db) = replicate 11 True @ [False]"
proof -
  have b: "built 11 = Some (the (built 11))" using probes_of_built by (auto simp: list_all_iff split: option.splits)
  have "calm (sample_mig None)" by (simp add: calm_def sample_mig_def)
  moreover have "map tr_baselined (map (migration_row True) (take 11 sample_scripts) @ map (migration_row False) (drop 11 sample_scripts))
      = replicate 11 True @ [False]" by code_simp
  ultimately show ?thesis using old_database_recognised [OF _ sample_schema _ _ b, of 0] by fastforce
qed

end
