(* ===== verification/Serve.thy ===== *)
theory Serve
  imports Migrate AdminPages Configuration
begin

text \<open>
  The commands of \<^verbatim>\<open>cmd/cronlite/main.go\<close>: the life of the server process from its configuration to its exit, the duties of a leader, and the
  other commands. A run of \<^verbatim>\<open>serve\<close> is a function of the answers of its calls to the trace of what it opens, starts, stops and closes, with the
  exit code; Go's deferred calls are the closing of what the trace opened, last first. Log messages are not modelled.
\<close>

definition exitSuccess :: int where "exitSuccess = 0"
definition exitRuntimeError :: int where "exitRuntimeError = 1"
definition exitInvalidConfig :: int where "exitInvalidConfig = 2"

section \<open>The duties of a leader\<close>

text \<open>How many goroutines of each duty run; \<open>stop\<close> cancels them and waits until all have ended.\<close>

record leaderRuntime =
  lr_running :: bool
  lr_schedulers :: nat
  lr_reconcilers :: nat

definition lr_start :: "bool \<Rightarrow> bool \<Rightarrow> leaderRuntime \<Rightarrow> leaderRuntime" where
  "lr_start reconcileEnabled done_ctx lr =
     (if lr_running lr \<or> done_ctx then lr
      else lr\<lparr>lr_running := True, lr_schedulers := Suc (lr_schedulers lr),
        lr_reconcilers := lr_reconcilers lr + (if reconcileEnabled then 1 else 0)\<rparr>)"

definition lr_stop :: "leaderRuntime \<Rightarrow> leaderRuntime" where
  "lr_stop lr = (if \<not> lr_running lr then lr else lr\<lparr>lr_running := False, lr_schedulers := 0, lr_reconcilers := 0\<rparr>)"

section \<open>The server process\<close>

datatype listener = PublicListener | TailnetListener | RedirectListener

datatype act =
    OpenDB | CloseDB
  | RunMigrations | ProbeOwnership
  | StartNode | CloseNode
  | OpenRedis | CloseRedis
  | MountMCP | ShutdownMCP | CleanupMCP
  | Listen listener | CloseListener listener | ServeOn listener
  | StartDispatcher | StartElector | StartScheduler | StartReconciler
  | ShutdownRedirect | CloseRedirect | ShutdownHTTP | CloseHTTP
  | StopElector | StopScheduler | StopReconciler | StopDispatcher

text \<open>The answers of the calls; an \<open>err option\<close> is the error of a call that has no other result. The process ends by a signal or an error of a server.\<close>

record serve_env =
  se_unicode :: unicode
  se_parseAddr :: "string \<Rightarrow> Addr option"
  se_parseDuration :: "string \<Rightarrow> duration result"
  se_formats :: formats
  se_supported :: bool
  se_integrity :: string
  se_open :: "err option"
  se_ping :: "err option"
  se_sha256 :: "string \<Rightarrow> string"
  se_files :: "(string \<times> bool \<times> string result) list result"
  se_mig :: mig_env
  se_probe :: "err option"
  se_node :: "err + TailnetNode"
  se_listen :: "listener \<Rightarrow> err option"
  se_http_error :: bool
  se_redirect_shutdown :: "err option"
  se_http_shutdown :: "err option"

definition newWebAdminTailnet :: "serve_env \<Rightarrow> Config \<Rightarrow> TailnetNode option \<Rightarrow> TailnetPolicy option \<Rightarrow> TailnetConfig" where
  "newWebAdminTailnet e cfg node policy = \<lparr>tc_Built = se_supported e, tc_Delivery = cfg_WebhookAllowTailnet cfg, tc_Listen = cfg_TSListen cfg,
     tc_DisablePublicListener = cfg_TSDisablePublicListener cfg, tc_IdentityLogin = cfg_TSIdentityLogin cfg, tc_Hostname = cfg_TSHostname cfg,
     tc_PublicAddr = cfg_HTTPAddr cfg, tc_Policy = policy, tc_Node = node\<rparr>"

definition bool_text :: "bool \<Rightarrow> string" where
  "bool_text b = (if b then ''true'' else ''false'')"

definition newWebAdminConfig :: "serve_env \<Rightarrow> Config \<Rightarrow> TailnetConfig \<Rightarrow> admin" where
  "newWebAdminConfig e cfg tc = \<lparr>ad_runtimeSettings =
       [(''Environment'', cfg_Environment cfg), (''Dispatcher'', cfg_DispatchMode cfg), (''Workers'', Itoa (cfg_DispatcherWorkers cfg)),
        (''Tick interval'', fm_duration (se_formats e) (Configuration.cfg_TickInterval cfg)), (''Reconciliation'', bool_text (cfg_ReconcileEnabled cfg)),
        (''Metrics'', bool_text (cfg_MetricsEnabled cfg))],
     ad_bootstrapToken = cfg_AdminBootstrapToken cfg, ad_idleTTL = cfg_AdminSessionTTL cfg, ad_absoluteTTL = cfg_AdminSessionAbsoluteTTL cfg,
     ad_cookieSecure = cfg_AdminCookieSecure cfg, ad_tailnet = tc\<rparr>"

text \<open>The two queries of the probe need their columns.\<close>

definition ownership_columns :: "catalogue \<Rightarrow> bool" where
  "ownership_columns c \<longleftrightarrow> column_exists c ''executions'' ''claimed_at'' \<and> column_exists c ''executions'' ''claim_generation''
     \<and> column_exists c ''executions'' ''lease_until'' \<and> column_exists c ''delivery_attempts'' ''claim_generation''"

definition probeExecutionOwnership :: "serve_env \<Rightarrow> catalogue \<Rightarrow> bool" where
  "probeExecutionOwnership e c \<longleftrightarrow> se_probe e = None \<and> ownership_columns c"

text \<open>
  A phase of the start: what it did, the database it leaves, and the exit code if the start ends there; \<open>None\<close> if the phase does not return. A
  phase follows on one that did not end.
\<close>

type_synonym phase = "mdb \<Rightarrow> (act list \<times> mdb \<times> int option) option"

definition followed :: "phase \<Rightarrow> phase \<Rightarrow> phase" where
  "followed p q db = (case p db of
     None \<Rightarrow> None
   | Some (as, db', Some code) \<Rightarrow> Some (as, db', Some code)
   | Some (as, db', None) \<Rightarrow> (case q db' of None \<Rightarrow> None | Some (bs, db'', r) \<Rightarrow> Some (as @ bs, db'', r)))"

definition open_database :: "serve_env \<Rightarrow> phase" where
  "open_database e db =
     (if se_open e \<noteq> None then Some ([], db, Some exitRuntimeError)
      else if se_ping e \<noteq> None then Some ([OpenDB], db, Some exitRuntimeError)
      else Some ([OpenDB], db, None))"

definition prepare_schema :: "Config \<Rightarrow> serve_env \<Rightarrow> phase" where
  "prepare_schema cfg e db =
     (let probe = (\<lambda>as db. Some (as @ [ProbeOwnership], db, if probeExecutionOwnership e (md_schema db) then None else Some exitInvalidConfig))
      in if \<not> cfg_MigrateOnStart cfg then probe [] db
         else (case applyMigrations (se_sha256 e) (se_files e) (se_mig e) (cfg_MigrateLockTimeout cfg) db of
             None \<Rightarrow> None
           | Some ((_, Some er), db') \<Rightarrow> Some ([RunMigrations], db', Some exitRuntimeError)
           | Some ((_, None), db') \<Rightarrow> probe [RunMigrations] db'))"

definition start_tailnet :: "Config \<Rightarrow> serve_env \<Rightarrow> phase" where
  "start_tailnet cfg e db =
     (if isl (ParseAllowlist (se_unicode e) (se_parseAddr e) (cfg_WebhookAllowedPrivateSuffixes cfg)) then Some ([], db, Some exitInvalidConfig)
      else if \<not> TailnetEnabled cfg then Some ([], db, None)
      else if isl (se_node e) then Some ([], db, Some exitRuntimeError)
      else if cfg_WebhookAllowTailnet cfg \<and> isl (ParseTailnetPolicy (se_unicode e) (se_parseAddr e) (cfg_WebhookTailnetHosts cfg))
      then Some ([StartNode], db, Some exitInvalidConfig)
      else Some ([StartNode], db, None))"

text \<open>The node and the policy that the administration is told of.\<close>

definition admin_of :: "Config \<Rightarrow> serve_env \<Rightarrow> admin" where
  "admin_of cfg e =
     (let node = (if TailnetEnabled cfg then (case se_node e of Inl _ \<Rightarrow> None | Inr n \<Rightarrow> Some n) else None);
          policy = (if cfg_WebhookAllowTailnet cfg
            then (case ParseTailnetPolicy (se_unicode e) (se_parseAddr e) (cfg_WebhookTailnetHosts cfg) of Inl _ \<Rightarrow> None | Inr p \<Rightarrow> Some p) else None)
      in newWebAdminConfig e cfg (newWebAdminTailnet e cfg node policy))"

definition mount_handlers :: "Config \<Rightarrow> serve_env \<Rightarrow> phase" where
  "mount_handlers cfg e db =
     (let as = (if cfg_RedisAddr cfg \<noteq> '''' then [OpenRedis] else []) @ [MountMCP]
      in if cfg_AdminEnabled cfg \<and> isl (NewHandler (se_integrity e) (admin_of cfg e)) then Some (as, db, Some exitRuntimeError) else Some (as, db, None))"

definition open_listeners :: "Config \<Rightarrow> serve_env \<Rightarrow> phase" where
  "open_listeners cfg e db =
     (let public = (if cfg_TSDisablePublicListener cfg then [] else [PublicListener]);
          tail = (if cfg_TSListen cfg then [TailnetListener, RedirectListener] else [])
      in if public \<noteq> [] \<and> se_listen e PublicListener \<noteq> None then Some ([], db, Some exitRuntimeError)
         else if tail = [] then Some (map Listen public, db, None)
         else if se_listen e TailnetListener \<noteq> None then Some (map Listen public @ map CloseListener public, db, Some exitRuntimeError)
         else if se_listen e RedirectListener \<noteq> None
         then Some (map Listen (public @ [TailnetListener]) @ map CloseListener (public @ [TailnetListener]), db, Some exitRuntimeError)
         else Some (map Listen (public @ tail), db, None))"

definition start_work :: "Config \<Rightarrow> act list" where
  "start_work cfg =
     (if cfg_TSDisablePublicListener cfg then [] else [ServeOn PublicListener])
     @ (if cfg_TSListen cfg then [ServeOn TailnetListener, ServeOn RedirectListener] else [])
     @ [StartDispatcher]
     @ (if cfg_DispatchMode cfg = ''db'' then [StartElector]
        else [StartScheduler] @ (if cfg_ReconcileEnabled cfg then [StartReconciler] else []))"

definition shut_down :: "Config \<Rightarrow> serve_env \<Rightarrow> act list" where
  "shut_down cfg e =
     [ShutdownMCP]
     @ (if cfg_TSListen cfg then [ShutdownRedirect] @ (if se_redirect_shutdown e \<noteq> None then [CloseRedirect] else []) else [])
     @ [ShutdownHTTP] @ (if se_http_shutdown e \<noteq> None then [CloseHTTP] else [])
     @ (if cfg_DispatchMode cfg = ''db'' then [StopElector]
        else [StopScheduler] @ (if cfg_ReconcileEnabled cfg then [StopReconciler] else []))
     @ [StopDispatcher]
     @ (if TailnetEnabled cfg then [CloseNode] else [])"

text \<open>The deferred calls of what was opened; the node is closed only once.\<close>

fun deferred :: "bool \<Rightarrow> act \<Rightarrow> act list" where
  "deferred gone OpenDB = [CloseDB]"
| "deferred gone StartNode = (if gone then [] else [CloseNode])"
| "deferred gone OpenRedis = [CloseRedis]"
| "deferred gone MountMCP = [CleanupMCP]"
| "deferred gone _ = []"

definition unwind :: "act list \<Rightarrow> act list" where
  "unwind as = concat (map (deferred (CloseNode \<in> set as)) (rev as))"

definition open_all :: "Config \<Rightarrow> serve_env \<Rightarrow> phase" where
  "open_all cfg e = followed (open_database e) (followed (prepare_schema cfg e) (followed (start_tailnet cfg e)
     (followed (mount_handlers cfg e) (open_listeners cfg e))))"

definition accepted :: "Config \<Rightarrow> serve_env \<Rightarrow> bool" where
  "accepted cfg e \<longleftrightarrow> Configuration.Validate (se_unicode e) (se_parseAddr e) (se_parseDuration e) (se_formats e) (se_supported e) cfg = []"

definition runServe :: "string list \<Rightarrow> Config \<Rightarrow> serve_env \<Rightarrow> mdb \<Rightarrow> ((act list \<times> int) \<times> mdb) option" where
  "runServe args cfg e db =
     (if ''--help'' \<in> set args \<or> ''-h'' \<in> set args then Some (([], exitSuccess), db)
      else if \<not> accepted cfg e then Some (([], exitInvalidConfig), db)
      else (case open_all cfg e db of
          None \<Rightarrow> None
        | Some (as, db', Some code) \<Rightarrow> Some ((as @ unwind as, code), db')
        | Some (as, db', None) \<Rightarrow>
            (let bs = as @ start_work cfg @ shut_down cfg e
             in Some ((bs @ unwind bs, if se_http_error e then exitRuntimeError else exitSuccess), db'))))"

section \<open>The other commands\<close>

definition runValidate :: "Config \<Rightarrow> serve_env \<Rightarrow> int" where
  "runValidate cfg e = (if \<not> accepted cfg e then exitInvalidConfig else exitSuccess)"

definition runConfig :: "((string \<times> json_value) list \<Rightarrow> string result) \<Rightarrow> Config \<Rightarrow> int \<times> string" where
  "runConfig marshal cfg = (case MaskedJSON marshal cfg of Inl _ \<Rightarrow> (exitRuntimeError, '''') | Inr text \<Rightarrow> (exitSuccess, text))"

text \<open>What \<^verbatim>\<open>cronlite migrate\<close> prints: what a run did, or the states of the migrations, with a note on a schema older than the runner.\<close>

datatype migrate_output = NoOutput | Applied Result | Status bool "(int \<times> string \<times> State) list"

definition migration_status :: "serve_env \<Rightarrow> mdb \<Rightarrow> int \<times> migrate_output" where
  "migration_status e db =
     (case Load_migrations (se_sha256 e) (se_files e) of
        Inl _ \<Rightarrow> (exitRuntimeError, NoOutput)
      | Inr ms \<Rightarrow> (case mbind (StatusOf (se_mig e) ms) (\<lambda>rows. mbind (NeedsBaseline (se_mig e)) (\<lambda>pre. mreturn (pre, rows))) (db, 0) of
          (Inl _, _) \<Rightarrow> (exitRuntimeError, NoOutput)
        | (Inr (pre, rows), _) \<Rightarrow> (exitSuccess, Status pre rows)))"

definition runMigrate :: "string list \<Rightarrow> Config \<Rightarrow> serve_env \<Rightarrow> mdb \<Rightarrow> ((int \<times> migrate_output) \<times> mdb) option" where
  "runMigrate args cfg e db =
     (if list_ex (\<lambda>a. a \<noteq> ''--status'') args then Some ((exitInvalidConfig, NoOutput), db)
      else if \<not> accepted cfg e then Some ((exitInvalidConfig, NoOutput), db)
      else if se_open e \<noteq> None \<or> se_ping e \<noteq> None then Some ((exitRuntimeError, NoOutput), db)
      else if args \<noteq> [] then Some (migration_status e db, db)
      else (case applyMigrations (se_sha256 e) (se_files e) (se_mig e) (cfg_MigrateLockTimeout cfg) db of
          None \<Rightarrow> None
        | Some ((_, Some er), db') \<Rightarrow> Some ((exitRuntimeError, NoOutput), db')
        | Some ((res, None), db') \<Rightarrow> Some ((exitSuccess, Applied res), db')))"

definition runCreateKey :: "string list \<Rightarrow> svc_env \<Rightarrow> err option \<Rightarrow> db \<Rightarrow> (int \<times> CreateAPIKeyResult option) \<times> db" where
  "runCreateKey args e connect db =
     (case args of
        [namespace, label] \<Rightarrow>
          if connect \<noteq> None then ((exitRuntimeError, None), db)
          else (case CreateAPIKey e (NamespaceToContext None namespace) label db of
              (Inl _, db') \<Rightarrow> ((exitRuntimeError, None), db')
            | (Inr key, db') \<Rightarrow> ((exitSuccess, Some key), db'))
      | _ \<Rightarrow> ((exitRuntimeError, None), db))"

text \<open>The command line; the version and the usage text have no other effect than their output.\<close>

datatype command = Serve_command "string list" | Validate_command | Config_command | Version_command | CreateKey_command "string list"
  | Migrate_command "string list" | Usage_command int

definition main_command :: "string list \<Rightarrow> command" where
  "main_command argv =
     (case argv of
        _ # cmd # args \<Rightarrow>
          if cmd = ''serve'' then Serve_command args
          else if cmd = ''validate'' then Validate_command
          else if cmd = ''config'' then Config_command
          else if cmd = ''version'' then Version_command
          else if cmd = ''create-key'' then CreateKey_command args
          else if cmd = ''migrate'' then Migrate_command args
          else if cmd \<in> {''--help'', ''-h'', ''help''} then Usage_command exitSuccess
          else Usage_command exitRuntimeError
      | _ \<Rightarrow> Usage_command exitRuntimeError)"

section \<open>One generation of duties\<close>

datatype lr_op = LeaderStart bool bool | LeaderStop | SchedulerEnds | ReconcilerEnds

fun lr_step :: "lr_op \<Rightarrow> leaderRuntime \<Rightarrow> leaderRuntime" where
  "lr_step (LeaderStart r d) lr = lr_start r d lr"
| "lr_step LeaderStop lr = lr_stop lr"
| "lr_step SchedulerEnds lr = lr\<lparr>lr_schedulers := lr_schedulers lr - 1\<rparr>"
| "lr_step ReconcilerEnds lr = lr\<lparr>lr_reconcilers := lr_reconcilers lr - 1\<rparr>"

definition lr_ok :: "leaderRuntime \<Rightarrow> bool" where
  "lr_ok lr \<longleftrightarrow> lr_schedulers lr \<le> (if lr_running lr then 1 else 0) \<and> lr_reconcilers lr \<le> (if lr_running lr then 1 else 0)"

text \<open>
  However often a replica is elected and loses its office, whenever its duties end: at most one scheduler and one reconciler run in
  it, and none after it stopped them.
\<close>

theorem duties_serialised:
  assumes "lr_ok lr"
  shows "lr_ok (fold lr_step ops lr)" and "lr_schedulers (lr_stop (fold lr_step ops lr)) = 0" and "lr_reconcilers (lr_stop (fold lr_step ops lr)) = 0"
proof -
  have "lr_ok (lr_step op lr)" if "lr_ok lr" for op lr using that by (cases op) (auto simp: lr_ok_def lr_start_def lr_stop_def)
  with assms show ok: "lr_ok (fold lr_step ops lr)" by (induction ops arbitrary: lr) auto
  then show "lr_schedulers (lr_stop (fold lr_step ops lr)) = 0" "lr_reconcilers (lr_stop (fold lr_step ops lr)) = 0"
    by (auto simp: lr_ok_def lr_stop_def split: if_splits)
qed

section \<open>Order of the shutdown\<close>

text \<open>After \<open>y\<close> there is no \<open>x\<close>.\<close>

fun never_after :: "act \<Rightarrow> act \<Rightarrow> act list \<Rightarrow> bool" where
  "never_after x y [] = True"
| "never_after x y (a # as) = ((a = y \<longrightarrow> x \<notin> set as) \<and> never_after x y as)"

lemma never_after_append:
  "never_after x y (as @ bs) \<longleftrightarrow> never_after x y as \<and> never_after x y bs \<and> (y \<in> set as \<longrightarrow> x \<notin> set bs)"
  by (induction as) auto

lemma never_after_absent: "y \<notin> set as \<Longrightarrow> never_after x y as" "x \<notin> set as \<Longrightarrow> never_after x y as"
  by (induction as) auto

definition starting :: "act \<Rightarrow> bool" where
  "starting a \<longleftrightarrow> (case a of OpenDB \<Rightarrow> True | RunMigrations \<Rightarrow> True | ProbeOwnership \<Rightarrow> True | StartNode \<Rightarrow> True | OpenRedis \<Rightarrow> True | MountMCP \<Rightarrow> True
     | Listen _ \<Rightarrow> True | CloseListener _ \<Rightarrow> True | ServeOn _ \<Rightarrow> True | StartDispatcher \<Rightarrow> True | StartElector \<Rightarrow> True | StartScheduler \<Rightarrow> True
     | StartReconciler \<Rightarrow> True | _ \<Rightarrow> False)"

definition working :: "act \<Rightarrow> bool" where
  "working a \<longleftrightarrow> a \<in> {StartDispatcher, StartElector, StartScheduler, StartReconciler} \<or> (\<exists>l. a = ServeOn l)"

text \<open>What the start does before its work: only openings, and listeners closed again.\<close>

definition opens :: "phase \<Rightarrow> bool" where
  "opens p \<longleftrightarrow> (\<forall>db as db' r. p db = Some (as, db', r) \<longrightarrow> (\<forall>a \<in> set as. starting a \<and> \<not> working a))"

lemma opens_followed: "opens p \<Longrightarrow> opens q \<Longrightarrow> opens (followed p q)"
  by (fastforce simp: opens_def followed_def split: option.splits prod.splits)

lemmas phase_defs = open_database_def prepare_schema_def start_tailnet_def mount_handlers_def open_listeners_def

lemma opens_all: "opens (open_all cfg e)"
  unfolding open_all_def
  by (intro opens_followed)
    (auto simp: opens_def phase_defs starting_def working_def Let_def split: option.splits prod.splits if_splits)

lemma unwind_set: "set (unwind as) \<subseteq> {CloseDB, CloseNode, CloseRedis, CleanupMCP}"
proof -
  have "set (deferred g a) \<subseteq> {CloseDB, CloseNode, CloseRedis, CleanupMCP}" for g a by (cases a) auto
  then show ?thesis by (auto simp: unwind_def)
qed

lemma unwind_closes:
  "OpenDB \<in> set as \<Longrightarrow> CloseDB \<in> set (unwind as)" "OpenRedis \<in> set as \<Longrightarrow> CloseRedis \<in> set (unwind as)"
  "MountMCP \<in> set as \<Longrightarrow> CleanupMCP \<in> set (unwind as)" "StartNode \<in> set as \<Longrightarrow> CloseNode \<in> set as \<or> CloseNode \<in> set (unwind as)"
  by ((force simp: unwind_def)+, cases "CloseNode \<in> set as") (force simp: unwind_def)+

text \<open>A trace is orderly: what was opened is closed, and nothing is stopped or closed while something that uses it goes on.\<close>

definition orderly :: "act list \<Rightarrow> bool" where
  "orderly as \<longleftrightarrow>
     (OpenDB \<in> set as \<longrightarrow> CloseDB \<in> set as) \<and> (StartNode \<in> set as \<longrightarrow> CloseNode \<in> set as) \<and> (OpenRedis \<in> set as \<longrightarrow> CloseRedis \<in> set as)
     \<and> (MountMCP \<in> set as \<longrightarrow> CleanupMCP \<in> set as)
     \<and> (StartDispatcher \<in> set as \<longrightarrow> StopDispatcher \<in> set as) \<and> (StartElector \<in> set as \<longrightarrow> StopElector \<in> set as)
     \<and> (StartScheduler \<in> set as \<longrightarrow> StopScheduler \<in> set as) \<and> (StartReconciler \<in> set as \<longrightarrow> StopReconciler \<in> set as)
     \<and> list_all (\<lambda>y. never_after ShutdownHTTP y as) [StopElector, StopScheduler, StopReconciler, StopDispatcher, CloseNode, CloseDB]
     \<and> list_all (\<lambda>y. never_after StopElector y as \<and> never_after StopScheduler y as \<and> never_after StopReconciler y as) [StopDispatcher, CloseNode, CloseDB]
     \<and> list_all (\<lambda>y. never_after StopDispatcher y as) [CloseNode, CloseRedis, CloseDB]"

lemma orderly_stopped:
  assumes "\<forall>a \<in> set as. starting a \<and> \<not> working a"
  shows "orderly (as @ unwind as)"
proof -
  have s: "\<not> working a" "starting a" if "a \<in> set as" for a using assms that by auto
  have "StopDispatcher \<notin> set (as @ unwind as)" "StopElector \<notin> set (as @ unwind as)" "StopScheduler \<notin> set (as @ unwind as)"
    "StopReconciler \<notin> set (as @ unwind as)" "ShutdownHTTP \<notin> set (as @ unwind as)"
    using unwind_set [of as] by (auto dest!: s(2) simp: starting_def)
  moreover have "StartDispatcher \<notin> set (as @ unwind as)" "StartElector \<notin> set (as @ unwind as)" "StartScheduler \<notin> set (as @ unwind as)"
    "StartReconciler \<notin> set (as @ unwind as)"
    using unwind_set [of as] by (auto dest!: s(1) simp: working_def)
  moreover have "OpenDB \<notin> set (unwind as)" "StartNode \<notin> set (unwind as)" "OpenRedis \<notin> set (unwind as)" "MountMCP \<notin> set (unwind as)" using unwind_set [of as] by auto
  ultimately show ?thesis using unwind_closes [of as] by (auto simp: orderly_def never_after_absent(2))
qed

lemma orderly_served:
  assumes "\<forall>a \<in> set as. starting a \<and> \<not> working a"
  shows "orderly ((as @ start_work cfg @ shut_down cfg e) @ unwind (as @ start_work cfg @ shut_down cfg e))"
proof -
  let ?up = "as @ start_work cfg" let ?all = "?up @ shut_down cfg e"
  have up: "starting a" if "a \<in> set ?up" for a using assms that by (auto simp: start_work_def starting_def split: if_splits)
  have w: "\<not> working a" if "a \<in> set as" for a using assms that by auto
  have u: "set (unwind ?all) \<subseteq> {CloseDB, CloseNode, CloseRedis, CleanupMCP}" by (rule unwind_set)
  have stopped: "StartDispatcher \<in> set (?all @ unwind ?all) \<longrightarrow> StopDispatcher \<in> set (?all @ unwind ?all)"
    "StartElector \<in> set (?all @ unwind ?all) \<longrightarrow> StopElector \<in> set (?all @ unwind ?all)"
    "StartScheduler \<in> set (?all @ unwind ?all) \<longrightarrow> StopScheduler \<in> set (?all @ unwind ?all)"
    "StartReconciler \<in> set (?all @ unwind ?all) \<longrightarrow> StopReconciler \<in> set (?all @ unwind ?all)"
    using u by (auto dest!: w simp: working_def start_work_def shut_down_def split: if_splits)
  have released: "OpenDB \<in> set (?all @ unwind ?all) \<longrightarrow> CloseDB \<in> set (?all @ unwind ?all)"
    "StartNode \<in> set (?all @ unwind ?all) \<longrightarrow> CloseNode \<in> set (?all @ unwind ?all)"
    "OpenRedis \<in> set (?all @ unwind ?all) \<longrightarrow> CloseRedis \<in> set (?all @ unwind ?all)"
    "MountMCP \<in> set (?all @ unwind ?all) \<longrightarrow> CleanupMCP \<in> set (?all @ unwind ?all)"
    using unwind_closes [of ?all] u by auto
  have na: "never_after x y (?all @ unwind ?all)"
    if "\<not> starting x" "\<not> starting y" "x \<notin> {CloseDB, CloseNode, CloseRedis, CleanupMCP}" "never_after x y (shut_down cfg e)" for x y
  proof -
    have "x \<notin> set (unwind ?all)" "y \<notin> set ?up" using that u up by auto
    then show ?thesis using that(4) by (simp only: never_after_append) (auto intro: never_after_absent)
  qed
  have "list_all (\<lambda>y. never_after ShutdownHTTP y (?all @ unwind ?all)) [StopElector, StopScheduler, StopReconciler, StopDispatcher, CloseNode, CloseDB]"
    by (simp only: list.pred_inject, intro conjI TrueI na) (auto simp: starting_def shut_down_def)
  moreover have "list_all (\<lambda>y. never_after StopElector y (?all @ unwind ?all) \<and> never_after StopScheduler y (?all @ unwind ?all)
      \<and> never_after StopReconciler y (?all @ unwind ?all)) [StopDispatcher, CloseNode, CloseDB]"
    by (simp only: list.pred_inject, intro conjI TrueI na) (auto simp: starting_def shut_down_def)
  moreover have "list_all (\<lambda>y. never_after StopDispatcher y (?all @ unwind ?all)) [CloseNode, CloseRedis, CloseDB]"
    by (simp only: list.pred_inject, intro conjI TrueI na) (auto simp: starting_def shut_down_def)
  ultimately show ?thesis using stopped released unfolding orderly_def append_assoc by blast
qed

lemma followed_Some:
  "followed p q db = Some (as, db', None) \<longleftrightarrow> (\<exists>bs db1 cs. p db = Some (bs, db1, None) \<and> q db1 = Some (cs, db', None) \<and> as = bs @ cs)"
  by (auto simp: followed_def split: option.split prod.split)

lemma later_phases_keep_database:
  "start_tailnet cfg e db = Some (as, db', r) \<Longrightarrow> db' = db" "mount_handlers cfg e db = Some (as, db', r) \<Longrightarrow> db' = db"
  "open_listeners cfg e db = Some (as, db', r) \<Longrightarrow> db' = db"
  by (auto simp: phase_defs Let_def split: if_splits)

lemma open_all_probed:
  assumes "open_all cfg e db = Some (as, db', None)"
  shows "probeExecutionOwnership e (md_schema db')"
proof -
  from assms obtain db1 db2 bs where "prepare_schema cfg e db1 = Some (bs, db2, None)" "db' = db2"
    unfolding open_all_def followed_Some by (blast dest: later_phases_keep_database)
  then show ?thesis by (auto simp: prepare_schema_def Let_def split: if_splits option.splits prod.splits)
qed

lemma runServe_cases:
  assumes "runServe args cfg e db = Some ((as, code), db')"
  obtains "as = []"
  | bs where "open_all cfg e db = Some (bs, db', Some code)" "as = bs @ unwind bs"
  | bs where "accepted cfg e" "open_all cfg e db = Some (bs, db', None)"
      "as = (bs @ start_work cfg @ shut_down cfg e) @ unwind (bs @ start_work cfg @ shut_down cfg e)"
  using assms unfolding runServe_def Let_def by (auto split: if_splits option.splits prod.splits)


section \<open>An accepted configuration starts\<close>

lemma accepted_parts:
  assumes "accepted cfg e"
  shows "\<not> isl (ParseAllowlist (se_unicode e) (se_parseAddr e) (cfg_WebhookAllowedPrivateSuffixes cfg))"
    and "cfg_WebhookAllowTailnet cfg \<Longrightarrow> \<not> isl (ParseTailnetPolicy (se_unicode e) (se_parseAddr e) (cfg_WebhookTailnetHosts cfg))"
    and "cfg_AdminEnabled cfg \<Longrightarrow> \<not> isl (NewHandler (se_integrity e) (admin_of cfg e))"
    and "cfg_TSDisablePublicListener cfg \<Longrightarrow> cfg_TSListen cfg"
proof -
  note v = assms [unfolded accepted_def Validate_def append_is_Nil_conv]
  show "\<not> isl (ParseAllowlist (se_unicode e) (se_parseAddr e) (cfg_WebhookAllowedPrivateSuffixes cfg))"
    using v by (auto split: sum.splits)
  show "\<not> isl (ParseTailnetPolicy (se_unicode e) (se_parseAddr e) (cfg_WebhookTailnetHosts cfg))" if "cfg_WebhookAllowTailnet cfg"
  proof -
    have "validateTailnet (se_unicode e) (se_parseAddr e) (se_formats e) (se_supported e) cfg = []"
      using v that by (simp add: TailnetEnabled_def)
    then show ?thesis using that by (auto simp: validateTailnet_def Let_def split: if_splits sum.splits)
  qed
  show "\<not> isl (NewHandler (se_integrity e) (admin_of cfg e))" if "cfg_AdminEnabled cfg"
  proof -
    have "admin_errors cfg = []" using v by blast
    then show ?thesis using that by (auto simp: admin_errors_def NewHandler_def admin_of_def newWebAdminConfig_def Let_def)
  qed
  have "listener_errors cfg = []" using v by blast
  then show "cfg_TSDisablePublicListener cfg \<Longrightarrow> cfg_TSListen cfg" by (simp add: listener_errors_def)
qed

text \<open>The calls of the start answer without an error.\<close>

definition answering :: "serve_env \<Rightarrow> bool" where
  "answering e \<longleftrightarrow> se_open e = None \<and> se_ping e = None \<and> se_probe e = None \<and> \<not> isl (se_node e)
     \<and> se_listen e PublicListener = None \<and> se_listen e TailnetListener = None \<and> se_listen e RedirectListener = None"

text \<open>The database that the process works on.\<close>

definition prepared :: "Config \<Rightarrow> serve_env \<Rightarrow> mdb \<Rightarrow> mdb option" where
  "prepared cfg e db =
     (if \<not> cfg_MigrateOnStart cfg then Some db
      else (case applyMigrations (se_sha256 e) (se_files e) (se_mig e) (cfg_MigrateLockTimeout cfg) db of
          Some ((_, None), db') \<Rightarrow> Some db' | _ \<Rightarrow> None))"

lemma open_all_answering:
  assumes "accepted cfg e" "answering e" "prepared cfg e db = Some db'" "ownership_columns (md_schema db')"
  shows "\<exists>as. open_all cfg e db = Some (as, db', None)"
proof -
  have "open_database e db = Some ([OpenDB], db, None)" using assms(2) by (simp add: open_database_def answering_def)
  moreover have "\<exists>as. prepare_schema cfg e db = Some (as, db', None)"
    using assms(2-4) by (auto simp: prepare_schema_def prepared_def probeExecutionOwnership_def answering_def Let_def split: if_splits option.splits)
  moreover have "\<exists>as. start_tailnet cfg e db' = Some (as, db', None)"
    using accepted_parts(1,2) [OF assms(1)] assms(2) by (auto simp: start_tailnet_def answering_def)
  moreover have "\<exists>as. mount_handlers cfg e db' = Some (as, db', None)"
    using accepted_parts(3) [OF assms(1)] by (auto simp: mount_handlers_def Let_def)
  moreover have "\<exists>as. open_listeners cfg e db' = Some (as, db', None)"
    using assms(2) by (auto simp: open_listeners_def answering_def Let_def)
  ultimately show ?thesis unfolding open_all_def followed_Some by blast
qed


lemma applyMigrations_returns:
  assumes "acquireLock m timeout = Some x"
  shows "\<exists>y. applyMigrations sha files m timeout db = Some y"
  using assms by (auto simp: applyMigrations_def Run_def Let_def split: sum.split option.split prod.split)

lemma followed_returns: "\<forall>db. p db \<noteq> None \<Longrightarrow> \<forall>db. q db \<noteq> None \<Longrightarrow> \<forall>db. followed p q db \<noteq> None"
  by (auto simp: followed_def simp del: not_None_eq split: option.split)

text \<open>The start never hangs in its own loops: with a clock that advances by the time waited for the lock of the migrations, the process gets to its end.\<close>

theorem serve_returns:
  assumes "me_start (se_mig e) \<le> me_check (se_mig e) 0"
    and "deadline = me_start (se_mig e) + (if cfg_MigrateLockTimeout cfg \<le> 0 then defaultLockTimeout else cfg_MigrateLockTimeout cfg)"
    and "\<forall>n. me_check (se_mig e) n \<le> me_until (se_mig e) n
      \<and> me_until (se_mig e) n + min lockPollInterval (deadline - me_until (se_mig e) n) \<le> me_check (se_mig e) (Suc n)"
  shows "\<exists>x. runServe args cfg e db = Some x"
proof -
  obtain x where "acquireLock (se_mig e) (cfg_MigrateLockTimeout cfg) = Some x" using lock_wait_ends [OF assms] by blast
  note m = applyMigrations_returns [OF this, of "se_sha256 e" "se_files e"]
  have "\<forall>db. prepare_schema cfg e db \<noteq> None"
  proof
    fix db
    show "prepare_schema cfg e db \<noteq> None" using m [of db] by (auto simp: prepare_schema_def Let_def split: option.split)
  qed
  then have "\<forall>db. open_all cfg e db \<noteq> None"
    unfolding open_all_def by (intro followed_returns) (simp_all add: open_database_def start_tailnet_def mount_handlers_def open_listeners_def Let_def)
  then have "runServe args cfg e db \<noteq> None" by (auto simp: runServe_def Let_def simp del: not_None_eq split: option.split)
  then show ?thesis by simp
qed

text \<open>
  The columns that the start asks for are there from the eleventh schema file on: of the installations made by hand, the start
  refuses those that the runner of the migrations refuses to complete.
\<close>

theorem ownership_columns_of_built:
  "list_all (\<lambda>k. case built k of None \<Rightarrow> False | Some c \<Rightarrow> ownership_columns c \<longleftrightarrow> 11 \<le> k) [0..<13]"
  by code_simp

section \<open>Examples\<close>

definition sample_serve :: serve_env where
  "sample_serve = \<lparr>se_unicode = \<lparr>uc_lower = (\<lambda>s. s), uc_trim = (\<lambda>s. s)\<rparr>, se_parseAddr = (\<lambda>s. None), se_parseDuration = sample_pd,
     se_formats = \<lparr>fm_quote = (\<lambda>s. s), fm_duration = (\<lambda>d. [])\<rparr>, se_supported = False, se_integrity = '''', se_open = None, se_ping = None,
     se_sha256 = (\<lambda>s. s), se_files = Inr [], se_mig = sample_mig None, se_probe = None,
     se_node = Inr \<lparr>nd_Suffix = '''', nd_SelfAddrs = [], nd_CertDomain = '''', nd_Info = Inl (ErrorMsg ''''), nd_WhoIs = (\<lambda>a. Inl (ErrorMsg ''''))\<rparr>,
     se_listen = (\<lambda>l. None), se_http_error = False, se_redirect_shutdown = None, se_http_shutdown = None\<rparr>"

definition sample_schema_db :: mdb where
  "sample_schema_db = (case built 11 of Some c \<Rightarrow> \<lparr>md_schema = c, md_tracking = None\<rparr> | None \<Rightarrow> new_database)"

lemma sample_accepted: "accepted sample_config sample_serve"
  by code_simp

lemma sample_ownership: "ownership_columns (md_schema sample_schema_db)"
  by code_simp

lemma sample_prepared: "answering sample_serve" "prepared sample_config sample_serve sample_schema_db = Some sample_schema_db"
proof -
  show "answering sample_serve" by (simp add: answering_def sample_serve_def)
  have "\<not> cfg_MigrateOnStart sample_config" by code_simp
  then show "prepared sample_config sample_serve sample_schema_db = Some sample_schema_db" by (simp add: prepared_def)
qed



end
