(* ===== verification/McpTools.thy ===== *)
theory McpTools
  imports Routes
begin

text \<open>
  The MCP server's tools (\<^verbatim>\<open>internal/mcp/tools.go\<close>, \<^verbatim>\<open>errors.go\<close>): their declarations, and their handlers, which
  decode the arguments of a call, make one call of the service and encode its result. The MCP library's
  accessors, UUID parsing, time formats and the JSON printer are fields of \<open>mcp_lib\<close>; an accessor sees the
  argument under its key only.
\<close>

section \<open>Values\<close>

datatype number = NaN | Inf bool | Finite rat

datatype json = JNull | JBool bool | JNum number | JStr string | JArr "json list" | JObj "(string \<times> json) list"

text \<open>An object is the list of its members in the order in which a range loop visits them.\<close>

type_synonym arguments = "(string \<times> json) list"

record mcp_lib =
  ml_RequireString :: "string \<Rightarrow> json option \<Rightarrow> string result"
  ml_GetString :: "json option \<Rightarrow> string \<Rightarrow> string"
  ml_RequireFloat :: "string \<Rightarrow> json option \<Rightarrow> number result"
  ml_GetBool :: "json option \<Rightarrow> bool \<Rightarrow> bool"
  ml_Parse :: "string \<Rightarrow> uuid result"
  ml_String :: "uuid \<Rightarrow> string"
  ml_RFC3339 :: "time \<Rightarrow> string"
  ml_quote :: "string \<Rightarrow> string"
  ml_MarshalIndent :: "json \<Rightarrow> string result"

datatype tool_result = ToolError string | ToolText string

type_synonym tool_handler = "arguments \<Rightarrow> db \<Rightarrow> tool_result \<times> db"

section \<open>Declarations\<close>

datatype param_type = PString | PNumber | PBoolean | PObject

record tool =
  tl_name :: string
  tl_readOnly :: bool
  tl_destructive :: bool
  tl_params :: "(string \<times> param_type \<times> bool) list"

definition new_tool :: "string \<Rightarrow> (string \<times> param_type \<times> bool) list \<Rightarrow> tool" where
  "new_tool name params = \<lparr>tl_name = name, tl_readOnly = False, tl_destructive = False, tl_params = params\<rparr>"

definition createJobTool :: tool where
  "createJobTool = new_tool ''create-job''
     [(''name'', PString, True), (''cron_expression'', PString, True), (''timezone'', PString, True), (''webhook_url'', PString, True),
      (''webhook_secret'', PString, False), (''webhook_timeout_seconds'', PNumber, False), (''tags'', PObject, False)]"

definition listJobsTool :: tool where
  "listJobsTool = new_tool ''list-jobs'' [(''name'', PString, False), (''enabled'', PBoolean, False)]"

definition getJobTool :: tool where
  "getJobTool = new_tool ''get-job'' [(''id'', PString, True)]"

definition updateJobTool :: tool where
  "updateJobTool = new_tool ''update-job''
     [(''id'', PString, True), (''name'', PString, False), (''cron_expression'', PString, False), (''timezone'', PString, False),
      (''webhook_url'', PString, False), (''webhook_secret'', PString, False), (''webhook_timeout_seconds'', PNumber, False),
      (''enabled'', PBoolean, False), (''tags'', PObject, False)]"

definition deleteJobTool :: tool where
  "deleteJobTool = (new_tool ''delete-job'' [(''id'', PString, True)])\<lparr>tl_destructive := True\<rparr>"

definition pauseJobTool :: tool where
  "pauseJobTool = new_tool ''pause-job'' [(''id'', PString, True)]"

definition resumeJobTool :: tool where
  "resumeJobTool = new_tool ''resume-job'' [(''id'', PString, True)]"

definition triggerJobTool :: tool where
  "triggerJobTool = new_tool ''trigger-job'' [(''id'', PString, True)]"

definition nextRunTool :: tool where
  "nextRunTool = (new_tool ''next-run'' [(''id'', PString, True)])\<lparr>tl_readOnly := True\<rparr>"

definition resolveScheduleTool :: tool where
  "resolveScheduleTool = (new_tool ''resolve-schedule'' [(''description'', PString, True), (''timezone'', PString, False)])\<lparr>tl_readOnly := True\<rparr>"

section \<open>Results\<close>

definition toolError :: "err \<Rightarrow> tool_result" where
  "toolError er = ToolError
     (if errors_Is er ErrJobNotFound then ''Job not found. Verify the job ID is correct and belongs to your namespace.''
      else if errors_Is er ErrExecutionNotFound then ''Execution not found. Verify the execution ID is correct.''
      else if errors_Is er ErrAPIKeyNotFound then ''API key not found.''
      else if errors_Is er ErrInvalidCronExpression
        then ''Invalid cron expression. Use resolve-schedule to convert natural language to a valid cron expression.''
      else if errors_Is er ErrInvalidTimezone
        then ''Invalid timezone. Use an IANA timezone name like \"UTC\", \"America/New_York\", or \"Europe/London\".''
      else if errors_Is er ErrInvalidWebhookURL then ''Invalid webhook URL. Provide a fully qualified HTTP or HTTPS URL.''
      else if errors_Is er ErrWebhookHostNotAllowed
        then ''This namespace may not call that tailnet host. Ask an operator to add it to WEBHOOK_TAILNET_HOSTS, or use a different webhook URL.''
      else if errors_Is er ErrJobDisabled then ''Job is disabled. Use resume-job to re-enable it, then retry the operation.''
      else if errors_Is er ErrScheduleParseFailure
        then ''Could not parse schedule. Try a different phrasing or use a cron expression directly (e.g. \"*/5 * * * *\").''
      else if errors_Is er ErrNamespaceRequired then ''Authentication required. Set CRONLITE_API_KEY or provide a Bearer token.''
      else if errors_Is er ErrNamespaceMismatch then ''Job not found. The job may belong to a different namespace.''
      else if errors_Is er ErrDuplicateExecution then ''Duplicate execution. This execution already exists.''
      else if errors_Is er ErrDuplicateAPIKey then ''Duplicate API key.''
      else ''Internal error: '' @ error_string er)"

definition jsonResult :: "mcp_lib \<Rightarrow> json \<Rightarrow> tool_result" where
  "jsonResult L v = (case ml_MarshalIndent L v of
     Inl er \<Rightarrow> ToolError (''Failed to serialize result: '' @ error_string er)
   | Inr data \<Rightarrow> ToolText data)"

definition jobToMap :: "mcp_lib \<Rightarrow> Job \<Rightarrow> Schedule \<Rightarrow> (string \<times> json) list" where
  "jobToMap L job sch =
     [(''id'', JStr (ml_String L (job_ID job))), (''namespace'', JStr (job_Namespace job)), (''name'', JStr (job_Name job)),
      (''enabled'', JBool (job_Enabled job)), (''cron_expression'', JStr (sch_CronExpression sch)), (''timezone'', JStr (sch_Timezone sch)),
      (''webhook_url'', JStr (dc_WebhookURL (job_Delivery job))), (''created_at'', JStr (ml_RFC3339 L (job_CreatedAt job))),
      (''updated_at'', JStr (ml_RFC3339 L (job_UpdatedAt job)))]"

definition executionToMap :: "mcp_lib \<Rightarrow> Execution \<Rightarrow> (string \<times> json) list" where
  "executionToMap L e =
     [(''id'', JStr (ml_String L (ex_ID e))), (''job_id'', JStr (ml_String L (ex_JobID e))),
      (''trigger_type'', JStr (trigger_string (ex_TriggerType e))), (''scheduled_at'', JStr (ml_RFC3339 L (ex_ScheduledAt e))),
      (''fired_at'', JStr (ml_RFC3339 L (ex_FiredAt e))), (''status'', JStr (status_string (ex_Status e))),
      (''created_at'', JStr (ml_RFC3339 L (ex_CreatedAt e)))]
     @ (case ex_AcknowledgedAt e of None \<Rightarrow> [] | Some t \<Rightarrow> [(''acknowledged_at'', JStr (ml_RFC3339 L t))])"

definition tag_map :: "Tag list \<Rightarrow> (string \<times> json) list" where
  "tag_map tags = (if tags = [] then []
     else [(''tags'', JObj (fold (\<lambda>t. AList.update (tag_Key t) (JStr (tag_Value t))) tags []))])"

section \<open>Arguments\<close>

definition refuse :: "string \<Rightarrow> db \<Rightarrow> tool_result \<times> db" where
  "refuse m db = (ToolError m, db)"

definition require :: "mcp_lib \<Rightarrow> arguments \<Rightarrow> string \<Rightarrow> (string \<Rightarrow> db \<Rightarrow> tool_result \<times> db) \<Rightarrow> db \<Rightarrow> tool_result \<times> db" where
  "require L args k f = (case ml_RequireString L k (map_of args k) of
     Inl _ \<Rightarrow> refuse (''Missing required parameter: '' @ k)
   | Inr s \<Rightarrow> f s)"

definition require_id :: "mcp_lib \<Rightarrow> arguments \<Rightarrow> (string \<Rightarrow> uuid \<Rightarrow> db \<Rightarrow> tool_result \<times> db) \<Rightarrow> db \<Rightarrow> tool_result \<times> db" where
  "require_id L args f = require L args ''id'' (\<lambda>idStr. case ml_Parse L idStr of
     Inl _ \<Rightarrow> refuse ''Invalid job ID format. Expected a UUID.''
   | Inr i \<Rightarrow> f idStr i)"

definition optional :: "mcp_lib \<Rightarrow> arguments \<Rightarrow> string \<Rightarrow> (string option \<Rightarrow> db \<Rightarrow> tool_result \<times> db) \<Rightarrow> db \<Rightarrow> tool_result \<times> db" where
  "optional L args k f = (case map_of args k of
     None \<Rightarrow> f None
   | Some v \<Rightarrow> (case ml_RequireString L k (Some v) of Inl er \<Rightarrow> refuse (error_string er) | Inr s \<Rightarrow> f (Some s)))"

text \<open>Conversion of a finite number to a 64-bit integer truncates; the product wraps around.\<close>

definition int64 :: "int \<Rightarrow> int" where
  "int64 n = signed_take_bit 63 n"

definition webhookTimeout :: "mcp_lib \<Rightarrow> arguments \<Rightarrow> duration result" where
  "webhookTimeout L args =
     (let k = ''webhook_timeout_seconds'';
          bad = Inl (ErrorMsg ''webhook_timeout_seconds must be finite, nonnegative and representable as a duration'')
      in case map_of args k of
           None \<Rightarrow> Inr 0
         | Some v \<Rightarrow> (case ml_RequireFloat L k (Some v) of
             Inl er \<Rightarrow> Inl er
           | Inr (Finite seconds) \<Rightarrow> if seconds < 0 \<or> seconds > of_int ((2 ^ 63 - 1) div Second) then bad
               else Inr (int64 (int64 (if seconds < 0 then \<lceil>seconds\<rceil> else \<lfloor>seconds\<rfloor>) * Second))
           | Inr _ \<Rightarrow> bad))"

fun string_tags :: "mcp_lib \<Rightarrow> (string \<times> json) list \<Rightarrow> Tag list result" where
  "string_tags L [] = Inr []"
| "string_tags L ((k, v) # m) = (case v of
     JStr s \<Rightarrow> (case string_tags L m of Inl er \<Rightarrow> Inl er | Inr ts \<Rightarrow> Inr (\<lparr>tag_Key = k, tag_Value = s\<rparr> # ts))
   | _ \<Rightarrow> Inl (ErrorMsg (''tag '' @ ml_quote L k @ '' must have a string value'')))"

definition parseTags :: "mcp_lib \<Rightarrow> json option \<Rightarrow> Tag list result" where
  "parseTags L raw = (case raw of
     None \<Rightarrow> Inr []
   | Some JNull \<Rightarrow> Inr []
   | Some (JObj m) \<Rightarrow> string_tags L m
   | Some _ \<Rightarrow> Inl (ErrorMsg ''tags must be an object with string values''))"

definition checked :: "'a result \<Rightarrow> ('a \<Rightarrow> db \<Rightarrow> tool_result \<times> db) \<Rightarrow> db \<Rightarrow> tool_result \<times> db" where
  "checked r f = (case r of Inl er \<Rightarrow> refuse (error_string er) | Inr x \<Rightarrow> f x)"

text \<open>The call of the service.\<close>

definition served :: "'a stmt \<Rightarrow> ('a \<Rightarrow> tool_result) \<Rightarrow> db \<Rightarrow> tool_result \<times> db" where
  "served p ok db = (case p db of (Inl er, db') \<Rightarrow> (toolError er, db') | (Inr x, db') \<Rightarrow> (ok x, db'))"

section \<open>Handlers\<close>

definition handleCreateJob :: "mcp_lib \<Rightarrow> svc_env \<Rightarrow> ctx \<Rightarrow> tool_handler" where
  "handleCreateJob L e c args =
     require L args ''name'' (\<lambda>name.
     require L args ''cron_expression'' (\<lambda>cronExpr.
     require L args ''timezone'' (\<lambda>tz.
     require L args ''webhook_url'' (\<lambda>webhookURL.
     checked (webhookTimeout L args) (\<lambda>timeout.
     checked (parseTags L (map_of args ''tags'')) (\<lambda>tags.
     served (CreateJob_svc e c \<lparr>ci_Name = name, ci_CronExpression = cronExpr, ci_Timezone = tz, ci_WebhookURL = webhookURL,
         ci_Secret = ml_GetString L (map_of args ''webhook_secret'') '''', ci_Timeout = timeout, ci_Tags = tags\<rparr>)
       (\<lambda>(job, sch). jsonResult L (JObj (jobToMap L job sch @ tag_map tags)))))))))"

definition handleListJobs :: "mcp_lib \<Rightarrow> svc_env \<Rightarrow> ctx \<Rightarrow> tool_handler" where
  "handleListJobs L e c args =
     served (ListJobs_svc e c \<lparr>jf_Namespace = '''', jf_Tags = [],
         jf_Enabled = (case map_of args ''enabled'' of None \<Rightarrow> None | Some v \<Rightarrow> Some (ml_GetBool L (Some v) True)),
         jf_Name = ml_GetString L (map_of args ''name'') '''', jf_ListParams = \<lparr>lp_Limit = 0, lp_Offset = 0\<rparr>\<rparr>)
       (\<lambda>jobs. jsonResult L (JObj
          [(''jobs'', JArr (map (\<lambda>j. JObj [(''id'', JStr (ml_String L (job_ID j))), (''namespace'', JStr (job_Namespace j)),
              (''name'', JStr (job_Name j)), (''enabled'', JBool (job_Enabled j)), (''created_at'', JStr (ml_RFC3339 L (job_CreatedAt j))),
              (''updated_at'', JStr (ml_RFC3339 L (job_UpdatedAt j)))]) jobs)),
           (''count'', JNum (Finite (of_nat (length jobs))))]))"

definition handleGetJob :: "mcp_lib \<Rightarrow> svc_env \<Rightarrow> ctx \<Rightarrow> tool_handler" where
  "handleGetJob L e c args = require_id L args (\<lambda>idStr i.
     served (GetJob_svc e c i) (\<lambda>((job, sch), tags, executions). jsonResult L (JObj (jobToMap L job sch @ tag_map tags
       @ (if executions = [] then [] else [(''recent_executions'', JArr (map (\<lambda>x. JObj (executionToMap L x)) executions))])))))"

definition handleUpdateJob :: "mcp_lib \<Rightarrow> svc_env \<Rightarrow> ctx \<Rightarrow> tool_handler" where
  "handleUpdateJob L e c args = require_id L args (\<lambda>idStr i.
     optional L args ''name'' (\<lambda>name.
     optional L args ''cron_expression'' (\<lambda>cronExpr.
     optional L args ''timezone'' (\<lambda>tz.
     optional L args ''webhook_url'' (\<lambda>webhookURL.
     optional L args ''webhook_secret'' (\<lambda>secret.
     checked (webhookTimeout L args) (\<lambda>timeout.
     checked (parseTags L (map_of args ''tags'')) (\<lambda>tags.
     served (UpdateJob_svc e c i \<lparr>ui_Name = name, ui_CronExpression = cronExpr, ui_Timezone = tz, ui_WebhookURL = webhookURL,
         ui_Secret = secret, ui_Timeout = map_option (\<lambda>_. timeout) (map_of args ''webhook_timeout_seconds''),
         ui_Tags = map_option (\<lambda>_. tags) (map_of args ''tags'')\<rparr>)
       (\<lambda>(job, sch). jsonResult L (JObj (jobToMap L job sch)))))))))))"

definition handleDeleteJob :: "mcp_lib \<Rightarrow> svc_env \<Rightarrow> ctx \<Rightarrow> tool_handler" where
  "handleDeleteJob L e c args = require_id L args (\<lambda>idStr i.
     served (DeleteJob_svc e c i) (\<lambda>_. ToolText (''Job '' @ idStr @ '' deleted successfully.'')))"

definition paused_map :: "mcp_lib \<Rightarrow> Job \<Rightarrow> string \<Rightarrow> json" where
  "paused_map L job message = JObj [(''id'', JStr (ml_String L (job_ID job))), (''name'', JStr (job_Name job)),
     (''enabled'', JBool (job_Enabled job)), (''message'', JStr message)]"

definition handlePauseJob :: "mcp_lib \<Rightarrow> svc_env \<Rightarrow> ctx \<Rightarrow> tool_handler" where
  "handlePauseJob L e c args = require_id L args (\<lambda>idStr i.
     served (PauseJob e c i) (\<lambda>job. jsonResult L (paused_map L job ''Job paused successfully. Use resume-job to re-enable.'')))"

definition handleResumeJob :: "mcp_lib \<Rightarrow> svc_env \<Rightarrow> ctx \<Rightarrow> tool_handler" where
  "handleResumeJob L e c args = require_id L args (\<lambda>idStr i.
     served (ResumeJob e c i) (\<lambda>job. jsonResult L (paused_map L job ''Job resumed successfully.'')))"

definition handleTriggerJob :: "mcp_lib \<Rightarrow> svc_env \<Rightarrow> ctx \<Rightarrow> tool_handler" where
  "handleTriggerJob L e c args = require_id L args (\<lambda>idStr i.
     served (TriggerNow e c i) (\<lambda>(exec, ev). jsonResult L (JObj (executionToMap L exec))))"

definition handleNextRun :: "mcp_lib \<Rightarrow> svc_env \<Rightarrow> ctx \<Rightarrow> tool_handler" where
  "handleNextRun L e c args = require_id L args (\<lambda>idStr i.
     served (GetNextRunTime e c i) (\<lambda>(nextRun, runs, sch). jsonResult L (JObj
       [(''cron_expression'', JStr (sch_CronExpression sch)), (''timezone'', JStr (sch_Timezone sch)),
        (''next_run_at'', JStr (ml_RFC3339 L nextRun)), (''next_runs'', JArr (map (\<lambda>r. JStr (ml_RFC3339 L r)) runs))])))"

definition handleResolveSchedule :: "mcp_lib \<Rightarrow> svc_env \<Rightarrow> ctx \<Rightarrow> tool_handler" where
  "handleResolveSchedule L e c args = require L args ''description'' (\<lambda>desc.
     served (\<lambda>db. (ResolveSchedule e desc (ml_GetString L (map_of args ''timezone'') ''UTC''), db)) (\<lambda>result. jsonResult L (JObj
       [(''cron_expression'', JStr (rr_CronExpression result)), (''description'', JStr (rr_Description result)),
        (''timezone'', JStr (rr_Timezone result)), (''next_runs'', JArr (map (\<lambda>r. JStr (ml_RFC3339 L r)) (rr_NextRuns result)))])))"

definition RegisterTools :: "mcp_lib \<Rightarrow> svc_env \<Rightarrow> ctx \<Rightarrow> (tool \<times> tool_handler) list" where
  "RegisterTools L e c =
     [(createJobTool, handleCreateJob L e c), (listJobsTool, handleListJobs L e c), (getJobTool, handleGetJob L e c),
      (updateJobTool, handleUpdateJob L e c), (deleteJobTool, handleDeleteJob L e c), (pauseJobTool, handlePauseJob L e c),
      (resumeJobTool, handleResumeJob L e c), (triggerJobTool, handleTriggerJob L e c), (nextRunTool, handleNextRun L e c),
      (resolveScheduleTool, handleResolveSchedule L e c)]"

lemmas tool_defs = createJobTool_def listJobsTool_def getJobTool_def updateJobTool_def deleteJobTool_def pauseJobTool_def
  resumeJobTool_def triggerJobTool_def nextRunTool_def resolveScheduleTool_def new_tool_def

lemmas tool_handler_defs = handleCreateJob_def handleListJobs_def handleGetJob_def handleUpdateJob_def handleDeleteJob_def
  handlePauseJob_def handleResumeJob_def handleTriggerJob_def handleNextRun_def handleResolveSchedule_def

section \<open>Refused calls\<close>

lemma snd_served [simp]: "snd (served p ok db) = snd (p db)"
  by (auto simp: served_def split: prod.split sum.split)

text \<open>A relation of the database before and after that holds of a refusal holds of the call if it does of what follows.\<close>

lemma argument_rel:
  assumes "R db"
  shows require_rel: "(\<And>s. R (snd (f s db))) \<Longrightarrow> R (snd (require L args k f db))"
    and require_id_rel: "(\<And>s i. R (snd (g s i db))) \<Longrightarrow> R (snd (require_id L args g db))"
    and optional_rel: "(\<And>s. R (snd (h s db))) \<Longrightarrow> R (snd (optional L args k h db))"
    and checked_rel: "(\<And>x. R (snd (q x db))) \<Longrightarrow> R (snd (checked r q db))"
  using assms by (auto simp: require_def require_id_def optional_def checked_def refuse_def split: sum.split option.split)

definition refused :: "tool_result \<times> db \<Rightarrow> db \<Rightarrow> bool" where
  "refused r db \<longleftrightarrow> (\<exists>m. r = (ToolError m, db))"

lemma argument_refused:
  shows require_refused: "(\<And>s. ml_RequireString L k (map_of args k) = Inr s \<Longrightarrow> refused (f s db) db) \<Longrightarrow> refused (require L args k f db) db"
    and require_id_refused: "(\<And>s i. ml_RequireString L ''id'' (map_of args ''id'') = Inr s \<Longrightarrow> refused (g s i db) db)
      \<Longrightarrow> refused (require_id L args g db) db"
    and optional_refused: "(\<And>s. refused (h s db) db) \<Longrightarrow> refused (optional L args k h db) db"
    and checked_refused: "(\<And>x. r = Inr x \<Longrightarrow> refused (q x db) db) \<Longrightarrow> refused (checked r q db) db"
  by (auto simp: require_def require_id_def optional_def checked_def refuse_def refused_def split: sum.split option.split)

lemma int64_id: "0 \<le> n \<Longrightarrow> n < 2 ^ 63 \<Longrightarrow> int64 n = n"
  unfolding int64_def by (rule signed_take_bit_int_eq_self) (rule order_trans [of _ 0], simp_all)

lemma webhookTimeout_exact:
  assumes "webhookTimeout L args = Inr d" "map_of args ''webhook_timeout_seconds'' = Some v"
  shows "\<exists>q. ml_RequireFloat L ''webhook_timeout_seconds'' (Some v) = Inr (Finite q) \<and> 0 \<le> q \<and> d = \<lfloor>q\<rfloor> * Second \<and> 0 \<le> d \<and> d < 2 ^ 63"
proof -
  from assms obtain q where q: "ml_RequireFloat L ''webhook_timeout_seconds'' (Some v) = Inr (Finite q)" "0 \<le> q" "q \<le> of_int ((2 ^ 63 - 1) div Second)"
    "d = int64 (int64 \<lfloor>q\<rfloor> * Second)"
    by (auto simp: webhookTimeout_def Let_def not_less split: sum.splits number.splits if_splits)
  have f: "0 \<le> \<lfloor>q\<rfloor>" "\<lfloor>q\<rfloor> \<le> 9223372036" using q(2) floor_mono [OF q(3)] by simp_all
  have "\<lfloor>q\<rfloor> * Second \<le> 9223372036 * Second" using f(2) by (rule mult_right_mono) simp
  also have "\<dots> < 2 ^ 63" by simp
  finally have small: "\<lfloor>q\<rfloor> * Second < 2 ^ 63" .
  have "\<lfloor>q\<rfloor> < 2 ^ 63" by (rule le_less_trans [OF f(2)]) simp
  then have "int64 \<lfloor>q\<rfloor> = \<lfloor>q\<rfloor>" using f(1) by (intro int64_id) simp_all
  moreover have "int64 (\<lfloor>q\<rfloor> * Second) = \<lfloor>q\<rfloor> * Second" using f(1) by (intro int64_id small) simp
  ultimately have "d = \<lfloor>q\<rfloor> * Second" using q(4) by simp
  then show ?thesis using f(1) q(1,2) small by auto
qed

lemma string_tags_Inr: "string_tags L m = Inr ts \<Longrightarrow> \<exists>kvs. m = map (\<lambda>(k, s). (k, JStr s)) kvs \<and> ts = map (\<lambda>(k, s). \<lparr>tag_Key = k, tag_Value = s\<rparr>) kvs"
proof (induction m arbitrary: ts)
  case (Cons kv m)
  obtain k v where kv: "kv = (k, v)" by fastforce
  from Cons.prems obtain s ts' where s: "v = JStr s" "string_tags L m = Inr ts'" "ts = \<lparr>tag_Key = k, tag_Value = s\<rparr> # ts'"
    by (auto simp: kv split: json.splits sum.splits)
  from Cons.IH [OF s(2)] obtain kvs where "m = map (\<lambda>(k, s). (k, JStr s)) kvs" "ts' = map (\<lambda>(k, s). \<lparr>tag_Key = k, tag_Value = s\<rparr>) kvs" by blast
  then show ?case by (intro exI [of _ "(k, s) # kvs"]) (simp add: kv s)
qed simp

text \<open>An argument the handlers of \<open>create-job\<close> and \<open>update-job\<close> have to accept before they call the service.\<close>

definition acceptable_timeout :: "number \<Rightarrow> bool" where
  "acceptable_timeout n = (case n of Finite q \<Rightarrow> 0 \<le> q \<and> q \<le> 9223372036 | _ \<Rightarrow> False)"

fun is_string :: "json \<Rightarrow> bool" where
  "is_string (JStr s) = True"
| "is_string _ = False"

fun tag_object :: "json \<Rightarrow> bool" where
  "tag_object JNull = True"
| "tag_object (JObj m) = list_all (\<lambda>(k, v). is_string v) m"
| "tag_object _ = False"

lemma webhookTimeout_acceptable:
  assumes "webhookTimeout L args = Inr d" "map_of args ''webhook_timeout_seconds'' = Some v"
  shows "\<exists>n. ml_RequireFloat L ''webhook_timeout_seconds'' (Some v) = Inr n \<and> acceptable_timeout n"
  using assms by (auto simp: webhookTimeout_def Let_def acceptable_timeout_def not_less split: sum.splits number.splits if_splits)

lemma parseTags_object: "parseTags L (Some v) = Inr ts \<Longrightarrow> tag_object v"
  by (auto simp: parseTags_def list_all_iff dest!: string_tags_Inr split: json.splits)

text \<open>An argument that does not fit the declaration of its parameter.\<close>

definition bad_argument :: "mcp_lib \<Rightarrow> arguments \<Rightarrow> string \<times> param_type \<times> bool \<Rightarrow> bool" where
  "bad_argument L args p =
     (case p of (k, ty, required) \<Rightarrow> (case ty of
        PString \<Rightarrow> required \<and> isl (ml_RequireString L k (map_of args k))
      | PNumber \<Rightarrow> (case map_of args k of None \<Rightarrow> False | Some v \<Rightarrow>
          (case ml_RequireFloat L k (Some v) of Inl _ \<Rightarrow> True | Inr n \<Rightarrow> \<not> acceptable_timeout n))
      | PBoolean \<Rightarrow> False
      | PObject \<Rightarrow> (case map_of args k of None \<Rightarrow> False | Some v \<Rightarrow> \<not> tag_object v)))"

section \<open>What the declarations promise\<close>

lemma registered:
  assumes "(t, h) \<in> set (RegisterTools L e c)"
  obtains "t = createJobTool" "h = handleCreateJob L e c" | "t = listJobsTool" "h = handleListJobs L e c"
    | "t = getJobTool" "h = handleGetJob L e c" | "t = updateJobTool" "h = handleUpdateJob L e c"
    | "t = deleteJobTool" "h = handleDeleteJob L e c" | "t = pauseJobTool" "h = handlePauseJob L e c"
    | "t = resumeJobTool" "h = handleResumeJob L e c" | "t = triggerJobTool" "h = handleTriggerJob L e c"
    | "t = nextRunTool" "h = handleNextRun L e c" | "t = resolveScheduleTool" "h = handleResolveSchedule L e c"
  using assms by (auto simp: RegisterTools_def)

lemma bad_argument_refused:
  assumes "(t, h) \<in> set (RegisterTools L e c)" "list_ex (bad_argument L args) (tl_params t)"
  shows "refused (h args db) db"
proof -
  have timeout: "bad_argument L args (''webhook_timeout_seconds'', PNumber, False) \<Longrightarrow> isl (webhookTimeout L args)"
    using webhookTimeout_acceptable [of L args]
    by (cases "webhookTimeout L args") (fastforce simp: bad_argument_def split: option.splits sum.splits)+
  have tags: "bad_argument L args (''tags'', PObject, False) \<Longrightarrow> isl (parseTags L (map_of args ''tags''))"
    using parseTags_object [of L] by (cases "parseTags L (map_of args ''tags'')") (auto simp: bad_argument_def split: option.splits)
  have string: "bad_argument L args (k, PString, r) \<Longrightarrow> r \<and> isl (ml_RequireString L k (map_of args k))" for k r
    by (simp add: bad_argument_def)
  from assms(1) show ?thesis
  proof (cases rule: registered)
    case 1
    with assms(2) show ?thesis by (auto simp: tool_defs handleCreateJob_def dest!: timeout tags string intro!: argument_refused)
  next
    case 2
    with assms(2) show ?thesis by (auto simp: tool_defs bad_argument_def)
  next
    case 4
    with assms(2) show ?thesis
      by (auto simp: tool_defs handleUpdateJob_def bad_argument_def [of L args "(''enabled'', PBoolean, False)"]
          dest!: timeout tags string intro!: argument_refused)
  qed (use assms(2) in \<open>auto simp: tool_defs tool_handler_defs dest!: string intro!: argument_refused\<close>)
qed

lemma read_only_unchanged:
  assumes "(t, h) \<in> set (RegisterTools L e c)" "tl_readOnly t" "alone e"
  shows "snd (h args db) = db"
  using assms(1)
proof (cases rule: registered)
  case 9
  then show ?thesis using assms(3) by (auto simp: handleNextRun_def intro!: require_id_rel [where R = "\<lambda>d. d = db"])
next
  case 10
  then show ?thesis by (auto simp: handleResolveSchedule_def intro!: require_rel [where R = "\<lambda>d. d = db"])
qed (use assms(2) in \<open>simp_all add: tool_defs\<close>)

lemma tools_isolated:
  assumes "alone e" "NamespaceFromContext c \<noteq> other" "(t, h) \<in> set (RegisterTools L e c)"
  shows "isolated other db (snd (h args db))"
proof -
  note serve = serve_isolated [OF assms(1,2), of db]
  note through = argument_rel [where R = "isolated other db", OF iso.refl]
  from assms(3) show ?thesis
  proof (cases rule: registered)
    case 1
    then show ?thesis using serve [of "ReqCreateJob _"] by (auto simp: handleCreateJob_def intro!: through)
  next
    case 4
    then show ?thesis using serve [of "ReqUpdateJob _ _"] by (auto simp: handleUpdateJob_def intro!: through)
  next
    case 5
    then show ?thesis using serve [of "ReqDeleteJob _"] by (auto simp: handleDeleteJob_def intro!: through)
  next
    case 6
    then show ?thesis using serve [of "ReqPauseJob _"] by (auto simp: handlePauseJob_def intro!: through)
  next
    case 7
    then show ?thesis using serve [of "ReqResumeJob _"] by (auto simp: handleResumeJob_def intro!: through)
  next
    case 8
    then show ?thesis using serve [of "ReqTriggerNow _"] by (auto simp: handleTriggerJob_def intro!: through)
  qed (use assms(1) in \<open>auto simp: handleListJobs_def handleGetJob_def handleNextRun_def handleResolveSchedule_def iso.refl intro!: through\<close>)
qed


definition sample_lib :: mcp_lib where
  "sample_lib = \<lparr>ml_RequireString = (\<lambda>k v. case v of Some (JStr s) \<Rightarrow> Inr s | _ \<Rightarrow> Inl (ErrorMsg k)),
     ml_GetString = (\<lambda>v d. case v of Some (JStr s) \<Rightarrow> s | _ \<Rightarrow> d),
     ml_RequireFloat = (\<lambda>k v. case v of Some (JNum n) \<Rightarrow> Inr n | _ \<Rightarrow> Inl (ErrorMsg k)),
     ml_GetBool = (\<lambda>v d. case v of Some (JBool b) \<Rightarrow> b | _ \<Rightarrow> d),
     ml_Parse = (\<lambda>s. if s = [] then Inl (ErrorMsg s) else Inr (of_nat (read_decimal s))),
     ml_String = (\<lambda>i. decimal (unat i)), ml_RFC3339 = (\<lambda>t. []), ml_quote = (\<lambda>s. s), ml_MarshalIndent = (\<lambda>v. Inr [])\<rparr>"

definition sample_arguments :: arguments where
  "sample_arguments = [(''id'', JStr ''1''), (''name'', JStr ''renamed''), (''tags'', JObj [(''env'', JBool True)])]"


section \<open>Calls from the network\<close>

text \<open>
  A request to the transport: while the server shuts down it is turned away, otherwise the chain decides
  in whose namespace the tool runs. The library looks up the called tool among the registered ones.
\<close>

record incoming = arrival +
  in_closing :: bool
  in_tool :: string
  in_args :: arguments
  in_lookup2 :: "string \<Rightarrow> APIKey result"
  in_times :: "time \<times> time"

definition call_tool :: "mcp_lib \<Rightarrow> svc_env \<Rightarrow> ctx \<Rightarrow> string \<Rightarrow> tool_handler" where
  "call_tool L e c name args db =
     (case find (\<lambda>(t, h). tl_name t = name) (RegisterTools L e c) of
        None \<Rightarrow> (ToolError (''unknown tool '' @ name), db)
      | Some (t, h) \<Rightarrow> h args db)"

definition mcp_serve :: "server \<Rightarrow> mcp_lib \<Rightarrow> incoming \<Rightarrow> (ipRateLimiter \<times> namespaceRateLimiter) \<times> db
    \<Rightarrow> (int \<times> string + tool_result) \<times> (ipRateLimiter \<times> namespaceRateLimiter) \<times> db" where
  "mcp_serve srv L a s =
     (case (s, in_times a) of (((li, lns), db), (t1, t2)) \<Rightarrow>
        if in_closing a then (Inl (503, ''server shutting down''), (li, lns), db)
        else case mcp_chain (sr_hash srv) (ar_lookup a) (in_lookup2 a) (sr_fallback srv) t1 t2 (ar_request a) li lns of
          (Reply st m, li, lns) \<Rightarrow> (Inl (st, m), (li, lns), db)
        | (Next r, li, lns) \<Rightarrow>
            (case call_tool L (be_svc (ar_backend a)) (rq_ctx r) (in_tool a) (in_args a) db of (res, db') \<Rightarrow> (Inr res, (li, lns), db')))"

lemma call_tool_isolated:
  assumes "alone e" "NamespaceFromContext c \<noteq> other"
  shows "isolated other db (snd (call_tool L e c name args db))"
proof (cases "find (\<lambda>(t, h). tl_name t = name) (RegisterTools L e c)")
  case None
  then show ?thesis by (simp add: call_tool_def iso.refl)
next
  case (Some th)
  obtain t h where th: "th = (t, h)" by fastforce
  with Some have "(t, h) \<in> set (RegisterTools L e c)" by (metis find_mem)
  from tools_isolated [OF assms this] show ?thesis by (simp add: call_tool_def Some th)
qed

lemma mcp_serve_isolated:
  assumes "alone (be_svc (ar_backend a))" "\<not> acts_for srv a other"
  shows "isolated other db (snd (snd (mcp_serve srv L a (ls, db))))"
proof -
  obtain li lns t1 t2 where l: "ls = (li, lns)" "in_times a = (t1, t2)" by fastforce
  obtain v li' lns' where chain: "mcp_chain (sr_hash srv) (ar_lookup a) (in_lookup2 a) (sr_fallback srv) t1 t2 (ar_request a) li lns
      = (v, li', lns')" by (metis prod_cases3)
  show ?thesis
  proof (cases v)
    case (Next r)
    obtain r1 ns where r1: "mcp_AuthMiddleware (sr_hash srv) (ar_lookup a) (sr_fallback srv) (ar_request a) = Some (r1, ns)"
      and r: "rq_ctx r = Some ns" using mcp_chain_Next [OF chain [unfolded Next]] .
    have "ns \<noteq> other" using r1 assms(2) by (auto simp: acts_for_def mcp_Auth_iff)
    then have "NamespaceFromContext (rq_ctx r) \<noteq> other" by (simp add: r NamespaceFromContext_def)
    from call_tool_isolated [OF assms(1) this]
    show ?thesis by (simp add: mcp_serve_def l chain Next case_prod_unfold iso.refl)
  qed (simp add: mcp_serve_def l chain iso.refl)
qed

end
