(* ===== verification/LeaderElection.thy ===== *)
theory LeaderElection
  imports Domain
begin

text \<open>
  Leader election over a PostgreSQL advisory lock (\<^verbatim>\<open>internal/leaderelection/leader.go\<close>). An elector is the
  loop of \<open>Run\<close> with \<open>runOnce\<close> and \<open>holdLock\<close> inlined, cut at the calls that block; a step takes the
  answer of the call the elector is at, and yields the effects up to the next one. A cluster is any
  number of electors and the server's side: which session holds the lock, which sessions are alive and
  which are idle in the connection pool. A session that dies releases the lock, whether or not the
  elector on it has noticed; a lock query whose response is lost may have been granted. The metrics sink
  is one that is set.
\<close>

type_synonym session = nat

datatype place =
    AtRun
  | AtConn
  | AtKeepalive session nat
  | AtLock session
  | AtHold session
  | AtElected session string
  | AtDemote session string
  | AtWait
  | Stopped

text \<open>\<open>CtxDone\<close> is the cancellation of the elector's context; a failed ping says whether the context was done.\<close>

datatype answer =
    Go
  | CtxDone
  | Conn session
  | ConnErr
  | Exec bool
  | Locked bool
  | LockErr
  | Ping
  | PingErr bool
  | ElectedReturned
  | DemotedReturned
  | DemotedPanicked
  | RetryElapsed

datatype effect =
    SetKeepalive session string
  | TryLock session
  | StartElected
  | CancelLeader
  | CallOnDemoted
  | MetricStatus bool
  | MetricAcquired
  | MetricLost string
  | Discard session
  | Close session

definition keepalives :: "string list" where
  "keepalives = [''SET tcp_keepalives_idle = 5'', ''SET tcp_keepalives_interval = 5'', ''SET tcp_keepalives_count = 3'']"

text \<open>The deferred calls of \<open>runOnce\<close>, last one first: a session that may hold the lock is discarded, then closed.\<close>

definition leave :: "bool \<Rightarrow> session \<Rightarrow> effect list" where
  "leave discardSession s = (if discardSession then [Discard s] else []) @ [Close s]"

text \<open>What the loop of \<open>holdLock\<close> does at an event: go on, or return the reason the lock was lost.\<close>

definition holdLock :: "answer \<Rightarrow> string option option" where
  "holdLock a =
     (case a of
        CtxDone \<Rightarrow> Some (Some ''shutdown'')
      | Ping \<Rightarrow> Some None
      | PingErr ctxErr \<Rightarrow> Some (Some (if ctxErr then ''shutdown'' else ''conn_lost''))
      | _ \<Rightarrow> None)"

definition elector_step :: "place \<Rightarrow> answer \<Rightarrow> (effect list \<times> place) option" where
  "elector_step p a =
     (case p of
        AtRun \<Rightarrow> (case a of CtxDone \<Rightarrow> Some ([], Stopped) | Go \<Rightarrow> Some ([], AtConn) | _ \<Rightarrow> None)
      | AtConn \<Rightarrow> (case a of
          ConnErr \<Rightarrow> Some ([MetricLost ''error''], AtWait)
        | Conn s \<Rightarrow> Some ([SetKeepalive s (keepalives ! 0)], AtKeepalive s 0)
        | _ \<Rightarrow> None)
      | AtKeepalive s n \<Rightarrow> (case a of
          Exec ok \<Rightarrow> if Suc n < length keepalives then Some ([SetKeepalive s (keepalives ! Suc n)], AtKeepalive s (Suc n))
            else Some ([TryLock s], AtLock s)
        | _ \<Rightarrow> None)
      | AtLock s \<Rightarrow> (case a of
          LockErr \<Rightarrow> Some (MetricLost ''error'' # leave True s, AtWait)
        | Locked acquired \<Rightarrow> if acquired then Some ([MetricStatus True, MetricAcquired, StartElected], AtHold s)
            else Some (leave False s, AtWait)
        | _ \<Rightarrow> None)
      | AtHold s \<Rightarrow> (case holdLock a of
          Some (Some reason) \<Rightarrow> Some ([CancelLeader], AtElected s reason)
        | Some None \<Rightarrow> Some ([], AtHold s)
        | None \<Rightarrow> None)
      | AtElected s reason \<Rightarrow> (case a of ElectedReturned \<Rightarrow> Some ([CallOnDemoted], AtDemote s reason) | _ \<Rightarrow> None)
      | AtDemote s reason \<Rightarrow> (case a of
          DemotedReturned \<Rightarrow> Some ([MetricStatus False, MetricLost reason] @ leave True s, AtWait)
        | DemotedPanicked \<Rightarrow> Some ([MetricStatus False, MetricLost ''panic''] @ leave True s, AtWait)
        | _ \<Rightarrow> None)
      | AtWait \<Rightarrow> (case a of CtxDone \<Rightarrow> Some ([], Stopped) | RetryElapsed \<Rightarrow> Some ([], AtRun) | _ \<Rightarrow> None)
      | Stopped \<Rightarrow> None)"

declare holdLock_def [simp]

section \<open>Clusters\<close>

record cluster =
  cl_holder :: "session option"
  cl_dead :: "session set"
  cl_pool :: "session set"
  cl_place :: "nat \<Rightarrow> place"

text \<open>What the effects do to the sessions: a discarded one is closed for good, a closed one returns to the pool.\<close>

fun release :: "effect \<Rightarrow> cluster \<Rightarrow> cluster" where
  "release (Discard s) c = c\<lparr>cl_dead := insert s (cl_dead c), cl_holder := (if cl_holder c = Some s then None else cl_holder c)\<rparr>"
| "release (Close s) c = (if s \<in> cl_dead c then c else c\<lparr>cl_pool := insert s (cl_pool c)\<rparr>)"
| "release _ c = c"

text \<open>The session an elector is working on.\<close>

fun session_of :: "place \<Rightarrow> session option" where
  "session_of (AtKeepalive s n) = Some s"
| "session_of (AtLock s) = Some s"
| "session_of (AtHold s) = Some s"
| "session_of (AtElected s r) = Some s"
| "session_of (AtDemote s r) = Some s"
| "session_of _ = None"

text \<open>
  How the server answers. A connection is an idle one of the pool or a new one. The lock is granted if
  nobody holds it (or the session itself does) and the session is alive, and refused if another session
  holds it; if the response is lost it may have been granted.
\<close>

inductive answers :: "cluster \<Rightarrow> place \<Rightarrow> answer \<Rightarrow> cluster \<Rightarrow> bool" where
  conn: "s \<in> cl_pool c \<or> (\<forall>i. session_of (cl_place c i) \<noteq> Some s) \<and> cl_holder c \<noteq> Some s
    \<Longrightarrow> answers c AtConn (Conn s) (c\<lparr>cl_pool := cl_pool c - {s}\<rparr>)"
| granted: "cl_holder c = None \<or> cl_holder c = Some s \<Longrightarrow> s \<notin> cl_dead c
    \<Longrightarrow> answers c (AtLock s) (Locked True) (c\<lparr>cl_holder := Some s\<rparr>)"
| refused: "cl_holder c = Some s' \<Longrightarrow> s' \<noteq> s \<Longrightarrow> answers c (AtLock s) (Locked False) c"
| lost: "answers c (AtLock s) LockErr c"
| lost_granted: "cl_holder c = None \<Longrightarrow> s \<notin> cl_dead c \<Longrightarrow> answers c (AtLock s) LockErr (c\<lparr>cl_holder := Some s\<rparr>)"
| other: "(\<forall>s. p \<noteq> AtLock s) \<Longrightarrow> (\<forall>s. a \<noteq> Conn s) \<Longrightarrow> answers c p a c"

inductive cluster_step :: "cluster \<Rightarrow> cluster \<Rightarrow> bool" where
  elector: "answers c (cl_place c i) a c1 \<Longrightarrow> elector_step (cl_place c i) a = Some (fx, p)
    \<Longrightarrow> cluster_step c (fold release fx (c1\<lparr>cl_place := (cl_place c)(i := p)\<rparr>))"
| session_dies: "cluster_step c (c\<lparr>cl_dead := insert s (cl_dead c), cl_pool := cl_pool c - {s},
    cl_holder := (if cl_holder c = Some s then None else cl_holder c)\<rparr>)"

definition cluster_start :: cluster where
  "cluster_start = \<lparr>cl_holder = None, cl_dead = {}, cl_pool = {}, cl_place = (\<lambda>i. AtRun)\<rparr>"

text \<open>The elector's duties may be running.\<close>

definition on_duty :: "place \<Rightarrow> bool" where
  "on_duty p \<longleftrightarrow> (\<exists>s. p = AtHold s) \<or> (\<exists>s r. p = AtElected s r) \<or> (\<exists>s r. p = AtDemote s r)"

text \<open>
  No session is used twice or used and idle, the lock's holder is alive and is the session of an elector
  that waits for the lock's answer or is on duty, an elector on duty has the lock or a dead session.
\<close>

definition sessions_inv :: "session option \<Rightarrow> session set \<Rightarrow> session set \<Rightarrow> (nat \<Rightarrow> place) \<Rightarrow> bool" where
  "sessions_inv holder dead pool place \<longleftrightarrow>
     (\<forall>i j s. session_of (place i) = Some s \<and> session_of (place j) = Some s \<longrightarrow> i = j)
     \<and> (\<forall>i s. session_of (place i) = Some s \<longrightarrow> s \<notin> pool)
     \<and> (\<forall>s. holder = Some s \<longrightarrow> s \<notin> dead \<and> s \<notin> pool)
     \<and> (\<forall>s. holder = Some s \<longrightarrow> (\<exists>i. place i = AtLock s \<or> session_of (place i) = Some s \<and> on_duty (place i)))
     \<and> (\<forall>i s. on_duty (place i) \<and> session_of (place i) = Some s \<longrightarrow> s \<in> dead \<or> holder = Some s)"

definition cluster_inv :: "cluster \<Rightarrow> bool" where
  "cluster_inv c \<longleftrightarrow> sessions_inv (cl_holder c) (cl_dead c) (cl_pool c) (cl_place c)"

lemma on_duty_simps [simp]:
  "\<not> on_duty AtRun" "\<not> on_duty AtConn" "\<not> on_duty (AtKeepalive s n)" "\<not> on_duty (AtLock s)" "\<not> on_duty AtWait" "\<not> on_duty Stopped"
  "on_duty (AtHold s)" "on_duty (AtElected s r)" "on_duty (AtDemote s r)"
  by (auto simp: on_duty_def)

lemma session_AtLock: "p = AtLock s \<Longrightarrow> session_of p = Some s"
  by simp

lemma sessions_invI:
  assumes "\<And>i j s. session_of (place i) = Some s \<Longrightarrow> session_of (place j) = Some s \<Longrightarrow> i = j"
    and "\<And>i s. session_of (place i) = Some s \<Longrightarrow> s \<notin> pool"
    and "\<And>s. holder = Some s \<Longrightarrow> s \<notin> dead \<and> s \<notin> pool"
    and "\<And>s. holder = Some s \<Longrightarrow> \<exists>i. place i = AtLock s \<or> session_of (place i) = Some s \<and> on_duty (place i)"
    and "\<And>i s. on_duty (place i) \<Longrightarrow> session_of (place i) = Some s \<Longrightarrow> s \<in> dead \<or> holder = Some s"
  shows "sessions_inv holder dead pool place"
  unfolding sessions_inv_def
  by (intro conjI allI impI) (use assms in \<open>blast+\<close>)

lemma sessions_invD:
  assumes "sessions_inv holder dead pool place"
  shows one_session: "session_of (place i) = Some s \<Longrightarrow> session_of (place j) = Some s \<Longrightarrow> i = j"
    and used_not_idle: "session_of (place i) = Some s \<Longrightarrow> s \<notin> pool"
    and holder_alive: "holder = Some s \<Longrightarrow> s \<notin> dead \<and> s \<notin> pool"
    and holder_held: "holder = Some s \<Longrightarrow> \<exists>i. place i = AtLock s \<or> session_of (place i) = Some s \<and> on_duty (place i)"
    and duty_holds: "on_duty (place i) \<Longrightarrow> session_of (place i) = Some s \<Longrightarrow> s \<in> dead \<or> holder = Some s"
  using assms unfolding sessions_inv_def by simp_all

text \<open>An elector other than the one that moves keeps the lock it has.\<close>

lemma held_elsewhere:
  assumes "sessions_inv holder dead pool place" "holder = Some h" "session_of (place i) \<noteq> Some h"
  shows "\<exists>j. (place(i := p)) j = AtLock h \<or> session_of ((place(i := p)) j) = Some h \<and> on_duty ((place(i := p)) j)"
proof -
  from holder_held [OF assms(1,2)] obtain j where j: "place j = AtLock h \<or> session_of (place j) = Some h \<and> on_duty (place j)"
    by blast
  then have "j \<noteq> i" using assms(3) by auto
  then have "(place(i := p)) j = place j" by simp
  with j show ?thesis by metis
qed

lemma inv_goes_on:
  assumes inv: "sessions_inv holder dead pool place"
    and i: "session_of p = session_of (place i)" "on_duty p = on_duty (place i)" "\<forall>s. place i \<noteq> AtLock s"
  shows "sessions_inv holder dead pool (place(i := p))"
proof -
  have ses: "session_of ((place(i := p)) j) = session_of (place j)" and duty: "on_duty ((place(i := p)) j) = on_duty (place j)" for j
    using i(1,2) by simp_all
  have "place j = AtLock s \<Longrightarrow> (place(i := p)) j = AtLock s" for j s using i(3) by auto
  then have "\<exists>j. (place(i := p)) j = AtLock h \<or> session_of (place j) = Some h \<and> on_duty (place j)" if "holder = Some h" for h
    using holder_held [OF inv that] by blast
  then show ?thesis using sessions_invD [OF inv] by (intro sessions_invI) (auto simp only: ses duty)
qed

lemma inv_discard:
  assumes inv: "sessions_inv holder dead pool place" and i: "session_of (place i) = Some s" "session_of p = None" "\<not> on_duty p"
    and holder: "holder' = (if holder = Some s then None else holder)"
  shows "sessions_inv holder' (insert s dead) pool (place(i := p))"
proof -
  have ses: "session_of ((place(i := p)) j) = Some t \<longleftrightarrow> j \<noteq> i \<and> session_of (place j) = Some t" for j t using i by simp
  have duty: "on_duty ((place(i := p)) j) \<longleftrightarrow> j \<noteq> i \<and> on_duty (place j)" for j using i by simp
  have h: "holder' = Some h \<longleftrightarrow> holder = Some h \<and> h \<noteq> s" for h using holder by auto
  have "\<exists>j. (place(i := p)) j = AtLock h \<or> session_of ((place(i := p)) j) = Some h \<and> on_duty ((place(i := p)) j)"
    if "holder' = Some h" for h
    using held_elsewhere [OF inv, of h i p] that i(1) by (auto simp: h)
  then show ?thesis
    using sessions_invD [OF inv] by (intro sessions_invI) (simp_all only: ses duty h, (blast | auto)+)
qed

lemma inv_return:
  assumes inv: "sessions_inv holder dead pool place" and i: "place i = AtLock s" "session_of p = None" "\<not> on_duty p"
    and holder: "holder = Some h" "h \<noteq> s" and pool: "pool' = pool \<or> pool' = insert s pool"
  shows "sessions_inv holder dead pool' (place(i := p))"
proof -
  have ses: "session_of ((place(i := p)) j) = Some t \<longleftrightarrow> j \<noteq> i \<and> session_of (place j) = Some t" for j t using i by simp
  have duty: "on_duty ((place(i := p)) j) \<longleftrightarrow> j \<noteq> i \<and> on_duty (place j)" for j using i by simp
  have at: "session_of (place i) = Some s" by (simp add: i)
  have "\<exists>j. (place(i := p)) j = AtLock t \<or> session_of ((place(i := p)) j) = Some t \<and> on_duty ((place(i := p)) j)"
    if "holder = Some t" for t
    using held_elsewhere [OF inv that, of i p] that holder at by simp
  moreover have "j = i" if "session_of (place j) = Some s" for j using one_session [OF inv that at] .
  ultimately show ?thesis
    using sessions_invD [OF inv] pool holder by (intro sessions_invI) (simp_all only: ses duty, (blast | auto)+)
qed

lemma inv_take:
  assumes inv: "sessions_inv holder dead pool place" and i: "session_of (place i) = None" "\<not> on_duty (place i)"
    and s: "s \<in> pool \<or> (\<forall>i. session_of (place i) \<noteq> Some s) \<and> holder \<noteq> Some s"
  shows "sessions_inv holder dead (pool - {s}) (place(i := AtKeepalive s n))"
proof -
  have free: "session_of (place j) \<noteq> Some s" for j using s used_not_idle [OF inv, of j s] by blast
  have h: "holder \<noteq> Some s" using s holder_alive [OF inv, of s] by blast
  let ?q = "AtKeepalive s n"
  have ses: "session_of ((place(i := ?q)) j) = Some t \<longleftrightarrow> (if j = i then t = s else session_of (place j) = Some t)" for j t
    by auto
  have duty: "on_duty ((place(i := ?q)) j) \<longleftrightarrow> j \<noteq> i \<and> on_duty (place j)" for j using i by simp
  have "\<exists>j. (place(i := ?q)) j = AtLock t \<or> session_of ((place(i := ?q)) j) = Some t \<and> on_duty ((place(i := ?q)) j)"
    if "holder = Some t" for t
    using held_elsewhere [OF inv that, of i ?q] i by simp
  then show ?thesis
    using sessions_invD [OF inv] free h i by (intro sessions_invI) (simp_all only: ses duty split: if_splits, (blast | auto)+)
qed

lemma inv_grant:
  assumes inv: "sessions_inv holder dead pool place" and i: "place i = AtLock s"
    and s: "holder = None \<or> holder = Some s" "s \<notin> dead"
  shows "sessions_inv (Some s) dead pool (place(i := AtHold s))"
proof -
  have at: "session_of (place i) = Some s" by (simp add: i)
  have ses: "session_of ((place(i := AtHold s)) j) = session_of (place j)" for j using i by simp
  have duty: "on_duty ((place(i := AtHold s)) j) \<longleftrightarrow> j = i \<or> on_duty (place j)" for j by simp
  have "s \<notin> pool" using used_not_idle [OF inv at] .
  moreover have "t \<in> dead \<or> Some s = Some t" if "j = i \<or> on_duty (place j)" "session_of (place j) = Some t" for j t
    using that duty_holds [OF inv, of j t] at s by auto
  moreover have "\<exists>j. (place(i := AtHold s)) j = AtLock t \<or> session_of (place j) = Some t \<and> (j = i \<or> on_duty (place j))"
    if "Some s = Some t" for t
    using that at by blast
  ultimately show ?thesis
    using one_session [OF inv] used_not_idle [OF inv] s by (intro sessions_invI) (simp_all only: ses duty, (blast | auto)+)
qed

lemma inv_dies:
  assumes "sessions_inv holder dead pool place"
  shows "sessions_inv (if holder = Some s then None else holder) (insert s dead) (pool - {s}) place"
  using assms unfolding sessions_inv_def by auto

section \<open>Steps keep the invariant\<close>

lemma fold_leave [simp]:
  "fold release (leave True s) c = c\<lparr>cl_dead := insert s (cl_dead c), cl_holder := (if cl_holder c = Some s then None else cl_holder c)\<rparr>"
  "fold release (leave False s) c = (if s \<in> cl_dead c then c else c\<lparr>cl_pool := insert s (cl_pool c)\<rparr>)"
  by (simp_all add: leave_def)

inductive_cases answersE: "answers c p a c'"

lemma cluster_inv_step:
  assumes "cluster_step c c'" "cluster_inv c"
  shows "cluster_inv c'"
  using assms(1)
proof cases
  case (session_dies s)
  then show ?thesis using inv_dies [OF assms(2) [unfolded cluster_inv_def], of s] by (simp add: cluster_inv_def)
next
  case (elector i a c1 fx p)
  note inv = assms(2) [unfolded cluster_inv_def]
  show ?thesis
  proof (cases "\<exists>s. cl_place c i = AtLock s")
    case True
    then obtain s where s: "cl_place c i = AtLock s" by blast
    have ses: "session_of (cl_place c i) = Some s" by (simp add: s)
    from elector(2) show ?thesis
    proof cases
      case (granted s')
      with s have a: "a = Locked True" "cl_holder c = None \<or> cl_holder c = Some s" "s \<notin> cl_dead c" and c1: "c1 = c\<lparr>cl_holder := Some s\<rparr>"
        by simp_all
      from elector(3) have "fold release fx c2 = c2" "p = AtHold s" for c2 by (auto simp: elector_step_def s a(1))
      then show ?thesis using elector(1) inv_grant [OF inv s a(2,3)] by (simp add: cluster_inv_def c1)
    next
      case (refused s' s'')
      with s have a: "a = Locked False" "cl_holder c = Some s'" "s' \<noteq> s" and c1: "c1 = c" by simp_all
      from elector(3) have "fx = leave False s" "p = AtWait" by (auto simp: elector_step_def s a(1))
      then show ?thesis using elector(1) inv_return [OF inv s, of AtWait s'] a by (simp add: cluster_inv_def c1)
    next
      case (lost s')
      from elector(3) have "fx = MetricLost ''error'' # leave True s" "p = AtWait" by (auto simp: elector_step_def s lost)
      then show ?thesis using elector(1) inv_discard [OF inv ses, of AtWait] by (simp add: cluster_inv_def lost split: if_splits)
    next
      case (lost_granted s')
      from elector(3) have "fx = MetricLost ''error'' # leave True s" "p = AtWait" by (auto simp: elector_step_def s lost_granted)
      then show ?thesis
        using elector(1) s inv_discard [OF inv ses, of AtWait None] lost_granted by (simp add: cluster_inv_def)
    qed (use s in auto)
  next
    case nolock: False
    show ?thesis
    proof (cases "\<exists>s. a = Conn s")
      case True
      then obtain s where a: "a = Conn s" by blast
      with elector nolock have at: "cl_place c i = AtConn" by (auto simp: elector_step_def split: place.splits)
      from elector(2) have "s \<in> cl_pool c \<or> (\<forall>i. session_of (cl_place c i) \<noteq> Some s) \<and> cl_holder c \<noteq> Some s"
        "c1 = c\<lparr>cl_pool := cl_pool c - {s}\<rparr>" unfolding a at by (auto elim: answersE)
      moreover from elector(3) have "fx = [SetKeepalive s (keepalives ! 0)]" "p = AtKeepalive s 0" by (auto simp: elector_step_def a at)
      ultimately show ?thesis using elector(1) inv_take [OF inv, of i s] by (simp add: cluster_inv_def at)
    next
      case False
      with nolock elector(2) have c1: "c1 = c" by (auto elim: answersE)
      show ?thesis
      proof (cases "\<exists>s r. cl_place c i = AtDemote s r")
        case True
        then obtain s r where d: "cl_place c i = AtDemote s r" by blast
        then have "session_of (cl_place c i) = Some s" by simp
        from inv_discard [OF inv this, of AtWait] elector d show ?thesis
          by (auto simp: cluster_inv_def elector_step_def c1 split: answer.splits)
      next
        case nodemote: False
        have "session_of p = session_of (cl_place c i)" "on_duty p = on_duty (cl_place c i)"
          "fold release fx c2 = c2" for c2
          using elector(3) nolock nodemote False
          by (cases "cl_place c i"; auto simp: elector_step_def split: answer.splits if_splits)+
        then show ?thesis using inv_goes_on [OF inv, of p i] nolock elector(1) by (simp add: cluster_inv_def c1)
      qed
    qed
  qed
qed

lemma cluster_reachable: "cluster_step\<^sup>*\<^sup>* cluster_start c \<Longrightarrow> cluster_inv c"
proof (induction rule: rtranclp_induct)
  case base
  show ?case by (simp add: cluster_start_def cluster_inv_def sessions_inv_def)
qed (rule cluster_inv_step)

section \<open>Acquiring the lock\<close>

lemma elector_moves:
  assumes "answers c (cl_place c i) a c1" "elector_step (cl_place c i) a = Some (fx, p)"
    and "c' = fold release fx (c1\<lparr>cl_place := (cl_place c)(i := p)\<rparr>)"
  shows "cluster_step c c'"
  using cluster_step.elector [OF assms(1,2)] assms(3) by simp

text \<open>An elector that starts over gets a new connection, sets its keepalives and is granted a free lock.\<close>

lemma elector_acquires:
  assumes "cl_place c i = AtRun" "cl_holder c = None" "s \<notin> cl_dead c" "s \<notin> cl_pool c" "\<And>j. session_of (cl_place c j) \<noteq> Some s"
  shows "cluster_step\<^sup>*\<^sup>* c (c\<lparr>cl_holder := Some s, cl_place := (cl_place c)(i := AtHold s)\<rparr>)"
proof -
  define at where "at p = c\<lparr>cl_place := (cl_place c)(i := p)\<rparr>" for p
  have steps: "cluster_step (at p) (at q)"
    if "answers (at p) p a (at p)" "elector_step p a = Some (fx, q)" "fold release fx = id" for p q a fx
    using elector_moves [of "at p" i a "at p" fx q "at q"] that by (simp add: at_def)
  have "at AtRun = c" using assms(1) by (simp add: at_def fun_upd_idem)
  moreover have "cluster_step (at AtRun) (at AtConn)"
    by (rule steps [of AtRun Go]) (auto simp: elector_step_def intro: answers.other)
  moreover have "answers (at AtConn) AtConn (Conn s) (at AtConn)"
    using answers.conn [of s "at AtConn"] assms by (auto simp: at_def)
  then have "cluster_step (at AtConn) (at (AtKeepalive s 0))"
    by (rule steps) (auto simp: elector_step_def fun_eq_iff)
  moreover have "cluster_step (at (AtKeepalive s 0)) (at (AtKeepalive s 1))"
    by (rule steps [of _ "Exec True"]) (auto simp: elector_step_def keepalives_def fun_eq_iff intro: answers.other)
  moreover have "cluster_step (at (AtKeepalive s 1)) (at (AtKeepalive s 2))"
    by (rule steps [of _ "Exec True"]) (auto simp: elector_step_def keepalives_def fun_eq_iff intro: answers.other)
  moreover have "cluster_step (at (AtKeepalive s 2)) (at (AtLock s))"
    by (rule steps [of _ "Exec True"]) (auto simp: elector_step_def keepalives_def fun_eq_iff intro: answers.other)
  moreover have "answers (at (AtLock s)) (AtLock s) (Locked True) ((at (AtLock s))\<lparr>cl_holder := Some s\<rparr>)"
    using answers.granted [of "at (AtLock s)" s] assms by (simp add: at_def)
  then have "cluster_step (at (AtLock s)) (c\<lparr>cl_holder := Some s, cl_place := (cl_place c)(i := AtHold s)\<rparr>)"
    by (intro elector_moves [of "at (AtLock s)" i "Locked True"]) (auto simp: elector_step_def at_def)
  ultimately show ?thesis by (metis converse_rtranclp_into_rtranclp rtranclp.rtrancl_refl)
qed

section \<open>One leader\<close>

text \<open>
  C16: One leader per live session. In every state any cluster of electors can reach, with sessions dying
  and lock responses getting lost at any time, of two different electors whose duties may be running at
  least one has a session the server has already dropped, so only one of them holds the lock.
\<close>

theorem one_leader:
  assumes "cluster_step\<^sup>*\<^sup>* cluster_start c" "on_duty (cl_place c i)" "on_duty (cl_place c j)" "i \<noteq> j"
    and "session_of (cl_place c i) = Some s" "session_of (cl_place c j) = Some s'"
  shows "s \<in> cl_dead c \<or> s' \<in> cl_dead c"
  using cluster_reachable [OF assms(1)] assms(2-) unfolding cluster_inv_def sessions_inv_def by (metis option.inject)

text \<open>
  Two replicas, on sessions 4 and 5: the first acquires the lock, its session dies before it notices, and
  the second acquires the lock. Then the first still has its duties, with a dead session.
\<close>

definition two_leaders :: cluster where
  "two_leaders = \<lparr>cl_holder = Some 5, cl_dead = {4}, cl_pool = {},
     cl_place = (\<lambda>i. AtRun)(0 := AtHold 4, 1 := AtHold 5)\<rparr>"

lemma two_leaders_reached: "cluster_step\<^sup>*\<^sup>* cluster_start two_leaders"
proof -
  define led where "led h = \<lparr>cl_holder = h, cl_dead = {}, cl_pool = {}, cl_place = (\<lambda>i. AtRun)(0 := AtHold 4)\<rparr>" for h :: "session option"
  define died where "died = (led None)\<lparr>cl_dead := {4}\<rparr>"
  have "cluster_step\<^sup>*\<^sup>* cluster_start (led (Some 4))"
    using elector_acquires [of cluster_start 0 4] by (simp add: cluster_start_def led_def)
  moreover have "cluster_step (led (Some 4)) died"
    using session_dies [of "led (Some 4)" 4] by (simp add: led_def died_def)
  moreover have "cluster_step\<^sup>*\<^sup>* died two_leaders"
    using elector_acquires [of died 1 5] by (simp add: led_def died_def two_leaders_def)
  ultimately show ?thesis by (meson rtranclp.rtrancl_into_rtrancl rtranclp_trans)
qed

theorem one_leader_witness:
  "on_duty (cl_place two_leaders 0) \<and> on_duty (cl_place two_leaders 1)
     \<and> ((4 :: session) \<in> cl_dead two_leaders \<or> (5 :: session) \<in> cl_dead two_leaders)"
  using one_leader [OF two_leaders_reached, of 0 1 4 5] by (simp add: two_leaders_def)



end
