(* ===== verification/CronDescribe.thy ===== *)
theory CronDescribe
  imports Domain GoText
begin

text \<open>
  The wrapper of the cron parser (\<^verbatim>\<open>internal/cron/parser.go\<close>) and the description of schedules in words
  (\<^verbatim>\<open>internal/cron/description.go\<close>). The cron library is an argument: it turns an expression into the bit masks
  of a schedule, into some other schedule, or fails.
\<close>

unbundle bit_operations_syntax

section \<open>The parser\<close>

record 'loc SpecSchedule =
  sp_Minute :: "64 word"
  sp_Hour :: "64 word"
  sp_Dom :: "64 word"
  sp_Month :: "64 word"
  sp_Dow :: "64 word"
  sp_Location :: 'loc

definition has_zone_prefix :: "string \<Rightarrow> bool" where
  "has_zone_prefix e \<longleftrightarrow> HasPrefix e ''TZ='' \<or> HasPrefix e ''CRON_TZ=''"

definition parseSpec :: "(string \<Rightarrow> 'a result) \<Rightarrow> string \<Rightarrow> 'a result" where
  "parseSpec lib expression =
     (if has_zone_prefix expression \<and> IndexByte expression CHR '' '' \<le> IndexByte expression CHR ''='' + 1
      then Inl (ErrorMsg ''invalid cron timezone prefix'')
      else lib expression)"

definition Parse :: "(string \<Rightarrow> 'a result) \<Rightarrow> (string \<Rightarrow> 'z result) \<Rightarrow> string \<Rightarrow> string \<Rightarrow> ('a \<times> 'z) result" where
  "Parse lib loadLocation expression timezone =
     (case parseSpec lib expression of
        Inl er \<Rightarrow> Inl (Wrapped ''parse cron: '' er)
      | Inr sched \<Rightarrow> (case loadLocation timezone of
          Inl er \<Rightarrow> Inl (Wrapped ''load timezone: '' er)
        | Inr loc \<Rightarrow> Inr (sched, loc)))"

section \<open>Fields\<close>

definition fieldValues :: "64 word \<Rightarrow> nat \<Rightarrow> nat \<Rightarrow> nat list" where
  "fieldValues m lo hi = filter (\<lambda>n. m AND push_bit n 1 \<noteq> 0) [lo..<Suc hi]"

definition regularStep :: "nat list \<Rightarrow> nat \<Rightarrow> nat" where
  "regularStep vs n =
     (if length vs < 2 \<or> vs ! 0 \<noteq> 0 then 0
      else let step = vs ! 1
           in if n mod step \<noteq> 0 \<or> length vs \<noteq> n div step then 0
              else if list_all (\<lambda>i. vs ! i = i * step) [0..<length vs] then step else 0)"

section \<open>Lists of values\<close>

text \<open>The inner loop: the end of the run of consecutive values that starts at an index.\<close>

function run_end :: "nat list \<Rightarrow> nat \<Rightarrow> nat" where
  "run_end vs j =
     (if j + 1 < length vs \<and> vs ! (j + 1) = vs ! j + 1 then run_end vs (j + 1) else j)"
  by auto
termination by (relation "measure (\<lambda>(vs, j). length vs - j)") auto

declare run_end.simps [simp del]

lemma run_end_consecutive: "j \<le> run_end vs j \<and> (j < length vs \<longrightarrow> run_end vs j < length vs)
    \<and> (\<forall>k. j \<le> k \<and> k \<le> run_end vs j \<longrightarrow> vs ! k = vs ! j + (k - j))"
proof (induction vs j rule: run_end.induct)
  case (1 vs j)
  show ?case
  proof (cases "j + 1 < length vs \<and> vs ! (j + 1) = vs ! j + 1")
    case True
    note ih = "1.IH" [OF True]
    have IH: "j + 1 \<le> run_end vs (j + 1)" "run_end vs (j + 1) < length vs" using ih True by blast+
    have "vs ! k = vs ! j + 1 + (k - (j + 1))" if "j + 1 \<le> k" "k \<le> run_end vs (j + 1)" for k
      using ih True that by metis
    note IH = IH this
    have "vs ! k = vs ! j + (k - j)" if "j \<le> k" "k \<le> run_end vs (j + 1)" for k
      using IH(3) [of k] that by (cases "k = j") auto
    then have "\<forall>k. j \<le> k \<and> k \<le> run_end vs (j + 1) \<longrightarrow> vs ! k = vs ! j + (k - j)" by blast
    moreover have "run_end vs j = run_end vs (j + 1)" using True by (subst run_end.simps) simp
    moreover have "j \<le> run_end vs (j + 1)" using IH(1) by linarith
    ultimately show ?thesis using IH(2) by metis
  next
    case False
    then show ?thesis by (subst (1 2 3) run_end.simps) auto
  qed
qed

lemmas run_end_ge = run_end_consecutive [THEN conjunct1]

text \<open>An en dash in UTF-8.\<close>

definition en_dash :: string where
  "en_dash = [CHR 0xE2, CHR 0x80, CHR 0x93]"

function value_parts :: "nat list \<Rightarrow> (nat \<Rightarrow> string) \<Rightarrow> nat \<Rightarrow> string list" where
  "value_parts vs label i =
     (if i < length vs then
        (let j = run_end vs i
         in (if j - i \<ge> 2 then [label (vs ! i) @ en_dash @ label (vs ! j)]
             else map (\<lambda>n. label (vs ! n)) [i..<Suc j])
            @ value_parts vs label (j + 1))
      else [])"
  by auto
termination
  by (relation "measure (\<lambda>(vs, label, i). length vs - i)") (auto intro: diff_less_mono2 le_less_trans [OF run_end_ge])

declare value_parts.simps [simp del]

definition describeValues :: "nat list \<Rightarrow> (nat \<Rightarrow> string) \<Rightarrow> string" where
  "describeValues vs label = join '', '' (value_parts vs label 0)"

definition Month_String :: "nat \<Rightarrow> string" where
  "Month_String n = [''January'', ''February'', ''March'', ''April'', ''May'', ''June'', ''July'', ''August'', ''September'', ''October'',
     ''November'', ''December''] ! (n - 1)"

definition Weekday_String :: "nat \<Rightarrow> string" where
  "Weekday_String n = [''Sunday'', ''Monday'', ''Tuesday'', ''Wednesday'', ''Thursday'', ''Friday'', ''Saturday''] ! n"

section \<open>Descriptions\<close>

definition clock_string :: "nat \<Rightarrow> nat \<Rightarrow> string" where
  "clock_string h m = two_digits h @ '':'' @ two_digits m"

definition describeClock :: "nat list \<Rightarrow> nat list \<Rightarrow> string" where
  "describeClock minute hour =
     (if length hour = 24 then
        (if length minute = 60 then ''Every minute''
         else let step = regularStep minute 60
              in if step > 0 then ''Every '' @ decimal step @ '' minutes''
                 else if length minute = 1 then
                   (if minute ! 0 = 0 then ''Every hour'' else ''Every hour at minute '' @ decimal (minute ! 0))
                 else ''At minutes '' @ describeValues minute decimal @ '' of every hour'')
      else if length minute = 1 then
        (let step = regularStep hour 24
         in if minute ! 0 = 0 \<and> step > 0 then ''Every '' @ decimal step @ '' hours''
            else ''At '' @ join '', '' (map (\<lambda>h. clock_string h (minute ! 0)) hour))
      else let hours = describeValues hour two_digits
           in if length minute = 60 then ''Every minute during hours '' @ hours
              else ''At minutes '' @ describeValues minute decimal @ '' past hours '' @ hours)"

text \<open>Bit 63 of a field marks a star.\<close>

definition describeDays :: "64 word \<Rightarrow> 64 word \<Rightarrow> nat list \<Rightarrow> nat list \<Rightarrow> string" where
  "describeDays domMask dowMask domv dowv =
     (let both = ((domMask OR dowMask) AND push_bit 63 1 \<noteq> 0)
      in if \<not> both \<and> (length domv = 31 \<or> length dowv = 7) \<or> length domv = 31 \<and> length dowv = 7 then []
         else let parts =
                (if length domv \<noteq> 31
                 then [(if length domv = 1 then ''day '' else ''days '') @ describeValues domv decimal @ '' of the month''] else [])
                @ (if length dowv \<noteq> 7 then [describeValues dowv Weekday_String] else [])
              in ''on '' @ join (if both then '' and '' else '' or '') parts)"

definition Describe :: "(string \<Rightarrow> 'loc SpecSchedule option result) \<Rightarrow> ('loc \<Rightarrow> bool) \<Rightarrow> ('loc \<Rightarrow> string) \<Rightarrow> string \<Rightarrow> string" where
  "Describe lib is_local loc_string expression =
     (case parseSpec lib expression of
        Inl _ \<Rightarrow> ''Invalid schedule''
      | Inr None \<Rightarrow> ''Custom schedule''
      | Inr (Some s) \<Rightarrow>
          (let minute = fieldValues (sp_Minute s) 0 59; hour = fieldValues (sp_Hour s) 0 23;
               domv = fieldValues (sp_Dom s) 1 31; dowv = fieldValues (sp_Dow s) 0 6; month = fieldValues (sp_Month s) 1 12;
               day = describeDays (sp_Dom s) (sp_Dow s) domv dowv;
               text = (if day = [] \<and> length minute = 1 \<and> length hour = 1 then ''Daily at '' @ clock_string (hour ! 0) (minute ! 0)
                 else describeClock minute hour @ (if day = [] then [] else '' '' @ day))
           in text @ (if length month \<noteq> 12 then '' in '' @ describeValues month Month_String else [])
              @ (if is_local (sp_Location s) then [] else '' ('' @ loc_string (sp_Location s) @ '')'')))"

section \<open>Descriptions can be read back\<close>

text \<open>A reader of lists of values: parts are single labels, or two labels with an en dash.\<close>

definition read_part :: "(string \<Rightarrow> nat option) \<Rightarrow> string \<Rightarrow> nat list option" where
  "read_part unlabel s =
     (case Cut CHR 0xE2 s of (a, rest, dash) \<Rightarrow>
        if dash then (case (unlabel a, unlabel (drop 2 rest)) of (Some x, Some y) \<Rightarrow> Some [x..<Suc y] | _ \<Rightarrow> None)
        else map_option (\<lambda>x. [x]) (unlabel a))"

fun read_parts :: "(string \<Rightarrow> nat option) \<Rightarrow> string list \<Rightarrow> nat list option" where
  "read_parts unlabel [] = Some []"
| "read_parts unlabel (p # ps) =
     (case (read_part unlabel p, read_parts unlabel ps) of (Some xs, Some ys) \<Rightarrow> Some (xs @ ys) | _ \<Rightarrow> None)"

definition read_values :: "(string \<Rightarrow> nat option) \<Rightarrow> string \<Rightarrow> nat list option" where
  "read_values unlabel s = (case split_on CHR '','' s of [] \<Rightarrow> None | p # ps \<Rightarrow> read_parts unlabel (p # map tl ps))"

lemma split_comma_join:
  assumes "\<forall>p \<in> set ps. CHR '','' \<notin> set p" "ps \<noteq> []"
  shows "split_on CHR '','' (join '', '' ps) = hd ps # map ((#) CHR '' '') (tl ps)"
proof -
  have "split_on CHR '','' (x @ join '', '' (p # ps)) = (x @ hd (p # ps)) # map ((#) CHR '' '') (tl (p # ps))"
    if "\<forall>q \<in> set (p # ps). CHR '','' \<notin> set q" "CHR '','' \<notin> set x" for x p ps
    using that
  proof (induction ps arbitrary: x p)
    case Nil
    then show ?case by (simp add: split_on_none)
  next
    case (Cons q ps)
    have "split_on CHR '','' (x @ join '', '' (p # q # ps)) = split_on CHR '','' ((x @ p) @ CHR '','' # ('' '' @ join '', '' (q # ps)))" by simp
    also have "\<dots> = (x @ p) # split_on CHR '','' ('' '' @ join '', '' (q # ps))" using Cons.prems by (intro split_on_append) auto
    also have "split_on CHR '','' ('' '' @ join '', '' (q # ps)) = ('' '' @ q) # map ((#) CHR '' '') ps"
      using Cons.IH [of q "'' ''"] Cons.prems by simp
    finally show ?case by simp
  qed
  from this [of "hd ps" "tl ps" "[]"] assms show ?thesis by (cases ps) auto
qed

text \<open>Labels that name a value unmistakably.\<close>

definition labels :: "(nat \<Rightarrow> string) \<Rightarrow> (string \<Rightarrow> nat option) \<Rightarrow> nat \<Rightarrow> bool" where
  "labels label unlabel v \<longleftrightarrow> unlabel (label v) = Some v \<and> CHR 0xE2 \<notin> set (label v) \<and> CHR '','' \<notin> set (label v)"

lemma Cut_none: "c \<notin> set s \<Longrightarrow> Cut c s = (s, [], False)"
  by (induction s) (auto simp: Cut_def)

lemma read_single: "labels label unlabel v \<Longrightarrow> read_part unlabel (label v) = Some [v]"
  by (simp add: labels_def read_part_def Cut_none)

lemma read_range:
  assumes "labels label unlabel v" "labels label unlabel w"
  shows "read_part unlabel (label v @ en_dash @ label w) = Some [v..<Suc w]"
  using assms Cut_append [of "CHR 0xE2" "label v" "[CHR 0x80, CHR 0x93] @ label w"]
  by (simp add: labels_def read_part_def en_dash_def)

lemma read_parts_append:
  "read_parts unlabel (ps @ qs) = (case (read_parts unlabel ps, read_parts unlabel qs) of (Some xs, Some ys) \<Rightarrow> Some (xs @ ys) | _ \<Rightarrow> None)"
  by (induction ps) (auto split: option.splits)

lemma read_singles: "\<forall>v \<in> set vs. labels label unlabel v \<Longrightarrow> read_parts unlabel (map label vs) = Some vs"
  by (induction vs) (auto simp: read_single)

lemma nth_run:
  assumes "i \<le> j" "\<And>k. i \<le> k \<Longrightarrow> k \<le> j \<Longrightarrow> vs ! k = vs ! i + (k - i)"
  shows "map ((!) vs) [i..<Suc j] = [vs ! i..<Suc (vs ! j)]"
proof (rule nth_equalityI)
  have "vs ! j = vs ! i + (j - i)" using assms(1) by (intro assms(2)) auto
  then show "length (map ((!) vs) [i..<Suc j]) = length [vs ! i..<Suc (vs ! j)]" using assms(1) by (simp del: upt_Suc)
  fix k assume k: "k < length (map ((!) vs) [i..<Suc j])"
  then have "vs ! (i + k) = vs ! i + k" using assms(2) [of "i + k"] by (simp del: upt_Suc)
  with k \<open>vs ! j = _\<close> show "map ((!) vs) [i..<Suc j] ! k = [vs ! i..<Suc (vs ! j)] ! k" by (simp del: upt_Suc)
qed

lemma drop_run: "i \<le> j \<Longrightarrow> j < length vs \<Longrightarrow> drop i vs = map ((!) vs) [i..<Suc j] @ drop (Suc j) vs"
proof -
  assume "i \<le> j" "j < length vs"
  then have "map ((!) vs) [i..<Suc j] = take (Suc j - i) (drop i vs)" "drop (Suc j) vs = drop (Suc j - i) (drop i vs)"
    by (auto intro!: nth_equalityI simp del: upt_Suc)
  then show ?thesis by (metis append_take_drop_id)
qed

lemma read_value_parts:
  assumes "\<forall>v \<in> set vs. labels label unlabel v"
  shows "read_parts unlabel (value_parts vs label i) = Some (drop i vs)"
  using assms
proof (induction vs label i rule: value_parts.induct)
  case (1 vs label i)
  show ?case
  proof (cases "i < length vs")
    case True
    define j where "j = run_end vs i"
    have j: "i \<le> j" "j < length vs" and run: "\<And>k. i \<le> k \<Longrightarrow> k \<le> j \<Longrightarrow> vs ! k = vs ! i + (k - i)"
      using run_end_consecutive [of i vs] True unfolding j_def by blast+
    have lab: "labels label unlabel (vs ! k)" if "k \<le> j" for k using 1(2) j(2) that by simp
    let ?first = "if j - i \<ge> 2 then [label (vs ! i) @ en_dash @ label (vs ! j)] else map (\<lambda>n. label (vs ! n)) [i..<Suc j]"
    have singles: "map (\<lambda>n. label (vs ! n)) [i..<Suc j] = map label (map ((!) vs) [i..<Suc j])" by (simp del: upt_Suc)
    have "read_parts unlabel ?first = Some (map ((!) vs) [i..<Suc j])"
    proof (cases "j - i \<ge> 2")
      case True
      then show ?thesis using lab j(1) by (simp add: read_range nth_run [OF j(1) run] del: upt_Suc)
    next
      case False
      have "\<forall>v \<in> set (map ((!) vs) [i..<Suc j]). labels label unlabel v" using lab by (auto simp del: upt_Suc)
      from read_singles [OF this] False show ?thesis unfolding singles by (simp del: upt_Suc)
    qed
    moreover have "read_parts unlabel (value_parts vs label (j + 1)) = Some (drop (Suc j) vs)"
      using 1(1) [OF True j_def] 1(2) by simp
    moreover have "value_parts vs label i = ?first @ value_parts vs label (j + 1)"
      using True by (subst value_parts.simps) (simp add: j_def Let_def del: upt_Suc)
    ultimately show ?thesis unfolding drop_run [OF j] by (simp add: read_parts_append del: upt_Suc)
  next
    case False
    then show ?thesis by (subst value_parts.simps) simp
  qed
qed

lemma value_parts_chars:
  assumes "\<forall>v \<in> set vs. CHR '','' \<notin> set (label v)"
  shows "\<forall>p \<in> set (value_parts vs label i). CHR '','' \<notin> set p"
  using assms
proof (induction vs label i rule: value_parts.induct)
  case (1 vs label i)
  have "run_end vs i < length vs" if "i < length vs" using run_end_consecutive [of i vs] that by blast
  with 1 show ?case
    by (subst value_parts.simps) (auto simp: Let_def en_dash_def simp del: upt_Suc)
qed

lemma value_parts_Nil: "vs \<noteq> [] \<Longrightarrow> value_parts vs label 0 \<noteq> []"
  using run_end_ge [of 0 vs] by (subst value_parts.simps) (auto simp: Let_def simp del: upt_Suc)

lemma map_tl_Cons: "map tl (map ((#) c) xs) = xs"
  by (induction xs) auto

lemma read_describeValues:
  assumes "\<forall>v \<in> set vs. labels label unlabel v" "vs \<noteq> []"
  shows "read_values unlabel (describeValues vs label) = Some vs"
proof -
  have "\<forall>p \<in> set (value_parts vs label 0). CHR '','' \<notin> set p" using assms(1) by (intro value_parts_chars) (auto simp: labels_def)
  moreover obtain p ps where p: "value_parts vs label 0 = p # ps" using value_parts_Nil [OF assms(2)] by (metis neq_Nil_conv)
  ultimately have "split_on CHR '','' (describeValues vs label) = p # map ((#) CHR '' '') ps"
    unfolding describeValues_def using split_comma_join [of "p # ps"] by (metis list.distinct(1) list.sel(1,3))
  then have "read_values unlabel (describeValues vs label) = read_parts unlabel (p # ps)"
    unfolding read_values_def by (simp only: list.case map_tl_Cons)
  also have "\<dots> = Some vs" using read_value_parts [OF assms(1), of 0] p by simp
  finally show ?thesis .
qed

section \<open>Regular steps\<close>

lemma and_push_bit: "x AND push_bit n 1 \<noteq> 0 \<longleftrightarrow> bit (x :: 64 word) n"
  by (simp add: and_exp_eq_0_iff_not_bit push_bit_eq_mult)

lemma fieldValues_bits: "fieldValues m lo hi = filter (bit m) [lo..<Suc hi]"
  unfolding fieldValues_def and_push_bit ..

lemma fieldValues_sorted: "sorted_wrt (<) (fieldValues m lo hi)"
  by (simp add: fieldValues_bits sorted_wrt_filter del: upt_Suc)

lemma set_fieldValues: "n \<in> set (fieldValues m lo hi) \<longleftrightarrow> lo \<le> n \<and> n \<le> hi \<and> bit m n"
  by (auto simp: fieldValues_bits simp del: upt_Suc)

lemma regularStep_iff:
  assumes "sorted_wrt (<) vs" "0 < k"
  shows "regularStep vs n = k \<longleftrightarrow> k dvd n \<and> 2 \<le> length vs \<and> vs = map (\<lambda>i. i * k) [0..<n div k]"
proof
  assume r: "regularStep vs n = k"
  then have len: "2 \<le> length vs" and k: "vs ! 1 = k" "n mod k = 0" "length vs = n div k"
    and all: "\<forall>i < length vs. vs ! i = i * k"
    using assms(2) by (auto simp: regularStep_def Let_def list_all_iff split: if_splits)
  have "vs = map (\<lambda>i. i * k) [0..<n div k]" using all k(3) by (intro nth_equalityI) auto
  with len k(2) show "k dvd n \<and> 2 \<le> length vs \<and> vs = map (\<lambda>i. i * k) [0..<n div k]" by auto
next
  assume "k dvd n \<and> 2 \<le> length vs \<and> vs = map (\<lambda>i. i * k) [0..<n div k]"
  then have "n mod k = 0" "2 \<le> n div k" "vs = map (\<lambda>i. i * k) [0..<n div k]" by auto
  then show "regularStep vs n = k" by (auto simp: regularStep_def Let_def list_all_iff)
qed

lemma multiples_set:
  assumes "sorted_wrt (<) vs" "\<forall>v \<in> set vs. v < n" "k dvd n" "0 < k"
  shows "vs = map (\<lambda>i. i * k) [0..<n div k] \<longleftrightarrow> (\<forall>t < n. t \<in> set vs \<longleftrightarrow> k dvd t)"
proof -
  let ?ms = "map (\<lambda>i. i * k) [0..<n div k]"
  have less: "i * k < n \<longleftrightarrow> i < n div k" for i using assms(3,4) by (auto elim!: dvdE)
  have "t \<in> set ?ms \<longleftrightarrow> t < n \<and> k dvd t" for t
  proof
    assume "t \<in> set ?ms"
    then obtain i where "i < n div k" "t = i * k" by auto
    then show "t < n \<and> k dvd t" using less by simp
  next
    assume t: "t < n \<and> k dvd t"
    then obtain i where i: "t = k * i" by (auto elim: dvdE)
    then have "i < n div k" using t less [of i] by (simp add: mult.commute)
    then show "t \<in> set ?ms" using i by (auto simp: mult.commute)
  qed
  then have "set ?ms = {t. t < n \<and> k dvd t}" by blast
  moreover have "sorted_wrt (<) ?ms" using assms(4) by (simp add: sorted_wrt_map sorted_wrt_upt)
  ultimately show ?thesis
    using assms(1,2) strict_sorted_equal [of vs ?ms] by auto
qed

text \<open>The day rule of the cron library: a star in one of the fields makes the other one decide, otherwise either does.\<close>

definition day_matches :: "64 word \<Rightarrow> 64 word \<Rightarrow> nat \<Rightarrow> nat \<Rightarrow> bool" where
  "day_matches domMask dowMask d w =
     (if bit domMask 63 \<or> bit dowMask 63 then bit domMask d \<and> bit dowMask w else bit domMask d \<or> bit dowMask w)"

lemma length_fieldValues: "length (fieldValues m lo hi) = Suc hi - lo \<longleftrightarrow> (\<forall>n. lo \<le> n \<and> n \<le> hi \<longrightarrow> bit m n)"
proof -
  have "length (filter P xs) = length xs \<longleftrightarrow> (\<forall>x \<in> set xs. P x)" for P and xs :: "nat list"
    by (metis filter_True length_filter_less less_irrefl)
  from this [of "bit m" "[lo..<Suc hi]"] show ?thesis
    by (auto simp: fieldValues_bits less_Suc_eq_le simp del: upt_Suc)
qed

lemma all_both: "A a \<Longrightarrow> B b \<Longrightarrow> (\<forall>d w. A d \<and> B w \<longrightarrow> P d \<and> Q w) \<longleftrightarrow> (\<forall>d. A d \<longrightarrow> P d) \<and> (\<forall>w. B w \<longrightarrow> Q w)"
  by blast

lemma all_either: "(\<forall>d w. A d \<and> B w \<longrightarrow> P d \<or> Q w) \<longleftrightarrow> (\<forall>d. A d \<longrightarrow> P d) \<or> (\<forall>w. B w \<longrightarrow> Q w)"
  by blast

lemma describeDays_every_day:
  "describeDays domMask dowMask (fieldValues domMask 1 31) (fieldValues dowMask 0 6) = []
   \<longleftrightarrow> (\<forall>d w. 1 \<le> d \<and> d \<le> 31 \<and> w \<le> 6 \<longrightarrow> day_matches domMask dowMask d w)"
proof -
  have star: "(domMask OR dowMask) AND push_bit 63 1 \<noteq> 0 \<longleftrightarrow> bit domMask 63 \<or> bit dowMask 63"
    unfolding and_push_bit by (simp add: bit_or_iff)
  have dom: "length (fieldValues domMask 1 31) = 31 \<longleftrightarrow> (\<forall>d. 1 \<le> d \<and> d \<le> 31 \<longrightarrow> bit domMask d)"
    using length_fieldValues [of domMask 1 31] by simp
  have dow: "length (fieldValues dowMask 0 6) = 7 \<longleftrightarrow> (\<forall>w. w \<le> 6 \<longrightarrow> bit dowMask w)"
    using length_fieldValues [of dowMask 0 6] by simp
  have "describeDays domMask dowMask (fieldValues domMask 1 31) (fieldValues dowMask 0 6) = []
     \<longleftrightarrow> (if bit domMask 63 \<or> bit dowMask 63 then length (fieldValues domMask 1 31) = 31 \<and> length (fieldValues dowMask 0 6) = 7
          else length (fieldValues domMask 1 31) = 31 \<or> length (fieldValues dowMask 0 6) = 7)"
    unfolding describeDays_def Let_def star by auto
  also have "\<dots> \<longleftrightarrow> (\<forall>d w. 1 \<le> d \<and> d \<le> 31 \<and> w \<le> 6 \<longrightarrow> day_matches domMask dowMask d w)"
    unfolding dom dow day_matches_def
    using all_both [of "\<lambda>d. 1 \<le> d \<and> d \<le> 31" 1 "\<lambda>w. w \<le> 6" 0 "bit domMask" "bit dowMask"]
      all_either [of "\<lambda>d. 1 \<le> d \<and> d \<le> 31" "\<lambda>w. w \<le> 6" "bit domMask" "bit dowMask"]
    by (cases "bit domMask 63 \<or> bit dowMask 63") (simp_all add: conj_assoc)
  finally show ?thesis .
qed

section \<open>What descriptions say\<close>

definition read_number :: "string \<Rightarrow> nat option" where
  "read_number s = (if s \<noteq> [] \<and> list_all is_digit s then Some (read_decimal s) else None)"

definition month_names :: "(string \<times> nat) list" where
  "month_names = map (\<lambda>n. (Month_String n, n)) [1..<13]"

definition weekday_names :: "(string \<times> nat) list" where
  "weekday_names = map (\<lambda>n. (Weekday_String n, n)) [0..<7]"

lemma digit_plain_label: "\<forall>c \<in> set s. is_digit c \<Longrightarrow> CHR 0xE2 \<notin> set s \<and> CHR '','' \<notin> set s"
  by (auto simp: is_digit_def in_range_iff)

lemma number_labels: "labels decimal read_number v" "labels two_digits read_number v"
  using digit_plain_label [of "decimal v"] digit_plain_label [of "two_digits v"] length_two_digits [of v]
  by (auto simp: labels_def read_number_def list_all_iff decimal_digits two_digits_digits)
     (auto simp: two_digits_def split: if_splits)

lemma month_labels: "v \<in> {1..12} \<Longrightarrow> labels Month_String (map_of month_names) v"
proof -
  have "list_all (labels Month_String (map_of month_names)) [1..<13]" unfolding labels_def by code_simp
  then show "v \<in> {1..12} \<Longrightarrow> ?thesis" by (auto simp: list_all_iff simp del: upt_rec_numeral)
qed

lemma weekday_labels: "v \<in> {0..6} \<Longrightarrow> labels Weekday_String (map_of weekday_names) v"
proof -
  have "list_all (labels Weekday_String (map_of weekday_names)) [0..<7]" unfolding labels_def by code_simp
  then show "v \<in> {0..6} \<Longrightarrow> ?thesis" by (auto simp: list_all_iff simp del: upt_rec_numeral)
qed

text \<open>
  Lists of values are described unmistakably. The loops that fold the values of a field into single
  labels and ranges end, and from the text they make the values can be read back exactly, whether they are
  written as numbers, as two digits, as months or as weekdays.
\<close>

theorem described_values_readable:
  assumes "vs \<noteq> []"
  shows "read_values read_number (describeValues vs decimal) = Some vs
     \<and> read_values read_number (describeValues vs two_digits) = Some vs
     \<and> (set vs \<subseteq> {1..12} \<longrightarrow> read_values (map_of month_names) (describeValues vs Month_String) = Some vs)
     \<and> (set vs \<subseteq> {0..6} \<longrightarrow> read_values (map_of weekday_names) (describeValues vs Weekday_String) = Some vs)"
  using assms by (intro conjI impI read_describeValues) (blast intro: number_labels month_labels weekday_labels)+

theorem described_values_readable_witness:
  "describeValues [1, 2, 3, 5] Weekday_String = ''Monday'' @ en_dash @ ''Wednesday, Friday''
   \<and> read_values (map_of weekday_names) (describeValues [1, 2, 3, 5] Weekday_String) = Some [1, 2, 3, 5]"
  using described_values_readable [of "[1, 2, 3, 5]"]
  by (simp add: describeValues_def value_parts.simps run_end.simps Let_def Weekday_String_def)

lemma decimal_Cons: "decimal k = c # cs \<Longrightarrow> is_digit c"
  using decimal_digits [of c k] by simp

lemma decimal_suffix: "decimal a @ CHR '' '' # x = decimal b @ CHR '' '' # y \<longleftrightarrow> a = b \<and> x = y"
proof
  assume eq: "decimal a @ CHR '' '' # x = decimal b @ CHR '' '' # y"
  have digits: "takeWhile is_digit (decimal n @ CHR '' '' # r) = decimal n" for n r
    by (subst takeWhile_append2) (auto simp: decimal_digits, simp add: is_digit_def in_range_iff)
  from arg_cong [OF eq, of "takeWhile is_digit"] have "decimal a = decimal b" unfolding digits .
  with eq decimal_inj show "a = b \<and> x = y" by auto
qed simp

lemma every_minutes_text:
  "describeClock minute hour = ''Every '' @ decimal k @ '' minutes'' \<longleftrightarrow> length hour = 24 \<and> length minute \<noteq> 60 \<and> 0 < k \<and> regularStep minute 60 = k"
proof -
  obtain c cs where k: "decimal k = c # cs" by (metis decimal_not_Nil neq_Nil_conv)
  have c: "c \<noteq> CHR ''m''" "c \<noteq> CHR ''h''" using decimal_Cons [OF k] by (auto simp: is_digit_def in_range_iff)
  have other: "CHR ''m'' # s \<noteq> decimal k @ t" "CHR ''h'' # s \<noteq> decimal k @ t" for s t using c by (simp_all add: k)
  show ?thesis
    using decimal_suffix [of _ "''minutes''" k "''minutes''"] decimal_suffix [of _ "''hours''" k "''minutes''"] other
    by (auto simp: describeClock_def Let_def)
qed

lemma divisors_of_hour: "k dvd 60 \<Longrightarrow> 60 div k \<noteq> 60 \<and> 2 \<le> 60 div k \<longleftrightarrow> 1 < k \<and> k < (60 :: nat)"
proof -
  assume "k dvd 60"
  then obtain q where q: "60 = k * q" ..
  then have "k \<noteq> 0" by (metis mult_0 zero_neq_numeral)
  have k: "k \<le> 60" using \<open>k dvd 60\<close> by (rule dvd_imp_le) simp
  show ?thesis
  proof (cases "k = 1 \<or> k = 60")
    case False
    with k \<open>k \<noteq> 0\<close> have k: "1 < k" "k < 60" by auto
    have "60 div k = q" using q \<open>k \<noteq> 0\<close> by (metis nonzero_mult_div_cancel_left)
    moreover have "q \<noteq> 0" "q \<noteq> 1" "q \<noteq> 60" using q k by (auto intro!: Nat.gr0I)
    ultimately show ?thesis using k by simp
  qed auto
qed

text \<open>
  "Every N minutes" means every N minutes. A schedule's clock is described with these words exactly if
  it fires in every hour at the minutes that are multiples of N, and N divides the hour; and its days are
  not mentioned exactly if the rule of the two day fields lets it fire on every day.
\<close>

theorem every_minutes_exact:
  "(describeClock (fieldValues m 0 59) (fieldValues h 0 23) = ''Every '' @ decimal k @ '' minutes''
     \<longleftrightarrow> (\<forall>t. t \<le> 23 \<longrightarrow> bit h t) \<and> 1 < k \<and> k < 60 \<and> k dvd 60 \<and> (\<forall>t. t < 60 \<longrightarrow> (bit m t \<longleftrightarrow> k dvd t)))
   \<and> (describeDays domMask dowMask (fieldValues domMask 1 31) (fieldValues dowMask 0 6) = []
     \<longleftrightarrow> (\<forall>d w. 1 \<le> d \<and> d \<le> 31 \<and> w \<le> 6 \<longrightarrow> day_matches domMask dowMask d w))"
proof -
  let ?vs = "fieldValues m 0 59"
  have hours: "length (fieldValues h 0 23) = 24 \<longleftrightarrow> (\<forall>t. t \<le> 23 \<longrightarrow> bit h t)" using length_fieldValues [of h 0 23] by simp
  have multiples: "?vs = map (\<lambda>i. i * k) [0..<60 div k] \<longleftrightarrow> (\<forall>t. t < 60 \<longrightarrow> (bit m t \<longleftrightarrow> k dvd t))" if "k dvd 60" "0 < k"
    using multiples_set [OF fieldValues_sorted _ that, of m 0 59] by (auto simp: set_fieldValues)
  have "length ?vs \<noteq> 60 \<and> 0 < k \<and> regularStep ?vs 60 = k
      \<longleftrightarrow> 1 < k \<and> k < 60 \<and> k dvd 60 \<and> ?vs = map (\<lambda>i. i * k) [0..<60 div k]"
  proof (cases "0 < k \<and> k dvd 60 \<and> ?vs = map (\<lambda>i. i * k) [0..<60 div k]")
    case True
    then have len: "length ?vs = 60 div k" by simp
    with True len show ?thesis using regularStep_iff [OF fieldValues_sorted, of k m 0 59 60] divisors_of_hour [of k] by auto
  qed (use regularStep_iff [OF fieldValues_sorted, of k m 0 59 60] in auto)
  then show ?thesis
    using multiples describeDays_every_day [of domMask dowMask] unfolding every_minutes_text hours by auto
qed

theorem every_minutes_exact_witness:
  "describeClock (fieldValues 35185445863425 0 59) (fieldValues 16777215 0 23) = ''Every 15 minutes''
   \<and> bit (35185445863425 :: 64 word) 45 \<and> \<not> bit (35185445863425 :: 64 word) 50"
proof -
  have d: "describeClock (fieldValues 35185445863425 0 59) (fieldValues 16777215 0 23) = ''Every 15 minutes''"
    "''Every '' @ decimal 15 @ '' minutes'' = ''Every 15 minutes''" by code_simp+
  then have "\<forall>t. t < 60 \<longrightarrow> (bit (35185445863425 :: 64 word) t \<longleftrightarrow> 15 dvd t)"
    using every_minutes_exact [of 35185445863425 16777215 15 0 0] by metis
  then have "bit (35185445863425 :: 64 word) 45 \<longleftrightarrow> 15 dvd (45 :: nat)" "bit (35185445863425 :: 64 word) 50 \<longleftrightarrow> 15 dvd (50 :: nat)"
    by simp_all
  moreover have "(15 :: nat) dvd 45" "\<not> (15 :: nat) dvd 50" by simp_all
  ultimately show ?thesis using d(1) by simp
qed

section \<open>Time zone prefixes\<close>

text \<open>
  The cron library cuts a prefix at its first equals sign and its first blank; with the blank missing or
  too early the bounds of that slice are wrong and it panics. It is never called on such an expression.
\<close>

definition slices_badly :: "string \<Rightarrow> bool" where
  "slices_badly e \<longleftrightarrow> has_zone_prefix e \<and> IndexByte e CHR '' '' < IndexByte e CHR ''='' + 1"

lemma parseSpec_never_panics: "\<forall>e. \<not> slices_badly e \<longrightarrow> lib e = lib' e \<Longrightarrow> parseSpec lib expression = parseSpec lib' expression"
  by (auto simp: parseSpec_def slices_badly_def)

end
