(* ===== verification/Spec2Isabelle.thy ===== *)
theory Spec2Isabelle
  imports Ticks Sender Lifecycle AdminSafety Serve McpTools LeaderElection CronDescribe
begin

text \<open>
  A verification of \<^bold>\<open>cronlite\<close>, a cron scheduler that delivers webhooks, with several replicas on one
  PostgreSQL database.

  \<^bold>\<open>The program.\<close> Users create jobs (a cron expression, a time zone and a webhook). The \<^emph>\<open>scheduler\<close>
  (one leader) wakes up every tick, computes the due times of every enabled job and inserts an
  \<^emph>\<open>execution\<close> row per due time. \<^emph>\<open>Dispatchers\<close> (all replicas) claim executions in the database
  under a lease with a generation number, send the webhook with retries, record each attempt and
  complete the execution. The \<^emph>\<open>reconciler\<close> puts executions with an expired lease back and re-emits
  those that were left behind. A circuit breaker keeps failing destinations from being called. The
  \<^emph>\<open>job service\<close> is the core behind the HTTP, MCP and web front ends: it validates requests and works on the
  rows of the caller's namespace. The \<^emph>\<open>sender\<close> signs webhooks and lets them reach only permitted addresses.

  \<^bold>\<open>Theories and the code they model.\<close>

  \<^item> Prelude: time, tables as lists of rows, the generic lemmas on updates, deletions and limits.
  \<^item> Domain: \<^verbatim>\<open>internal/domain/*.go\<close>, the data types, errors and list parameters.
  \<^item> Queries: \<^verbatim>\<open>internal/store/postgres/queries.go\<close>, each SQL statement as a function on the tables
    (\<open>db\<close>), with constraint violations as errors. The rows locked by other transactions and the
    reading of \<^verbatim>\<open>clock_timestamp()\<close> are arguments.
  \<^item> Store: \<^verbatim>\<open>internal/store/postgres/store.go\<close>, each method over those statements. A call can fail
    before or after its statement took effect (\<open>fault\<close>); a failed transaction leaves the tables.
  \<^item> ControlStore: \<^verbatim>\<open>internal/store/postgres/control.go\<close>, fleet and run pages, saved views, bulk actions.
  \<^item> StoreInvariant, StoreMachine: the invariant \<open>db_ok\<close> (unique keys, references, consistency of the
    claim columns with the status), its preservation by every statement and method, the store as a
    machine over its operations, and the order \<open>advances\<close> in which an execution moves forward. The
    locale \<open>statement_relation\<close> lifts a relation respected by statements to the methods; it is
    interpreted for the invariant, the frame, the progress and (in Ticks) the stored slots.
  \<^item> ClaimProtocol: the properties of the claim protocol over all histories of the store.
  \<^item> Breaker: \<^verbatim>\<open>internal/circuitbreaker/breaker.go\<close> with the permits of half-open probes.
  \<^item> Lease: \<^verbatim>\<open>internal/dispatcher/ownership.go\<close> and a cluster of deliveries on one database, in which time
    passes, requests and replies are delayed and replicas stop at any moment.
  \<^item> Dispatcher: \<^verbatim>\<open>internal/dispatcher/dispatcher.go\<close>. A delivery is a function of the answers of its calls to
    its result and the trace of its effects.
  \<^item> Scheduler: \<^verbatim>\<open>internal/transport/channel/bus.go\<close>, \<^verbatim>\<open>internal/scheduler/scheduler.go\<close> and
    \<^verbatim>\<open>internal/reconciler/reconciler.go\<close>. The cron library and the time zone database are arguments.
  \<^item> Ticks: what ticks and reconciler cycles achieve on the store.
  \<^item> GoText: the parts of Go's \<^verbatim>\<open>strings\<close>, \<^verbatim>\<open>strconv\<close> and \<^verbatim>\<open>encoding/hex\<close> that the text processing uses; Unicode tables
    are an argument.
  \<^item> WebhookUrl: \<^verbatim>\<open>internal/webhookurl/validation.go\<close>, \<^verbatim>\<open>guard.go\<close> and \<^verbatim>\<open>tailnet.go\<close>; addresses are 32- and
    128-bit words, and resolvers and dialers are arguments.
  \<^item> TailnetPolicy: \<^verbatim>\<open>internal/webhookurl/tailnet_policy.go\<close>, the parser, the decision and the listing.
  \<^item> Sender: \<^verbatim>\<open>internal/dispatcher/webhook.go\<close> on Go's HTTP client, which follows redirects and pools connections.
  \<^item> NaturalLanguage: \<open>parseNaturalLanguage\<close> of \<^verbatim>\<open>internal/service/jobs.go\<close>.
  \<^item> Service: \<^verbatim>\<open>internal/service/*.go\<close>, each method with its store calls, between which the rest of the system
    may act (\<open>sv_other\<close>).
  \<^item> Tenancy: what a namespace owns (\<open>tenant\<close>), and that the locale \<open>statement_relation\<close>, interpreted for the relation
    \<open>isolated\<close>, carries isolation from the statements to every request.
  \<^item> Lifecycle: an abstract specification of the life of an execution and the simulation by the store.
  \<^item> Float64: the binary64 arithmetic (rounding to nearest, ties to even) that \<^verbatim>\<open>golang.org/x/time/rate\<close> computes with.
  \<^item> RateLimit, KeyCache, Middleware: \<^verbatim>\<open>internal/api/middleware.go\<close> and \<^verbatim>\<open>key_cache.go\<close>: token buckets
    per address and per namespace, the cache of keys with its single flight, and the chain from CORS to authentication.
  \<^item> Api: \<^verbatim>\<open>internal/api/handler_v2.go\<close> and \<^verbatim>\<open>errors.go\<close>, one definition per handler. Routes: \<^verbatim>\<open>internal/api/server.gen.go\<close>, the
    wrappers that bind parameters and bodies, the strict handler and Go's \<^verbatim>\<open>http.ServeMux\<close>. The decoders of JSON and query
    strings are arguments.
  \<^item> McpTools: \<^verbatim>\<open>internal/mcp/*.go\<close>, the declared tools, their handlers and the transport's authentication.
  \<^item> LeaderElection: \<^verbatim>\<open>internal/leaderelection\<close>, replicas, sessions and the advisory lock as a step relation.
  \<^item> CronDescribe: \<^verbatim>\<open>internal/cron/*.go\<close>, the five-field parser's front end and the description of expressions.
  \<^item> Configuration: \<^verbatim>\<open>internal/config/*.go\<close>, loading from the environment, validation and the printed form.
  \<^item> AdminAuth, AdminQuery, AdminPages, AdminSafety: \<^verbatim>\<open>internal/webadmin/*.go\<close> with \<^verbatim>\<open>internal/tailnet/tailnet.go\<close>: sign-in and
    sessions; the data of the pages and the forms of a job; every page and form with its guards, the routes and the handler; and what
    requests to them may change. A page is the data that its template gets.
  \<^item> Migrate: \<^verbatim>\<open>internal/migrate/*.go\<close> and the files of \<^verbatim>\<open>schema/\<close>, whose statements are changes of a catalogue of
    tables, columns and indexes. A run may fail at each of its statements, before or after it took effect.
  \<^item> Serve: the commands of \<^verbatim>\<open>cmd/cronlite/main.go\<close>: the life of the server process as a trace of what it opens, starts, stops
    and closes, and the other commands.
  \<^item> This theory: the multiplexer of \<^verbatim>\<open>cmd/cronlite/main.go\<close> in front of the API, the MCP transport, the administration and the metrics.

  \<^bold>\<open>What the theorems show.\<close> The store: the invariant holds along every history; terminal states are
  final; a superseded claim is fenced off; claims exclude each other; batch claims take the oldest rows;
  requeues touch only expired rows and strand none. The lease: a live local lease implies ownership in
  the database, so no two replicas deliver at once. The dispatcher: at most four requests per claim, each
  under a renewal and recorded, with the outcome the answers dictate, inside the retry budget; the poll
  loop is bounded. The scheduler: pages visit every job, a job fires exactly its due slots, and across
  crashes and faults no slot before the cursor is missing. The reconciler: it emits exactly what was left
  behind. The breaker: probes are limited, the cooldown is kept, it trips at its threshold. The bus is a
  bounded queue. The service: requests of one namespace neither change nor show anything of another, a
  request without a namespace does nothing, created jobs read back, manual runs are stored once and do
  not starve, the runs shown are the next slots, phrases are understood as they are described. The sender:
  every connection goes to an address the guard accepts or to a tailnet node the namespace may reach, for
  redirects and pooled connections too; the guard's check is that of its ranges; policies survive printing
  and parsing, and what is listed is what is enforced; signatures verify. The network: a request acts for the
  namespace of its token or not at all, buckets admit no more than burst and rate allow, revoked keys stop working within the cache's
  lifetime, every request has one route, tools read the arguments they declare, and tenants are isolated from the multiplexer
  down to the tables. The leader: at most one replica leads, and a lock whose release is uncertain is not orphaned
  in the pool. Descriptions and configurations say what the parsed values are; accepted configurations satisfy what the
  components assume, and dumps hide the secrets. The administration: a request is let in exactly when its cookie names a live session, sessions
  end at their idle and absolute lifetimes, changes need the session and its token, and an edit form sent back unchanged changes
  nothing. Migrations: each script takes effect once and in order over any number of failed runs, and a database set up by hand is recognised as
  what it is. The process: an accepted configuration starts, and what was started is stopped in the order of its dependencies.

  \<^bold>\<open>Bounds.\<close> The loops are structural recursions or terminate by construction; the pagination of a tick is a
  partial function whose termination is proved (theorem \<open>tick_visits_all\<close>, lemma \<open>tick_pages_paged\<close>), and so are the search for a key among its pages (theorem \<open>find_key_correct\<close>) and
  the wait for the lock of the migrations (theorem \<open>lock_wait_ends\<close>, under a clock that advances). Redirects
  are followed at most nine times, which is the termination measure of \<open>follow\<close>. The
  breaker's epoch is a 64-bit word and its theorem assumes fewer than \<open>2^64\<close> calls. Times are integers of
  nanoseconds and identifiers 128-bit words.

  \<^bold>\<open>Not modelled.\<close> The rendering of the templates, the counters of Prometheus, the analytics on Redis, the node of the tailnet
  and the benchmark tools: rendering, I/O and glue over libraries that are not part of the repository. Log messages and the usage
  text are left out too, as is the command that forwards MCP messages from standard input.
\<close>

section \<open>The network\<close>

text \<open>
  The multiplexer of the server process (\<open>runServe\<close>): the metrics and the administration under their paths, if they are on, the MCP transport
  under its path, everything else to the API. The API, the MCP transport and the administration have limiters of their own; the database is one. A
  visit carries the request in the form each of them reads it, with what the environment answers meanwhile. The path of the metrics is a
  plain path, without wildcards and not a subtree.
\<close>

record process =
  ps_gateway :: gateway
  ps_mcp :: "ipRateLimiter \<times> namespaceRateLimiter"
  ps_admin :: ipRateLimiter
  ps_metrics :: auth_state
  ps_db :: db

record visit = incoming +
  vi_web :: web_request
  vi_env :: web_env
  vi_time :: time

record site =
  st_server :: server
  st_lib :: mcp_lib
  st_admin :: "(string \<times> admin) option"
  st_metrics :: "(string \<times> bool) option"

datatype reply = ApiReply response | McpReply "int \<times> string + tool_result" | AdminReply web_reply | MetricsReply "(int \<times> string) option"

text \<open>The metrics are shown (\<open>None\<close>) or refused; collecting them is the business of the Prometheus library.\<close>

definition newMetricsHandler :: "server \<Rightarrow> bool \<Rightarrow> visit \<Rightarrow> auth_state \<Rightarrow> (int \<times> string) option \<times> auth_state" where
  "newMetricsHandler srv public v st =
     (if public then (None, st)
      else case MultiKeyAuthMiddleware (sr_hash srv) (ar_lookup v) (sr_fallback srv) (fst (snd (ar_times v))) (ar_request v) st of
        (Reply code m, st') \<Rightarrow> (Some (code, m), st')
      | (Next _, st') \<Rightarrow> (None, st'))"

definition registerAdminRoutes :: "string \<Rightarrow> bool \<Rightarrow> (web_env \<Rightarrow> web_request \<Rightarrow> web_handler) \<Rightarrow> visit \<Rightarrow> ipRateLimiter \<times> db
    \<Rightarrow> web_reply \<times> ipRateLimiter \<times> db" where
  "registerAdminRoutes integrity secure pages v s =
     (case s of (l, db) \<Rightarrow>
        (case RateLimitMiddleware (vi_time v) (ar_request v) l of
          (verd, l') \<Rightarrow>
            (case SecurityHeaders integrity secure (vi_web v) (\<lambda>db. case verd of
                 Reply code m \<Rightarrow> (answer code (Plain m), db)
               | Next _ \<Rightarrow> pages (vi_env v) (vi_web v) db) db of
               (p, db') \<Rightarrow> (p, l', db'))))"

definition admin_pages :: "site \<Rightarrow> (string \<times> bool \<times> (web_env \<Rightarrow> web_request \<Rightarrow> web_handler)) option" where
  "admin_pages site = (case st_admin site of
     None \<Rightarrow> None
   | Some (integrity, h) \<Rightarrow> (case NewHandler integrity h of Inl _ \<Rightarrow> None | Inr pages \<Rightarrow> Some (integrity, ad_cookieSecure h, pages)))"

definition httpMux :: "site \<Rightarrow> visit \<Rightarrow> process \<Rightarrow> reply \<times> process" where
  "httpMux site v s =
     (let srv = st_server site; path = ms_EscapedPath (ar_message v); segs = map pathUnescape (segments path)
      in if \<not> is_clean path \<and> ms_Method (ar_message v) \<noteq> ''CONNECT'' then (ApiReply (301, BEmpty), s)
         else if (case st_metrics site of None \<Rightarrow> False | Some (mpath, _) \<Rightarrow> segs = map pathUnescape (segments mpath))
         then (case newMetricsHandler srv (snd (the (st_metrics site))) v (ps_metrics s) of (r, st) \<Rightarrow> (MetricsReply r, s\<lparr>ps_metrics := st\<rparr>))
         else (case (if segs \<noteq> [] \<and> hd segs = ''admin'' then admin_pages site else None) of
             Some (integrity, secure, pages) \<Rightarrow>
               (case registerAdminRoutes integrity secure pages v (ps_admin s, ps_db s) of
                  (p, l, db) \<Rightarrow> (AdminReply p, s\<lparr>ps_admin := l, ps_db := db\<rparr>))
           | None \<Rightarrow>
               if segs = [''mcp'']
               then (case mcp_serve srv (st_lib site) (incoming.truncate v) (ps_mcp s, ps_db s) of
                   (res, ls, db) \<Rightarrow> (McpReply res, s\<lparr>ps_mcp := ls, ps_db := db\<rparr>))
               else (case http_serve srv v (ps_gateway s, ps_db s) of
                   (resp, gw, db) \<Rightarrow> (ApiReply resp, s\<lparr>ps_gateway := gw, ps_db := db\<rparr>))))"

text \<open>Metrics that are not public are shown to callers with a valid token, if their path is not one of those that need none.\<close>

lemma metrics_guarded:
  assumes "newMetricsHandler srv False v st = (None, st')" "rq_Path (ar_request v) \<noteq> ''/health''" "\<not> HasPrefix (rq_Path (ar_request v)) ''/mcp''"
  shows "\<exists>ns token. rq_Authorization (ar_request v) = bearer @ token \<and> Middleware.grants (sr_hash srv) (ar_lookup v) (sr_fallback srv) token ns"
proof -
  let ?m = "MultiKeyAuthMiddleware (sr_hash srv) (ar_lookup v) (sr_fallback srv) (fst (snd (ar_times v))) (ar_request v) st"
  obtain r where "fst ?m = Next r" using assms(1) by (auto simp: newMetricsHandler_def split: prod.splits Middleware.verdict.splits)
  then show ?thesis using assms(2,3) by (auto simp: MultiKeyAuth_iff exempt_def)
qed

text \<open>
  A visit has nothing to do with a namespace: it comes with no token that stands for it, and for the administration it is no authorized change of it
  at the moment it arrives.
\<close>

definition unrelated :: "site \<Rightarrow> Namespace \<Rightarrow> visit \<Rightarrow> process \<Rightarrow> bool" where
  "unrelated site other v s \<longleftrightarrow> alone (be_svc (ar_backend v)) \<and> rq_ctx (ar_request v) = None \<and> AdminSafety.undisturbed (vi_env v)
     \<and> \<not> acts_for (st_server site) v other
     \<and> (case st_admin site of None \<Rightarrow> True | Some (_, h) \<Rightarrow> \<not> authorized_change h (vi_env v) (vi_web v) (ps_db s) other)"

fun all_unrelated :: "site \<Rightarrow> Namespace \<Rightarrow> visit list \<Rightarrow> process \<Rightarrow> bool" where
  "all_unrelated site other [] s = True"
| "all_unrelated site other (v # vs) s = (unrelated site other v s \<and> all_unrelated site other vs (snd (httpMux site v s)))"

lemma registerAdminRoutes_sheltered:
  assumes "admin_pages site = Some (integrity, secure, pages)" "unrelated site other v s"
  shows "sheltered other (ps_db s) (snd (snd (registerAdminRoutes integrity secure pages v (l, ps_db s))))"
proof -
  obtain h where h: "st_admin site = Some (integrity, h)" "NewHandler integrity h = Inr pages"
    using assms(1) by (auto simp: admin_pages_def split: option.splits sum.splits)
  have "sheltered other (ps_db s) (snd (pages (vi_env v) (vi_web v) (ps_db s)))"
    using assms(2) h by (intro admin_serve_sheltered) (auto simp: unrelated_def)
  then show ?thesis by (auto simp: registerAdminRoutes_def SecurityHeaders_def shelter.refl split: prod.splits Middleware.verdict.splits)
qed

lemma acts_for_truncate: "acts_for srv (incoming.truncate v) other \<longleftrightarrow> acts_for srv v other"
  by (simp add: acts_for_def incoming.defs)

lemma httpMux_sheltered:
  assumes "unrelated site other v s" "other \<noteq> []"
  shows "sheltered other (ps_db s) (ps_db (snd (httpMux site v s)))"
proof -
  have a: "alone (be_svc (ar_backend v))" "rq_ctx (ar_request v) = None" "\<not> acts_for (st_server site) v other"
    using assms(1) by (auto simp: unrelated_def)
  have "isolated other (ps_db s) (snd (snd (http_serve (st_server site) v (ps_gateway s, ps_db s))))"
    by (rule http_serve_isolated [OF a assms(2)])
  moreover have "isolated other (ps_db s) (snd (snd (mcp_serve (st_server site) (st_lib site) (incoming.truncate v) (ps_mcp s, ps_db s))))"
    using a by (intro mcp_serve_isolated) (simp add: incoming.defs, simp only: acts_for_truncate not_False_eq_True)
  ultimately show ?thesis
    using registerAdminRoutes_sheltered [OF _ assms(1), of _ _ _ "ps_admin s"] isolated_sheltered
    by (fastforce simp: httpMux_def Let_def shelter.refl split: prod.splits option.splits)
qed

lemma visits_sheltered:
  assumes "all_unrelated site other vs s" "other \<noteq> []"
  shows "sheltered other (ps_db s) (ps_db (fold (\<lambda>v s. snd (httpMux site v s)) vs s))"
  using assms(1)
proof (induction vs arbitrary: s)
  case Nil
  show ?case by (simp add: shelter.refl)
next
  case (Cons v vs)
  then have "sheltered other (ps_db s) (ps_db (snd (httpMux site v s)))" using assms(2) by (intro httpMux_sheltered) auto
  moreover have "sheltered other (ps_db (snd (httpMux site v s))) (ps_db (fold (\<lambda>v s. snd (httpMux site v s)) vs (snd (httpMux site v s))))"
    using Cons by simp
  ultimately show ?case by (simp add: shelter.trans [rotated])
qed

text \<open>
  C4: Tenants are isolated end to end. Whatever requests arrive at the server process, for the API, the MCP transport, the
  administration pages and the metrics, in any number and order, with any tokens, cookies, paths, bodies, tools and forms, and whatever the
  decoders, the rate limiters, the key lookups and the database answer: if none of them comes with a token that stands for a namespace, and none is
  a form of its signed-in owner, of a person the tailnet vouches for, or of the first installation, everything that namespace owns besides sign-in
  sessions stays as it is.
\<close>

theorem tenants_isolated_end_to_end:
  assumes "tenant_ok (ps_db s)" "other \<noteq> []" "all_unrelated site other vs s"
  shows "workspace other (ps_db (fold (\<lambda>v s. snd (httpMux site v s)) vs s)) = workspace other (ps_db s)"
  using visits_sheltered [OF assms(3,2)] assms(1) by (simp add: sheltered_def)

definition sample_server :: server where
  "sample_server = \<lparr>sr_unicode = sample_unicode, sr_origins = '''', sr_hash = (\<lambda>t. t), sr_fallback = ''''\<rparr>"

definition sample_decoder :: decoder where
  "sample_decoder = \<lparr>de_uuid = ml_Parse sample_lib, de_int = (\<lambda>k q. Inr None), de_bool = (\<lambda>k q. Inr None), de_string = (\<lambda>k q. Inr None),
     de_strings = (\<lambda>k q. Inr None), de_time = (\<lambda>k q. Inr None), de_quuid = (\<lambda>k q. Inr None), de_CreateJob = (\<lambda>b. Inl (ErrorMsg b)),
     de_UpdateJob = (\<lambda>b. Inl (ErrorMsg b)), de_CreateAPIKey = (\<lambda>b. Inl (ErrorMsg b)), de_ResolveSchedule = (\<lambda>b. Inl (ErrorMsg b))\<rparr>"

definition sample_call :: "string \<Rightarrow> string \<Rightarrow> incoming" where
  "sample_call method path = \<lparr>ar_request = sample_request,
     ar_message = \<lparr>ms_Method = method, ms_EscapedPath = path, ms_Query = [], ms_Body = []\<rparr>, ar_decoder = sample_decoder,
     ar_lookup = (\<lambda>h. Inr (sample_key\<lparr>key_Namespace := ''evil''\<rparr>)), ar_times = (5, 5, 5),
     ar_backend = \<lparr>be_svc = sample_svc, be_database = None, be_tailnet = None\<rparr>, in_closing = False, in_tool = ''delete-job'',
     in_args = [(''id'', JStr ''1'')], in_lookup2 = (\<lambda>h. Inl ErrAPIKeyNotFound), in_times = (5, 5)\<rparr>"

definition sample_incoming :: "string \<Rightarrow> string \<Rightarrow> visit" where
  "sample_incoming method path = incoming.extend (sample_call method path)
     (visit.fields ((sample_form ''02'')\<lparr>wr_Cookies := []\<rparr>) sample_web 5)"

definition sample_site :: site where
  "sample_site = \<lparr>st_server = sample_server, st_lib = sample_lib, st_admin = Some ('''', sample_admin), st_metrics = Some (''/metrics'', False)\<rparr>"

definition sample_process :: process where
  "sample_process = \<lparr>ps_gateway = sample_gateway, ps_mcp = (newIPRateLimiter 10 0, newNamespaceRateLimiter 100), ps_admin = newIPRateLimiter 10 0,
     ps_metrics = gw_auth sample_gateway, ps_db = sample_jobs\<rparr>"

definition sample_visits :: "visit list" where
  "sample_visits = [sample_incoming ''DELETE'' ''/jobs/1'', sample_incoming ''POST'' ''/mcp'', sample_incoming ''POST'' ''/admin/jobs/1/pause'']"

lemma sample_unrelated: "unrelated sample_site ''acme'' (sample_incoming m p) s"
proof -
  have "\<not> acts_for (st_server sample_site) (sample_incoming m p) ''acme''"
    by (auto simp: acts_for_def sample_incoming_def sample_call_def incoming.defs visit.defs grants_def sample_key_def)
  moreover have "\<not> authorized_change sample_admin sample_web ((sample_form ''02'')\<lparr>wr_Cookies := []\<rparr>) db ''acme''" for db
    by (auto simp: authorized_change_def may_change_def acts_for_session_def live_session_def installs_def signs_in_as_def from_own_form_def Cookie_def)
  ultimately show ?thesis
    by (simp add: unrelated_def sample_site_def sample_undisturbed) (simp add: sample_incoming_def sample_call_def incoming.defs visit.defs sample_request_def alone_sample sample_undisturbed)
qed

lemma sample_mux:
  assumes "is_clean p" "map pathUnescape (segments p) \<noteq> [''metrics'']" "hd (map pathUnescape (segments p)) \<noteq> ''admin''"
  shows "fst (httpMux sample_site (sample_incoming m p) s) =
    (if map pathUnescape (segments p) = [''mcp''] then McpReply (fst (mcp_serve sample_server sample_lib (sample_call m p) (ps_mcp s, ps_db s)))
     else ApiReply (fst (http_serve sample_server (sample_call m p) (ps_gateway s, ps_db s))))"
proof -
  have mp: "map pathUnescape (segments ''/metrics'') = [''metrics'']" by code_simp
  have t: "incoming.truncate (sample_incoming m p) = sample_call m p" by (simp add: sample_incoming_def incoming.defs)
  have h: "http_serve srv (sample_incoming m p) st = http_serve srv (sample_call m p) st" for srv st
    by (simp add: sample_incoming_def incoming.defs http_serve_def)
  have a: "ar_message (sample_incoming m p) = ar_message (sample_call m p)" by (simp add: sample_incoming_def incoming.defs)
  show ?thesis using assms mp unfolding httpMux_def Let_def a h t
    by (auto simp: sample_site_def sample_call_def split: prod.splits)
qed

theorem tenants_isolated_end_to_end_witness:
  "workspace ''acme'' (ps_db (fold (\<lambda>v s. snd (httpMux sample_site v s)) sample_visits sample_process)) = workspace ''acme'' sample_jobs
   \<and> fst (httpMux sample_site (sample_incoming ''DELETE'' ''/jobs/1'') sample_process)
     = ApiReply (404, BError ''job_not_found'' ''job not found'')
   \<and> fst (httpMux sample_site (sample_incoming ''POST'' ''/mcp'') sample_process)
     = McpReply (Inr (ToolError ''Job not found. Verify the job ID is correct and belongs to your namespace.''))"
proof (intro conjI)
  have "all_unrelated sample_site ''acme'' sample_visits sample_process" by (simp add: sample_visits_def sample_unrelated)
  then have "workspace ''acme'' (ps_db (fold (\<lambda>v s. snd (httpMux sample_site v s)) sample_visits sample_process)) = workspace ''acme'' (ps_db sample_process)"
    using sample_jobs_ok by (intro tenants_isolated_end_to_end) (auto simp: sample_process_def)
  then show "workspace ''acme'' (ps_db (fold (\<lambda>v s. snd (httpMux sample_site v s)) sample_visits sample_process)) = workspace ''acme'' sample_jobs"
    by (simp add: sample_process_def)
  have "is_clean ''/jobs/1''" "map pathUnescape (segments ''/jobs/1'') = [''jobs'', ''1'']" by code_simp+
  moreover have "fst (http_serve sample_server (sample_call ''DELETE'' ''/jobs/1'') (ps_gateway sample_process, ps_db sample_process))
      = (404, BError ''job_not_found'' ''job not found'')" by code_simp
  ultimately show "fst (httpMux sample_site (sample_incoming ''DELETE'' ''/jobs/1'') sample_process) = ApiReply (404, BError ''job_not_found'' ''job not found'')"
    by (simp add: sample_mux)
  have "is_clean ''/mcp''" "map pathUnescape (segments ''/mcp'') = [''mcp'']" by code_simp+
  moreover have "fst (mcp_serve sample_server sample_lib (sample_call ''POST'' ''/mcp'') (ps_mcp sample_process, ps_db sample_process))
      = Inr (ToolError ''Job not found. Verify the job ID is correct and belongs to your namespace.'')" by code_simp
  ultimately show "fst (httpMux sample_site (sample_incoming ''POST'' ''/mcp'') sample_process)
     = McpReply (Inr (ToolError ''Job not found. Verify the job ID is correct and belongs to your namespace.''))" by (simp add: sample_mux)
qed

end
